(* ===== verification/Prelude.thy ===== *)
theory Prelude
  imports Main "HOL-Library.Word" "HOL-Library.Monad_Syntax"
begin

text \<open>
  Shared vocabulary of the development: the machine types of the C sources, the value of
  the \<open>errno\<close> codes, the \<open>named_theorems\<close> collections the component theories
  fill, and generic facts about lists and words that several components use.

  Conventions. A \<open>uintN_t\<close> that can wrap is an \<open>N word\<close>; a C \<open>int\<close> whose
  value the code keeps far from its limits is an \<open>int\<close>; small unsigned counters that
  the code only compares or indexes with are \<open>nat\<close>. A C array is a list; an access
  out of its bounds is never given a meaning by the model. A function that returns a
  negative \<open>errno\<close> returns that value as an \<open>int\<close>.
\<close>

unbundle bit_operations_syntax

type_synonym u8 = "8 word"
type_synonym u16 = "16 word"
type_synonym u32 = "32 word"
type_synonym u64 = "64 word"

text \<open>An unpacked hard bit (\<open>ubit_t\<close>), a soft bit (\<open>sbit_t\<close>, signed).\<close>

type_synonym ubit = u8
type_synonym sbit = "8 word"

named_theorems burst_simps "facts on composing and cutting bursts"
named_theorems queue_simps "facts on the transmit queue"
named_theorems lchan_simps "facts on logical channel state"

section \<open>Error codes\<close>

text \<open>Linux values, as \<open>errno.h\<close> gives them.\<close>

abbreviation (input) EIO :: int where "EIO \<equiv> 5"
abbreviation (input) EAGAIN :: int where "EAGAIN \<equiv> 11"
abbreviation (input) ENOMEM :: int where "ENOMEM \<equiv> 12"
abbreviation (input) ENODEV :: int where "ENODEV \<equiv> 19"
abbreviation (input) EINVAL :: int where "EINVAL \<equiv> 22"
abbreviation (input) ERANGE :: int where "ERANGE \<equiv> 34"
abbreviation (input) ENOTSUP :: int where "ENOTSUP \<equiv> 95"
abbreviation (input) EALREADY :: int where "EALREADY \<equiv> 114"

section \<open>Arrays\<close>

text \<open>Reading one element of an array, \<open>None\<close> out of its bounds.\<close>

definition mem_at :: "'a list \<Rightarrow> nat \<Rightarrow> 'a option" where
  "mem_at buf i = (if i < length buf then Some (buf ! i) else None)"

lemma mem_at_Some_iff: "mem_at buf i = Some x \<longleftrightarrow> i < length buf \<and> buf ! i = x"
  by (auto simp: mem_at_def)

section \<open>Words\<close>

lemma unat_u8_less: "unat (w :: u8) < 256"
  using unsigned_less [of w, where ?'a = nat] by simp

lemma unat_u16_less: "unat (w :: u16) < 65536"
  using unsigned_less [of w, where ?'a = nat] by simp

lemma uint_ucast_small:
  "uint (w :: 'a::len word) < 2 ^ LENGTH('b) \<Longrightarrow> uint (ucast w :: 'b::len word) = uint w"
  by (simp add: unsigned_ucast_eq take_bit_int_eq_self)

lemma unat_ucast_small:
  "unat (w :: 'a::len word) < 2 ^ LENGTH('b) \<Longrightarrow> unat (ucast w :: 'b::len word) = unat w"
  by (simp add: unsigned_ucast_eq take_bit_nat_eq_self)

section \<open>Lists\<close>

text \<open>\<open>memcpy(buf + off, src, length src)\<close> inside a buffer that is large enough.\<close>

definition blit :: "'a list \<Rightarrow> nat \<Rightarrow> 'a list \<Rightarrow> 'a list" where
  "blit buf off src = take off buf @ src @ drop (off + length src) buf"

lemma length_blit [simp]:
  "off + length src \<le> length buf \<Longrightarrow> length (blit buf off src) = length buf"
  by (simp add: blit_def)

lemma nth_blit:
  assumes "off + length src \<le> length buf" "i < length buf"
  shows "blit buf off src ! i =
    (if i < off then buf ! i
     else if i < off + length src then src ! (i - off) else buf ! i)"
  using assms by (auto simp: blit_def nth_append min_def)

lemma take_drop_blit:
  "off + length src \<le> length buf \<Longrightarrow> take (length src) (drop off (blit buf off src)) = src"
  by (simp add: blit_def)

text \<open>The first element that satisfies a predicate, and the list without it.\<close>

fun remove_first :: "('a \<Rightarrow> bool) \<Rightarrow> 'a list \<Rightarrow> 'a list" where
  "remove_first P [] = []"
| "remove_first P (x # xs) = (if P x then xs else x # remove_first P xs)"

lemma find_SomeD: "find P xs = Some x \<Longrightarrow> x \<in> set xs \<and> P x"
  by (auto simp: find_Some_iff)

lemma find_filter: "find P xs = (case filter P xs of [] \<Rightarrow> None | x # _ \<Rightarrow> Some x)"
  by (induction xs) auto

lemma remove_first_id: "find P xs = None \<Longrightarrow> remove_first P xs = xs"
  by (induction xs) (auto split: if_splits)

lemma filter_remove_first: "filter P (remove_first P xs) = tl (filter P xs)"
  by (induction xs) auto

lemma filter_remove_first_other:
  "(\<And>x. P x \<Longrightarrow> \<not> Q x) \<Longrightarrow> filter Q (remove_first P xs) = filter Q xs"
  by (induction xs) auto

lemma length_remove_first:
  "length (remove_first P xs) = (if find P xs = None then length xs else length xs - 1)"
proof (induction xs)
  case (Cons x xs)
  then show ?case by (cases xs) auto
qed simp

lemma set_remove_first: "set (remove_first P xs) \<subseteq> set xs"
  by (induction xs) auto

end
