(* ===== verification/TdmaTime.thy ===== *)
theory TdmaTime
  imports Prelude "HOL-Library.Signed_Division"
begin

text \<open>
  TDMA frame numbers: the modular arithmetic macros of \<open>libosmocore\<close>'s
  \<open>include/osmocom/gsm/gsm0502.h\<close>, the conversion between a frame number and the
  \<open>gsm_time\<close> structure (\<open>src/gsm/gsm_utils.c\<close>), and the block remapping and the
  frequency hopping generator of \<open>src/gsm/gsm0502.c\<close> together with the hopping
  generator of the firmware's layer 1 (\<open>target/firmware/layer1/rfch.c\<close>).

  The lemmas show that the macros are arithmetic modulo the hyperframe, that the two
  directions of the time conversion are inverse to each other, that the remap table names
  the first frame of the block the given frame ends, and that the hopping sequence stays
  inside the mobile allocation, keeps mobiles with different offsets apart and is the same
  in the library and in the firmware.
\<close>

section \<open>Modular arithmetic\<close>

abbreviation (input) GSM_TDMA_SUPERFRAME :: "'a::numeral" where
  "GSM_TDMA_SUPERFRAME \<equiv> 1326"

abbreviation (input) GSM_TDMA_HYPERFRAME :: "'a::numeral" where
  "GSM_TDMA_HYPERFRAME \<equiv> 2715648"

text \<open>The macros on \<open>uint32_t\<close> operands.\<close>

definition gsm_tdma_fn_sum :: "u32 \<Rightarrow> u32 \<Rightarrow> u32" where
  "gsm_tdma_fn_sum a b = (a + b) mod GSM_TDMA_HYPERFRAME"

definition gsm_tdma_fn_sub :: "u32 \<Rightarrow> u32 \<Rightarrow> u32" where
  "gsm_tdma_fn_sub a b = (a + GSM_TDMA_HYPERFRAME - b) mod GSM_TDMA_HYPERFRAME"

definition gsm_tdma_fn_diff :: "u32 \<Rightarrow> u32 \<Rightarrow> u32" where
  "gsm_tdma_fn_diff a b = min (gsm_tdma_fn_sub a b) (gsm_tdma_fn_sub b a)"

definition gsm_tdma_fn_inc :: "u32 \<Rightarrow> u32" where
  "gsm_tdma_fn_inc fn = gsm_tdma_fn_sum fn 1"

definition gsm_tdma_fn_dec :: "u32 \<Rightarrow> u32" where
  "gsm_tdma_fn_dec fn = gsm_tdma_fn_sub fn 1"

text \<open>A frame number the macros can return.\<close>

abbreviation valid_fn :: "u32 \<Rightarrow> bool" where
  "valid_fn fn \<equiv> unat fn < GSM_TDMA_HYPERFRAME"

lemma unat_fn_sum:
  assumes "valid_fn a" "valid_fn b"
  shows "unat (gsm_tdma_fn_sum a b) = (unat a + unat b) mod GSM_TDMA_HYPERFRAME"
  using assms by (simp add: gsm_tdma_fn_sum_def unat_mod unat_word_ariths)

lemma valid_fn_mod [simp]: "valid_fn (x mod GSM_TDMA_HYPERFRAME)"
  by (simp add: unat_mod)

lemma valid_fn_sum [simp]: "valid_fn (gsm_tdma_fn_sum a b)"
  by (simp add: gsm_tdma_fn_sum_def)

lemma valid_fn_sub [simp]: "valid_fn (gsm_tdma_fn_sub a b)"
  by (simp add: gsm_tdma_fn_sub_def)

lemma valid_fn_inc [simp]: "valid_fn (gsm_tdma_fn_inc a)"
  by (simp add: gsm_tdma_fn_inc_def)

lemma unat_fn_inc:
  "valid_fn a \<Longrightarrow> unat (gsm_tdma_fn_inc a) = Suc (unat a) mod GSM_TDMA_HYPERFRAME"
  by (simp add: gsm_tdma_fn_inc_def unat_fn_sum)

lemma unat_fn_sub:
  assumes "valid_fn a" "valid_fn b"
  shows "unat (gsm_tdma_fn_sub a b) =
    (unat a + GSM_TDMA_HYPERFRAME - unat b) mod GSM_TDMA_HYPERFRAME"
proof -
  have "unat (a + GSM_TDMA_HYPERFRAME) = unat a + GSM_TDMA_HYPERFRAME"
    using assms by (simp add: unat_word_ariths)
  moreover from this assms have "unat (a + GSM_TDMA_HYPERFRAME - b)
      = unat a + GSM_TDMA_HYPERFRAME - unat b"
    by (subst unat_sub) (auto simp: word_le_nat_alt)
  ultimately show ?thesis by (simp add: gsm_tdma_fn_sub_def unat_mod)
qed

lemma fn_sum_sub:
  assumes "valid_fn a" "valid_fn b"
  shows "gsm_tdma_fn_sum (gsm_tdma_fn_sub a b) b = a"
proof -
  have "unat (gsm_tdma_fn_sum (gsm_tdma_fn_sub a b) b) = unat a"
    using assms by (simp add: unat_fn_sum unat_fn_sub mod_add_left_eq)
  then show ?thesis by (simp add: word_unat_eq_iff)
qed

lemma fn_sub_sum:
  assumes "valid_fn a" "valid_fn b"
  shows "gsm_tdma_fn_sub (gsm_tdma_fn_sum a b) b = a"
proof -
  have *: "unat a + unat b + GSM_TDMA_HYPERFRAME - unat b = unat a + GSM_TDMA_HYPERFRAME"
    by simp
  have "unat (gsm_tdma_fn_sub (gsm_tdma_fn_sum a b) b) = unat a"
  proof (cases "unat a + unat b < GSM_TDMA_HYPERFRAME")
    case True
    then show ?thesis using assms by (simp add: unat_fn_sum unat_fn_sub *)
  next
    case False
    then have "(unat a + unat b) mod GSM_TDMA_HYPERFRAME = unat a + unat b - GSM_TDMA_HYPERFRAME"
      using assms by (simp add: mod_if)
    then show ?thesis using assms False by (simp add: unat_fn_sum unat_fn_sub)
  qed
  then show ?thesis by (simp add: word_unat_eq_iff)
qed

section \<open>GSM time\<close>

record gsm_time =
  gt_fn :: u32
  gt_t1 :: u16
  gt_t2 :: u8
  gt_t3 :: u8
  gt_tc :: u8

definition gsm_fn2gsmtime :: "u32 \<Rightarrow> gsm_time" where
  "gsm_fn2gsmtime fn =
    \<lparr>gt_fn = fn, gt_t1 = ucast (fn div 1326), gt_t2 = ucast (fn mod 26),
     gt_t3 = ucast (fn mod 51), gt_tc = ucast ((fn div 51) mod 8)\<rparr>"

text \<open>The operands are promoted to \<open>int\<close>; \<open>%\<close> of C truncates.\<close>

definition gsm_gsmtime2fn :: "gsm_time \<Rightarrow> u32" where
  "gsm_gsmtime2fn t =
    word_of_int (51 * ((uint (gt_t3 t) - uint (gt_t2 t) + 26) smod 26)
      + uint (gt_t3 t) + 26 * 51 * uint (gt_t1 t))"

lemma smod_nonneg: "0 \<le> a \<Longrightarrow> 0 < b \<Longrightarrow> (a::int) smod b = a mod b"
  by (simp add: smod_int_alt_def sgn_if)

text \<open>The arithmetic core: a number below the superframe from its residues.\<close>

lemma residue_51_26:
  fixes n :: int
  shows "(n mod 51 - n mod 26 + 26) mod 26 = (n div 51) mod 26"
proof -
  have "(n mod 51 - n mod 26 + 26) mod 26 = (n mod 51 - n) mod 26"
    by (simp add: mod_simps)
  also have "n mod 51 - n = n div 51 + (- 2 * (n div 51)) * 26"
    using div_mult_mod_eq [of n 51] by linarith
  also have "\<dots> mod 26 = (n div 51) mod 26"
    by (rule mod_mult_self1)
  finally show ?thesis .
qed

lemma crt_26_51:
  fixes n :: int
  assumes "0 \<le> n" "n < 1326"
  shows "51 * ((n mod 51 - n mod 26 + 26) mod 26) + n mod 51 = n"
proof -
  have "(n div 51) mod 26 = n div 51"
    using assms by (intro mod_pos_pos_trivial) auto
  then show ?thesis by (simp only: residue_51_26 mult_div_mod_eq)
qed

lemma uint_less_hyperframe: "valid_fn fn \<Longrightarrow> uint fn < GSM_TDMA_HYPERFRAME"
  using uint_nat [of fn] by linarith

lemma uint_fn2gsmtime:
  assumes "valid_fn fn"
  shows "uint (gt_t1 (gsm_fn2gsmtime fn)) = uint fn div 1326"
    and "uint (gt_t2 (gsm_fn2gsmtime fn)) = uint fn mod 26"
    and "uint (gt_t3 (gsm_fn2gsmtime fn)) = uint fn mod 51"
proof -
  have lt: "uint fn < GSM_TDMA_HYPERFRAME" by (rule uint_less_hyperframe [OF assms])
  have "uint fn div 1326 < 2048" using lt by (simp add: div_less_iff_less_mult)
  then show "uint (gt_t1 (gsm_fn2gsmtime fn)) = uint fn div 1326"
    by (simp add: gsm_fn2gsmtime_def uint_ucast_small uint_div)
  have "uint fn mod 26 < 26" and "uint fn mod 51 < 51" by simp_all
  then have "uint fn mod 26 < 256" "uint fn mod 51 < 256" by linarith+
  then show "uint (gt_t2 (gsm_fn2gsmtime fn)) = uint fn mod 26"
    and "uint (gt_t3 (gsm_fn2gsmtime fn)) = uint fn mod 51"
    by (simp_all add: gsm_fn2gsmtime_def uint_ucast_small uint_mod)
qed

lemma fn2gsmtime2fn:
  assumes "valid_fn fn"
  shows "gsm_gsmtime2fn (gsm_fn2gsmtime fn) = fn"
proof -
  let ?n = "uint fn"
  let ?m = "?n mod 1326"
  have "?m mod 51 = ?n mod 51" and "?m mod 26 = ?n mod 26"
    by (simp_all add: mod_mod_cancel)
  moreover have "0 \<le> ?m" and "?m < 1326" by simp_all
  ultimately have crt: "51 * ((?n mod 51 - ?n mod 26 + 26) mod 26) + ?n mod 51 = ?m"
    using crt_26_51 [of ?m] by (simp only:)
  have "?n mod 26 < 26" by simp
  then have pos: "0 \<le> ?n mod 51 - ?n mod 26 + 26"
    using pos_mod_sign [of 51 ?n] by linarith
  have "gsm_gsmtime2fn (gsm_fn2gsmtime fn) =
      word_of_int (51 * ((?n mod 51 - ?n mod 26 + 26) smod 26) + ?n mod 51 + 1326 * (?n div 1326))"
    by (simp add: gsm_gsmtime2fn_def uint_fn2gsmtime [OF assms])
  also have "\<dots> = word_of_int (?m + 1326 * (?n div 1326))"
    using pos by (simp only: smod_nonneg crt zero_less_numeral)
  also have "\<dots> = fn" by (simp only: mod_mult_div_eq word_of_int_uint)
  finally show ?thesis .
qed

text \<open>The other direction: a time of the hyperframe is recovered from its frame number.\<close>

lemma gsmtime2fn2gsmtime:
  assumes "uint (gt_t1 t) < 2048" "uint (gt_t2 t) < 26" "uint (gt_t3 t) < 51"
  shows "valid_fn (gsm_gsmtime2fn t)"
    and "gt_t1 (gsm_fn2gsmtime (gsm_gsmtime2fn t)) = gt_t1 t"
    and "gt_t2 (gsm_fn2gsmtime (gsm_gsmtime2fn t)) = gt_t2 t"
    and "gt_t3 (gsm_fn2gsmtime (gsm_gsmtime2fn t)) = gt_t3 t"
proof -
  define q where "q = (uint (gt_t3 t) - uint (gt_t2 t) + 26) mod 26"
  define n where "n = 51 * q + uint (gt_t3 t) + 1326 * uint (gt_t1 t)"
  have q: "0 \<le> q" "q < 26" by (simp_all add: q_def)
  have pos: "0 \<le> uint (gt_t3 t) - uint (gt_t2 t) + 26"
    using assms(2) uint_ge_0 [of "gt_t3 t"] by linarith
  have n_bounds: "0 \<le> n" "n < GSM_TDMA_HYPERFRAME"
    using q assms uint_ge_0 [of "gt_t3 t"] uint_ge_0 [of "gt_t1 t"]
    unfolding n_def by linarith+
  have fn: "gsm_gsmtime2fn t = word_of_int n"
    using pos by (simp add: gsm_gsmtime2fn_def smod_nonneg q_def n_def)
  have u: "uint (word_of_int n :: u32) = n"
    using n_bounds by (simp add: uint_word_of_int mod_pos_pos_trivial)
  have "int (unat (word_of_int n :: u32)) = n" by (simp only: uint_nat [symmetric] u)
  then show v: "valid_fn (gsm_gsmtime2fn t)"
    using n_bounds unfolding fn by linarith
  have t1: "n div 1326 = uint (gt_t1 t)"
  proof -
    have "n = (51 * q + uint (gt_t3 t)) + 1326 * uint (gt_t1 t)" by (simp add: n_def)
    moreover have "(51 * q + uint (gt_t3 t)) div 1326 = 0"
      using q assms(3) uint_ge_0 [of "gt_t3 t"] by (intro div_pos_pos_trivial) linarith+
    ultimately show ?thesis by simp
  qed
  have "n = uint (gt_t3 t) + (q + 26 * uint (gt_t1 t)) * 51" by (simp add: n_def)
  then have t3: "n mod 51 = uint (gt_t3 t)"
    using assms(3) by (simp only: mod_mult_self1) (simp add: mod_pos_pos_trivial)
  have t2: "n mod 26 = uint (gt_t2 t)"
  proof -
    have "n mod 26 = (uint (gt_t3 t) - q) mod 26"
    proof -
      have "n = (uint (gt_t3 t) - q) + (2 * q + 51 * uint (gt_t1 t)) * 26"
        by (simp add: n_def)
      then show ?thesis by (simp only: mod_mult_self1)
    qed
    also have "\<dots> = (uint (gt_t3 t) - (uint (gt_t3 t) - uint (gt_t2 t) + 26)) mod 26"
      by (simp only: q_def mod_diff_right_eq)
    also have "\<dots> = (uint (gt_t2 t) + (- 1) * 26) mod 26"
      by simp
    also have "\<dots> = uint (gt_t2 t)"
      using assms(2) by (simp only: mod_mult_self1) (simp add: mod_pos_pos_trivial)
    finally show ?thesis .
  qed
  show "gt_t1 (gsm_fn2gsmtime (gsm_gsmtime2fn t)) = gt_t1 t"
    using uint_fn2gsmtime(1) [OF v] by (simp add: word_uint_eq_iff fn u t1)
  show "gt_t2 (gsm_fn2gsmtime (gsm_gsmtime2fn t)) = gt_t2 t"
    using uint_fn2gsmtime(2) [OF v] by (simp add: word_uint_eq_iff fn u t2)
  show "gt_t3 (gsm_fn2gsmtime (gsm_gsmtime2fn t)) = gt_t3 t"
    using uint_fn2gsmtime(3) [OF v] by (simp add: word_uint_eq_iff fn u t3)
qed

section \<open>Block remapping\<close>

datatype gsm0502_fn_remap_channel =
    FN_REMAP_TCH_F | FN_REMAP_TCH_H0 | FN_REMAP_TCH_H1
  | FN_REMAP_FACCH_F | FN_REMAP_FACCH_H0 | FN_REMAP_FACCH_H1

definition gsm0502_tch_f_traffic_block_map :: "nat list list" where
  "gsm0502_tch_f_traffic_block_map =
    [[0, 1, 2, 3, 4, 5, 6, 7], [4, 5, 6, 7, 8, 9, 10, 11], [8, 9, 10, 11, 0, 1, 2, 3]]"

definition gsm0502_tch_h0_traffic_block_map :: "nat list list" where
  "gsm0502_tch_h0_traffic_block_map = [[0, 2, 4, 6], [4, 6, 8, 10], [8, 10, 0, 2]]"

definition gsm0502_tch_h1_traffic_block_map :: "nat list list" where
  "gsm0502_tch_h1_traffic_block_map = [[1, 3, 5, 7], [5, 7, 9, 11], [9, 11, 1, 3]]"

definition gsm0502_tch_f_facch_block_map :: "nat list list" where
  "gsm0502_tch_f_facch_block_map =
    [[0, 1, 2, 3, 4, 5, 6, 7], [4, 5, 6, 7, 8, 9, 10, 11], [8, 9, 10, 11, 0, 1, 2, 3]]"

definition gsm0502_tch_h0_facch_block_map :: "nat list list" where
  "gsm0502_tch_h0_facch_block_map =
    [[0, 2, 4, 6, 8, 10], [8, 10, 13, 15, 17, 19], [17, 19, 21, 23, 0, 2]]"

definition gsm0502_tch_h1_facch_block_map :: "nat list list" where
  "gsm0502_tch_h1_facch_block_map =
    [[1, 3, 5, 7, 9, 11], [9, 11, 14, 16, 18, 20], [18, 20, 22, 24, 1, 3]]"

record fn_remap_table =
  rt_cycle :: nat
  rt_blockend :: "nat list"
  rt_distance :: "nat list"

text \<open>The macro that fills a table; the lists have the length \<open>len\<close>.\<close>

definition fn_remap_table_from_traffic_block_map :: "nat list list \<Rightarrow> nat \<Rightarrow> fn_remap_table" where
  "fn_remap_table_from_traffic_block_map bmap rep =
    \<lparr>rt_cycle = rep,
     rt_blockend = map last bmap,
     rt_distance = map (\<lambda>row. if hd row \<le> last row then last row - hd row
                              else rep - hd row + last row) bmap\<rparr>"

text \<open>\<open>fn_remap_tables_build\<close>: the map and the cycle of a channel, and its table.\<close>

fun fn_remap_map :: "gsm0502_fn_remap_channel \<Rightarrow> nat list list" where
  "fn_remap_map FN_REMAP_TCH_F = gsm0502_tch_f_traffic_block_map"
| "fn_remap_map FN_REMAP_TCH_H0 = gsm0502_tch_h0_traffic_block_map"
| "fn_remap_map FN_REMAP_TCH_H1 = gsm0502_tch_h1_traffic_block_map"
| "fn_remap_map FN_REMAP_FACCH_F = gsm0502_tch_f_facch_block_map"
| "fn_remap_map FN_REMAP_FACCH_H0 = gsm0502_tch_h0_facch_block_map"
| "fn_remap_map FN_REMAP_FACCH_H1 = gsm0502_tch_h1_facch_block_map"

fun fn_remap_cycle :: "gsm0502_fn_remap_channel \<Rightarrow> nat" where
  "fn_remap_cycle FN_REMAP_TCH_F = 13"
| "fn_remap_cycle FN_REMAP_TCH_H0 = 13"
| "fn_remap_cycle FN_REMAP_TCH_H1 = 13"
| "fn_remap_cycle FN_REMAP_FACCH_F = 13"
| "fn_remap_cycle FN_REMAP_FACCH_H0 = 26"
| "fn_remap_cycle FN_REMAP_FACCH_H1 = 26"

definition fn_remap_table_ptr :: "gsm0502_fn_remap_channel \<Rightarrow> fn_remap_table" where
  "fn_remap_table_ptr ch = fn_remap_table_from_traffic_block_map (fn_remap_map ch) (fn_remap_cycle ch)"

text \<open>\<open>GSM_MAX_FN\<close> is the hyperframe.\<close>

definition gsm0502_fn_remap :: "u32 \<Rightarrow> gsm0502_fn_remap_channel \<Rightarrow> u32" where
  "gsm0502_fn_remap fn ch =
    (let table = fn_remap_table_ptr ch;
         fn_cycle = unat fn mod rt_cycle table
     in case find (\<lambda>(e, d). e = fn_cycle) (zip (rt_blockend table) (rt_distance table)) of
          None \<Rightarrow> fn
        | Some (e, d) \<Rightarrow> (fn + GSM_TDMA_HYPERFRAME - of_nat d) mod GSM_TDMA_HYPERFRAME)"

lemmas fn_remap_maps =
  gsm0502_tch_f_traffic_block_map_def gsm0502_tch_h0_traffic_block_map_def
  gsm0502_tch_h1_traffic_block_map_def gsm0502_tch_f_facch_block_map_def
  gsm0502_tch_h0_facch_block_map_def gsm0502_tch_h1_facch_block_map_def

text \<open>Going back \<open>d\<close> frames, seen modulo a divisor of the hyperframe.\<close>

lemma fn_back_mod:
  assumes "valid_fn fn" "d < GSM_TDMA_HYPERFRAME" "c dvd GSM_TDMA_HYPERFRAME"
  shows "unat (gsm_tdma_fn_sub fn (of_nat d)) mod c =
    (unat fn + GSM_TDMA_HYPERFRAME - d) mod c"
proof -
  have d: "unat (of_nat d :: u32) = d"
    using assms(2) by (simp add: unat_of_nat)
  show ?thesis
    using assms by (simp add: unat_fn_sub d mod_mod_cancel)
qed

lemma fn_back_distance:
  assumes "valid_fn fn" "d < GSM_TDMA_HYPERFRAME"
  shows "gsm_tdma_fn_sub fn (gsm_tdma_fn_sub fn (of_nat d)) = of_nat d"
proof -
  have d: "unat (of_nat d :: u32) = d" "valid_fn (of_nat d)"
    using assms(2) by (simp_all add: unat_of_nat)
  have "gsm_tdma_fn_sum (of_nat d) (gsm_tdma_fn_sub fn (of_nat d)) = fn"
    using fn_sum_sub [OF assms(1) d(2)] by (simp add: gsm_tdma_fn_sum_def add.commute)
  then show ?thesis
    using fn_sub_sum [OF d(2) valid_fn_sub, of fn "of_nat d"] by simp
qed

definition row_distance :: "nat list \<Rightarrow> nat \<Rightarrow> nat" where
  "row_distance row rep =
    (if hd row \<le> last row then last row - hd row else rep - hd row + last row)"

lemma find_zip_map:
  "distinct (map g xs) \<Longrightarrow> x \<in> set xs \<Longrightarrow>
   find (\<lambda>(e, d). e = g x) (zip (map g xs) (map f xs)) = Some (g x, f x)"
  by (induction xs) auto

lemma fn_remap_map_distinct: "distinct (map last (fn_remap_map ch))"
  by (cases ch) (simp_all add: fn_remap_maps)

lemma fn_remap_row:
  assumes "row \<in> set (fn_remap_map ch)" "unat fn mod fn_remap_cycle ch = last row"
  shows "gsm0502_fn_remap fn ch = gsm_tdma_fn_sub fn (of_nat (row_distance row (fn_remap_cycle ch)))"
  using find_zip_map [OF fn_remap_map_distinct assms(1),
      where f = "\<lambda>row. row_distance row (fn_remap_cycle ch)"] assms(2)
  by (simp add: gsm0502_fn_remap_def fn_remap_table_ptr_def gsm_tdma_fn_sub_def
       fn_remap_table_from_traffic_block_map_def row_distance_def [abs_def])

lemma row_distance_props:
  assumes "row \<in> set (fn_remap_map ch)"
  shows "row_distance row (fn_remap_cycle ch) < fn_remap_cycle ch"
    and "(last row + fn_remap_cycle ch - row_distance row (fn_remap_cycle ch))
           mod fn_remap_cycle ch = hd row"
    and "fn_remap_cycle ch dvd GSM_TDMA_HYPERFRAME"
  using assms by (cases ch; auto simp: row_distance_def fn_remap_maps)+

lemma mod_add_multiple_diff:
  fixes c d h n :: nat
  assumes "c dvd h" "d \<le> c" "c \<le> h"
  shows "(n + h - d) mod c = (n mod c + c - d) mod c"
proof -
  from assms(1) obtain k where k: "h = c * k" by (elim dvdE)
  show ?thesis
  proof (cases "c = 0")
    case False
    then obtain j where j: "h = c + c * j"
      using k assms(3) by (metis Suc_pred' gr0I le_zero_eq mult_0_right mult_Suc_right)
    have n: "n = n mod c + n div c * c" by simp
    have "n + h - d = (n mod c + c - d) + (n div c + j) * c"
      using assms(2) j by (subst n) (simp add: algebra_simps)
    then show ?thesis by (simp only: mod_mult_self1)
  qed (use assms k in simp)
qed

text \<open>
  The remapped frame number is the first frame of the block: it sits at the block's first
  position in the cycle and lies less than one cycle before the block's last frame.
\<close>

lemma fn_remap_first_frame:
  assumes "valid_fn fn" "row \<in> set (fn_remap_map ch)" "unat fn mod fn_remap_cycle ch = last row"
  shows "valid_fn (gsm0502_fn_remap fn ch)"
    and "unat (gsm0502_fn_remap fn ch) mod fn_remap_cycle ch = hd row"
    and "unat (gsm_tdma_fn_sub fn (gsm0502_fn_remap fn ch)) < fn_remap_cycle ch"
proof -
  let ?c = "fn_remap_cycle ch"
  let ?d = "row_distance row ?c"
  note r = fn_remap_row [OF assms(2,3)]
  note d = row_distance_props [OF assms(2)]
  have c: "?c \<le> 26" by (cases ch) simp_all
  have d_hf: "?d < GSM_TDMA_HYPERFRAME" using d(1) c by linarith
  show "valid_fn (gsm0502_fn_remap fn ch)" by (simp add: r)
  have "unat (gsm0502_fn_remap fn ch) mod ?c = (unat fn + GSM_TDMA_HYPERFRAME - ?d) mod ?c"
    unfolding r by (rule fn_back_mod [OF assms(1) d_hf d(3)])
  also have "\<dots> = (unat fn mod ?c + ?c - ?d) mod ?c"
    using d(1) c by (intro mod_add_multiple_diff d(3)) linarith+
  finally show "unat (gsm0502_fn_remap fn ch) mod ?c = hd row"
    using d(2) assms(3) by simp
  have "gsm_tdma_fn_sub fn (gsm0502_fn_remap fn ch) = of_nat ?d"
    unfolding r by (rule fn_back_distance [OF assms(1) d_hf])
  then show "unat (gsm_tdma_fn_sub fn (gsm0502_fn_remap fn ch)) < ?c"
    using d(1) d_hf by (simp add: unat_of_nat)
qed

section \<open>Frequency hopping\<close>

definition rn_table :: "nat list" where
  "rn_table = [
     48,  98,  63,   1,  36,  95,  78, 102,  94,  73,
      0,  64,  25,  81,  76,  59, 124,  23, 104, 100,
    101,  47, 118,  85,  18,  56,  96,  86,  54,   2,
     80,  34, 127,  13,   6,  89,  57, 103,  12,  74,
     55, 111,  75,  38, 109,  71, 112,  29,  11,  88,
     87,  19,   3,  68, 110,  26,  33,  31,   8,  45,
     82,  58,  40, 107,  32,   5, 106,  92,  62,  67,
     77, 108, 122,  37,  60,  66, 121,  42,  51, 126,
    117, 114,   4,  90,  43,  52,  53, 113, 120,  72,
     16,  49,   7,  79, 119,  61,  22,  84,   9,  97,
     91,  15,  21,  24,  46,  39,  93, 105,  65,  70,
    125,  99,  17, 123]"

text \<open>
  The mobile allocation index; \<open>n\<close> is the \<open>size_t\<close> argument. \<open>None\<close> is a read
  outside the table of random numbers or of the mobile allocation, or a division by zero.
\<close>

definition gsm0502_hop_mai :: "gsm_time \<Rightarrow> u8 \<Rightarrow> u8 \<Rightarrow> nat \<Rightarrow> nat option" where
  "gsm0502_hop_mai t hsn maio n =
    (if n = 0 then None
     else if hsn = 0 then Some (unat (gt_fn t + ucast maio) mod n)
     else do {
       r \<leftarrow> mem_at rn_table (unat (ucast hsn XOR (gt_t1 t AND 63)) + unat (gt_t3 t));
       let pnm = drop_bit 0 n OR drop_bit 1 n OR drop_bit 2 n OR drop_bit 3 n
                 OR drop_bit 4 n OR drop_bit 5 n OR drop_bit 6 n;
           m = unat (gt_t2 t) + r;
           mp = m AND pnm;
           s = (if mp < n then mp else (mp + (unat (gt_t3 t) AND pnm)) mod n)
       in Some ((s + unat maio) mod n)
     })"

definition gsm0502_hop_seq_gen ::
    "gsm_time \<Rightarrow> u8 \<Rightarrow> u8 \<Rightarrow> nat \<Rightarrow> u16 list option \<Rightarrow> u16 option" where
  "gsm0502_hop_seq_gen t hsn maio n ma = do {
     mai \<leftarrow> gsm0502_hop_mai t hsn maio n;
     case ma of Some tbl \<Rightarrow> mem_at tbl mai | None \<Rightarrow> Some (of_nat mai)
   }"

text \<open>The firmware's copy: \<open>n\<close> is a \<open>uint8_t\<close>, the result an \<open>int16_t\<close>.\<close>

definition pow_nbin_mask :: "nat \<Rightarrow> nat" where
  "pow_nbin_mask n = n OR drop_bit 1 n OR drop_bit 2 n OR drop_bit 3 n
     OR drop_bit 4 n OR drop_bit 5 n OR drop_bit 6 n"

definition rfch_hop_seq_gen :: "gsm_time \<Rightarrow> u8 \<Rightarrow> u8 \<Rightarrow> u8 \<Rightarrow> u16 list option \<Rightarrow> 16 word option" where
  "rfch_hop_seq_gen t hsn maio n arfcn_tbl =
    (if n = 0 then None
     else do {
       mai \<leftarrow>
         (if hsn = 0 then Some (unat ((gt_fn t + ucast maio) mod ucast n))
          else do {
            r \<leftarrow> mem_at rn_table (unat (ucast hsn XOR (gt_t1 t AND 63)) + unat (gt_t3 t));
            let pnm = pow_nbin_mask (unat n);
                m = unat (gt_t2 t) + r;
                mp = m AND pnm;
                s = (if mp < unat n then mp else (mp + (unat (gt_t3 t) AND pnm)) mod unat n)
            in Some ((s + unat maio) mod unat n)
          });
       case arfcn_tbl of Some tbl \<Rightarrow> mem_at tbl mai | None \<Rightarrow> Some (of_nat mai)
     })"

subsection \<open>The algorithm of the standard\<close>

text \<open>
  3GPP TS 45.002, 6.2.3, in plain arithmetic: \<open>NBIN\<close> is the number of bits that represent the
  number \<open>n\<close> of frequencies, and the masks of the code are remainders modulo \<open>2\<^sup>NBIN\<close>.
\<close>

fun nbin :: "nat \<Rightarrow> nat" where
  "nbin n = (if n = 0 then 0 else Suc (nbin (n div 2)))"

declare nbin.simps [simp del]

lemma nbin_simps: "nbin 0 = 0" "0 < n \<Longrightarrow> nbin n = Suc (nbin (n div 2))"
  by (simp_all add: nbin.simps)

definition hop_start :: "gsm_time \<Rightarrow> nat \<Rightarrow> nat \<Rightarrow> nat" where
  "hop_start t hsn n =
    (if hsn = 0 then unat (gt_fn t)
     else let m = (unat (gt_t2 t) + rn_table ! ((hsn XOR unat (gt_t1 t) mod 64) + unat (gt_t3 t))) mod 2 ^ nbin n
       in if m < n then m else (m + unat (gt_t3 t) mod 2 ^ nbin n) mod n)"

definition hop_spec :: "gsm_time \<Rightarrow> nat \<Rightarrow> nat \<Rightarrow> nat \<Rightarrow> nat" where
  "hop_spec t hsn maio n = (hop_start t hsn n + maio) mod n"

lemma pow_nbin_mask_table: "list_all (\<lambda>n. pow_nbin_mask n = 2 ^ nbin n - 1) [2..<65]"
  by (simp add: pow_nbin_mask_def nbin_simps)

lemma and_pow_nbin_mask: "n \<le> 64 \<Longrightarrow> x AND pow_nbin_mask n = x mod 2 ^ nbin n"
proof -
  assume n: "n \<le> 64"
  have "pow_nbin_mask n = 2 ^ nbin n - 1"
  proof (cases "2 \<le> n")
    case True
    then show ?thesis using n pow_nbin_mask_table by (simp add: list_all_iff del: upt_rec_numeral)
  next
    case False
    then have "n = 0 \<or> n = 1" by auto
    then show ?thesis by (auto simp: pow_nbin_mask_def nbin_simps)
  qed
  then have "x AND pow_nbin_mask n = x AND mask (nbin n)" by (simp only: mask_eq_exp_minus_1)
  also have "\<dots> = x mod 2 ^ nbin n" by (simp only: take_bit_eq_mask [symmetric] take_bit_eq_mod)
  finally show ?thesis .
qed

lemma length_rn_table [simp]: "length rn_table = 114"
  by (simp add: rn_table_def)

lemma unat_xor_less_64:
  fixes x y :: u16
  assumes "unat x < 64" "unat y < 64"
  shows "unat (x XOR y) < 64"
proof -
  have "take_bit 6 (unat x) = unat x" "take_bit 6 (unat y) = unat y"
    using assms by (simp_all add: take_bit_nat_eq_self)
  then have "unat (x XOR y) = take_bit 6 (unat (x XOR y))"
    by (simp add: unsigned_xor_eq take_bit_xor)
  then show ?thesis using take_bit_nat_less_exp [of 6 "unat (x XOR y)"] by simp
qed

lemma rn_index_bound:
  assumes "unat (hsn :: u8) < 64" "unat (gt_t3 t) < 51"
  shows "unat (ucast hsn XOR (gt_t1 t AND 63)) + unat (gt_t3 t) < length rn_table"
proof -
  have "unat (ucast hsn :: u16) < 64"
    using assms(1) unat_u8_less [of hsn] by (simp add: unat_ucast_small)
  moreover have "unat (gt_t1 t AND 63) < 64"
  proof -
    have "gt_t1 t AND 63 \<le> 63" by (rule word_and_le1)
    then show ?thesis by (simp add: word_le_nat_alt)
  qed
  ultimately have "unat (ucast hsn XOR (gt_t1 t AND 63)) < 64"
    by (rule unat_xor_less_64)
  then show ?thesis using assms(2) by simp
qed

lemma hop_index:
  fixes hsn :: u8
  assumes "unat hsn < 64"
  shows "unat (ucast hsn XOR (gt_t1 t AND 63)) = unat hsn XOR unat (gt_t1 t) mod 64"
proof -
  have "unat (gt_t1 t AND 63) = unat (gt_t1 t) mod 64"
    using take_bit_eq_mask [of 6 "unat (gt_t1 t)"] by (simp add: unsigned_and_eq take_bit_eq_mod mask_eq_exp_minus_1)
  moreover have "unat (ucast hsn :: u16) = unat hsn"
    using unat_u8_less [of hsn] by (simp add: unat_ucast_small)
  ultimately show ?thesis by (simp add: unsigned_xor_eq)
qed

text \<open>The library computes the index of the standard.\<close>

lemma hop_mai_spec:
  assumes "valid_fn (gt_fn t)" "unat (gt_t3 t) < 51" "unat hsn < 64" "0 < n" "n \<le> 64"
  shows "gsm0502_hop_mai t hsn maio n = Some (hop_spec t (unat hsn) (unat maio) n)"
proof -
  have z: "hsn = 0 \<longleftrightarrow> unat hsn = 0" by (simp add: unat_eq_zero)
  have fn: "unat (gt_fn t + ucast maio) = unat (gt_fn t) + unat maio"
    using assms(1) unat_u8_less [of maio] by (simp add: unat_word_ariths unat_ucast_small)
  note i = rn_index_bound [OF assms(3,2)]
  show ?thesis
    using assms(4) i fn z and_pow_nbin_mask [OF assms(5)]
    by (auto simp: gsm0502_hop_mai_def hop_spec_def hop_start_def mem_at_def Let_def
        hop_index [OF assms(3)] pow_nbin_mask_def)
qed

lemma add_mod_inj:
  fixes s n i j :: nat
  assumes "i < n" "j < n" "(s + i) mod n = (s + j) mod n"
  shows "i = j"
proof -
  have le: "i' = j'" if "i' \<le> j'" "j' < n" "(s + j') mod n = (s + i') mod n" for i' j'
  proof -
    have "n dvd (s + j') - (s + i')"
      using that by (simp add: mod_eq_dvd_iff_nat)
    then show "i' = j'" using that by (auto dest!: dvd_imp_le)
  qed
  show ?thesis using le [of i j] le [of j i] assms by (cases "i \<le> j") simp_all
qed

text \<open>The index is an offset by \<open>MAIO\<close> from a start that does not depend on it.\<close>

lemma hop_spec_bij: "0 < n \<Longrightarrow> bij_betw (\<lambda>i. hop_spec t hsn i n) {..<n} {..<n}"
proof -
  assume n: "0 < n"
  have inj: "inj_on (\<lambda>i. hop_spec t hsn i n) {..<n}"
    by (rule inj_onI) (auto simp: hop_spec_def intro: add_mod_inj)
  moreover have "(\<lambda>i. hop_spec t hsn i n) ` {..<n} = {..<n}"
    by (rule endo_inj_surj [OF _ _ inj]) (use n in \<open>auto simp: hop_spec_def\<close>)
  ultimately show ?thesis by (simp add: bij_betw_def)
qed

lemma rfch_eq_gsm0502:
  "rfch_hop_seq_gen t hsn maio n tbl = gsm0502_hop_seq_gen t hsn maio (unat n) tbl"
proof -
  have "unat (ucast n :: u32) = unat n"
    using unat_u8_less [of n] by (simp add: unat_ucast_small)
  moreover have "n = 0 \<longleftrightarrow> unat n = 0" by (simp add: unat_eq_zero)
  ultimately show ?thesis
    by (simp add: rfch_hop_seq_gen_def gsm0502_hop_seq_gen_def gsm0502_hop_mai_def
        pow_nbin_mask_def unat_mod Let_def)
qed

lemma hop_seq_spec:
  assumes "valid_fn (gt_fn t)" "unat (gt_t3 t) < 51" "unat (hsn :: u8) < 64"
    and "0 < length ma" "length ma \<le> 64"
  shows "gsm0502_hop_seq_gen t hsn maio (length ma) (Some ma) = Some (ma ! hop_spec t (unat hsn) (unat maio) (length ma))"
proof -
  have "hop_spec t (unat hsn) (unat maio) (length ma) < length ma" using assms(4) by (simp add: hop_spec_def)
  then show ?thesis using assms(4,5) hop_mai_spec [OF assms(1-4)] by (simp add: gsm0502_hop_seq_gen_def mem_at_def)
qed

section \<open>Properties\<close>

text \<open>
  C1. Frame numbers and GSM times are two representations of the same thing: converting a
  frame number below the hyperframe to \<open>T1/T2/T3\<close> and back gives the frame number, and
  every \<open>T1/T2/T3\<close> in range is the time of the frame number computed from it.
\<close>

theorem gsm_time_roundtrip:
  "(valid_fn fn \<longrightarrow> gsm_gsmtime2fn (gsm_fn2gsmtime fn) = fn)
   \<and> (uint (gt_t1 t) < 2048 \<and> uint (gt_t2 t) < 26 \<and> uint (gt_t3 t) < 51 \<longrightarrow>
       valid_fn (gsm_gsmtime2fn t)
       \<and> gt_t1 (gsm_fn2gsmtime (gsm_gsmtime2fn t)) = gt_t1 t
       \<and> gt_t2 (gsm_fn2gsmtime (gsm_gsmtime2fn t)) = gt_t2 t
       \<and> gt_t3 (gsm_fn2gsmtime (gsm_gsmtime2fn t)) = gt_t3 t)"
  using fn2gsmtime2fn gsmtime2fn2gsmtime by blast

theorem gsm_time_roundtrip_witness:
  "gsm_gsmtime2fn (gsm_fn2gsmtime 2715647) = 2715647
   \<and> gt_t1 (gsm_fn2gsmtime (gsm_gsmtime2fn \<lparr>gt_fn = 0, gt_t1 = 2047, gt_t2 = 3, gt_t3 = 50, gt_tc = 0\<rparr>)) = 2047"
  using gsm_time_roundtrip [of 2715647 "\<lparr>gt_fn = 0, gt_t1 = 2047, gt_t2 = 3, gt_t3 = 50, gt_tc = 0\<rparr>"]
  by simp

text \<open>
  C2. For a frame in which a block of the given channel ends, \<open>gsm0502_fn_remap\<close>
  returns the frame in which that block began: the block's first position in the cycle,
  less than one cycle back, also for the blocks that wrap around the end of the cycle and
  across the wrap of the frame number.
\<close>

theorem gsm0502_fn_remap_first_frame:
  assumes "valid_fn fn" "row \<in> set (fn_remap_map ch)" "unat fn mod fn_remap_cycle ch = last row"
  shows "valid_fn (gsm0502_fn_remap fn ch)
    \<and> unat (gsm0502_fn_remap fn ch) mod fn_remap_cycle ch = hd row
    \<and> unat (gsm_tdma_fn_sub fn (gsm0502_fn_remap fn ch)) < fn_remap_cycle ch"
  using fn_remap_first_frame [OF assms] by blast

theorem gsm0502_fn_remap_first_frame_witness:
  "unat (gsm0502_fn_remap 2 FN_REMAP_TCH_H0) mod 13 = 8"
  using gsm0502_fn_remap_first_frame [of 2 "[8, 10, 0, 2]" FN_REMAP_TCH_H0]
  by (simp add: fn_remap_maps)

text \<open>
  C3. Frequency hopping, with a mobile allocation of up to 64 frequencies. At any frame and for
  any hopping sequence number and mobile allocation offset, the generator of the library and
  that of the firmware read neither the table of random numbers nor the mobile allocation out
  of bounds, and both return the frequency that the algorithm of the standard selects. The
  mobiles of a cell are kept apart: in every frame the offsets are mapped one to one onto the
  frequencies of the allocation. Without an allocation both return the index itself.
\<close>

theorem hopping_orthogonal:
  assumes "valid_fn (gt_fn t)" "unat (gt_t3 t) < 51" "unat (hsn :: u8) < 64"
    and "0 < length ma" "length ma \<le> 64" "distinct ma" "unat (n :: u8) = length ma"
  shows "gsm0502_hop_seq_gen t hsn maio (length ma) (Some ma) = Some (ma ! hop_spec t (unat hsn) (unat maio) (length ma))
    \<and> rfch_hop_seq_gen t hsn maio n (Some ma) = Some (ma ! hop_spec t (unat hsn) (unat maio) (length ma))
    \<and> gsm0502_hop_seq_gen t hsn maio (length ma) None = Some (of_nat (hop_spec t (unat hsn) (unat maio) (length ma)))
    \<and> rfch_hop_seq_gen t hsn maio n None = Some (of_nat (hop_spec t (unat hsn) (unat maio) (length ma)))
    \<and> bij_betw (\<lambda>i. gsm0502_hop_seq_gen t hsn (of_nat i) (length ma) (Some ma)) {..<length ma} (Some ` set ma)"
proof (intro conjI)
  note s = hop_seq_spec [OF assms(1-5)]
  show "gsm0502_hop_seq_gen t hsn maio (length ma) (Some ma) = Some (ma ! hop_spec t (unat hsn) (unat maio) (length ma))"
    by (rule s)
  then show "rfch_hop_seq_gen t hsn maio n (Some ma) = Some (ma ! hop_spec t (unat hsn) (unat maio) (length ma))"
    by (simp add: rfch_eq_gsm0502 assms(7))
  show i: "gsm0502_hop_seq_gen t hsn maio (length ma) None = Some (of_nat (hop_spec t (unat hsn) (unat maio) (length ma)))"
    using hop_mai_spec [OF assms(1-4)] assms(5) by (simp add: gsm0502_hop_seq_gen_def)
  then show "rfch_hop_seq_gen t hsn maio n None = Some (of_nat (hop_spec t (unat hsn) (unat maio) (length ma)))"
    by (simp add: rfch_eq_gsm0502 assms(7))
  have "bij_betw (\<lambda>i. hop_spec t (unat hsn) i (length ma)) {..<length ma} {..<length ma}"
    by (rule hop_spec_bij [OF assms(4)])
  moreover have "bij_betw ((!) ma) {..<length ma} (set ma)" by (rule bij_betw_nth [OF assms(6)]) simp_all
  moreover have "bij_betw Some (set ma) (Some ` set ma)" by (simp add: bij_betw_def)
  ultimately have "bij_betw (Some \<circ> ((!) ma \<circ> (\<lambda>i. hop_spec t (unat hsn) i (length ma)))) {..<length ma} (Some ` set ma)"
    by (metis bij_betw_trans)
  moreover have "unat (of_nat i :: u8) = i" if "i < length ma" for i using that assms(5) by (simp add: unat_of_nat)
  ultimately show "bij_betw (\<lambda>i. gsm0502_hop_seq_gen t hsn (of_nat i) (length ma) (Some ma)) {..<length ma} (Some ` set ma)"
    by (subst bij_betw_cong [where g = "Some \<circ> ((!) ma \<circ> (\<lambda>i. hop_spec t (unat hsn) i (length ma)))"]) (simp_all add: s)
qed

theorem hopping_orthogonal_witness:
  "rfch_hop_seq_gen (gsm_fn2gsmtime 2000077) 5 1 4 (Some [100, 20, 3, 47]) = Some 3
    \<and> bij_betw (\<lambda>i. gsm0502_hop_seq_gen (gsm_fn2gsmtime 2000077) 5 (of_nat i) 4 (Some [100, 20, 3, 47])) {..<4} (Some ` {100, 20, 3, 47})"
proof -
  let ?t = "gsm_fn2gsmtime 2000077" and ?ma = "[100, 20, 3, 47] :: u16 list"
  have t: "?t = \<lparr>gt_fn = 2000077, gt_t1 = 1508, gt_t2 = 1, gt_t3 = 10, gt_tc = 1\<rparr>" by (simp add: gsm_fn2gsmtime_def)
  have l: "length ?ma = 4" by simp
  have i: "hop_spec ?t 5 1 4 = 2" unfolding t by (simp add: hop_spec_def hop_start_def rn_table_def nbin_simps)
  show ?thesis
    using hopping_orthogonal [of ?t 5 ?ma 4 1, unfolded l] i t by simp
qed

end
