(* ===== verification/TrxTypes.thy ===== *)
theory TrxTypes
  imports Prelude
begin

text \<open>
  The data types of the trxcon TDMA scheduler: \<open>sched_trx.h\<close> of
  \<open>osmocom-bb/src/host/trxcon\<close>, the physical channel configurations of
  \<open>libosmocore\<close>'s \<open>gsm_utils.h\<close> and the speech mode constants the scheduler
  switches on. Every structure is a record with the fields of the C declaration; a
  pointer that may be \<open>NULL\<close> is an option; a linked list is a list, an intrusive list
  head that has not been initialised yet is \<open>None\<close>.
\<close>

section \<open>Logical channel types\<close>

datatype trx_lchan_type =
    TRXC_IDLE | TRXC_FCCH | TRXC_SCH | TRXC_BCCH | TRXC_RACH | TRXC_CCCH
  | TRXC_TCHF | TRXC_TCHH_0 | TRXC_TCHH_1
  | TRXC_SDCCH4_0 | TRXC_SDCCH4_1 | TRXC_SDCCH4_2 | TRXC_SDCCH4_3
  | TRXC_SDCCH8_0 | TRXC_SDCCH8_1 | TRXC_SDCCH8_2 | TRXC_SDCCH8_3
  | TRXC_SDCCH8_4 | TRXC_SDCCH8_5 | TRXC_SDCCH8_6 | TRXC_SDCCH8_7
  | TRXC_SACCHTF | TRXC_SACCHTH_0 | TRXC_SACCHTH_1
  | TRXC_SACCH4_0 | TRXC_SACCH4_1 | TRXC_SACCH4_2 | TRXC_SACCH4_3
  | TRXC_SACCH8_0 | TRXC_SACCH8_1 | TRXC_SACCH8_2 | TRXC_SACCH8_3
  | TRXC_SACCH8_4 | TRXC_SACCH8_5 | TRXC_SACCH8_6 | TRXC_SACCH8_7
  | TRXC_PDTCH | TRXC_PTCCH | TRXC_SDCCH4_CBCH | TRXC_SDCCH8_CBCH

text \<open>The enumeration in its order: the loops \<open>for (i = 0; i < _TRX_CHAN_MAX; i++)\<close>.\<close>

definition all_lchan_types :: "trx_lchan_type list" where
  "all_lchan_types =
    [TRXC_IDLE, TRXC_FCCH, TRXC_SCH, TRXC_BCCH, TRXC_RACH, TRXC_CCCH,
     TRXC_TCHF, TRXC_TCHH_0, TRXC_TCHH_1,
     TRXC_SDCCH4_0, TRXC_SDCCH4_1, TRXC_SDCCH4_2, TRXC_SDCCH4_3,
     TRXC_SDCCH8_0, TRXC_SDCCH8_1, TRXC_SDCCH8_2, TRXC_SDCCH8_3,
     TRXC_SDCCH8_4, TRXC_SDCCH8_5, TRXC_SDCCH8_6, TRXC_SDCCH8_7,
     TRXC_SACCHTF, TRXC_SACCHTH_0, TRXC_SACCHTH_1,
     TRXC_SACCH4_0, TRXC_SACCH4_1, TRXC_SACCH4_2, TRXC_SACCH4_3,
     TRXC_SACCH8_0, TRXC_SACCH8_1, TRXC_SACCH8_2, TRXC_SACCH8_3,
     TRXC_SACCH8_4, TRXC_SACCH8_5, TRXC_SACCH8_6, TRXC_SACCH8_7,
     TRXC_PDTCH, TRXC_PTCCH, TRXC_SDCCH4_CBCH, TRXC_SDCCH8_CBCH]"

text \<open>The value of an enumerator.\<close>

fun lchan_code :: "trx_lchan_type \<Rightarrow> nat" where
  "lchan_code TRXC_IDLE = 0" | "lchan_code TRXC_FCCH = 1" | "lchan_code TRXC_SCH = 2"
| "lchan_code TRXC_BCCH = 3" | "lchan_code TRXC_RACH = 4" | "lchan_code TRXC_CCCH = 5"
| "lchan_code TRXC_TCHF = 6" | "lchan_code TRXC_TCHH_0 = 7" | "lchan_code TRXC_TCHH_1 = 8"
| "lchan_code TRXC_SDCCH4_0 = 9" | "lchan_code TRXC_SDCCH4_1 = 10"
| "lchan_code TRXC_SDCCH4_2 = 11" | "lchan_code TRXC_SDCCH4_3 = 12"
| "lchan_code TRXC_SDCCH8_0 = 13" | "lchan_code TRXC_SDCCH8_1 = 14"
| "lchan_code TRXC_SDCCH8_2 = 15" | "lchan_code TRXC_SDCCH8_3 = 16"
| "lchan_code TRXC_SDCCH8_4 = 17" | "lchan_code TRXC_SDCCH8_5 = 18"
| "lchan_code TRXC_SDCCH8_6 = 19" | "lchan_code TRXC_SDCCH8_7 = 20"
| "lchan_code TRXC_SACCHTF = 21" | "lchan_code TRXC_SACCHTH_0 = 22"
| "lchan_code TRXC_SACCHTH_1 = 23"
| "lchan_code TRXC_SACCH4_0 = 24" | "lchan_code TRXC_SACCH4_1 = 25"
| "lchan_code TRXC_SACCH4_2 = 26" | "lchan_code TRXC_SACCH4_3 = 27"
| "lchan_code TRXC_SACCH8_0 = 28" | "lchan_code TRXC_SACCH8_1 = 29"
| "lchan_code TRXC_SACCH8_2 = 30" | "lchan_code TRXC_SACCH8_3 = 31"
| "lchan_code TRXC_SACCH8_4 = 32" | "lchan_code TRXC_SACCH8_5 = 33"
| "lchan_code TRXC_SACCH8_6 = 34" | "lchan_code TRXC_SACCH8_7 = 35"
| "lchan_code TRXC_PDTCH = 36" | "lchan_code TRXC_PTCCH = 37"
| "lchan_code TRXC_SDCCH4_CBCH = 38" | "lchan_code TRXC_SDCCH8_CBCH = 39"

lemma all_lchan_types_complete [simp]: "c \<in> set all_lchan_types"
  by (cases c) (simp_all add: all_lchan_types_def)

lemma map_lchan_code: "map lchan_code all_lchan_types = [0..<40]"
  by (simp add: all_lchan_types_def upt_rec)

lemma distinct_all_lchan_types: "distinct all_lchan_types"
  using distinct_map map_lchan_code distinct_upt by metis

lemma lchan_code_inj: "lchan_code c = lchan_code d \<Longrightarrow> c = d"
proof -
  have "inj_on lchan_code (set all_lchan_types)"
    using distinct_map map_lchan_code distinct_upt by metis
  then show "lchan_code c = lchan_code d \<Longrightarrow> c = d"
    by (auto simp: inj_on_def)
qed

lemma lchan_code_less: "lchan_code c < 40"
  by (cases c) simp_all

section \<open>Physical channel configurations\<close>

datatype gsm_phys_chan_config =
    GSM_PCHAN_NONE | GSM_PCHAN_CCCH | GSM_PCHAN_CCCH_SDCCH4 | GSM_PCHAN_TCH_F
  | GSM_PCHAN_TCH_H | GSM_PCHAN_SDCCH8_SACCH8C | GSM_PCHAN_PDCH
  | GSM_PCHAN_TCH_F_PDCH | GSM_PCHAN_UNKNOWN | GSM_PCHAN_CCCH_SDCCH4_CBCH
  | GSM_PCHAN_SDCCH8_SACCH8C_CBCH | GSM_PCHAN_OSMO_DYN

section \<open>Multiframe layouts\<close>

text \<open>One row of a layout: positional, as the C initialisers are.\<close>

datatype trx_frame =
  Frame (dl_chan: trx_lchan_type) (dl_bid: nat) (ul_chan: trx_lchan_type) (ul_bid: nat)

record trx_multiframe =
  chan_config :: gsm_phys_chan_config
  mf_name :: string
  period :: nat
  slotmask :: u8
  lchan_mask :: u64
  frames :: "trx_frame list"

end
