(* ===== verification/SchedMframe.thy ===== *)
theory SchedMframe
  imports TrxTypes TdmaTime
begin

text \<open>
  The multiframe layouts of trxcon's TDMA scheduler: the tables and the lookup function of
  \<open>osmocom-bb/src/host/trxcon/sched_mframe.c\<close>. A table row says, for one frame of the
  multiframe, which logical channel the downlink and the uplink belong to and which burst
  of that channel's block (the \<^emph>\<open>burst id\<close>) is due.

  The lemmas show what the rest of the scheduler takes for granted: every layout repeats
  after \<open>period\<close> frames and that period divides the TDMA hyperframe, so the layout is
  continuous across the wrap of the frame number; no row names a channel that is missing
  from the layout's channel mask; and reading a layout forever, the bursts of every
  channel come in the order of their ids, block after block.
\<close>

section \<open>The layout tables\<close>

definition frame_bcch :: "trx_frame list" where
  "frame_bcch = [
    Frame TRXC_FCCH 0 TRXC_RACH 0, Frame TRXC_SCH 0 TRXC_RACH 0,
    Frame TRXC_BCCH 0 TRXC_RACH 0, Frame TRXC_BCCH 1 TRXC_RACH 0,
    Frame TRXC_BCCH 2 TRXC_RACH 0, Frame TRXC_BCCH 3 TRXC_RACH 0,
    Frame TRXC_CCCH 0 TRXC_RACH 0, Frame TRXC_CCCH 1 TRXC_RACH 0,
    Frame TRXC_CCCH 2 TRXC_RACH 0, Frame TRXC_CCCH 3 TRXC_RACH 0,
    Frame TRXC_FCCH 0 TRXC_RACH 0, Frame TRXC_SCH 0 TRXC_RACH 0,
    Frame TRXC_CCCH 0 TRXC_RACH 0, Frame TRXC_CCCH 1 TRXC_RACH 0,
    Frame TRXC_CCCH 2 TRXC_RACH 0, Frame TRXC_CCCH 3 TRXC_RACH 0,
    Frame TRXC_CCCH 0 TRXC_RACH 0, Frame TRXC_CCCH 1 TRXC_RACH 0,
    Frame TRXC_CCCH 2 TRXC_RACH 0, Frame TRXC_CCCH 3 TRXC_RACH 0,
    Frame TRXC_FCCH 0 TRXC_RACH 0, Frame TRXC_SCH 0 TRXC_RACH 0,
    Frame TRXC_CCCH 0 TRXC_RACH 0, Frame TRXC_CCCH 1 TRXC_RACH 0,
    Frame TRXC_CCCH 2 TRXC_RACH 0, Frame TRXC_CCCH 3 TRXC_RACH 0,
    Frame TRXC_CCCH 0 TRXC_RACH 0, Frame TRXC_CCCH 1 TRXC_RACH 0,
    Frame TRXC_CCCH 2 TRXC_RACH 0, Frame TRXC_CCCH 3 TRXC_RACH 0,
    Frame TRXC_FCCH 0 TRXC_RACH 0, Frame TRXC_SCH 0 TRXC_RACH 0,
    Frame TRXC_CCCH 0 TRXC_RACH 0, Frame TRXC_CCCH 1 TRXC_RACH 0,
    Frame TRXC_CCCH 2 TRXC_RACH 0, Frame TRXC_CCCH 3 TRXC_RACH 0,
    Frame TRXC_CCCH 0 TRXC_RACH 0, Frame TRXC_CCCH 1 TRXC_RACH 0,
    Frame TRXC_CCCH 2 TRXC_RACH 0, Frame TRXC_CCCH 3 TRXC_RACH 0,
    Frame TRXC_FCCH 0 TRXC_RACH 0, Frame TRXC_SCH 0 TRXC_RACH 0,
    Frame TRXC_CCCH 0 TRXC_RACH 0, Frame TRXC_CCCH 1 TRXC_RACH 0,
    Frame TRXC_CCCH 2 TRXC_RACH 0, Frame TRXC_CCCH 3 TRXC_RACH 0,
    Frame TRXC_CCCH 0 TRXC_RACH 0, Frame TRXC_CCCH 1 TRXC_RACH 0,
    Frame TRXC_CCCH 2 TRXC_RACH 0, Frame TRXC_CCCH 3 TRXC_RACH 0,
    Frame TRXC_IDLE 0 TRXC_RACH 0]"

definition frame_bcch_sdcch4 :: "trx_frame list" where
  "frame_bcch_sdcch4 = [
    Frame TRXC_FCCH 0 TRXC_SDCCH4_3 0, Frame TRXC_SCH 0 TRXC_SDCCH4_3 1,
    Frame TRXC_BCCH 0 TRXC_SDCCH4_3 2, Frame TRXC_BCCH 1 TRXC_SDCCH4_3 3,
    Frame TRXC_BCCH 2 TRXC_RACH 0, Frame TRXC_BCCH 3 TRXC_RACH 0,
    Frame TRXC_CCCH 0 TRXC_SACCH4_2 0, Frame TRXC_CCCH 1 TRXC_SACCH4_2 1,
    Frame TRXC_CCCH 2 TRXC_SACCH4_2 2, Frame TRXC_CCCH 3 TRXC_SACCH4_2 3,
    Frame TRXC_FCCH 0 TRXC_SACCH4_3 0, Frame TRXC_SCH 0 TRXC_SACCH4_3 1,
    Frame TRXC_CCCH 0 TRXC_SACCH4_3 2, Frame TRXC_CCCH 1 TRXC_SACCH4_3 3,
    Frame TRXC_CCCH 2 TRXC_RACH 0, Frame TRXC_CCCH 3 TRXC_RACH 0,
    Frame TRXC_CCCH 0 TRXC_RACH 0, Frame TRXC_CCCH 1 TRXC_RACH 0,
    Frame TRXC_CCCH 2 TRXC_RACH 0, Frame TRXC_CCCH 3 TRXC_RACH 0,
    Frame TRXC_FCCH 0 TRXC_RACH 0, Frame TRXC_SCH 0 TRXC_RACH 0,
    Frame TRXC_SDCCH4_0 0 TRXC_RACH 0, Frame TRXC_SDCCH4_0 1 TRXC_RACH 0,
    Frame TRXC_SDCCH4_0 2 TRXC_RACH 0, Frame TRXC_SDCCH4_0 3 TRXC_RACH 0,
    Frame TRXC_SDCCH4_1 0 TRXC_RACH 0, Frame TRXC_SDCCH4_1 1 TRXC_RACH 0,
    Frame TRXC_SDCCH4_1 2 TRXC_RACH 0, Frame TRXC_SDCCH4_1 3 TRXC_RACH 0,
    Frame TRXC_FCCH 0 TRXC_RACH 0, Frame TRXC_SCH 0 TRXC_RACH 0,
    Frame TRXC_SDCCH4_2 0 TRXC_RACH 0, Frame TRXC_SDCCH4_2 1 TRXC_RACH 0,
    Frame TRXC_SDCCH4_2 2 TRXC_RACH 0, Frame TRXC_SDCCH4_2 3 TRXC_RACH 0,
    Frame TRXC_SDCCH4_3 0 TRXC_RACH 0, Frame TRXC_SDCCH4_3 1 TRXC_SDCCH4_0 0,
    Frame TRXC_SDCCH4_3 2 TRXC_SDCCH4_0 1, Frame TRXC_SDCCH4_3 3 TRXC_SDCCH4_0 2,
    Frame TRXC_FCCH 0 TRXC_SDCCH4_0 3, Frame TRXC_SCH 0 TRXC_SDCCH4_1 0,
    Frame TRXC_SACCH4_0 0 TRXC_SDCCH4_1 1, Frame TRXC_SACCH4_0 1 TRXC_SDCCH4_1 2,
    Frame TRXC_SACCH4_0 2 TRXC_SDCCH4_1 3, Frame TRXC_SACCH4_0 3 TRXC_RACH 0,
    Frame TRXC_SACCH4_1 0 TRXC_RACH 0, Frame TRXC_SACCH4_1 1 TRXC_SDCCH4_2 0,
    Frame TRXC_SACCH4_1 2 TRXC_SDCCH4_2 1, Frame TRXC_SACCH4_1 3 TRXC_SDCCH4_2 2,
    Frame TRXC_IDLE 0 TRXC_SDCCH4_2 3, Frame TRXC_FCCH 0 TRXC_SDCCH4_3 0,
    Frame TRXC_SCH 0 TRXC_SDCCH4_3 1, Frame TRXC_BCCH 0 TRXC_SDCCH4_3 2,
    Frame TRXC_BCCH 1 TRXC_SDCCH4_3 3, Frame TRXC_BCCH 2 TRXC_RACH 0,
    Frame TRXC_BCCH 3 TRXC_RACH 0, Frame TRXC_CCCH 0 TRXC_SACCH4_0 0,
    Frame TRXC_CCCH 1 TRXC_SACCH4_0 1, Frame TRXC_CCCH 2 TRXC_SACCH4_0 2,
    Frame TRXC_CCCH 3 TRXC_SACCH4_0 3, Frame TRXC_FCCH 0 TRXC_SACCH4_1 0,
    Frame TRXC_SCH 0 TRXC_SACCH4_1 1, Frame TRXC_CCCH 0 TRXC_SACCH4_1 2,
    Frame TRXC_CCCH 1 TRXC_SACCH4_1 3, Frame TRXC_CCCH 2 TRXC_RACH 0,
    Frame TRXC_CCCH 3 TRXC_RACH 0, Frame TRXC_CCCH 0 TRXC_RACH 0,
    Frame TRXC_CCCH 1 TRXC_RACH 0, Frame TRXC_CCCH 2 TRXC_RACH 0,
    Frame TRXC_CCCH 3 TRXC_RACH 0, Frame TRXC_FCCH 0 TRXC_RACH 0,
    Frame TRXC_SCH 0 TRXC_RACH 0, Frame TRXC_SDCCH4_0 0 TRXC_RACH 0,
    Frame TRXC_SDCCH4_0 1 TRXC_RACH 0, Frame TRXC_SDCCH4_0 2 TRXC_RACH 0,
    Frame TRXC_SDCCH4_0 3 TRXC_RACH 0, Frame TRXC_SDCCH4_1 0 TRXC_RACH 0,
    Frame TRXC_SDCCH4_1 1 TRXC_RACH 0, Frame TRXC_SDCCH4_1 2 TRXC_RACH 0,
    Frame TRXC_SDCCH4_1 3 TRXC_RACH 0, Frame TRXC_FCCH 0 TRXC_RACH 0,
    Frame TRXC_SCH 0 TRXC_RACH 0, Frame TRXC_SDCCH4_2 0 TRXC_RACH 0,
    Frame TRXC_SDCCH4_2 1 TRXC_RACH 0, Frame TRXC_SDCCH4_2 2 TRXC_RACH 0,
    Frame TRXC_SDCCH4_2 3 TRXC_RACH 0, Frame TRXC_SDCCH4_3 0 TRXC_RACH 0,
    Frame TRXC_SDCCH4_3 1 TRXC_SDCCH4_0 0, Frame TRXC_SDCCH4_3 2 TRXC_SDCCH4_0 1,
    Frame TRXC_SDCCH4_3 3 TRXC_SDCCH4_0 2, Frame TRXC_FCCH 0 TRXC_SDCCH4_0 3,
    Frame TRXC_SCH 0 TRXC_SDCCH4_1 0, Frame TRXC_SACCH4_2 0 TRXC_SDCCH4_1 1,
    Frame TRXC_SACCH4_2 1 TRXC_SDCCH4_1 2, Frame TRXC_SACCH4_2 2 TRXC_SDCCH4_1 3,
    Frame TRXC_SACCH4_2 3 TRXC_RACH 0, Frame TRXC_SACCH4_3 0 TRXC_RACH 0,
    Frame TRXC_SACCH4_3 1 TRXC_SDCCH4_2 0, Frame TRXC_SACCH4_3 2 TRXC_SDCCH4_2 1,
    Frame TRXC_SACCH4_3 3 TRXC_SDCCH4_2 2, Frame TRXC_IDLE 0 TRXC_SDCCH4_2 3]"

definition frame_bcch_sdcch4_cbch :: "trx_frame list" where
  "frame_bcch_sdcch4_cbch = [
    Frame TRXC_FCCH 0 TRXC_SDCCH4_3 0, Frame TRXC_SCH 0 TRXC_SDCCH4_3 1,
    Frame TRXC_BCCH 0 TRXC_SDCCH4_3 2, Frame TRXC_BCCH 1 TRXC_SDCCH4_3 3,
    Frame TRXC_BCCH 2 TRXC_RACH 0, Frame TRXC_BCCH 3 TRXC_RACH 0,
    Frame TRXC_CCCH 0 TRXC_IDLE 0, Frame TRXC_CCCH 1 TRXC_IDLE 1,
    Frame TRXC_CCCH 2 TRXC_IDLE 2, Frame TRXC_CCCH 3 TRXC_IDLE 3,
    Frame TRXC_FCCH 0 TRXC_SACCH4_3 0, Frame TRXC_SCH 0 TRXC_SACCH4_3 1,
    Frame TRXC_CCCH 0 TRXC_SACCH4_3 2, Frame TRXC_CCCH 1 TRXC_SACCH4_3 3,
    Frame TRXC_CCCH 2 TRXC_RACH 0, Frame TRXC_CCCH 3 TRXC_RACH 0,
    Frame TRXC_CCCH 0 TRXC_RACH 0, Frame TRXC_CCCH 1 TRXC_RACH 0,
    Frame TRXC_CCCH 2 TRXC_RACH 0, Frame TRXC_CCCH 3 TRXC_RACH 0,
    Frame TRXC_FCCH 0 TRXC_RACH 0, Frame TRXC_SCH 0 TRXC_RACH 0,
    Frame TRXC_SDCCH4_0 0 TRXC_RACH 0, Frame TRXC_SDCCH4_0 1 TRXC_RACH 0,
    Frame TRXC_SDCCH4_0 2 TRXC_RACH 0, Frame TRXC_SDCCH4_0 3 TRXC_RACH 0,
    Frame TRXC_SDCCH4_1 0 TRXC_RACH 0, Frame TRXC_SDCCH4_1 1 TRXC_RACH 0,
    Frame TRXC_SDCCH4_1 2 TRXC_RACH 0, Frame TRXC_SDCCH4_1 3 TRXC_RACH 0,
    Frame TRXC_FCCH 0 TRXC_RACH 0, Frame TRXC_SCH 0 TRXC_RACH 0,
    Frame TRXC_SDCCH4_CBCH 0 TRXC_RACH 0, Frame TRXC_SDCCH4_CBCH 1 TRXC_RACH 0,
    Frame TRXC_SDCCH4_CBCH 2 TRXC_RACH 0, Frame TRXC_SDCCH4_CBCH 3 TRXC_RACH 0,
    Frame TRXC_SDCCH4_3 0 TRXC_RACH 0, Frame TRXC_SDCCH4_3 1 TRXC_SDCCH4_0 0,
    Frame TRXC_SDCCH4_3 2 TRXC_SDCCH4_0 1, Frame TRXC_SDCCH4_3 3 TRXC_SDCCH4_0 2,
    Frame TRXC_FCCH 0 TRXC_SDCCH4_0 3, Frame TRXC_SCH 0 TRXC_SDCCH4_1 0,
    Frame TRXC_SACCH4_0 0 TRXC_SDCCH4_1 1, Frame TRXC_SACCH4_0 1 TRXC_SDCCH4_1 2,
    Frame TRXC_SACCH4_0 2 TRXC_SDCCH4_1 3, Frame TRXC_SACCH4_0 3 TRXC_RACH 0,
    Frame TRXC_SACCH4_1 0 TRXC_RACH 0, Frame TRXC_SACCH4_1 1 TRXC_IDLE 0,
    Frame TRXC_SACCH4_1 2 TRXC_IDLE 1, Frame TRXC_SACCH4_1 3 TRXC_IDLE 2,
    Frame TRXC_IDLE 0 TRXC_IDLE 3, Frame TRXC_FCCH 0 TRXC_SDCCH4_3 0,
    Frame TRXC_SCH 0 TRXC_SDCCH4_3 1, Frame TRXC_BCCH 0 TRXC_SDCCH4_3 2,
    Frame TRXC_BCCH 1 TRXC_SDCCH4_3 3, Frame TRXC_BCCH 2 TRXC_RACH 0,
    Frame TRXC_BCCH 3 TRXC_RACH 0, Frame TRXC_CCCH 0 TRXC_SACCH4_0 0,
    Frame TRXC_CCCH 1 TRXC_SACCH4_0 1, Frame TRXC_CCCH 2 TRXC_SACCH4_0 2,
    Frame TRXC_CCCH 3 TRXC_SACCH4_0 3, Frame TRXC_FCCH 0 TRXC_SACCH4_1 0,
    Frame TRXC_SCH 0 TRXC_SACCH4_1 1, Frame TRXC_CCCH 0 TRXC_SACCH4_1 2,
    Frame TRXC_CCCH 1 TRXC_SACCH4_1 3, Frame TRXC_CCCH 2 TRXC_RACH 0,
    Frame TRXC_CCCH 3 TRXC_RACH 0, Frame TRXC_CCCH 0 TRXC_RACH 0,
    Frame TRXC_CCCH 1 TRXC_RACH 0, Frame TRXC_CCCH 2 TRXC_RACH 0,
    Frame TRXC_CCCH 3 TRXC_RACH 0, Frame TRXC_FCCH 0 TRXC_RACH 0,
    Frame TRXC_SCH 0 TRXC_RACH 0, Frame TRXC_SDCCH4_0 0 TRXC_RACH 0,
    Frame TRXC_SDCCH4_0 1 TRXC_RACH 0, Frame TRXC_SDCCH4_0 2 TRXC_RACH 0,
    Frame TRXC_SDCCH4_0 3 TRXC_RACH 0, Frame TRXC_SDCCH4_1 0 TRXC_RACH 0,
    Frame TRXC_SDCCH4_1 1 TRXC_RACH 0, Frame TRXC_SDCCH4_1 2 TRXC_RACH 0,
    Frame TRXC_SDCCH4_1 3 TRXC_RACH 0, Frame TRXC_FCCH 0 TRXC_RACH 0,
    Frame TRXC_SCH 0 TRXC_RACH 0, Frame TRXC_SDCCH4_CBCH 0 TRXC_RACH 0,
    Frame TRXC_SDCCH4_CBCH 1 TRXC_RACH 0, Frame TRXC_SDCCH4_CBCH 2 TRXC_RACH 0,
    Frame TRXC_SDCCH4_CBCH 3 TRXC_RACH 0, Frame TRXC_SDCCH4_3 0 TRXC_RACH 0,
    Frame TRXC_SDCCH4_3 1 TRXC_SDCCH4_0 0, Frame TRXC_SDCCH4_3 2 TRXC_SDCCH4_0 1,
    Frame TRXC_SDCCH4_3 3 TRXC_SDCCH4_0 2, Frame TRXC_FCCH 0 TRXC_SDCCH4_0 3,
    Frame TRXC_SCH 0 TRXC_SDCCH4_1 0, Frame TRXC_IDLE 0 TRXC_SDCCH4_1 1,
    Frame TRXC_IDLE 1 TRXC_SDCCH4_1 2, Frame TRXC_IDLE 2 TRXC_SDCCH4_1 3,
    Frame TRXC_IDLE 3 TRXC_RACH 0, Frame TRXC_SACCH4_3 0 TRXC_RACH 0,
    Frame TRXC_SACCH4_3 1 TRXC_IDLE 0, Frame TRXC_SACCH4_3 2 TRXC_IDLE 1,
    Frame TRXC_SACCH4_3 3 TRXC_IDLE 2, Frame TRXC_IDLE 0 TRXC_IDLE 3]"

definition frame_sdcch8 :: "trx_frame list" where
  "frame_sdcch8 = [
    Frame TRXC_SDCCH8_0 0 TRXC_SACCH8_5 0, Frame TRXC_SDCCH8_0 1 TRXC_SACCH8_5 1,
    Frame TRXC_SDCCH8_0 2 TRXC_SACCH8_5 2, Frame TRXC_SDCCH8_0 3 TRXC_SACCH8_5 3,
    Frame TRXC_SDCCH8_1 0 TRXC_SACCH8_6 0, Frame TRXC_SDCCH8_1 1 TRXC_SACCH8_6 1,
    Frame TRXC_SDCCH8_1 2 TRXC_SACCH8_6 2, Frame TRXC_SDCCH8_1 3 TRXC_SACCH8_6 3,
    Frame TRXC_SDCCH8_2 0 TRXC_SACCH8_7 0, Frame TRXC_SDCCH8_2 1 TRXC_SACCH8_7 1,
    Frame TRXC_SDCCH8_2 2 TRXC_SACCH8_7 2, Frame TRXC_SDCCH8_2 3 TRXC_SACCH8_7 3,
    Frame TRXC_SDCCH8_3 0 TRXC_IDLE 0, Frame TRXC_SDCCH8_3 1 TRXC_IDLE 0,
    Frame TRXC_SDCCH8_3 2 TRXC_IDLE 0, Frame TRXC_SDCCH8_3 3 TRXC_SDCCH8_0 0,
    Frame TRXC_SDCCH8_4 0 TRXC_SDCCH8_0 1, Frame TRXC_SDCCH8_4 1 TRXC_SDCCH8_0 2,
    Frame TRXC_SDCCH8_4 2 TRXC_SDCCH8_0 3, Frame TRXC_SDCCH8_4 3 TRXC_SDCCH8_1 0,
    Frame TRXC_SDCCH8_5 0 TRXC_SDCCH8_1 1, Frame TRXC_SDCCH8_5 1 TRXC_SDCCH8_1 2,
    Frame TRXC_SDCCH8_5 2 TRXC_SDCCH8_1 3, Frame TRXC_SDCCH8_5 3 TRXC_SDCCH8_2 0,
    Frame TRXC_SDCCH8_6 0 TRXC_SDCCH8_2 1, Frame TRXC_SDCCH8_6 1 TRXC_SDCCH8_2 2,
    Frame TRXC_SDCCH8_6 2 TRXC_SDCCH8_2 3, Frame TRXC_SDCCH8_6 3 TRXC_SDCCH8_3 0,
    Frame TRXC_SDCCH8_7 0 TRXC_SDCCH8_3 1, Frame TRXC_SDCCH8_7 1 TRXC_SDCCH8_3 2,
    Frame TRXC_SDCCH8_7 2 TRXC_SDCCH8_3 3, Frame TRXC_SDCCH8_7 3 TRXC_SDCCH8_4 0,
    Frame TRXC_SACCH8_0 0 TRXC_SDCCH8_4 1, Frame TRXC_SACCH8_0 1 TRXC_SDCCH8_4 2,
    Frame TRXC_SACCH8_0 2 TRXC_SDCCH8_4 3, Frame TRXC_SACCH8_0 3 TRXC_SDCCH8_5 0,
    Frame TRXC_SACCH8_1 0 TRXC_SDCCH8_5 1, Frame TRXC_SACCH8_1 1 TRXC_SDCCH8_5 2,
    Frame TRXC_SACCH8_1 2 TRXC_SDCCH8_5 3, Frame TRXC_SACCH8_1 3 TRXC_SDCCH8_6 0,
    Frame TRXC_SACCH8_2 0 TRXC_SDCCH8_6 1, Frame TRXC_SACCH8_2 1 TRXC_SDCCH8_6 2,
    Frame TRXC_SACCH8_2 2 TRXC_SDCCH8_6 3, Frame TRXC_SACCH8_2 3 TRXC_SDCCH8_7 0,
    Frame TRXC_SACCH8_3 0 TRXC_SDCCH8_7 1, Frame TRXC_SACCH8_3 1 TRXC_SDCCH8_7 2,
    Frame TRXC_SACCH8_3 2 TRXC_SDCCH8_7 3, Frame TRXC_SACCH8_3 3 TRXC_SACCH8_0 0,
    Frame TRXC_IDLE 0 TRXC_SACCH8_0 1, Frame TRXC_IDLE 0 TRXC_SACCH8_0 2,
    Frame TRXC_IDLE 0 TRXC_SACCH8_0 3, Frame TRXC_SDCCH8_0 0 TRXC_SACCH8_1 0,
    Frame TRXC_SDCCH8_0 1 TRXC_SACCH8_1 1, Frame TRXC_SDCCH8_0 2 TRXC_SACCH8_1 2,
    Frame TRXC_SDCCH8_0 3 TRXC_SACCH8_1 3, Frame TRXC_SDCCH8_1 0 TRXC_SACCH8_2 0,
    Frame TRXC_SDCCH8_1 1 TRXC_SACCH8_2 1, Frame TRXC_SDCCH8_1 2 TRXC_SACCH8_2 2,
    Frame TRXC_SDCCH8_1 3 TRXC_SACCH8_2 3, Frame TRXC_SDCCH8_2 0 TRXC_SACCH8_3 0,
    Frame TRXC_SDCCH8_2 1 TRXC_SACCH8_3 1, Frame TRXC_SDCCH8_2 2 TRXC_SACCH8_3 2,
    Frame TRXC_SDCCH8_2 3 TRXC_SACCH8_3 3, Frame TRXC_SDCCH8_3 0 TRXC_IDLE 0,
    Frame TRXC_SDCCH8_3 1 TRXC_IDLE 0, Frame TRXC_SDCCH8_3 2 TRXC_IDLE 0,
    Frame TRXC_SDCCH8_3 3 TRXC_SDCCH8_0 0, Frame TRXC_SDCCH8_4 0 TRXC_SDCCH8_0 1,
    Frame TRXC_SDCCH8_4 1 TRXC_SDCCH8_0 2, Frame TRXC_SDCCH8_4 2 TRXC_SDCCH8_0 3,
    Frame TRXC_SDCCH8_4 3 TRXC_SDCCH8_1 0, Frame TRXC_SDCCH8_5 0 TRXC_SDCCH8_1 1,
    Frame TRXC_SDCCH8_5 1 TRXC_SDCCH8_1 2, Frame TRXC_SDCCH8_5 2 TRXC_SDCCH8_1 3,
    Frame TRXC_SDCCH8_5 3 TRXC_SDCCH8_2 0, Frame TRXC_SDCCH8_6 0 TRXC_SDCCH8_2 1,
    Frame TRXC_SDCCH8_6 1 TRXC_SDCCH8_2 2, Frame TRXC_SDCCH8_6 2 TRXC_SDCCH8_2 3,
    Frame TRXC_SDCCH8_6 3 TRXC_SDCCH8_3 0, Frame TRXC_SDCCH8_7 0 TRXC_SDCCH8_3 1,
    Frame TRXC_SDCCH8_7 1 TRXC_SDCCH8_3 2, Frame TRXC_SDCCH8_7 2 TRXC_SDCCH8_3 3,
    Frame TRXC_SDCCH8_7 3 TRXC_SDCCH8_4 0, Frame TRXC_SACCH8_4 0 TRXC_SDCCH8_4 1,
    Frame TRXC_SACCH8_4 1 TRXC_SDCCH8_4 2, Frame TRXC_SACCH8_4 2 TRXC_SDCCH8_4 3,
    Frame TRXC_SACCH8_4 3 TRXC_SDCCH8_5 0, Frame TRXC_SACCH8_5 0 TRXC_SDCCH8_5 1,
    Frame TRXC_SACCH8_5 1 TRXC_SDCCH8_5 2, Frame TRXC_SACCH8_5 2 TRXC_SDCCH8_5 3,
    Frame TRXC_SACCH8_5 3 TRXC_SDCCH8_6 0, Frame TRXC_SACCH8_6 0 TRXC_SDCCH8_6 1,
    Frame TRXC_SACCH8_6 1 TRXC_SDCCH8_6 2, Frame TRXC_SACCH8_6 2 TRXC_SDCCH8_6 3,
    Frame TRXC_SACCH8_6 3 TRXC_SDCCH8_7 0, Frame TRXC_SACCH8_7 0 TRXC_SDCCH8_7 1,
    Frame TRXC_SACCH8_7 1 TRXC_SDCCH8_7 2, Frame TRXC_SACCH8_7 2 TRXC_SDCCH8_7 3,
    Frame TRXC_SACCH8_7 3 TRXC_SACCH8_4 0, Frame TRXC_IDLE 0 TRXC_SACCH8_4 1,
    Frame TRXC_IDLE 0 TRXC_SACCH8_4 2, Frame TRXC_IDLE 0 TRXC_SACCH8_4 3]"

definition frame_sdcch8_cbch :: "trx_frame list" where
  "frame_sdcch8_cbch = [
    Frame TRXC_SDCCH8_0 0 TRXC_SACCH8_5 0, Frame TRXC_SDCCH8_0 1 TRXC_SACCH8_5 1,
    Frame TRXC_SDCCH8_0 2 TRXC_SACCH8_5 2, Frame TRXC_SDCCH8_0 3 TRXC_SACCH8_5 3,
    Frame TRXC_SDCCH8_1 0 TRXC_SACCH8_6 0, Frame TRXC_SDCCH8_1 1 TRXC_SACCH8_6 1,
    Frame TRXC_SDCCH8_1 2 TRXC_SACCH8_6 2, Frame TRXC_SDCCH8_1 3 TRXC_SACCH8_6 3,
    Frame TRXC_SDCCH8_CBCH 0 TRXC_SACCH8_7 0, Frame TRXC_SDCCH8_CBCH 1 TRXC_SACCH8_7 1,
    Frame TRXC_SDCCH8_CBCH 2 TRXC_SACCH8_7 2, Frame TRXC_SDCCH8_CBCH 3 TRXC_SACCH8_7 3,
    Frame TRXC_SDCCH8_3 0 TRXC_IDLE 0, Frame TRXC_SDCCH8_3 1 TRXC_IDLE 0,
    Frame TRXC_SDCCH8_3 2 TRXC_IDLE 0, Frame TRXC_SDCCH8_3 3 TRXC_SDCCH8_0 0,
    Frame TRXC_SDCCH8_4 0 TRXC_SDCCH8_0 1, Frame TRXC_SDCCH8_4 1 TRXC_SDCCH8_0 2,
    Frame TRXC_SDCCH8_4 2 TRXC_SDCCH8_0 3, Frame TRXC_SDCCH8_4 3 TRXC_SDCCH8_1 0,
    Frame TRXC_SDCCH8_5 0 TRXC_SDCCH8_1 1, Frame TRXC_SDCCH8_5 1 TRXC_SDCCH8_1 2,
    Frame TRXC_SDCCH8_5 2 TRXC_SDCCH8_1 3, Frame TRXC_SDCCH8_5 3 TRXC_IDLE 0,
    Frame TRXC_SDCCH8_6 0 TRXC_IDLE 1, Frame TRXC_SDCCH8_6 1 TRXC_IDLE 2,
    Frame TRXC_SDCCH8_6 2 TRXC_IDLE 3, Frame TRXC_SDCCH8_6 3 TRXC_SDCCH8_3 0,
    Frame TRXC_SDCCH8_7 0 TRXC_SDCCH8_3 1, Frame TRXC_SDCCH8_7 1 TRXC_SDCCH8_3 2,
    Frame TRXC_SDCCH8_7 2 TRXC_SDCCH8_3 3, Frame TRXC_SDCCH8_7 3 TRXC_SDCCH8_4 0,
    Frame TRXC_SACCH8_0 0 TRXC_SDCCH8_4 1, Frame TRXC_SACCH8_0 1 TRXC_SDCCH8_4 2,
    Frame TRXC_SACCH8_0 2 TRXC_SDCCH8_4 3, Frame TRXC_SACCH8_0 3 TRXC_SDCCH8_5 0,
    Frame TRXC_SACCH8_1 0 TRXC_SDCCH8_5 1, Frame TRXC_SACCH8_1 1 TRXC_SDCCH8_5 2,
    Frame TRXC_SACCH8_1 2 TRXC_SDCCH8_5 3, Frame TRXC_SACCH8_1 3 TRXC_SDCCH8_6 0,
    Frame TRXC_IDLE 0 TRXC_SDCCH8_6 1, Frame TRXC_IDLE 1 TRXC_SDCCH8_6 2,
    Frame TRXC_IDLE 2 TRXC_SDCCH8_6 3, Frame TRXC_IDLE 3 TRXC_SDCCH8_7 0,
    Frame TRXC_SACCH8_3 0 TRXC_SDCCH8_7 1, Frame TRXC_SACCH8_3 1 TRXC_SDCCH8_7 2,
    Frame TRXC_SACCH8_3 2 TRXC_SDCCH8_7 3, Frame TRXC_SACCH8_3 3 TRXC_SACCH8_0 0,
    Frame TRXC_IDLE 0 TRXC_SACCH8_0 1, Frame TRXC_IDLE 0 TRXC_SACCH8_0 2,
    Frame TRXC_IDLE 0 TRXC_SACCH8_0 3, Frame TRXC_SDCCH8_0 0 TRXC_SACCH8_1 0,
    Frame TRXC_SDCCH8_0 1 TRXC_SACCH8_1 1, Frame TRXC_SDCCH8_0 2 TRXC_SACCH8_1 2,
    Frame TRXC_SDCCH8_0 3 TRXC_SACCH8_1 3, Frame TRXC_SDCCH8_1 0 TRXC_IDLE 0,
    Frame TRXC_SDCCH8_1 1 TRXC_IDLE 1, Frame TRXC_SDCCH8_1 2 TRXC_IDLE 2,
    Frame TRXC_SDCCH8_1 3 TRXC_IDLE 3, Frame TRXC_SDCCH8_CBCH 0 TRXC_SACCH8_3 0,
    Frame TRXC_SDCCH8_CBCH 1 TRXC_SACCH8_3 1, Frame TRXC_SDCCH8_CBCH 2 TRXC_SACCH8_3 2,
    Frame TRXC_SDCCH8_CBCH 3 TRXC_SACCH8_3 3, Frame TRXC_SDCCH8_3 0 TRXC_IDLE 0,
    Frame TRXC_SDCCH8_3 1 TRXC_IDLE 0, Frame TRXC_SDCCH8_3 2 TRXC_IDLE 0,
    Frame TRXC_SDCCH8_3 3 TRXC_SDCCH8_0 0, Frame TRXC_SDCCH8_4 0 TRXC_SDCCH8_0 1,
    Frame TRXC_SDCCH8_4 1 TRXC_SDCCH8_0 2, Frame TRXC_SDCCH8_4 2 TRXC_SDCCH8_0 3,
    Frame TRXC_SDCCH8_4 3 TRXC_SDCCH8_1 0, Frame TRXC_SDCCH8_5 0 TRXC_SDCCH8_1 1,
    Frame TRXC_SDCCH8_5 1 TRXC_SDCCH8_1 2, Frame TRXC_SDCCH8_5 2 TRXC_SDCCH8_1 3,
    Frame TRXC_SDCCH8_5 3 TRXC_IDLE 0, Frame TRXC_SDCCH8_6 0 TRXC_IDLE 1,
    Frame TRXC_SDCCH8_6 1 TRXC_IDLE 2, Frame TRXC_SDCCH8_6 2 TRXC_IDLE 3,
    Frame TRXC_SDCCH8_6 3 TRXC_SDCCH8_3 0, Frame TRXC_SDCCH8_7 0 TRXC_SDCCH8_3 1,
    Frame TRXC_SDCCH8_7 1 TRXC_SDCCH8_3 2, Frame TRXC_SDCCH8_7 2 TRXC_SDCCH8_3 3,
    Frame TRXC_SDCCH8_7 3 TRXC_SDCCH8_4 0, Frame TRXC_SACCH8_4 0 TRXC_SDCCH8_4 1,
    Frame TRXC_SACCH8_4 1 TRXC_SDCCH8_4 2, Frame TRXC_SACCH8_4 2 TRXC_SDCCH8_4 3,
    Frame TRXC_SACCH8_4 3 TRXC_SDCCH8_5 0, Frame TRXC_SACCH8_5 0 TRXC_SDCCH8_5 1,
    Frame TRXC_SACCH8_5 1 TRXC_SDCCH8_5 2, Frame TRXC_SACCH8_5 2 TRXC_SDCCH8_5 3,
    Frame TRXC_SACCH8_5 3 TRXC_SDCCH8_6 0, Frame TRXC_SACCH8_6 0 TRXC_SDCCH8_6 1,
    Frame TRXC_SACCH8_6 1 TRXC_SDCCH8_6 2, Frame TRXC_SACCH8_6 2 TRXC_SDCCH8_6 3,
    Frame TRXC_SACCH8_6 3 TRXC_SDCCH8_7 0, Frame TRXC_SACCH8_7 0 TRXC_SDCCH8_7 1,
    Frame TRXC_SACCH8_7 1 TRXC_SDCCH8_7 2, Frame TRXC_SACCH8_7 2 TRXC_SDCCH8_7 3,
    Frame TRXC_SACCH8_7 3 TRXC_SACCH8_4 0, Frame TRXC_IDLE 0 TRXC_SACCH8_4 1,
    Frame TRXC_IDLE 0 TRXC_SACCH8_4 2, Frame TRXC_IDLE 0 TRXC_SACCH8_4 3]"

definition frame_tchf_ts0 :: "trx_frame list" where
  "frame_tchf_ts0 = [
    Frame TRXC_TCHF 0 TRXC_TCHF 0, Frame TRXC_TCHF 1 TRXC_TCHF 1,
    Frame TRXC_TCHF 2 TRXC_TCHF 2, Frame TRXC_TCHF 3 TRXC_TCHF 3,
    Frame TRXC_TCHF 0 TRXC_TCHF 0, Frame TRXC_TCHF 1 TRXC_TCHF 1,
    Frame TRXC_TCHF 2 TRXC_TCHF 2, Frame TRXC_TCHF 3 TRXC_TCHF 3,
    Frame TRXC_TCHF 0 TRXC_TCHF 0, Frame TRXC_TCHF 1 TRXC_TCHF 1,
    Frame TRXC_TCHF 2 TRXC_TCHF 2, Frame TRXC_TCHF 3 TRXC_TCHF 3,
    Frame TRXC_SACCHTF 0 TRXC_SACCHTF 0, Frame TRXC_TCHF 0 TRXC_TCHF 0,
    Frame TRXC_TCHF 1 TRXC_TCHF 1, Frame TRXC_TCHF 2 TRXC_TCHF 2,
    Frame TRXC_TCHF 3 TRXC_TCHF 3, Frame TRXC_TCHF 0 TRXC_TCHF 0,
    Frame TRXC_TCHF 1 TRXC_TCHF 1, Frame TRXC_TCHF 2 TRXC_TCHF 2,
    Frame TRXC_TCHF 3 TRXC_TCHF 3, Frame TRXC_TCHF 0 TRXC_TCHF 0,
    Frame TRXC_TCHF 1 TRXC_TCHF 1, Frame TRXC_TCHF 2 TRXC_TCHF 2,
    Frame TRXC_TCHF 3 TRXC_TCHF 3, Frame TRXC_IDLE 0 TRXC_IDLE 0,
    Frame TRXC_TCHF 0 TRXC_TCHF 0, Frame TRXC_TCHF 1 TRXC_TCHF 1,
    Frame TRXC_TCHF 2 TRXC_TCHF 2, Frame TRXC_TCHF 3 TRXC_TCHF 3,
    Frame TRXC_TCHF 0 TRXC_TCHF 0, Frame TRXC_TCHF 1 TRXC_TCHF 1,
    Frame TRXC_TCHF 2 TRXC_TCHF 2, Frame TRXC_TCHF 3 TRXC_TCHF 3,
    Frame TRXC_TCHF 0 TRXC_TCHF 0, Frame TRXC_TCHF 1 TRXC_TCHF 1,
    Frame TRXC_TCHF 2 TRXC_TCHF 2, Frame TRXC_TCHF 3 TRXC_TCHF 3,
    Frame TRXC_SACCHTF 1 TRXC_SACCHTF 1, Frame TRXC_TCHF 0 TRXC_TCHF 0,
    Frame TRXC_TCHF 1 TRXC_TCHF 1, Frame TRXC_TCHF 2 TRXC_TCHF 2,
    Frame TRXC_TCHF 3 TRXC_TCHF 3, Frame TRXC_TCHF 0 TRXC_TCHF 0,
    Frame TRXC_TCHF 1 TRXC_TCHF 1, Frame TRXC_TCHF 2 TRXC_TCHF 2,
    Frame TRXC_TCHF 3 TRXC_TCHF 3, Frame TRXC_TCHF 0 TRXC_TCHF 0,
    Frame TRXC_TCHF 1 TRXC_TCHF 1, Frame TRXC_TCHF 2 TRXC_TCHF 2,
    Frame TRXC_TCHF 3 TRXC_TCHF 3, Frame TRXC_IDLE 0 TRXC_IDLE 0,
    Frame TRXC_TCHF 0 TRXC_TCHF 0, Frame TRXC_TCHF 1 TRXC_TCHF 1,
    Frame TRXC_TCHF 2 TRXC_TCHF 2, Frame TRXC_TCHF 3 TRXC_TCHF 3,
    Frame TRXC_TCHF 0 TRXC_TCHF 0, Frame TRXC_TCHF 1 TRXC_TCHF 1,
    Frame TRXC_TCHF 2 TRXC_TCHF 2, Frame TRXC_TCHF 3 TRXC_TCHF 3,
    Frame TRXC_TCHF 0 TRXC_TCHF 0, Frame TRXC_TCHF 1 TRXC_TCHF 1,
    Frame TRXC_TCHF 2 TRXC_TCHF 2, Frame TRXC_TCHF 3 TRXC_TCHF 3,
    Frame TRXC_SACCHTF 2 TRXC_SACCHTF 2, Frame TRXC_TCHF 0 TRXC_TCHF 0,
    Frame TRXC_TCHF 1 TRXC_TCHF 1, Frame TRXC_TCHF 2 TRXC_TCHF 2,
    Frame TRXC_TCHF 3 TRXC_TCHF 3, Frame TRXC_TCHF 0 TRXC_TCHF 0,
    Frame TRXC_TCHF 1 TRXC_TCHF 1, Frame TRXC_TCHF 2 TRXC_TCHF 2,
    Frame TRXC_TCHF 3 TRXC_TCHF 3, Frame TRXC_TCHF 0 TRXC_TCHF 0,
    Frame TRXC_TCHF 1 TRXC_TCHF 1, Frame TRXC_TCHF 2 TRXC_TCHF 2,
    Frame TRXC_TCHF 3 TRXC_TCHF 3, Frame TRXC_IDLE 0 TRXC_IDLE 0,
    Frame TRXC_TCHF 0 TRXC_TCHF 0, Frame TRXC_TCHF 1 TRXC_TCHF 1,
    Frame TRXC_TCHF 2 TRXC_TCHF 2, Frame TRXC_TCHF 3 TRXC_TCHF 3,
    Frame TRXC_TCHF 0 TRXC_TCHF 0, Frame TRXC_TCHF 1 TRXC_TCHF 1,
    Frame TRXC_TCHF 2 TRXC_TCHF 2, Frame TRXC_TCHF 3 TRXC_TCHF 3,
    Frame TRXC_TCHF 0 TRXC_TCHF 0, Frame TRXC_TCHF 1 TRXC_TCHF 1,
    Frame TRXC_TCHF 2 TRXC_TCHF 2, Frame TRXC_TCHF 3 TRXC_TCHF 3,
    Frame TRXC_SACCHTF 3 TRXC_SACCHTF 3, Frame TRXC_TCHF 0 TRXC_TCHF 0,
    Frame TRXC_TCHF 1 TRXC_TCHF 1, Frame TRXC_TCHF 2 TRXC_TCHF 2,
    Frame TRXC_TCHF 3 TRXC_TCHF 3, Frame TRXC_TCHF 0 TRXC_TCHF 0,
    Frame TRXC_TCHF 1 TRXC_TCHF 1, Frame TRXC_TCHF 2 TRXC_TCHF 2,
    Frame TRXC_TCHF 3 TRXC_TCHF 3, Frame TRXC_TCHF 0 TRXC_TCHF 0,
    Frame TRXC_TCHF 1 TRXC_TCHF 1, Frame TRXC_TCHF 2 TRXC_TCHF 2,
    Frame TRXC_TCHF 3 TRXC_TCHF 3, Frame TRXC_IDLE 0 TRXC_IDLE 0]"

definition frame_tchf_ts1 :: "trx_frame list" where
  "frame_tchf_ts1 = [
    Frame TRXC_TCHF 0 TRXC_TCHF 0, Frame TRXC_TCHF 1 TRXC_TCHF 1,
    Frame TRXC_TCHF 2 TRXC_TCHF 2, Frame TRXC_TCHF 3 TRXC_TCHF 3,
    Frame TRXC_TCHF 0 TRXC_TCHF 0, Frame TRXC_TCHF 1 TRXC_TCHF 1,
    Frame TRXC_TCHF 2 TRXC_TCHF 2, Frame TRXC_TCHF 3 TRXC_TCHF 3,
    Frame TRXC_TCHF 0 TRXC_TCHF 0, Frame TRXC_TCHF 1 TRXC_TCHF 1,
    Frame TRXC_TCHF 2 TRXC_TCHF 2, Frame TRXC_TCHF 3 TRXC_TCHF 3,
    Frame TRXC_IDLE 0 TRXC_IDLE 0, Frame TRXC_TCHF 0 TRXC_TCHF 0,
    Frame TRXC_TCHF 1 TRXC_TCHF 1, Frame TRXC_TCHF 2 TRXC_TCHF 2,
    Frame TRXC_TCHF 3 TRXC_TCHF 3, Frame TRXC_TCHF 0 TRXC_TCHF 0,
    Frame TRXC_TCHF 1 TRXC_TCHF 1, Frame TRXC_TCHF 2 TRXC_TCHF 2,
    Frame TRXC_TCHF 3 TRXC_TCHF 3, Frame TRXC_TCHF 0 TRXC_TCHF 0,
    Frame TRXC_TCHF 1 TRXC_TCHF 1, Frame TRXC_TCHF 2 TRXC_TCHF 2,
    Frame TRXC_TCHF 3 TRXC_TCHF 3, Frame TRXC_SACCHTF 0 TRXC_SACCHTF 0,
    Frame TRXC_TCHF 0 TRXC_TCHF 0, Frame TRXC_TCHF 1 TRXC_TCHF 1,
    Frame TRXC_TCHF 2 TRXC_TCHF 2, Frame TRXC_TCHF 3 TRXC_TCHF 3,
    Frame TRXC_TCHF 0 TRXC_TCHF 0, Frame TRXC_TCHF 1 TRXC_TCHF 1,
    Frame TRXC_TCHF 2 TRXC_TCHF 2, Frame TRXC_TCHF 3 TRXC_TCHF 3,
    Frame TRXC_TCHF 0 TRXC_TCHF 0, Frame TRXC_TCHF 1 TRXC_TCHF 1,
    Frame TRXC_TCHF 2 TRXC_TCHF 2, Frame TRXC_TCHF 3 TRXC_TCHF 3,
    Frame TRXC_IDLE 0 TRXC_IDLE 0, Frame TRXC_TCHF 0 TRXC_TCHF 0,
    Frame TRXC_TCHF 1 TRXC_TCHF 1, Frame TRXC_TCHF 2 TRXC_TCHF 2,
    Frame TRXC_TCHF 3 TRXC_TCHF 3, Frame TRXC_TCHF 0 TRXC_TCHF 0,
    Frame TRXC_TCHF 1 TRXC_TCHF 1, Frame TRXC_TCHF 2 TRXC_TCHF 2,
    Frame TRXC_TCHF 3 TRXC_TCHF 3, Frame TRXC_TCHF 0 TRXC_TCHF 0,
    Frame TRXC_TCHF 1 TRXC_TCHF 1, Frame TRXC_TCHF 2 TRXC_TCHF 2,
    Frame TRXC_TCHF 3 TRXC_TCHF 3, Frame TRXC_SACCHTF 1 TRXC_SACCHTF 1,
    Frame TRXC_TCHF 0 TRXC_TCHF 0, Frame TRXC_TCHF 1 TRXC_TCHF 1,
    Frame TRXC_TCHF 2 TRXC_TCHF 2, Frame TRXC_TCHF 3 TRXC_TCHF 3,
    Frame TRXC_TCHF 0 TRXC_TCHF 0, Frame TRXC_TCHF 1 TRXC_TCHF 1,
    Frame TRXC_TCHF 2 TRXC_TCHF 2, Frame TRXC_TCHF 3 TRXC_TCHF 3,
    Frame TRXC_TCHF 0 TRXC_TCHF 0, Frame TRXC_TCHF 1 TRXC_TCHF 1,
    Frame TRXC_TCHF 2 TRXC_TCHF 2, Frame TRXC_TCHF 3 TRXC_TCHF 3,
    Frame TRXC_IDLE 0 TRXC_IDLE 0, Frame TRXC_TCHF 0 TRXC_TCHF 0,
    Frame TRXC_TCHF 1 TRXC_TCHF 1, Frame TRXC_TCHF 2 TRXC_TCHF 2,
    Frame TRXC_TCHF 3 TRXC_TCHF 3, Frame TRXC_TCHF 0 TRXC_TCHF 0,
    Frame TRXC_TCHF 1 TRXC_TCHF 1, Frame TRXC_TCHF 2 TRXC_TCHF 2,
    Frame TRXC_TCHF 3 TRXC_TCHF 3, Frame TRXC_TCHF 0 TRXC_TCHF 0,
    Frame TRXC_TCHF 1 TRXC_TCHF 1, Frame TRXC_TCHF 2 TRXC_TCHF 2,
    Frame TRXC_TCHF 3 TRXC_TCHF 3, Frame TRXC_SACCHTF 2 TRXC_SACCHTF 2,
    Frame TRXC_TCHF 0 TRXC_TCHF 0, Frame TRXC_TCHF 1 TRXC_TCHF 1,
    Frame TRXC_TCHF 2 TRXC_TCHF 2, Frame TRXC_TCHF 3 TRXC_TCHF 3,
    Frame TRXC_TCHF 0 TRXC_TCHF 0, Frame TRXC_TCHF 1 TRXC_TCHF 1,
    Frame TRXC_TCHF 2 TRXC_TCHF 2, Frame TRXC_TCHF 3 TRXC_TCHF 3,
    Frame TRXC_TCHF 0 TRXC_TCHF 0, Frame TRXC_TCHF 1 TRXC_TCHF 1,
    Frame TRXC_TCHF 2 TRXC_TCHF 2, Frame TRXC_TCHF 3 TRXC_TCHF 3,
    Frame TRXC_IDLE 0 TRXC_IDLE 0, Frame TRXC_TCHF 0 TRXC_TCHF 0,
    Frame TRXC_TCHF 1 TRXC_TCHF 1, Frame TRXC_TCHF 2 TRXC_TCHF 2,
    Frame TRXC_TCHF 3 TRXC_TCHF 3, Frame TRXC_TCHF 0 TRXC_TCHF 0,
    Frame TRXC_TCHF 1 TRXC_TCHF 1, Frame TRXC_TCHF 2 TRXC_TCHF 2,
    Frame TRXC_TCHF 3 TRXC_TCHF 3, Frame TRXC_TCHF 0 TRXC_TCHF 0,
    Frame TRXC_TCHF 1 TRXC_TCHF 1, Frame TRXC_TCHF 2 TRXC_TCHF 2,
    Frame TRXC_TCHF 3 TRXC_TCHF 3, Frame TRXC_SACCHTF 3 TRXC_SACCHTF 3]"

definition frame_tchf_ts2 :: "trx_frame list" where
  "frame_tchf_ts2 = [
    Frame TRXC_TCHF 0 TRXC_TCHF 0, Frame TRXC_TCHF 1 TRXC_TCHF 1,
    Frame TRXC_TCHF 2 TRXC_TCHF 2, Frame TRXC_TCHF 3 TRXC_TCHF 3,
    Frame TRXC_TCHF 0 TRXC_TCHF 0, Frame TRXC_TCHF 1 TRXC_TCHF 1,
    Frame TRXC_TCHF 2 TRXC_TCHF 2, Frame TRXC_TCHF 3 TRXC_TCHF 3,
    Frame TRXC_TCHF 0 TRXC_TCHF 0, Frame TRXC_TCHF 1 TRXC_TCHF 1,
    Frame TRXC_TCHF 2 TRXC_TCHF 2, Frame TRXC_TCHF 3 TRXC_TCHF 3,
    Frame TRXC_SACCHTF 3 TRXC_SACCHTF 3, Frame TRXC_TCHF 0 TRXC_TCHF 0,
    Frame TRXC_TCHF 1 TRXC_TCHF 1, Frame TRXC_TCHF 2 TRXC_TCHF 2,
    Frame TRXC_TCHF 3 TRXC_TCHF 3, Frame TRXC_TCHF 0 TRXC_TCHF 0,
    Frame TRXC_TCHF 1 TRXC_TCHF 1, Frame TRXC_TCHF 2 TRXC_TCHF 2,
    Frame TRXC_TCHF 3 TRXC_TCHF 3, Frame TRXC_TCHF 0 TRXC_TCHF 0,
    Frame TRXC_TCHF 1 TRXC_TCHF 1, Frame TRXC_TCHF 2 TRXC_TCHF 2,
    Frame TRXC_TCHF 3 TRXC_TCHF 3, Frame TRXC_IDLE 0 TRXC_IDLE 0,
    Frame TRXC_TCHF 0 TRXC_TCHF 0, Frame TRXC_TCHF 1 TRXC_TCHF 1,
    Frame TRXC_TCHF 2 TRXC_TCHF 2, Frame TRXC_TCHF 3 TRXC_TCHF 3,
    Frame TRXC_TCHF 0 TRXC_TCHF 0, Frame TRXC_TCHF 1 TRXC_TCHF 1,
    Frame TRXC_TCHF 2 TRXC_TCHF 2, Frame TRXC_TCHF 3 TRXC_TCHF 3,
    Frame TRXC_TCHF 0 TRXC_TCHF 0, Frame TRXC_TCHF 1 TRXC_TCHF 1,
    Frame TRXC_TCHF 2 TRXC_TCHF 2, Frame TRXC_TCHF 3 TRXC_TCHF 3,
    Frame TRXC_SACCHTF 0 TRXC_SACCHTF 0, Frame TRXC_TCHF 0 TRXC_TCHF 0,
    Frame TRXC_TCHF 1 TRXC_TCHF 1, Frame TRXC_TCHF 2 TRXC_TCHF 2,
    Frame TRXC_TCHF 3 TRXC_TCHF 3, Frame TRXC_TCHF 0 TRXC_TCHF 0,
    Frame TRXC_TCHF 1 TRXC_TCHF 1, Frame TRXC_TCHF 2 TRXC_TCHF 2,
    Frame TRXC_TCHF 3 TRXC_TCHF 3, Frame TRXC_TCHF 0 TRXC_TCHF 0,
    Frame TRXC_TCHF 1 TRXC_TCHF 1, Frame TRXC_TCHF 2 TRXC_TCHF 2,
    Frame TRXC_TCHF 3 TRXC_TCHF 3, Frame TRXC_IDLE 0 TRXC_IDLE 0,
    Frame TRXC_TCHF 0 TRXC_TCHF 0, Frame TRXC_TCHF 1 TRXC_TCHF 1,
    Frame TRXC_TCHF 2 TRXC_TCHF 2, Frame TRXC_TCHF 3 TRXC_TCHF 3,
    Frame TRXC_TCHF 0 TRXC_TCHF 0, Frame TRXC_TCHF 1 TRXC_TCHF 1,
    Frame TRXC_TCHF 2 TRXC_TCHF 2, Frame TRXC_TCHF 3 TRXC_TCHF 3,
    Frame TRXC_TCHF 0 TRXC_TCHF 0, Frame TRXC_TCHF 1 TRXC_TCHF 1,
    Frame TRXC_TCHF 2 TRXC_TCHF 2, Frame TRXC_TCHF 3 TRXC_TCHF 3,
    Frame TRXC_SACCHTF 1 TRXC_SACCHTF 1, Frame TRXC_TCHF 0 TRXC_TCHF 0,
    Frame TRXC_TCHF 1 TRXC_TCHF 1, Frame TRXC_TCHF 2 TRXC_TCHF 2,
    Frame TRXC_TCHF 3 TRXC_TCHF 3, Frame TRXC_TCHF 0 TRXC_TCHF 0,
    Frame TRXC_TCHF 1 TRXC_TCHF 1, Frame TRXC_TCHF 2 TRXC_TCHF 2,
    Frame TRXC_TCHF 3 TRXC_TCHF 3, Frame TRXC_TCHF 0 TRXC_TCHF 0,
    Frame TRXC_TCHF 1 TRXC_TCHF 1, Frame TRXC_TCHF 2 TRXC_TCHF 2,
    Frame TRXC_TCHF 3 TRXC_TCHF 3, Frame TRXC_IDLE 0 TRXC_IDLE 0,
    Frame TRXC_TCHF 0 TRXC_TCHF 0, Frame TRXC_TCHF 1 TRXC_TCHF 1,
    Frame TRXC_TCHF 2 TRXC_TCHF 2, Frame TRXC_TCHF 3 TRXC_TCHF 3,
    Frame TRXC_TCHF 0 TRXC_TCHF 0, Frame TRXC_TCHF 1 TRXC_TCHF 1,
    Frame TRXC_TCHF 2 TRXC_TCHF 2, Frame TRXC_TCHF 3 TRXC_TCHF 3,
    Frame TRXC_TCHF 0 TRXC_TCHF 0, Frame TRXC_TCHF 1 TRXC_TCHF 1,
    Frame TRXC_TCHF 2 TRXC_TCHF 2, Frame TRXC_TCHF 3 TRXC_TCHF 3,
    Frame TRXC_SACCHTF 2 TRXC_SACCHTF 2, Frame TRXC_TCHF 0 TRXC_TCHF 0,
    Frame TRXC_TCHF 1 TRXC_TCHF 1, Frame TRXC_TCHF 2 TRXC_TCHF 2,
    Frame TRXC_TCHF 3 TRXC_TCHF 3, Frame TRXC_TCHF 0 TRXC_TCHF 0,
    Frame TRXC_TCHF 1 TRXC_TCHF 1, Frame TRXC_TCHF 2 TRXC_TCHF 2,
    Frame TRXC_TCHF 3 TRXC_TCHF 3, Frame TRXC_TCHF 0 TRXC_TCHF 0,
    Frame TRXC_TCHF 1 TRXC_TCHF 1, Frame TRXC_TCHF 2 TRXC_TCHF 2,
    Frame TRXC_TCHF 3 TRXC_TCHF 3, Frame TRXC_IDLE 0 TRXC_IDLE 0]"

definition frame_tchf_ts3 :: "trx_frame list" where
  "frame_tchf_ts3 = [
    Frame TRXC_TCHF 0 TRXC_TCHF 0, Frame TRXC_TCHF 1 TRXC_TCHF 1,
    Frame TRXC_TCHF 2 TRXC_TCHF 2, Frame TRXC_TCHF 3 TRXC_TCHF 3,
    Frame TRXC_TCHF 0 TRXC_TCHF 0, Frame TRXC_TCHF 1 TRXC_TCHF 1,
    Frame TRXC_TCHF 2 TRXC_TCHF 2, Frame TRXC_TCHF 3 TRXC_TCHF 3,
    Frame TRXC_TCHF 0 TRXC_TCHF 0, Frame TRXC_TCHF 1 TRXC_TCHF 1,
    Frame TRXC_TCHF 2 TRXC_TCHF 2, Frame TRXC_TCHF 3 TRXC_TCHF 3,
    Frame TRXC_IDLE 0 TRXC_IDLE 0, Frame TRXC_TCHF 0 TRXC_TCHF 0,
    Frame TRXC_TCHF 1 TRXC_TCHF 1, Frame TRXC_TCHF 2 TRXC_TCHF 2,
    Frame TRXC_TCHF 3 TRXC_TCHF 3, Frame TRXC_TCHF 0 TRXC_TCHF 0,
    Frame TRXC_TCHF 1 TRXC_TCHF 1, Frame TRXC_TCHF 2 TRXC_TCHF 2,
    Frame TRXC_TCHF 3 TRXC_TCHF 3, Frame TRXC_TCHF 0 TRXC_TCHF 0,
    Frame TRXC_TCHF 1 TRXC_TCHF 1, Frame TRXC_TCHF 2 TRXC_TCHF 2,
    Frame TRXC_TCHF 3 TRXC_TCHF 3, Frame TRXC_SACCHTF 3 TRXC_SACCHTF 3,
    Frame TRXC_TCHF 0 TRXC_TCHF 0, Frame TRXC_TCHF 1 TRXC_TCHF 1,
    Frame TRXC_TCHF 2 TRXC_TCHF 2, Frame TRXC_TCHF 3 TRXC_TCHF 3,
    Frame TRXC_TCHF 0 TRXC_TCHF 0, Frame TRXC_TCHF 1 TRXC_TCHF 1,
    Frame TRXC_TCHF 2 TRXC_TCHF 2, Frame TRXC_TCHF 3 TRXC_TCHF 3,
    Frame TRXC_TCHF 0 TRXC_TCHF 0, Frame TRXC_TCHF 1 TRXC_TCHF 1,
    Frame TRXC_TCHF 2 TRXC_TCHF 2, Frame TRXC_TCHF 3 TRXC_TCHF 3,
    Frame TRXC_IDLE 0 TRXC_IDLE 0, Frame TRXC_TCHF 0 TRXC_TCHF 0,
    Frame TRXC_TCHF 1 TRXC_TCHF 1, Frame TRXC_TCHF 2 TRXC_TCHF 2,
    Frame TRXC_TCHF 3 TRXC_TCHF 3, Frame TRXC_TCHF 0 TRXC_TCHF 0,
    Frame TRXC_TCHF 1 TRXC_TCHF 1, Frame TRXC_TCHF 2 TRXC_TCHF 2,
    Frame TRXC_TCHF 3 TRXC_TCHF 3, Frame TRXC_TCHF 0 TRXC_TCHF 0,
    Frame TRXC_TCHF 1 TRXC_TCHF 1, Frame TRXC_TCHF 2 TRXC_TCHF 2,
    Frame TRXC_TCHF 3 TRXC_TCHF 3, Frame TRXC_SACCHTF 0 TRXC_SACCHTF 0,
    Frame TRXC_TCHF 0 TRXC_TCHF 0, Frame TRXC_TCHF 1 TRXC_TCHF 1,
    Frame TRXC_TCHF 2 TRXC_TCHF 2, Frame TRXC_TCHF 3 TRXC_TCHF 3,
    Frame TRXC_TCHF 0 TRXC_TCHF 0, Frame TRXC_TCHF 1 TRXC_TCHF 1,
    Frame TRXC_TCHF 2 TRXC_TCHF 2, Frame TRXC_TCHF 3 TRXC_TCHF 3,
    Frame TRXC_TCHF 0 TRXC_TCHF 0, Frame TRXC_TCHF 1 TRXC_TCHF 1,
    Frame TRXC_TCHF 2 TRXC_TCHF 2, Frame TRXC_TCHF 3 TRXC_TCHF 3,
    Frame TRXC_IDLE 0 TRXC_IDLE 0, Frame TRXC_TCHF 0 TRXC_TCHF 0,
    Frame TRXC_TCHF 1 TRXC_TCHF 1, Frame TRXC_TCHF 2 TRXC_TCHF 2,
    Frame TRXC_TCHF 3 TRXC_TCHF 3, Frame TRXC_TCHF 0 TRXC_TCHF 0,
    Frame TRXC_TCHF 1 TRXC_TCHF 1, Frame TRXC_TCHF 2 TRXC_TCHF 2,
    Frame TRXC_TCHF 3 TRXC_TCHF 3, Frame TRXC_TCHF 0 TRXC_TCHF 0,
    Frame TRXC_TCHF 1 TRXC_TCHF 1, Frame TRXC_TCHF 2 TRXC_TCHF 2,
    Frame TRXC_TCHF 3 TRXC_TCHF 3, Frame TRXC_SACCHTF 1 TRXC_SACCHTF 1,
    Frame TRXC_TCHF 0 TRXC_TCHF 0, Frame TRXC_TCHF 1 TRXC_TCHF 1,
    Frame TRXC_TCHF 2 TRXC_TCHF 2, Frame TRXC_TCHF 3 TRXC_TCHF 3,
    Frame TRXC_TCHF 0 TRXC_TCHF 0, Frame TRXC_TCHF 1 TRXC_TCHF 1,
    Frame TRXC_TCHF 2 TRXC_TCHF 2, Frame TRXC_TCHF 3 TRXC_TCHF 3,
    Frame TRXC_TCHF 0 TRXC_TCHF 0, Frame TRXC_TCHF 1 TRXC_TCHF 1,
    Frame TRXC_TCHF 2 TRXC_TCHF 2, Frame TRXC_TCHF 3 TRXC_TCHF 3,
    Frame TRXC_IDLE 0 TRXC_IDLE 0, Frame TRXC_TCHF 0 TRXC_TCHF 0,
    Frame TRXC_TCHF 1 TRXC_TCHF 1, Frame TRXC_TCHF 2 TRXC_TCHF 2,
    Frame TRXC_TCHF 3 TRXC_TCHF 3, Frame TRXC_TCHF 0 TRXC_TCHF 0,
    Frame TRXC_TCHF 1 TRXC_TCHF 1, Frame TRXC_TCHF 2 TRXC_TCHF 2,
    Frame TRXC_TCHF 3 TRXC_TCHF 3, Frame TRXC_TCHF 0 TRXC_TCHF 0,
    Frame TRXC_TCHF 1 TRXC_TCHF 1, Frame TRXC_TCHF 2 TRXC_TCHF 2,
    Frame TRXC_TCHF 3 TRXC_TCHF 3, Frame TRXC_SACCHTF 2 TRXC_SACCHTF 2]"

definition frame_tchf_ts4 :: "trx_frame list" where
  "frame_tchf_ts4 = [
    Frame TRXC_TCHF 0 TRXC_TCHF 0, Frame TRXC_TCHF 1 TRXC_TCHF 1,
    Frame TRXC_TCHF 2 TRXC_TCHF 2, Frame TRXC_TCHF 3 TRXC_TCHF 3,
    Frame TRXC_TCHF 0 TRXC_TCHF 0, Frame TRXC_TCHF 1 TRXC_TCHF 1,
    Frame TRXC_TCHF 2 TRXC_TCHF 2, Frame TRXC_TCHF 3 TRXC_TCHF 3,
    Frame TRXC_TCHF 0 TRXC_TCHF 0, Frame TRXC_TCHF 1 TRXC_TCHF 1,
    Frame TRXC_TCHF 2 TRXC_TCHF 2, Frame TRXC_TCHF 3 TRXC_TCHF 3,
    Frame TRXC_SACCHTF 2 TRXC_SACCHTF 2, Frame TRXC_TCHF 0 TRXC_TCHF 0,
    Frame TRXC_TCHF 1 TRXC_TCHF 1, Frame TRXC_TCHF 2 TRXC_TCHF 2,
    Frame TRXC_TCHF 3 TRXC_TCHF 3, Frame TRXC_TCHF 0 TRXC_TCHF 0,
    Frame TRXC_TCHF 1 TRXC_TCHF 1, Frame TRXC_TCHF 2 TRXC_TCHF 2,
    Frame TRXC_TCHF 3 TRXC_TCHF 3, Frame TRXC_TCHF 0 TRXC_TCHF 0,
    Frame TRXC_TCHF 1 TRXC_TCHF 1, Frame TRXC_TCHF 2 TRXC_TCHF 2,
    Frame TRXC_TCHF 3 TRXC_TCHF 3, Frame TRXC_IDLE 0 TRXC_IDLE 0,
    Frame TRXC_TCHF 0 TRXC_TCHF 0, Frame TRXC_TCHF 1 TRXC_TCHF 1,
    Frame TRXC_TCHF 2 TRXC_TCHF 2, Frame TRXC_TCHF 3 TRXC_TCHF 3,
    Frame TRXC_TCHF 0 TRXC_TCHF 0, Frame TRXC_TCHF 1 TRXC_TCHF 1,
    Frame TRXC_TCHF 2 TRXC_TCHF 2, Frame TRXC_TCHF 3 TRXC_TCHF 3,
    Frame TRXC_TCHF 0 TRXC_TCHF 0, Frame TRXC_TCHF 1 TRXC_TCHF 1,
    Frame TRXC_TCHF 2 TRXC_TCHF 2, Frame TRXC_TCHF 3 TRXC_TCHF 3,
    Frame TRXC_SACCHTF 3 TRXC_SACCHTF 3, Frame TRXC_TCHF 0 TRXC_TCHF 0,
    Frame TRXC_TCHF 1 TRXC_TCHF 1, Frame TRXC_TCHF 2 TRXC_TCHF 2,
    Frame TRXC_TCHF 3 TRXC_TCHF 3, Frame TRXC_TCHF 0 TRXC_TCHF 0,
    Frame TRXC_TCHF 1 TRXC_TCHF 1, Frame TRXC_TCHF 2 TRXC_TCHF 2,
    Frame TRXC_TCHF 3 TRXC_TCHF 3, Frame TRXC_TCHF 0 TRXC_TCHF 0,
    Frame TRXC_TCHF 1 TRXC_TCHF 1, Frame TRXC_TCHF 2 TRXC_TCHF 2,
    Frame TRXC_TCHF 3 TRXC_TCHF 3, Frame TRXC_IDLE 0 TRXC_IDLE 0,
    Frame TRXC_TCHF 0 TRXC_TCHF 0, Frame TRXC_TCHF 1 TRXC_TCHF 1,
    Frame TRXC_TCHF 2 TRXC_TCHF 2, Frame TRXC_TCHF 3 TRXC_TCHF 3,
    Frame TRXC_TCHF 0 TRXC_TCHF 0, Frame TRXC_TCHF 1 TRXC_TCHF 1,
    Frame TRXC_TCHF 2 TRXC_TCHF 2, Frame TRXC_TCHF 3 TRXC_TCHF 3,
    Frame TRXC_TCHF 0 TRXC_TCHF 0, Frame TRXC_TCHF 1 TRXC_TCHF 1,
    Frame TRXC_TCHF 2 TRXC_TCHF 2, Frame TRXC_TCHF 3 TRXC_TCHF 3,
    Frame TRXC_SACCHTF 0 TRXC_SACCHTF 0, Frame TRXC_TCHF 0 TRXC_TCHF 0,
    Frame TRXC_TCHF 1 TRXC_TCHF 1, Frame TRXC_TCHF 2 TRXC_TCHF 2,
    Frame TRXC_TCHF 3 TRXC_TCHF 3, Frame TRXC_TCHF 0 TRXC_TCHF 0,
    Frame TRXC_TCHF 1 TRXC_TCHF 1, Frame TRXC_TCHF 2 TRXC_TCHF 2,
    Frame TRXC_TCHF 3 TRXC_TCHF 3, Frame TRXC_TCHF 0 TRXC_TCHF 0,
    Frame TRXC_TCHF 1 TRXC_TCHF 1, Frame TRXC_TCHF 2 TRXC_TCHF 2,
    Frame TRXC_TCHF 3 TRXC_TCHF 3, Frame TRXC_IDLE 0 TRXC_IDLE 0,
    Frame TRXC_TCHF 0 TRXC_TCHF 0, Frame TRXC_TCHF 1 TRXC_TCHF 1,
    Frame TRXC_TCHF 2 TRXC_TCHF 2, Frame TRXC_TCHF 3 TRXC_TCHF 3,
    Frame TRXC_TCHF 0 TRXC_TCHF 0, Frame TRXC_TCHF 1 TRXC_TCHF 1,
    Frame TRXC_TCHF 2 TRXC_TCHF 2, Frame TRXC_TCHF 3 TRXC_TCHF 3,
    Frame TRXC_TCHF 0 TRXC_TCHF 0, Frame TRXC_TCHF 1 TRXC_TCHF 1,
    Frame TRXC_TCHF 2 TRXC_TCHF 2, Frame TRXC_TCHF 3 TRXC_TCHF 3,
    Frame TRXC_SACCHTF 1 TRXC_SACCHTF 1, Frame TRXC_TCHF 0 TRXC_TCHF 0,
    Frame TRXC_TCHF 1 TRXC_TCHF 1, Frame TRXC_TCHF 2 TRXC_TCHF 2,
    Frame TRXC_TCHF 3 TRXC_TCHF 3, Frame TRXC_TCHF 0 TRXC_TCHF 0,
    Frame TRXC_TCHF 1 TRXC_TCHF 1, Frame TRXC_TCHF 2 TRXC_TCHF 2,
    Frame TRXC_TCHF 3 TRXC_TCHF 3, Frame TRXC_TCHF 0 TRXC_TCHF 0,
    Frame TRXC_TCHF 1 TRXC_TCHF 1, Frame TRXC_TCHF 2 TRXC_TCHF 2,
    Frame TRXC_TCHF 3 TRXC_TCHF 3, Frame TRXC_IDLE 0 TRXC_IDLE 0]"

definition frame_tchf_ts5 :: "trx_frame list" where
  "frame_tchf_ts5 = [
    Frame TRXC_TCHF 0 TRXC_TCHF 0, Frame TRXC_TCHF 1 TRXC_TCHF 1,
    Frame TRXC_TCHF 2 TRXC_TCHF 2, Frame TRXC_TCHF 3 TRXC_TCHF 3,
    Frame TRXC_TCHF 0 TRXC_TCHF 0, Frame TRXC_TCHF 1 TRXC_TCHF 1,
    Frame TRXC_TCHF 2 TRXC_TCHF 2, Frame TRXC_TCHF 3 TRXC_TCHF 3,
    Frame TRXC_TCHF 0 TRXC_TCHF 0, Frame TRXC_TCHF 1 TRXC_TCHF 1,
    Frame TRXC_TCHF 2 TRXC_TCHF 2, Frame TRXC_TCHF 3 TRXC_TCHF 3,
    Frame TRXC_IDLE 0 TRXC_IDLE 0, Frame TRXC_TCHF 0 TRXC_TCHF 0,
    Frame TRXC_TCHF 1 TRXC_TCHF 1, Frame TRXC_TCHF 2 TRXC_TCHF 2,
    Frame TRXC_TCHF 3 TRXC_TCHF 3, Frame TRXC_TCHF 0 TRXC_TCHF 0,
    Frame TRXC_TCHF 1 TRXC_TCHF 1, Frame TRXC_TCHF 2 TRXC_TCHF 2,
    Frame TRXC_TCHF 3 TRXC_TCHF 3, Frame TRXC_TCHF 0 TRXC_TCHF 0,
    Frame TRXC_TCHF 1 TRXC_TCHF 1, Frame TRXC_TCHF 2 TRXC_TCHF 2,
    Frame TRXC_TCHF 3 TRXC_TCHF 3, Frame TRXC_SACCHTF 2 TRXC_SACCHTF 2,
    Frame TRXC_TCHF 0 TRXC_TCHF 0, Frame TRXC_TCHF 1 TRXC_TCHF 1,
    Frame TRXC_TCHF 2 TRXC_TCHF 2, Frame TRXC_TCHF 3 TRXC_TCHF 3,
    Frame TRXC_TCHF 0 TRXC_TCHF 0, Frame TRXC_TCHF 1 TRXC_TCHF 1,
    Frame TRXC_TCHF 2 TRXC_TCHF 2, Frame TRXC_TCHF 3 TRXC_TCHF 3,
    Frame TRXC_TCHF 0 TRXC_TCHF 0, Frame TRXC_TCHF 1 TRXC_TCHF 1,
    Frame TRXC_TCHF 2 TRXC_TCHF 2, Frame TRXC_TCHF 3 TRXC_TCHF 3,
    Frame TRXC_IDLE 0 TRXC_IDLE 0, Frame TRXC_TCHF 0 TRXC_TCHF 0,
    Frame TRXC_TCHF 1 TRXC_TCHF 1, Frame TRXC_TCHF 2 TRXC_TCHF 2,
    Frame TRXC_TCHF 3 TRXC_TCHF 3, Frame TRXC_TCHF 0 TRXC_TCHF 0,
    Frame TRXC_TCHF 1 TRXC_TCHF 1, Frame TRXC_TCHF 2 TRXC_TCHF 2,
    Frame TRXC_TCHF 3 TRXC_TCHF 3, Frame TRXC_TCHF 0 TRXC_TCHF 0,
    Frame TRXC_TCHF 1 TRXC_TCHF 1, Frame TRXC_TCHF 2 TRXC_TCHF 2,
    Frame TRXC_TCHF 3 TRXC_TCHF 3, Frame TRXC_SACCHTF 3 TRXC_SACCHTF 3,
    Frame TRXC_TCHF 0 TRXC_TCHF 0, Frame TRXC_TCHF 1 TRXC_TCHF 1,
    Frame TRXC_TCHF 2 TRXC_TCHF 2, Frame TRXC_TCHF 3 TRXC_TCHF 3,
    Frame TRXC_TCHF 0 TRXC_TCHF 0, Frame TRXC_TCHF 1 TRXC_TCHF 1,
    Frame TRXC_TCHF 2 TRXC_TCHF 2, Frame TRXC_TCHF 3 TRXC_TCHF 3,
    Frame TRXC_TCHF 0 TRXC_TCHF 0, Frame TRXC_TCHF 1 TRXC_TCHF 1,
    Frame TRXC_TCHF 2 TRXC_TCHF 2, Frame TRXC_TCHF 3 TRXC_TCHF 3,
    Frame TRXC_IDLE 0 TRXC_IDLE 0, Frame TRXC_TCHF 0 TRXC_TCHF 0,
    Frame TRXC_TCHF 1 TRXC_TCHF 1, Frame TRXC_TCHF 2 TRXC_TCHF 2,
    Frame TRXC_TCHF 3 TRXC_TCHF 3, Frame TRXC_TCHF 0 TRXC_TCHF 0,
    Frame TRXC_TCHF 1 TRXC_TCHF 1, Frame TRXC_TCHF 2 TRXC_TCHF 2,
    Frame TRXC_TCHF 3 TRXC_TCHF 3, Frame TRXC_TCHF 0 TRXC_TCHF 0,
    Frame TRXC_TCHF 1 TRXC_TCHF 1, Frame TRXC_TCHF 2 TRXC_TCHF 2,
    Frame TRXC_TCHF 3 TRXC_TCHF 3, Frame TRXC_SACCHTF 0 TRXC_SACCHTF 0,
    Frame TRXC_TCHF 0 TRXC_TCHF 0, Frame TRXC_TCHF 1 TRXC_TCHF 1,
    Frame TRXC_TCHF 2 TRXC_TCHF 2, Frame TRXC_TCHF 3 TRXC_TCHF 3,
    Frame TRXC_TCHF 0 TRXC_TCHF 0, Frame TRXC_TCHF 1 TRXC_TCHF 1,
    Frame TRXC_TCHF 2 TRXC_TCHF 2, Frame TRXC_TCHF 3 TRXC_TCHF 3,
    Frame TRXC_TCHF 0 TRXC_TCHF 0, Frame TRXC_TCHF 1 TRXC_TCHF 1,
    Frame TRXC_TCHF 2 TRXC_TCHF 2, Frame TRXC_TCHF 3 TRXC_TCHF 3,
    Frame TRXC_IDLE 0 TRXC_IDLE 0, Frame TRXC_TCHF 0 TRXC_TCHF 0,
    Frame TRXC_TCHF 1 TRXC_TCHF 1, Frame TRXC_TCHF 2 TRXC_TCHF 2,
    Frame TRXC_TCHF 3 TRXC_TCHF 3, Frame TRXC_TCHF 0 TRXC_TCHF 0,
    Frame TRXC_TCHF 1 TRXC_TCHF 1, Frame TRXC_TCHF 2 TRXC_TCHF 2,
    Frame TRXC_TCHF 3 TRXC_TCHF 3, Frame TRXC_TCHF 0 TRXC_TCHF 0,
    Frame TRXC_TCHF 1 TRXC_TCHF 1, Frame TRXC_TCHF 2 TRXC_TCHF 2,
    Frame TRXC_TCHF 3 TRXC_TCHF 3, Frame TRXC_SACCHTF 1 TRXC_SACCHTF 1]"

definition frame_tchf_ts6 :: "trx_frame list" where
  "frame_tchf_ts6 = [
    Frame TRXC_TCHF 0 TRXC_TCHF 0, Frame TRXC_TCHF 1 TRXC_TCHF 1,
    Frame TRXC_TCHF 2 TRXC_TCHF 2, Frame TRXC_TCHF 3 TRXC_TCHF 3,
    Frame TRXC_TCHF 0 TRXC_TCHF 0, Frame TRXC_TCHF 1 TRXC_TCHF 1,
    Frame TRXC_TCHF 2 TRXC_TCHF 2, Frame TRXC_TCHF 3 TRXC_TCHF 3,
    Frame TRXC_TCHF 0 TRXC_TCHF 0, Frame TRXC_TCHF 1 TRXC_TCHF 1,
    Frame TRXC_TCHF 2 TRXC_TCHF 2, Frame TRXC_TCHF 3 TRXC_TCHF 3,
    Frame TRXC_SACCHTF 1 TRXC_SACCHTF 1, Frame TRXC_TCHF 0 TRXC_TCHF 0,
    Frame TRXC_TCHF 1 TRXC_TCHF 1, Frame TRXC_TCHF 2 TRXC_TCHF 2,
    Frame TRXC_TCHF 3 TRXC_TCHF 3, Frame TRXC_TCHF 0 TRXC_TCHF 0,
    Frame TRXC_TCHF 1 TRXC_TCHF 1, Frame TRXC_TCHF 2 TRXC_TCHF 2,
    Frame TRXC_TCHF 3 TRXC_TCHF 3, Frame TRXC_TCHF 0 TRXC_TCHF 0,
    Frame TRXC_TCHF 1 TRXC_TCHF 1, Frame TRXC_TCHF 2 TRXC_TCHF 2,
    Frame TRXC_TCHF 3 TRXC_TCHF 3, Frame TRXC_IDLE 0 TRXC_IDLE 0,
    Frame TRXC_TCHF 0 TRXC_TCHF 0, Frame TRXC_TCHF 1 TRXC_TCHF 1,
    Frame TRXC_TCHF 2 TRXC_TCHF 2, Frame TRXC_TCHF 3 TRXC_TCHF 3,
    Frame TRXC_TCHF 0 TRXC_TCHF 0, Frame TRXC_TCHF 1 TRXC_TCHF 1,
    Frame TRXC_TCHF 2 TRXC_TCHF 2, Frame TRXC_TCHF 3 TRXC_TCHF 3,
    Frame TRXC_TCHF 0 TRXC_TCHF 0, Frame TRXC_TCHF 1 TRXC_TCHF 1,
    Frame TRXC_TCHF 2 TRXC_TCHF 2, Frame TRXC_TCHF 3 TRXC_TCHF 3,
    Frame TRXC_SACCHTF 2 TRXC_SACCHTF 2, Frame TRXC_TCHF 0 TRXC_TCHF 0,
    Frame TRXC_TCHF 1 TRXC_TCHF 1, Frame TRXC_TCHF 2 TRXC_TCHF 2,
    Frame TRXC_TCHF 3 TRXC_TCHF 3, Frame TRXC_TCHF 0 TRXC_TCHF 0,
    Frame TRXC_TCHF 1 TRXC_TCHF 1, Frame TRXC_TCHF 2 TRXC_TCHF 2,
    Frame TRXC_TCHF 3 TRXC_TCHF 3, Frame TRXC_TCHF 0 TRXC_TCHF 0,
    Frame TRXC_TCHF 1 TRXC_TCHF 1, Frame TRXC_TCHF 2 TRXC_TCHF 2,
    Frame TRXC_TCHF 3 TRXC_TCHF 3, Frame TRXC_IDLE 0 TRXC_IDLE 0,
    Frame TRXC_TCHF 0 TRXC_TCHF 0, Frame TRXC_TCHF 1 TRXC_TCHF 1,
    Frame TRXC_TCHF 2 TRXC_TCHF 2, Frame TRXC_TCHF 3 TRXC_TCHF 3,
    Frame TRXC_TCHF 0 TRXC_TCHF 0, Frame TRXC_TCHF 1 TRXC_TCHF 1,
    Frame TRXC_TCHF 2 TRXC_TCHF 2, Frame TRXC_TCHF 3 TRXC_TCHF 3,
    Frame TRXC_TCHF 0 TRXC_TCHF 0, Frame TRXC_TCHF 1 TRXC_TCHF 1,
    Frame TRXC_TCHF 2 TRXC_TCHF 2, Frame TRXC_TCHF 3 TRXC_TCHF 3,
    Frame TRXC_SACCHTF 3 TRXC_SACCHTF 3, Frame TRXC_TCHF 0 TRXC_TCHF 0,
    Frame TRXC_TCHF 1 TRXC_TCHF 1, Frame TRXC_TCHF 2 TRXC_TCHF 2,
    Frame TRXC_TCHF 3 TRXC_TCHF 3, Frame TRXC_TCHF 0 TRXC_TCHF 0,
    Frame TRXC_TCHF 1 TRXC_TCHF 1, Frame TRXC_TCHF 2 TRXC_TCHF 2,
    Frame TRXC_TCHF 3 TRXC_TCHF 3, Frame TRXC_TCHF 0 TRXC_TCHF 0,
    Frame TRXC_TCHF 1 TRXC_TCHF 1, Frame TRXC_TCHF 2 TRXC_TCHF 2,
    Frame TRXC_TCHF 3 TRXC_TCHF 3, Frame TRXC_IDLE 0 TRXC_IDLE 0,
    Frame TRXC_TCHF 0 TRXC_TCHF 0, Frame TRXC_TCHF 1 TRXC_TCHF 1,
    Frame TRXC_TCHF 2 TRXC_TCHF 2, Frame TRXC_TCHF 3 TRXC_TCHF 3,
    Frame TRXC_TCHF 0 TRXC_TCHF 0, Frame TRXC_TCHF 1 TRXC_TCHF 1,
    Frame TRXC_TCHF 2 TRXC_TCHF 2, Frame TRXC_TCHF 3 TRXC_TCHF 3,
    Frame TRXC_TCHF 0 TRXC_TCHF 0, Frame TRXC_TCHF 1 TRXC_TCHF 1,
    Frame TRXC_TCHF 2 TRXC_TCHF 2, Frame TRXC_TCHF 3 TRXC_TCHF 3,
    Frame TRXC_SACCHTF 0 TRXC_SACCHTF 0, Frame TRXC_TCHF 0 TRXC_TCHF 0,
    Frame TRXC_TCHF 1 TRXC_TCHF 1, Frame TRXC_TCHF 2 TRXC_TCHF 2,
    Frame TRXC_TCHF 3 TRXC_TCHF 3, Frame TRXC_TCHF 0 TRXC_TCHF 0,
    Frame TRXC_TCHF 1 TRXC_TCHF 1, Frame TRXC_TCHF 2 TRXC_TCHF 2,
    Frame TRXC_TCHF 3 TRXC_TCHF 3, Frame TRXC_TCHF 0 TRXC_TCHF 0,
    Frame TRXC_TCHF 1 TRXC_TCHF 1, Frame TRXC_TCHF 2 TRXC_TCHF 2,
    Frame TRXC_TCHF 3 TRXC_TCHF 3, Frame TRXC_IDLE 0 TRXC_IDLE 0]"

definition frame_tchf_ts7 :: "trx_frame list" where
  "frame_tchf_ts7 = [
    Frame TRXC_TCHF 0 TRXC_TCHF 0, Frame TRXC_TCHF 1 TRXC_TCHF 1,
    Frame TRXC_TCHF 2 TRXC_TCHF 2, Frame TRXC_TCHF 3 TRXC_TCHF 3,
    Frame TRXC_TCHF 0 TRXC_TCHF 0, Frame TRXC_TCHF 1 TRXC_TCHF 1,
    Frame TRXC_TCHF 2 TRXC_TCHF 2, Frame TRXC_TCHF 3 TRXC_TCHF 3,
    Frame TRXC_TCHF 0 TRXC_TCHF 0, Frame TRXC_TCHF 1 TRXC_TCHF 1,
    Frame TRXC_TCHF 2 TRXC_TCHF 2, Frame TRXC_TCHF 3 TRXC_TCHF 3,
    Frame TRXC_IDLE 0 TRXC_IDLE 0, Frame TRXC_TCHF 0 TRXC_TCHF 0,
    Frame TRXC_TCHF 1 TRXC_TCHF 1, Frame TRXC_TCHF 2 TRXC_TCHF 2,
    Frame TRXC_TCHF 3 TRXC_TCHF 3, Frame TRXC_TCHF 0 TRXC_TCHF 0,
    Frame TRXC_TCHF 1 TRXC_TCHF 1, Frame TRXC_TCHF 2 TRXC_TCHF 2,
    Frame TRXC_TCHF 3 TRXC_TCHF 3, Frame TRXC_TCHF 0 TRXC_TCHF 0,
    Frame TRXC_TCHF 1 TRXC_TCHF 1, Frame TRXC_TCHF 2 TRXC_TCHF 2,
    Frame TRXC_TCHF 3 TRXC_TCHF 3, Frame TRXC_SACCHTF 1 TRXC_SACCHTF 1,
    Frame TRXC_TCHF 0 TRXC_TCHF 0, Frame TRXC_TCHF 1 TRXC_TCHF 1,
    Frame TRXC_TCHF 2 TRXC_TCHF 2, Frame TRXC_TCHF 3 TRXC_TCHF 3,
    Frame TRXC_TCHF 0 TRXC_TCHF 0, Frame TRXC_TCHF 1 TRXC_TCHF 1,
    Frame TRXC_TCHF 2 TRXC_TCHF 2, Frame TRXC_TCHF 3 TRXC_TCHF 3,
    Frame TRXC_TCHF 0 TRXC_TCHF 0, Frame TRXC_TCHF 1 TRXC_TCHF 1,
    Frame TRXC_TCHF 2 TRXC_TCHF 2, Frame TRXC_TCHF 3 TRXC_TCHF 3,
    Frame TRXC_IDLE 0 TRXC_IDLE 0, Frame TRXC_TCHF 0 TRXC_TCHF 0,
    Frame TRXC_TCHF 1 TRXC_TCHF 1, Frame TRXC_TCHF 2 TRXC_TCHF 2,
    Frame TRXC_TCHF 3 TRXC_TCHF 3, Frame TRXC_TCHF 0 TRXC_TCHF 0,
    Frame TRXC_TCHF 1 TRXC_TCHF 1, Frame TRXC_TCHF 2 TRXC_TCHF 2,
    Frame TRXC_TCHF 3 TRXC_TCHF 3, Frame TRXC_TCHF 0 TRXC_TCHF 0,
    Frame TRXC_TCHF 1 TRXC_TCHF 1, Frame TRXC_TCHF 2 TRXC_TCHF 2,
    Frame TRXC_TCHF 3 TRXC_TCHF 3, Frame TRXC_SACCHTF 2 TRXC_SACCHTF 2,
    Frame TRXC_TCHF 0 TRXC_TCHF 0, Frame TRXC_TCHF 1 TRXC_TCHF 1,
    Frame TRXC_TCHF 2 TRXC_TCHF 2, Frame TRXC_TCHF 3 TRXC_TCHF 3,
    Frame TRXC_TCHF 0 TRXC_TCHF 0, Frame TRXC_TCHF 1 TRXC_TCHF 1,
    Frame TRXC_TCHF 2 TRXC_TCHF 2, Frame TRXC_TCHF 3 TRXC_TCHF 3,
    Frame TRXC_TCHF 0 TRXC_TCHF 0, Frame TRXC_TCHF 1 TRXC_TCHF 1,
    Frame TRXC_TCHF 2 TRXC_TCHF 2, Frame TRXC_TCHF 3 TRXC_TCHF 3,
    Frame TRXC_IDLE 0 TRXC_IDLE 0, Frame TRXC_TCHF 0 TRXC_TCHF 0,
    Frame TRXC_TCHF 1 TRXC_TCHF 1, Frame TRXC_TCHF 2 TRXC_TCHF 2,
    Frame TRXC_TCHF 3 TRXC_TCHF 3, Frame TRXC_TCHF 0 TRXC_TCHF 0,
    Frame TRXC_TCHF 1 TRXC_TCHF 1, Frame TRXC_TCHF 2 TRXC_TCHF 2,
    Frame TRXC_TCHF 3 TRXC_TCHF 3, Frame TRXC_TCHF 0 TRXC_TCHF 0,
    Frame TRXC_TCHF 1 TRXC_TCHF 1, Frame TRXC_TCHF 2 TRXC_TCHF 2,
    Frame TRXC_TCHF 3 TRXC_TCHF 3, Frame TRXC_SACCHTF 3 TRXC_SACCHTF 3,
    Frame TRXC_TCHF 0 TRXC_TCHF 0, Frame TRXC_TCHF 1 TRXC_TCHF 1,
    Frame TRXC_TCHF 2 TRXC_TCHF 2, Frame TRXC_TCHF 3 TRXC_TCHF 3,
    Frame TRXC_TCHF 0 TRXC_TCHF 0, Frame TRXC_TCHF 1 TRXC_TCHF 1,
    Frame TRXC_TCHF 2 TRXC_TCHF 2, Frame TRXC_TCHF 3 TRXC_TCHF 3,
    Frame TRXC_TCHF 0 TRXC_TCHF 0, Frame TRXC_TCHF 1 TRXC_TCHF 1,
    Frame TRXC_TCHF 2 TRXC_TCHF 2, Frame TRXC_TCHF 3 TRXC_TCHF 3,
    Frame TRXC_IDLE 0 TRXC_IDLE 0, Frame TRXC_TCHF 0 TRXC_TCHF 0,
    Frame TRXC_TCHF 1 TRXC_TCHF 1, Frame TRXC_TCHF 2 TRXC_TCHF 2,
    Frame TRXC_TCHF 3 TRXC_TCHF 3, Frame TRXC_TCHF 0 TRXC_TCHF 0,
    Frame TRXC_TCHF 1 TRXC_TCHF 1, Frame TRXC_TCHF 2 TRXC_TCHF 2,
    Frame TRXC_TCHF 3 TRXC_TCHF 3, Frame TRXC_TCHF 0 TRXC_TCHF 0,
    Frame TRXC_TCHF 1 TRXC_TCHF 1, Frame TRXC_TCHF 2 TRXC_TCHF 2,
    Frame TRXC_TCHF 3 TRXC_TCHF 3, Frame TRXC_SACCHTF 0 TRXC_SACCHTF 0]"

definition frame_tchh_ts01 :: "trx_frame list" where
  "frame_tchh_ts01 = [
    Frame TRXC_TCHH_0 0 TRXC_TCHH_0 0, Frame TRXC_TCHH_1 0 TRXC_TCHH_1 0,
    Frame TRXC_TCHH_0 1 TRXC_TCHH_0 1, Frame TRXC_TCHH_1 1 TRXC_TCHH_1 1,
    Frame TRXC_TCHH_0 0 TRXC_TCHH_0 0, Frame TRXC_TCHH_1 0 TRXC_TCHH_1 0,
    Frame TRXC_TCHH_0 1 TRXC_TCHH_0 1, Frame TRXC_TCHH_1 1 TRXC_TCHH_1 1,
    Frame TRXC_TCHH_0 0 TRXC_TCHH_0 0, Frame TRXC_TCHH_1 0 TRXC_TCHH_1 0,
    Frame TRXC_TCHH_0 1 TRXC_TCHH_0 1, Frame TRXC_TCHH_1 1 TRXC_TCHH_1 1,
    Frame TRXC_SACCHTH_0 0 TRXC_SACCHTH_0 0, Frame TRXC_TCHH_0 0 TRXC_TCHH_0 0,
    Frame TRXC_TCHH_1 0 TRXC_TCHH_1 0, Frame TRXC_TCHH_0 1 TRXC_TCHH_0 1,
    Frame TRXC_TCHH_1 1 TRXC_TCHH_1 1, Frame TRXC_TCHH_0 0 TRXC_TCHH_0 0,
    Frame TRXC_TCHH_1 0 TRXC_TCHH_1 0, Frame TRXC_TCHH_0 1 TRXC_TCHH_0 1,
    Frame TRXC_TCHH_1 1 TRXC_TCHH_1 1, Frame TRXC_TCHH_0 0 TRXC_TCHH_0 0,
    Frame TRXC_TCHH_1 0 TRXC_TCHH_1 0, Frame TRXC_TCHH_0 1 TRXC_TCHH_0 1,
    Frame TRXC_TCHH_1 1 TRXC_TCHH_1 1, Frame TRXC_SACCHTH_1 0 TRXC_SACCHTH_1 0,
    Frame TRXC_TCHH_0 0 TRXC_TCHH_0 0, Frame TRXC_TCHH_1 0 TRXC_TCHH_1 0,
    Frame TRXC_TCHH_0 1 TRXC_TCHH_0 1, Frame TRXC_TCHH_1 1 TRXC_TCHH_1 1,
    Frame TRXC_TCHH_0 0 TRXC_TCHH_0 0, Frame TRXC_TCHH_1 0 TRXC_TCHH_1 0,
    Frame TRXC_TCHH_0 1 TRXC_TCHH_0 1, Frame TRXC_TCHH_1 1 TRXC_TCHH_1 1,
    Frame TRXC_TCHH_0 0 TRXC_TCHH_0 0, Frame TRXC_TCHH_1 0 TRXC_TCHH_1 0,
    Frame TRXC_TCHH_0 1 TRXC_TCHH_0 1, Frame TRXC_TCHH_1 1 TRXC_TCHH_1 1,
    Frame TRXC_SACCHTH_0 1 TRXC_SACCHTH_0 1, Frame TRXC_TCHH_0 0 TRXC_TCHH_0 0,
    Frame TRXC_TCHH_1 0 TRXC_TCHH_1 0, Frame TRXC_TCHH_0 1 TRXC_TCHH_0 1,
    Frame TRXC_TCHH_1 1 TRXC_TCHH_1 1, Frame TRXC_TCHH_0 0 TRXC_TCHH_0 0,
    Frame TRXC_TCHH_1 0 TRXC_TCHH_1 0, Frame TRXC_TCHH_0 1 TRXC_TCHH_0 1,
    Frame TRXC_TCHH_1 1 TRXC_TCHH_1 1, Frame TRXC_TCHH_0 0 TRXC_TCHH_0 0,
    Frame TRXC_TCHH_1 0 TRXC_TCHH_1 0, Frame TRXC_TCHH_0 1 TRXC_TCHH_0 1,
    Frame TRXC_TCHH_1 1 TRXC_TCHH_1 1, Frame TRXC_SACCHTH_1 1 TRXC_SACCHTH_1 1,
    Frame TRXC_TCHH_0 0 TRXC_TCHH_0 0, Frame TRXC_TCHH_1 0 TRXC_TCHH_1 0,
    Frame TRXC_TCHH_0 1 TRXC_TCHH_0 1, Frame TRXC_TCHH_1 1 TRXC_TCHH_1 1,
    Frame TRXC_TCHH_0 0 TRXC_TCHH_0 0, Frame TRXC_TCHH_1 0 TRXC_TCHH_1 0,
    Frame TRXC_TCHH_0 1 TRXC_TCHH_0 1, Frame TRXC_TCHH_1 1 TRXC_TCHH_1 1,
    Frame TRXC_TCHH_0 0 TRXC_TCHH_0 0, Frame TRXC_TCHH_1 0 TRXC_TCHH_1 0,
    Frame TRXC_TCHH_0 1 TRXC_TCHH_0 1, Frame TRXC_TCHH_1 1 TRXC_TCHH_1 1,
    Frame TRXC_SACCHTH_0 2 TRXC_SACCHTH_0 2, Frame TRXC_TCHH_0 0 TRXC_TCHH_0 0,
    Frame TRXC_TCHH_1 0 TRXC_TCHH_1 0, Frame TRXC_TCHH_0 1 TRXC_TCHH_0 1,
    Frame TRXC_TCHH_1 1 TRXC_TCHH_1 1, Frame TRXC_TCHH_0 0 TRXC_TCHH_0 0,
    Frame TRXC_TCHH_1 0 TRXC_TCHH_1 0, Frame TRXC_TCHH_0 1 TRXC_TCHH_0 1,
    Frame TRXC_TCHH_1 1 TRXC_TCHH_1 1, Frame TRXC_TCHH_0 0 TRXC_TCHH_0 0,
    Frame TRXC_TCHH_1 0 TRXC_TCHH_1 0, Frame TRXC_TCHH_0 1 TRXC_TCHH_0 1,
    Frame TRXC_TCHH_1 1 TRXC_TCHH_1 1, Frame TRXC_SACCHTH_1 2 TRXC_SACCHTH_1 2,
    Frame TRXC_TCHH_0 0 TRXC_TCHH_0 0, Frame TRXC_TCHH_1 0 TRXC_TCHH_1 0,
    Frame TRXC_TCHH_0 1 TRXC_TCHH_0 1, Frame TRXC_TCHH_1 1 TRXC_TCHH_1 1,
    Frame TRXC_TCHH_0 0 TRXC_TCHH_0 0, Frame TRXC_TCHH_1 0 TRXC_TCHH_1 0,
    Frame TRXC_TCHH_0 1 TRXC_TCHH_0 1, Frame TRXC_TCHH_1 1 TRXC_TCHH_1 1,
    Frame TRXC_TCHH_0 0 TRXC_TCHH_0 0, Frame TRXC_TCHH_1 0 TRXC_TCHH_1 0,
    Frame TRXC_TCHH_0 1 TRXC_TCHH_0 1, Frame TRXC_TCHH_1 1 TRXC_TCHH_1 1,
    Frame TRXC_SACCHTH_0 3 TRXC_SACCHTH_0 3, Frame TRXC_TCHH_0 0 TRXC_TCHH_0 0,
    Frame TRXC_TCHH_1 0 TRXC_TCHH_1 0, Frame TRXC_TCHH_0 1 TRXC_TCHH_0 1,
    Frame TRXC_TCHH_1 1 TRXC_TCHH_1 1, Frame TRXC_TCHH_0 0 TRXC_TCHH_0 0,
    Frame TRXC_TCHH_1 0 TRXC_TCHH_1 0, Frame TRXC_TCHH_0 1 TRXC_TCHH_0 1,
    Frame TRXC_TCHH_1 1 TRXC_TCHH_1 1, Frame TRXC_TCHH_0 0 TRXC_TCHH_0 0,
    Frame TRXC_TCHH_1 0 TRXC_TCHH_1 0, Frame TRXC_TCHH_0 1 TRXC_TCHH_0 1,
    Frame TRXC_TCHH_1 1 TRXC_TCHH_1 1, Frame TRXC_SACCHTH_1 3 TRXC_SACCHTH_1 3]"

definition frame_tchh_ts23 :: "trx_frame list" where
  "frame_tchh_ts23 = [
    Frame TRXC_TCHH_0 0 TRXC_TCHH_0 0, Frame TRXC_TCHH_1 0 TRXC_TCHH_1 0,
    Frame TRXC_TCHH_0 1 TRXC_TCHH_0 1, Frame TRXC_TCHH_1 1 TRXC_TCHH_1 1,
    Frame TRXC_TCHH_0 0 TRXC_TCHH_0 0, Frame TRXC_TCHH_1 0 TRXC_TCHH_1 0,
    Frame TRXC_TCHH_0 1 TRXC_TCHH_0 1, Frame TRXC_TCHH_1 1 TRXC_TCHH_1 1,
    Frame TRXC_TCHH_0 0 TRXC_TCHH_0 0, Frame TRXC_TCHH_1 0 TRXC_TCHH_1 0,
    Frame TRXC_TCHH_0 1 TRXC_TCHH_0 1, Frame TRXC_TCHH_1 1 TRXC_TCHH_1 1,
    Frame TRXC_SACCHTH_0 3 TRXC_SACCHTH_0 3, Frame TRXC_TCHH_0 0 TRXC_TCHH_0 0,
    Frame TRXC_TCHH_1 0 TRXC_TCHH_1 0, Frame TRXC_TCHH_0 1 TRXC_TCHH_0 1,
    Frame TRXC_TCHH_1 1 TRXC_TCHH_1 1, Frame TRXC_TCHH_0 0 TRXC_TCHH_0 0,
    Frame TRXC_TCHH_1 0 TRXC_TCHH_1 0, Frame TRXC_TCHH_0 1 TRXC_TCHH_0 1,
    Frame TRXC_TCHH_1 1 TRXC_TCHH_1 1, Frame TRXC_TCHH_0 0 TRXC_TCHH_0 0,
    Frame TRXC_TCHH_1 0 TRXC_TCHH_1 0, Frame TRXC_TCHH_0 1 TRXC_TCHH_0 1,
    Frame TRXC_TCHH_1 1 TRXC_TCHH_1 1, Frame TRXC_SACCHTH_1 3 TRXC_SACCHTH_1 3,
    Frame TRXC_TCHH_0 0 TRXC_TCHH_0 0, Frame TRXC_TCHH_1 0 TRXC_TCHH_1 0,
    Frame TRXC_TCHH_0 1 TRXC_TCHH_0 1, Frame TRXC_TCHH_1 1 TRXC_TCHH_1 1,
    Frame TRXC_TCHH_0 0 TRXC_TCHH_0 0, Frame TRXC_TCHH_1 0 TRXC_TCHH_1 0,
    Frame TRXC_TCHH_0 1 TRXC_TCHH_0 1, Frame TRXC_TCHH_1 1 TRXC_TCHH_1 1,
    Frame TRXC_TCHH_0 0 TRXC_TCHH_0 0, Frame TRXC_TCHH_1 0 TRXC_TCHH_1 0,
    Frame TRXC_TCHH_0 1 TRXC_TCHH_0 1, Frame TRXC_TCHH_1 1 TRXC_TCHH_1 1,
    Frame TRXC_SACCHTH_0 0 TRXC_SACCHTH_0 0, Frame TRXC_TCHH_0 0 TRXC_TCHH_0 0,
    Frame TRXC_TCHH_1 0 TRXC_TCHH_1 0, Frame TRXC_TCHH_0 1 TRXC_TCHH_0 1,
    Frame TRXC_TCHH_1 1 TRXC_TCHH_1 1, Frame TRXC_TCHH_0 0 TRXC_TCHH_0 0,
    Frame TRXC_TCHH_1 0 TRXC_TCHH_1 0, Frame TRXC_TCHH_0 1 TRXC_TCHH_0 1,
    Frame TRXC_TCHH_1 1 TRXC_TCHH_1 1, Frame TRXC_TCHH_0 0 TRXC_TCHH_0 0,
    Frame TRXC_TCHH_1 0 TRXC_TCHH_1 0, Frame TRXC_TCHH_0 1 TRXC_TCHH_0 1,
    Frame TRXC_TCHH_1 1 TRXC_TCHH_1 1, Frame TRXC_SACCHTH_1 0 TRXC_SACCHTH_1 0,
    Frame TRXC_TCHH_0 0 TRXC_TCHH_0 0, Frame TRXC_TCHH_1 0 TRXC_TCHH_1 0,
    Frame TRXC_TCHH_0 1 TRXC_TCHH_0 1, Frame TRXC_TCHH_1 1 TRXC_TCHH_1 1,
    Frame TRXC_TCHH_0 0 TRXC_TCHH_0 0, Frame TRXC_TCHH_1 0 TRXC_TCHH_1 0,
    Frame TRXC_TCHH_0 1 TRXC_TCHH_0 1, Frame TRXC_TCHH_1 1 TRXC_TCHH_1 1,
    Frame TRXC_TCHH_0 0 TRXC_TCHH_0 0, Frame TRXC_TCHH_1 0 TRXC_TCHH_1 0,
    Frame TRXC_TCHH_0 1 TRXC_TCHH_0 1, Frame TRXC_TCHH_1 1 TRXC_TCHH_1 1,
    Frame TRXC_SACCHTH_0 1 TRXC_SACCHTH_0 1, Frame TRXC_TCHH_0 0 TRXC_TCHH_0 0,
    Frame TRXC_TCHH_1 0 TRXC_TCHH_1 0, Frame TRXC_TCHH_0 1 TRXC_TCHH_0 1,
    Frame TRXC_TCHH_1 1 TRXC_TCHH_1 1, Frame TRXC_TCHH_0 0 TRXC_TCHH_0 0,
    Frame TRXC_TCHH_1 0 TRXC_TCHH_1 0, Frame TRXC_TCHH_0 1 TRXC_TCHH_0 1,
    Frame TRXC_TCHH_1 1 TRXC_TCHH_1 1, Frame TRXC_TCHH_0 0 TRXC_TCHH_0 0,
    Frame TRXC_TCHH_1 0 TRXC_TCHH_1 0, Frame TRXC_TCHH_0 1 TRXC_TCHH_0 1,
    Frame TRXC_TCHH_1 1 TRXC_TCHH_1 1, Frame TRXC_SACCHTH_1 1 TRXC_SACCHTH_1 1,
    Frame TRXC_TCHH_0 0 TRXC_TCHH_0 0, Frame TRXC_TCHH_1 0 TRXC_TCHH_1 0,
    Frame TRXC_TCHH_0 1 TRXC_TCHH_0 1, Frame TRXC_TCHH_1 1 TRXC_TCHH_1 1,
    Frame TRXC_TCHH_0 0 TRXC_TCHH_0 0, Frame TRXC_TCHH_1 0 TRXC_TCHH_1 0,
    Frame TRXC_TCHH_0 1 TRXC_TCHH_0 1, Frame TRXC_TCHH_1 1 TRXC_TCHH_1 1,
    Frame TRXC_TCHH_0 0 TRXC_TCHH_0 0, Frame TRXC_TCHH_1 0 TRXC_TCHH_1 0,
    Frame TRXC_TCHH_0 1 TRXC_TCHH_0 1, Frame TRXC_TCHH_1 1 TRXC_TCHH_1 1,
    Frame TRXC_SACCHTH_0 2 TRXC_SACCHTH_0 2, Frame TRXC_TCHH_0 0 TRXC_TCHH_0 0,
    Frame TRXC_TCHH_1 0 TRXC_TCHH_1 0, Frame TRXC_TCHH_0 1 TRXC_TCHH_0 1,
    Frame TRXC_TCHH_1 1 TRXC_TCHH_1 1, Frame TRXC_TCHH_0 0 TRXC_TCHH_0 0,
    Frame TRXC_TCHH_1 0 TRXC_TCHH_1 0, Frame TRXC_TCHH_0 1 TRXC_TCHH_0 1,
    Frame TRXC_TCHH_1 1 TRXC_TCHH_1 1, Frame TRXC_TCHH_0 0 TRXC_TCHH_0 0,
    Frame TRXC_TCHH_1 0 TRXC_TCHH_1 0, Frame TRXC_TCHH_0 1 TRXC_TCHH_0 1,
    Frame TRXC_TCHH_1 1 TRXC_TCHH_1 1, Frame TRXC_SACCHTH_1 2 TRXC_SACCHTH_1 2]"

definition frame_tchh_ts45 :: "trx_frame list" where
  "frame_tchh_ts45 = [
    Frame TRXC_TCHH_0 0 TRXC_TCHH_0 0, Frame TRXC_TCHH_1 0 TRXC_TCHH_1 0,
    Frame TRXC_TCHH_0 1 TRXC_TCHH_0 1, Frame TRXC_TCHH_1 1 TRXC_TCHH_1 1,
    Frame TRXC_TCHH_0 0 TRXC_TCHH_0 0, Frame TRXC_TCHH_1 0 TRXC_TCHH_1 0,
    Frame TRXC_TCHH_0 1 TRXC_TCHH_0 1, Frame TRXC_TCHH_1 1 TRXC_TCHH_1 1,
    Frame TRXC_TCHH_0 0 TRXC_TCHH_0 0, Frame TRXC_TCHH_1 0 TRXC_TCHH_1 0,
    Frame TRXC_TCHH_0 1 TRXC_TCHH_0 1, Frame TRXC_TCHH_1 1 TRXC_TCHH_1 1,
    Frame TRXC_SACCHTH_0 2 TRXC_SACCHTH_0 2, Frame TRXC_TCHH_0 0 TRXC_TCHH_0 0,
    Frame TRXC_TCHH_1 0 TRXC_TCHH_1 0, Frame TRXC_TCHH_0 1 TRXC_TCHH_0 1,
    Frame TRXC_TCHH_1 1 TRXC_TCHH_1 1, Frame TRXC_TCHH_0 0 TRXC_TCHH_0 0,
    Frame TRXC_TCHH_1 0 TRXC_TCHH_1 0, Frame TRXC_TCHH_0 1 TRXC_TCHH_0 1,
    Frame TRXC_TCHH_1 1 TRXC_TCHH_1 1, Frame TRXC_TCHH_0 0 TRXC_TCHH_0 0,
    Frame TRXC_TCHH_1 0 TRXC_TCHH_1 0, Frame TRXC_TCHH_0 1 TRXC_TCHH_0 1,
    Frame TRXC_TCHH_1 1 TRXC_TCHH_1 1, Frame TRXC_SACCHTH_1 2 TRXC_SACCHTH_1 2,
    Frame TRXC_TCHH_0 0 TRXC_TCHH_0 0, Frame TRXC_TCHH_1 0 TRXC_TCHH_1 0,
    Frame TRXC_TCHH_0 1 TRXC_TCHH_0 1, Frame TRXC_TCHH_1 1 TRXC_TCHH_1 1,
    Frame TRXC_TCHH_0 0 TRXC_TCHH_0 0, Frame TRXC_TCHH_1 0 TRXC_TCHH_1 0,
    Frame TRXC_TCHH_0 1 TRXC_TCHH_0 1, Frame TRXC_TCHH_1 1 TRXC_TCHH_1 1,
    Frame TRXC_TCHH_0 0 TRXC_TCHH_0 0, Frame TRXC_TCHH_1 0 TRXC_TCHH_1 0,
    Frame TRXC_TCHH_0 1 TRXC_TCHH_0 1, Frame TRXC_TCHH_1 1 TRXC_TCHH_1 1,
    Frame TRXC_SACCHTH_0 3 TRXC_SACCHTH_0 3, Frame TRXC_TCHH_0 0 TRXC_TCHH_0 0,
    Frame TRXC_TCHH_1 0 TRXC_TCHH_1 0, Frame TRXC_TCHH_0 1 TRXC_TCHH_0 1,
    Frame TRXC_TCHH_1 1 TRXC_TCHH_1 1, Frame TRXC_TCHH_0 0 TRXC_TCHH_0 0,
    Frame TRXC_TCHH_1 0 TRXC_TCHH_1 0, Frame TRXC_TCHH_0 1 TRXC_TCHH_0 1,
    Frame TRXC_TCHH_1 1 TRXC_TCHH_1 1, Frame TRXC_TCHH_0 0 TRXC_TCHH_0 0,
    Frame TRXC_TCHH_1 0 TRXC_TCHH_1 0, Frame TRXC_TCHH_0 1 TRXC_TCHH_0 1,
    Frame TRXC_TCHH_1 1 TRXC_TCHH_1 1, Frame TRXC_SACCHTH_1 3 TRXC_SACCHTH_1 3,
    Frame TRXC_TCHH_0 0 TRXC_TCHH_0 0, Frame TRXC_TCHH_1 0 TRXC_TCHH_1 0,
    Frame TRXC_TCHH_0 1 TRXC_TCHH_0 1, Frame TRXC_TCHH_1 1 TRXC_TCHH_1 1,
    Frame TRXC_TCHH_0 0 TRXC_TCHH_0 0, Frame TRXC_TCHH_1 0 TRXC_TCHH_1 0,
    Frame TRXC_TCHH_0 1 TRXC_TCHH_0 1, Frame TRXC_TCHH_1 1 TRXC_TCHH_1 1,
    Frame TRXC_TCHH_0 0 TRXC_TCHH_0 0, Frame TRXC_TCHH_1 0 TRXC_TCHH_1 0,
    Frame TRXC_TCHH_0 1 TRXC_TCHH_0 1, Frame TRXC_TCHH_1 1 TRXC_TCHH_1 1,
    Frame TRXC_SACCHTH_0 0 TRXC_SACCHTH_0 0, Frame TRXC_TCHH_0 0 TRXC_TCHH_0 0,
    Frame TRXC_TCHH_1 0 TRXC_TCHH_1 0, Frame TRXC_TCHH_0 1 TRXC_TCHH_0 1,
    Frame TRXC_TCHH_1 1 TRXC_TCHH_1 1, Frame TRXC_TCHH_0 0 TRXC_TCHH_0 0,
    Frame TRXC_TCHH_1 0 TRXC_TCHH_1 0, Frame TRXC_TCHH_0 1 TRXC_TCHH_0 1,
    Frame TRXC_TCHH_1 1 TRXC_TCHH_1 1, Frame TRXC_TCHH_0 0 TRXC_TCHH_0 0,
    Frame TRXC_TCHH_1 0 TRXC_TCHH_1 0, Frame TRXC_TCHH_0 1 TRXC_TCHH_0 1,
    Frame TRXC_TCHH_1 1 TRXC_TCHH_1 1, Frame TRXC_SACCHTH_1 0 TRXC_SACCHTH_1 0,
    Frame TRXC_TCHH_0 0 TRXC_TCHH_0 0, Frame TRXC_TCHH_1 0 TRXC_TCHH_1 0,
    Frame TRXC_TCHH_0 1 TRXC_TCHH_0 1, Frame TRXC_TCHH_1 1 TRXC_TCHH_1 1,
    Frame TRXC_TCHH_0 0 TRXC_TCHH_0 0, Frame TRXC_TCHH_1 0 TRXC_TCHH_1 0,
    Frame TRXC_TCHH_0 1 TRXC_TCHH_0 1, Frame TRXC_TCHH_1 1 TRXC_TCHH_1 1,
    Frame TRXC_TCHH_0 0 TRXC_TCHH_0 0, Frame TRXC_TCHH_1 0 TRXC_TCHH_1 0,
    Frame TRXC_TCHH_0 1 TRXC_TCHH_0 1, Frame TRXC_TCHH_1 1 TRXC_TCHH_1 1,
    Frame TRXC_SACCHTH_0 1 TRXC_SACCHTH_0 1, Frame TRXC_TCHH_0 0 TRXC_TCHH_0 0,
    Frame TRXC_TCHH_1 0 TRXC_TCHH_1 0, Frame TRXC_TCHH_0 1 TRXC_TCHH_0 1,
    Frame TRXC_TCHH_1 1 TRXC_TCHH_1 1, Frame TRXC_TCHH_0 0 TRXC_TCHH_0 0,
    Frame TRXC_TCHH_1 0 TRXC_TCHH_1 0, Frame TRXC_TCHH_0 1 TRXC_TCHH_0 1,
    Frame TRXC_TCHH_1 1 TRXC_TCHH_1 1, Frame TRXC_TCHH_0 0 TRXC_TCHH_0 0,
    Frame TRXC_TCHH_1 0 TRXC_TCHH_1 0, Frame TRXC_TCHH_0 1 TRXC_TCHH_0 1,
    Frame TRXC_TCHH_1 1 TRXC_TCHH_1 1, Frame TRXC_SACCHTH_1 1 TRXC_SACCHTH_1 1]"

definition frame_tchh_ts67 :: "trx_frame list" where
  "frame_tchh_ts67 = [
    Frame TRXC_TCHH_0 0 TRXC_TCHH_0 0, Frame TRXC_TCHH_1 0 TRXC_TCHH_1 0,
    Frame TRXC_TCHH_0 1 TRXC_TCHH_0 1, Frame TRXC_TCHH_1 1 TRXC_TCHH_1 1,
    Frame TRXC_TCHH_0 0 TRXC_TCHH_0 0, Frame TRXC_TCHH_1 0 TRXC_TCHH_1 0,
    Frame TRXC_TCHH_0 1 TRXC_TCHH_0 1, Frame TRXC_TCHH_1 1 TRXC_TCHH_1 1,
    Frame TRXC_TCHH_0 0 TRXC_TCHH_0 0, Frame TRXC_TCHH_1 0 TRXC_TCHH_1 0,
    Frame TRXC_TCHH_0 1 TRXC_TCHH_0 1, Frame TRXC_TCHH_1 1 TRXC_TCHH_1 1,
    Frame TRXC_SACCHTH_0 1 TRXC_SACCHTH_0 1, Frame TRXC_TCHH_0 0 TRXC_TCHH_0 0,
    Frame TRXC_TCHH_1 0 TRXC_TCHH_1 0, Frame TRXC_TCHH_0 1 TRXC_TCHH_0 1,
    Frame TRXC_TCHH_1 1 TRXC_TCHH_1 1, Frame TRXC_TCHH_0 0 TRXC_TCHH_0 0,
    Frame TRXC_TCHH_1 0 TRXC_TCHH_1 0, Frame TRXC_TCHH_0 1 TRXC_TCHH_0 1,
    Frame TRXC_TCHH_1 1 TRXC_TCHH_1 1, Frame TRXC_TCHH_0 0 TRXC_TCHH_0 0,
    Frame TRXC_TCHH_1 0 TRXC_TCHH_1 0, Frame TRXC_TCHH_0 1 TRXC_TCHH_0 1,
    Frame TRXC_TCHH_1 1 TRXC_TCHH_1 1, Frame TRXC_SACCHTH_1 1 TRXC_SACCHTH_1 1,
    Frame TRXC_TCHH_0 0 TRXC_TCHH_0 0, Frame TRXC_TCHH_1 0 TRXC_TCHH_1 0,
    Frame TRXC_TCHH_0 1 TRXC_TCHH_0 1, Frame TRXC_TCHH_1 1 TRXC_TCHH_1 1,
    Frame TRXC_TCHH_0 0 TRXC_TCHH_0 0, Frame TRXC_TCHH_1 0 TRXC_TCHH_1 0,
    Frame TRXC_TCHH_0 1 TRXC_TCHH_0 1, Frame TRXC_TCHH_1 1 TRXC_TCHH_1 1,
    Frame TRXC_TCHH_0 0 TRXC_TCHH_0 0, Frame TRXC_TCHH_1 0 TRXC_TCHH_1 0,
    Frame TRXC_TCHH_0 1 TRXC_TCHH_0 1, Frame TRXC_TCHH_1 1 TRXC_TCHH_1 1,
    Frame TRXC_SACCHTH_0 2 TRXC_SACCHTH_0 2, Frame TRXC_TCHH_0 0 TRXC_TCHH_0 0,
    Frame TRXC_TCHH_1 0 TRXC_TCHH_1 0, Frame TRXC_TCHH_0 1 TRXC_TCHH_0 1,
    Frame TRXC_TCHH_1 1 TRXC_TCHH_1 1, Frame TRXC_TCHH_0 0 TRXC_TCHH_0 0,
    Frame TRXC_TCHH_1 0 TRXC_TCHH_1 0, Frame TRXC_TCHH_0 1 TRXC_TCHH_0 1,
    Frame TRXC_TCHH_1 1 TRXC_TCHH_1 1, Frame TRXC_TCHH_0 0 TRXC_TCHH_0 0,
    Frame TRXC_TCHH_1 0 TRXC_TCHH_1 0, Frame TRXC_TCHH_0 1 TRXC_TCHH_0 1,
    Frame TRXC_TCHH_1 1 TRXC_TCHH_1 1, Frame TRXC_SACCHTH_1 2 TRXC_SACCHTH_1 2,
    Frame TRXC_TCHH_0 0 TRXC_TCHH_0 0, Frame TRXC_TCHH_1 0 TRXC_TCHH_1 0,
    Frame TRXC_TCHH_0 1 TRXC_TCHH_0 1, Frame TRXC_TCHH_1 1 TRXC_TCHH_1 1,
    Frame TRXC_TCHH_0 0 TRXC_TCHH_0 0, Frame TRXC_TCHH_1 0 TRXC_TCHH_1 0,
    Frame TRXC_TCHH_0 1 TRXC_TCHH_0 1, Frame TRXC_TCHH_1 1 TRXC_TCHH_1 1,
    Frame TRXC_TCHH_0 0 TRXC_TCHH_0 0, Frame TRXC_TCHH_1 0 TRXC_TCHH_1 0,
    Frame TRXC_TCHH_0 1 TRXC_TCHH_0 1, Frame TRXC_TCHH_1 1 TRXC_TCHH_1 1,
    Frame TRXC_SACCHTH_0 3 TRXC_SACCHTH_0 3, Frame TRXC_TCHH_0 0 TRXC_TCHH_0 0,
    Frame TRXC_TCHH_1 0 TRXC_TCHH_1 0, Frame TRXC_TCHH_0 1 TRXC_TCHH_0 1,
    Frame TRXC_TCHH_1 1 TRXC_TCHH_1 1, Frame TRXC_TCHH_0 0 TRXC_TCHH_0 0,
    Frame TRXC_TCHH_1 0 TRXC_TCHH_1 0, Frame TRXC_TCHH_0 1 TRXC_TCHH_0 1,
    Frame TRXC_TCHH_1 1 TRXC_TCHH_1 1, Frame TRXC_TCHH_0 0 TRXC_TCHH_0 0,
    Frame TRXC_TCHH_1 0 TRXC_TCHH_1 0, Frame TRXC_TCHH_0 1 TRXC_TCHH_0 1,
    Frame TRXC_TCHH_1 1 TRXC_TCHH_1 1, Frame TRXC_SACCHTH_1 3 TRXC_SACCHTH_1 3,
    Frame TRXC_TCHH_0 0 TRXC_TCHH_0 0, Frame TRXC_TCHH_1 0 TRXC_TCHH_1 0,
    Frame TRXC_TCHH_0 1 TRXC_TCHH_0 1, Frame TRXC_TCHH_1 1 TRXC_TCHH_1 1,
    Frame TRXC_TCHH_0 0 TRXC_TCHH_0 0, Frame TRXC_TCHH_1 0 TRXC_TCHH_1 0,
    Frame TRXC_TCHH_0 1 TRXC_TCHH_0 1, Frame TRXC_TCHH_1 1 TRXC_TCHH_1 1,
    Frame TRXC_TCHH_0 0 TRXC_TCHH_0 0, Frame TRXC_TCHH_1 0 TRXC_TCHH_1 0,
    Frame TRXC_TCHH_0 1 TRXC_TCHH_0 1, Frame TRXC_TCHH_1 1 TRXC_TCHH_1 1,
    Frame TRXC_SACCHTH_0 0 TRXC_SACCHTH_0 0, Frame TRXC_TCHH_0 0 TRXC_TCHH_0 0,
    Frame TRXC_TCHH_1 0 TRXC_TCHH_1 0, Frame TRXC_TCHH_0 1 TRXC_TCHH_0 1,
    Frame TRXC_TCHH_1 1 TRXC_TCHH_1 1, Frame TRXC_TCHH_0 0 TRXC_TCHH_0 0,
    Frame TRXC_TCHH_1 0 TRXC_TCHH_1 0, Frame TRXC_TCHH_0 1 TRXC_TCHH_0 1,
    Frame TRXC_TCHH_1 1 TRXC_TCHH_1 1, Frame TRXC_TCHH_0 0 TRXC_TCHH_0 0,
    Frame TRXC_TCHH_1 0 TRXC_TCHH_1 0, Frame TRXC_TCHH_0 1 TRXC_TCHH_0 1,
    Frame TRXC_TCHH_1 1 TRXC_TCHH_1 1, Frame TRXC_SACCHTH_1 0 TRXC_SACCHTH_1 0]"

definition frame_pdch :: "trx_frame list" where
  "frame_pdch = [
    Frame TRXC_PDTCH 0 TRXC_PDTCH 0, Frame TRXC_PDTCH 1 TRXC_PDTCH 1,
    Frame TRXC_PDTCH 2 TRXC_PDTCH 2, Frame TRXC_PDTCH 3 TRXC_PDTCH 3,
    Frame TRXC_PDTCH 0 TRXC_PDTCH 0, Frame TRXC_PDTCH 1 TRXC_PDTCH 1,
    Frame TRXC_PDTCH 2 TRXC_PDTCH 2, Frame TRXC_PDTCH 3 TRXC_PDTCH 3,
    Frame TRXC_PDTCH 0 TRXC_PDTCH 0, Frame TRXC_PDTCH 1 TRXC_PDTCH 1,
    Frame TRXC_PDTCH 2 TRXC_PDTCH 2, Frame TRXC_PDTCH 3 TRXC_PDTCH 3,
    Frame TRXC_PTCCH 0 TRXC_PTCCH 0, Frame TRXC_PDTCH 0 TRXC_PDTCH 0,
    Frame TRXC_PDTCH 1 TRXC_PDTCH 1, Frame TRXC_PDTCH 2 TRXC_PDTCH 2,
    Frame TRXC_PDTCH 3 TRXC_PDTCH 3, Frame TRXC_PDTCH 0 TRXC_PDTCH 0,
    Frame TRXC_PDTCH 1 TRXC_PDTCH 1, Frame TRXC_PDTCH 2 TRXC_PDTCH 2,
    Frame TRXC_PDTCH 3 TRXC_PDTCH 3, Frame TRXC_PDTCH 0 TRXC_PDTCH 0,
    Frame TRXC_PDTCH 1 TRXC_PDTCH 1, Frame TRXC_PDTCH 2 TRXC_PDTCH 2,
    Frame TRXC_PDTCH 3 TRXC_PDTCH 3, Frame TRXC_IDLE 0 TRXC_IDLE 0,
    Frame TRXC_PDTCH 0 TRXC_PDTCH 0, Frame TRXC_PDTCH 1 TRXC_PDTCH 1,
    Frame TRXC_PDTCH 2 TRXC_PDTCH 2, Frame TRXC_PDTCH 3 TRXC_PDTCH 3,
    Frame TRXC_PDTCH 0 TRXC_PDTCH 0, Frame TRXC_PDTCH 1 TRXC_PDTCH 1,
    Frame TRXC_PDTCH 2 TRXC_PDTCH 2, Frame TRXC_PDTCH 3 TRXC_PDTCH 3,
    Frame TRXC_PDTCH 0 TRXC_PDTCH 0, Frame TRXC_PDTCH 1 TRXC_PDTCH 1,
    Frame TRXC_PDTCH 2 TRXC_PDTCH 2, Frame TRXC_PDTCH 3 TRXC_PDTCH 3,
    Frame TRXC_PTCCH 1 TRXC_PTCCH 1, Frame TRXC_PDTCH 0 TRXC_PDTCH 0,
    Frame TRXC_PDTCH 1 TRXC_PDTCH 1, Frame TRXC_PDTCH 2 TRXC_PDTCH 2,
    Frame TRXC_PDTCH 3 TRXC_PDTCH 3, Frame TRXC_PDTCH 0 TRXC_PDTCH 0,
    Frame TRXC_PDTCH 1 TRXC_PDTCH 1, Frame TRXC_PDTCH 2 TRXC_PDTCH 2,
    Frame TRXC_PDTCH 3 TRXC_PDTCH 3, Frame TRXC_PDTCH 0 TRXC_PDTCH 0,
    Frame TRXC_PDTCH 1 TRXC_PDTCH 1, Frame TRXC_PDTCH 2 TRXC_PDTCH 2,
    Frame TRXC_PDTCH 3 TRXC_PDTCH 3, Frame TRXC_IDLE 0 TRXC_IDLE 0,
    Frame TRXC_PDTCH 0 TRXC_PDTCH 0, Frame TRXC_PDTCH 1 TRXC_PDTCH 1,
    Frame TRXC_PDTCH 2 TRXC_PDTCH 2, Frame TRXC_PDTCH 3 TRXC_PDTCH 3,
    Frame TRXC_PDTCH 0 TRXC_PDTCH 0, Frame TRXC_PDTCH 1 TRXC_PDTCH 1,
    Frame TRXC_PDTCH 2 TRXC_PDTCH 2, Frame TRXC_PDTCH 3 TRXC_PDTCH 3,
    Frame TRXC_PDTCH 0 TRXC_PDTCH 0, Frame TRXC_PDTCH 1 TRXC_PDTCH 1,
    Frame TRXC_PDTCH 2 TRXC_PDTCH 2, Frame TRXC_PDTCH 3 TRXC_PDTCH 3,
    Frame TRXC_PTCCH 2 TRXC_PTCCH 2, Frame TRXC_PDTCH 0 TRXC_PDTCH 0,
    Frame TRXC_PDTCH 1 TRXC_PDTCH 1, Frame TRXC_PDTCH 2 TRXC_PDTCH 2,
    Frame TRXC_PDTCH 3 TRXC_PDTCH 3, Frame TRXC_PDTCH 0 TRXC_PDTCH 0,
    Frame TRXC_PDTCH 1 TRXC_PDTCH 1, Frame TRXC_PDTCH 2 TRXC_PDTCH 2,
    Frame TRXC_PDTCH 3 TRXC_PDTCH 3, Frame TRXC_PDTCH 0 TRXC_PDTCH 0,
    Frame TRXC_PDTCH 1 TRXC_PDTCH 1, Frame TRXC_PDTCH 2 TRXC_PDTCH 2,
    Frame TRXC_PDTCH 3 TRXC_PDTCH 3, Frame TRXC_IDLE 0 TRXC_IDLE 0,
    Frame TRXC_PDTCH 0 TRXC_PDTCH 0, Frame TRXC_PDTCH 1 TRXC_PDTCH 1,
    Frame TRXC_PDTCH 2 TRXC_PDTCH 2, Frame TRXC_PDTCH 3 TRXC_PDTCH 3,
    Frame TRXC_PDTCH 0 TRXC_PDTCH 0, Frame TRXC_PDTCH 1 TRXC_PDTCH 1,
    Frame TRXC_PDTCH 2 TRXC_PDTCH 2, Frame TRXC_PDTCH 3 TRXC_PDTCH 3,
    Frame TRXC_PDTCH 0 TRXC_PDTCH 0, Frame TRXC_PDTCH 1 TRXC_PDTCH 1,
    Frame TRXC_PDTCH 2 TRXC_PDTCH 2, Frame TRXC_PDTCH 3 TRXC_PDTCH 3,
    Frame TRXC_PTCCH 3 TRXC_PTCCH 3, Frame TRXC_PDTCH 0 TRXC_PDTCH 0,
    Frame TRXC_PDTCH 1 TRXC_PDTCH 1, Frame TRXC_PDTCH 2 TRXC_PDTCH 2,
    Frame TRXC_PDTCH 3 TRXC_PDTCH 3, Frame TRXC_PDTCH 0 TRXC_PDTCH 0,
    Frame TRXC_PDTCH 1 TRXC_PDTCH 1, Frame TRXC_PDTCH 2 TRXC_PDTCH 2,
    Frame TRXC_PDTCH 3 TRXC_PDTCH 3, Frame TRXC_PDTCH 0 TRXC_PDTCH 0,
    Frame TRXC_PDTCH 1 TRXC_PDTCH 1, Frame TRXC_PDTCH 2 TRXC_PDTCH 2,
    Frame TRXC_PDTCH 3 TRXC_PDTCH 3, Frame TRXC_IDLE 0 TRXC_IDLE 0]"
section \<open>Channel masks\<close>

definition m64 :: "trx_lchan_type \<Rightarrow> u64" where
  "m64 c = push_bit (lchan_code c) 1"

text \<open>\<open>(uint64_t) 0x00 | M64(..) | M64(..)\<close>\<close>

definition m64_of :: "trx_lchan_type list \<Rightarrow> u64" where
  "m64_of cs = fold (\<lambda>c m. m OR m64 c) cs 0"

definition m64_bcch_ccch :: u64 where
  "m64_bcch_ccch = m64_of [TRXC_FCCH, TRXC_SCH, TRXC_BCCH, TRXC_RACH, TRXC_CCCH]"

definition m64_sdcch4 :: u64 where
  "m64_sdcch4 = m64_of
    [TRXC_SDCCH4_0, TRXC_SACCH4_0, TRXC_SDCCH4_1, TRXC_SACCH4_1,
     TRXC_SDCCH4_2, TRXC_SACCH4_2, TRXC_SDCCH4_3, TRXC_SACCH4_3]"

definition m64_sdcch8 :: u64 where
  "m64_sdcch8 = m64_of
    [TRXC_SDCCH8_0, TRXC_SACCH8_0, TRXC_SDCCH8_1, TRXC_SACCH8_1,
     TRXC_SDCCH8_2, TRXC_SACCH8_2, TRXC_SDCCH8_3, TRXC_SACCH8_3,
     TRXC_SDCCH8_4, TRXC_SACCH8_4, TRXC_SDCCH8_5, TRXC_SACCH8_5,
     TRXC_SDCCH8_6, TRXC_SACCH8_6, TRXC_SDCCH8_7, TRXC_SACCH8_7]"

definition m64_tchf :: u64 where
  "m64_tchf = m64_of [TRXC_TCHF, TRXC_SACCHTF]"

definition m64_tchh :: u64 where
  "m64_tchh = m64_of [TRXC_TCHH_0, TRXC_SACCHTH_0, TRXC_TCHH_1, TRXC_SACCHTH_1]"

definition layout_has_lchan :: "trx_multiframe \<Rightarrow> trx_lchan_type \<Rightarrow> bool" where
  "layout_has_lchan mf c \<longleftrightarrow> lchan_mask mf AND push_bit (lchan_code c) 1 \<noteq> 0"

section \<open>The layouts and their lookup\<close>

definition mframe :: "gsm_phys_chan_config \<Rightarrow> string \<Rightarrow> nat \<Rightarrow> u8 \<Rightarrow> u64 \<Rightarrow> trx_frame list
    \<Rightarrow> trx_multiframe" where
  "mframe cfg nm per slots lmask fs =
    \<lparr>chan_config = cfg, mf_name = nm, period = per, slotmask = slots,
     lchan_mask = lmask, frames = fs\<rparr>"

definition layouts :: "trx_multiframe list" where
  "layouts = [
    mframe GSM_PCHAN_NONE ''NONE'' 0 0xff 0x00 [],
    mframe GSM_PCHAN_CCCH ''BCCH+CCCH'' 51 0xff m64_bcch_ccch frame_bcch,
    mframe GSM_PCHAN_CCCH_SDCCH4 ''BCCH+CCCH+SDCCH/4+SACCH/4'' 102 0xff
      (m64_bcch_ccch OR m64_sdcch4) frame_bcch_sdcch4,
    mframe GSM_PCHAN_CCCH_SDCCH4_CBCH ''BCCH+CCCH+SDCCH/4+SACCH/4+CBCH'' 102 0xff
      (m64_bcch_ccch OR m64_sdcch4 OR m64 TRXC_SDCCH4_CBCH) frame_bcch_sdcch4_cbch,
    mframe GSM_PCHAN_SDCCH8_SACCH8C ''SDCCH/8+SACCH/8'' 102 0xff m64_sdcch8 frame_sdcch8,
    mframe GSM_PCHAN_SDCCH8_SACCH8C_CBCH ''SDCCH/8+SACCH/8+CBCH'' 102 0xff
      (m64_sdcch8 OR m64 TRXC_SDCCH8_CBCH) frame_sdcch8_cbch,
    mframe GSM_PCHAN_TCH_F ''TCH/F+SACCH'' 104 0x01 m64_tchf frame_tchf_ts0,
    mframe GSM_PCHAN_TCH_F ''TCH/F+SACCH'' 104 0x02 m64_tchf frame_tchf_ts1,
    mframe GSM_PCHAN_TCH_F ''TCH/F+SACCH'' 104 0x04 m64_tchf frame_tchf_ts2,
    mframe GSM_PCHAN_TCH_F ''TCH/F+SACCH'' 104 0x08 m64_tchf frame_tchf_ts3,
    mframe GSM_PCHAN_TCH_F ''TCH/F+SACCH'' 104 0x10 m64_tchf frame_tchf_ts4,
    mframe GSM_PCHAN_TCH_F ''TCH/F+SACCH'' 104 0x20 m64_tchf frame_tchf_ts5,
    mframe GSM_PCHAN_TCH_F ''TCH/F+SACCH'' 104 0x40 m64_tchf frame_tchf_ts6,
    mframe GSM_PCHAN_TCH_F ''TCH/F+SACCH'' 104 0x80 m64_tchf frame_tchf_ts7,
    mframe GSM_PCHAN_TCH_H ''TCH/H+SACCH'' 104 0x03 m64_tchh frame_tchh_ts01,
    mframe GSM_PCHAN_TCH_H ''TCH/H+SACCH'' 104 0x0c m64_tchh frame_tchh_ts23,
    mframe GSM_PCHAN_TCH_H ''TCH/H+SACCH'' 104 0x30 m64_tchh frame_tchh_ts45,
    mframe GSM_PCHAN_TCH_H ''TCH/H+SACCH'' 104 0xc0 m64_tchh frame_tchh_ts67,
    mframe GSM_PCHAN_PDCH ''PDCH'' 104 0xff (m64 TRXC_PDTCH OR m64 TRXC_PTCCH) frame_pdch]"

definition sched_mframe_layout :: "gsm_phys_chan_config \<Rightarrow> nat \<Rightarrow> trx_multiframe option" where
  "sched_mframe_layout config tn =
    find (\<lambda>l. chan_config l = config \<and> slotmask l AND push_bit tn 1 \<noteq> 0) layouts"

section \<open>The frame due at a frame number\<close>

text \<open>
  \<open>frame = ts->mf_layout->frames + fn % ts->mf_layout->period\<close>, as
  \<open>sched_frame_clck_cb\<close> and \<open>sched_trx_handle_rx_burst\<close> compute it.
\<close>

definition frame_at :: "trx_multiframe \<Rightarrow> nat \<Rightarrow> trx_frame" where
  "frame_at mf fn = frames mf ! (fn mod period mf)"

text \<open>
  The order of the bursts of channel \<open>c\<close>, block length \<open>k\<close>, in one direction:
  \<open>(ch, bid)\<close> pairs are read from left to right, \<open>b\<close> is the id due next. The
  result is the id due after the last row, \<open>None\<close> if a burst came out of order.
\<close>

fun bids_run :: "trx_lchan_type \<Rightarrow> nat \<Rightarrow> nat \<Rightarrow> (trx_lchan_type \<times> nat) list \<Rightarrow> nat option" where
  "bids_run c k b [] = Some b"
| "bids_run c k b ((ch, bid) # rows) =
     (if ch = c then (if bid = b then bids_run c k (if Suc b = k then 0 else Suc b) rows else None)
      else bids_run c k b rows)"

fun block_len :: "trx_lchan_type \<Rightarrow> nat" where
  "block_len TRXC_FCCH = 1" | "block_len TRXC_SCH = 1" | "block_len TRXC_RACH = 1"
| "block_len TRXC_TCHH_0 = 2" | "block_len TRXC_TCHH_1 = 2"
| "block_len _ = 4"

definition dl_rows :: "trx_multiframe \<Rightarrow> (trx_lchan_type \<times> nat) list" where
  "dl_rows mf = map (\<lambda>f. (dl_chan f, dl_bid f)) (frames mf)"

definition ul_rows :: "trx_multiframe \<Rightarrow> (trx_lchan_type \<times> nat) list" where
  "ul_rows mf = map (\<lambda>f. (ul_chan f, ul_bid f)) (frames mf)"

fun first_bid :: "trx_lchan_type \<Rightarrow> (trx_lchan_type \<times> nat) list \<Rightarrow> nat" where
  "first_bid c [] = 0"
| "first_bid c ((ch, bid) # rows) = (if ch = c then bid else first_bid c rows)"

definition rows_in_order :: "(trx_lchan_type \<times> nat) list \<Rightarrow> bool" where
  "rows_in_order rows \<longleftrightarrow>
    (\<forall>c \<in> set (remdups (map fst rows)). c = TRXC_IDLE \<or>
      first_bid c rows < block_len c \<and>
      bids_run c (block_len c) (first_bid c rows) rows = Some (first_bid c rows))"

section \<open>Facts about masks\<close>

lemma bit_m64: "bit (m64 d) (lchan_code c) \<longleftrightarrow> c = d"
  using lchan_code_less [of c] lchan_code_less [of d]
  by (auto simp: m64_def push_bit_eq_mult bit_exp_iff possible_bit_word dest: lchan_code_inj)

lemma bit_fold_or:
  "bit (fold (\<lambda>c m. m OR m64 c) cs m0) (lchan_code c) \<longleftrightarrow> bit m0 (lchan_code c) \<or> c \<in> set cs"
  by (induction cs arbitrary: m0) (auto simp: bit_or_iff bit_m64)

lemma bit_m64_of: "bit (m64_of cs) (lchan_code c) \<longleftrightarrow> c \<in> set cs"
  by (simp add: m64_of_def bit_fold_or)

lemma layout_has_lchan_iff: "layout_has_lchan mf c \<longleftrightarrow> bit (lchan_mask mf) (lchan_code c)"
  by (simp add: layout_has_lchan_def push_bit_eq_mult and_exp_eq_0_iff_not_bit)

lemmas mask_bits =
  m64_bcch_ccch_def m64_sdcch4_def m64_sdcch8_def m64_tchf_def m64_tchh_def
  bit_or_iff bit_m64 bit_m64_of

section \<open>The tables, checked row by row\<close>

text \<open>The channels a table names, and the order of its bursts, by kernel evaluation.\<close>

definition rows_within :: "trx_lchan_type list \<Rightarrow> trx_frame list \<Rightarrow> bool" where
  "rows_within cs fs \<longleftrightarrow> list_all (\<lambda>f. List.member cs (dl_chan f) \<and> List.member cs (ul_chan f)) fs"

definition table_ok :: "nat \<Rightarrow> trx_lchan_type list \<Rightarrow> trx_frame list \<Rightarrow> bool" where
  "table_ok n cs fs \<longleftrightarrow> length fs = n \<and> rows_within cs fs
     \<and> rows_in_order (map (\<lambda>f. (dl_chan f, dl_bid f)) fs)
     \<and> rows_in_order (map (\<lambda>f. (ul_chan f, ul_bid f)) fs)"

lemma frame_bcch_ok: "table_ok 51
   [TRXC_FCCH, TRXC_RACH, TRXC_SCH, TRXC_BCCH, TRXC_CCCH, TRXC_IDLE]
   frame_bcch"
  by code_simp

lemma frame_bcch_sdcch4_ok: "table_ok 102
   [TRXC_FCCH, TRXC_SDCCH4_3, TRXC_SCH, TRXC_BCCH, TRXC_RACH, TRXC_CCCH, TRXC_SACCH4_2,
    TRXC_SACCH4_3, TRXC_SDCCH4_0, TRXC_SDCCH4_1, TRXC_SDCCH4_2, TRXC_SACCH4_0, TRXC_SACCH4_1,
    TRXC_IDLE]
   frame_bcch_sdcch4"
  by code_simp

lemma frame_bcch_sdcch4_cbch_ok: "table_ok 102
   [TRXC_FCCH, TRXC_SDCCH4_3, TRXC_SCH, TRXC_BCCH, TRXC_RACH, TRXC_CCCH, TRXC_IDLE,
    TRXC_SACCH4_3, TRXC_SDCCH4_0, TRXC_SDCCH4_1, TRXC_SDCCH4_CBCH, TRXC_SACCH4_0,
    TRXC_SACCH4_1]
   frame_bcch_sdcch4_cbch"
  by code_simp

lemma frame_sdcch8_ok: "table_ok 102
   [TRXC_SDCCH8_0, TRXC_SACCH8_5, TRXC_SDCCH8_1, TRXC_SACCH8_6, TRXC_SDCCH8_2, TRXC_SACCH8_7,
    TRXC_SDCCH8_3, TRXC_IDLE, TRXC_SDCCH8_4, TRXC_SDCCH8_5, TRXC_SDCCH8_6, TRXC_SDCCH8_7,
    TRXC_SACCH8_0, TRXC_SACCH8_1, TRXC_SACCH8_2, TRXC_SACCH8_3, TRXC_SACCH8_4]
   frame_sdcch8"
  by code_simp

lemma frame_sdcch8_cbch_ok: "table_ok 102
   [TRXC_SDCCH8_0, TRXC_SACCH8_5, TRXC_SDCCH8_1, TRXC_SACCH8_6, TRXC_SDCCH8_CBCH,
    TRXC_SACCH8_7, TRXC_SDCCH8_3, TRXC_IDLE, TRXC_SDCCH8_4, TRXC_SDCCH8_5, TRXC_SDCCH8_6,
    TRXC_SDCCH8_7, TRXC_SACCH8_0, TRXC_SACCH8_1, TRXC_SACCH8_3, TRXC_SACCH8_4]
   frame_sdcch8_cbch"
  by code_simp

lemma frame_tchf_ts0_ok: "table_ok 104
   [TRXC_TCHF, TRXC_SACCHTF, TRXC_IDLE]
   frame_tchf_ts0"
  by code_simp

lemma frame_tchf_ts1_ok: "table_ok 104
   [TRXC_TCHF, TRXC_IDLE, TRXC_SACCHTF]
   frame_tchf_ts1"
  by code_simp

lemma frame_tchf_ts2_ok: "table_ok 104
   [TRXC_TCHF, TRXC_SACCHTF, TRXC_IDLE]
   frame_tchf_ts2"
  by code_simp

lemma frame_tchf_ts3_ok: "table_ok 104
   [TRXC_TCHF, TRXC_IDLE, TRXC_SACCHTF]
   frame_tchf_ts3"
  by code_simp

lemma frame_tchf_ts4_ok: "table_ok 104
   [TRXC_TCHF, TRXC_SACCHTF, TRXC_IDLE]
   frame_tchf_ts4"
  by code_simp

lemma frame_tchf_ts5_ok: "table_ok 104
   [TRXC_TCHF, TRXC_IDLE, TRXC_SACCHTF]
   frame_tchf_ts5"
  by code_simp

lemma frame_tchf_ts6_ok: "table_ok 104
   [TRXC_TCHF, TRXC_SACCHTF, TRXC_IDLE]
   frame_tchf_ts6"
  by code_simp

lemma frame_tchf_ts7_ok: "table_ok 104
   [TRXC_TCHF, TRXC_IDLE, TRXC_SACCHTF]
   frame_tchf_ts7"
  by code_simp

lemma frame_tchh_ts01_ok: "table_ok 104
   [TRXC_TCHH_0, TRXC_TCHH_1, TRXC_SACCHTH_0, TRXC_SACCHTH_1]
   frame_tchh_ts01"
  by code_simp

lemma frame_tchh_ts23_ok: "table_ok 104
   [TRXC_TCHH_0, TRXC_TCHH_1, TRXC_SACCHTH_0, TRXC_SACCHTH_1]
   frame_tchh_ts23"
  by code_simp

lemma frame_tchh_ts45_ok: "table_ok 104
   [TRXC_TCHH_0, TRXC_TCHH_1, TRXC_SACCHTH_0, TRXC_SACCHTH_1]
   frame_tchh_ts45"
  by code_simp

lemma frame_tchh_ts67_ok: "table_ok 104
   [TRXC_TCHH_0, TRXC_TCHH_1, TRXC_SACCHTH_0, TRXC_SACCHTH_1]
   frame_tchh_ts67"
  by code_simp

lemma frame_pdch_ok: "table_ok 104
   [TRXC_PDTCH, TRXC_PTCCH, TRXC_IDLE]
   frame_pdch"
  by code_simp

text \<open>What the scheduler relies on: the well-formedness of a layout.\<close>

definition mf_ok :: "trx_multiframe \<Rightarrow> bool" where
  "mf_ok mf \<longleftrightarrow> 0 < period mf \<and> length (frames mf) = period mf
    \<and> GSM_TDMA_HYPERFRAME mod period mf = 0
    \<and> (\<forall>f \<in> set (frames mf).
         (dl_chan f = TRXC_IDLE \<or> layout_has_lchan mf (dl_chan f)) \<and>
         (ul_chan f = TRXC_IDLE \<or> layout_has_lchan mf (ul_chan f)))
    \<and> rows_in_order (dl_rows mf) \<and> rows_in_order (ul_rows mf)"

lemma mf_okI:
  assumes "table_ok per cs fs" "0 < per" "GSM_TDMA_HYPERFRAME mod per = 0"
    and "\<forall>c \<in> set cs. c = TRXC_IDLE \<or> bit lmask (lchan_code c)"
  shows "mf_ok (mframe cfg nm per slots lmask fs)"
  using assms
  by (auto simp: mf_ok_def mframe_def table_ok_def rows_within_def list_all_iff dl_rows_def
      ul_rows_def layout_has_lchan_iff)

lemmas tables_ok =
  frame_bcch_ok frame_bcch_sdcch4_ok frame_bcch_sdcch4_cbch_ok frame_sdcch8_ok frame_sdcch8_cbch_ok frame_tchf_ts0_ok frame_tchf_ts1_ok frame_tchf_ts2_ok frame_tchf_ts3_ok frame_tchf_ts4_ok frame_tchf_ts5_ok frame_tchf_ts6_ok frame_tchf_ts7_ok frame_tchh_ts01_ok frame_tchh_ts23_ok frame_tchh_ts45_ok frame_tchh_ts67_ok frame_pdch_ok

lemmas tables_mf_okI = tables_ok [THEN mf_okI]

lemma layouts_split: "layouts = mframe GSM_PCHAN_NONE ''NONE'' 0 0xff 0x00 [] # tl layouts"
  by (simp only: layouts_def list.sel)

lemma tl_layouts_mf_ok: "list_all mf_ok (tl layouts)"
  unfolding layouts_def list.sel list.pred_inject
  by (intro conjI TrueI tables_mf_okI) (simp_all add: mask_bits)

lemma layouts_mf_ok:
  assumes "mf \<in> set layouts" "chan_config mf \<noteq> GSM_PCHAN_NONE"
  shows "mf_ok mf"
proof -
  have "chan_config (mframe GSM_PCHAN_NONE ''NONE'' 0 0xff 0x00 []) = GSM_PCHAN_NONE"
    by (simp add: mframe_def)
  then have "mf \<in> set (tl layouts)"
    using assms layouts_split by (metis set_ConsD)
  then show ?thesis
    using tl_layouts_mf_ok by (simp add: list_all_iff)
qed


section \<open>Reading a layout forever\<close>

lemma bids_run_append:
  "bids_run c k b (xs @ ys) = Option.bind (bids_run c k b xs) (\<lambda>b'. bids_run c k b' ys)"
  by (induction c k b xs rule: bids_run.induct) auto

text \<open>A run that succeeds has read the ids \<open>b, b+1, \<dots>\<close> modulo the block length.\<close>

lemma bids_run_bids:
  assumes "bids_run c k b rows = Some b'" "b < k"
  shows "map snd (filter (\<lambda>r. fst r = c) rows)
      = map (\<lambda>i. (b + i) mod k) [0..<length (filter (\<lambda>r. fst r = c) rows)]"
  using assms
proof (induction c k b rows rule: bids_run.induct)
  case (1 c k b)
  then show ?case by simp
next
  case (2 c k b ch bid rows)
  show ?case
  proof (cases "ch = c")
    case True
    let ?b = "if Suc b = k then 0 else Suc b"
    let ?n = "length (filter (\<lambda>r. fst r = c) rows)"
    from True "2.prems" have bid: "bid = b" and run: "bids_run c k ?b rows = Some b'"
      by (auto split: if_splits)
    have lt: "?b < k" using "2.prems"(2) by auto
    have "map snd (filter (\<lambda>r. fst r = c) rows) = map (\<lambda>i. (?b + i) mod k) [0..<?n]"
      using "2.IH"(1) [OF True bid run lt] .
    also have "?b = Suc b mod k"
      using "2.prems"(2) by (simp add: mod_Suc)
    also have "map (\<lambda>i. (Suc b mod k + i) mod k) [0..<?n] = map (\<lambda>i. (b + Suc i) mod k) [0..<?n]"
      by (simp add: mod_add_left_eq)
    finally show ?thesis
      using True bid "2.prems"(2)
      by (simp add: upt_conv_Cons map_Suc_upt [symmetric] del: upt_Suc map_Suc_upt)
  next
    case False
    then show ?thesis using "2" by simp
  qed
qed

definition at_rows :: "(trx_frame \<Rightarrow> trx_lchan_type \<times> nat) \<Rightarrow> trx_multiframe \<Rightarrow> nat \<Rightarrow> (trx_lchan_type \<times> nat) list" where
  "at_rows g mf n = map (\<lambda>fn. g (frame_at mf fn)) [0..<n]"

lemma at_rows_periods:
  assumes "mf_ok mf"
  shows "at_rows g mf (q * period mf) = concat (replicate q (map g (frames mf)))"
proof (induction q)
  case (Suc q)
  let ?p = "period mf"
  have "map (\<lambda>fn. g (frame_at mf fn)) [q * ?p..<q * ?p + ?p] = map g (frames mf)"
    using assms by (intro nth_equalityI) (auto simp: mf_ok_def frame_at_def)
  moreover have "[0..<Suc q * ?p] = [0..<q * ?p] @ [q * ?p..<q * ?p + ?p]"
    by (metis add.commute mult_Suc upt_add_eq_append zero_le)
  moreover have "replicate (Suc q) (map g (frames mf))
      = replicate q (map g (frames mf)) @ [map g (frames mf)]"
    by (simp add: replicate_append_same)
  ultimately show ?case
    using Suc by (simp only: at_rows_def map_append concat_append) simp
qed (simp add: at_rows_def)

lemma bids_run_concat:
  "bids_run c k b rows = Some b \<Longrightarrow> bids_run c k b (concat (replicate q rows)) = Some b"
  by (induction q) (simp_all add: bids_run_append)

lemma bids_run_prefix:
  "bids_run c k b (xs @ ys) = Some b' \<Longrightarrow> \<exists>b''. bids_run c k b xs = Some b''"
  by (cases "bids_run c k b xs") (simp_all add: bids_run_append)

lemma at_rows_run:
  assumes ok: "mf_ok mf" and run: "bids_run c k b (map g (frames mf)) = Some b"
  shows "\<exists>b'. bids_run c k b (at_rows g mf n) = Some b'"
proof -
  let ?N = "Suc n * period mf"
  have "0 < period mf" using ok by (simp add: mf_ok_def)
  then have "n \<le> ?N" by (cases "period mf") simp_all
  then have "[0..<?N] = [0..<n] @ [n..<?N]"
    by (metis le_add_diff_inverse upt_add_eq_append zero_le)
  then have "at_rows g mf ?N = at_rows g mf n @ map (\<lambda>fn. g (frame_at mf fn)) [n..<?N]"
    by (simp add: at_rows_def)
  moreover have "bids_run c k b (at_rows g mf ?N) = Some b"
    unfolding at_rows_periods [OF ok] by (rule bids_run_concat [OF run])
  ultimately show ?thesis by (metis bids_run_prefix)
qed

lemma rows_in_orderE:
  assumes "rows_in_order rows" "c \<in> set (map fst rows)" "c \<noteq> TRXC_IDLE"
  obtains b where "b < block_len c" "bids_run c (block_len c) b rows = Some b"
  using assms by (auto simp: rows_in_order_def)

lemma frame_at_in: "mf_ok mf \<Longrightarrow> frame_at mf fn \<in> set (frames mf)"
  by (simp add: frame_at_def mf_ok_def)

lemma at_rows_in_order:
  assumes ok: "mf_ok mf" and rows: "rows_in_order (map g (frames mf))" and c: "c \<noteq> TRXC_IDLE"
  shows "\<exists>b. \<forall>n. map snd (filter (\<lambda>r. fst r = c) (at_rows g mf n))
    = map (\<lambda>i. (b + i) mod block_len c) [0..<length (filter (\<lambda>r. fst r = c) (at_rows g mf n))]"
proof (cases "c \<in> set (map fst (map g (frames mf)))")
  case True
  then obtain b where b: "b < block_len c" and run: "bids_run c (block_len c) b (map g (frames mf)) = Some b"
    using rows_in_orderE [OF rows _ c] by blast
  show ?thesis
    using at_rows_run [OF ok run] bids_run_bids [OF _ b] by blast
next
  case False
  then have "filter (\<lambda>r. fst r = c) (at_rows g mf n) = []" for n
    using frame_at_in [OF ok] by (fastforce simp: at_rows_def filter_empty_conv)
  then show ?thesis by simp
qed

lemma filter_at_rows:
  "filter (\<lambda>r. fst r = c) (at_rows (\<lambda>f. (ch f, bid f)) mf n)
    = map (\<lambda>f. (ch f, bid f)) (filter (\<lambda>f. ch f = c) (map (frame_at mf) [0..<n]))"
  by (simp add: at_rows_def filter_map o_def)

text \<open>The layout continues across the wrap of the frame number at the hyperframe.\<close>

lemma frame_at_mod_hyperframe:
  "mf_ok mf \<Longrightarrow> frame_at mf (n mod GSM_TDMA_HYPERFRAME) = frame_at mf n"
  by (simp add: frame_at_def mf_ok_def mod_mod_cancel mod_eq_0_iff_dvd)

section \<open>Looking a layout up\<close>

text \<open>The configurations \<open>sched_mframe.c\<close> has a table for.\<close>

definition supported_pchan :: "gsm_phys_chan_config \<Rightarrow> bool" where
  "supported_pchan cfg \<longleftrightarrow>
    cfg \<notin> {GSM_PCHAN_NONE, GSM_PCHAN_TCH_F_PDCH, GSM_PCHAN_UNKNOWN, GSM_PCHAN_OSMO_DYN}"

lemma mframe_layout_SomeD:
  "sched_mframe_layout cfg tn = Some mf \<Longrightarrow>
    mf \<in> set layouts \<and> chan_config mf = cfg \<and> slotmask mf AND push_bit tn 1 \<noteq> 0"
  by (auto simp: sched_mframe_layout_def dest: find_SomeD)

lemma less_8_cases:
  fixes n :: nat
  assumes "n < 8"
  shows "n = 0 \<or> n = 1 \<or> n = 2 \<or> n = 3 \<or> n = 4 \<or> n = 5 \<or> n = 6 \<or> n = 7"
  using assms by linarith

text \<open>Which slots have a layout: all eight for a supported configuration, none otherwise.\<close>

lemma mframe_sel:
  "chan_config (mframe cfg nm per slots lmask fs) = cfg"
  "period (mframe cfg nm per slots lmask fs) = per"
  "slotmask (mframe cfg nm per slots lmask fs) = slots"
  "lchan_mask (mframe cfg nm per slots lmask fs) = lmask"
  "frames (mframe cfg nm per slots lmask fs) = fs"
  by (simp_all add: mframe_def)

lemma mframe_layout_None_iff:
  assumes "tn < 8"
  shows "sched_mframe_layout cfg tn = None \<longleftrightarrow>
    cfg \<in> {GSM_PCHAN_TCH_F_PDCH, GSM_PCHAN_UNKNOWN, GSM_PCHAN_OSMO_DYN}"
proof -
  have "list_all (\<lambda>m :: u8. m AND push_bit tn 1 \<noteq> 0) [0xff]"
    and "list_ex (\<lambda>m :: u8. m AND push_bit tn 1 \<noteq> 0) [0x01, 0x02, 0x04, 0x08, 0x10, 0x20, 0x40, 0x80]"
    and "list_ex (\<lambda>m :: u8. m AND push_bit tn 1 \<noteq> 0) [0x03, 0x0c, 0x30, 0xc0]"
    using less_8_cases [OF assms] by (elim disjE; simp)+
  then show ?thesis
    unfolding sched_mframe_layout_def layouts_def
    by (cases cfg) (simp_all add: mframe_sel)
qed

lemma supported_mframe_layout:
  assumes "supported_pchan cfg" "tn < 8"
  obtains mf where "sched_mframe_layout cfg tn = Some mf" "mf \<in> set layouts"
    "chan_config mf = cfg" "mf_ok mf"
proof -
  from assms mframe_layout_None_iff [OF assms(2), of cfg]
  obtain mf where mf: "sched_mframe_layout cfg tn = Some mf"
    by (cases "sched_mframe_layout cfg tn") (auto simp: supported_pchan_def)
  moreover from mframe_layout_SomeD [OF mf] assms(1) have "mf_ok mf"
    by (auto intro: layouts_mf_ok simp: supported_pchan_def)
  ultimately show thesis using mframe_layout_SomeD [OF mf] that by blast
qed

text \<open>The burst ids a channel is given in the first \<open>n\<close> frames, on one direction.\<close>

definition burst_ids :: "(trx_frame \<Rightarrow> trx_lchan_type) \<Rightarrow> (trx_frame \<Rightarrow> nat) \<Rightarrow> trx_multiframe
    \<Rightarrow> trx_lchan_type \<Rightarrow> nat \<Rightarrow> nat list" where
  "burst_ids ch bid mf c n =
    map bid (filter (\<lambda>f. ch f = c) (map (\<lambda>i. frame_at mf (i mod GSM_TDMA_HYPERFRAME)) [0..<n]))"

lemma burst_ids_in_order:
  assumes ok: "mf_ok mf" and rows: "rows_in_order (map (\<lambda>f. (ch f, bid f)) (frames mf))"
    and c: "c \<noteq> TRXC_IDLE"
  shows "\<exists>b. \<forall>n. burst_ids ch bid mf c n
    = map (\<lambda>i. (b + i) mod block_len c) [0..<length (burst_ids ch bid mf c n)]"
proof -
  have "burst_ids ch bid mf c n = map snd (filter (\<lambda>r. fst r = c) (at_rows (\<lambda>f. (ch f, bid f)) mf n))" for n
    by (simp add: burst_ids_def filter_at_rows frame_at_mod_hyperframe [OF ok] o_def)
  then show ?thesis using at_rows_in_order [OF ok rows c] by simp
qed

section \<open>Properties\<close>

text \<open>
  C4. Looking up the layout of a supported channel combination succeeds on each of the
  eight timeslots, and the layout found is for that combination, admits the timeslot and is
  well formed: it has exactly \<open>period\<close> rows, the period divides the hyperframe, every
  channel a row names is in the layout's channel mask, and the bursts of every channel come
  in the order of their ids, cyclically.
\<close>

theorem mframe_layout_total:
  assumes "supported_pchan cfg" "tn < 8"
  shows "\<exists>mf. sched_mframe_layout cfg tn = Some mf \<and> chan_config mf = cfg
    \<and> slotmask mf AND push_bit tn 1 \<noteq> 0 \<and> mf_ok mf"
  using assms by (metis supported_mframe_layout mframe_layout_SomeD)

theorem mframe_layout_total_witness:
  "\<exists>mf. sched_mframe_layout GSM_PCHAN_TCH_H 5 = Some mf \<and> chan_config mf = GSM_PCHAN_TCH_H
    \<and> slotmask mf AND push_bit 5 1 \<noteq> 0 \<and> mf_ok mf"
  by (rule mframe_layout_total) (simp_all add: supported_pchan_def)

text \<open>
  C5. Reading any layout from frame 0 for as long as one likes, and across the wrap of the
  frame number at the hyperframe, the bursts of each logical channel come in the order
  \<open>b, b+1, \<dots>\<close> modulo the channel's block length, on the downlink and on the uplink:
  no burst of a block is ever skipped, repeated or swapped.
\<close>

theorem mframe_bursts_in_order:
  assumes "mf \<in> set layouts" "chan_config mf \<noteq> GSM_PCHAN_NONE" "c \<noteq> TRXC_IDLE"
  shows "(\<exists>b. \<forall>n. burst_ids dl_chan dl_bid mf c n
        = map (\<lambda>i. (b + i) mod block_len c) [0..<length (burst_ids dl_chan dl_bid mf c n)])
    \<and> (\<exists>b. \<forall>n. burst_ids ul_chan ul_bid mf c n
        = map (\<lambda>i. (b + i) mod block_len c) [0..<length (burst_ids ul_chan ul_bid mf c n)])"
proof -
  have ok: "mf_ok mf" by (rule layouts_mf_ok [OF assms(1,2)])
  then show ?thesis
    using burst_ids_in_order [OF ok _ assms(3)] by (simp add: mf_ok_def dl_rows_def ul_rows_def)
qed

theorem mframe_bursts_in_order_witness:
  "\<exists>mf. mf \<in> set layouts \<and> chan_config mf = GSM_PCHAN_TCH_F \<and> slotmask mf = 0x04
    \<and> (\<exists>b. \<forall>n. burst_ids dl_chan dl_bid mf TRXC_SACCHTF n
      = map (\<lambda>i. (b + i) mod 4) [0..<length (burst_ids dl_chan dl_bid mf TRXC_SACCHTF n)])"
proof -
  let ?mf = "mframe GSM_PCHAN_TCH_F ''TCH/F+SACCH'' 104 0x04 m64_tchf frame_tchf_ts2"
  have "?mf \<in> set layouts"
    by (simp only: layouts_def list.set insert_iff simp_thms)
  with mframe_bursts_in_order [of ?mf TRXC_SACCHTF] show ?thesis
    by (intro exI [of _ ?mf]) (simp add: mframe_sel)
qed

end
