(* ===== verification/SchedDesc.thy ===== *)
theory SchedDesc
  imports TrxTypes
begin

text \<open>
  The channel description table of \<open>osmocom-bb/src/host/trxcon/sched_lchan_desc.c\<close>
  and the two functions of \<open>sched_trx.c\<close> that translate the channel number and link
  identifier of an RSL/L1CTL message: to the physical channel combination of the timeslot
  and to the logical channel. The function pointers of the table are the constructors of
  two datatypes; \<open>SchedTrx\<close> dispatches on them.

  The lemmas show that the pair (channel number, link identifier) identifies a channel and
  that the two translations agree: the layout of the combination carries the channel.
\<close>

section \<open>Descriptors\<close>

datatype rx_handler = RX_DATA | RX_SCH | RX_TCHF | RX_TCHH | RX_PDTCH
datatype tx_handler = TX_DATA | TX_RACH | TX_TCHF | TX_TCHH | TX_PDTCH

record lchan_desc =
  ld_name :: string
  ld_desc :: string
  ld_chan_nr :: u8
  ld_link_id :: u8
  ld_ss_nr :: u8
  ld_gsmtap_chan_type :: u8
  ld_burst_buf_size :: nat
  ld_flags :: u8
  ld_rx_fn :: "rx_handler option"
  ld_tx_fn :: "tx_handler option"

text \<open>Members a designated initialiser leaves out are zero.\<close>

definition lchan_desc0 :: lchan_desc where
  "lchan_desc0 = \<lparr>ld_name = [], ld_desc = [], ld_chan_nr = 0, ld_link_id = 0, ld_ss_nr = 0,
     ld_gsmtap_chan_type = 0, ld_burst_buf_size = 0, ld_flags = 0,
     ld_rx_fn = None, ld_tx_fn = None\<rparr>"

definition desc_IDLE :: lchan_desc where
  "desc_IDLE = lchan_desc0\<lparr>
    ld_name := ''IDLE'', ld_desc := ''Idle channel''\<rparr>"

definition desc_FCCH :: lchan_desc where
  "desc_FCCH = lchan_desc0\<lparr>
    ld_name := ''FCCH'', ld_desc := ''Frequency correction channel''\<rparr>"

definition desc_SCH :: lchan_desc where
  "desc_SCH = lchan_desc0\<lparr>
    ld_name := ''SCH'', ld_desc := ''Synchronization channel'', ld_flags := 0x02,
     ld_rx_fn := Some RX_SCH\<rparr>"

definition desc_BCCH :: lchan_desc where
  "desc_BCCH = lchan_desc0\<lparr>
    ld_name := ''BCCH'', ld_desc := ''Broadcast control channel'', ld_gsmtap_chan_type := 0x01,
     ld_chan_nr := 0x80, ld_burst_buf_size := 4 * 116, ld_flags := 0x02,
     ld_rx_fn := Some RX_DATA\<rparr>"

definition desc_RACH :: lchan_desc where
  "desc_RACH = lchan_desc0\<lparr>
    ld_name := ''RACH'', ld_desc := ''Random access channel'', ld_gsmtap_chan_type := 0x03,
     ld_chan_nr := 0x88, ld_flags := 0x02, ld_tx_fn := Some TX_RACH\<rparr>"

definition desc_CCCH :: lchan_desc where
  "desc_CCCH = lchan_desc0\<lparr>
    ld_name := ''CCCH'', ld_desc := ''Common control channel'', ld_gsmtap_chan_type := 0x02,
     ld_chan_nr := 0x90, ld_burst_buf_size := 4 * 116, ld_flags := 0x02,
     ld_rx_fn := Some RX_DATA\<rparr>"

definition desc_TCHF :: lchan_desc where
  "desc_TCHF = lchan_desc0\<lparr>
    ld_name := ''TCH/F'', ld_desc := ''Full Rate traffic channel'',
     ld_gsmtap_chan_type := 0x09, ld_chan_nr := 0x08, ld_link_id := 0x00,
     ld_burst_buf_size := 8 * 116, ld_flags := 0x04, ld_rx_fn := Some RX_TCHF,
     ld_tx_fn := Some TX_TCHF\<rparr>"

definition desc_TCHH_0 :: lchan_desc where
  "desc_TCHH_0 = lchan_desc0\<lparr>
    ld_name := ''TCH/H(0)'', ld_desc := ''Half Rate traffic channel (sub-channel 0)'',
     ld_gsmtap_chan_type := 0x0a, ld_chan_nr := 0x10, ld_link_id := 0x00, ld_ss_nr := 0,
     ld_burst_buf_size := 6 * 116, ld_flags := 0x04, ld_rx_fn := Some RX_TCHH,
     ld_tx_fn := Some TX_TCHH\<rparr>"

definition desc_TCHH_1 :: lchan_desc where
  "desc_TCHH_1 = lchan_desc0\<lparr>
    ld_name := ''TCH/H(1)'', ld_desc := ''Half Rate traffic channel (sub-channel 1)'',
     ld_gsmtap_chan_type := 0x0a, ld_chan_nr := 0x18, ld_link_id := 0x00, ld_ss_nr := 1,
     ld_burst_buf_size := 6 * 116, ld_flags := 0x04, ld_rx_fn := Some RX_TCHH,
     ld_tx_fn := Some TX_TCHH\<rparr>"

definition desc_SDCCH4_0 :: lchan_desc where
  "desc_SDCCH4_0 = lchan_desc0\<lparr>
    ld_name := ''SDCCH/4(0)'',
     ld_desc := ''Stand-alone dedicated control channel (sub-channel 0)'',
     ld_gsmtap_chan_type := 0x07, ld_chan_nr := 0x20, ld_link_id := 0x00, ld_ss_nr := 0,
     ld_burst_buf_size := 4 * 116, ld_flags := 0x04, ld_rx_fn := Some RX_DATA,
     ld_tx_fn := Some TX_DATA\<rparr>"

definition desc_SDCCH4_1 :: lchan_desc where
  "desc_SDCCH4_1 = lchan_desc0\<lparr>
    ld_name := ''SDCCH/4(1)'',
     ld_desc := ''Stand-alone dedicated control channel (sub-channel 1)'',
     ld_gsmtap_chan_type := 0x07, ld_chan_nr := 0x28, ld_link_id := 0x00, ld_ss_nr := 1,
     ld_burst_buf_size := 4 * 116, ld_flags := 0x04, ld_rx_fn := Some RX_DATA,
     ld_tx_fn := Some TX_DATA\<rparr>"

definition desc_SDCCH4_2 :: lchan_desc where
  "desc_SDCCH4_2 = lchan_desc0\<lparr>
    ld_name := ''SDCCH/4(2)'',
     ld_desc := ''Stand-alone dedicated control channel (sub-channel 2)'',
     ld_gsmtap_chan_type := 0x07, ld_chan_nr := 0x30, ld_link_id := 0x00, ld_ss_nr := 2,
     ld_burst_buf_size := 4 * 116, ld_flags := 0x04, ld_rx_fn := Some RX_DATA,
     ld_tx_fn := Some TX_DATA\<rparr>"

definition desc_SDCCH4_3 :: lchan_desc where
  "desc_SDCCH4_3 = lchan_desc0\<lparr>
    ld_name := ''SDCCH/4(3)'',
     ld_desc := ''Stand-alone dedicated control channel (sub-channel 3)'',
     ld_gsmtap_chan_type := 0x07, ld_chan_nr := 0x38, ld_link_id := 0x00, ld_ss_nr := 3,
     ld_burst_buf_size := 4 * 116, ld_flags := 0x04, ld_rx_fn := Some RX_DATA,
     ld_tx_fn := Some TX_DATA\<rparr>"

definition desc_SDCCH8_0 :: lchan_desc where
  "desc_SDCCH8_0 = lchan_desc0\<lparr>
    ld_name := ''SDCCH/8(0)'',
     ld_desc := ''Stand-alone dedicated control channel (sub-channel 0)'',
     ld_gsmtap_chan_type := 0x08, ld_chan_nr := 0x40, ld_link_id := 0x00, ld_ss_nr := 0,
     ld_burst_buf_size := 4 * 116, ld_flags := 0x04, ld_rx_fn := Some RX_DATA,
     ld_tx_fn := Some TX_DATA\<rparr>"

definition desc_SDCCH8_1 :: lchan_desc where
  "desc_SDCCH8_1 = lchan_desc0\<lparr>
    ld_name := ''SDCCH/8(1)'',
     ld_desc := ''Stand-alone dedicated control channel (sub-channel 1)'',
     ld_gsmtap_chan_type := 0x08, ld_chan_nr := 0x48, ld_link_id := 0x00, ld_ss_nr := 1,
     ld_burst_buf_size := 4 * 116, ld_flags := 0x04, ld_rx_fn := Some RX_DATA,
     ld_tx_fn := Some TX_DATA\<rparr>"

definition desc_SDCCH8_2 :: lchan_desc where
  "desc_SDCCH8_2 = lchan_desc0\<lparr>
    ld_name := ''SDCCH/8(2)'',
     ld_desc := ''Stand-alone dedicated control channel (sub-channel 2)'',
     ld_gsmtap_chan_type := 0x08, ld_chan_nr := 0x50, ld_link_id := 0x00, ld_ss_nr := 2,
     ld_burst_buf_size := 4 * 116, ld_flags := 0x04, ld_rx_fn := Some RX_DATA,
     ld_tx_fn := Some TX_DATA\<rparr>"

definition desc_SDCCH8_3 :: lchan_desc where
  "desc_SDCCH8_3 = lchan_desc0\<lparr>
    ld_name := ''SDCCH/8(3)'',
     ld_desc := ''Stand-alone dedicated control channel (sub-channel 3)'',
     ld_gsmtap_chan_type := 0x08, ld_chan_nr := 0x58, ld_link_id := 0x00, ld_ss_nr := 3,
     ld_burst_buf_size := 4 * 116, ld_flags := 0x04, ld_rx_fn := Some RX_DATA,
     ld_tx_fn := Some TX_DATA\<rparr>"

definition desc_SDCCH8_4 :: lchan_desc where
  "desc_SDCCH8_4 = lchan_desc0\<lparr>
    ld_name := ''SDCCH/8(4)'',
     ld_desc := ''Stand-alone dedicated control channel (sub-channel 4)'',
     ld_gsmtap_chan_type := 0x08, ld_chan_nr := 0x60, ld_link_id := 0x00, ld_ss_nr := 4,
     ld_burst_buf_size := 4 * 116, ld_flags := 0x04, ld_rx_fn := Some RX_DATA,
     ld_tx_fn := Some TX_DATA\<rparr>"

definition desc_SDCCH8_5 :: lchan_desc where
  "desc_SDCCH8_5 = lchan_desc0\<lparr>
    ld_name := ''SDCCH/8(5)'',
     ld_desc := ''Stand-alone dedicated control channel (sub-channel 5)'',
     ld_gsmtap_chan_type := 0x08, ld_chan_nr := 0x68, ld_link_id := 0x00, ld_ss_nr := 5,
     ld_burst_buf_size := 4 * 116, ld_flags := 0x04, ld_rx_fn := Some RX_DATA,
     ld_tx_fn := Some TX_DATA\<rparr>"

definition desc_SDCCH8_6 :: lchan_desc where
  "desc_SDCCH8_6 = lchan_desc0\<lparr>
    ld_name := ''SDCCH/8(6)'',
     ld_desc := ''Stand-alone dedicated control channel (sub-channel 6)'',
     ld_gsmtap_chan_type := 0x08, ld_chan_nr := 0x70, ld_link_id := 0x00, ld_ss_nr := 6,
     ld_burst_buf_size := 4 * 116, ld_flags := 0x04, ld_rx_fn := Some RX_DATA,
     ld_tx_fn := Some TX_DATA\<rparr>"

definition desc_SDCCH8_7 :: lchan_desc where
  "desc_SDCCH8_7 = lchan_desc0\<lparr>
    ld_name := ''SDCCH/8(7)'',
     ld_desc := ''Stand-alone dedicated control channel (sub-channel 7)'',
     ld_gsmtap_chan_type := 0x08, ld_chan_nr := 0x78, ld_link_id := 0x00, ld_ss_nr := 7,
     ld_burst_buf_size := 4 * 116, ld_flags := 0x04, ld_rx_fn := Some RX_DATA,
     ld_tx_fn := Some TX_DATA\<rparr>"

definition desc_SACCHTF :: lchan_desc where
  "desc_SACCHTF = lchan_desc0\<lparr>
    ld_name := ''SACCH/TF'', ld_desc := ''Slow TCH/F associated control channel'',
     ld_gsmtap_chan_type := 0x89, ld_chan_nr := 0x08, ld_link_id := 0x40,
     ld_burst_buf_size := 4 * 116, ld_flags := 0x04, ld_rx_fn := Some RX_DATA,
     ld_tx_fn := Some TX_DATA\<rparr>"

definition desc_SACCHTH_0 :: lchan_desc where
  "desc_SACCHTH_0 = lchan_desc0\<lparr>
    ld_name := ''SACCH/TH(0)'',
     ld_desc := ''Slow TCH/H associated control channel (sub-channel 0)'',
     ld_gsmtap_chan_type := 0x8a, ld_chan_nr := 0x10, ld_link_id := 0x40, ld_ss_nr := 0,
     ld_burst_buf_size := 4 * 116, ld_flags := 0x04, ld_rx_fn := Some RX_DATA,
     ld_tx_fn := Some TX_DATA\<rparr>"

definition desc_SACCHTH_1 :: lchan_desc where
  "desc_SACCHTH_1 = lchan_desc0\<lparr>
    ld_name := ''SACCH/TH(1)'',
     ld_desc := ''Slow TCH/H associated control channel (sub-channel 1)'',
     ld_gsmtap_chan_type := 0x8a, ld_chan_nr := 0x18, ld_link_id := 0x40, ld_ss_nr := 1,
     ld_burst_buf_size := 4 * 116, ld_flags := 0x04, ld_rx_fn := Some RX_DATA,
     ld_tx_fn := Some TX_DATA\<rparr>"

definition desc_SACCH4_0 :: lchan_desc where
  "desc_SACCH4_0 = lchan_desc0\<lparr>
    ld_name := ''SACCH/4(0)'',
     ld_desc := ''Slow SDCCH/4 associated control channel (sub-channel 0)'',
     ld_gsmtap_chan_type := 0x87, ld_chan_nr := 0x20, ld_link_id := 0x40, ld_ss_nr := 0,
     ld_burst_buf_size := 4 * 116, ld_flags := 0x04, ld_rx_fn := Some RX_DATA,
     ld_tx_fn := Some TX_DATA\<rparr>"

definition desc_SACCH4_1 :: lchan_desc where
  "desc_SACCH4_1 = lchan_desc0\<lparr>
    ld_name := ''SACCH/4(1)'',
     ld_desc := ''Slow SDCCH/4 associated control channel (sub-channel 1)'',
     ld_gsmtap_chan_type := 0x87, ld_chan_nr := 0x28, ld_link_id := 0x40, ld_ss_nr := 1,
     ld_burst_buf_size := 4 * 116, ld_flags := 0x04, ld_rx_fn := Some RX_DATA,
     ld_tx_fn := Some TX_DATA\<rparr>"

definition desc_SACCH4_2 :: lchan_desc where
  "desc_SACCH4_2 = lchan_desc0\<lparr>
    ld_name := ''SACCH/4(2)'',
     ld_desc := ''Slow SDCCH/4 associated control channel (sub-channel 2)'',
     ld_gsmtap_chan_type := 0x87, ld_chan_nr := 0x30, ld_link_id := 0x40, ld_ss_nr := 2,
     ld_burst_buf_size := 4 * 116, ld_flags := 0x04, ld_rx_fn := Some RX_DATA,
     ld_tx_fn := Some TX_DATA\<rparr>"

definition desc_SACCH4_3 :: lchan_desc where
  "desc_SACCH4_3 = lchan_desc0\<lparr>
    ld_name := ''SACCH/4(3)'',
     ld_desc := ''Slow SDCCH/4 associated control channel (sub-channel 3)'',
     ld_gsmtap_chan_type := 0x87, ld_chan_nr := 0x38, ld_link_id := 0x40, ld_ss_nr := 3,
     ld_burst_buf_size := 4 * 116, ld_flags := 0x04, ld_rx_fn := Some RX_DATA,
     ld_tx_fn := Some TX_DATA\<rparr>"

definition desc_SACCH8_0 :: lchan_desc where
  "desc_SACCH8_0 = lchan_desc0\<lparr>
    ld_name := ''SACCH/8(0)'',
     ld_desc := ''Slow SDCCH/8 associated control channel (sub-channel 0)'',
     ld_gsmtap_chan_type := 0x88, ld_chan_nr := 0x40, ld_link_id := 0x40, ld_ss_nr := 0,
     ld_burst_buf_size := 4 * 116, ld_flags := 0x04, ld_rx_fn := Some RX_DATA,
     ld_tx_fn := Some TX_DATA\<rparr>"

definition desc_SACCH8_1 :: lchan_desc where
  "desc_SACCH8_1 = lchan_desc0\<lparr>
    ld_name := ''SACCH/8(1)'',
     ld_desc := ''Slow SDCCH/8 associated control channel (sub-channel 1)'',
     ld_gsmtap_chan_type := 0x88, ld_chan_nr := 0x48, ld_link_id := 0x40, ld_ss_nr := 1,
     ld_burst_buf_size := 4 * 116, ld_flags := 0x04, ld_rx_fn := Some RX_DATA,
     ld_tx_fn := Some TX_DATA\<rparr>"

definition desc_SACCH8_2 :: lchan_desc where
  "desc_SACCH8_2 = lchan_desc0\<lparr>
    ld_name := ''SACCH/8(2)'',
     ld_desc := ''Slow SDCCH/8 associated control channel (sub-channel 2)'',
     ld_gsmtap_chan_type := 0x88, ld_chan_nr := 0x50, ld_link_id := 0x40, ld_ss_nr := 2,
     ld_burst_buf_size := 4 * 116, ld_flags := 0x04, ld_rx_fn := Some RX_DATA,
     ld_tx_fn := Some TX_DATA\<rparr>"

definition desc_SACCH8_3 :: lchan_desc where
  "desc_SACCH8_3 = lchan_desc0\<lparr>
    ld_name := ''SACCH/8(3)'',
     ld_desc := ''Slow SDCCH/8 associated control channel (sub-channel 3)'',
     ld_gsmtap_chan_type := 0x88, ld_chan_nr := 0x58, ld_link_id := 0x40, ld_ss_nr := 3,
     ld_burst_buf_size := 4 * 116, ld_flags := 0x04, ld_rx_fn := Some RX_DATA,
     ld_tx_fn := Some TX_DATA\<rparr>"

definition desc_SACCH8_4 :: lchan_desc where
  "desc_SACCH8_4 = lchan_desc0\<lparr>
    ld_name := ''SACCH/8(4)'',
     ld_desc := ''Slow SDCCH/8 associated control channel (sub-channel 4)'',
     ld_gsmtap_chan_type := 0x88, ld_chan_nr := 0x60, ld_link_id := 0x40, ld_ss_nr := 4,
     ld_burst_buf_size := 4 * 116, ld_flags := 0x04, ld_rx_fn := Some RX_DATA,
     ld_tx_fn := Some TX_DATA\<rparr>"

definition desc_SACCH8_5 :: lchan_desc where
  "desc_SACCH8_5 = lchan_desc0\<lparr>
    ld_name := ''SACCH/8(5)'',
     ld_desc := ''Slow SDCCH/8 associated control channel (sub-channel 5)'',
     ld_gsmtap_chan_type := 0x88, ld_chan_nr := 0x68, ld_link_id := 0x40, ld_ss_nr := 5,
     ld_burst_buf_size := 4 * 116, ld_flags := 0x04, ld_rx_fn := Some RX_DATA,
     ld_tx_fn := Some TX_DATA\<rparr>"

definition desc_SACCH8_6 :: lchan_desc where
  "desc_SACCH8_6 = lchan_desc0\<lparr>
    ld_name := ''SACCH/8(6)'',
     ld_desc := ''Slow SDCCH/8 associated control channel (sub-channel 6)'',
     ld_gsmtap_chan_type := 0x88, ld_chan_nr := 0x70, ld_link_id := 0x40, ld_ss_nr := 6,
     ld_burst_buf_size := 4 * 116, ld_flags := 0x04, ld_rx_fn := Some RX_DATA,
     ld_tx_fn := Some TX_DATA\<rparr>"

definition desc_SACCH8_7 :: lchan_desc where
  "desc_SACCH8_7 = lchan_desc0\<lparr>
    ld_name := ''SACCH/8(7)'',
     ld_desc := ''Slow SDCCH/8 associated control channel (sub-channel 7)'',
     ld_gsmtap_chan_type := 0x88, ld_chan_nr := 0x78, ld_link_id := 0x40, ld_ss_nr := 7,
     ld_burst_buf_size := 4 * 116, ld_flags := 0x04, ld_rx_fn := Some RX_DATA,
     ld_tx_fn := Some TX_DATA\<rparr>"

definition desc_PDTCH :: lchan_desc where
  "desc_PDTCH = lchan_desc0\<lparr>
    ld_name := ''PDTCH'', ld_desc := ''Packet data traffic & control channel'',
     ld_gsmtap_chan_type := 0x0d, ld_chan_nr := 0xc0, ld_burst_buf_size := 3 * 4 * 116,
     ld_flags := 0x01, ld_rx_fn := Some RX_PDTCH, ld_tx_fn := Some TX_PDTCH\<rparr>"

definition desc_PTCCH :: lchan_desc where
  "desc_PTCCH = lchan_desc0\<lparr>
    ld_name := ''PTCCH'', ld_desc := ''Packet Timing advance control channel'',
     ld_gsmtap_chan_type := 0x0e, ld_chan_nr := 0xc0, ld_link_id := 0x80,
     ld_burst_buf_size := 4 * 116, ld_flags := 0x01, ld_rx_fn := Some RX_PDTCH,
     ld_tx_fn := Some TX_RACH\<rparr>"

definition desc_SDCCH4_CBCH :: lchan_desc where
  "desc_SDCCH4_CBCH = lchan_desc0\<lparr>
    ld_name := ''SDCCH/4(CBCH)'', ld_desc := ''Cell Broadcast channel on SDCCH/4'',
     ld_gsmtap_chan_type := 0x0f, ld_chan_nr := 0xc8, ld_ss_nr := 2,
     ld_burst_buf_size := 4 * 116, ld_flags := 0x02, ld_rx_fn := Some RX_DATA\<rparr>"

definition desc_SDCCH8_CBCH :: lchan_desc where
  "desc_SDCCH8_CBCH = lchan_desc0\<lparr>
    ld_name := ''SDCCH/8(CBCH)'', ld_desc := ''Cell Broadcast channel on SDCCH/8'',
     ld_gsmtap_chan_type := 0x0c, ld_chan_nr := 0xd0, ld_ss_nr := 2,
     ld_burst_buf_size := 4 * 116, ld_rx_fn := Some RX_DATA\<rparr>"

fun trx_lchan_desc :: "trx_lchan_type \<Rightarrow> lchan_desc" where
  "trx_lchan_desc TRXC_IDLE = desc_IDLE"
| "trx_lchan_desc TRXC_FCCH = desc_FCCH"
| "trx_lchan_desc TRXC_SCH = desc_SCH"
| "trx_lchan_desc TRXC_BCCH = desc_BCCH"
| "trx_lchan_desc TRXC_RACH = desc_RACH"
| "trx_lchan_desc TRXC_CCCH = desc_CCCH"
| "trx_lchan_desc TRXC_TCHF = desc_TCHF"
| "trx_lchan_desc TRXC_TCHH_0 = desc_TCHH_0"
| "trx_lchan_desc TRXC_TCHH_1 = desc_TCHH_1"
| "trx_lchan_desc TRXC_SDCCH4_0 = desc_SDCCH4_0"
| "trx_lchan_desc TRXC_SDCCH4_1 = desc_SDCCH4_1"
| "trx_lchan_desc TRXC_SDCCH4_2 = desc_SDCCH4_2"
| "trx_lchan_desc TRXC_SDCCH4_3 = desc_SDCCH4_3"
| "trx_lchan_desc TRXC_SDCCH8_0 = desc_SDCCH8_0"
| "trx_lchan_desc TRXC_SDCCH8_1 = desc_SDCCH8_1"
| "trx_lchan_desc TRXC_SDCCH8_2 = desc_SDCCH8_2"
| "trx_lchan_desc TRXC_SDCCH8_3 = desc_SDCCH8_3"
| "trx_lchan_desc TRXC_SDCCH8_4 = desc_SDCCH8_4"
| "trx_lchan_desc TRXC_SDCCH8_5 = desc_SDCCH8_5"
| "trx_lchan_desc TRXC_SDCCH8_6 = desc_SDCCH8_6"
| "trx_lchan_desc TRXC_SDCCH8_7 = desc_SDCCH8_7"
| "trx_lchan_desc TRXC_SACCHTF = desc_SACCHTF"
| "trx_lchan_desc TRXC_SACCHTH_0 = desc_SACCHTH_0"
| "trx_lchan_desc TRXC_SACCHTH_1 = desc_SACCHTH_1"
| "trx_lchan_desc TRXC_SACCH4_0 = desc_SACCH4_0"
| "trx_lchan_desc TRXC_SACCH4_1 = desc_SACCH4_1"
| "trx_lchan_desc TRXC_SACCH4_2 = desc_SACCH4_2"
| "trx_lchan_desc TRXC_SACCH4_3 = desc_SACCH4_3"
| "trx_lchan_desc TRXC_SACCH8_0 = desc_SACCH8_0"
| "trx_lchan_desc TRXC_SACCH8_1 = desc_SACCH8_1"
| "trx_lchan_desc TRXC_SACCH8_2 = desc_SACCH8_2"
| "trx_lchan_desc TRXC_SACCH8_3 = desc_SACCH8_3"
| "trx_lchan_desc TRXC_SACCH8_4 = desc_SACCH8_4"
| "trx_lchan_desc TRXC_SACCH8_5 = desc_SACCH8_5"
| "trx_lchan_desc TRXC_SACCH8_6 = desc_SACCH8_6"
| "trx_lchan_desc TRXC_SACCH8_7 = desc_SACCH8_7"
| "trx_lchan_desc TRXC_PDTCH = desc_PDTCH"
| "trx_lchan_desc TRXC_PTCCH = desc_PTCCH"
| "trx_lchan_desc TRXC_SDCCH4_CBCH = desc_SDCCH4_CBCH"
| "trx_lchan_desc TRXC_SDCCH8_CBCH = desc_SDCCH8_CBCH"

lemmas lchan_desc_defs = lchan_desc0_def
  desc_IDLE_def desc_FCCH_def desc_SCH_def desc_BCCH_def desc_RACH_def desc_CCCH_def
  desc_TCHF_def desc_TCHH_0_def desc_TCHH_1_def desc_SDCCH4_0_def desc_SDCCH4_1_def
  desc_SDCCH4_2_def desc_SDCCH4_3_def desc_SDCCH8_0_def desc_SDCCH8_1_def desc_SDCCH8_2_def
  desc_SDCCH8_3_def desc_SDCCH8_4_def desc_SDCCH8_5_def desc_SDCCH8_6_def desc_SDCCH8_7_def
  desc_SACCHTF_def desc_SACCHTH_0_def desc_SACCHTH_1_def desc_SACCH4_0_def desc_SACCH4_1_def
  desc_SACCH4_2_def desc_SACCH4_3_def desc_SACCH8_0_def desc_SACCH8_1_def desc_SACCH8_2_def
  desc_SACCH8_3_def desc_SACCH8_4_def desc_SACCH8_5_def desc_SACCH8_6_def desc_SACCH8_7_def
  desc_PDTCH_def desc_PTCCH_def desc_SDCCH4_CBCH_def desc_SDCCH8_CBCH_def

section \<open>The table, read off\<close>

lemma ld_chan_nr_simps [simp]:
  "ld_chan_nr (trx_lchan_desc TRXC_IDLE) = 0x00"
  "ld_chan_nr (trx_lchan_desc TRXC_FCCH) = 0x00"
  "ld_chan_nr (trx_lchan_desc TRXC_SCH) = 0x00"
  "ld_chan_nr (trx_lchan_desc TRXC_BCCH) = 0x80"
  "ld_chan_nr (trx_lchan_desc TRXC_RACH) = 0x88"
  "ld_chan_nr (trx_lchan_desc TRXC_CCCH) = 0x90"
  "ld_chan_nr (trx_lchan_desc TRXC_TCHF) = 0x08"
  "ld_chan_nr (trx_lchan_desc TRXC_TCHH_0) = 0x10"
  "ld_chan_nr (trx_lchan_desc TRXC_TCHH_1) = 0x18"
  "ld_chan_nr (trx_lchan_desc TRXC_SDCCH4_0) = 0x20"
  "ld_chan_nr (trx_lchan_desc TRXC_SDCCH4_1) = 0x28"
  "ld_chan_nr (trx_lchan_desc TRXC_SDCCH4_2) = 0x30"
  "ld_chan_nr (trx_lchan_desc TRXC_SDCCH4_3) = 0x38"
  "ld_chan_nr (trx_lchan_desc TRXC_SDCCH8_0) = 0x40"
  "ld_chan_nr (trx_lchan_desc TRXC_SDCCH8_1) = 0x48"
  "ld_chan_nr (trx_lchan_desc TRXC_SDCCH8_2) = 0x50"
  "ld_chan_nr (trx_lchan_desc TRXC_SDCCH8_3) = 0x58"
  "ld_chan_nr (trx_lchan_desc TRXC_SDCCH8_4) = 0x60"
  "ld_chan_nr (trx_lchan_desc TRXC_SDCCH8_5) = 0x68"
  "ld_chan_nr (trx_lchan_desc TRXC_SDCCH8_6) = 0x70"
  "ld_chan_nr (trx_lchan_desc TRXC_SDCCH8_7) = 0x78"
  "ld_chan_nr (trx_lchan_desc TRXC_SACCHTF) = 0x08"
  "ld_chan_nr (trx_lchan_desc TRXC_SACCHTH_0) = 0x10"
  "ld_chan_nr (trx_lchan_desc TRXC_SACCHTH_1) = 0x18"
  "ld_chan_nr (trx_lchan_desc TRXC_SACCH4_0) = 0x20"
  "ld_chan_nr (trx_lchan_desc TRXC_SACCH4_1) = 0x28"
  "ld_chan_nr (trx_lchan_desc TRXC_SACCH4_2) = 0x30"
  "ld_chan_nr (trx_lchan_desc TRXC_SACCH4_3) = 0x38"
  "ld_chan_nr (trx_lchan_desc TRXC_SACCH8_0) = 0x40"
  "ld_chan_nr (trx_lchan_desc TRXC_SACCH8_1) = 0x48"
  "ld_chan_nr (trx_lchan_desc TRXC_SACCH8_2) = 0x50"
  "ld_chan_nr (trx_lchan_desc TRXC_SACCH8_3) = 0x58"
  "ld_chan_nr (trx_lchan_desc TRXC_SACCH8_4) = 0x60"
  "ld_chan_nr (trx_lchan_desc TRXC_SACCH8_5) = 0x68"
  "ld_chan_nr (trx_lchan_desc TRXC_SACCH8_6) = 0x70"
  "ld_chan_nr (trx_lchan_desc TRXC_SACCH8_7) = 0x78"
  "ld_chan_nr (trx_lchan_desc TRXC_PDTCH) = 0xc0"
  "ld_chan_nr (trx_lchan_desc TRXC_PTCCH) = 0xc0"
  "ld_chan_nr (trx_lchan_desc TRXC_SDCCH4_CBCH) = 0xc8"
  "ld_chan_nr (trx_lchan_desc TRXC_SDCCH8_CBCH) = 0xd0"
  by (simp_all add: lchan_desc_defs)

lemma ld_link_id_simps [simp]:
  "ld_link_id (trx_lchan_desc TRXC_IDLE) = 0x00"
  "ld_link_id (trx_lchan_desc TRXC_FCCH) = 0x00"
  "ld_link_id (trx_lchan_desc TRXC_SCH) = 0x00"
  "ld_link_id (trx_lchan_desc TRXC_BCCH) = 0x00"
  "ld_link_id (trx_lchan_desc TRXC_RACH) = 0x00"
  "ld_link_id (trx_lchan_desc TRXC_CCCH) = 0x00"
  "ld_link_id (trx_lchan_desc TRXC_TCHF) = 0x00"
  "ld_link_id (trx_lchan_desc TRXC_TCHH_0) = 0x00"
  "ld_link_id (trx_lchan_desc TRXC_TCHH_1) = 0x00"
  "ld_link_id (trx_lchan_desc TRXC_SDCCH4_0) = 0x00"
  "ld_link_id (trx_lchan_desc TRXC_SDCCH4_1) = 0x00"
  "ld_link_id (trx_lchan_desc TRXC_SDCCH4_2) = 0x00"
  "ld_link_id (trx_lchan_desc TRXC_SDCCH4_3) = 0x00"
  "ld_link_id (trx_lchan_desc TRXC_SDCCH8_0) = 0x00"
  "ld_link_id (trx_lchan_desc TRXC_SDCCH8_1) = 0x00"
  "ld_link_id (trx_lchan_desc TRXC_SDCCH8_2) = 0x00"
  "ld_link_id (trx_lchan_desc TRXC_SDCCH8_3) = 0x00"
  "ld_link_id (trx_lchan_desc TRXC_SDCCH8_4) = 0x00"
  "ld_link_id (trx_lchan_desc TRXC_SDCCH8_5) = 0x00"
  "ld_link_id (trx_lchan_desc TRXC_SDCCH8_6) = 0x00"
  "ld_link_id (trx_lchan_desc TRXC_SDCCH8_7) = 0x00"
  "ld_link_id (trx_lchan_desc TRXC_SACCHTF) = 0x40"
  "ld_link_id (trx_lchan_desc TRXC_SACCHTH_0) = 0x40"
  "ld_link_id (trx_lchan_desc TRXC_SACCHTH_1) = 0x40"
  "ld_link_id (trx_lchan_desc TRXC_SACCH4_0) = 0x40"
  "ld_link_id (trx_lchan_desc TRXC_SACCH4_1) = 0x40"
  "ld_link_id (trx_lchan_desc TRXC_SACCH4_2) = 0x40"
  "ld_link_id (trx_lchan_desc TRXC_SACCH4_3) = 0x40"
  "ld_link_id (trx_lchan_desc TRXC_SACCH8_0) = 0x40"
  "ld_link_id (trx_lchan_desc TRXC_SACCH8_1) = 0x40"
  "ld_link_id (trx_lchan_desc TRXC_SACCH8_2) = 0x40"
  "ld_link_id (trx_lchan_desc TRXC_SACCH8_3) = 0x40"
  "ld_link_id (trx_lchan_desc TRXC_SACCH8_4) = 0x40"
  "ld_link_id (trx_lchan_desc TRXC_SACCH8_5) = 0x40"
  "ld_link_id (trx_lchan_desc TRXC_SACCH8_6) = 0x40"
  "ld_link_id (trx_lchan_desc TRXC_SACCH8_7) = 0x40"
  "ld_link_id (trx_lchan_desc TRXC_PDTCH) = 0x00"
  "ld_link_id (trx_lchan_desc TRXC_PTCCH) = 0x80"
  "ld_link_id (trx_lchan_desc TRXC_SDCCH4_CBCH) = 0x00"
  "ld_link_id (trx_lchan_desc TRXC_SDCCH8_CBCH) = 0x00"
  by (simp_all add: lchan_desc_defs)

lemma ld_flags_simps [simp]:
  "ld_flags (trx_lchan_desc TRXC_IDLE) = 0x00"
  "ld_flags (trx_lchan_desc TRXC_FCCH) = 0x00"
  "ld_flags (trx_lchan_desc TRXC_SCH) = 0x02"
  "ld_flags (trx_lchan_desc TRXC_BCCH) = 0x02"
  "ld_flags (trx_lchan_desc TRXC_RACH) = 0x02"
  "ld_flags (trx_lchan_desc TRXC_CCCH) = 0x02"
  "ld_flags (trx_lchan_desc TRXC_TCHF) = 0x04"
  "ld_flags (trx_lchan_desc TRXC_TCHH_0) = 0x04"
  "ld_flags (trx_lchan_desc TRXC_TCHH_1) = 0x04"
  "ld_flags (trx_lchan_desc TRXC_SDCCH4_0) = 0x04"
  "ld_flags (trx_lchan_desc TRXC_SDCCH4_1) = 0x04"
  "ld_flags (trx_lchan_desc TRXC_SDCCH4_2) = 0x04"
  "ld_flags (trx_lchan_desc TRXC_SDCCH4_3) = 0x04"
  "ld_flags (trx_lchan_desc TRXC_SDCCH8_0) = 0x04"
  "ld_flags (trx_lchan_desc TRXC_SDCCH8_1) = 0x04"
  "ld_flags (trx_lchan_desc TRXC_SDCCH8_2) = 0x04"
  "ld_flags (trx_lchan_desc TRXC_SDCCH8_3) = 0x04"
  "ld_flags (trx_lchan_desc TRXC_SDCCH8_4) = 0x04"
  "ld_flags (trx_lchan_desc TRXC_SDCCH8_5) = 0x04"
  "ld_flags (trx_lchan_desc TRXC_SDCCH8_6) = 0x04"
  "ld_flags (trx_lchan_desc TRXC_SDCCH8_7) = 0x04"
  "ld_flags (trx_lchan_desc TRXC_SACCHTF) = 0x04"
  "ld_flags (trx_lchan_desc TRXC_SACCHTH_0) = 0x04"
  "ld_flags (trx_lchan_desc TRXC_SACCHTH_1) = 0x04"
  "ld_flags (trx_lchan_desc TRXC_SACCH4_0) = 0x04"
  "ld_flags (trx_lchan_desc TRXC_SACCH4_1) = 0x04"
  "ld_flags (trx_lchan_desc TRXC_SACCH4_2) = 0x04"
  "ld_flags (trx_lchan_desc TRXC_SACCH4_3) = 0x04"
  "ld_flags (trx_lchan_desc TRXC_SACCH8_0) = 0x04"
  "ld_flags (trx_lchan_desc TRXC_SACCH8_1) = 0x04"
  "ld_flags (trx_lchan_desc TRXC_SACCH8_2) = 0x04"
  "ld_flags (trx_lchan_desc TRXC_SACCH8_3) = 0x04"
  "ld_flags (trx_lchan_desc TRXC_SACCH8_4) = 0x04"
  "ld_flags (trx_lchan_desc TRXC_SACCH8_5) = 0x04"
  "ld_flags (trx_lchan_desc TRXC_SACCH8_6) = 0x04"
  "ld_flags (trx_lchan_desc TRXC_SACCH8_7) = 0x04"
  "ld_flags (trx_lchan_desc TRXC_PDTCH) = 0x01"
  "ld_flags (trx_lchan_desc TRXC_PTCCH) = 0x01"
  "ld_flags (trx_lchan_desc TRXC_SDCCH4_CBCH) = 0x02"
  "ld_flags (trx_lchan_desc TRXC_SDCCH8_CBCH) = 0x00"
  by (simp_all add: lchan_desc_defs)

lemma ld_burst_buf_size_simps [simp]:
  "ld_burst_buf_size (trx_lchan_desc TRXC_IDLE) = 0"
  "ld_burst_buf_size (trx_lchan_desc TRXC_FCCH) = 0"
  "ld_burst_buf_size (trx_lchan_desc TRXC_SCH) = 0"
  "ld_burst_buf_size (trx_lchan_desc TRXC_BCCH) = 464"
  "ld_burst_buf_size (trx_lchan_desc TRXC_RACH) = 0"
  "ld_burst_buf_size (trx_lchan_desc TRXC_CCCH) = 464"
  "ld_burst_buf_size (trx_lchan_desc TRXC_TCHF) = 928"
  "ld_burst_buf_size (trx_lchan_desc TRXC_TCHH_0) = 696"
  "ld_burst_buf_size (trx_lchan_desc TRXC_TCHH_1) = 696"
  "ld_burst_buf_size (trx_lchan_desc TRXC_SDCCH4_0) = 464"
  "ld_burst_buf_size (trx_lchan_desc TRXC_SDCCH4_1) = 464"
  "ld_burst_buf_size (trx_lchan_desc TRXC_SDCCH4_2) = 464"
  "ld_burst_buf_size (trx_lchan_desc TRXC_SDCCH4_3) = 464"
  "ld_burst_buf_size (trx_lchan_desc TRXC_SDCCH8_0) = 464"
  "ld_burst_buf_size (trx_lchan_desc TRXC_SDCCH8_1) = 464"
  "ld_burst_buf_size (trx_lchan_desc TRXC_SDCCH8_2) = 464"
  "ld_burst_buf_size (trx_lchan_desc TRXC_SDCCH8_3) = 464"
  "ld_burst_buf_size (trx_lchan_desc TRXC_SDCCH8_4) = 464"
  "ld_burst_buf_size (trx_lchan_desc TRXC_SDCCH8_5) = 464"
  "ld_burst_buf_size (trx_lchan_desc TRXC_SDCCH8_6) = 464"
  "ld_burst_buf_size (trx_lchan_desc TRXC_SDCCH8_7) = 464"
  "ld_burst_buf_size (trx_lchan_desc TRXC_SACCHTF) = 464"
  "ld_burst_buf_size (trx_lchan_desc TRXC_SACCHTH_0) = 464"
  "ld_burst_buf_size (trx_lchan_desc TRXC_SACCHTH_1) = 464"
  "ld_burst_buf_size (trx_lchan_desc TRXC_SACCH4_0) = 464"
  "ld_burst_buf_size (trx_lchan_desc TRXC_SACCH4_1) = 464"
  "ld_burst_buf_size (trx_lchan_desc TRXC_SACCH4_2) = 464"
  "ld_burst_buf_size (trx_lchan_desc TRXC_SACCH4_3) = 464"
  "ld_burst_buf_size (trx_lchan_desc TRXC_SACCH8_0) = 464"
  "ld_burst_buf_size (trx_lchan_desc TRXC_SACCH8_1) = 464"
  "ld_burst_buf_size (trx_lchan_desc TRXC_SACCH8_2) = 464"
  "ld_burst_buf_size (trx_lchan_desc TRXC_SACCH8_3) = 464"
  "ld_burst_buf_size (trx_lchan_desc TRXC_SACCH8_4) = 464"
  "ld_burst_buf_size (trx_lchan_desc TRXC_SACCH8_5) = 464"
  "ld_burst_buf_size (trx_lchan_desc TRXC_SACCH8_6) = 464"
  "ld_burst_buf_size (trx_lchan_desc TRXC_SACCH8_7) = 464"
  "ld_burst_buf_size (trx_lchan_desc TRXC_PDTCH) = 1392"
  "ld_burst_buf_size (trx_lchan_desc TRXC_PTCCH) = 464"
  "ld_burst_buf_size (trx_lchan_desc TRXC_SDCCH4_CBCH) = 464"
  "ld_burst_buf_size (trx_lchan_desc TRXC_SDCCH8_CBCH) = 464"
  by (simp_all add: lchan_desc_defs)

lemma ld_rx_fn_simps [simp]:
  "ld_rx_fn (trx_lchan_desc TRXC_IDLE) = None"
  "ld_rx_fn (trx_lchan_desc TRXC_FCCH) = None"
  "ld_rx_fn (trx_lchan_desc TRXC_SCH) = Some RX_SCH"
  "ld_rx_fn (trx_lchan_desc TRXC_BCCH) = Some RX_DATA"
  "ld_rx_fn (trx_lchan_desc TRXC_RACH) = None"
  "ld_rx_fn (trx_lchan_desc TRXC_CCCH) = Some RX_DATA"
  "ld_rx_fn (trx_lchan_desc TRXC_TCHF) = Some RX_TCHF"
  "ld_rx_fn (trx_lchan_desc TRXC_TCHH_0) = Some RX_TCHH"
  "ld_rx_fn (trx_lchan_desc TRXC_TCHH_1) = Some RX_TCHH"
  "ld_rx_fn (trx_lchan_desc TRXC_SDCCH4_0) = Some RX_DATA"
  "ld_rx_fn (trx_lchan_desc TRXC_SDCCH4_1) = Some RX_DATA"
  "ld_rx_fn (trx_lchan_desc TRXC_SDCCH4_2) = Some RX_DATA"
  "ld_rx_fn (trx_lchan_desc TRXC_SDCCH4_3) = Some RX_DATA"
  "ld_rx_fn (trx_lchan_desc TRXC_SDCCH8_0) = Some RX_DATA"
  "ld_rx_fn (trx_lchan_desc TRXC_SDCCH8_1) = Some RX_DATA"
  "ld_rx_fn (trx_lchan_desc TRXC_SDCCH8_2) = Some RX_DATA"
  "ld_rx_fn (trx_lchan_desc TRXC_SDCCH8_3) = Some RX_DATA"
  "ld_rx_fn (trx_lchan_desc TRXC_SDCCH8_4) = Some RX_DATA"
  "ld_rx_fn (trx_lchan_desc TRXC_SDCCH8_5) = Some RX_DATA"
  "ld_rx_fn (trx_lchan_desc TRXC_SDCCH8_6) = Some RX_DATA"
  "ld_rx_fn (trx_lchan_desc TRXC_SDCCH8_7) = Some RX_DATA"
  "ld_rx_fn (trx_lchan_desc TRXC_SACCHTF) = Some RX_DATA"
  "ld_rx_fn (trx_lchan_desc TRXC_SACCHTH_0) = Some RX_DATA"
  "ld_rx_fn (trx_lchan_desc TRXC_SACCHTH_1) = Some RX_DATA"
  "ld_rx_fn (trx_lchan_desc TRXC_SACCH4_0) = Some RX_DATA"
  "ld_rx_fn (trx_lchan_desc TRXC_SACCH4_1) = Some RX_DATA"
  "ld_rx_fn (trx_lchan_desc TRXC_SACCH4_2) = Some RX_DATA"
  "ld_rx_fn (trx_lchan_desc TRXC_SACCH4_3) = Some RX_DATA"
  "ld_rx_fn (trx_lchan_desc TRXC_SACCH8_0) = Some RX_DATA"
  "ld_rx_fn (trx_lchan_desc TRXC_SACCH8_1) = Some RX_DATA"
  "ld_rx_fn (trx_lchan_desc TRXC_SACCH8_2) = Some RX_DATA"
  "ld_rx_fn (trx_lchan_desc TRXC_SACCH8_3) = Some RX_DATA"
  "ld_rx_fn (trx_lchan_desc TRXC_SACCH8_4) = Some RX_DATA"
  "ld_rx_fn (trx_lchan_desc TRXC_SACCH8_5) = Some RX_DATA"
  "ld_rx_fn (trx_lchan_desc TRXC_SACCH8_6) = Some RX_DATA"
  "ld_rx_fn (trx_lchan_desc TRXC_SACCH8_7) = Some RX_DATA"
  "ld_rx_fn (trx_lchan_desc TRXC_PDTCH) = Some RX_PDTCH"
  "ld_rx_fn (trx_lchan_desc TRXC_PTCCH) = Some RX_PDTCH"
  "ld_rx_fn (trx_lchan_desc TRXC_SDCCH4_CBCH) = Some RX_DATA"
  "ld_rx_fn (trx_lchan_desc TRXC_SDCCH8_CBCH) = Some RX_DATA"
  by (simp_all add: lchan_desc_defs)

lemma ld_tx_fn_simps [simp]:
  "ld_tx_fn (trx_lchan_desc TRXC_IDLE) = None"
  "ld_tx_fn (trx_lchan_desc TRXC_FCCH) = None"
  "ld_tx_fn (trx_lchan_desc TRXC_SCH) = None"
  "ld_tx_fn (trx_lchan_desc TRXC_BCCH) = None"
  "ld_tx_fn (trx_lchan_desc TRXC_RACH) = Some TX_RACH"
  "ld_tx_fn (trx_lchan_desc TRXC_CCCH) = None"
  "ld_tx_fn (trx_lchan_desc TRXC_TCHF) = Some TX_TCHF"
  "ld_tx_fn (trx_lchan_desc TRXC_TCHH_0) = Some TX_TCHH"
  "ld_tx_fn (trx_lchan_desc TRXC_TCHH_1) = Some TX_TCHH"
  "ld_tx_fn (trx_lchan_desc TRXC_SDCCH4_0) = Some TX_DATA"
  "ld_tx_fn (trx_lchan_desc TRXC_SDCCH4_1) = Some TX_DATA"
  "ld_tx_fn (trx_lchan_desc TRXC_SDCCH4_2) = Some TX_DATA"
  "ld_tx_fn (trx_lchan_desc TRXC_SDCCH4_3) = Some TX_DATA"
  "ld_tx_fn (trx_lchan_desc TRXC_SDCCH8_0) = Some TX_DATA"
  "ld_tx_fn (trx_lchan_desc TRXC_SDCCH8_1) = Some TX_DATA"
  "ld_tx_fn (trx_lchan_desc TRXC_SDCCH8_2) = Some TX_DATA"
  "ld_tx_fn (trx_lchan_desc TRXC_SDCCH8_3) = Some TX_DATA"
  "ld_tx_fn (trx_lchan_desc TRXC_SDCCH8_4) = Some TX_DATA"
  "ld_tx_fn (trx_lchan_desc TRXC_SDCCH8_5) = Some TX_DATA"
  "ld_tx_fn (trx_lchan_desc TRXC_SDCCH8_6) = Some TX_DATA"
  "ld_tx_fn (trx_lchan_desc TRXC_SDCCH8_7) = Some TX_DATA"
  "ld_tx_fn (trx_lchan_desc TRXC_SACCHTF) = Some TX_DATA"
  "ld_tx_fn (trx_lchan_desc TRXC_SACCHTH_0) = Some TX_DATA"
  "ld_tx_fn (trx_lchan_desc TRXC_SACCHTH_1) = Some TX_DATA"
  "ld_tx_fn (trx_lchan_desc TRXC_SACCH4_0) = Some TX_DATA"
  "ld_tx_fn (trx_lchan_desc TRXC_SACCH4_1) = Some TX_DATA"
  "ld_tx_fn (trx_lchan_desc TRXC_SACCH4_2) = Some TX_DATA"
  "ld_tx_fn (trx_lchan_desc TRXC_SACCH4_3) = Some TX_DATA"
  "ld_tx_fn (trx_lchan_desc TRXC_SACCH8_0) = Some TX_DATA"
  "ld_tx_fn (trx_lchan_desc TRXC_SACCH8_1) = Some TX_DATA"
  "ld_tx_fn (trx_lchan_desc TRXC_SACCH8_2) = Some TX_DATA"
  "ld_tx_fn (trx_lchan_desc TRXC_SACCH8_3) = Some TX_DATA"
  "ld_tx_fn (trx_lchan_desc TRXC_SACCH8_4) = Some TX_DATA"
  "ld_tx_fn (trx_lchan_desc TRXC_SACCH8_5) = Some TX_DATA"
  "ld_tx_fn (trx_lchan_desc TRXC_SACCH8_6) = Some TX_DATA"
  "ld_tx_fn (trx_lchan_desc TRXC_SACCH8_7) = Some TX_DATA"
  "ld_tx_fn (trx_lchan_desc TRXC_PDTCH) = Some TX_PDTCH"
  "ld_tx_fn (trx_lchan_desc TRXC_PTCCH) = Some TX_RACH"
  "ld_tx_fn (trx_lchan_desc TRXC_SDCCH4_CBCH) = None"
  "ld_tx_fn (trx_lchan_desc TRXC_SDCCH8_CBCH) = None"
  by (simp_all add: lchan_desc_defs)

declare trx_lchan_desc.simps [simp del]

section \<open>Channel flags and classes\<close>

definition chan_flag_auto :: "trx_lchan_type \<Rightarrow> bool" where
  "chan_flag_auto c \<longleftrightarrow> ld_flags (trx_lchan_desc c) AND 0x02 \<noteq> 0"

definition chan_flag_cbtx :: "trx_lchan_type \<Rightarrow> bool" where
  "chan_flag_cbtx c \<longleftrightarrow> ld_flags (trx_lchan_desc c) AND 0x04 \<noteq> 0"

definition chan_is_tch :: "trx_lchan_type \<Rightarrow> bool" where
  "chan_is_tch c \<longleftrightarrow> c = TRXC_TCHF \<or> c = TRXC_TCHH_0 \<or> c = TRXC_TCHH_1"

definition chan_is_sacch :: "trx_lchan_type \<Rightarrow> bool" where
  "chan_is_sacch c \<longleftrightarrow> ld_link_id (trx_lchan_desc c) AND 0x40 \<noteq> 0"

section \<open>Channel numbers\<close>

definition sched_trx_chan_nr2pchan_config :: "u8 \<Rightarrow> gsm_phys_chan_config" where
  "sched_trx_chan_nr2pchan_config chan_nr =
    (let cbits = drop_bit 3 chan_nr in
     if cbits = 0x01 then GSM_PCHAN_TCH_F
     else if cbits AND 0x1e = 0x02 then GSM_PCHAN_TCH_H
     else if cbits AND 0x1c = 0x04 then GSM_PCHAN_CCCH_SDCCH4
     else if cbits AND 0x18 = 0x08 then GSM_PCHAN_SDCCH8_SACCH8C
     else if cbits AND 0x1f = 0x19 then GSM_PCHAN_CCCH_SDCCH4_CBCH
     else if cbits AND 0x1f = 0x1a then GSM_PCHAN_SDCCH8_SACCH8C_CBCH
     else if cbits AND 0x1f = 0x18 then GSM_PCHAN_PDCH
     else GSM_PCHAN_NONE)"

definition sched_trx_chan_nr2lchan_type :: "u8 \<Rightarrow> u8 \<Rightarrow> trx_lchan_type" where
  "sched_trx_chan_nr2lchan_type chan_nr link_id =
    (case find (\<lambda>c. ld_chan_nr (trx_lchan_desc c) = chan_nr AND 0xf8
                  \<and> ld_link_id (trx_lchan_desc c) = link_id) all_lchan_types of
       Some c \<Rightarrow> c
     | None \<Rightarrow> TRXC_IDLE)"


lemma u8_less_8_cases:
  fixes tn :: u8
  assumes "tn < 8"
  shows "tn \<in> {0, 1, 2, 3, 4, 5, 6, 7}"
proof -
  have n: "unat tn < 8" using assms by (simp add: word_less_nat_alt)
  have "tn = of_nat (unat tn)" by simp
  moreover from n have "unat tn = 0 \<or> unat tn = 1 \<or> unat tn = 2 \<or> unat tn = 3
    \<or> unat tn = 4 \<or> unat tn = 5 \<or> unat tn = 6 \<or> unat tn = 7" by linarith
  ultimately show ?thesis by (elim disjE) auto
qed

text \<open>The timeslot number sits below the channel bits and is masked out.\<close>

lemma chan_nr_mask_tn:
  fixes x tn :: u8
  assumes "x AND 0xf8 = x" "tn < 8"
  shows "(x OR tn) AND 0xf8 = x" "(x OR tn) AND 0x07 = tn"
proof -
  have tn: "tn AND 0xf8 = 0" "tn AND 0x07 = tn"
    using u8_less_8_cases [OF assms(2)] by auto
  show "(x OR tn) AND 0xf8 = x" using assms(1) tn by (simp add: word_bw_assocs word_ao_dist)
  have "x AND 0x07 = (x AND 0xf8) AND 0x07" using assms(1) by simp
  also have "\<dots> = 0" by (simp add: word_bw_assocs)
  finally show "(x OR tn) AND 0x07 = tn" using tn by (simp add: word_ao_dist)
qed

lemma chan_nr_no_tn: "ld_chan_nr (trx_lchan_desc c) AND 0xf8 = ld_chan_nr (trx_lchan_desc c)"
  by (cases c) simp_all

lemma lchan_types_found:
  "list_all (\<lambda>c. sched_trx_chan_nr2lchan_type (ld_chan_nr (trx_lchan_desc c))
      (ld_link_id (trx_lchan_desc c)) = c) (drop 3 all_lchan_types)"
  by code_simp

lemma chan_nr2lchan_type_desc:
  assumes "c \<notin> {TRXC_IDLE, TRXC_FCCH, TRXC_SCH}" "tn < 8"
  shows "sched_trx_chan_nr2lchan_type (ld_chan_nr (trx_lchan_desc c) OR tn)
    (ld_link_id (trx_lchan_desc c)) = c"
proof -
  have "c \<in> set (drop 3 all_lchan_types)"
    using assms(1) by (cases c) (simp_all add: all_lchan_types_def)
  then have "sched_trx_chan_nr2lchan_type (ld_chan_nr (trx_lchan_desc c))
      (ld_link_id (trx_lchan_desc c)) = c"
    using lchan_types_found by (simp add: list_all_iff)
  then show ?thesis
    by (simp add: sched_trx_chan_nr2lchan_type_def chan_nr_no_tn
        chan_nr_mask_tn(1) [OF chan_nr_no_tn assms(2)])
qed

lemma chan_is_sacch_link_id: "chan_is_sacch c \<Longrightarrow> ld_link_id (trx_lchan_desc c) = 0x40"
  by (cases c) (simp_all add: chan_is_sacch_def)

lemma sacch_desc_type:
  assumes "chan_is_sacch c"
  shows "sched_trx_chan_nr2lchan_type (ld_chan_nr (trx_lchan_desc c)) 0x40 = c"
proof -
  have "c \<notin> {TRXC_IDLE, TRXC_FCCH, TRXC_SCH}"
    using assms by (auto simp: chan_is_sacch_def)
  from chan_nr2lchan_type_desc [OF this, of 0] chan_is_sacch_link_id [OF assms]
  show ?thesis by simp
qed

lemma sacch_not_tch: "chan_is_sacch c \<Longrightarrow> \<not> chan_is_tch c"
  by (auto simp: chan_is_sacch_def chan_is_tch_def)

section \<open>Property\<close>

text \<open>
  The RSL-like channel number and link identifier are an unambiguous name of a logical
  channel: from the pair the descriptor of any channel above SCH holds, with any timeslot
  number in its three low bits, \<open>sched_trx_chan_nr2lchan_type\<close> finds that channel and
  the mask of \<open>sched_prim_push\<close> finds the timeslot.
\<close>

theorem chan_nr_names_lchan:
  assumes "c \<notin> {TRXC_IDLE, TRXC_FCCH, TRXC_SCH}" "tn < 8"
  shows "sched_trx_chan_nr2lchan_type (ld_chan_nr (trx_lchan_desc c) OR tn)
      (ld_link_id (trx_lchan_desc c)) = c
    \<and> (ld_chan_nr (trx_lchan_desc c) OR tn) AND 0x07 = tn"
  using chan_nr2lchan_type_desc [OF assms] chan_nr_mask_tn(2) [OF chan_nr_no_tn assms(2)] by simp

theorem chan_nr_names_lchan_witness:
  "sched_trx_chan_nr2lchan_type 0x5b 0x40 = TRXC_SACCH8_3 \<and> (0x5b :: u8) AND 0x07 = 3"
  using chan_nr_names_lchan [of TRXC_SACCH8_3 3] by simp

end
