(* ===== verification/SchedTypes.thy ===== *)
theory SchedTypes
  imports SchedDesc SchedMframe "HOL-Library.Monad_Syntax"
begin

text \<open>
  The state the trxcon scheduler keeps (\<open>sched_trx.h\<close>, \<open>trx_if.h\<close>): measurement
  sets and their ring buffer, queued primitives, logical channel states, timeslots, the
  part of the transceiver instance the channel handlers read and write, the burst requests
  they fill and the messages they send.

  A function that can hit an \<open>OSMO_ASSERT\<close>, a \<open>NULL\<close> pointer or the end of a buffer
  returns an option, and \<open>None\<close> is that undefined or aborting behaviour; the safety
  lemmas of the component theories show when it cannot happen.

  Not represented: the \<open>amr\<close> and \<open>burst_type\<close> members, which the code only ever
  zeroes, the \<open>list\<close> links and parent pointers, and the byte order of the fields of
  the L1CTL header, which is given here in host order.
\<close>

section \<open>Measurements and primitives\<close>

record trx_meas_set =
  meas_fn :: u32
  meas_toa256 :: "16 word"
  meas_rssi :: "8 word"

text \<open>The ring buffer; the head pointer is an index or \<open>NULL\<close>.\<close>

record trx_lchan_meas_hist =
  hist_buf :: "trx_meas_set list"
  hist_head :: "nat option"

text \<open>
  A queued primitive. \<open>payload\<close> is the flexible array member, as long as the memory
  allocated for it; \<open>payload_len\<close> is the length the primitive claims.
\<close>

record trx_ts_prim =
  prim_chan :: trx_lchan_type
  payload_len :: nat
  payload :: "u8 list"

section \<open>Logical channels and timeslots\<close>

record trx_lchan_state =
  lchan_type :: trx_lchan_type
  active :: bool
  rx_burst_mask :: u8
  tx_burst_mask :: u8
  rx_bursts :: "sbit list option"
  tx_bursts :: "ubit list option"
  cur_prim :: "trx_ts_prim option"
  tch_mode :: u8
  dl_ongoing_facch :: bool
  ul_facch_blocks :: u8
  meas_hist :: trx_lchan_meas_hist
  meas_avg :: trx_meas_set
  last_proc :: u32
  num_proc :: u64
  num_lost :: u64
  mr_cache :: "u8 list"
  mr_cache_usage :: u8
  mr_tx_last :: bool
  a5_key :: "u8 list"
  a5_key_len :: u8
  a5_algo :: u8

text \<open>
  The two list heads are zero after the allocation of the timeslot, which is not an empty
  list: \<open>None\<close> until \<open>INIT_LLIST_HEAD\<close> has run.
\<close>

record trx_ts =
  ts_index :: nat
  mf_layout :: "trx_multiframe option"
  lchans :: "trx_lchan_state list option"
  tx_prims :: "trx_ts_prim list option"

section \<open>The transceiver instance as the handlers see it\<close>

text \<open>\<open>fbsb_conf_sent\<close> is a member of the L1CTL link the instance points to.\<close>

record trx_phy =
  band_arfcn :: u16
  tx_power :: u8
  bsic :: u8
  tsc :: u8
  ta :: "8 word"
  fbsb_conf_sent :: bool

text \<open>\<open>struct sched_burst_req\<close>; the burst array has \<open>EDGE_BURST_LEN\<close> entries.\<close>

record sched_burst_req =
  br_fn :: u32
  br_tn :: nat
  br_pwr :: u8
  br_bid :: nat
  br_burst :: "ubit list"
  br_burst_len :: nat

abbreviation (input) GSM_BURST_LEN :: nat where "GSM_BURST_LEN \<equiv> 148"
abbreviation (input) EDGE_BURST_LEN :: nat where "EDGE_BURST_LEN \<equiv> 444"
abbreviation (input) GSM_MACBLOCK_LEN :: nat where "GSM_MACBLOCK_LEN \<equiv> 23"
abbreviation (input) GSM_FR_BYTES :: nat where "GSM_FR_BYTES \<equiv> 33"
abbreviation (input) GSM_HR_BYTES :: nat where "GSM_HR_BYTES \<equiv> 14"
abbreviation (input) GSM_EFR_BYTES :: nat where "GSM_EFR_BYTES \<equiv> 31"

abbreviation (input) GSM48_CMODE_SIGN :: u8 where "GSM48_CMODE_SIGN \<equiv> 0x00"
abbreviation (input) GSM48_CMODE_SPEECH_V1 :: u8 where "GSM48_CMODE_SPEECH_V1 \<equiv> 0x01"
abbreviation (input) GSM48_CMODE_SPEECH_EFR :: u8 where "GSM48_CMODE_SPEECH_EFR \<equiv> 0x21"
abbreviation (input) GSM48_CMODE_SPEECH_AMR :: u8 where "GSM48_CMODE_SPEECH_AMR \<equiv> 0x41"

section \<open>Messages the scheduler sends\<close>

record l1ctl_info_dl =
  dl_chan_nr :: u8
  dl_link_id :: u8
  dl_band_arfcn :: u16
  dl_frame_nr :: u32
  dl_rx_level :: u8
  dl_snr :: u8
  dl_num_biterr :: u8
  dl_fire_crc :: u8

text \<open>
  The messages to the L1CTL link and the requests to the transceiver, in the order they
  are issued: \<open>L1CTL_DATA_IND\<close> or \<open>L1CTL_TRAFFIC_IND\<close> (the flag tells which),
  \<open>L1CTL_DATA_CONF\<close> or \<open>L1CTL_TRAFFIC_CONF\<close>, \<open>L1CTL_RACH_CONF\<close>,
  \<open>L1CTL_FBSB_CONF\<close>, \<open>trx_if_cmd_setslot\<close> and \<open>trx_if_tx_burst\<close>.
\<close>

datatype trx_event =
    L1ctlDtInd l1ctl_info_dl "u8 list" bool
  | L1ctlDtConf l1ctl_info_dl bool
  | L1ctlRachConf u16 u32
  | L1ctlFbsbConf u8 l1ctl_info_dl u8
  | TrxCmdSetslot nat u8
  | TrxTxBurst sched_burst_req

section \<open>The channel coding functions\<close>

text \<open>
  The functions of \<open>libosmocore\<close>'s \<open>gsm0503_coding.c\<close> and \<open>a5.c\<close> the handlers
  call. An encoder gets the burst buffer and the payload and returns its result code and
  the buffer as it leaves it; a decoder returns its result code, the octets it stored and
  the number of bit errors it reports.
\<close>

record codec =
  xcch_decode :: "sbit list \<Rightarrow> int \<times> u8 list \<times> int"
  xcch_encode :: "ubit list \<Rightarrow> u8 list \<Rightarrow> int \<times> ubit list"
  pdtch_decode :: "sbit list \<Rightarrow> int \<times> u8 list \<times> int"
  pdtch_encode :: "ubit list \<Rightarrow> u8 list \<Rightarrow> int \<times> ubit list"
  tch_fr_decode :: "sbit list \<Rightarrow> bool \<Rightarrow> int \<times> u8 list \<times> int"
  tch_fr_encode :: "ubit list \<Rightarrow> u8 list \<Rightarrow> int \<times> ubit list"
  tch_hr_decode :: "sbit list \<Rightarrow> bool \<Rightarrow> int \<times> u8 list \<times> int"
  tch_hr_encode :: "ubit list \<Rightarrow> u8 list \<Rightarrow> int \<times> ubit list"
  rach_ext_encode :: "u16 \<Rightarrow> u8 \<Rightarrow> bool \<Rightarrow> int \<times> ubit list"
  sch_decode :: "sbit list \<Rightarrow> int \<times> u8 list"
  osmo_a5 :: "u8 \<Rightarrow> u8 list \<Rightarrow> u32 \<Rightarrow> ubit list \<times> ubit list"

section \<open>Allocation\<close>

definition meas0 :: trx_meas_set where
  "meas0 = \<lparr>meas_fn = 0, meas_toa256 = 0, meas_rssi = 0\<rparr>"

definition meas_hist0 :: trx_lchan_meas_hist where
  "meas_hist0 = \<lparr>hist_buf = replicate 8 meas0, hist_head = None\<rparr>"

text \<open>\<open>talloc_zero\<close> of a channel state, with its type set.\<close>

definition new_lchan :: "trx_lchan_type \<Rightarrow> trx_lchan_state" where
  "new_lchan chan = \<lparr>
     lchan_type = chan, active = False, rx_burst_mask = 0, tx_burst_mask = 0,
     rx_bursts = None, tx_bursts = None, cur_prim = None, tch_mode = 0,
     dl_ongoing_facch = False, ul_facch_blocks = 0, meas_hist = meas_hist0, meas_avg = meas0,
     last_proc = 0, num_proc = 0, num_lost = 0,
     mr_cache = replicate GSM_MACBLOCK_LEN 0, mr_cache_usage = 0, mr_tx_last = False,
     a5_key = replicate 16 0, a5_key_len = 0, a5_algo = 0\<rparr>"

section \<open>Memory copies\<close>

text \<open>\<open>memcpy\<close> into a buffer and out of one; \<open>None\<close> is an access out of bounds.\<close>

definition mem_write :: "'a list \<Rightarrow> nat \<Rightarrow> 'a list \<Rightarrow> 'a list option" where
  "mem_write buf off src =
    (if off + length src \<le> length buf then Some (blit buf off src) else None)"

definition mem_read :: "'a list \<Rightarrow> nat \<Rightarrow> nat \<Rightarrow> 'a list option" where
  "mem_read buf off len =
    (if off + len \<le> length buf then Some (take len (drop off buf)) else None)"

lemma mem_write_Some_iff:
  "mem_write buf off src = Some b \<longleftrightarrow> off + length src \<le> length buf \<and> b = blit buf off src"
  by (auto simp: mem_write_def)

lemma mem_read_Some_iff:
  "mem_read buf off len = Some b \<longleftrightarrow> off + len \<le> length buf \<and> b = take len (drop off buf)"
  by (auto simp: mem_read_def)


lemma mem_write_None_iff: "mem_write buf off src = None \<longleftrightarrow> length buf < off + length src"
  by (auto simp: mem_write_def)

lemma mem_read_None_iff: "mem_read buf off len = None \<longleftrightarrow> length buf < off + len"
  by (auto simp: mem_read_def)

lemma length_mem_write: "mem_write buf off src = Some b \<Longrightarrow> length b = length buf"
  by (auto simp: mem_write_Some_iff)

lemmas mem_simps = mem_write_Some_iff mem_read_Some_iff mem_at_Some_iff
  mem_write_None_iff mem_read_None_iff

lemma bind_Some_iff: "Option.bind m f = Some y \<longleftrightarrow> (\<exists>x. m = Some x \<and> f x = Some y)"
  by (cases m) auto

lemma bind_None_iff: "Option.bind m f = None \<longleftrightarrow> m = None \<or> (\<exists>x. m = Some x \<and> f x = None)"
  by (cases m) auto

end
