(* ===== verification/SchedMeas.thy ===== *)
theory SchedMeas
  imports SchedTypes
begin

text \<open>
  The measurement history of a logical channel (\<open>sched_trx_meas_push\<close> and
  \<open>sched_trx_meas_avg\<close> of \<open>sched_trx.c\<close>), a ring buffer of eight sets.

  The specification is the list of the measurements pushed so far: the ring buffer's
  \<open>n\<close>-th entry behind its head is the \<open>n\<close>-th last push. The average is taken by an
  unsigned division; the lemmas say for which \<open>n\<close> it is the (rounded down) average.
\<close>

section \<open>Operations\<close>

definition sched_trx_meas_push :: "trx_lchan_meas_hist \<Rightarrow> trx_meas_set \<Rightarrow> trx_lchan_meas_hist" where
  "sched_trx_meas_push hist meas =
    (let h = (case hist_head hist of None \<Rightarrow> 0 | Some i \<Rightarrow> if i = 7 then 0 else i + 1)
     in hist\<lparr>hist_head := Some h, hist_buf := (hist_buf hist)[h := meas]\<rparr>)"

text \<open>
  The loop, from entry \<open>pos\<close> on, \<open>n\<close> entries to go: the sums of the entries visited
  and the position of the last one.
\<close>

fun meas_walk :: "trx_meas_set list \<Rightarrow> nat \<Rightarrow> nat \<Rightarrow> int \<times> int \<times> nat" where
  "meas_walk buf pos 0 = (0, 0, pos)"
| "meas_walk buf pos (Suc 0) = (sint (meas_toa256 (buf ! pos)), sint (meas_rssi (buf ! pos)), pos)"
| "meas_walk buf pos (Suc (Suc n)) =
    (let (t, r, p) = meas_walk buf (if pos = 0 then 7 else pos - 1) (Suc n)
     in (sint (meas_toa256 (buf ! pos)) + t, sint (meas_rssi (buf ! pos)) + r, p))"

text \<open>
  \<open>sum / n\<close> with \<open>int sum\<close> and \<open>unsigned int n\<close>: the sum is converted to
  \<open>unsigned int\<close> before the division.
\<close>

definition div_by_unsigned :: "int \<Rightarrow> nat \<Rightarrow> u32" where
  "div_by_unsigned s n = word_of_int s div of_nat n"

text \<open>\<open>None\<close>: one of the two \<open>OSMO_ASSERT\<close> fails.\<close>

definition sched_trx_meas_avg :: "trx_lchan_meas_hist \<Rightarrow> nat \<Rightarrow> trx_meas_set option" where
  "sched_trx_meas_avg hist n =
    (if 0 < n \<and> n \<le> 8 then
       case hist_head hist of
         None \<Rightarrow> None
       | Some h \<Rightarrow>
           (let (toa256_sum, rssi_sum, p) = meas_walk (hist_buf hist) h n
            in Some \<lparr>meas_fn = meas_fn (hist_buf hist ! p),
                     meas_toa256 = ucast (div_by_unsigned toa256_sum n),
                     meas_rssi = ucast (div_by_unsigned rssi_sum n)\<rparr>)
     else None)"

section \<open>The history as a list\<close>

text \<open>
  \<open>hist_models hist past\<close>: \<open>past\<close> are the sets pushed since the allocation, the last
  one first, and the buffer still holds the last eight of them.
\<close>

definition hist_models :: "trx_lchan_meas_hist \<Rightarrow> trx_meas_set list \<Rightarrow> bool" where
  "hist_models hist past \<longleftrightarrow> length (hist_buf hist) = 8 \<and>
    (case hist_head hist of
       None \<Rightarrow> past = []
     | Some h \<Rightarrow> h < 8 \<and> past \<noteq> [] \<and>
         (\<forall>i < 8. i < length past \<longrightarrow> hist_buf hist ! ((h + 8 - i) mod 8) = past ! i))"

lemma hist_models_init: "hist_models meas_hist0 []"
  by (simp add: hist_models_def meas_hist0_def)

lemma ring_index:
  fixes h i :: nat
  assumes "h < 8" "i < 8"
  shows "(h + 8 - i) mod 8 = (if i \<le> h then h - i else h + 8 - i)"
proof (cases "i \<le> h")
  case True
  then have e: "h + 8 - i = (h - i) + 8" by linarith
  show ?thesis using True assms unfolding e mod_add_self2 by simp
qed (use assms in simp)

lemma hist_models_push:
  assumes "hist_models hist past"
  shows "hist_models (sched_trx_meas_push hist m) (m # past)"
proof (cases "hist_head hist")
  case None
  then show ?thesis
    using assms by (simp add: hist_models_def sched_trx_meas_push_def Let_def nth_Cons')
next
  case (Some h)
  define h' where "h' = (if h = 7 then 0 else h + 1)"
  have len: "length (hist_buf hist) = 8" and h: "h < 8"
    and old: "\<And>i. i < 8 \<Longrightarrow> i < length past \<Longrightarrow> hist_buf hist ! ((h + 8 - i) mod 8) = past ! i"
    using assms Some by (simp_all add: hist_models_def)
  have h': "h' < 8" using h by (simp add: h'_def)
  have push: "sched_trx_meas_push hist m
      = hist\<lparr>hist_head := Some h', hist_buf := (hist_buf hist)[h' := m]\<rparr>"
    by (simp add: sched_trx_meas_push_def Some h'_def)
  have "(hist_buf hist)[h' := m] ! ((h' + 8 - i) mod 8) = (m # past) ! i"
    if i: "i < 8" "i < length (m # past)" for i
  proof (cases i)
    case 0
    then show ?thesis using h' len by simp
  next
    case (Suc j)
    with i have j: "j < 8" "j < length past" by simp_all
    have "(h' + 8 - i) mod 8 = (h + 8 - j) mod 8"
      unfolding ring_index [OF h' i(1)] ring_index [OF h j(1)] using h i(1)
      by (auto simp: h'_def Suc)
    moreover have "(h' + 8 - i) mod 8 \<noteq> h'"
      unfolding ring_index [OF h' i(1)] using h' i(1) Suc by auto
    ultimately show ?thesis using old [OF j] by (simp add: Suc)
  qed
  then show ?thesis using h' len by (simp add: push hist_models_def)
qed

lemma meas_walk_models:
  assumes "\<And>i. i < n \<Longrightarrow> buf ! ((h + 8 - i) mod 8) = past ! i"
    and "0 < n" "n \<le> 8" "h < 8" "n \<le> length past"
  shows "meas_walk buf h n =
    (sum_list (map (\<lambda>m. sint (meas_toa256 m)) (take n past)),
     sum_list (map (\<lambda>m. sint (meas_rssi m)) (take n past)), (h + 8 - (n - 1)) mod 8)"
  using assms
proof (induction buf h n arbitrary: past rule: meas_walk.induct)
  case (2 buf pos)
  then show ?case by (cases past) auto
next
  case (3 buf pos n)
  from 3(6) obtain m ms where past: "past = m # ms" by (cases past) auto
  let ?pos = "if pos = 0 then 7 else pos - 1"
  have idx: "(?pos + 8 - i) mod 8 = (pos + 8 - Suc i) mod 8" if "i < Suc n" for i
  proof -
    have "?pos < 8" "i < 8" "Suc i < 8" using that 3(4,5) by auto
    then show ?thesis
      unfolding ring_index [OF \<open>?pos < 8\<close> \<open>i < 8\<close>] ring_index [OF 3(5) \<open>Suc i < 8\<close>]
      using 3(5) by auto
  qed
  have "meas_walk buf ?pos (Suc n) =
    (sum_list (map (\<lambda>m. sint (meas_toa256 m)) (take (Suc n) ms)),
     sum_list (map (\<lambda>m. sint (meas_rssi m)) (take (Suc n) ms)), (?pos + 8 - (Suc n - 1)) mod 8)"
  proof (rule 3(1))
    show "buf ! ((?pos + 8 - i) mod 8) = ms ! i" if "i < Suc n" for i
      using 3(2) [of "Suc i"] that by (simp add: idx past)
  qed (use 3(4-6) past in auto)
  moreover have "buf ! pos = m"
    using 3(2) [of 0] 3(5) by (simp add: past)
  ultimately show ?case using idx [of n] by (simp add: past)
qed simp


lemma hist_models_avg:
  assumes "hist_models hist past" "0 < n" "n \<le> 8" "n \<le> length past"
  shows "sched_trx_meas_avg hist n = Some
    \<lparr>meas_fn = meas_fn (past ! (n - 1)),
     meas_toa256 = ucast (div_by_unsigned (sum_list (map (\<lambda>m. sint (meas_toa256 m)) (take n past))) n),
     meas_rssi = ucast (div_by_unsigned (sum_list (map (\<lambda>m. sint (meas_rssi m)) (take n past))) n)\<rparr>"
proof -
  obtain h where h: "hist_head hist = Some h" "h < 8"
    and past: "\<And>i. i < 8 \<Longrightarrow> i < length past \<Longrightarrow> hist_buf hist ! ((h + 8 - i) mod 8) = past ! i"
    using assms by (cases "hist_head hist") (auto simp: hist_models_def)
  have "hist_buf hist ! ((h + 8 - (n - 1)) mod 8) = past ! (n - 1)"
    using assms by (intro past) simp_all
  moreover have "meas_walk (hist_buf hist) h n =
    (sum_list (map (\<lambda>m. sint (meas_toa256 m)) (take n past)),
     sum_list (map (\<lambda>m. sint (meas_rssi m)) (take n past)), (h + 8 - (n - 1)) mod 8)"
    using assms h by (intro meas_walk_models past) simp_all
  ultimately show ?thesis
    using assms by (simp add: sched_trx_meas_avg_def h)
qed

section \<open>The division\<close>

lemma ucast_drop_bit_word_of_int:
  assumes "LENGTH('a::len) + k \<le> 32"
  shows "(ucast (drop_bit k (word_of_int s :: u32)) :: 'a word) = word_of_int (drop_bit k s)"
  using assms by (intro bit_word_eqI) (auto simp: bit_simps add.commute)

lemma div_by_unsigned_pow2:
  assumes "LENGTH('a::len) + k \<le> 32" "k \<le> 3"
  shows "(ucast (div_by_unsigned s (2 ^ k)) :: 'a word) = word_of_int (s div 2 ^ k)"
proof -
  have "div_by_unsigned s (2 ^ k) = drop_bit k (word_of_int s)"
    by (simp add: div_by_unsigned_def drop_bit_eq_div)
  then show ?thesis
    using ucast_drop_bit_word_of_int [OF assms(1)] by (simp add: drop_bit_eq_div)
qed

text \<open>The mean of values that fit a signed type fits it.\<close>

lemma sum_list_sint_bounds:
  fixes ws :: "'a::len word list"
  shows "- (2 ^ (LENGTH('a) - 1)) * int (length ws) \<le> sum_list (map sint ws)
    \<and> sum_list (map sint ws) \<le> (2 ^ (LENGTH('a) - 1) - 1) * int (length ws)"
proof (induction ws)
  case (Cons w ws)
  have "- (2 ^ (LENGTH('a) - 1)) \<le> sint w" "sint w \<le> 2 ^ (LENGTH('a) - 1) - 1"
    using sint_greater_eq [of w] sint_less [of w] by simp_all
  with Cons show ?case by (simp add: algebra_simps)
qed simp

lemma sint_mean:
  fixes ws :: "'a::len word list"
  assumes "ws \<noteq> []" "LENGTH('a) + k \<le> 32" "k \<le> 3" "length ws = 2 ^ k"
  shows "sint (ucast (div_by_unsigned (sum_list (map sint ws)) (length ws)) :: 'a word)
    = sum_list (map sint ws) div int (length ws)"
proof -
  let ?s = "sum_list (map sint ws)" and ?n = "int (length ws)"
  have n: "0 < ?n" "?n \<noteq> 0" using assms(1) by simp_all
  note b = sum_list_sint_bounds [of ws]
  have "(- (2 ^ (LENGTH('a) - 1)) * ?n) div ?n \<le> ?s div ?n"
    by (rule zdiv_mono1 [OF conjunct1 [OF b] n(1)])
  moreover have "?s div ?n \<le> ((2 ^ (LENGTH('a) - 1) - 1) * ?n) div ?n"
    by (rule zdiv_mono1 [OF conjunct2 [OF b] n(1)])
  ultimately have "- (2 ^ (LENGTH('a) - 1)) \<le> ?s div ?n" "?s div ?n \<le> 2 ^ (LENGTH('a) - 1) - 1"
    unfolding nonzero_mult_div_cancel_right [OF n(2)] .
  moreover have "(ucast (div_by_unsigned ?s (length ws)) :: 'a word) = word_of_int (?s div ?n)"
    using div_by_unsigned_pow2 [OF assms(2,3), of ?s] assms(4) by simp
  ultimately show ?thesis
    by (simp add: sint_sbintrunc' signed_take_bit_int_eq_self)
qed

text \<open>For six entries and a negative sum: $2^{32} = 6 \cdot 715827882 + 4$.\<close>

lemma div_by_unsigned_6:
  assumes "s < 0" "- 4294967296 < s"
  shows "uint (div_by_unsigned s 6) = (s + 4) div 6 + 715827882"
proof -
  have "s mod 4294967296 = s + 4294967296"
    using assms mod_pos_pos_trivial [of "s + 4294967296" 4294967296] by simp
  then have "uint (word_of_int s :: u32) = s + 4294967296"
    by (simp add: uint_word_of_int)
  then have "uint (div_by_unsigned s 6) = (s + 4294967296) div 6"
    by (simp add: div_by_unsigned_def uint_div)
  also have "\<dots> = ((s + 4) + 715827882 * 6) div 6"
    by simp
  also have "\<dots> = (s + 4) div 6 + 715827882"
    by (rule div_mult_self1 [THEN trans]) simp_all
  finally show ?thesis .
qed


section \<open>Properties\<close>

text \<open>
  After any sequence of measurements, the average the handlers of the xCCH, TCH/F and
  PDTCH blocks take over the last four or eight of them is the mean of these measurements,
  rounded down, for the timing and for the signal level, and carries the frame number of the
  first burst of the block, whatever was pushed before and wherever the head of the ring
  buffer is.
\<close>

theorem meas_avg_of_block:
  assumes "hist_models hist past" "n = 4 \<or> n = 8" "n \<le> length past"
  shows "\<exists>m. sched_trx_meas_avg hist n = Some m
    \<and> meas_fn m = meas_fn (past ! (n - 1))
    \<and> sint (meas_toa256 m) = sum_list (map (\<lambda>m. sint (meas_toa256 m)) (take n past)) div int n
    \<and> sint (meas_rssi m) = sum_list (map (\<lambda>m. sint (meas_rssi m)) (take n past)) div int n"
proof -
  obtain k where k: "n = 2 ^ k" "k \<le> 3"
    using assms(2) by (auto intro: that [of 2] that [of 3])
  have n: "0 < n" "n \<le> 8" using assms(2) by auto
  have "map meas_toa256 (take n past) \<noteq> []" "map meas_rssi (take n past) \<noteq> []"
    "length (take n past) = n" using n(1) assms(3) by auto
  then show ?thesis
    using hist_models_avg [OF assms(1) n assms(3)] k
      sint_mean [of "map meas_toa256 (take n past)" k]
      sint_mean [of "map meas_rssi (take n past)" k]
    by (simp add: o_def)
qed

theorem meas_avg_of_block_witness:
  "\<exists>m. sched_trx_meas_avg (fold (\<lambda>m h. sched_trx_meas_push h m)
      [\<lparr>meas_fn = 3, meas_toa256 = 5, meas_rssi = -90\<rparr>, \<lparr>meas_fn = 0, meas_toa256 = 1, meas_rssi = -80\<rparr>,
       \<lparr>meas_fn = 1, meas_toa256 = 2, meas_rssi = -80\<rparr>, \<lparr>meas_fn = 2, meas_toa256 = 3, meas_rssi = -82\<rparr>,
       \<lparr>meas_fn = 3, meas_toa256 = 4, meas_rssi = -83\<rparr>] meas_hist0) 4 = Some m
    \<and> meas_fn m = 0 \<and> sint (meas_rssi m) = -82"
proof -
  let ?ms = "[\<lparr>meas_fn = 3, meas_toa256 = 5, meas_rssi = -90\<rparr>, \<lparr>meas_fn = 0, meas_toa256 = 1, meas_rssi = -80\<rparr>,
    \<lparr>meas_fn = 1, meas_toa256 = 2, meas_rssi = -80\<rparr>, \<lparr>meas_fn = 2, meas_toa256 = 3, meas_rssi = -82\<rparr>,
    \<lparr>meas_fn = 3, meas_toa256 = 4, meas_rssi = -83\<rparr>] :: trx_meas_set list"
  have "hist_models (fold (\<lambda>m h. sched_trx_meas_push h m) ?ms meas_hist0) (rev ?ms)"
    by (simp add: hist_models_push hist_models_init)
  from meas_avg_of_block [OF this, of 4] show ?thesis by auto
qed

text \<open>
  The average over the six bursts of a FACCH/H block is not an average: because the sum
  is divided as an unsigned number, whenever the sum of the six signal levels is negative
  (as dBm values are), the level reported is off by 86 dB or 85 dB modulo 256 from the mean
  rounded down.
\<close>

theorem meas_avg_of_facch_h_off:
  assumes "hist_models hist past" "6 \<le> length past"
    and "sum_list (map (\<lambda>m. sint (meas_rssi m)) (take 6 past)) < 0"
  shows "\<exists>m. sched_trx_meas_avg hist 6 = Some m
    \<and> meas_rssi m \<noteq> word_of_int (sum_list (map (\<lambda>m. sint (meas_rssi m)) (take 6 past)) div 6)
    \<and> meas_rssi m = word_of_int ((sum_list (map (\<lambda>m. sint (meas_rssi m)) (take 6 past)) + 4) div 6 - 86)"
proof -
  let ?s = "sum_list (map (\<lambda>m. sint (meas_rssi m)) (take 6 past))"
  have "- (2 ^ 7) * int (length (take 6 past)) \<le> ?s"
    using sum_list_sint_bounds [of "map meas_rssi (take 6 past)"] by (simp add: o_def)
  then have "- 4294967296 < ?s" using assms(2) by simp
  then have u: "uint (div_by_unsigned ?s 6) = (?s + 4) div 6 + 715827882"
    by (rule div_by_unsigned_6 [OF assms(3)])
  have "ucast (div_by_unsigned ?s 6) = (word_of_int (uint (div_by_unsigned ?s 6)) :: 8 word)"
    by simp
  also have "\<dots> = word_of_int ((?s + 4) div 6 - 86)"
    unfolding u by (simp add: word_of_int_eq_iff take_bit_eq_mod mod_eq_dvd_iff)
  finally have r: "ucast (div_by_unsigned ?s 6) = (word_of_int ((?s + 4) div 6 - 86) :: 8 word)" .
  have "word_of_int ((?s + 4) div 6 - 86) \<noteq> (word_of_int (?s div 6) :: 8 word)"
  proof
    assume "word_of_int ((?s + 4) div 6 - 86) = (word_of_int (?s div 6) :: 8 word)"
    then have "(256::int) dvd (?s + 4) div 6 - 86 - ?s div 6"
      by (simp only: word_of_int_eq_iff take_bit_eq_mod mod_eq_dvd_iff) simp
    moreover have "(?s + 4) div 6 = ?s div 6 \<or> (?s + 4) div 6 = ?s div 6 + 1" by presburger
    ultimately show False by auto
  qed
  with r show ?thesis
    using hist_models_avg [OF assms(1), of 6] assms(2) by simp
qed

theorem meas_avg_of_facch_h_off_witness:
  "\<exists>m. sched_trx_meas_avg (((\<lambda>h. sched_trx_meas_push h \<lparr>meas_fn = 0, meas_toa256 = 0, meas_rssi = -80\<rparr>) ^^ 6)
      meas_hist0) 6 = Some m \<and> sint (meas_rssi m) = 90"
proof -
  let ?m = "\<lparr>meas_fn = 0, meas_toa256 = 0, meas_rssi = -80\<rparr> :: trx_meas_set"
  have "hist_models (((\<lambda>h. sched_trx_meas_push h ?m) ^^ k) meas_hist0) (replicate k ?m)" for k
    by (induction k) (simp_all add: hist_models_init hist_models_push)
  from meas_avg_of_facch_h_off [OF this, of 6] show ?thesis
    by (auto simp: eval_nat_numeral)
qed

end
