(* ===== verification/SchedTchh.thy ===== *)
theory SchedTchh
  imports SchedTypes
begin

text \<open>
  The interleaved TCH/H block maps of \<open>sched_lchan_tchh.c\<close>: on which frames of the
  multiframe a block of a half-rate channel may start or end, and which frame was the first
  one of the downlink block that ends on a given frame.

  The lemmas relate the maps to the multiframe tables of the same program (a block starts
  on a burst of id 0 of the channel, and ends on one of id 1) and to the remap tables of
  \<open>libosmocore\<close>, and locate the frames on which
  \<open>sched_tchh_block_dl_first_fn\<close> answers with a frame inside the block.
\<close>

section \<open>Block maps\<close>

definition tch_h0_traffic_block_map :: "nat list list" where
  "tch_h0_traffic_block_map = [[0, 2, 4, 6], [4, 6, 8, 10], [8, 10, 0, 2]]"

definition tch_h1_traffic_block_map :: "nat list list" where
  "tch_h1_traffic_block_map = [[1, 3, 5, 7], [5, 7, 9, 11], [9, 11, 1, 3]]"

definition tch_h0_dl_facch_block_map :: "nat list list" where
  "tch_h0_dl_facch_block_map =
    [[4, 6, 8, 10, 13, 15], [13, 15, 17, 19, 21, 23], [21, 23, 0, 2, 4, 6]]"

definition tch_h0_ul_facch_block_map :: "nat list list" where
  "tch_h0_ul_facch_block_map =
    [[0, 2, 4, 6, 8, 10], [8, 10, 13, 15, 17, 19], [17, 19, 21, 23, 0, 2]]"

definition tch_h1_dl_facch_block_map :: "nat list list" where
  "tch_h1_dl_facch_block_map =
    [[5, 7, 9, 11, 14, 16], [14, 16, 18, 20, 22, 24], [22, 24, 1, 3, 5, 7]]"

definition tch_h1_ul_facch_block_map :: "nat list list" where
  "tch_h1_ul_facch_block_map =
    [[1, 3, 5, 7, 9, 11], [9, 11, 14, 16, 18, 20], [18, 20, 22, 24, 1, 3]]"

text \<open>The map the nested conditionals of the code choose; \<open>ul\<close> is unused for traffic.\<close>

definition tchh_block_map :: "trx_lchan_type \<Rightarrow> bool \<Rightarrow> bool \<Rightarrow> nat list list" where
  "tchh_block_map chan ul facch =
    (if facch then
       if ul then
         if chan = TRXC_TCHH_0 then tch_h0_ul_facch_block_map else tch_h1_ul_facch_block_map
       else
         if chan = TRXC_TCHH_0 then tch_h0_dl_facch_block_map else tch_h1_dl_facch_block_map
     else if chan = TRXC_TCHH_0 then tch_h0_traffic_block_map else tch_h1_traffic_block_map)"

definition tchh_fn_mf :: "bool \<Rightarrow> u32 \<Rightarrow> nat" where
  "tchh_fn_mf facch fn = (if facch then unat (fn mod 26) else unat (fn mod 13))"

text \<open>\<open>None\<close>: the \<open>OSMO_ASSERT\<close> on the channel fails.\<close>

definition sched_tchh_block_map_fn ::
  "trx_lchan_type \<Rightarrow> u32 \<Rightarrow> bool \<Rightarrow> bool \<Rightarrow> bool \<Rightarrow> bool option" where
  "sched_tchh_block_map_fn chan fn ul facch start =
    (if chan = TRXC_TCHH_0 \<or> chan = TRXC_TCHH_1
     then Some (list_ex (\<lambda>row. (if start then hd row else last row) = tchh_fn_mf facch fn)
       (tchh_block_map chan ul facch))
     else None)"

text \<open>
  In \<open>BLOCK_FIRST_FN\<close> the operands of \<open>GSM_TDMA_FN_DIFF\<close> are \<open>uint8_t\<close>, promoted
  to \<open>int\<close>, and the sums stay far from its limits: natural numbers do here.
\<close>

definition fn_diff_small :: "nat \<Rightarrow> nat \<Rightarrow> nat" where
  "fn_diff_small a b =
    min ((a + GSM_TDMA_HYPERFRAME - b) mod GSM_TDMA_HYPERFRAME)
        ((b + GSM_TDMA_HYPERFRAME - a) mod GSM_TDMA_HYPERFRAME)"

definition sched_tchh_block_dl_first_fn :: "trx_lchan_type \<Rightarrow> u32 \<Rightarrow> bool \<Rightarrow> u32 option" where
  "sched_tchh_block_dl_first_fn chan last_fn facch =
    (if chan = TRXC_TCHH_0 \<or> chan = TRXC_TCHH_1
     then let fn_mf = tchh_fn_mf facch last_fn in
       case find (\<lambda>row. last row = fn_mf) (tchh_block_map chan False facch) of
         Some row \<Rightarrow> Some (gsm_tdma_fn_sub last_fn (of_nat (fn_diff_small fn_mf (hd row))))
       | None \<Rightarrow> Some last_fn
     else None)"

definition sched_tchh_traffic_start :: "trx_lchan_type \<Rightarrow> u32 \<Rightarrow> bool \<Rightarrow> bool option" where
  "sched_tchh_traffic_start chan fn ul = sched_tchh_block_map_fn chan fn ul False True"

definition sched_tchh_facch_start :: "trx_lchan_type \<Rightarrow> u32 \<Rightarrow> bool \<Rightarrow> bool option" where
  "sched_tchh_facch_start chan fn ul = sched_tchh_block_map_fn chan fn ul True True"

definition sched_tchh_facch_end :: "trx_lchan_type \<Rightarrow> u32 \<Rightarrow> bool \<Rightarrow> bool option" where
  "sched_tchh_facch_end chan fn ul = sched_tchh_block_map_fn chan fn ul True False"

lemmas tchh_map_defs = tch_h0_traffic_block_map_def tch_h1_traffic_block_map_def
  tch_h0_dl_facch_block_map_def tch_h0_ul_facch_block_map_def
  tch_h1_dl_facch_block_map_def tch_h1_ul_facch_block_map_def


section \<open>The maps and the frame number\<close>

lemma tchh_fn_mf_alt: "tchh_fn_mf facch fn = unat fn mod (if facch then 26 else 13)"
  by (simp add: tchh_fn_mf_def unat_mod)

text \<open>A block map as a function of the position in the cycle.\<close>

definition block_map_at :: "trx_lchan_type \<Rightarrow> nat \<Rightarrow> bool \<Rightarrow> bool \<Rightarrow> bool \<Rightarrow> bool" where
  "block_map_at chan n ul facch start =
    list_ex (\<lambda>row. (if start then hd row else last row) = n mod (if facch then 26 else 13))
      (tchh_block_map chan ul facch)"

lemma block_map_fn_at:
  "chan \<in> {TRXC_TCHH_0, TRXC_TCHH_1} \<Longrightarrow>
    sched_tchh_block_map_fn chan fn ul facch start
      = Some (block_map_at chan (unat fn) ul facch start)"
  by (auto simp: sched_tchh_block_map_fn_def block_map_at_def tchh_fn_mf_alt)

lemma block_map_at_mod:
  "104 dvd p \<Longrightarrow> block_map_at chan (n mod p) ul facch start = block_map_at chan n ul facch start"
  by (simp add: block_map_at_def mod_mod_cancel dvd_trans [of _ 104])

text \<open>
  A row of the multiframe table agrees with the maps: where a block may start, the burst of
  the channel has id 0, where one may end, it has id 1.
\<close>

definition row_agrees :: "nat \<Rightarrow> trx_frame \<Rightarrow> bool" where
  "row_agrees n f =
    list_all (\<lambda>chan. list_all (\<lambda>facch. list_all (\<lambda>start.
        (block_map_at chan n True facch start \<longrightarrow>
           ul_chan f = chan \<and> ul_bid f = (if start then 0 else 1)) \<and>
        (block_map_at chan n False facch start \<longrightarrow>
           dl_chan f = chan \<and> dl_bid f = (if start then 0 else 1)))
      [True, False]) [True, False]) [TRXC_TCHH_0, TRXC_TCHH_1]"

definition rows_agree :: "trx_frame list \<Rightarrow> bool" where
  "rows_agree fs \<longleftrightarrow> length fs = 104 \<and> list_all (\<lambda>(n, f). row_agrees n f) (enumerate 0 fs)"

lemma tchh_ts01_agree: "rows_agree frame_tchh_ts01"
  by code_simp

lemma tchh_ts23_agree: "rows_agree frame_tchh_ts23"
  by code_simp

lemma tchh_ts45_agree: "rows_agree frame_tchh_ts45"
  by code_simp

lemma tchh_ts67_agree: "rows_agree frame_tchh_ts67"
  by code_simp

lemma tchh_layouts_agree:
  assumes "mf \<in> set layouts" "chan_config mf = GSM_PCHAN_TCH_H"
  shows "period mf = 104 \<and> rows_agree (frames mf)"
proof -
  note tables = tchh_ts01_agree tchh_ts23_agree tchh_ts45_agree tchh_ts67_agree
  have "list_all (\<lambda>mf. chan_config mf = GSM_PCHAN_TCH_H \<longrightarrow>
      period mf = 104 \<and> rows_agree (frames mf)) layouts"
    by (simp add: layouts_def mframe_sel tables)
  then show ?thesis using assms by (simp add: list_all_iff)
qed

lemma frame_at_agrees:
  assumes "mf \<in> set layouts" "chan_config mf = GSM_PCHAN_TCH_H"
  shows "row_agrees (n mod 104) (frame_at mf n)"
proof -
  have rows: "period mf = 104" "length (frames mf) = 104"
    "list_all (\<lambda>(n, f). row_agrees n f) (enumerate 0 (frames mf))"
    using tchh_layouts_agree [OF assms] by (simp_all add: rows_agree_def)
  then have "(n mod 104, frames mf ! (n mod 104)) \<in> set (enumerate 0 (frames mf))"
    by (simp add: in_set_enumerate_eq)
  with rows show ?thesis
    unfolding list_all_iff frame_at_def by fastforce
qed

section \<open>The first frame of a downlink block\<close>

abbreviation tchh_cycle :: "bool \<Rightarrow> nat" where
  "tchh_cycle facch \<equiv> if facch then 26 else 13"

lemma tchh_rows:
  assumes "row \<in> set (tchh_block_map chan False facch)"
  shows "hd row < tchh_cycle facch" "last row < tchh_cycle facch" "hd row \<noteq> last row"
    and "find (\<lambda>r. last r = last row) (tchh_block_map chan False facch) = Some row"
    and "last row < hd row \<Longrightarrow> (last row + last row) mod tchh_cycle facch \<noteq> (hd row + hd row) mod tchh_cycle facch"
  using assms by (auto simp: tchh_block_map_def tchh_map_defs split: if_splits)

lemma fn_diff_small_eq:
  assumes "a < 100" "b < 100"
  shows "fn_diff_small a b = (if a \<le> b then b - a else a - b)"
proof -
  have "(a + GSM_TDMA_HYPERFRAME - b) mod GSM_TDMA_HYPERFRAME
      = (if b \<le> a then a - b else a + GSM_TDMA_HYPERFRAME - b)"
    and "(b + GSM_TDMA_HYPERFRAME - a) mod GSM_TDMA_HYPERFRAME
      = (if a \<le> b then b - a else b + GSM_TDMA_HYPERFRAME - a)"
    using assms by (auto simp: mod_if)
  then show ?thesis using assms by (auto simp: fn_diff_small_def)
qed

lemma dl_first_fn_row:
  assumes "chan \<in> {TRXC_TCHH_0, TRXC_TCHH_1}"
    and "row \<in> set (tchh_block_map chan False facch)"
    and "unat fn mod tchh_cycle facch = last row"
  shows "sched_tchh_block_dl_first_fn chan fn facch = Some (gsm_tdma_fn_sub fn (of_nat
    (if hd row \<le> last row then last row - hd row else hd row - last row)))"
proof -
  have "hd row < 100" "last row < 100"
    using tchh_rows(1,2) [OF assms(2)] by (auto split: if_splits)
  then have d: "fn_diff_small (last row) (hd row)
      = (if hd row \<le> last row then last row - hd row else hd row - last row)"
    by (simp add: fn_diff_small_eq)
  have "tchh_fn_mf facch fn = last row"
    using assms(3) by (simp add: tchh_fn_mf_alt)
  then show ?thesis
    using assms(1) tchh_rows(4) [OF assms(2)] d by (auto simp: sched_tchh_block_dl_first_fn_def)
qed


lemma dl_first_fn_position:
  assumes "chan \<in> {TRXC_TCHH_0, TRXC_TCHH_1}"
    and row: "row \<in> set (tchh_block_map chan False facch)"
    and "valid_fn fn" "unat fn mod tchh_cycle facch = last row"
  obtains f where "sched_tchh_block_dl_first_fn chan fn facch = Some f" "valid_fn f"
    "hd row < last row \<Longrightarrow> unat f mod tchh_cycle facch = hd row
      \<and> unat (gsm_tdma_fn_sub fn f) < tchh_cycle facch"
    "last row < hd row \<Longrightarrow> unat f mod tchh_cycle facch \<noteq> hd row"
proof -
  let ?c = "tchh_cycle facch"
  let ?d = "if hd row \<le> last row then last row - hd row else hd row - last row"
  let ?f = "gsm_tdma_fn_sub fn (of_nat ?d)"
  note r = tchh_rows [OF row]
  have c: "?c dvd GSM_TDMA_HYPERFRAME" "?c \<le> 26" by simp_all
  have d: "?d < ?c" using r(1,2) by (auto split: if_splits)
  then have d_hf: "?d < GSM_TDMA_HYPERFRAME" using c(2) by linarith
  have "unat ?f mod ?c = (unat fn + GSM_TDMA_HYPERFRAME - ?d) mod ?c"
    by (rule fn_back_mod [OF assms(3) d_hf c(1)])
  also have "\<dots> = (last row + ?c - ?d) mod ?c"
    using mod_add_multiple_diff [OF c(1), of ?d "unat fn"] d c(2) assms(4) by simp
  finally have pos: "unat ?f mod ?c = (last row + ?c - ?d) mod ?c" .
  have small: "unat (of_nat n :: u32) = n" if "n < GSM_TDMA_HYPERFRAME" for n
    using that by (simp add: unat_of_nat)
  have dist: "unat (gsm_tdma_fn_sub fn ?f) = ?d"
    unfolding fn_back_distance [OF assms(3) d_hf] by (rule small [OF d_hf])
  show thesis
  proof (rule that)
    show "sched_tchh_block_dl_first_fn chan fn facch = Some ?f"
      by (rule dl_first_fn_row [OF assms(1,2,4)])
    show "valid_fn ?f" by simp
    show "unat ?f mod ?c = hd row \<and> unat (gsm_tdma_fn_sub fn ?f) < ?c" if "hd row < last row"
      using pos d that r(1) unfolding dist by (simp del: of_nat_diff)
    show "unat ?f mod ?c \<noteq> hd row" if wrap: "last row < hd row"
    proof
      assume "unat ?f mod ?c = hd row"
      then have e: "(last row + ?c - (hd row - last row)) mod ?c = hd row"
        using pos wrap by simp
      have "hd row < ?c" by (rule r(1))
      then have "last row + ?c - (hd row - last row) + hd row = last row + last row + ?c"
        using wrap by linarith
      then have "(hd row + hd row) mod ?c = (last row + last row + ?c) mod ?c"
        by (metis e mod_add_left_eq)
      then show False using r(5) [OF wrap] by simp
    qed
  qed
qed

section \<open>Properties\<close>

text \<open>
  The block maps of the TCH/H handlers agree with the multiframe tables of the
  scheduler: on every timeslot and every frame of the hyperframe on which
  \<open>sched_tchh_block_map_fn\<close> lets a block of a half-rate channel start, in either
  direction, for traffic and for FACCH/H, the table schedules the burst with id 0 of that
  very channel, and on every frame on which it lets one end, the burst with id 1.
\<close>

theorem tchh_block_map_matches_mframe:
  assumes "mf \<in> set layouts" "chan_config mf = GSM_PCHAN_TCH_H"
    and "sched_tchh_block_map_fn chan fn ul facch start = Some True"
  shows "(if ul then ul_chan (frame_at mf (unat fn)) = chan
             \<and> ul_bid (frame_at mf (unat fn)) = (if start then 0 else 1)
          else dl_chan (frame_at mf (unat fn)) = chan
             \<and> dl_bid (frame_at mf (unat fn)) = (if start then 0 else 1))"
proof -
  from assms(3) have chan: "chan \<in> {TRXC_TCHH_0, TRXC_TCHH_1}"
    by (auto simp: sched_tchh_block_map_fn_def split: if_splits)
  with assms(3) have "block_map_at chan (unat fn mod 104) ul facch start"
    by (simp add: block_map_fn_at block_map_at_mod)
  with frame_at_agrees [OF assms(1,2), of "unat fn"] chan show ?thesis
    unfolding row_agrees_def by (cases facch; cases start; cases ul; auto)
qed

theorem tchh_block_map_matches_mframe_witness:
  "\<exists>mf \<in> set layouts. ul_chan (frame_at mf 2609) = TRXC_TCHH_1 \<and> ul_bid (frame_at mf 2609) = 0"
proof -
  let ?mf = "mframe GSM_PCHAN_TCH_H ''TCH/H+SACCH'' 104 0x0c m64_tchh frame_tchh_ts23"
  have mf: "?mf \<in> set layouts"
    by (simp only: layouts_def list.set insert_iff simp_thms)
  have "sched_tchh_block_map_fn TRXC_TCHH_1 2609 True True True = Some True"
    by (simp add: sched_tchh_block_map_fn_def tchh_block_map_def tchh_map_defs tchh_fn_mf_alt)
  from tchh_block_map_matches_mframe [OF mf _ this] mf show ?thesis
    by (auto simp: mframe_sel)
qed

text \<open>
  C6. \<open>sched_tchh_block_dl_first_fn\<close>, given the last frame of a downlink block, names the
  first frame of that block exactly when the block does not wrap around the end of its
  cycle of 13 (traffic) or 26 (FACCH/H) frames: then the answer sits at the block's first
  position and less than a cycle back. For the block that wraps the answer is a frame at
  another position, because the distance of the two positions is taken without the cycle.
\<close>

theorem tchh_block_dl_first_fn_exact:
  assumes "chan \<in> {TRXC_TCHH_0, TRXC_TCHH_1}" "row \<in> set (tchh_block_map chan False facch)"
    and "valid_fn fn" "unat fn mod tchh_cycle facch = last row"
  shows "\<exists>f. sched_tchh_block_dl_first_fn chan fn facch = Some f \<and> valid_fn f
    \<and> (unat f mod tchh_cycle facch = hd row \<longleftrightarrow> hd row < last row)
    \<and> (hd row < last row \<longrightarrow> unat (gsm_tdma_fn_sub fn f) < tchh_cycle facch)"
proof -
  have "hd row \<noteq> last row" by (rule tchh_rows(3) [OF assms(2)])
  then consider "hd row < last row" | "last row < hd row" by linarith
  then show ?thesis
    by (cases; rule dl_first_fn_position [OF assms]; auto)
qed

theorem tchh_block_dl_first_fn_exact_witness:
  "(\<exists>f. sched_tchh_block_dl_first_fn TRXC_TCHH_0 1306 False = Some f \<and> unat f mod 13 = 0)
    \<and> (\<exists>f. sched_tchh_block_dl_first_fn TRXC_TCHH_0 1315 False = Some f \<and> unat f mod 13 \<noteq> 8)"
  using tchh_block_dl_first_fn_exact [of TRXC_TCHH_0 "[0, 2, 4, 6]" False 1306]
    tchh_block_dl_first_fn_exact [of TRXC_TCHH_0 "[8, 10, 0, 2]" False 1315]
  by (auto simp: tchh_block_map_def tchh_map_defs)

end
