(* ===== verification/SchedPrim.thy ===== *)
theory SchedPrim
  imports SchedTchh
begin

text \<open>
  The transmit queue of a timeslot (\<open>sched_prim.c\<close>): allocation of primitives, the
  selection of the primitive to send next on a logical channel (the SACCH rule on
  measurement reports, the stealing of traffic frames by FACCH/F and FACCH/H, the plain
  first-in first-out rule of the other channels), and the dummy primitives of continuous
  transmission; with \<open>sched_bad_frame_ind\<close> of \<open>sched_lchan_common.c\<close>.

  The locale \<open>chan_dequeue\<close> states what every selection rule promises to the rest of
  the queue; each rule is an interpretation of it.
\<close>

section \<open>Classes of primitives\<close>

text \<open>\<open>sizeof(struct l1ctl_ext_rach_req)\<close> is 6, \<open>sizeof(struct l1ctl_rach_req)\<close> is 4.\<close>

definition prim_is_rach11 :: "trx_ts_prim \<Rightarrow> bool" where
  "prim_is_rach11 p \<longleftrightarrow> payload_len p = 6"

definition prim_is_rach8 :: "trx_ts_prim \<Rightarrow> bool" where
  "prim_is_rach8 p \<longleftrightarrow> payload_len p = 4"

definition prim_is_rach :: "trx_ts_prim \<Rightarrow> bool" where
  "prim_is_rach p \<longleftrightarrow> prim_is_rach8 p \<or> prim_is_rach11 p"

definition prim_is_tch :: "trx_ts_prim \<Rightarrow> bool" where
  "prim_is_tch p \<longleftrightarrow> chan_is_tch (prim_chan p) \<and> payload_len p \<noteq> GSM_MACBLOCK_LEN"

definition prim_is_facch :: "trx_ts_prim \<Rightarrow> bool" where
  "prim_is_facch p \<longleftrightarrow> chan_is_tch (prim_chan p) \<and> payload_len p = GSM_MACBLOCK_LEN"

definition tch_mode_is_speech :: "u8 \<Rightarrow> bool" where
  "tch_mode_is_speech m \<longleftrightarrow> m = GSM48_CMODE_SPEECH_V1 \<or> m = GSM48_CMODE_SPEECH_EFR
    \<or> m = GSM48_CMODE_SPEECH_AMR"

definition tch_mode_is_data :: "u8 \<Rightarrow> bool" where
  "tch_mode_is_data m \<longleftrightarrow> m = 0x0f \<or> m = 0x03 \<or> m = 0x0b \<or> m = 0x13"

text \<open>
  \<open>PRIM_IS_MR\<close> looks at octets 5 and 6 of the payload without looking at its length.
\<close>

definition prim_is_mr :: "trx_ts_prim \<Rightarrow> bool option" where
  "prim_is_mr p = do {
     b5 \<leftarrow> mem_at (payload p) 5;
     if b5 = 0x06 then do { b6 \<leftarrow> mem_at (payload p) 6; Some (b6 = 0x15) } else Some False
   }"

section \<open>Allocation\<close>

text \<open>
  The header of a primitive takes 32 octets; the size of the memory to allocate is computed
  in a \<open>uint8_t\<close>. Writing the header into less memory than it needs is \<open>None\<close>.
\<close>

definition sched_prim_init :: "nat \<Rightarrow> u8 \<Rightarrow> u8 \<Rightarrow> (int + trx_ts_prim) option" where
  "sched_prim_init pl_len chan_nr link_id =
    (let lchan_type = sched_trx_chan_nr2lchan_type chan_nr link_id;
         len = (32 :: u8) + of_nat pl_len
     in if lchan_type = TRXC_IDLE then Some (Inl (- EINVAL))
        else if unat len < 32 then None
        else Some (Inr \<lparr>prim_chan = lchan_type, payload_len = pl_len,
                        payload = replicate (unat len - 32) 0\<rparr>))"

text \<open>The array of timeslots is that of the instance; \<open>tn\<close> comes out of three bits.\<close>

definition sched_prim_push ::
  "trx_ts option list \<Rightarrow> trx_ts_prim \<Rightarrow> u8 \<Rightarrow> (int \<times> trx_ts option list) option" where
  "sched_prim_push tss prim chan_nr =
    (let tn = unat (chan_nr AND 0x7) in
     do { slot \<leftarrow> mem_at tss tn;
       case slot of
         None \<Rightarrow> Some (- EINVAL, tss)
       | Some ts \<Rightarrow>
           if mf_layout ts = None then Some (- EINVAL, tss)
           else do { q \<leftarrow> tx_prims ts;
                     Some (0, tss[tn := Some (ts\<lparr>tx_prims := Some (q @ [prim])\<rparr>)]) } })"

section \<open>SACCH\<close>

definition meas_rep_dummy :: "u8 list" where
  "meas_rep_dummy = [0x0f, 0x00, 0x01, 0x03, 0x49, 0x06, 0x15, 0x36, 0x76, 0x01, 0xc0,
     0x00, 0x00, 0x00, 0x00, 0x00, 0x00, 0x00, 0x00, 0x00, 0x00, 0x00, 0x00]"

text \<open>\<open>mr_cache\<close> is an array of \<open>GSM_MACBLOCK_LEN\<close> octets.\<close>

definition mr_cached :: "trx_lchan_state \<Rightarrow> bool" where
  "mr_cached lchan \<longleftrightarrow>
    mr_cache lchan ! 2 \<noteq> 0 \<and> mr_cache lchan ! 3 \<noteq> 0 \<and> mr_cache lchan ! 4 \<noteq> 0"

definition prim_compose_mr ::
  "'a trx_phy_scheme \<Rightarrow> trx_lchan_state \<Rightarrow> (trx_ts_prim \<times> trx_lchan_state) option" where
  "prim_compose_mr trx lchan = do {
     r \<leftarrow> sched_prim_init GSM_MACBLOCK_LEN (ld_chan_nr (trx_lchan_desc (lchan_type lchan))) 0x40;
     prim \<leftarrow> (case r of Inl rc \<Rightarrow> None | Inr p \<Rightarrow> Some p);
     let cached = mr_cached lchan;
         lchan' = (if cached then lchan\<lparr>mr_cache_usage := mr_cache_usage lchan + 1\<rparr> else lchan);
         src = (if cached then mr_cache lchan else meas_rep_dummy)
     in do {
       pl \<leftarrow> mem_write (payload prim) 0 src;
       let pl' = (if cached then pl else pl[0 := tx_power trx, 1 := ta trx])
       in Some (prim\<lparr>payload := pl'\<rparr>, lchan')
     }
   }"

text \<open>
  The search loop: the positions in the queue of \<open>prim_mr\<close> and \<open>prim_nmr\<close>, from
  position \<open>i\<close> on.
\<close>

fun sacch_scan :: "trx_lchan_type \<Rightarrow> bool \<Rightarrow> trx_ts_prim list \<Rightarrow> nat \<Rightarrow> nat option \<Rightarrow> nat option
    \<Rightarrow> (nat option \<times> nat option) option" where
  "sacch_scan chan mr_now [] i mr nmr = Some (mr, nmr)"
| "sacch_scan chan mr_now (p # ps) i mr nmr =
    (if prim_chan p \<noteq> chan then sacch_scan chan mr_now ps (Suc i) mr nmr
     else do {
       is_mr \<leftarrow> prim_is_mr p;
       let mr' = (if mr = None \<and> is_mr then Some i else mr);
           nmr' = (if nmr = None \<and> \<not> is_mr then Some i else nmr)
       in if mr_now \<and> mr' \<noteq> None \<or> \<not> mr_now \<and> nmr' \<noteq> None then Some (mr', nmr')
          else sacch_scan chan mr_now ps (Suc i) mr' nmr'
     })"

definition sacch_pick :: "bool \<Rightarrow> nat option \<Rightarrow> nat option \<Rightarrow> nat option" where
  "sacch_pick mr_now mr nmr =
    (if mr_now \<and> mr \<noteq> None then mr
     else if \<not> mr_now \<and> nmr \<noteq> None then nmr
     else if \<not> mr_now \<and> mr \<noteq> None then mr
     else None)"

definition remove_nth :: "nat \<Rightarrow> 'b list \<Rightarrow> 'b list" where
  "remove_nth i xs = take i xs @ drop (Suc i) xs"

definition prim_dequeue_sacch ::
  "'a trx_phy_scheme \<Rightarrow> trx_ts_prim list \<Rightarrow> trx_lchan_state
     \<Rightarrow> (trx_ts_prim \<times> trx_ts_prim list \<times> trx_lchan_state) option" where
  "prim_dequeue_sacch trx queue lchan =
    (let mr_now = \<not> mr_tx_last lchan in do {
       (mr, nmr) \<leftarrow> sacch_scan (lchan_type lchan) mr_now queue 0 None None;
       (prim, queue', lchan') \<leftarrow>
         (case sacch_pick mr_now mr nmr of
            Some i \<Rightarrow> Some (queue ! i, remove_nth i queue, lchan)
          | None \<Rightarrow> do { (p, l) \<leftarrow> prim_compose_mr trx lchan; Some (p, queue, l) });
       lchan'' \<leftarrow>
         (if sacch_pick mr_now mr nmr \<noteq> None \<and> sacch_pick mr_now mr nmr = mr
          then do { c \<leftarrow> mem_read (payload prim) 0 GSM_MACBLOCK_LEN;
                    Some (lchan'\<lparr>mr_cache := c, mr_cache_usage := 0\<rparr>) }
          else Some lchan');
       is_mr \<leftarrow> prim_is_mr prim;
       Some (prim, queue', lchan''\<lparr>mr_tx_last := is_mr\<rparr>)
     })"

section \<open>The other channels\<close>

definition prim_dequeue_one ::
  "trx_ts_prim list \<Rightarrow> trx_lchan_type \<Rightarrow> trx_ts_prim option \<times> trx_ts_prim list" where
  "prim_dequeue_one queue chan =
    (find (\<lambda>p. prim_chan p = chan) queue, remove_first (\<lambda>p. prim_chan p = chan) queue)"

definition prim_dequeue_tch ::
  "trx_ts_prim list \<Rightarrow> trx_lchan_type \<Rightarrow> bool \<Rightarrow> trx_ts_prim option \<times> trx_ts_prim list" where
  "prim_dequeue_tch queue chan facch =
    (find (\<lambda>p. prim_chan p = chan \<and> prim_is_facch p = facch) queue,
     remove_first (\<lambda>p. prim_chan p = chan \<and> prim_is_facch p = facch) queue)"

definition prim_dequeue_tch_f :: "trx_ts_prim list \<Rightarrow> trx_ts_prim option \<times> trx_ts_prim list" where
  "prim_dequeue_tch_f queue =
    (let (facch, q1) = prim_dequeue_tch queue TRXC_TCHF True;
         (tch, q2) = prim_dequeue_tch q1 TRXC_TCHF False
     in (if facch \<noteq> None then facch else tch, q2))"

definition prim_dequeue_tch_h ::
  "trx_ts_prim list \<Rightarrow> u32 \<Rightarrow> trx_lchan_type \<Rightarrow> (trx_ts_prim option \<times> trx_ts_prim list) option" where
  "prim_dequeue_tch_h queue fn chan = do {
     facch_now \<leftarrow> sched_tchh_facch_start chan fn True;
     if \<not> facch_now then Some (prim_dequeue_tch queue chan False)
     else let (facch, q1) = prim_dequeue_tch queue chan True in
       if facch = None then Some (prim_dequeue_tch q1 chan False)
       else let (tch, q2) = prim_dequeue_tch q1 chan False in
         if tch = None then Some (facch, q2)
         else let (tch', q3) = prim_dequeue_tch q2 chan False in Some (facch, q3)
   }"

definition sched_prim_dequeue ::
  "'a trx_phy_scheme \<Rightarrow> trx_ts_prim list \<Rightarrow> u32 \<Rightarrow> trx_lchan_state
     \<Rightarrow> (trx_ts_prim option \<times> trx_ts_prim list \<times> trx_lchan_state) option" where
  "sched_prim_dequeue trx queue fn lchan =
    (let chan = lchan_type lchan in
     if chan_is_sacch chan then
       do { (p, q, l) \<leftarrow> prim_dequeue_sacch trx queue lchan; Some (Some p, q, l) }
     else if queue = [] then Some (None, queue, lchan)
     else if chan = TRXC_TCHF then
       (let (p, q) = prim_dequeue_tch_f queue in Some (p, q, lchan))
     else if chan = TRXC_TCHH_0 \<or> chan = TRXC_TCHH_1 then
       do { (p, q) \<leftarrow> prim_dequeue_tch_h queue fn chan; Some (p, q, lchan) }
     else (let (p, q) = prim_dequeue_one queue chan in Some (p, q, lchan)))"

definition sched_prim_drop :: "trx_lchan_state \<Rightarrow> trx_lchan_state" where
  "sched_prim_drop lchan = lchan\<lparr>cur_prim := None\<rparr>"

section \<open>Dummy primitives\<close>

text \<open>The octets written and their number are the list and its length.\<close>

definition sched_bad_frame_ind :: "trx_lchan_state \<Rightarrow> u8 list" where
  "sched_bad_frame_ind lchan =
    (if tch_mode lchan = GSM48_CMODE_SPEECH_V1 then
       if lchan_type lchan = TRXC_TCHF then 0xd0 # replicate (GSM_FR_BYTES - 1) 0
       else 0x70 # replicate GSM_HR_BYTES 0
     else if tch_mode lchan = GSM48_CMODE_SPEECH_EFR then 0xc0 # replicate (GSM_EFR_BYTES - 1) 0
     else [])"

text \<open>\<open>rnd i\<close> is what the \<open>i\<close>-th call of \<open>rand\<close> leaves in an octet.\<close>

definition sched_prim_dummy :: "(nat \<Rightarrow> u8) \<Rightarrow> trx_lchan_state \<Rightarrow> (int \<times> trx_lchan_state) option" where
  "sched_prim_dummy rnd lchan =
    (let chan = lchan_type lchan in
     if cur_prim lchan \<noteq> None \<or> chan_is_sacch chan then None
     else if chan_is_tch chan \<and> \<not> tch_mode_is_speech (tch_mode lchan) \<and> tch_mode_is_data (tch_mode lchan)
     then Some (0, lchan)
     else let buf = (if chan_is_tch chan \<and> tch_mode_is_speech (tch_mode lchan)
                     then sched_bad_frame_ind lchan
                     else [0x01, 0x03, 0x01, 0x2b] @ map rnd [0..<19])
       in if buf = [] then Some (0, lchan)
          else Some (0, lchan\<lparr>cur_prim := Some \<lparr>prim_chan = chan, payload_len = length buf,
                                                 payload = buf\<rparr>\<rparr>))"

text \<open>The loop that frees every entry leaves an empty list; on a zeroed head it crashes.\<close>

definition sched_prim_flush_queue :: "trx_ts_prim list option \<Rightarrow> trx_ts_prim list option" where
  "sched_prim_flush_queue q = do { _ \<leftarrow> q; Some [] }"


section \<open>Well formed queues\<close>

text \<open>
  Every primitive owns the memory it claims, and one for a SACCH is a full L2 frame: the
  code reads the message type and copies 23 octets without looking at the length.
\<close>

definition wf_prim :: "trx_ts_prim \<Rightarrow> bool" where
  "wf_prim p \<longleftrightarrow> length (payload p) = payload_len p
    \<and> (chan_is_sacch (prim_chan p) \<longrightarrow> GSM_MACBLOCK_LEN \<le> payload_len p)"

abbreviation wf_queue :: "trx_ts_prim list \<Rightarrow> bool" where
  "wf_queue q \<equiv> \<forall>p \<in> set q. wf_prim p"

definition mr_payload :: "u8 list \<Rightarrow> bool" where
  "mr_payload pl \<longleftrightarrow> pl ! 5 = 0x06 \<and> pl ! 6 = 0x15"

abbreviation is_mr :: "trx_ts_prim \<Rightarrow> bool" where
  "is_mr p \<equiv> mr_payload (payload p)"

lemma prim_is_mr_eq: "6 < length (payload p) \<Longrightarrow> prim_is_mr p = Some (is_mr p)"
  by (simp add: prim_is_mr_def mr_payload_def mem_at_def)

lemma remove_first_wf: "wf_queue q \<Longrightarrow> wf_queue (remove_first P q)"
  using set_remove_first by fastforce

section \<open>Positions\<close>

fun first_idx :: "('b \<Rightarrow> bool) \<Rightarrow> nat \<Rightarrow> 'b list \<Rightarrow> nat option" where
  "first_idx P i [] = None"
| "first_idx P i (x # xs) = (if P x then Some i else first_idx P (Suc i) xs)"

lemma first_idx_None_iff: "first_idx P i xs = None \<longleftrightarrow> find P xs = None"
  by (induction xs arbitrary: i) auto

lemma first_idx_Some:
  "first_idx P i xs = Some k \<Longrightarrow> i \<le> k \<and> k - i < length xs
    \<and> find P xs = Some (xs ! (k - i)) \<and> remove_first P xs = remove_nth (k - i) xs"
proof (induction xs arbitrary: i)
  case (Cons x xs)
  show ?case
  proof (cases "P x")
    case False
    with Cons.prems Cons.IH [of "Suc i"] have "Suc i \<le> k" "k - Suc i < length xs"
      "find P xs = Some (xs ! (k - Suc i))" "remove_first P xs = remove_nth (k - Suc i) xs"
      by auto
    moreover from this(1) have "k - i = Suc (k - Suc i)" by linarith
    ultimately show ?thesis using False by (simp add: remove_nth_def)
  qed (use Cons.prems in \<open>simp add: remove_nth_def\<close>)
qed simp

lemma first_idx_holds: "first_idx P 0 xs = Some k \<Longrightarrow> k < length xs \<and> P (xs ! k)"
  using first_idx_Some [of P 0 xs k] find_SomeD [of P xs "xs ! k"] by auto

section \<open>The SACCH rule\<close>

abbreviation mr_of :: "trx_lchan_type \<Rightarrow> trx_ts_prim \<Rightarrow> bool" where
  "mr_of chan p \<equiv> prim_chan p = chan \<and> is_mr p"

abbreviation nmr_of :: "trx_lchan_type \<Rightarrow> trx_ts_prim \<Rightarrow> bool" where
  "nmr_of chan p \<equiv> prim_chan p = chan \<and> \<not> is_mr p"

abbreviation readable :: "trx_lchan_type \<Rightarrow> trx_ts_prim list \<Rightarrow> bool" where
  "readable chan q \<equiv> \<forall>p \<in> set q. prim_chan p = chan \<longrightarrow> 6 < length (payload p)"

lemma sacch_scan_mr:
  "readable chan ps \<Longrightarrow>
    \<exists>nmr'. sacch_scan chan True ps i None nmr = Some (first_idx (mr_of chan) i ps, nmr')"
  by (induction ps arbitrary: i nmr) (auto simp: prim_is_mr_eq)

lemma sacch_scan_nmr:
  assumes "readable chan ps" "\<And>j. mr = Some j \<Longrightarrow> j < i"
  shows "\<exists>mr'. sacch_scan chan False ps i mr None = Some (mr', first_idx (nmr_of chan) i ps)
    \<and> (first_idx (nmr_of chan) i ps = None \<longrightarrow>
         mr' = (if mr = None then first_idx (mr_of chan) i ps else mr))
    \<and> (\<forall>k. first_idx (nmr_of chan) i ps = Some k \<longrightarrow> mr' \<noteq> Some k)"
  using assms
proof (induction ps arbitrary: i mr)
  case (Cons p ps)
  let ?mr = "if prim_chan p = chan \<and> mr = None then Some i else mr"
  have IH: "\<exists>mr'. sacch_scan chan False ps (Suc i) m None
        = Some (mr', first_idx (nmr_of chan) (Suc i) ps)
    \<and> (first_idx (nmr_of chan) (Suc i) ps = None \<longrightarrow>
         mr' = (if m = None then first_idx (mr_of chan) (Suc i) ps else m))
    \<and> (\<forall>k. first_idx (nmr_of chan) (Suc i) ps = Some k \<longrightarrow> mr' \<noteq> Some k)"
    if "m = mr \<or> m = Some i" for m
    using that Cons.prems by (intro Cons.IH) (auto dest: less_SucI)
  show ?case
  proof (cases "nmr_of chan p")
    case True
    then show ?thesis using Cons.prems by (auto simp: prim_is_mr_eq)
  next
    case False
    show ?thesis
    proof (cases "prim_chan p = chan")
      case True
      with False Cons.prems have "prim_is_mr p = Some True" "is_mr p"
        by (simp_all add: prim_is_mr_eq)
      then show ?thesis using IH [of ?mr] True by (cases mr) auto
    next
      case other: False
      then show ?thesis using IH [of mr] by (cases mr) simp_all
    qed
  qed
qed auto

text \<open>What the rule selects from the queue, if anything.\<close>

definition sacch_choice :: "trx_lchan_type \<Rightarrow> bool \<Rightarrow> trx_ts_prim list \<Rightarrow> (trx_ts_prim \<Rightarrow> bool)" where
  "sacch_choice chan mr_now q =
    (if \<not> mr_now \<and> find (nmr_of chan) q \<noteq> None then nmr_of chan else mr_of chan)"

lemma sacch_choice_chan: "sacch_choice chan mr_now q p \<Longrightarrow> prim_chan p = chan"
  by (simp add: sacch_choice_def split: if_splits)

lemma sacch_pick_spec:
  assumes "readable chan q"
  obtains mr nmr where "sacch_scan chan mr_now q 0 None None = Some (mr, nmr)"
    "sacch_pick mr_now mr nmr = first_idx (sacch_choice chan mr_now q) 0 q"
    "\<And>i. sacch_pick mr_now mr nmr = Some i \<Longrightarrow> mr = Some i \<longleftrightarrow> is_mr (q ! i)"
proof (cases mr_now)
  case True
  obtain nmr where "sacch_scan chan True q 0 None None = Some (first_idx (mr_of chan) 0 q, nmr)"
    using sacch_scan_mr [OF assms] by blast
  with True show thesis
    by (intro that) (auto simp: sacch_pick_def sacch_choice_def dest: first_idx_holds
      split: if_splits)
next
  case False
  let ?nmr = "first_idx (nmr_of chan) 0 q"
  obtain mr where mr: "sacch_scan chan False q 0 None None = Some (mr, ?nmr)"
    "?nmr = None \<Longrightarrow> mr = first_idx (mr_of chan) 0 q" "\<And>k. ?nmr = Some k \<Longrightarrow> mr \<noteq> Some k"
    using sacch_scan_nmr [OF assms, of None 0] by auto
  show thesis
  proof (cases ?nmr)
    case None
    then have "find (nmr_of chan) q = None" by (simp add: first_idx_None_iff)
    then have c: "sacch_choice chan False q = mr_of chan" by (simp add: sacch_choice_def)
    show thesis
      using False mr None by (intro that [of mr ?nmr])
        (auto simp: sacch_pick_def c dest: first_idx_holds split: if_splits)
  next
    case (Some k)
    then have k: "find (nmr_of chan) q = Some (q ! k)" by (auto dest: first_idx_Some)
    then have "\<not> is_mr (q ! k)" by (auto dest: find_SomeD)
    with False mr Some k show thesis
      by (intro that [of mr ?nmr]) (auto simp: sacch_pick_def sacch_choice_def)
  qed
qed


text \<open>Composing a report always succeeds on a SACCH and yields a report.\<close>

definition cache_ok :: "trx_lchan_state \<Rightarrow> bool" where
  "cache_ok lchan \<longleftrightarrow> length (mr_cache lchan) = GSM_MACBLOCK_LEN
    \<and> (mr_cached lchan \<longrightarrow> mr_payload (mr_cache lchan))"

lemma sched_prim_init_sacch:
  assumes "chan_is_sacch c"
  shows "sched_prim_init GSM_MACBLOCK_LEN (ld_chan_nr (trx_lchan_desc c)) 0x40 =
    Some (Inr \<lparr>prim_chan = c, payload_len = GSM_MACBLOCK_LEN,
                payload = replicate GSM_MACBLOCK_LEN 0\<rparr>)"
proof -
  have "c \<noteq> TRXC_IDLE" using assms by (auto simp: chan_is_sacch_def)
  then show ?thesis by (simp add: sched_prim_init_def sacch_desc_type [OF assms])
qed

definition composed_mr :: "'a trx_phy_scheme \<Rightarrow> trx_lchan_state \<Rightarrow> u8 list" where
  "composed_mr trx lchan =
    (if mr_cached lchan then mr_cache lchan
     else meas_rep_dummy[0 := tx_power trx, 1 := ta trx])"

lemma prim_compose_mr_spec:
  assumes "chan_is_sacch (lchan_type lchan)" "cache_ok lchan"
  shows "prim_compose_mr trx lchan = Some
    (\<lparr>prim_chan = lchan_type lchan, payload_len = GSM_MACBLOCK_LEN, payload = composed_mr trx lchan\<rparr>,
     if mr_cached lchan then lchan\<lparr>mr_cache_usage := mr_cache_usage lchan + 1\<rparr> else lchan)"
proof -
  have "length meas_rep_dummy = 23" by (simp add: meas_rep_dummy_def)
  then show ?thesis
    using assms by (simp add: prim_compose_mr_def sched_prim_init_sacch mem_write_def blit_def
      cache_ok_def composed_mr_def Let_def)
qed

lemma composed_mr_props:
  assumes "cache_ok lchan"
  shows "length (composed_mr trx lchan) = GSM_MACBLOCK_LEN" "mr_payload (composed_mr trx lchan)"
  using assms
  by (auto simp: composed_mr_def cache_ok_def mr_payload_def meas_rep_dummy_def)

text \<open>The whole selection.\<close>

definition sacch_next ::
  "'a trx_phy_scheme \<Rightarrow> trx_ts_prim list \<Rightarrow> trx_lchan_state
     \<Rightarrow> trx_ts_prim \<times> trx_ts_prim list \<times> trx_lchan_state" where
  "sacch_next trx q lchan =
    (let P = sacch_choice (lchan_type lchan) (\<not> mr_tx_last lchan) q in
     case find P q of
       Some p \<Rightarrow>
         (p, remove_first P q,
          if is_mr p then lchan\<lparr>mr_cache := take GSM_MACBLOCK_LEN (payload p), mr_cache_usage := 0,
                                mr_tx_last := True\<rparr>
          else lchan\<lparr>mr_tx_last := False\<rparr>)
     | None \<Rightarrow>
         (\<lparr>prim_chan = lchan_type lchan, payload_len = GSM_MACBLOCK_LEN,
           payload = composed_mr trx lchan\<rparr>, q,
          if mr_cached lchan
          then lchan\<lparr>mr_cache_usage := mr_cache_usage lchan + 1, mr_tx_last := True\<rparr>
          else lchan\<lparr>mr_tx_last := True\<rparr>))"

lemma prim_dequeue_sacch_spec:
  assumes sacch: "chan_is_sacch (lchan_type lchan)" and cache: "cache_ok lchan" and q: "wf_queue q"
  shows "prim_dequeue_sacch trx q lchan = Some (sacch_next trx q lchan)"
proof -
  let ?c = "lchan_type lchan" and ?now = "\<not> mr_tx_last lchan"
  let ?P = "sacch_choice ?c ?now q"
  have len: "GSM_MACBLOCK_LEN \<le> length (payload p)" if "p \<in> set q" "prim_chan p = ?c" for p
    using q sacch that by (auto simp: wf_prim_def)
  then have "readable ?c q" by fastforce
  then obtain mr nmr where scan: "sacch_scan ?c ?now q 0 None None = Some (mr, nmr)"
    and pick: "sacch_pick ?now mr nmr = first_idx ?P 0 q"
    and upd: "\<And>i. sacch_pick ?now mr nmr = Some i \<Longrightarrow> mr = Some i \<longleftrightarrow> is_mr (q ! i)"
    by (rule sacch_pick_spec [where mr_now = ?now]) (rule that)
  show ?thesis
  proof (cases "first_idx ?P 0 q")
    case None
    then have "find ?P q = None" by (simp add: first_idx_None_iff)
    moreover have "prim_is_mr \<lparr>prim_chan = ?c, payload_len = GSM_MACBLOCK_LEN,
        payload = composed_mr trx lchan\<rparr> = Some True"
      using composed_mr_props [OF cache, of trx] by (simp add: prim_is_mr_eq)
    ultimately show ?thesis
      using scan pick None
      by (simp add: prim_dequeue_sacch_def prim_compose_mr_spec [OF sacch cache] sacch_next_def)
  next
    case (Some i)
    have idx: "find ?P q = Some (q ! i)" "remove_first ?P q = remove_nth i q"
      using first_idx_Some [OF Some] by simp_all
    from first_idx_holds [OF Some] have "q ! i \<in> set q" "prim_chan (q ! i) = ?c"
      by (auto dest: sacch_choice_chan)
    then have l: "GSM_MACBLOCK_LEN \<le> length (payload (q ! i))" by (rule len)
    then have m: "prim_is_mr (q ! i) = Some (is_mr (q ! i))" by (simp add: prim_is_mr_eq)
    show ?thesis
      using scan pick Some upd [of i] idx l m
      by (auto simp: prim_dequeue_sacch_def sacch_next_def mem_read_def)
  qed
qed


lemma sacch_next_props:
  assumes "chan_is_sacch (lchan_type lchan)" "cache_ok lchan" "wf_queue q"
    and "sacch_next trx q lchan = (p, q', lchan')"
  shows "prim_chan p = lchan_type lchan" "wf_prim p"
    "filter (\<lambda>r. prim_chan r \<noteq> lchan_type lchan) q' = filter (\<lambda>r. prim_chan r \<noteq> lchan_type lchan) q"
    "set q' \<subseteq> set q" "length q \<le> Suc (length q')"
    "cache_ok lchan'" "mr_tx_last lchan' = is_mr p" "lchan_type lchan' = lchan_type lchan"
    "\<not> mr_tx_last lchan \<Longrightarrow> is_mr p"
proof -
  let ?c = "lchan_type lchan"
  let ?P = "sacch_choice ?c (\<not> mr_tx_last lchan) q"
  note cm = composed_mr_props [OF assms(2), of trx]
  have P: "prim_chan r = ?c" if "?P r" for r using that by (rule sacch_choice_chan)
  consider (none) "find ?P q = None" | (some) r where "find ?P q = Some r" by (cases "find ?P q") auto
  then have "prim_chan p = ?c \<and> wf_prim p \<and> cache_ok lchan' \<and> mr_tx_last lchan' = is_mr p
    \<and> lchan_type lchan' = ?c \<and> (\<not> mr_tx_last lchan \<longrightarrow> is_mr p)
    \<and> (q' = q \<or> q' = remove_first ?P q)"
  proof cases
    case none
    with assms(2,4) cm show ?thesis
      by (auto simp: sacch_next_def wf_prim_def cache_ok_def mr_cached_def split: if_splits)
  next
    case (some r)
    then have r: "r \<in> set q" "?P r" by (auto dest: find_SomeD)
    then have "wf_prim r" "prim_chan r = ?c" using assms(3) P by auto
    then have l: "GSM_MACBLOCK_LEN \<le> length (payload r)" using assms(1) by (auto simp: wf_prim_def)
    have now: "is_mr r" if "\<not> mr_tx_last lchan"
      using r(2) that by (simp add: sacch_choice_def)
    show ?thesis
      using assms(2,4) some l now \<open>wf_prim r\<close> \<open>prim_chan r = ?c\<close>
      by (auto simp: sacch_next_def cache_ok_def mr_cached_def mr_payload_def split: if_splits)
  qed
  moreover have "filter (\<lambda>r. prim_chan r \<noteq> ?c) (remove_first ?P q) = filter (\<lambda>r. prim_chan r \<noteq> ?c) q"
    by (rule filter_remove_first_other) (use P in auto)
  moreover have "set (remove_first ?P q) \<subseteq> set q" by (rule set_remove_first)
  moreover have "length q \<le> Suc (length (remove_first ?P q))" by (auto simp: length_remove_first)
  ultimately show "prim_chan p = ?c" "wf_prim p" "cache_ok lchan'" "mr_tx_last lchan' = is_mr p"
    "lchan_type lchan' = ?c" "\<not> mr_tx_last lchan \<Longrightarrow> is_mr p"
    "filter (\<lambda>r. prim_chan r \<noteq> ?c) q' = filter (\<lambda>r. prim_chan r \<noteq> ?c) q"
    "set q' \<subseteq> set q" "length q \<le> Suc (length q')"
    by auto
qed

section \<open>What every selection rule promises\<close>

text \<open>
  A selection rule of a channel, on a state \<open>'s\<close> it reads: under the rule's precondition
  it does not crash, it returns a primitive of its channel, it leaves the primitives of the
  other channels alone and in order, and it takes at most three primitives off the queue
  (a FACCH/H frame replaces two traffic frames).
\<close>

locale chan_dequeue =
  fixes deq :: "'s \<Rightarrow> trx_ts_prim list \<Rightarrow> (trx_ts_prim option \<times> trx_ts_prim list) option"
    and chan :: trx_lchan_type
    and pre :: "'s \<Rightarrow> trx_ts_prim list \<Rightarrow> bool"
  assumes deq_total: "pre s q \<Longrightarrow> deq s q \<noteq> None"
    and deq_chan: "pre s q \<Longrightarrow> deq s q = Some (Some p, q') \<Longrightarrow> prim_chan p = chan"
    and deq_other: "pre s q \<Longrightarrow> deq s q = Some (r, q') \<Longrightarrow>
      filter (\<lambda>p. prim_chan p \<noteq> chan) q' = filter (\<lambda>p. prim_chan p \<noteq> chan) q"
    and deq_subset: "pre s q \<Longrightarrow> deq s q = Some (r, q') \<Longrightarrow> set q' \<subseteq> set q"
    and deq_amount: "pre s q \<Longrightarrow> deq s q = Some (r, q') \<Longrightarrow> length q \<le> length q' + 3"
begin

lemma deq_wf: "pre s q \<Longrightarrow> deq s q = Some (r, q') \<Longrightarrow> wf_queue q \<Longrightarrow> wf_queue q'"
  using deq_subset by blast

lemma deq_keeps_other:
  assumes "pre s q" "deq s q = Some (r, q')" "c \<noteq> chan"
  shows "filter (\<lambda>p. prim_chan p = c) q' = filter (\<lambda>p. prim_chan p = c) q"
proof -
  have "filter (\<lambda>p. prim_chan p = c) q = filter (\<lambda>p. prim_chan p = c) (filter (\<lambda>p. prim_chan p \<noteq> chan) q)"
    for q using assms(3) by (induction q) auto
  then show ?thesis using deq_other [OF assms(1,2)] by metis
qed

end

lemma chan_dequeue_find:
  assumes "\<And>p. P p \<Longrightarrow> prim_chan p = c"
  shows "find P q = Some p \<Longrightarrow> prim_chan p = c"
    "filter (\<lambda>p. prim_chan p \<noteq> c) (remove_first P q) = filter (\<lambda>p. prim_chan p \<noteq> c) q"
    "length q \<le> Suc (length (remove_first P q))"
  using assms by (auto dest: find_SomeD intro!: filter_remove_first_other simp: length_remove_first)

interpretation one: chan_dequeue "\<lambda>_ q. Some (prim_dequeue_one q c)" c "\<lambda>_ _. True" for c
proof unfold_locales
  note facts = chan_dequeue_find [where P = "\<lambda>p. prim_chan p = c" and c = c]
  fix q r q' p
  show "prim_chan p = c" if "Some (prim_dequeue_one q c) = Some (Some p, q')"
    using that facts(1) [of q p] by (simp add: prim_dequeue_one_def)
  assume "Some (prim_dequeue_one q c) = Some (r, q')"
  then have q': "q' = remove_first (\<lambda>p. prim_chan p = c) q" by (simp add: prim_dequeue_one_def)
  show "filter (\<lambda>p. prim_chan p \<noteq> c) q' = filter (\<lambda>p. prim_chan p \<noteq> c) q"
    "length q \<le> length q' + 3"
    using facts(2,3) [of q] by (auto simp: q')
  show "set q' \<subseteq> set q" unfolding q' by (rule set_remove_first)
qed simp


lemma prim_dequeue_tch_props:
  assumes "prim_dequeue_tch q c f = (r, q')"
  shows "r = Some p \<Longrightarrow> prim_chan p = c \<and> prim_is_facch p = f"
    "filter (\<lambda>p. prim_chan p \<noteq> c) q' = filter (\<lambda>p. prim_chan p \<noteq> c) q"
    "set q' \<subseteq> set q" "length q \<le> Suc (length q')"
  using assms chan_dequeue_find [where P = "\<lambda>p. prim_chan p = c \<and> prim_is_facch p = f" and c = c and q = q]
    set_remove_first [of "\<lambda>p. prim_chan p = c \<and> prim_is_facch p = f" q]
  by (auto simp: prim_dequeue_tch_def dest: find_SomeD)

interpretation tch_f: chan_dequeue "\<lambda>_ q. Some (prim_dequeue_tch_f q)" TRXC_TCHF "\<lambda>_ _. True"
proof unfold_locales
  fix q
  obtain facch q1 tch q2 where d: "prim_dequeue_tch q TRXC_TCHF True = (facch, q1)"
    "prim_dequeue_tch q1 TRXC_TCHF False = (tch, q2)" by fastforce
  note p = prim_dequeue_tch_props [OF d(1)] prim_dequeue_tch_props [OF d(2)]
  fix r q' x
  show "prim_chan x = TRXC_TCHF" if "Some (prim_dequeue_tch_f q) = Some (Some x, q')"
    using that p(1) [of x] p(5) [of x] d by (auto simp: prim_dequeue_tch_f_def split: if_splits)
  assume "Some (prim_dequeue_tch_f q) = Some (r, q')"
  then have "q' = q2" using d by (simp add: prim_dequeue_tch_f_def)
  then show "filter (\<lambda>p. prim_chan p \<noteq> TRXC_TCHF) q' = filter (\<lambda>p. prim_chan p \<noteq> TRXC_TCHF) q"
    "set q' \<subseteq> set q" "length q \<le> length q' + 3"
    using p by auto
qed simp

interpretation tch_h: chan_dequeue "\<lambda>fn q. prim_dequeue_tch_h q fn c" c
  "\<lambda>_ _. c \<in> {TRXC_TCHH_0, TRXC_TCHH_1}" for c
proof unfold_locales
  fix fn q
  assume c: "c \<in> {TRXC_TCHH_0, TRXC_TCHH_1}"
  then obtain now where now: "sched_tchh_facch_start c fn True = Some now"
    by (auto simp: sched_tchh_facch_start_def block_map_fn_at)
  obtain facch q1 tch q2 tch' q3 t0 q0 where d: "prim_dequeue_tch q c True = (facch, q1)"
    "prim_dequeue_tch q1 c False = (tch, q2)" "prim_dequeue_tch q2 c False = (tch', q3)"
    "prim_dequeue_tch q c False = (t0, q0)" by fastforce
  note p = d [THEN prim_dequeue_tch_props(1)] d [THEN prim_dequeue_tch_props(2)]
    d [THEN prim_dequeue_tch_props(3)] d [THEN prim_dequeue_tch_props(4)]
  note deq = prim_dequeue_tch_h_def now d
  show "prim_dequeue_tch_h q fn c \<noteq> None" by (simp add: deq)
  fix r q' x
  show "prim_chan x = c" if "prim_dequeue_tch_h q fn c = Some (Some x, q')"
    using that p(1-4) by (auto simp: deq split: if_splits)
  assume r: "prim_dequeue_tch_h q fn c = Some (r, q')"
  then have "q' \<in> {q0, q1, q2, q3}" by (auto simp: deq split: if_splits)
  then show "filter (\<lambda>p. prim_chan p \<noteq> c) q' = filter (\<lambda>p. prim_chan p \<noteq> c) q"
    "set q' \<subseteq> set q" "length q \<le> length q' + 3"
    using p(5-) by auto
qed

interpretation sacch: chan_dequeue
  "\<lambda>(trx, lchan) q. map_option (\<lambda>(p, q', _). (Some p, q')) (prim_dequeue_sacch trx q lchan)" c
  "\<lambda>(trx, lchan) q. lchan_type lchan = c \<and> chan_is_sacch c \<and> cache_ok lchan \<and> wf_queue q" for c
proof (unfold_locales, goal_cases)
  case (1 s q)
  then show ?case by (cases s) (auto simp: prim_dequeue_sacch_spec)
next
  case (2 s q p q')
  then show ?case
    using sacch_next_props(1) by (cases s) (fastforce simp: prim_dequeue_sacch_spec)
next
  case (3 s q r q')
  then show ?case
    using sacch_next_props(3) by (cases s) (fastforce simp: prim_dequeue_sacch_spec)
next
  case (4 s q r q')
  then show ?case
    using sacch_next_props(4) by (cases s) (fastforce simp: prim_dequeue_sacch_spec)
next
  case (5 s q r q')
  then show ?case
    using sacch_next_props(5) by (cases s) (fastforce simp: prim_dequeue_sacch_spec)
qed

text \<open>The dispatcher, for a channel of any type.\<close>

definition dequeue_pre :: "trx_lchan_type \<Rightarrow> trx_lchan_state \<Rightarrow> trx_ts_prim list \<Rightarrow> bool" where
  "dequeue_pre c lchan q \<longleftrightarrow>
    lchan_type lchan = c \<and> (chan_is_sacch c \<longrightarrow> cache_ok lchan) \<and> wf_queue q"


lemma sched_prim_dequeue_unfold:
  assumes "dequeue_pre c lchan q"
  shows "sched_prim_dequeue trx q fn lchan =
    (if chan_is_sacch c
     then map_option (\<lambda>(p, q', l). (Some p, q', l)) (prim_dequeue_sacch trx q lchan)
     else map_option (\<lambda>(p, q'). (p, q', lchan))
       (if c = TRXC_TCHF then Some (prim_dequeue_tch_f q)
        else if c \<in> {TRXC_TCHH_0, TRXC_TCHH_1} then
          if q = [] then Some (None, []) else prim_dequeue_tch_h q fn c
        else Some (prim_dequeue_one q c)))"
proof -
  have "prim_dequeue_tch_f [] = (None, [])" "prim_dequeue_one [] c = (None, [])"
    by (simp_all add: prim_dequeue_tch_f_def prim_dequeue_tch_def prim_dequeue_one_def)
  then show ?thesis
    using assms
    by (cases "prim_dequeue_sacch trx q lchan"; cases "prim_dequeue_tch_h q fn c")
      (auto simp: sched_prim_dequeue_def dequeue_pre_def split: prod.splits)
qed

lemma sched_prim_dequeue_proj:
  assumes "dequeue_pre c lchan q"
  shows "map_option (\<lambda>(p, q', _). (p, q')) (sched_prim_dequeue trx q fn lchan) =
    (if chan_is_sacch c
     then map_option (\<lambda>(p, q', _). (Some p, q')) (prim_dequeue_sacch trx q lchan)
     else if c = TRXC_TCHF then Some (prim_dequeue_tch_f q)
     else if c \<in> {TRXC_TCHH_0, TRXC_TCHH_1} then
       if q = [] then Some (None, []) else prim_dequeue_tch_h q fn c
     else Some (prim_dequeue_one q c))"
  unfolding sched_prim_dequeue_unfold [OF assms] option.map_comp if_distrib [of "map_option _"]
  by (simp add: o_def case_prod_unfold option.map_ident cong: if_cong)

interpretation deq: chan_dequeue
  "\<lambda>(trx, fn, lchan) q. map_option (\<lambda>(p, q', _). (p, q')) (sched_prim_dequeue trx q fn lchan)" c
  "\<lambda>(trx, fn, lchan) q. dequeue_pre c lchan q" for c
proof (unfold_locales, goal_cases)
  case (1 s q)
  obtain trx fn lchan where s: "s = (trx, fn, lchan)" by (cases s)
  with 1 have pre: "dequeue_pre c lchan q" by simp
  then show ?case
    using sacch.deq_total [of c "(trx, lchan)" q] tch_h.deq_total [of c q fn]
    unfolding s prod.case sched_prim_dequeue_proj [OF pre] dequeue_pre_def
    by (auto simp del: not_None_eq)
next
  case (2 s q p q')
  obtain trx fn lchan where s: "s = (trx, fn, lchan)" by (cases s)
  with 2 have pre: "dequeue_pre c lchan q" by simp
  from 2(2) show ?case
    using pre sacch.deq_chan [of c "(trx, lchan)" q p q'] tch_h.deq_chan [of c q fn p q']
      tch_f.deq_chan [of q p q'] one.deq_chan [of q c p q']
    unfolding s prod.case sched_prim_dequeue_proj [OF pre] dequeue_pre_def
    by (simp split: if_splits)
next
  case (3 s q r q')
  obtain trx fn lchan where s: "s = (trx, fn, lchan)" by (cases s)
  with 3 have pre: "dequeue_pre c lchan q" by simp
  from 3(2) show ?case
    using pre sacch.deq_other [of c "(trx, lchan)" q r q'] tch_h.deq_other [of c q fn r q']
      tch_f.deq_other [of q r q'] one.deq_other [of q c r q']
    unfolding s prod.case sched_prim_dequeue_proj [OF pre] dequeue_pre_def
    by (simp split: if_splits)
next
  case (4 s q r q')
  obtain trx fn lchan where s: "s = (trx, fn, lchan)" by (cases s)
  with 4 have pre: "dequeue_pre c lchan q" by simp
  from 4(2) show ?case
    using pre sacch.deq_subset [of c "(trx, lchan)" q r q'] tch_h.deq_subset [of c q fn r q']
      tch_f.deq_subset [of q r q'] one.deq_subset [of q c r q']
    unfolding s prod.case sched_prim_dequeue_proj [OF pre] dequeue_pre_def
    by (simp split: if_splits)
next
  case (5 s q r q')
  obtain trx fn lchan where s: "s = (trx, fn, lchan)" by (cases s)
  with 5 have pre: "dequeue_pre c lchan q" by simp
  from 5(2) show ?case
    using pre sacch.deq_amount [of c "(trx, lchan)" q r q'] tch_h.deq_amount [of c q fn r q']
      tch_f.deq_amount [of q r q'] one.deq_amount [of q c r q']
    unfolding s prod.case sched_prim_dequeue_proj [OF pre] dequeue_pre_def
    by (simp split: if_splits)
qed

text \<open>The channel state a selection leaves: only the SACCH state can change.\<close>

lemma sched_prim_dequeue_lchan:
  assumes "dequeue_pre c lchan q" "sched_prim_dequeue trx q fn lchan = Some (p, q', lchan')"
  shows "(\<exists>ca u t. lchan' = lchan\<lparr>mr_cache := ca, mr_cache_usage := u, mr_tx_last := t\<rparr>)
    \<and> dequeue_pre c lchan' q'
    \<and> (\<forall>r. p = Some r \<longrightarrow> prim_chan r = c \<and> wf_prim r)"
proof (cases "chan_is_sacch c")
  case True
  with assms(1) have pre: "chan_is_sacch (lchan_type lchan)" "cache_ok lchan" "wf_queue q"
    by (auto simp: dequeue_pre_def)
  have d: "sched_prim_dequeue trx q fn lchan
      = map_option (\<lambda>(p, q', l). (Some p, q', l)) (prim_dequeue_sacch trx q lchan)"
    using sched_prim_dequeue_unfold [OF assms(1)] True by simp
  then obtain r where r: "sacch_next trx q lchan = (r, q', lchan')" "p = Some r"
    using assms(2) by (cases "sacch_next trx q lchan") (auto simp: prim_dequeue_sacch_spec [OF pre])
  have "lchan' = lchan\<lparr>mr_cache := mr_cache lchan', mr_cache_usage := mr_cache_usage lchan',
      mr_tx_last := mr_tx_last lchan'\<rparr>"
    using r(1) by (auto simp: sacch_next_def Let_def split: option.splits if_splits)
  then show ?thesis
    using sacch_next_props [OF pre r(1)] assms(1) pre(3) r(2) True
    by (fastforce simp: dequeue_pre_def)
next
  case False
  have s: "map_option (\<lambda>(p, q', _). (p, q')) (sched_prim_dequeue trx q fn lchan) = Some (p, q')"
    using assms(2) by simp
  have "wf_queue q" using assms(1) by (simp add: dequeue_pre_def)
  then have q': "wf_queue q'" using deq.deq_wf [of c "(trx, fn, lchan)" q p q'] assms(1) s by simp
  have l: "lchan' = lchan"
    using assms False by (auto simp: sched_prim_dequeue_unfold)
  have "r \<in> set q" if "p = Some r" for r
    using assms that False
    by (auto simp: sched_prim_dequeue_unfold prim_dequeue_tch_f_def prim_dequeue_tch_def
        prim_dequeue_one_def prim_dequeue_tch_h_def bind_Some_iff dest: find_SomeD
        subsetD [OF set_remove_first] split: if_splits)
  then show ?thesis
    using \<open>wf_queue q\<close> q' l assms(1) deq.deq_chan [of c "(trx, fn, lchan)" q _ q'] s
    by (cases lchan) (auto simp: dequeue_pre_def)
qed


section \<open>Runs on a SACCH\<close>

text \<open>
  A run: before each selection the given primitives are pushed. The result is what was sent,
  the queue and the channel state at the end.
\<close>

fun sacch_run :: "'a trx_phy_scheme \<Rightarrow> trx_lchan_state \<Rightarrow> trx_ts_prim list \<Rightarrow> trx_ts_prim list list
    \<Rightarrow> (trx_ts_prim list \<times> trx_ts_prim list \<times> trx_lchan_state) option" where
  "sacch_run trx lchan q [] = Some ([], q, lchan)"
| "sacch_run trx lchan q (ps # pss) = do {
     (p, q', lchan') \<leftarrow> prim_dequeue_sacch trx (q @ ps) lchan;
     (sent, q'', lchan'') \<leftarrow> sacch_run trx lchan' q' pss;
     Some (p # sent, q'', lchan'')
   }"

fun alternates :: "('b \<Rightarrow> bool) \<Rightarrow> bool \<Rightarrow> 'b list \<Rightarrow> bool" where
  "alternates P prev [] = True"
| "alternates P prev (x # xs) \<longleftrightarrow> (prev \<or> P x) \<and> alternates P (P x) xs"

lemma alternates_nth:
  "alternates P prev xs \<Longrightarrow> Suc i < length xs \<Longrightarrow> P (xs ! i) \<or> P (xs ! Suc i)"
proof (induction xs arbitrary: prev i)
  case (Cons x xs)
  then show ?case by (cases i; cases xs) auto
qed simp

lemma sacch_next_nmr:
  assumes "sacch_next trx q lchan = (p, q', lchan')" "cache_ok lchan"
  shows "filter (nmr_of (lchan_type lchan)) q
      = (if is_mr p then [] else [p]) @ filter (nmr_of (lchan_type lchan)) q'"
    and "mr_tx_last lchan \<Longrightarrow> filter (nmr_of (lchan_type lchan)) q \<noteq> [] \<Longrightarrow> \<not> is_mr p"
proof -
  let ?c = "lchan_type lchan"
  let ?P = "sacch_choice ?c (\<not> mr_tx_last lchan) q"
  note cm = composed_mr_props(2) [OF assms(2), of trx]
  have no: "filter (nmr_of ?c) (remove_first (mr_of ?c) q) = filter (nmr_of ?c) q"
    by (rule filter_remove_first_other) simp
  have f: "find (nmr_of ?c) q = (case filter (nmr_of ?c) q of [] \<Rightarrow> None | x # _ \<Rightarrow> Some x)"
    by (rule find_filter)
  have fr: "filter (nmr_of ?c) (remove_first (nmr_of ?c) q) = tl (filter (nmr_of ?c) q)"
    by (rule filter_remove_first)
  show "filter (nmr_of ?c) q = (if is_mr p then [] else [p]) @ filter (nmr_of ?c) q'"
  proof (cases "mr_tx_last lchan \<and> find (nmr_of ?c) q \<noteq> None")
    case True
    then obtain r rs where r: "filter (nmr_of ?c) q = r # rs"
      using f by (cases "filter (nmr_of ?c) q") auto
    then have "\<not> is_mr r" by (metis (no_types, lifting) filter_eq_ConsD)
    with True r f fr assms(1) show ?thesis
      by (auto simp: sacch_next_def sacch_choice_def)
  next
    case False
    then have P: "?P = mr_of ?c" by (auto simp: sacch_choice_def)
    have "is_mr p \<and> filter (nmr_of ?c) q' = filter (nmr_of ?c) q"
    proof (cases "find (mr_of ?c) q")
      case None
      with P cm assms(1) show ?thesis by (auto simp: sacch_next_def split: if_splits)
    next
      case (Some r)
      then have "is_mr r" by (auto dest: find_SomeD)
      with P Some no assms(1) show ?thesis by (auto simp: sacch_next_def split: if_splits)
    qed
    then show ?thesis by simp
  qed
  assume "mr_tx_last lchan" and ne: "filter (nmr_of ?c) q \<noteq> []"
  moreover from ne f obtain r where r: "find (nmr_of ?c) q = Some r"
    by (cases "filter (nmr_of ?c) q") auto
  moreover from r have "\<not> is_mr r" by (auto dest: find_SomeD)
  ultimately show "\<not> is_mr p"
    using assms(1) by (auto simp: sacch_next_def sacch_choice_def)
qed

lemma sacch_run_spec:
  assumes "chan_is_sacch (lchan_type lchan)" "cache_ok lchan" "wf_queue q"
    and "\<forall>ps \<in> set pss. wf_queue ps"
  shows "\<exists>sent q' lchan'. sacch_run trx lchan q pss = Some (sent, q', lchan')
    \<and> length sent = length pss
    \<and> alternates is_mr (mr_tx_last lchan) sent
    \<and> filter (nmr_of (lchan_type lchan)) (q @ concat pss)
        = filter (\<lambda>p. \<not> is_mr p) sent @ filter (nmr_of (lchan_type lchan)) q'"
  using assms
proof (induction pss arbitrary: lchan q)
  case (Cons ps pss)
  let ?c = "lchan_type lchan"
  obtain p q1 l1 where n: "sacch_next trx (q @ ps) lchan = (p, q1, l1)"
    by (cases "sacch_next trx (q @ ps) lchan")
  have wf: "wf_queue (q @ ps)" using Cons.prems by auto
  note d = prim_dequeue_sacch_spec [OF Cons.prems(1,2) wf, of trx, unfolded n]
  note p = sacch_next_props [OF Cons.prems(1,2) wf n]
  have "wf_queue q1" using p(4) wf by blast
  with p Cons.prems Cons.IH [of l1 q1]
  obtain sent q' l' where run: "sacch_run trx l1 q1 pss = Some (sent, q', l')"
    "length sent = length pss" "alternates is_mr (is_mr p) sent"
    "filter (nmr_of ?c) (q1 @ concat pss) = filter (\<lambda>p. \<not> is_mr p) sent @ filter (nmr_of ?c) q'"
    by (auto simp: p(7,8))
  have "filter (nmr_of ?c) (q @ concat (ps # pss))
      = filter (nmr_of ?c) (q @ ps) @ filter (nmr_of ?c) (concat pss)" by simp
  also have "\<dots> = (if is_mr p then [] else [p]) @ filter (nmr_of ?c) (q1 @ concat pss)"
    unfolding sacch_next_nmr(1) [OF n Cons.prems(2)] by simp
  also have "\<dots> = filter (\<lambda>p. \<not> is_mr p) (p # sent) @ filter (nmr_of ?c) q'"
    unfolding run(4) by simp
  finally show ?case
    using d p(9) run by (auto simp: bind_Some_iff)
qed simp

text \<open>Progress: two turns send at least one of the frames that are waiting.\<close>

lemma sacch_run_progress:
  assumes "chan_is_sacch (lchan_type lchan)" "cache_ok lchan" "wf_queue q"
    and "\<forall>ps \<in> set pss. wf_queue ps" "sacch_run trx lchan q pss = Some (sent, q', lchan')"
    and "k \<le> length (filter (nmr_of (lchan_type lchan)) q)"
    and "2 * k \<le> length pss + (if mr_tx_last lchan then 1 else 0)"
  shows "k \<le> length (filter (\<lambda>p. \<not> is_mr p) sent)"
  using assms
proof (induction pss arbitrary: lchan q k sent)
  case (Cons ps pss)
  let ?c = "lchan_type lchan"
  obtain p q1 l1 where n: "sacch_next trx (q @ ps) lchan = (p, q1, l1)"
    by (cases "sacch_next trx (q @ ps) lchan")
  have wf: "wf_queue (q @ ps)" using Cons.prems by auto
  note d = prim_dequeue_sacch_spec [OF Cons.prems(1,2) wf, of trx, unfolded n]
  note p = sacch_next_props [OF Cons.prems(1,2) wf n]
  note nmr = sacch_next_nmr [OF n Cons.prems(2)]
  have wf1: "wf_queue q1" using p(4) wf by blast
  from Cons.prems(5) d obtain sent1 where s: "sent = p # sent1"
    "sacch_run trx l1 q1 pss = Some (sent1, q', lchan')"
    by (auto simp: bind_Some_iff)
  have len: "length (filter (nmr_of ?c) q) + length (filter (nmr_of ?c) ps)
      = (if is_mr p then 0 else 1) + length (filter (nmr_of ?c) q1)"
    using arg_cong [OF nmr(1), of length] by simp
  have IH: "j \<le> length (filter (\<lambda>p. \<not> is_mr p) sent1)"
    if "j \<le> length (filter (nmr_of ?c) q1)" "2 * j \<le> length pss + (if is_mr p then 1 else 0)" for j
    using Cons.IH [of l1 q1 sent1 j] that p wf1 Cons.prems(1,4) s(2) by auto
  show ?case
  proof (cases "is_mr p")
    case True
    show ?thesis
    proof (cases "mr_tx_last lchan \<and> 0 < k")
      case both: True
      then have "filter (nmr_of ?c) (q @ ps) \<noteq> []" using Cons.prems(6) by auto
      with nmr(2) both True show ?thesis by blast
    next
      case False
      then have "2 * k \<le> length pss + 1" using Cons.prems(7) by (cases "k = 0") auto
      with IH [of k] len True Cons.prems(6) s(1) show ?thesis by simp
    qed
  next
    case False
    have "k - 1 \<le> length (filter (nmr_of ?c) q1)" using len False Cons.prems(6) by simp
    moreover have "2 * (k - 1) \<le> length pss" using Cons.prems(7) by (auto split: if_splits)
    ultimately show ?thesis using IH [of "k - 1"] False s(1) by simp
  qed
qed (auto split: if_splits)


section \<open>FACCH and traffic\<close>

abbreviation facch_of :: "trx_lchan_type \<Rightarrow> trx_ts_prim \<Rightarrow> bool" where
  "facch_of chan p \<equiv> prim_chan p = chan \<and> prim_is_facch p"

abbreviation traffic_of :: "trx_lchan_type \<Rightarrow> trx_ts_prim \<Rightarrow> bool" where
  "traffic_of chan p \<equiv> prim_chan p = chan \<and> \<not> prim_is_facch p"

lemma prim_dequeue_tch_filter:
  "prim_dequeue_tch q c True = (case filter (facch_of c) q of [] \<Rightarrow> None | x # _ \<Rightarrow> Some x,
     remove_first (facch_of c) q)"
  "prim_dequeue_tch q c False = (case filter (traffic_of c) q of [] \<Rightarrow> None | x # _ \<Rightarrow> Some x,
     remove_first (traffic_of c) q)"
  by (simp_all add: prim_dequeue_tch_def find_filter)

lemma filter_remove_tch:
  "filter (facch_of c) (remove_first (facch_of c) q) = tl (filter (facch_of c) q)"
  "filter (traffic_of c) (remove_first (traffic_of c) q) = tl (filter (traffic_of c) q)"
  "filter (traffic_of c) (remove_first (facch_of c) q) = filter (traffic_of c) q"
  "filter (facch_of c) (remove_first (traffic_of c) q) = filter (facch_of c) q"
  by (auto simp: filter_remove_first intro!: filter_remove_first_other)

lemma drop_2_tl: "drop 2 xs = tl (tl xs)"
  by (simp add: numeral_2_eq_2 drop_Suc)

lemma hd_option: "(case xs of [] \<Rightarrow> None | x # _ \<Rightarrow> Some x) = (if xs = [] then None else Some (hd xs))"
  by (cases xs) auto

section \<open>Properties\<close>

text \<open>
  C7. Whatever channel a primitive is dequeued for, the dequeue completes (no assertion, no
  access outside a payload), returns at most a primitive of that very channel, and leaves
  the queued primitives of every other channel of the timeslot as they were, in their order.
\<close>

theorem dequeue_isolates_channels:
  assumes "dequeue_pre c lchan q"
  shows "\<exists>p q' lchan'. sched_prim_dequeue trx q fn lchan = Some (p, q', lchan')
    \<and> (\<forall>r. p = Some r \<longrightarrow> prim_chan r = c)
    \<and> (\<forall>d. d \<noteq> c \<longrightarrow> filter (\<lambda>r. prim_chan r = d) q' = filter (\<lambda>r. prim_chan r = d) q)
    \<and> dequeue_pre c lchan' q'"
proof -
  have pre: "(case (trx, fn, lchan) of (trx, fn, lchan) \<Rightarrow> \<lambda>q. dequeue_pre c lchan q) q"
    using assms by simp
  from deq.deq_total [OF pre] obtain p q' lchan'
    where d: "sched_prim_dequeue trx q fn lchan = Some (p, q', lchan')" by auto
  then show ?thesis
    using deq.deq_keeps_other [OF pre] sched_prim_dequeue_lchan [OF assms d] by fastforce
qed

theorem dequeue_isolates_channels_witness:
  "\<exists>q' l'. sched_prim_dequeue \<lparr>band_arfcn = 1, tx_power = 5, bsic = 0, tsc = 7, ta = 2, fbsb_conf_sent = True\<rparr>
      [\<lparr>prim_chan = TRXC_SDCCH8_1, payload_len = 2, payload = [1, 2]\<rparr>,
       \<lparr>prim_chan = TRXC_SDCCH8_0, payload_len = 1, payload = [3]\<rparr>]
      17 (new_lchan TRXC_SDCCH8_0)
    = Some (Some \<lparr>prim_chan = TRXC_SDCCH8_0, payload_len = 1, payload = [3]\<rparr>, q', l')
    \<and> filter (\<lambda>r. prim_chan r = TRXC_SDCCH8_1) q'
      = [\<lparr>prim_chan = TRXC_SDCCH8_1, payload_len = 2, payload = [1, 2]\<rparr>]"
proof -
  let ?q = "[\<lparr>prim_chan = TRXC_SDCCH8_1, payload_len = 2, payload = [1, 2]\<rparr>,
       \<lparr>prim_chan = TRXC_SDCCH8_0, payload_len = 1, payload = [3]\<rparr>] :: trx_ts_prim list"
  have "dequeue_pre TRXC_SDCCH8_0 (new_lchan TRXC_SDCCH8_0) ?q"
    by (simp add: dequeue_pre_def wf_prim_def chan_is_sacch_def new_lchan_def)
  from dequeue_isolates_channels [OF this] show ?thesis
    by (fastforce simp: sched_prim_dequeue_def new_lchan_def chan_is_sacch_def prim_dequeue_one_def)
qed

text \<open>
  C8. On a SACCH a measurement report goes out at least every second block: in any run, with
  any primitives pushed in between, of any two consecutive primitives sent at least one is a
  measurement report, and so is the first one unless a report was the last thing sent before.
  The other frames are sent in the order they were pushed, none is lost, and two blocks are
  enough for each of them.
\<close>

theorem sacch_alternates:
  assumes "chan_is_sacch (lchan_type lchan)" "cache_ok lchan" "wf_queue q"
    and "\<forall>ps \<in> set pss. wf_queue ps"
  shows "\<exists>sent q' lchan'. sacch_run trx lchan q pss = Some (sent, q', lchan')
    \<and> length sent = length pss
    \<and> (\<forall>i. Suc i < length sent \<longrightarrow> is_mr (sent ! i) \<or> is_mr (sent ! Suc i))
    \<and> (\<not> mr_tx_last lchan \<and> sent \<noteq> [] \<longrightarrow> is_mr (hd sent))
    \<and> filter (nmr_of (lchan_type lchan)) (q @ concat pss)
        = filter (\<lambda>p. \<not> is_mr p) sent @ filter (nmr_of (lchan_type lchan)) q'
    \<and> (\<forall>k. k \<le> length (filter (nmr_of (lchan_type lchan)) q) \<and> 2 * k \<le> length sent
          \<longrightarrow> k \<le> length (filter (\<lambda>p. \<not> is_mr p) sent))"
proof -
  obtain sent q' lchan' where run: "sacch_run trx lchan q pss = Some (sent, q', lchan')"
    "length sent = length pss" "alternates is_mr (mr_tx_last lchan) sent"
    "filter (nmr_of (lchan_type lchan)) (q @ concat pss)
        = filter (\<lambda>p. \<not> is_mr p) sent @ filter (nmr_of (lchan_type lchan)) q'"
    using sacch_run_spec [OF assms] by blast
  moreover have "is_mr (hd sent)" if "\<not> mr_tx_last lchan" "sent \<noteq> []"
    using run(3) that by (cases sent) auto
  moreover have "k \<le> length (filter (\<lambda>p. \<not> is_mr p) sent)"
    if "k \<le> length (filter (nmr_of (lchan_type lchan)) q)" "2 * k \<le> length sent" for k
    using sacch_run_progress [OF assms run(1) that(1)] that(2) run(2) by simp
  ultimately show ?thesis using alternates_nth [OF run(3)] by blast
qed

theorem sacch_alternates_witness:
  "\<exists>sent q' l'. sacch_run \<lparr>band_arfcn = 1, tx_power = 5, bsic = 0, tsc = 7, ta = 2, fbsb_conf_sent = True\<rparr>
      (new_lchan TRXC_SACCHTF)
      (replicate 2 \<lparr>prim_chan = TRXC_SACCHTF, payload_len = 23, payload = replicate 23 9\<rparr>)
      [[], [], [], []] = Some (sent, q', l')
    \<and> is_mr (hd sent) \<and> 2 \<le> length (filter (\<lambda>p. \<not> is_mr p) sent)"
proof -
  let ?p = "\<lparr>prim_chan = TRXC_SACCHTF, payload_len = 23, payload = replicate 23 9\<rparr> :: trx_ts_prim"
  have s: "chan_is_sacch (lchan_type (new_lchan TRXC_SACCHTF))"
    by (simp add: chan_is_sacch_def new_lchan_def)
  have c: "cache_ok (new_lchan TRXC_SACCHTF)"
    by (simp add: cache_ok_def mr_cached_def new_lchan_def)
  have q: "wf_queue (replicate 2 ?p)" by (simp add: wf_prim_def)
  have f: "filter (nmr_of (lchan_type (new_lchan TRXC_SACCHTF))) (replicate 2 ?p) = replicate 2 ?p"
    by (simp add: new_lchan_def mr_payload_def)
  have w: "\<forall>ps \<in> set [[], [], [], [] :: trx_ts_prim list]. wf_queue ps" by simp
  let ?trx = "\<lparr>band_arfcn = 1, tx_power = 5, bsic = 0, tsc = 7, ta = 2, fbsb_conf_sent = True\<rparr> :: trx_phy"
  obtain sent q' l' where r: "sacch_run ?trx (new_lchan TRXC_SACCHTF) (replicate 2 ?p) [[], [], [], []]
      = Some (sent, q', l')"
    "length sent = length [[], [], [], [] :: trx_ts_prim list]"
    "\<not> mr_tx_last (new_lchan TRXC_SACCHTF) \<and> sent \<noteq> [] \<longrightarrow> is_mr (hd sent)"
    "\<forall>k. k \<le> length (filter (nmr_of (lchan_type (new_lchan TRXC_SACCHTF))) (replicate 2 ?p))
      \<and> 2 * k \<le> length sent \<longrightarrow> k \<le> length (filter (\<lambda>p. \<not> is_mr p) sent)"
    using sacch_alternates [OF s c q w, of ?trx] by blast
  have "sent \<noteq> []" using r(2) by auto
  moreover have "\<not> mr_tx_last (new_lchan TRXC_SACCHTF)" by (simp add: new_lchan_def)
  moreover have "2 \<le> length (filter (\<lambda>p. \<not> is_mr p) sent)"
    using r(4) [rule_format, of 2] r(2) f by simp
  ultimately show ?thesis using r(1,3) by blast
qed


text \<open>
  C9. FACCH/F steals: a block of TCH/F takes the oldest FACCH frame if there is one, else
  the oldest speech frame, and in both cases exactly one speech frame leaves the queue (if
  any is there), so that a stolen block discards the speech frame it replaces.
\<close>

theorem facch_f_steals:
  "prim_dequeue_tch_f q = (p, q') \<Longrightarrow>
    p = (if filter (facch_of TRXC_TCHF) q \<noteq> [] then Some (hd (filter (facch_of TRXC_TCHF) q))
         else if filter (traffic_of TRXC_TCHF) q \<noteq> [] then Some (hd (filter (traffic_of TRXC_TCHF) q))
         else None)
    \<and> filter (facch_of TRXC_TCHF) q' = tl (filter (facch_of TRXC_TCHF) q)
    \<and> filter (traffic_of TRXC_TCHF) q' = tl (filter (traffic_of TRXC_TCHF) q)"
  by (auto simp: prim_dequeue_tch_f_def prim_dequeue_tch_filter filter_remove_tch hd_option)

theorem facch_f_steals_witness:
  "\<exists>q'. prim_dequeue_tch_f
      [\<lparr>prim_chan = TRXC_TCHF, payload_len = 33, payload = replicate 33 1\<rparr>,
       \<lparr>prim_chan = TRXC_TCHF, payload_len = 23, payload = replicate 23 2\<rparr>]
    = (Some \<lparr>prim_chan = TRXC_TCHF, payload_len = 23, payload = replicate 23 2\<rparr>, q')
    \<and> filter (traffic_of TRXC_TCHF) q' = []"
proof -
  let ?q = "[\<lparr>prim_chan = TRXC_TCHF, payload_len = 33, payload = replicate 33 1\<rparr>,
       \<lparr>prim_chan = TRXC_TCHF, payload_len = 23, payload = replicate 23 2\<rparr>] :: trx_ts_prim list"
  obtain p q' where d: "prim_dequeue_tch_f ?q = (p, q')" by fastforce
  from facch_f_steals [OF d] d show ?thesis
    by (simp add: prim_is_facch_def chan_is_tch_def)
qed

text \<open>
  FACCH/H steals two: on a frame where an uplink FACCH/H block may start and a FACCH
  frame waits, that frame is taken and the two oldest speech frames are discarded with it.
  On every other frame FACCH frames stay in the queue, and the oldest speech frame is taken.
\<close>

theorem facch_h_steals:
  assumes "c \<in> {TRXC_TCHH_0, TRXC_TCHH_1}" "prim_dequeue_tch_h q fn c = Some (p, q')"
  shows "if sched_tchh_facch_start c fn True = Some True \<and> filter (facch_of c) q \<noteq> []
    then p = Some (hd (filter (facch_of c) q))
      \<and> filter (facch_of c) q' = tl (filter (facch_of c) q)
      \<and> filter (traffic_of c) q' = drop 2 (filter (traffic_of c) q)
    else p = (if filter (traffic_of c) q = [] then None else Some (hd (filter (traffic_of c) q)))
      \<and> filter (facch_of c) q' = filter (facch_of c) q
      \<and> filter (traffic_of c) q' = tl (filter (traffic_of c) q)"
proof -
  obtain now where now: "sched_tchh_facch_start c fn True = Some now"
    using assms(1) by (auto simp: sched_tchh_facch_start_def block_map_fn_at)
  have no_facch: "remove_first (facch_of c) q = q" if "filter (facch_of c) q = []"
    using that by (intro remove_first_id) (simp add: find_filter)
  show ?thesis
    using assms(2) no_facch
    by (auto simp: prim_dequeue_tch_h_def now prim_dequeue_tch_filter filter_remove_tch hd_option
        drop_2_tl split: if_splits)
qed

theorem facch_h_steals_witness:
  "\<exists>q'. prim_dequeue_tch_h
      [\<lparr>prim_chan = TRXC_TCHH_0, payload_len = 15, payload = replicate 15 1\<rparr>,
       \<lparr>prim_chan = TRXC_TCHH_0, payload_len = 23, payload = replicate 23 2\<rparr>] 34 TRXC_TCHH_0
    = Some (Some \<lparr>prim_chan = TRXC_TCHH_0, payload_len = 23, payload = replicate 23 2\<rparr>, q')
    \<and> filter (traffic_of TRXC_TCHH_0) q' = []"
proof -
  let ?q = "[\<lparr>prim_chan = TRXC_TCHH_0, payload_len = 15, payload = replicate 15 1\<rparr>,
       \<lparr>prim_chan = TRXC_TCHH_0, payload_len = 23, payload = replicate 23 2\<rparr>] :: trx_ts_prim list"
  have now: "sched_tchh_facch_start TRXC_TCHH_0 34 True = Some True"
    by (simp add: sched_tchh_facch_start_def block_map_fn_at block_map_at_def tchh_block_map_def
        tchh_map_defs)
  obtain p q' where d: "prim_dequeue_tch_h ?q 34 TRXC_TCHH_0 = Some (p, q')"
    using tch_h.deq_total [of TRXC_TCHH_0 ?q 34] by auto
  from facch_h_steals [OF _ d] d show ?thesis
    by (simp add: now prim_is_facch_def chan_is_tch_def)
qed

text \<open>
  C10. \<open>sched_prim_init\<close> hands out a primitive that owns the payload it claims exactly when
  the payload is shorter than 224 octets: the size is computed in a \<open>uint8_t\<close> and wraps
  above, and then the memory is too small for the header or for the payload the callers
  copy into it.
\<close>

theorem sched_prim_init_sound_iff:
  assumes "sched_trx_chan_nr2lchan_type chan_nr link_id \<noteq> TRXC_IDLE"
  shows "(\<exists>p. sched_prim_init pl_len chan_nr link_id = Some (Inr p)
      \<and> payload_len p = pl_len \<and> length (payload p) = payload_len p
      \<and> prim_chan p = sched_trx_chan_nr2lchan_type chan_nr link_id)
    \<longleftrightarrow> pl_len < 224"
proof -
  let ?len = "(32 :: u8) + of_nat pl_len"
  have "unat ?len = (32 + pl_len) mod 256"
    by (simp add: unat_word_ariths unat_of_nat mod_add_right_eq)
  moreover have "(32 + pl_len) mod 256 = 32 + pl_len \<longleftrightarrow> pl_len < 224"
    using mod_less_divisor [of 256 "32 + pl_len"] by (auto simp del: mod_less_divisor)
  ultimately show ?thesis
    using assms by (auto simp: sched_prim_init_def Let_def)
qed

theorem sched_prim_init_sound_iff_witness:
  "(\<exists>p. sched_prim_init 23 0x41 0x00 = Some (Inr p) \<and> payload_len p = 23
      \<and> length (payload p) = payload_len p \<and> prim_chan p = TRXC_SDCCH8_0)
    \<and> \<not> (\<exists>p. sched_prim_init 224 0x41 0x00 = Some (Inr p) \<and> payload_len p = 224
      \<and> length (payload p) = payload_len p \<and> prim_chan p = TRXC_SDCCH8_0)"
proof -
  have t: "sched_trx_chan_nr2lchan_type 0x41 0x00 = TRXC_SDCCH8_0"
    using chan_nr2lchan_type_desc [of TRXC_SDCCH8_0 1] by simp
  then have "sched_trx_chan_nr2lchan_type 0x41 0x00 \<noteq> TRXC_IDLE" by simp
  from sched_prim_init_sound_iff [OF this, of 23] sched_prim_init_sound_iff [OF this, of 224]
  show ?thesis unfolding t by simp
qed

end
