(* ===== verification/SchedLchanCommon.thy ===== *)
theory SchedLchanCommon
  imports SchedPrim SchedMeas
begin

text \<open>
  What the channel handlers share (\<open>sched_lchan_common.c\<close> and the code repeated in each
  \<open>sched_lchan_*.c\<close>): the training sequences, the indications and confirmations sent to
  the higher layers, the cutting of a received burst, the composition of a normal burst,
  and the invariant of a channel state that every handler preserves.
\<close>

section \<open>Training sequences\<close>

definition sched_nb_training_bits :: "ubit list list" where
  "sched_nb_training_bits = [
    [0, 0, 1, 0, 0, 1, 0, 1, 1, 1, 0, 0, 0, 0, 1, 0, 0, 0, 1, 0, 0, 1, 0, 1, 1, 1],
    [0, 0, 1, 0, 1, 1, 0, 1, 1, 1, 0, 1, 1, 1, 1, 0, 0, 0, 1, 0, 1, 1, 0, 1, 1, 1],
    [0, 1, 0, 0, 0, 0, 1, 1, 1, 0, 1, 1, 1, 0, 1, 0, 0, 1, 0, 0, 0, 0, 1, 1, 1, 0],
    [0, 1, 0, 0, 0, 1, 1, 1, 1, 0, 1, 1, 0, 1, 0, 0, 0, 1, 0, 0, 0, 1, 1, 1, 1, 0],
    [0, 0, 0, 1, 1, 0, 1, 0, 1, 1, 1, 0, 0, 1, 0, 0, 0, 0, 0, 1, 1, 0, 1, 0, 1, 1],
    [0, 1, 0, 0, 1, 1, 1, 0, 1, 0, 1, 1, 0, 0, 0, 0, 0, 1, 0, 0, 1, 1, 1, 0, 1, 0],
    [1, 0, 1, 0, 0, 1, 1, 1, 1, 1, 0, 1, 1, 0, 0, 0, 1, 0, 1, 0, 0, 1, 1, 1, 1, 1],
    [1, 1, 1, 0, 1, 1, 1, 1, 0, 0, 0, 1, 0, 0, 1, 0, 1, 1, 1, 0, 1, 1, 1, 1, 0, 0]]"

section \<open>Indications and confirmations\<close>

definition dbm2rxlev :: "int \<Rightarrow> u8" where
  "dbm2rxlev dbm =
    (let rxlev = dbm + 110
     in word_of_int (if rxlev > 63 then 63 else if rxlev < 0 then 0 else rxlev))"

definition sched_send_dt_ind :: "nat \<Rightarrow> 'a trx_phy_scheme \<Rightarrow> trx_lchan_state \<Rightarrow> u8 list \<Rightarrow> int
    \<Rightarrow> bool \<Rightarrow> bool \<Rightarrow> trx_event" where
  "sched_send_dt_ind tn trx lchan l2 bit_error_count dec_failed traffic =
    (let meas = meas_avg lchan; desc = trx_lchan_desc (lchan_type lchan) in
     L1ctlDtInd
       \<lparr>dl_chan_nr = ld_chan_nr desc OR of_nat tn, dl_link_id = ld_link_id desc,
        dl_band_arfcn = band_arfcn trx, dl_frame_nr = meas_fn meas,
        dl_rx_level = dbm2rxlev (sint (meas_rssi meas)), dl_snr = 0,
        dl_num_biterr = word_of_int bit_error_count,
        dl_fire_crc = (if dec_failed then 2 else 0)\<rparr>
       l2 traffic)"

definition sched_send_dt_conf :: "nat \<Rightarrow> 'a trx_phy_scheme \<Rightarrow> trx_lchan_state \<Rightarrow> u32 \<Rightarrow> bool \<Rightarrow> trx_event" where
  "sched_send_dt_conf tn trx lchan fn traffic =
    (let desc = trx_lchan_desc (lchan_type lchan) in
     L1ctlDtConf
       \<lparr>dl_chan_nr = ld_chan_nr desc OR of_nat tn, dl_link_id = ld_link_id desc,
        dl_band_arfcn = band_arfcn trx, dl_frame_nr = fn,
        dl_rx_level = 0, dl_snr = 0, dl_num_biterr = 0, dl_fire_crc = 0\<rparr>
       traffic)"

section \<open>Bursts\<close>

text \<open>
  \<open>memcpy(offset, bits + 3, 58); memcpy(offset + 58, bits + 87, 58)\<close>: the two halves of
  the payload of a received normal burst.
\<close>

definition rx_copy_burst :: "sbit list \<Rightarrow> nat \<Rightarrow> sbit list \<Rightarrow> sbit list option" where
  "rx_copy_burst buffer off bits = do {
     a \<leftarrow> mem_read bits 3 58;
     buffer \<leftarrow> mem_write buffer off a;
     b \<leftarrow> mem_read bits 87 58;
     mem_write buffer (off + 58) b
   }"

text \<open>
  The common beginning of the four receivers of normal bursts: the mask of received bursts,
  the measurement history and the buffer are updated.
\<close>

definition rx_store_burst :: "trx_lchan_state \<Rightarrow> nat \<Rightarrow> nat \<Rightarrow> sbit list \<Rightarrow> trx_meas_set
    \<Rightarrow> trx_lchan_state option" where
  "rx_store_burst lchan bid off bits meas = do {
     let lchan = lchan\<lparr>rx_burst_mask := rx_burst_mask lchan OR push_bit bid 1,
                       meas_hist := sched_trx_meas_push (meas_hist lchan) meas\<rparr>;
     buffer \<leftarrow> rx_bursts lchan;
     buffer \<leftarrow> rx_copy_burst buffer off bits;
     Some (lchan\<lparr>rx_bursts := Some buffer\<rparr>)
   }"

text \<open>
  The composition of a burst, after the label \<open>send_burst\<close>: the mask is updated and the
  burst of the request is filled with tail bits, payload halves and training sequence.
\<close>

definition tx_compose_burst :: "'a trx_phy_scheme \<Rightarrow> trx_lchan_state \<Rightarrow> sched_burst_req
    \<Rightarrow> (trx_lchan_state \<times> sched_burst_req) option" where
  "tx_compose_burst trx lchan br = do {
     buffer \<leftarrow> tx_bursts lchan;
     tsc_bits \<leftarrow> mem_at sched_nb_training_bits (unat (tsc trx));
     a \<leftarrow> mem_read buffer (br_bid br * 116) 58;
     b \<leftarrow> mem_read buffer (br_bid br * 116 + 58) 58;
     burst \<leftarrow> mem_write (br_burst br) 0 (replicate 3 0 @ a @ tsc_bits @ b @ replicate 3 0);
     Some (lchan\<lparr>tx_burst_mask := tx_burst_mask lchan OR push_bit (br_bid br) 1\<rparr>,
           br\<lparr>br_burst := burst, br_burst_len := GSM_BURST_LEN\<rparr>)
   }"

text \<open>Every handler but the one of SCH leaves the instance alone.\<close>

type_synonym rx_outcome = "(int \<times> trx_lchan_state \<times> trx_event list) option"
type_synonym tx_outcome = "(int \<times> trx_lchan_state \<times> sched_burst_req \<times> trx_event list) option"

section \<open>The invariant of a channel state\<close>

definition buf_ok :: "trx_lchan_type \<Rightarrow> 'b list option \<Rightarrow> bool" where
  "buf_ok c buf \<longleftrightarrow> (\<exists>b. buf = Some b \<and> length b = ld_burst_buf_size (trx_lchan_desc c))"

definition hist_ok :: "trx_lchan_meas_hist \<Rightarrow> bool" where
  "hist_ok h \<longleftrightarrow> length (hist_buf h) = 8 \<and> (\<forall>i. hist_head h = Some i \<longrightarrow> i < 8)"

definition wf_lchan :: "trx_lchan_state \<Rightarrow> bool" where
  "wf_lchan l \<longleftrightarrow>
    (active l \<longrightarrow>
       (ld_rx_fn (trx_lchan_desc (lchan_type l)) \<noteq> None \<and> 0 < ld_burst_buf_size (trx_lchan_desc (lchan_type l))
          \<longrightarrow> buf_ok (lchan_type l) (rx_bursts l)) \<and>
       (ld_tx_fn (trx_lchan_desc (lchan_type l)) \<noteq> None \<and> 0 < ld_burst_buf_size (trx_lchan_desc (lchan_type l))
          \<longrightarrow> buf_ok (lchan_type l) (tx_bursts l))) \<and>
    hist_ok (meas_hist l) \<and>
    (\<forall>p. cur_prim l = Some p \<longrightarrow> wf_prim p \<and> prim_chan p = lchan_type l) \<and>
    cache_ok l \<and> length (a5_key l) = 16"

text \<open>What a handler must leave alone.\<close>

definition same_lchan :: "trx_lchan_state \<Rightarrow> trx_lchan_state \<Rightarrow> bool" where
  "same_lchan l l' \<longleftrightarrow> lchan_type l' = lchan_type l \<and> active l' = active l \<and> tch_mode l' = tch_mode l
    \<and> mr_cache l' = mr_cache l \<and> mr_cache_usage l' = mr_cache_usage l \<and> mr_tx_last l' = mr_tx_last l
    \<and> last_proc l' = last_proc l \<and> num_proc l' = num_proc l \<and> num_lost l' = num_lost l
    \<and> a5_key l' = a5_key l \<and> a5_key_len l' = a5_key_len l \<and> a5_algo l' = a5_algo l"

definition same_req :: "sched_burst_req \<Rightarrow> sched_burst_req \<Rightarrow> bool" where
  "same_req br br' \<longleftrightarrow> br_fn br' = br_fn br \<and> br_tn br' = br_tn br \<and> br_pwr br' = br_pwr br
    \<and> br_bid br' = br_bid br \<and> length (br_burst br') = length (br_burst br)
    \<and> (br_burst_len br' = br_burst_len br \<or> br_burst_len br' = GSM_BURST_LEN)"

lemma same_lchan_refl [simp]: "same_lchan l l"
  by (simp add: same_lchan_def)

lemma same_req_refl [simp]: "same_req br br"
  by (simp add: same_req_def)

lemma same_lchan_trans: "same_lchan l l' \<Longrightarrow> same_lchan l' l'' \<Longrightarrow> same_lchan l l''"
  by (simp add: same_lchan_def)

lemma hist_ok_push: "hist_ok h \<Longrightarrow> hist_ok (sched_trx_meas_push h m)"
  by (auto simp: hist_ok_def sched_trx_meas_push_def Let_def split: option.splits)

lemma hist_head_push: "\<exists>i. hist_head (sched_trx_meas_push h m) = Some i"
  by (simp add: sched_trx_meas_push_def Let_def)

lemma meas_avg_push:
  "0 < n \<Longrightarrow> n \<le> 8 \<Longrightarrow> \<exists>avg. sched_trx_meas_avg (sched_trx_meas_push h m) n = Some avg"
  using hist_head_push [of h m]
  by (auto simp: sched_trx_meas_avg_def split: prod.splits)

lemma rx_copy_burst_Some:
  assumes "off + 116 \<le> length buffer" "145 \<le> length bits"
  shows "rx_copy_burst buffer off bits =
    Some (blit buffer off (take 58 (drop 3 bits) @ take 58 (drop 87 bits)))"
  using assms by (simp add: rx_copy_burst_def mem_read_def mem_write_def blit_def ac_simps)

lemma length_training_bits:
  "length sched_nb_training_bits = 8" "\<forall>t \<in> set sched_nb_training_bits. length t = 26"
  by (simp_all add: sched_nb_training_bits_def)

lemma length_training_row: "n < 8 \<Longrightarrow> length (sched_nb_training_bits ! n) = 26"
  using length_training_bits by (metis nth_mem)

definition nb_burst :: "ubit list \<Rightarrow> ubit list \<Rightarrow> ubit list" where
  "nb_burst tsc_bits pl =
    replicate 3 0 @ take 58 pl @ tsc_bits @ drop 58 pl @ replicate 3 0"

lemma tx_compose_burst_Some:
  assumes "tx_bursts lchan = Some buffer" "unat (tsc trx) < 8"
    and "br_bid br * 116 + 116 \<le> length buffer" "length (br_burst br) = EDGE_BURST_LEN"
  shows "tx_compose_burst trx lchan br =
    Some (lchan\<lparr>tx_burst_mask := tx_burst_mask lchan OR push_bit (br_bid br) 1\<rparr>,
      br\<lparr>br_burst := blit (br_burst br) 0
           (nb_burst (sched_nb_training_bits ! unat (tsc trx)) (take 116 (drop (br_bid br * 116) buffer))),
         br_burst_len := GSM_BURST_LEN\<rparr>)"
proof -
  have "take 58 (take 116 (drop k buffer)) = take 58 (drop k buffer)"
    "drop 58 (take 116 (drop k buffer)) = take 58 (drop (k + 58) buffer)" for k
    by (simp_all add: drop_take add.commute)
  then show ?thesis
    using assms length_training_bits(1) length_training_row [OF assms(2)]
    by (simp add: tx_compose_burst_def mem_read_def mem_write_def mem_at_def nb_burst_def)
qed

lemma length_nb_burst:
  "length t = 26 \<Longrightarrow> length pl = 116 \<Longrightarrow> length (nb_burst t pl) = 148"
  by (simp add: nb_burst_def)

text \<open>The payload read back from a burst, as the receiver cuts it.\<close>

lemma nb_burst_payload:
  "length t = 26 \<Longrightarrow> length pl = 116 \<Longrightarrow>
    take 58 (drop 3 (nb_burst t pl)) @ take 58 (drop 87 (nb_burst t pl)) = pl"
  by (simp add: nb_burst_def)


section \<open>The contracts of the handlers\<close>

text \<open>
  What the handlers rely on in the channel coding functions: they fill the buffers they are
  given and return as many octets as they say, no more than the caller's buffer holds.
\<close>

definition wf_codec :: "codec \<Rightarrow> bool" where
  "wf_codec cd \<longleftrightarrow>
    (\<forall>b p. length b = 464 \<and> length p = 23 \<longrightarrow> length (snd (xcch_encode cd b p)) = 464) \<and>
    (\<forall>b p. length b = 1392 \<longrightarrow> length (snd (pdtch_encode cd b p)) = 1392) \<and>
    (\<forall>b p. length b = 928 \<longrightarrow> length (snd (tch_fr_encode cd b p)) = 928) \<and>
    (\<forall>b p. length b = 696 \<longrightarrow> length (snd (tch_hr_encode cd b p)) = 696) \<and>
    (\<forall>b rc l2 e. length b = 464 \<and> xcch_decode cd b = (rc, l2, e) \<and> rc = 0 \<longrightarrow> 23 \<le> length l2) \<and>
    (\<forall>b rc l2 e. 464 \<le> length b \<and> pdtch_decode cd b = (rc, l2, e) \<longrightarrow> nat rc \<le> length l2 \<and> nat rc \<le> 54) \<and>
    (\<forall>b f rc l2 e. length b = 928 \<and> tch_fr_decode cd b f = (rc, l2, e) \<longrightarrow> nat rc \<le> length l2 \<and> nat rc \<le> 128) \<and>
    (\<forall>b f rc l2 e. length b = 696 \<and> tch_hr_decode cd b f = (rc, l2, e) \<longrightarrow> nat rc \<le> length l2 \<and> nat rc \<le> 128) \<and>
    (\<forall>ra bs x rc pl. rach_ext_encode cd ra bs x = (rc, pl) \<and> rc = 0 \<longrightarrow> 36 \<le> length pl) \<and>
    (\<forall>b rc s. sch_decode cd b = (rc, s) \<and> rc = 0 \<longrightarrow> 4 \<le> length s) \<and>
    (\<forall>al k fn. length (fst (osmo_a5 cd al k fn)) = 114 \<and> length (snd (osmo_a5 cd al k fn)) = 114)"

lemma wf_codec_encode:
  assumes "wf_codec cd"
  shows "xcch_encode cd b pl = (rc, b') \<Longrightarrow> length b = 464 \<Longrightarrow> length pl = 23 \<Longrightarrow> length b' = 464"
    "pdtch_encode cd b pl = (rc, b') \<Longrightarrow> length b = 1392 \<Longrightarrow> length b' = 1392"
    "tch_fr_encode cd b pl = (rc, b') \<Longrightarrow> length b = 928 \<Longrightarrow> length b' = 928"
    "tch_hr_encode cd b pl = (rc, b') \<Longrightarrow> length b = 696 \<Longrightarrow> length b' = 696"
    "rach_ext_encode cd ra bs x = (0, b') \<Longrightarrow> 36 \<le> length b'"
  using assms unfolding wf_codec_def by (metis snd_conv)+

lemma wf_codec_decode:
  assumes "wf_codec cd"
  shows "xcch_decode cd b = (0, l2, e) \<Longrightarrow> length b = 464 \<Longrightarrow> 23 \<le> length l2"
    "pdtch_decode cd b = (rc, l2, e) \<Longrightarrow> 464 \<le> length b \<Longrightarrow> nat rc \<le> length l2"
    "tch_fr_decode cd b f = (rc, l2, e) \<Longrightarrow> length b = 928 \<Longrightarrow> nat rc \<le> length l2"
    "tch_hr_decode cd b f = (rc, l2, e) \<Longrightarrow> length b = 696 \<Longrightarrow> nat rc \<le> length l2"
    "sch_decode cd b = (0, s) \<Longrightarrow> 4 \<le> length s"
  using assms unfolding wf_codec_def by metis+

lemma wf_codec_fits:
  assumes "wf_codec cd"
  shows "pdtch_decode cd b = (rc, l2, e) \<Longrightarrow> 464 \<le> length b \<Longrightarrow> nat rc \<le> 54"
    "tch_fr_decode cd b f = (rc, l2, e) \<Longrightarrow> length b = 928 \<Longrightarrow> nat rc \<le> 128"
    "tch_hr_decode cd b f = (rc, l2, e) \<Longrightarrow> length b = 696 \<Longrightarrow> nat rc \<le> 128"
  using assms unfolding wf_codec_def by metis+

text \<open>A message to the L1CTL link, with a payload that fits into the buffers of the handlers.\<close>

definition to_l1ctl :: "trx_event \<Rightarrow> bool" where
  "to_l1ctl e \<longleftrightarrow> (case e of TrxCmdSetslot _ _ \<Rightarrow> False | TrxTxBurst _ \<Rightarrow> False
     | L1ctlDtInd _ l2 _ \<Rightarrow> length l2 \<le> 128 | _ \<Rightarrow> True)"

definition wf_req :: "sched_burst_req \<Rightarrow> bool" where
  "wf_req br \<longleftrightarrow> length (br_burst br) = EDGE_BURST_LEN \<and> br_bid br < 4"

lemma same_req_wf: "same_req br br' \<Longrightarrow> wf_req br \<Longrightarrow> wf_req br'"
  by (simp add: same_req_def wf_req_def)

text \<open>
  A transmit handler, on the channels that are dispatched to it: given a primitive it
  returns, keeps the channel well formed and its administrative state unchanged, fills
  nothing but the burst of the request and talks to the higher layers only.
\<close>

locale tx_handler_contract =
  fixes h :: "nat \<Rightarrow> 'a trx_phy_scheme \<Rightarrow> trx_lchan_state \<Rightarrow> sched_burst_req \<Rightarrow> tx_outcome"
    and serves :: "trx_lchan_state \<Rightarrow> bool"
  assumes tx_contract:
    "unat (tsc trx) < 8 \<Longrightarrow> wf_lchan l \<Longrightarrow> active l \<Longrightarrow> serves l \<Longrightarrow> cur_prim l \<noteq> None \<Longrightarrow> wf_req br \<Longrightarrow>
      \<exists>rc l' br' evs. h tn trx l br = Some (rc, l', br', evs) \<and> wf_lchan l' \<and> same_lchan l l'
        \<and> same_req br br' \<and> list_all to_l1ctl evs"
begin

lemma tx_total:
  "unat (tsc trx) < 8 \<Longrightarrow> wf_lchan l \<Longrightarrow> active l \<Longrightarrow> serves l \<Longrightarrow> cur_prim l \<noteq> None \<Longrightarrow> wf_req br \<Longrightarrow>
    h tn trx l br \<noteq> None"
  using tx_contract by fastforce

lemma tx_keeps:
  assumes "unat (tsc trx) < 8" "wf_lchan l" "active l" "serves l" "cur_prim l \<noteq> None" "wf_req br"
    and "h tn trx l br = Some (rc, l', br', evs)"
  shows "wf_lchan l'" "same_lchan l l'" "same_req br br'" "list_all to_l1ctl evs" "wf_req br'"
  using tx_contract [OF assms(1-6), of tn] assms(6,7) by (auto intro: same_req_wf)

end

locale rx_handler_contract =
  fixes h :: "nat \<Rightarrow> 'a trx_phy_scheme \<Rightarrow> trx_lchan_state \<Rightarrow> u32 \<Rightarrow> nat \<Rightarrow> sbit list \<Rightarrow> trx_meas_set \<Rightarrow> rx_outcome"
    and serves :: "trx_lchan_state \<Rightarrow> bool"
    and max_bid :: nat
  assumes rx_contract:
    "wf_lchan l \<Longrightarrow> active l \<Longrightarrow> serves l \<Longrightarrow> bid < max_bid \<Longrightarrow> GSM_BURST_LEN \<le> length bits \<Longrightarrow>
      \<exists>rc l' evs. h tn trx l fn bid bits meas = Some (rc, l', evs) \<and> wf_lchan l' \<and> same_lchan l l'
        \<and> cur_prim l' = cur_prim l \<and> list_all to_l1ctl evs"
begin

lemma rx_total:
  "wf_lchan l \<Longrightarrow> active l \<Longrightarrow> serves l \<Longrightarrow> bid < max_bid \<Longrightarrow> GSM_BURST_LEN \<le> length bits \<Longrightarrow>
    h tn trx l fn bid bits meas \<noteq> None"
  using rx_contract by fastforce

lemma rx_keeps:
  assumes "wf_lchan l" "active l" "serves l" "bid < max_bid" "GSM_BURST_LEN \<le> length bits"
    and "h tn trx l fn bid bits meas = Some (rc, l', evs)"
  shows "wf_lchan l'" "same_lchan l l'" "cur_prim l' = cur_prim l" "list_all to_l1ctl evs"
  using rx_contract [OF assms(1-5), of tn trx fn meas] assms(6) by auto

end

text \<open>Which channels a handler of the descriptor table serves.\<close>

abbreviation served_by_tx :: "tx_handler \<Rightarrow> trx_lchan_state \<Rightarrow> bool" where
  "served_by_tx f l \<equiv> ld_tx_fn (trx_lchan_desc (lchan_type l)) = Some f"

abbreviation served_by_rx :: "rx_handler \<Rightarrow> trx_lchan_state \<Rightarrow> bool" where
  "served_by_rx f l \<equiv> ld_rx_fn (trx_lchan_desc (lchan_type l)) = Some f"

definition handler_row_ok :: "trx_lchan_type \<Rightarrow> bool" where
  "handler_row_ok c \<longleftrightarrow>
    (let d = trx_lchan_desc c; n = ld_burst_buf_size d in
     (case ld_tx_fn d of
        Some TX_DATA \<Rightarrow> n = 464 | Some TX_PDTCH \<Rightarrow> n = 1392 | Some TX_TCHF \<Rightarrow> n = 928
      | Some TX_TCHH \<Rightarrow> n = 696 | _ \<Rightarrow> True) \<and>
     (case ld_rx_fn d of
        Some RX_DATA \<Rightarrow> n = 464 | Some RX_PDTCH \<Rightarrow> 464 \<le> n | Some RX_TCHF \<Rightarrow> n = 928
      | Some RX_TCHH \<Rightarrow> n = 696 | _ \<Rightarrow> True) \<and>
     (ld_tx_fn d = Some TX_TCHH \<longleftrightarrow> c = TRXC_TCHH_0 \<or> c = TRXC_TCHH_1) \<and>
     (ld_rx_fn d = Some RX_TCHH \<longleftrightarrow> c = TRXC_TCHH_0 \<or> c = TRXC_TCHH_1))"

lemma handler_rows_ok: "list_all handler_row_ok all_lchan_types"
  by code_simp

lemma handler_row: "handler_row_ok c"
  using handler_rows_ok all_lchan_types_complete [of c] by (simp add: list_all_iff)

lemma tx_fn_buf_size:
  "ld_tx_fn (trx_lchan_desc c) = Some TX_DATA \<Longrightarrow> ld_burst_buf_size (trx_lchan_desc c) = 464"
  "ld_tx_fn (trx_lchan_desc c) = Some TX_PDTCH \<Longrightarrow> ld_burst_buf_size (trx_lchan_desc c) = 1392"
  "ld_tx_fn (trx_lchan_desc c) = Some TX_TCHF \<Longrightarrow> ld_burst_buf_size (trx_lchan_desc c) = 928"
  "ld_tx_fn (trx_lchan_desc c) = Some TX_TCHH \<Longrightarrow> ld_burst_buf_size (trx_lchan_desc c) = 696"
  using handler_row [of c] by (simp_all add: handler_row_ok_def Let_def)

lemma rx_fn_buf_size:
  "ld_rx_fn (trx_lchan_desc c) = Some RX_DATA \<Longrightarrow> ld_burst_buf_size (trx_lchan_desc c) = 464"
  "ld_rx_fn (trx_lchan_desc c) = Some RX_PDTCH \<Longrightarrow> 464 \<le> ld_burst_buf_size (trx_lchan_desc c)"
  "ld_rx_fn (trx_lchan_desc c) = Some RX_TCHF \<Longrightarrow> ld_burst_buf_size (trx_lchan_desc c) = 928"
  "ld_rx_fn (trx_lchan_desc c) = Some RX_TCHH \<Longrightarrow> ld_burst_buf_size (trx_lchan_desc c) = 696"
  using handler_row [of c] by (simp_all add: handler_row_ok_def Let_def)

lemma tchh_fn_chan:
  "ld_tx_fn (trx_lchan_desc c) = Some TX_TCHH \<longleftrightarrow> c \<in> {TRXC_TCHH_0, TRXC_TCHH_1}"
  "ld_rx_fn (trx_lchan_desc c) = Some RX_TCHH \<longleftrightarrow> c \<in> {TRXC_TCHH_0, TRXC_TCHH_1}"
  using handler_row [of c] by (simp_all add: handler_row_ok_def Let_def)

lemma wf_lchan_tx_buf:
  assumes "wf_lchan l" "active l" "served_by_tx f l" "0 < ld_burst_buf_size (trx_lchan_desc (lchan_type l))"
  obtains b where "tx_bursts l = Some b" "length b = ld_burst_buf_size (trx_lchan_desc (lchan_type l))"
  using assms by (auto simp: wf_lchan_def buf_ok_def)

lemma wf_lchan_rx_buf:
  assumes "wf_lchan l" "active l" "served_by_rx f l" "0 < ld_burst_buf_size (trx_lchan_desc (lchan_type l))"
  obtains b where "rx_bursts l = Some b" "length b = ld_burst_buf_size (trx_lchan_desc (lchan_type l))"
  using assms by (auto simp: wf_lchan_def buf_ok_def)

text \<open>Updates of a channel state that keep it well formed.\<close>

lemma wf_lchan_upd:
  assumes "wf_lchan l"
  shows "wf_lchan (l\<lparr>rx_burst_mask := m\<rparr>)" "wf_lchan (l\<lparr>tx_burst_mask := m\<rparr>)"
    "wf_lchan (l\<lparr>meas_avg := a\<rparr>)" "wf_lchan (l\<lparr>ul_facch_blocks := u\<rparr>)"
    "wf_lchan (l\<lparr>dl_ongoing_facch := d\<rparr>)" "wf_lchan (sched_prim_drop l)"
    "wf_lchan (l\<lparr>meas_hist := sched_trx_meas_push (meas_hist l) ms\<rparr>)"
    "rx_bursts l = Some b \<Longrightarrow> length b' = length b \<Longrightarrow> wf_lchan (l\<lparr>rx_bursts := Some b'\<rparr>)"
    "tx_bursts l = Some b \<Longrightarrow> length b' = length b \<Longrightarrow> wf_lchan (l\<lparr>tx_bursts := Some b'\<rparr>)"
  using assms hist_ok_push
  by (auto simp: wf_lchan_def sched_prim_drop_def cache_ok_def mr_cached_def buf_ok_def)

lemma same_lchan_upd [simp]:
  "same_lchan l (l\<lparr>rx_burst_mask := m\<rparr>)" "same_lchan l (l\<lparr>tx_burst_mask := m\<rparr>)"
  "same_lchan l (l\<lparr>meas_avg := a\<rparr>)" "same_lchan l (l\<lparr>ul_facch_blocks := u\<rparr>)"
  "same_lchan l (l\<lparr>dl_ongoing_facch := d\<rparr>)" "same_lchan l (sched_prim_drop l)"
  "same_lchan l (l\<lparr>meas_hist := hi\<rparr>)" "same_lchan l (l\<lparr>rx_bursts := rb\<rparr>)"
  "same_lchan l (l\<lparr>tx_bursts := tb\<rparr>)"
  by (simp_all add: same_lchan_def sched_prim_drop_def)

lemma same_lchan_drop [simp]: "same_lchan l (sched_prim_drop l') = same_lchan l l'"
  by (simp add: same_lchan_def sched_prim_drop_def)

lemma to_l1ctl_simps [simp]:
  "to_l1ctl (sched_send_dt_ind tn trx l l2 e f t) \<longleftrightarrow> length l2 \<le> 128" "to_l1ctl (sched_send_dt_conf tn trx l fn t)"
  "to_l1ctl (L1ctlRachConf ba fn)" "to_l1ctl (L1ctlFbsbConf r d bs)"
  by (simp_all add: to_l1ctl_def sched_send_dt_ind_def sched_send_dt_conf_def Let_def)


text \<open>The composition of a burst, as a step of the handlers.\<close>

lemma tx_compose_burst_ok:
  assumes "unat (tsc trx) < 8" "wf_lchan l" "tx_bursts l = Some b" "464 \<le> length b" "wf_req br"
  shows "\<exists>br'. tx_compose_burst trx l br
      = Some (l\<lparr>tx_burst_mask := tx_burst_mask l OR push_bit (br_bid br) 1\<rparr>, br')
    \<and> same_req br br' \<and> br_burst_len br' = GSM_BURST_LEN"
proof -
  have bid: "br_bid br * 116 + 116 \<le> length b" "length (br_burst br) = EDGE_BURST_LEN"
    using assms(4,5) by (auto simp: wf_req_def)
  have "length (nb_burst (sched_nb_training_bits ! unat (tsc trx)) (take 116 (drop (br_bid br * 116) b))) = 148"
    by (rule length_nb_burst) (use bid length_training_row [OF assms(1)] in auto)
  then show ?thesis
    unfolding tx_compose_burst_Some [OF assms(3,1) bid]
    using assms(5) by (simp add: same_req_def wf_req_def)
qed


lemma rx_store_burst_ok:
  assumes "wf_lchan l" "rx_bursts l = Some b" "off + 116 \<le> length b" "GSM_BURST_LEN \<le> length bits"
  obtains l' b' where "rx_store_burst l bid off bits meas = Some l'" "wf_lchan l'" "same_lchan l l'"
    "rx_bursts l' = Some b'" "length b' = length b" "cur_prim l' = cur_prim l"
    "meas_hist l' = sched_trx_meas_push (meas_hist l) meas"
    "dl_ongoing_facch l' = dl_ongoing_facch l"
    "rx_burst_mask l' = rx_burst_mask l OR push_bit bid 1"
    "b' = blit b off (take 58 (drop 3 bits) @ take 58 (drop 87 bits))"
proof -
  have bits: "145 \<le> length bits" using assms(4) by simp
  let ?b = "blit b off (take 58 (drop 3 bits) @ take 58 (drop 87 bits))"
  let ?m = "rx_burst_mask l OR push_bit bid 1"
  have len: "length ?b = length b" using assms(3,4) by simp
  have w: "wf_lchan (l\<lparr>rx_burst_mask := ?m, meas_hist := sched_trx_meas_push (meas_hist l) meas\<rparr>)"
    using wf_lchan_upd(7) [OF wf_lchan_upd(1) [OF assms(1), of ?m], of meas] by simp
  show thesis
  proof (rule that [of "l\<lparr>rx_burst_mask := ?m, meas_hist := sched_trx_meas_push (meas_hist l) meas,
      rx_bursts := Some ?b\<rparr>" ?b])
    show "rx_store_burst l bid off bits meas = Some (l\<lparr>rx_burst_mask := ?m,
        meas_hist := sched_trx_meas_push (meas_hist l) meas, rx_bursts := Some ?b\<rparr>)"
      using assms(2) rx_copy_burst_Some [OF assms(3) bits] by (simp add: rx_store_burst_def)
    show "wf_lchan (l\<lparr>rx_burst_mask := ?m, meas_hist := sched_trx_meas_push (meas_hist l) meas,
        rx_bursts := Some ?b\<rparr>)"
      using wf_lchan_upd(8) [OF w, of b ?b] len assms(2) by simp
  qed (use len in \<open>simp_all add: same_lchan_def\<close>)
qed


section \<open>Concrete instances\<close>

text \<open>
  Values for the witnesses: a codec that ignores its input, an idle active channel, a
  fill frame, and a fresh burst request as \<open>sched_frame_clck_cb\<close> makes it.
\<close>

definition fixed_codec :: codec where
  "fixed_codec = \<lparr>
     xcch_decode = \<lambda>b. (0, replicate 23 0x2b, 0), xcch_encode = \<lambda>b p. (0, replicate (length b) 0),
     pdtch_decode = \<lambda>b. (23, replicate 23 0x2b, 0), pdtch_encode = \<lambda>b p. (464, b),
     tch_fr_decode = \<lambda>b f. (33, replicate 33 0xd0, 0), tch_fr_encode = \<lambda>b p. (0, b),
     tch_hr_decode = \<lambda>b f. (15, replicate 15 0x70, 0), tch_hr_encode = \<lambda>b p. (0, b),
     rach_ext_encode = \<lambda>ra bs x. (0, replicate 36 1), sch_decode = \<lambda>b. (0, replicate 4 0),
     osmo_a5 = \<lambda>al k fn. (replicate 114 1, replicate 114 1)\<rparr>"

lemma wf_fixed_codec: "wf_codec fixed_codec"
  by (simp add: wf_codec_def fixed_codec_def)

definition phy0 :: trx_phy where
  "phy0 = \<lparr>band_arfcn = 1, tx_power = 0, bsic = 0, tsc = 0, ta = 0, fbsb_conf_sent = False\<rparr>"

definition fresh_lchan :: "trx_lchan_type \<Rightarrow> trx_lchan_state" where
  "fresh_lchan c = (new_lchan c)\<lparr>active := True,
     rx_bursts := Some (replicate (ld_burst_buf_size (trx_lchan_desc c)) 0),
     tx_bursts := Some (replicate (ld_burst_buf_size (trx_lchan_desc c)) 0)\<rparr>"

lemma wf_new_lchan: "wf_lchan (new_lchan c)"
  by (simp add: wf_lchan_def new_lchan_def hist_ok_def meas_hist0_def cache_ok_def mr_cached_def)

lemma wf_fresh_lchan: "wf_lchan (fresh_lchan c)"
  by (simp add: wf_lchan_def fresh_lchan_def new_lchan_def hist_ok_def meas_hist0_def cache_ok_def
      mr_cached_def buf_ok_def)

lemma wf_fresh_lchan_prim:
  "wf_prim p \<Longrightarrow> prim_chan p = c \<Longrightarrow> wf_lchan (fresh_lchan c \<lparr>cur_prim := Some p\<rparr>)"
  using wf_fresh_lchan [of c] by (simp add: wf_lchan_def cache_ok_def mr_cached_def fresh_lchan_def new_lchan_def)

definition fill_prim :: trx_ts_prim where
  "fill_prim = \<lparr>prim_chan = TRXC_SDCCH8_0, payload_len = 23, payload = replicate 23 0x2b\<rparr>"

definition new_req :: "u32 \<Rightarrow> nat \<Rightarrow> u8 \<Rightarrow> nat \<Rightarrow> sched_burst_req" where
  "new_req fn tn pwr bid = \<lparr>br_fn = fn, br_tn = tn, br_pwr = pwr, br_bid = bid,
     br_burst = replicate EDGE_BURST_LEN 0, br_burst_len = 0\<rparr>"

lemma wf_new_req: "bid < 4 \<Longrightarrow> wf_req (new_req fn tn pwr bid)"
  by (simp add: wf_req_def new_req_def)

end
