(* ===== verification/SchedLchanXcch.thy ===== *)
theory SchedLchanXcch
  imports SchedLchanCommon
begin

text \<open>
  The handlers of the block channels that fill four bursts: the signalling channels
  (\<open>sched_lchan_xcch.c\<close>) and the packet data channels (\<open>sched_lchan_pdtch.c\<close>).
\<close>

section \<open>Reception\<close>

definition rx_data_fn :: "codec \<Rightarrow> nat \<Rightarrow> 'a trx_phy_scheme \<Rightarrow> trx_lchan_state \<Rightarrow> u32 \<Rightarrow> nat
    \<Rightarrow> sbit list \<Rightarrow> trx_meas_set \<Rightarrow> rx_outcome" where
  "rx_data_fn cd tn trx lchan fn bid bits meas =
    (if rx_burst_mask lchan = 0 \<and> bid \<noteq> 0 then Some (0, lchan, [])
     else do {
       lchan \<leftarrow> rx_store_burst lchan bid (bid * 116) bits meas;
       if bid \<noteq> 3 then Some (0, lchan, [])
       else do {
         buffer \<leftarrow> rx_bursts lchan;
         avg \<leftarrow> sched_trx_meas_avg (meas_hist lchan) 4;
         let lchan = lchan\<lparr>meas_avg := avg, rx_burst_mask := push_bit 4 (rx_burst_mask lchan)\<rparr>;
         let (rc, l2, n_errors) = xcch_decode cd buffer;
         if rc \<noteq> 0 then Some (0, lchan, [sched_send_dt_ind tn trx lchan [] n_errors True False])
         else do {
           l2 \<leftarrow> mem_read l2 0 GSM_MACBLOCK_LEN;
           Some (0, lchan, [sched_send_dt_ind tn trx lchan l2 n_errors False False])
         }
       }
     })"

definition rx_pdtch_fn :: "codec \<Rightarrow> nat \<Rightarrow> 'a trx_phy_scheme \<Rightarrow> trx_lchan_state \<Rightarrow> u32 \<Rightarrow> nat
    \<Rightarrow> sbit list \<Rightarrow> trx_meas_set \<Rightarrow> rx_outcome" where
  "rx_pdtch_fn cd tn trx lchan fn bid bits meas =
    (if rx_burst_mask lchan = 0 \<and> bid \<noteq> 0 then Some (0, lchan, [])
     else do {
       lchan \<leftarrow> rx_store_burst lchan bid (bid * 116) bits meas;
       if bid \<noteq> 3 then Some (0, lchan, [])
       else do {
         buffer \<leftarrow> rx_bursts lchan;
         avg \<leftarrow> sched_trx_meas_avg (meas_hist lchan) 4;
         let lchan = lchan\<lparr>meas_avg := avg, rx_burst_mask := push_bit 4 (rx_burst_mask lchan)\<rparr>;
         let (rc, l2, n_errors) = pdtch_decode cd buffer;
         l2 \<leftarrow> mem_read l2 0 (if rc > 0 then nat rc else 0);
         Some (0, lchan, [sched_send_dt_ind tn trx lchan l2 n_errors (rc < 0) True])
       }
     })"

section \<open>Transmission\<close>

text \<open>From the label \<open>send_burst\<close> on; \<open>traffic\<close> is what the confirmation says.\<close>

definition tx_block_burst :: "bool \<Rightarrow> nat \<Rightarrow> 'a trx_phy_scheme \<Rightarrow> trx_lchan_state
    \<Rightarrow> sched_burst_req \<Rightarrow> tx_outcome" where
  "tx_block_burst traffic tn trx lchan br = do {
     (lchan, br) \<leftarrow> tx_compose_burst trx lchan br;
     if tx_burst_mask lchan AND 0x0f = 0x0f
     then Some (0, (sched_prim_drop lchan)\<lparr>tx_burst_mask := 0\<rparr>, br,
                [sched_send_dt_conf tn trx lchan (br_fn br) traffic])
     else Some (0, lchan, br, [])
   }"

definition tx_data_fn :: "codec \<Rightarrow> nat \<Rightarrow> 'a trx_phy_scheme \<Rightarrow> trx_lchan_state \<Rightarrow> sched_burst_req
    \<Rightarrow> tx_outcome" where
  "tx_data_fn cd tn trx lchan br =
    (if br_bid br > 0 then
       if tx_burst_mask lchan \<noteq> 0 then tx_block_burst False tn trx lchan br
       else Some (0, lchan, br, [])
     else do {
       prim \<leftarrow> cur_prim lchan;
       if payload_len prim \<noteq> GSM_MACBLOCK_LEN
       then Some (- EINVAL, sched_prim_drop lchan, br, [])
       else do {
         buffer \<leftarrow> tx_bursts lchan;
         pl \<leftarrow> mem_read (payload prim) 0 GSM_MACBLOCK_LEN;
         let (rc, buffer) = xcch_encode cd buffer pl;
         let lchan = lchan\<lparr>tx_bursts := Some buffer\<rparr>;
         if rc \<noteq> 0 then Some (- EINVAL, sched_prim_drop lchan, br, [])
         else tx_block_burst False tn trx lchan br
       }
     })"

definition tx_pdtch_fn :: "codec \<Rightarrow> nat \<Rightarrow> 'a trx_phy_scheme \<Rightarrow> trx_lchan_state \<Rightarrow> sched_burst_req
    \<Rightarrow> tx_outcome" where
  "tx_pdtch_fn cd tn trx lchan br =
    (if br_bid br > 0 then
       if tx_burst_mask lchan \<noteq> 0 then tx_block_burst True tn trx lchan br
       else Some (0, lchan, br, [])
     else do {
       prim \<leftarrow> cur_prim lchan;
       buffer \<leftarrow> tx_bursts lchan;
       pl \<leftarrow> mem_read (payload prim) 0 (payload_len prim);
       let (rc, buffer) = pdtch_encode cd buffer pl;
       let lchan = lchan\<lparr>tx_bursts := Some buffer\<rparr>;
       if rc < 0 then Some (- EINVAL, sched_prim_drop lchan, br, [])
       else tx_block_burst True tn trx lchan br
     })"


section \<open>The contracts\<close>

lemma tx_block_burst_ok:
  assumes "unat (tsc trx) < 8" "wf_lchan l" "tx_bursts l = Some b" "464 \<le> length b" "wf_req br"
  shows "\<exists>rc l' br' evs. tx_block_burst tr tn trx l br = Some (rc, l', br', evs)
    \<and> wf_lchan l' \<and> same_lchan l l' \<and> same_req br br' \<and> list_all to_l1ctl evs"
proof -
  let ?l = "l\<lparr>tx_burst_mask := tx_burst_mask l OR push_bit (br_bid br) 1\<rparr>"
  obtain br' where c: "tx_compose_burst trx l br = Some (?l, br')" "same_req br br'"
    using tx_compose_burst_ok [OF assms] by auto
  note w = wf_lchan_upd(2) [OF assms(2)]
  have "wf_lchan ?l" "wf_lchan (sched_prim_drop ?l\<lparr>tx_burst_mask := 0\<rparr>)"
    by (rule w, rule wf_lchan_upd(2) [OF wf_lchan_upd(6) [OF w]])
  moreover have "same_lchan l ?l" "same_lchan l (sched_prim_drop ?l\<lparr>tx_burst_mask := 0\<rparr>)"
    by (simp_all add: same_lchan_def sched_prim_drop_def)
  ultimately show ?thesis
    using c by (auto simp: tx_block_burst_def)
qed

lemma tx_data_fn_ok:
  assumes cd: "wf_codec cd" and "unat (tsc trx) < 8" "wf_lchan l" "active l" "served_by_tx TX_DATA l"
    and "cur_prim l \<noteq> None" "wf_req br"
  shows "\<exists>rc l' br' evs. tx_data_fn cd tn trx l br = Some (rc, l', br', evs)
    \<and> wf_lchan l' \<and> same_lchan l l' \<and> same_req br br' \<and> list_all to_l1ctl evs"
proof -
  obtain b where b: "tx_bursts l = Some b" "length b = 464"
    using wf_lchan_tx_buf [OF assms(3-5)] tx_fn_buf_size(1) [OF assms(5)] by auto
  obtain p where p: "cur_prim l = Some p" "length (payload p) = payload_len p"
    using assms(3,6) by (auto simp: wf_lchan_def wf_prim_def)
  note burst = tx_block_burst_ok [OF assms(2) _ _ _ assms(7)]
  show ?thesis
  proof (cases "br_bid br > 0")
    case True
    then show ?thesis using burst [OF assms(3) b(1)] b(2) assms(3) by (simp add: tx_data_fn_def)
  next
    case bid0: False
    show ?thesis
    proof (cases "payload_len p = 23")
      case False
      then show ?thesis using bid0 p assms(3) by (simp add: tx_data_fn_def wf_lchan_upd)
    next
      case True
      obtain rc b' where e: "xcch_encode cd b (payload p) = (rc, b')" by fastforce
      then have b': "length b' = 464"
        using wf_codec_encode(1) [OF cd] b(2) p(2) True by simp
      let ?l = "l\<lparr>tx_bursts := Some b'\<rparr>"
      have l: "wf_lchan ?l" using wf_lchan_upd(9) [OF assms(3) b(1)] b' b(2) by simp
      have "\<exists>rc l' br' evs. tx_block_burst False tn trx ?l br = Some (rc, l', br', evs)
          \<and> wf_lchan l' \<and> same_lchan l l' \<and> same_req br br' \<and> list_all to_l1ctl evs"
        using burst [OF l, of b' False tn] b' same_lchan_trans [OF same_lchan_upd(9)] by fastforce
      then show ?thesis
        using bid0 p True b e l wf_lchan_upd(6) [OF l]
        by (cases "rc = 0") (simp_all add: tx_data_fn_def mem_read_def Let_def)
    qed
  qed
qed

lemma tx_pdtch_fn_ok:
  assumes cd: "wf_codec cd" and "unat (tsc trx) < 8" "wf_lchan l" "active l" "served_by_tx TX_PDTCH l"
    and "cur_prim l \<noteq> None" "wf_req br"
  shows "\<exists>rc l' br' evs. tx_pdtch_fn cd tn trx l br = Some (rc, l', br', evs)
    \<and> wf_lchan l' \<and> same_lchan l l' \<and> same_req br br' \<and> list_all to_l1ctl evs"
proof -
  obtain b where b: "tx_bursts l = Some b" "length b = 1392"
    using wf_lchan_tx_buf [OF assms(3-5)] tx_fn_buf_size(2) [OF assms(5)] by auto
  obtain p where p: "cur_prim l = Some p" "length (payload p) = payload_len p"
    using assms(3,6) by (auto simp: wf_lchan_def wf_prim_def)
  note burst = tx_block_burst_ok [OF assms(2) _ _ _ assms(7)]
  show ?thesis
  proof (cases "br_bid br > 0")
    case True
    then show ?thesis using burst [OF assms(3) b(1)] b(2) assms(3) by (simp add: tx_pdtch_fn_def)
  next
    case bid0: False
    obtain rc b' where e: "pdtch_encode cd b (payload p) = (rc, b')" by fastforce
    then have b': "length b' = 1392"
      using wf_codec_encode(2) [OF cd] b(2) by simp
    let ?l = "l\<lparr>tx_bursts := Some b'\<rparr>"
    have l: "wf_lchan ?l" using wf_lchan_upd(9) [OF assms(3) b(1)] b' b(2) by simp
    have "\<exists>rc l' br' evs. tx_block_burst True tn trx ?l br = Some (rc, l', br', evs)
        \<and> wf_lchan l' \<and> same_lchan l l' \<and> same_req br br' \<and> list_all to_l1ctl evs"
      using burst [OF l, of b' True tn] b' same_lchan_trans [OF same_lchan_upd(9)] by fastforce
    then show ?thesis
      using bid0 p b e l wf_lchan_upd(6) [OF l]
      by (cases "rc < 0") (simp_all add: tx_pdtch_fn_def mem_read_def Let_def)
  qed
qed


lemma rx_data_fn_ok:
  assumes cd: "wf_codec cd" and l: "wf_lchan l" "active l" "served_by_rx RX_DATA l"
    and bid: "bid < 4" and bits: "GSM_BURST_LEN \<le> length bits"
  shows "\<exists>rc l' evs. rx_data_fn cd tn trx l fn bid bits meas = Some (rc, l', evs)
    \<and> wf_lchan l' \<and> same_lchan l l' \<and> cur_prim l' = cur_prim l \<and> list_all to_l1ctl evs"
proof (cases "rx_burst_mask l = 0 \<and> bid \<noteq> 0")
  case True
  then show ?thesis using l by (simp add: rx_data_fn_def)
next
  case go: False
  obtain b where b: "rx_bursts l = Some b" "length b = 464"
    using wf_lchan_rx_buf [OF l] rx_fn_buf_size(1) [OF l(3)] by auto
  then have "bid * 116 + 116 \<le> length b" using bid by simp
  from rx_store_burst_ok [OF l(1) b(1) this bits, of bid meas]
  obtain l1 b' where l1: "rx_store_burst l bid (bid * 116) bits meas = Some l1" "wf_lchan l1"
    "same_lchan l l1" "rx_bursts l1 = Some b'" "length b' = length b" "cur_prim l1 = cur_prim l"
    "meas_hist l1 = sched_trx_meas_push (meas_hist l) meas" by metis
  obtain avg where avg: "sched_trx_meas_avg (meas_hist l1) 4 = Some avg"
    using meas_avg_push [of 4] l1(7) by auto
  obtain rc l2 e where d: "xcch_decode cd b' = (rc, l2, e)" by (cases "xcch_decode cd b'")
  have l2: "rc = 0 \<Longrightarrow> 23 \<le> length l2"
    using wf_codec_decode(1) [OF cd] d b(2) l1(5) by auto
  let ?l' = "l1\<lparr>meas_avg := avg, rx_burst_mask := push_bit 4 (rx_burst_mask l1)\<rparr>"
  have "wf_lchan ?l'" "same_lchan l ?l'" "cur_prim ?l' = cur_prim l"
    using wf_lchan_upd(1) [OF wf_lchan_upd(3) [OF l1(2)]] l1(3,6) by (simp_all add: same_lchan_def)
  then show ?thesis
    using go l(1) l1(1-4,6) avg d l2
    by (cases "bid = 3"; cases "rc = 0") (simp_all add: rx_data_fn_def mem_read_def Let_def)
qed

lemma rx_pdtch_fn_ok:
  assumes cd: "wf_codec cd" and l: "wf_lchan l" "active l" "served_by_rx RX_PDTCH l"
    and bid: "bid < 4" and bits: "GSM_BURST_LEN \<le> length bits"
  shows "\<exists>rc l' evs. rx_pdtch_fn cd tn trx l fn bid bits meas = Some (rc, l', evs)
    \<and> wf_lchan l' \<and> same_lchan l l' \<and> cur_prim l' = cur_prim l \<and> list_all to_l1ctl evs"
proof (cases "rx_burst_mask l = 0 \<and> bid \<noteq> 0")
  case True
  then show ?thesis using l by (simp add: rx_pdtch_fn_def)
next
  case go: False
  have n: "464 \<le> ld_burst_buf_size (trx_lchan_desc (lchan_type l))"
    by (rule rx_fn_buf_size(2) [OF l(3)])
  then have "0 < ld_burst_buf_size (trx_lchan_desc (lchan_type l))" by linarith
  from wf_lchan_rx_buf [OF l this] n
  obtain b where b: "rx_bursts l = Some b" "464 \<le> length b" by metis
  then have "bid * 116 + 116 \<le> length b" using bid by simp
  from rx_store_burst_ok [OF l(1) b(1) this bits, of bid meas]
  obtain l1 b' where l1: "rx_store_burst l bid (bid * 116) bits meas = Some l1" "wf_lchan l1"
    "same_lchan l l1" "rx_bursts l1 = Some b'" "length b' = length b" "cur_prim l1 = cur_prim l"
    "meas_hist l1 = sched_trx_meas_push (meas_hist l) meas" by metis
  obtain avg where avg: "sched_trx_meas_avg (meas_hist l1) 4 = Some avg"
    using meas_avg_push [of 4] l1(7) by auto
  obtain rc l2 e where d: "pdtch_decode cd b' = (rc, l2, e)" by (cases "pdtch_decode cd b'")
  have l2: "nat rc \<le> length l2" "nat rc \<le> 128"
    using wf_codec_decode(2) [OF cd d] wf_codec_fits(1) [OF cd d] b(2) l1(5) by simp_all
  let ?l' = "l1\<lparr>meas_avg := avg, rx_burst_mask := push_bit 4 (rx_burst_mask l1)\<rparr>"
  have "wf_lchan ?l'" "same_lchan l ?l'" "cur_prim ?l' = cur_prim l"
    using wf_lchan_upd(1) [OF wf_lchan_upd(3) [OF l1(2)]] l1(3,6) by (simp_all add: same_lchan_def)
  then show ?thesis
    using go l(1) l1(1-4,6) avg d l2
    by (cases "bid = 3"; cases "rc > 0") (simp_all add: rx_pdtch_fn_def mem_read_def Let_def)
qed

interpretation xcch_tx: tx_handler_contract "\<lambda>tn trx l br. tx_data_fn cd tn trx l br"
  "\<lambda>l. wf_codec cd \<and> served_by_tx TX_DATA l" for cd
  by unfold_locales (blast intro: tx_data_fn_ok)

interpretation pdtch_tx: tx_handler_contract "\<lambda>tn trx l br. tx_pdtch_fn cd tn trx l br"
  "\<lambda>l. wf_codec cd \<and> served_by_tx TX_PDTCH l" for cd
  by unfold_locales (blast intro: tx_pdtch_fn_ok)

interpretation xcch_rx: rx_handler_contract "\<lambda>tn trx l fn bid bits meas. rx_data_fn cd tn trx l fn bid bits meas"
  "\<lambda>l. wf_codec cd \<and> served_by_rx RX_DATA l" 4 for cd
  by unfold_locales (blast intro: rx_data_fn_ok)

interpretation pdtch_rx: rx_handler_contract "\<lambda>tn trx l fn bid bits meas. rx_pdtch_fn cd tn trx l fn bid bits meas"
  "\<lambda>l. wf_codec cd \<and> served_by_rx RX_PDTCH l" 4 for cd
  by unfold_locales (blast intro: rx_pdtch_fn_ok)


section \<open>A whole block\<close>

text \<open>
  The handlers called for consecutive bursts of a block: the state is threaded through, the
  filled requests and the messages are collected in order.
\<close>

fun tx_run :: "(trx_lchan_state \<Rightarrow> sched_burst_req \<Rightarrow> tx_outcome) \<Rightarrow> trx_lchan_state
    \<Rightarrow> sched_burst_req list \<Rightarrow> (trx_lchan_state \<times> sched_burst_req list \<times> trx_event list) option" where
  "tx_run h l [] = Some (l, [], [])"
| "tx_run h l (br # brs) = do {
     (rc, l, br, es) \<leftarrow> h l br;
     (l, brs, es') \<leftarrow> tx_run h l brs;
     Some (l, br # brs, es @ es')
   }"

fun rx_run :: "(trx_lchan_state \<Rightarrow> 'b \<Rightarrow> rx_outcome) \<Rightarrow> trx_lchan_state
    \<Rightarrow> 'b list \<Rightarrow> (trx_lchan_state \<times> trx_event list) option" where
  "rx_run h l [] = Some (l, [])"
| "rx_run h l (b # bs) = do {
     (rc, l, es) \<leftarrow> h l b;
     (l, es') \<leftarrow> rx_run h l bs;
     Some (l, es @ es')
   }"

text \<open>The payload of a normal burst, and the soft bits a clean channel makes of hard ones.\<close>

definition burst_payload :: "'b list \<Rightarrow> 'b list" where
  "burst_payload b = take 58 (drop 3 b) @ take 58 (drop 87 b)"

definition soft :: "ubit \<Rightarrow> sbit" where
  "soft u = (if u = 0 then 127 else - 127)"

lemma burst_payload_composed:
  assumes "length t = 26" "length pl = 116" "148 \<le> length b"
  shows "burst_payload (blit b 0 (nb_burst t pl)) = pl"
proof -
  show ?thesis
    using nb_burst_payload [OF assms(1,2)] length_nb_burst [OF assms(1,2)]
    by (simp add: burst_payload_def blit_def)
qed

lemma chunks4:
  "length b = 464 \<Longrightarrow>
    take 116 b @ take 116 (drop 116 b) @ take 116 (drop 232 b) @ take 116 (drop 348 b) = b"
  using take_add [of 116 348 b] take_add [of 116 232 "drop 116 b"] take_add [of 116 116 "drop 232 b"]
  by (simp add: drop_drop)

lemma tx_block_step:
  assumes "unat (tsc trx) < 8" "tx_bursts l = Some b" "length b = 464" "wf_req br" "br_bid br = k" "k < 4"
    and "tx_burst_mask l = 2 ^ k - 1"
  shows "tx_block_burst tr tn trx l br =
    Some (0, (if k = 3 then (sched_prim_drop l)\<lparr>tx_burst_mask := 0\<rparr>
              else l\<lparr>tx_burst_mask := 2 ^ (k + 1) - 1\<rparr>),
          br\<lparr>br_burst := blit (br_burst br) 0 (nb_burst (sched_nb_training_bits ! unat (tsc trx))
                (take 116 (drop (k * 116) b))),
             br_burst_len := GSM_BURST_LEN\<rparr>,
          (if k = 3 then [sched_send_dt_conf tn trx l (br_fn br) tr] else []))"
proof -
  have "k = 0 \<or> k = 1 \<or> k = 2 \<or> k = 3" using assms(6) by auto
  moreover have "br_bid br * 116 + 116 \<le> length b" "length (br_burst br) = EDGE_BURST_LEN"
    using assms by (auto simp: wf_req_def)
  note tx_compose_burst_Some [OF assms(2,1) this]
  ultimately show ?thesis
    using assms(5,7)
    by (elim disjE) (simp_all add: tx_block_burst_def sched_send_dt_conf_def sched_prim_drop_def Let_def)
qed


lemma u8_masks:
  "(2 :: u8) ^ 0 - 1 = 0" "(2 :: u8) ^ 1 - 1 = 1" "(2 :: u8) ^ 2 - 1 = 3" "(2 :: u8) ^ 3 - 1 = 7"
  by simp_all

text \<open>The four requests of a block.\<close>

definition block_reqs :: "sched_burst_req list \<Rightarrow> bool" where
  "block_reqs brs \<longleftrightarrow> length brs = 4 \<and> (\<forall>br \<in> set brs. wf_req br) \<and> map br_bid brs = [0, 1, 2, 3]"

lemma block_reqsE:
  assumes "block_reqs brs"
  obtains r0 r1 r2 r3 where "brs = [r0, r1, r2, r3]" "wf_req r0" "wf_req r1" "wf_req r2" "wf_req r3"
    "br_bid r0 = 0" "br_bid r1 = 1" "br_bid r2 = 2" "br_bid r3 = 3"
  using assms unfolding block_reqs_def
  by (auto simp: length_Suc_conv numeral_eq_Suc)

lemma tx_block_cont:
  assumes "unat (tsc trx) < 8" "tx_bursts l = Some b" "length b = 464" "wf_req br" "br_bid br = k" "0 < k" "k < 4"
    and "tx_burst_mask l = 2 ^ k - 1"
  shows "tx_data_fn cd tn trx l br = tx_block_burst False tn trx l br"
proof -
  have "k = 1 \<or> k = 2 \<or> k = 3" using assms(6,7) by auto
  then have "tx_burst_mask l \<noteq> 0" using assms(8) by (elim disjE) simp_all
  then show ?thesis using assms(5,6) by (simp add: tx_data_fn_def)
qed


lemma tx_data_block:
  assumes tsc: "unat (tsc trx) < 8" and l: "wf_lchan l" "active l" "served_by_tx TX_DATA l"
    and prim: "cur_prim l = Some p" "payload_len p = GSM_MACBLOCK_LEN" and mask: "tx_burst_mask l = 0"
    and enc: "xcch_encode cd (the (tx_bursts l)) (payload p) = (0, b)" "length b = 464"
    and brs: "block_reqs brs"
  obtains brs' where
    "tx_run (tx_data_fn cd tn trx) l brs =
      Some (l\<lparr>tx_bursts := Some b, cur_prim := None\<rparr>, brs',
            [sched_send_dt_conf tn trx l (br_fn (brs ! 3)) False])"
    "concat (map (\<lambda>br. burst_payload (br_burst br)) brs') = b"
    "\<forall>br \<in> set brs'. br_burst_len br = GSM_BURST_LEN"
    "list_all2 same_req brs brs'"
proof -
  obtain r0 r1 r2 r3 where r: "brs = [r0, r1, r2, r3]" "wf_req r0" "wf_req r1" "wf_req r2" "wf_req r3"
    "br_bid r0 = 0" "br_bid r1 = 1" "br_bid r2 = 2" "br_bid r3 = 3"
    using block_reqsE [OF brs] .
  obtain b0 where b0: "tx_bursts l = Some b0"
    using wf_lchan_tx_buf [OF l] tx_fn_buf_size(1) [OF l(3)] by auto
  have pl: "length (payload p) = 23" using l(1) prim by (auto simp: wf_lchan_def wf_prim_def)
  let ?t = "sched_nb_training_bits ! unat (tsc trx)"
  define fill where "fill k br = br\<lparr>br_burst := blit (br_burst br) 0 (nb_burst ?t (take 116 (drop (k * 116) b))),
      br_burst_len := GSM_BURST_LEN\<rparr>" for k and br :: sched_burst_req
  let ?l = "\<lambda>k. l\<lparr>tx_bursts := Some b, tx_burst_mask := 2 ^ k - 1\<rparr>"
  have len: "length (br_burst r) = 444" if "wf_req r" for r using that by (simp add: wf_req_def)
  have f: "burst_payload (br_burst (fill k r)) = take 116 (drop (k * 116) b)"
      "br_burst_len (fill k r) = GSM_BURST_LEN" "same_req r (fill k r)"
    if "k < 4" "wf_req r" for k r
  proof -
    have *: "length (take 116 (drop (k * 116) b)) = 116" using enc(2) that by auto
    show "burst_payload (br_burst (fill k r)) = take 116 (drop (k * 116) b)"
      using burst_payload_composed [OF length_training_row [OF tsc] *] len [OF that(2)]
      by (simp add: fill_def)
    show "br_burst_len (fill k r) = GSM_BURST_LEN" "same_req r (fill k r)"
      using length_nb_burst [OF length_training_row [OF tsc] *] len [OF that(2)]
      by (simp_all add: fill_def same_req_def)
  qed
  have s0: "tx_data_fn cd tn trx l r0 = Some (0, ?l 1, fill 0 r0, [])"
    using tx_block_step [OF tsc, of "l\<lparr>tx_bursts := Some b\<rparr>" b r0 0 False tn] r(2,6) mask prim b0 enc pl
    by (simp add: tx_data_fn_def mem_read_def fill_def Let_def)
  have s: "tx_data_fn cd tn trx (?l k) r = Some (0, ?l (k + 1), fill k r, [])"
    if "wf_req r" "br_bid r = k" "0 < k" "k < 3" for k r
    unfolding tx_block_cont [OF tsc _ enc(2) that(1,2,3), of "?l k" cd tn]
    using tx_block_cont [OF tsc _ enc(2) that(1,2,3), of "?l k" cd tn]
      tx_block_step [OF tsc _ enc(2) that(1,2), of "?l k" False tn] that
    by (simp add: fill_def)
  have s3: "tx_data_fn cd tn trx (?l 3) r3 = Some (0, l\<lparr>tx_bursts := Some b, cur_prim := None\<rparr>, fill 3 r3,
      [sched_send_dt_conf tn trx l (br_fn r3) False])"
    using tx_block_cont [OF tsc _ enc(2) r(5,9), of "?l 3" cd tn]
      tx_block_step [OF tsc _ enc(2) r(5,9), of "?l 3" False tn] mask
    by (simp add: fill_def sched_prim_drop_def sched_send_dt_conf_def Let_def)
  show thesis
  proof (rule that [of "[fill 0 r0, fill 1 r1, fill 2 r2, fill 3 r3]"])
    show "tx_run (tx_data_fn cd tn trx) l brs =
      Some (l\<lparr>tx_bursts := Some b, cur_prim := None\<rparr>, [fill 0 r0, fill 1 r1, fill 2 r2, fill 3 r3],
            [sched_send_dt_conf tn trx l (br_fn (brs ! 3)) False])"
      using s0 s [OF r(3,7)] s [OF r(4,8)] s3 by (simp add: r(1))
    show "concat (map (\<lambda>br. burst_payload (br_burst br)) [fill 0 r0, fill 1 r1, fill 2 r2, fill 3 r3]) = b"
      using f(1) [OF _ r(2), of 0] f(1) [OF _ r(3), of 1] f(1) [OF _ r(4), of 2] f(1) [OF _ r(5), of 3]
        chunks4 [OF enc(2)] by simp
  qed (use f(2,3) r(1-5) in auto)
qed


lemma or_bit_nonzero: "k < 8 \<Longrightarrow> (m :: u8) OR push_bit k 1 \<noteq> 0"
proof
  assume "k < 8" "m OR push_bit k 1 = 0"
  then have "bit (m OR push_bit k 1) k = bit (0 :: u8) k" by simp
  then show False using \<open>k < 8\<close> by (simp add: bit_simps)
qed

lemma blit_chain:
  assumes "length b = 464" "length p0 = 116" "length p1 = 116" "length p2 = 116" "length p3 = 116"
  shows "blit (blit (blit (blit b 0 p0) 116 p1) 232 p2) 348 p3 = p0 @ p1 @ p2 @ p3"
  using assms by (simp add: blit_def)

lemma length_burst_payload: "GSM_BURST_LEN \<le> length bits \<Longrightarrow> length (burst_payload bits) = 116"
  by (simp add: burst_payload_def)

text \<open>One received burst: the state of the channel after it, with the buffer it leaves.\<close>

lemma rx_data_step:
  assumes l: "wf_lchan l" "rx_bursts l = Some b" "length b = 464" and bits: "GSM_BURST_LEN \<le> length bits"
    and bid: "bid < 4" "bid = 0 \<or> rx_burst_mask l \<noteq> 0"
  obtains l' where "wf_lchan l'" "same_lchan l l'" "cur_prim l' = cur_prim l" "rx_burst_mask l' \<noteq> 0"
    "rx_bursts l' = Some (blit b (bid * 116) (burst_payload bits))"
    "meas_hist l' = sched_trx_meas_push (meas_hist l) meas"
    "rx_data_fn cd tn trx l fn bid bits meas =
      (if bid \<noteq> 3 then Some (0, l', [])
       else do {
         avg \<leftarrow> sched_trx_meas_avg (meas_hist l') 4;
         let l' = l'\<lparr>meas_avg := avg, rx_burst_mask := push_bit 4 (rx_burst_mask l')\<rparr>;
         let (rc, l2, n_errors) = xcch_decode cd (blit b (bid * 116) (burst_payload bits));
         if rc \<noteq> 0 then Some (0, l', [sched_send_dt_ind tn trx l' [] n_errors True False])
         else do {
           l2 \<leftarrow> mem_read l2 0 GSM_MACBLOCK_LEN;
           Some (0, l', [sched_send_dt_ind tn trx l' l2 n_errors False False])
         }
       })"
proof -
  have off: "bid * 116 + 116 \<le> length b" using bid(1) l(3) by simp
  from rx_store_burst_ok [OF l(1,2) off bits, of bid meas]
  obtain l1 where l1: "rx_store_burst l bid (bid * 116) bits meas = Some l1" "wf_lchan l1" "same_lchan l l1"
    "cur_prim l1 = cur_prim l" "meas_hist l1 = sched_trx_meas_push (meas_hist l) meas"
    "rx_bursts l1 = Some (blit b (bid * 116) (burst_payload bits))"
    "rx_burst_mask l1 = rx_burst_mask l OR push_bit bid 1"
    unfolding burst_payload_def by metis
  have mask: "rx_burst_mask l1 \<noteq> 0" using l1(7) bid(1) or_bit_nonzero [of bid] by simp
  have go: "\<not> (rx_burst_mask l = 0 \<and> bid \<noteq> 0)" using bid(2) by blast
  show thesis
    by (rule that [OF l1(2-4) mask l1(6,5)])
      (simp only: rx_data_fn_def if_not_P [OF go] l1(1) bind.simps option.sel l1(6))
qed


type_synonym rx_item = "u32 \<times> nat \<times> sbit list \<times> trx_meas_set"

definition block_items :: "rx_item list \<Rightarrow> bool" where
  "block_items its \<longleftrightarrow> map (\<lambda>(fn, bid, bits, meas). bid) its = [0, 1, 2, 3]
    \<and> (\<forall>(fn, bid, bits, meas) \<in> set its. GSM_BURST_LEN \<le> length bits)"

abbreviation rx_data_run :: "codec \<Rightarrow> nat \<Rightarrow> 'a trx_phy_scheme \<Rightarrow> trx_lchan_state \<Rightarrow> rx_item list
    \<Rightarrow> (trx_lchan_state \<times> trx_event list) option" where
  "rx_data_run cd tn trx \<equiv> rx_run (\<lambda>l (fn, bid, bits, meas). rx_data_fn cd tn trx l fn bid bits meas)"

lemma rx_data_block:
  assumes l: "wf_lchan l" "active l" "served_by_rx RX_DATA l" and its: "block_items its"
    and dec: "xcch_decode cd (concat (map (\<lambda>(fn, bid, bits, meas). burst_payload bits) its)) = (0, pl, e)"
    and pl: "GSM_MACBLOCK_LEN \<le> length pl"
  obtains l' where
    "rx_data_run cd tn trx l its
      = Some (l', [sched_send_dt_ind tn trx l' (take GSM_MACBLOCK_LEN pl) e False False])"
    "wf_lchan l'" "same_lchan l l'"
    "sched_trx_meas_avg (fold (\<lambda>(fn, bid, bits, meas) h. sched_trx_meas_push h meas) its (meas_hist l)) 4
      = Some (meas_avg l')"
proof -
  obtain f0 x0 m0 f1 x1 m1 f2 x2 m2 f3 x3 m3 where
    i: "its = [(f0, 0, x0, m0), (f1, 1, x1, m1), (f2, 2, x2, m2), (f3, 3, x3, m3)]"
    and x: "148 \<le> length x0" "148 \<le> length x1" "148 \<le> length x2" "148 \<le> length x3"
    using its unfolding block_items_def by (auto simp: map_eq_Cons_conv)
  obtain b where b: "rx_bursts l = Some b" "length b = 464"
    using wf_lchan_rx_buf [OF l] rx_fn_buf_size(1) [OF l(3)] by auto
  let ?p = burst_payload
  obtain l0 where l0: "wf_lchan l0" "same_lchan l l0" "rx_burst_mask l0 \<noteq> 0"
    "rx_bursts l0 = Some (blit b 0 (?p x0))" "meas_hist l0 = sched_trx_meas_push (meas_hist l) m0"
    "rx_data_fn cd tn trx l f0 0 x0 m0 = Some (0, l0, [])"
    by (rule rx_data_step [OF l(1) b x(1), of 0 m0 cd tn trx f0]) simp_all
  have b0: "length (blit b 0 (?p x0)) = 464" using b(2) length_burst_payload [OF x(1)] by simp
  obtain l1 where l1: "wf_lchan l1" "same_lchan l0 l1" "rx_burst_mask l1 \<noteq> 0"
    "rx_bursts l1 = Some (blit (blit b 0 (?p x0)) 116 (?p x1))"
    "meas_hist l1 = sched_trx_meas_push (meas_hist l0) m1"
    "rx_data_fn cd tn trx l0 f1 1 x1 m1 = Some (0, l1, [])"
    by (rule rx_data_step [OF l0(1,4) b0 x(2), of 1 m1 cd tn trx f1]) (use l0(3) in simp_all)
  have b1: "length (blit (blit b 0 (?p x0)) 116 (?p x1)) = 464" using b0 length_burst_payload [OF x(2)] by simp
  obtain l2 where l2: "wf_lchan l2" "same_lchan l1 l2" "rx_burst_mask l2 \<noteq> 0"
    "rx_bursts l2 = Some (blit (blit (blit b 0 (?p x0)) 116 (?p x1)) 232 (?p x2))"
    "meas_hist l2 = sched_trx_meas_push (meas_hist l1) m2"
    "rx_data_fn cd tn trx l1 f2 2 x2 m2 = Some (0, l2, [])"
    by (rule rx_data_step [OF l1(1,4) b1 x(3), of 2 m2 cd tn trx f2]) (use l1(3) in simp_all)
  let ?b2 = "blit (blit (blit b 0 (?p x0)) 116 (?p x1)) 232 (?p x2)"
  have b2: "length ?b2 = 464" using b1 length_burst_payload [OF x(3)] by simp
  have all: "blit ?b2 348 (?p x3) = ?p x0 @ ?p x1 @ ?p x2 @ ?p x3"
    by (rule blit_chain [OF b(2) x [THEN length_burst_payload]])
  obtain a where a: "sched_trx_meas_avg (sched_trx_meas_push (meas_hist l2) m3) 4 = Some a"
    using meas_avg_push [of 4] by auto
  have dec': "xcch_decode cd (?p x0 @ ?p x1 @ ?p x2 @ ?p x3) = (0, pl, e)" using dec by (simp add: i)
  obtain l3 where l3: "wf_lchan l3" "same_lchan l2 l3" "meas_hist l3 = sched_trx_meas_push (meas_hist l2) m3"
    "rx_data_fn cd tn trx l2 f3 3 x3 m3 =
      (let l' = l3\<lparr>meas_avg := a, rx_burst_mask := push_bit 4 (rx_burst_mask l3)\<rparr>
       in Some (0, l', [sched_send_dt_ind tn trx l' (take 23 pl) e False False]))"
    by (rule rx_data_step [OF l2(1,4) b2 x(4), of 3 m3 cd tn trx f3])
      (use l2(3) all dec' a pl in \<open>simp_all add: mem_read_def Let_def\<close>)
  let ?l = "l3\<lparr>meas_avg := a, rx_burst_mask := push_bit 4 (rx_burst_mask l3)\<rparr>"
  show thesis
  proof (rule that [of ?l])
    show "wf_lchan ?l" using wf_lchan_upd(1) [OF wf_lchan_upd(3) [OF l3(1)]] by simp
    show "same_lchan l ?l"
      using l0(2) l1(2) l2(2) l3(2) by (simp add: same_lchan_def)
  qed (use l0(5,6) l1(5,6) l2(5,6) l3(4) a in \<open>simp_all add: i Let_def\<close>)
qed

text \<open>
  A signalling block crosses the air interface. When a channel is given a 23 octet
  frame, the transmitter fills exactly four normal bursts and confirms the frame once, with
  the frame number of the last burst, leaving the channel idle; and a receiver of the same
  kind of channel, in any state of its own, that gets these bursts as soft bits indicates
  that frame, once, whatever measurements come with the bursts -- provided the channel
  decoder inverts the channel encoder on that frame.
\<close>

theorem xcch_block_roundtrip:
  assumes "unat (tsc trx) < 8"
    and "wf_lchan l" "active l" "served_by_tx TX_DATA l" "tx_burst_mask l = 0"
    and "cur_prim l = Some p" "payload_len p = GSM_MACBLOCK_LEN"
    and "xcch_encode cd (the (tx_bursts l)) (payload p) = (0, b)" "length b = 464"
    and "xcch_decode cd (map soft b) = (0, payload p, e)"
    and "block_reqs brs"
    and "wf_lchan m" "active m" "served_by_rx RX_DATA m" "length ms = 4" "length fns = 4"
  shows "\<exists>l' brs' m'.
    tx_run (tx_data_fn cd tn trx) l brs
      = Some (l', brs', [sched_send_dt_conf tn trx l (br_fn (brs ! 3)) False])
    \<and> cur_prim l' = None \<and> tx_burst_mask l' = 0
    \<and> (\<forall>br \<in> set brs'. br_burst_len br = GSM_BURST_LEN)
    \<and> rx_data_run cd tn' trx' m (zip fns (zip [0..<4] (zip (map (map soft \<circ> br_burst) brs') ms)))
      = Some (m', [sched_send_dt_ind tn' trx' m' (payload p) e False False])"
proof -
  from tx_data_block [OF assms(1-4,6,7,5,8,9,11), of tn]
  obtain brs' where t: "tx_run (tx_data_fn cd tn trx) l brs =
      Some (l\<lparr>tx_bursts := Some b, cur_prim := None\<rparr>, brs',
            [sched_send_dt_conf tn trx l (br_fn (brs ! 3)) False])"
    "concat (map (\<lambda>br. burst_payload (br_burst br)) brs') = b"
    "\<forall>br \<in> set brs'. br_burst_len br = GSM_BURST_LEN" "list_all2 same_req brs brs'" .
  let ?its = "zip fns (zip [0..<4] (zip (map (map soft \<circ> br_burst) brs') ms))"
  obtain r0 r1 r2 r3 where r: "brs = [r0, r1, r2, r3]" "wf_req r0" "wf_req r1" "wf_req r2" "wf_req r3"
    "br_bid r0 = 0" "br_bid r1 = 1" "br_bid r2 = 2" "br_bid r3 = 3"
    using block_reqsE [OF assms(11)] .
  obtain s0 s1 s2 s3 where s: "brs' = [s0, s1, s2, s3]" "same_req r0 s0" "same_req r1 s1" "same_req r2 s2"
    "same_req r3 s3"
    using t(4) unfolding r(1) by (auto simp: list_all2_Cons1)
  have len: "148 \<le> length (br_burst q)" if "same_req q' q" "wf_req q'" for q q'
    using that by (simp add: same_req_def wf_req_def)
  obtain f0 f1 f2 f3 m0 m1 m2 m3 where fm: "fns = [f0, f1, f2, f3]" "ms = [m0, m1, m2, m3]"
    using assms(15,16) by (auto simp: length_Suc_conv numeral_eq_Suc)
  have its: "?its = [(f0, 0, map soft (br_burst s0), m0), (f1, 1, map soft (br_burst s1), m1),
      (f2, 2, map soft (br_burst s2), m2), (f3, 3, map soft (br_burst s3), m3)]"
    by (simp add: s(1) fm upt_rec)
  have ok: "block_items ?its"
    using len [OF s(2) r(2)] len [OF s(3) r(3)] len [OF s(4) r(4)] len [OF s(5) r(5)]
    unfolding its block_items_def by simp
  have "burst_payload (map soft x) = map soft (burst_payload x)" for x
    by (simp add: burst_payload_def take_map drop_map)
  then have "concat (map (\<lambda>(fn, bid, bits, meas). burst_payload bits) ?its) = map soft b"
    using t(2) unfolding its by (simp add: s(1) flip: map_append)
  then have dec: "xcch_decode cd (concat (map (\<lambda>(fn, bid, bits, meas). burst_payload bits) ?its))
      = (0, payload p, e)" using assms(10) by simp
  have "length (payload p) = 23" using assms(2,6,7) by (auto simp: wf_lchan_def wf_prim_def)
  with rx_data_block [OF assms(12-14) ok dec, of tn' trx']
  obtain m' where "rx_data_run cd tn' trx' m ?its
      = Some (m', [sched_send_dt_ind tn' trx' m' (payload p) e False False])" by auto
  then show ?thesis using t(1,3) assms(5) by auto
qed


theorem xcch_block_roundtrip_witness:
  "\<exists>l' brs' m'.
    tx_run (tx_data_fn fixed_codec 0 phy0) (fresh_lchan TRXC_SDCCH8_0 \<lparr>cur_prim := Some fill_prim\<rparr>)
        (map (\<lambda>i. new_req 7 0 0 i) [0..<4])
      = Some (l', brs', [sched_send_dt_conf 0 phy0 (fresh_lchan TRXC_SDCCH8_0) 7 False])
    \<and> rx_data_run fixed_codec 0 phy0 (fresh_lchan TRXC_SDCCH8_0)
        (zip [4, 5, 6, 7] (zip [0..<4] (zip (map (map soft \<circ> br_burst) brs') (replicate 4 meas0))))
      = Some (m', [sched_send_dt_ind 0 phy0 m' (replicate 23 0x2b) 0 False False])"
proof -
  let ?p = fill_prim and ?l = "fresh_lchan TRXC_SDCCH8_0"
  have 1: "block_reqs (map (\<lambda>i. new_req 7 0 0 i) [0..<4])"
    by (simp add: block_reqs_def upt_rec wf_req_def new_req_def)
  have 2: "wf_lchan ?l" "wf_lchan (?l\<lparr>cur_prim := Some ?p\<rparr>)"
    by (rule wf_fresh_lchan, rule wf_fresh_lchan_prim) (simp_all add: fill_prim_def wf_prim_def chan_is_sacch_def)
  have 3: "(map (\<lambda>i. new_req 7 0 0 i) [0..<4]) ! 3 = new_req 7 0 0 3" by simp
  show ?thesis
    using xcch_block_roundtrip [of phy0 "?l\<lparr>cur_prim := Some ?p\<rparr>" ?p fixed_codec "replicate 464 0" 0
        "map (\<lambda>i. new_req 7 0 0 i) [0..<4]" ?l "replicate 4 meas0" "[4, 5, 6, 7]" 0 0 phy0] 1 2
    unfolding 3
    by (auto simp: fresh_lchan_def fixed_codec_def fill_prim_def phy0_def new_req_def
        sched_send_dt_conf_def new_lchan_def Let_def)
qed

end
