(* ===== verification/SchedLchanTch.thy ===== *)
theory SchedLchanTch
  imports SchedLchanCommon
begin

text \<open>
  The handlers of the traffic channels: TCH/F over eight bursts
  (\<open>sched_lchan_tchf.c\<close>) and the interleaved TCH/H (\<open>sched_lchan_tchh.c\<close>).
\<close>

section \<open>Bad frame indications\<close>

text \<open>
  From the label \<open>bfi\<close> on, shared by both receivers: a frame that was not decoded gets
  faked measurements, with the frame number \<open>first_fn\<close>.
\<close>

definition rx_tch_bfi :: "nat \<Rightarrow> 'a trx_phy_scheme \<Rightarrow> trx_lchan_state \<Rightarrow> int \<Rightarrow> u32 \<Rightarrow> rx_outcome" where
  "rx_tch_bfi tn trx lchan n_errors first_fn =
    (let lchan = (if n_errors < 0
                  then lchan\<lparr>meas_avg := \<lparr>meas_fn = first_fn, meas_toa256 = 0, meas_rssi = -110\<rparr>\<rparr>
                  else lchan);
         n_errors = (if n_errors < 0 then 0 else n_errors)
     in if tch_mode lchan = GSM48_CMODE_SIGN
        then Some (0, lchan, [sched_send_dt_ind tn trx lchan [] n_errors True False])
        else Some (0, lchan, [sched_send_dt_ind tn trx lchan (sched_bad_frame_ind lchan) n_errors True True]))"

text \<open>Prepend the events of an earlier call.\<close>

definition add_events :: "trx_event list \<Rightarrow> rx_outcome \<Rightarrow> rx_outcome" where
  "add_events evs r = map_option (\<lambda>(rc, l, es). (rc, l, evs @ es)) r"

section \<open>TCH/F\<close>

text \<open>\<open>memcpy(buffer, buffer + from, len)\<close>.\<close>

definition mem_shift :: "'b list \<Rightarrow> nat \<Rightarrow> nat \<Rightarrow> nat \<Rightarrow> 'b list option" where
  "mem_shift buffer to from len = do { a \<leftarrow> mem_read buffer from len; mem_write buffer to a }"

text \<open>The check of the decoding result, the buffer being shifted already.\<close>

definition rx_tchf_result :: "nat \<Rightarrow> 'a trx_phy_scheme \<Rightarrow> trx_lchan_state \<Rightarrow> int \<times> u8 list \<times> int
    \<Rightarrow> rx_outcome" where
  "rx_tchf_result tn trx lchan r =
    (let (rc, l2, n_errors) = r; first_fn = meas_fn (meas_avg lchan) in
     if rc < 4 then rx_tch_bfi tn trx lchan n_errors first_fn
     else do {
       l2 \<leftarrow> mem_read l2 0 (nat rc);
       if rc = int GSM_MACBLOCK_LEN
       then add_events [sched_send_dt_ind tn trx lchan l2 n_errors False False]
              (rx_tch_bfi tn trx lchan (-1) first_fn)
       else Some (0, lchan, [sched_send_dt_ind tn trx lchan l2 n_errors False True])
     })"

text \<open>The switch on the mode, the decoding and the shift of the buffer.\<close>

definition rx_tchf_decode :: "codec \<Rightarrow> nat \<Rightarrow> 'a trx_phy_scheme \<Rightarrow> trx_lchan_state \<Rightarrow> rx_outcome" where
  "rx_tchf_decode cd tn trx lchan =
    (let mode = tch_mode lchan in
     if mode = GSM48_CMODE_SPEECH_AMR then Some (- ENOTSUP, lchan, [])
     else if mode \<noteq> GSM48_CMODE_SIGN \<and> mode \<noteq> GSM48_CMODE_SPEECH_V1
             \<and> mode \<noteq> GSM48_CMODE_SPEECH_EFR
     then Some (- EINVAL, lchan, [])
     else do {
       buffer \<leftarrow> rx_bursts lchan;
       shifted \<leftarrow> mem_shift buffer 0 464 464;
       rx_tchf_result tn trx (lchan\<lparr>rx_bursts := Some shifted\<rparr>)
         (tch_fr_decode cd buffer (mode = GSM48_CMODE_SPEECH_EFR))
     })"

definition rx_tchf_fn :: "codec \<Rightarrow> nat \<Rightarrow> 'a trx_phy_scheme \<Rightarrow> trx_lchan_state \<Rightarrow> u32 \<Rightarrow> nat
    \<Rightarrow> sbit list \<Rightarrow> trx_meas_set \<Rightarrow> rx_outcome" where
  "rx_tchf_fn cd tn trx lchan fn bid bits meas =
    (if rx_burst_mask lchan = 0 \<and> bid \<noteq> 0 then Some (0, lchan, [])
     else do {
       lchan \<leftarrow> rx_store_burst lchan bid (bid * 116 + 464) bits meas;
       if bid \<noteq> 3 then Some (0, lchan, [])
       else do {
         avg \<leftarrow> sched_trx_meas_avg (meas_hist lchan) 8;
         rx_tchf_decode cd tn trx
           (lchan\<lparr>meas_avg := avg, rx_burst_mask := push_bit 4 (rx_burst_mask lchan)\<rparr>)
       }
     })"

text \<open>From the label \<open>send_burst\<close> on.\<close>

definition tx_tchf_burst :: "nat \<Rightarrow> 'a trx_phy_scheme \<Rightarrow> trx_lchan_state \<Rightarrow> sched_burst_req
    \<Rightarrow> tx_outcome" where
  "tx_tchf_burst tn trx lchan br = do {
     (lchan, br) \<leftarrow> tx_compose_burst trx lchan br;
     if tx_burst_mask lchan = 0x0f
     then do {
       prim \<leftarrow> cur_prim lchan;
       Some (0, (sched_prim_drop lchan)\<lparr>tx_burst_mask := 0\<rparr>, br,
             [sched_send_dt_conf tn trx lchan (br_fn br) (prim_is_tch prim)])
     }
     else Some (0, lchan, br, [])
   }"

definition tx_tchf_fn :: "codec \<Rightarrow> nat \<Rightarrow> 'a trx_phy_scheme \<Rightarrow> trx_lchan_state \<Rightarrow> sched_burst_req
    \<Rightarrow> tx_outcome" where
  "tx_tchf_fn cd tn trx lchan br =
    (let mode = tch_mode lchan in
     if tx_burst_mask lchan \<noteq> 0 then tx_tchf_burst tn trx lchan br
     else if br_bid br > 0 then Some (0, lchan, br, [])
     else if mode = GSM48_CMODE_SPEECH_AMR then Some (- ENOTSUP, sched_prim_drop lchan, br, [])
     else if mode \<noteq> GSM48_CMODE_SIGN \<and> mode \<noteq> GSM48_CMODE_SPEECH_V1
             \<and> mode \<noteq> GSM48_CMODE_SPEECH_EFR
     then Some (- EINVAL, sched_prim_drop lchan, br, [])
     else do {
       let l2_len = (if mode = GSM48_CMODE_SPEECH_EFR then GSM_EFR_BYTES else GSM_FR_BYTES);
       prim \<leftarrow> cur_prim lchan;
       if payload_len prim \<noteq> GSM_MACBLOCK_LEN \<and> payload_len prim \<noteq> l2_len
       then Some (- EINVAL, sched_prim_drop lchan, br, [])
       else do {
         let l2_len = (if payload_len prim = GSM_MACBLOCK_LEN then GSM_MACBLOCK_LEN else l2_len);
         buffer \<leftarrow> tx_bursts lchan;
         buffer \<leftarrow> mem_shift buffer 0 464 464;
         pl \<leftarrow> mem_read (payload prim) 0 l2_len;
         let (rc, buffer) = tch_fr_encode cd buffer pl;
         let lchan = lchan\<lparr>tx_bursts := Some buffer\<rparr>;
         if rc \<noteq> 0 then Some (- EINVAL, sched_prim_drop lchan, br, [])
         else tx_tchf_burst tn trx lchan br
       }
     })"

section \<open>TCH/H\<close>

text \<open>The two copies that move the burst buffer on by two bursts.\<close>

definition tchh_shift :: "'b list \<Rightarrow> 'b list option" where
  "tchh_shift buffer = do {
     buffer \<leftarrow> mem_shift buffer 0 232 232;
     mem_shift buffer 232 464 232
   }"

text \<open>From the label \<open>bfi_shift\<close> on: nothing was decoded (\<open>n_errors = -1\<close>).\<close>

definition rx_tchh_bfi_shift :: "nat \<Rightarrow> 'a trx_phy_scheme \<Rightarrow> trx_lchan_state \<Rightarrow> u32 \<Rightarrow> rx_outcome" where
  "rx_tchh_bfi_shift tn trx lchan fn = do {
     buffer \<leftarrow> rx_bursts lchan;
     buffer \<leftarrow> tchh_shift buffer;
     let lchan = lchan\<lparr>rx_bursts := Some buffer, rx_burst_mask := push_bit 2 (rx_burst_mask lchan)\<rparr>;
     first_fn \<leftarrow> sched_tchh_block_dl_first_fn (lchan_type lchan) fn False;
     rx_tch_bfi tn trx lchan (-1) first_fn
   }"

definition rx_tchh_result :: "nat \<Rightarrow> 'a trx_phy_scheme \<Rightarrow> trx_lchan_state \<Rightarrow> u32
    \<Rightarrow> int \<times> u8 list \<times> int \<Rightarrow> rx_outcome" where
  "rx_tchh_result tn trx lchan first_fn r =
    (let (rc, l2, n_errors) = r in
     if rc < 4 then do {
       avg \<leftarrow> sched_trx_meas_avg (meas_hist lchan) 4;
       rx_tch_bfi tn trx (lchan\<lparr>meas_avg := avg\<rparr>) n_errors first_fn
     }
     else do {
       l2 \<leftarrow> mem_read l2 0 (nat rc);
       if rc = int GSM_MACBLOCK_LEN then do {
         avg \<leftarrow> sched_trx_meas_avg (meas_hist lchan) 6;
         let lchan = lchan\<lparr>dl_ongoing_facch := True, meas_avg := avg\<rparr>;
         add_events [sched_send_dt_ind tn trx lchan l2 n_errors False False]
           (rx_tch_bfi tn trx lchan (-1) first_fn)
       }
       else do {
         avg \<leftarrow> sched_trx_meas_avg (meas_hist lchan) 4;
         let lchan = lchan\<lparr>meas_avg := avg\<rparr>;
         Some (0, lchan, [sched_send_dt_ind tn trx lchan l2 n_errors False True])
       }
     })"

definition rx_tchh_decode :: "codec \<Rightarrow> nat \<Rightarrow> 'a trx_phy_scheme \<Rightarrow> trx_lchan_state \<Rightarrow> u32 \<Rightarrow> rx_outcome" where
  "rx_tchh_decode cd tn trx lchan fn =
    (let mode = tch_mode lchan in
     if mode = GSM48_CMODE_SPEECH_AMR then Some (- ENOTSUP, lchan, [])
     else if mode \<noteq> GSM48_CMODE_SIGN \<and> mode \<noteq> GSM48_CMODE_SPEECH_V1 then Some (- EINVAL, lchan, [])
     else do {
       buffer \<leftarrow> rx_bursts lchan;
       facch_end \<leftarrow> sched_tchh_facch_end (lchan_type lchan) fn False;
       shifted \<leftarrow> tchh_shift buffer;
       first_fn \<leftarrow> sched_tchh_block_dl_first_fn (lchan_type lchan) fn False;
       rx_tchh_result tn trx
         (lchan\<lparr>rx_bursts := Some shifted, rx_burst_mask := push_bit 2 (rx_burst_mask lchan)\<rparr>)
         first_fn (tch_hr_decode cd buffer (\<not> facch_end))
     })"

text \<open>Whether reception may start on this burst: aligned to a block of the current mode.\<close>

definition rx_tchh_aligned :: "trx_lchan_state \<Rightarrow> u32 \<Rightarrow> nat \<Rightarrow> bool option" where
  "rx_tchh_aligned lchan fn bid =
    (if rx_burst_mask lchan \<noteq> 0 then Some True
     else if bid > 0 then Some False
     else if tch_mode lchan = GSM48_CMODE_SIGN
     then sched_tchh_facch_start (lchan_type lchan) fn False
     else sched_tchh_traffic_start (lchan_type lchan) fn False)"

definition rx_tchh_fn :: "codec \<Rightarrow> nat \<Rightarrow> 'a trx_phy_scheme \<Rightarrow> trx_lchan_state \<Rightarrow> u32 \<Rightarrow> nat
    \<Rightarrow> sbit list \<Rightarrow> trx_meas_set \<Rightarrow> rx_outcome" where
  "rx_tchh_fn cd tn trx lchan fn bid bits meas = do {
     go \<leftarrow> rx_tchh_aligned lchan fn bid;
     if \<not> go then Some (0, lchan, [])
     else do {
       lchan \<leftarrow> rx_store_burst lchan bid (bid * 116 + 464) bits meas;
       let full = (if tch_mode lchan = GSM48_CMODE_SIGN then 0x3f else 0x0f);
       if bid \<noteq> 1 then Some (0, lchan, [])
       else if rx_burst_mask lchan AND full \<noteq> full then rx_tchh_bfi_shift tn trx lchan fn
       else if dl_ongoing_facch lchan
       then rx_tchh_bfi_shift tn trx (lchan\<lparr>dl_ongoing_facch := False\<rparr>) fn
       else rx_tchh_decode cd tn trx lchan fn
     }
   }"

text \<open>From the label \<open>send_burst\<close> on.\<close>

definition tx_tchh_burst :: "nat \<Rightarrow> 'a trx_phy_scheme \<Rightarrow> trx_lchan_state \<Rightarrow> sched_burst_req
    \<Rightarrow> tx_outcome" where
  "tx_tchh_burst tn trx lchan br = do {
     (lchan, br) \<leftarrow> tx_compose_burst trx lchan br;
     let lchan = (if ul_facch_blocks lchan \<noteq> 0
                  then lchan\<lparr>ul_facch_blocks := ul_facch_blocks lchan - 1\<rparr> else lchan);
     if tx_burst_mask lchan AND 0x0f = 0x0f then do {
       evs \<leftarrow> (if ul_facch_blocks lchan = 0 then do {
                 prim \<leftarrow> cur_prim lchan;
                 Some [sched_send_dt_conf tn trx lchan (br_fn br) (prim_is_tch prim)]
               }
               else Some []);
       Some (0, sched_prim_drop lchan, br, evs)
     }
     else Some (0, lchan, br, [])
   }"

text \<open>The part between the alignment and the label \<open>send_burst\<close>, for a burst of id 0.\<close>

definition tx_tchh_block :: "codec \<Rightarrow> nat \<Rightarrow> 'a trx_phy_scheme \<Rightarrow> trx_lchan_state \<Rightarrow> sched_burst_req
    \<Rightarrow> tx_outcome" where
  "tx_tchh_block cd tn trx lchan br = do {
     let mode = tch_mode lchan;
     buffer \<leftarrow> tx_bursts lchan;
     buffer \<leftarrow> mem_shift buffer 0 232 232;
     let lchan = lchan\<lparr>tx_bursts := Some buffer, tx_burst_mask := push_bit 2 (tx_burst_mask lchan)\<rparr>;
     if ul_facch_blocks lchan > 2 then do {
       buffer \<leftarrow> mem_shift buffer 232 464 232;
       tx_tchh_burst tn trx (lchan\<lparr>tx_bursts := Some buffer\<rparr>) br
     }
     else if mode = GSM48_CMODE_SPEECH_AMR then Some (- ENOTSUP, sched_prim_drop lchan, br, [])
     else if mode \<noteq> GSM48_CMODE_SIGN \<and> mode \<noteq> GSM48_CMODE_SPEECH_V1
     then Some (- EINVAL, sched_prim_drop lchan, br, [])
     else do {
       let l2_len = GSM_HR_BYTES + 1;
       prim \<leftarrow> cur_prim lchan;
       if \<not> prim_is_facch prim \<and> payload_len prim \<noteq> l2_len
       then Some (- EINVAL, sched_prim_drop lchan, br, [])
       else do {
         let l2_len = (if prim_is_facch prim then GSM_MACBLOCK_LEN else l2_len);
         pl \<leftarrow> mem_read (payload prim) 0 l2_len;
         let (rc, buffer) = tch_hr_encode cd buffer pl;
         let lchan = lchan\<lparr>tx_bursts := Some buffer\<rparr>;
         if rc \<noteq> 0 then Some (- EINVAL, sched_prim_drop lchan, br, [])
         else tx_tchh_burst tn trx
           (if prim_is_facch prim then lchan\<lparr>ul_facch_blocks := 6\<rparr> else lchan) br
       }
     }
   }"

definition tx_tchh_fn :: "codec \<Rightarrow> nat \<Rightarrow> 'a trx_phy_scheme \<Rightarrow> trx_lchan_state \<Rightarrow> sched_burst_req
    \<Rightarrow> tx_outcome" where
  "tx_tchh_fn cd tn trx lchan br =
    (if br_bid br > 0 then
       if tx_burst_mask lchan = 0 then Some (0, lchan, br, []) else tx_tchh_burst tn trx lchan br
     else if tx_burst_mask lchan = 0 \<and> tch_mode lchan = GSM48_CMODE_SIGN then do {
       start \<leftarrow> sched_tchh_facch_start (lchan_type lchan) (br_fn br) True;
       if \<not> start then Some (0, lchan, br, []) else tx_tchh_block cd tn trx lchan br
     }
     else tx_tchh_block cd tn trx lchan br)"


section \<open>The contracts\<close>

lemma mem_shift_Some:
  "to + len \<le> length b \<Longrightarrow> from + len \<le> length b \<Longrightarrow>
    \<exists>b'. mem_shift b to from len = Some b' \<and> length b' = length b"
  by (simp add: mem_shift_def mem_read_def mem_write_def)

lemma tchh_shift_Some:
  assumes "length b = 696"
  shows "\<exists>b'. tchh_shift b = Some b' \<and> length b' = 696"
proof -
  obtain b1 where 1: "mem_shift b 0 232 232 = Some b1" "length b1 = 696"
    using mem_shift_Some [of 0 232 b 232] assms by auto
  obtain b2 where "mem_shift b1 232 464 232 = Some b2" "length b2 = 696"
    using mem_shift_Some [of 232 232 b1 464] 1 by auto
  with 1 show ?thesis by (simp add: tchh_shift_def)
qed

lemma length_bad_frame_ind: "length (sched_bad_frame_ind l) \<le> 128"
  by (simp add: sched_bad_frame_ind_def)

lemma rx_tch_bfi_ok:
  assumes "wf_lchan l"
  shows "\<exists>rc l' evs. rx_tch_bfi tn trx l e f = Some (rc, l', evs)
    \<and> wf_lchan l' \<and> same_lchan l l' \<and> cur_prim l' = cur_prim l \<and> list_all to_l1ctl evs"
  using assms wf_lchan_upd(3) [OF assms] by (auto simp: rx_tch_bfi_def Let_def length_bad_frame_ind)

lemma add_events_ok:
  assumes "\<exists>rc l' evs. r = Some (rc, l', evs)
    \<and> wf_lchan l' \<and> same_lchan l l' \<and> cur_prim l' = cp \<and> list_all to_l1ctl evs"
    and "list_all to_l1ctl es"
  shows "\<exists>rc l' evs. add_events es r = Some (rc, l', evs)
    \<and> wf_lchan l' \<and> same_lchan l l' \<and> cur_prim l' = cp \<and> list_all to_l1ctl evs"
  using assms by (auto simp: add_events_def)

lemma outcome_via:
  assumes "\<exists>rc l' evs. r = Some (rc, l', evs)
    \<and> wf_lchan l' \<and> same_lchan l1 l' \<and> cur_prim l' = cur_prim l1 \<and> list_all to_l1ctl evs"
    and "same_lchan l l1" "cur_prim l1 = cur_prim l"
  shows "\<exists>rc l' evs. r = Some (rc, l', evs)
    \<and> wf_lchan l' \<and> same_lchan l l' \<and> cur_prim l' = cur_prim l \<and> list_all to_l1ctl evs"
  using assms same_lchan_trans by metis

lemma rx_tchf_result_ok:
  assumes "wf_lchan l" "nat (fst r) \<le> length (fst (snd r)) \<and> nat (fst r) \<le> 128"
  shows "\<exists>rc l' evs. rx_tchf_result tn trx l r = Some (rc, l', evs)
    \<and> wf_lchan l' \<and> same_lchan l l' \<and> cur_prim l' = cur_prim l \<and> list_all to_l1ctl evs"
proof -
  obtain rc pl e where r: "r = (rc, pl, e)" by (cases r)
  note bfi = rx_tch_bfi_ok [OF assms(1)]
  show ?thesis
    using bfi assms add_events_ok [OF bfi, of "[sched_send_dt_ind tn trx l (take 23 pl) e False False]"]
    by (auto simp: rx_tchf_result_def r mem_read_def Let_def)
qed

lemma rx_tchf_decode_ok:
  assumes cd: "wf_codec cd" and l: "wf_lchan l" "rx_bursts l = Some b" "length b = 928"
  shows "\<exists>rc l' evs. rx_tchf_decode cd tn trx l = Some (rc, l', evs)
    \<and> wf_lchan l' \<and> same_lchan l l' \<and> cur_prim l' = cur_prim l \<and> list_all to_l1ctl evs"
proof -
  let ?r = "tch_fr_decode cd b (tch_mode l = GSM48_CMODE_SPEECH_EFR)"
  have r: "nat (fst ?r) \<le> length (fst (snd ?r)) \<and> nat (fst ?r) \<le> 128"
    using wf_codec_decode(3) [OF cd _ l(3)] wf_codec_fits(2) [OF cd _ l(3)] by (metis prod.collapse)
  obtain b2 where b2: "mem_shift b 0 464 464 = Some b2" "length b2 = length b"
    using mem_shift_Some [of 0 464 b 464] l(3) by auto
  let ?l = "l\<lparr>rx_bursts := Some b2\<rparr>"
  have w: "wf_lchan ?l" using wf_lchan_upd(8) [OF l(1,2) b2(2)] .
  note res = outcome_via [OF rx_tchf_result_ok [OF w r], of l tn trx]
  then show ?thesis using l b2 by (auto simp: rx_tchf_decode_def Let_def)
qed

lemma rx_tchf_fn_ok:
  assumes cd: "wf_codec cd" and l: "wf_lchan l" "active l" "served_by_rx RX_TCHF l"
    and bid: "bid < 4" and bits: "GSM_BURST_LEN \<le> length bits"
  shows "\<exists>rc l' evs. rx_tchf_fn cd tn trx l fn bid bits meas = Some (rc, l', evs)
    \<and> wf_lchan l' \<and> same_lchan l l' \<and> cur_prim l' = cur_prim l \<and> list_all to_l1ctl evs"
proof (cases "rx_burst_mask l = 0 \<and> bid \<noteq> 0")
  case True
  then show ?thesis using l by (simp add: rx_tchf_fn_def)
next
  case go: False
  obtain b where b: "rx_bursts l = Some b" "length b = 928"
    using wf_lchan_rx_buf [OF l] rx_fn_buf_size(3) [OF l(3)] by auto
  then have "bid * 116 + 464 + 116 \<le> length b" using bid by simp
  from rx_store_burst_ok [OF l(1) b(1) this bits, of bid meas]
  obtain l1 b1 where l1: "rx_store_burst l bid (bid * 116 + 464) bits meas = Some l1" "wf_lchan l1"
    "same_lchan l l1" "rx_bursts l1 = Some b1" "length b1 = length b" "cur_prim l1 = cur_prim l"
    "meas_hist l1 = sched_trx_meas_push (meas_hist l) meas" by metis
  obtain avg where avg: "sched_trx_meas_avg (meas_hist l1) 8 = Some avg"
    using meas_avg_push [of 8] l1(7) by auto
  let ?l2 = "l1\<lparr>meas_avg := avg, rx_burst_mask := push_bit 4 (rx_burst_mask l1)\<rparr>"
  have l2: "wf_lchan ?l2" "same_lchan l ?l2" "cur_prim ?l2 = cur_prim l" "rx_bursts ?l2 = Some b1"
    using wf_lchan_upd(1) [OF wf_lchan_upd(3) [OF l1(2)]] l1(3,4,6) by (simp_all add: same_lchan_def)
  have "length b1 = 928" using l1(5) b(2) by simp
  note dec = outcome_via [OF rx_tchf_decode_ok [OF cd l2(1,4) this] l2(2,3)]
  show ?thesis
    using go l l1 avg dec by (cases "bid = 3") (simp_all add: rx_tchf_fn_def)
qed


lemma tx_tchf_burst_ok:
  assumes "unat (tsc trx) < 8" "wf_lchan l" "tx_bursts l = Some b" "464 \<le> length b" "wf_req br"
    and "cur_prim l \<noteq> None"
  shows "\<exists>rc l' br' evs. tx_tchf_burst tn trx l br = Some (rc, l', br', evs)
    \<and> wf_lchan l' \<and> same_lchan l l' \<and> same_req br br' \<and> list_all to_l1ctl evs"
proof -
  let ?l = "l\<lparr>tx_burst_mask := tx_burst_mask l OR push_bit (br_bid br) 1\<rparr>"
  obtain br' where c: "tx_compose_burst trx l br = Some (?l, br')" "same_req br br'"
    using tx_compose_burst_ok [OF assms(1-5)] by auto
  note w = wf_lchan_upd(2) [OF assms(2)]
  have "wf_lchan ?l" "wf_lchan (sched_prim_drop ?l\<lparr>tx_burst_mask := 0\<rparr>)"
    by (rule w, rule wf_lchan_upd(2) [OF wf_lchan_upd(6) [OF w]])
  moreover have "same_lchan l ?l" "same_lchan l (sched_prim_drop ?l\<lparr>tx_burst_mask := 0\<rparr>)"
    by (simp_all add: same_lchan_def sched_prim_drop_def)
  ultimately show ?thesis
    using c assms(6) by (auto simp: tx_tchf_burst_def)
qed

lemma tx_outcome_via:
  assumes "\<exists>rc l' br' evs. r = Some (rc, l', br', evs)
    \<and> wf_lchan l' \<and> same_lchan l1 l' \<and> same_req br br' \<and> list_all to_l1ctl evs"
    and "same_lchan l l1"
  shows "\<exists>rc l' br' evs. r = Some (rc, l', br', evs)
    \<and> wf_lchan l' \<and> same_lchan l l' \<and> same_req br br' \<and> list_all to_l1ctl evs"
  using assms same_lchan_trans by metis

lemma tx_tchf_fn_ok:
  assumes cd: "wf_codec cd" and "unat (tsc trx) < 8" "wf_lchan l" "active l" "served_by_tx TX_TCHF l"
    and "cur_prim l \<noteq> None" "wf_req br"
  shows "\<exists>rc l' br' evs. tx_tchf_fn cd tn trx l br = Some (rc, l', br', evs)
    \<and> wf_lchan l' \<and> same_lchan l l' \<and> same_req br br' \<and> list_all to_l1ctl evs"
proof -
  obtain b where b: "tx_bursts l = Some b" "length b = 928"
    using wf_lchan_tx_buf [OF assms(3-5)] tx_fn_buf_size(3) [OF assms(5)] by auto
  obtain p where p: "cur_prim l = Some p" "length (payload p) = payload_len p"
    using assms(3,6) by (auto simp: wf_lchan_def wf_prim_def)
  have drop: "wf_lchan (sched_prim_drop l)" by (rule wf_lchan_upd(6) [OF assms(3)])
  have send: "\<exists>rc l' br' evs. tx_tchf_burst tn trx l br = Some (rc, l', br', evs)
    \<and> wf_lchan l' \<and> same_lchan l l' \<and> same_req br br' \<and> list_all to_l1ctl evs"
    by (rule tx_tchf_burst_ok [OF assms(2,3) b(1) _ assms(7,6)]) (use b(2) in simp)
  obtain b1 where b1: "mem_shift b 0 464 464 = Some b1" "length b1 = 928"
    using mem_shift_Some [of 0 464 b 464] b(2) by auto
  obtain rc b2 where e: "tch_fr_encode cd b1 (payload p) = (rc, b2)" by fastforce
  have b2: "length b2 = 928" by (rule wf_codec_encode(3) [OF cd e b1(2)])
  let ?l = "l\<lparr>tx_bursts := Some b2\<rparr>"
  have w: "wf_lchan ?l" "wf_lchan (sched_prim_drop ?l)"
    using wf_lchan_upd(9) [OF assms(3) b(1)] b2 b(2) by (simp_all add: wf_lchan_upd(6))
  have "\<exists>rc l' br' evs. tx_tchf_burst tn trx ?l br = Some (rc, l', br', evs)
    \<and> wf_lchan l' \<and> same_lchan ?l l' \<and> same_req br br' \<and> list_all to_l1ctl evs"
    by (rule tx_tchf_burst_ok [OF assms(2) w(1) _ _ assms(7), of b2]) (use b2 p in simp_all)
  note enc = tx_outcome_via [OF this same_lchan_upd(9)]
  show ?thesis
    using send enc w drop p b b1 e assms(3)
    by (auto simp: tx_tchf_fn_def mem_read_def Let_def)
qed

lemma tx_tchh_burst_ok:
  assumes "unat (tsc trx) < 8" "wf_lchan l" "tx_bursts l = Some b" "464 \<le> length b" "wf_req br"
    and "cur_prim l \<noteq> None"
  shows "\<exists>rc l' br' evs. tx_tchh_burst tn trx l br = Some (rc, l', br', evs)
    \<and> wf_lchan l' \<and> same_lchan l l' \<and> same_req br br' \<and> list_all to_l1ctl evs"
proof -
  let ?l = "l\<lparr>tx_burst_mask := tx_burst_mask l OR push_bit (br_bid br) 1\<rparr>"
  obtain br' where c: "tx_compose_burst trx l br = Some (?l, br')" "same_req br br'"
    using tx_compose_burst_ok [OF assms(1-5)] by auto
  let ?l2 = "if ul_facch_blocks ?l \<noteq> 0 then ?l\<lparr>ul_facch_blocks := ul_facch_blocks ?l - 1\<rparr> else ?l"
  have w: "wf_lchan ?l2" "wf_lchan (sched_prim_drop ?l2)" "same_lchan l ?l2" "cur_prim ?l2 = cur_prim l"
    using wf_lchan_upd(4,6) [OF wf_lchan_upd(2) [OF assms(2)]] wf_lchan_upd(2) [OF assms(2)]
      wf_lchan_upd(6) [OF wf_lchan_upd(4) [OF wf_lchan_upd(2) [OF assms(2)]]]
    by (simp_all add: same_lchan_def)
  have "tx_tchh_burst tn trx l br =
    (if tx_burst_mask ?l2 AND 0x0f = 0x0f
     then Some (0, sched_prim_drop ?l2, br',
       if ul_facch_blocks ?l2 = 0
       then [sched_send_dt_conf tn trx ?l2 (br_fn br') (prim_is_tch (the (cur_prim l)))] else [])
     else Some (0, ?l2, br', []))"
    using c(1) assms(6) by (auto simp: tx_tchh_burst_def Let_def)
  with w c(2) show ?thesis by (simp only: split: if_split) auto
qed

lemma tx_tchh_block_ok:
  assumes cd: "wf_codec cd" and "unat (tsc trx) < 8" "wf_lchan l" "tx_bursts l = Some b" "length b = 696"
    and "cur_prim l \<noteq> None" "wf_req br"
  shows "\<exists>rc l' br' evs. tx_tchh_block cd tn trx l br = Some (rc, l', br', evs)
    \<and> wf_lchan l' \<and> same_lchan l l' \<and> same_req br br' \<and> list_all to_l1ctl evs"
proof -
  obtain p where p: "cur_prim l = Some p" "length (payload p) = payload_len p"
    using assms(3,6) by (auto simp: wf_lchan_def wf_prim_def)
  obtain b1 where b1: "mem_shift b 0 232 232 = Some b1" "length b1 = 696"
    using mem_shift_Some [of 0 232 b 232] assms(5) by auto
  obtain b2 where b2: "mem_shift b1 232 464 232 = Some b2" "length b2 = 696"
    using mem_shift_Some [of 232 232 b1 464] b1 by auto
  define l1 where "l1 = l\<lparr>tx_bursts := Some b1, tx_burst_mask := push_bit 2 (tx_burst_mask l)\<rparr>"
  have l1: "wf_lchan l1" "wf_lchan (sched_prim_drop l1)" "same_lchan l l1" "cur_prim l1 = Some p"
    "tx_bursts l1 = Some b1" "ul_facch_blocks l1 = ul_facch_blocks l"
    using wf_lchan_upd(2) [OF wf_lchan_upd(9) [OF assms(3,4)], of b1] b1(2) assms(5) p(1)
    by (simp_all add: l1_def same_lchan_def wf_lchan_upd(6))
  have step: "\<exists>rc l' br' evs. tx_tchh_burst tn trx l2 br = Some (rc, l', br', evs)
      \<and> wf_lchan l' \<and> same_lchan l l' \<and> same_req br br' \<and> list_all to_l1ctl evs"
    if "wf_lchan l2" "same_lchan l l2" "tx_bursts l2 = Some b'" "length b' = 696" "cur_prim l2 = Some p"
    for l2 b'
    using that by (intro tx_outcome_via [OF tx_tchh_burst_ok [OF assms(2) that(1,3) _ assms(7)] that(2)]) simp_all
  have pending: "\<exists>rc l' br' evs. tx_tchh_burst tn trx (l1\<lparr>tx_bursts := Some b2\<rparr>) br = Some (rc, l', br', evs)
      \<and> wf_lchan l' \<and> same_lchan l l' \<and> same_req br br' \<and> list_all to_l1ctl evs"
    by (rule step [of _ b2]) (use l1 b1 b2 wf_lchan_upd(9) [OF l1(1,5)] in \<open>simp_all add: same_lchan_def\<close>)
  obtain rc b3 where e: "tch_hr_encode cd b1 (payload p) = (rc, b3)" by fastforce
  have b3: "length b3 = 696" by (rule wf_codec_encode(4) [OF cd e b1(2)])
  let ?l3 = "l1\<lparr>tx_bursts := Some b3\<rparr>"
  have l3: "wf_lchan ?l3" "wf_lchan (sched_prim_drop ?l3)" "same_lchan l ?l3"
    using wf_lchan_upd(9) [OF l1(1,5)] b3 b1(2) l1(3) by (simp_all add: wf_lchan_upd(6) same_lchan_def)
  let ?l4 = "if prim_is_facch p then ?l3\<lparr>ul_facch_blocks := 6\<rparr> else ?l3"
  have enc: "\<exists>rc l' br' evs. tx_tchh_burst tn trx ?l4 br = Some (rc, l', br', evs)
      \<and> wf_lchan l' \<and> same_lchan l l' \<and> same_req br br' \<and> list_all to_l1ctl evs"
    by (rule step [of _ b3])
      (use l1 l3 b3 wf_lchan_upd(4) [OF l3(1), of 6] in \<open>simp_all add: same_lchan_def\<close>)
  let ?mode = "tch_mode l"
  have "tx_tchh_block cd tn trx l br =
    (if ul_facch_blocks l > 2 then tx_tchh_burst tn trx (l1\<lparr>tx_bursts := Some b2\<rparr>) br
     else if ?mode = GSM48_CMODE_SPEECH_AMR then Some (- ENOTSUP, sched_prim_drop l1, br, [])
     else if ?mode \<noteq> GSM48_CMODE_SIGN \<and> ?mode \<noteq> GSM48_CMODE_SPEECH_V1
     then Some (- EINVAL, sched_prim_drop l1, br, [])
     else if \<not> prim_is_facch p \<and> payload_len p \<noteq> 15 then Some (- EINVAL, sched_prim_drop l1, br, [])
     else if rc \<noteq> 0 then Some (- EINVAL, sched_prim_drop ?l3, br, [])
     else tx_tchh_burst tn trx ?l4 br)"
    using assms(4) b1(1) b2(1) l1(4,6) e p(2)
    by (simp add: tx_tchh_block_def mem_read_def prim_is_facch_def Let_def flip: l1_def)
  then show ?thesis using pending enc l1 l3 by (cases "prim_is_facch p") simp_all
qed


lemma tx_tchh_fn_ok:
  assumes cd: "wf_codec cd" and "unat (tsc trx) < 8" "wf_lchan l" "active l" "served_by_tx TX_TCHH l"
    and "cur_prim l \<noteq> None" "wf_req br"
  shows "\<exists>rc l' br' evs. tx_tchh_fn cd tn trx l br = Some (rc, l', br', evs)
    \<and> wf_lchan l' \<and> same_lchan l l' \<and> same_req br br' \<and> list_all to_l1ctl evs"
proof -
  obtain b where b: "tx_bursts l = Some b" "length b = 696"
    using wf_lchan_tx_buf [OF assms(3-5)] tx_fn_buf_size(4) [OF assms(5)] by auto
  then have "464 \<le> length b" by simp
  note burst = tx_tchh_burst_ok [OF assms(2,3) b(1) this assms(7,6), of tn]
  note block = tx_tchh_block_ok [OF cd assms(2,3) b assms(6,7), of tn]
  have "lchan_type l \<in> {TRXC_TCHH_0, TRXC_TCHH_1}" using assms(5) by (simp only: tchh_fn_chan)
  then obtain start where "sched_tchh_facch_start (lchan_type l) (br_fn br) True = Some start"
    by (auto simp: sched_tchh_facch_start_def sched_tchh_block_map_fn_def)
  then show ?thesis
    using burst block assms(3) by (simp add: tx_tchh_fn_def)
qed

lemma dl_first_fn_Some:
  "chan \<in> {TRXC_TCHH_0, TRXC_TCHH_1} \<Longrightarrow> \<exists>f. sched_tchh_block_dl_first_fn chan fn facch = Some f"
  by (cases "find (\<lambda>row. last row = tchh_fn_mf facch fn) (tchh_block_map chan False facch)")
    (auto simp: sched_tchh_block_dl_first_fn_def Let_def)

lemma rx_tchh_bfi_shift_ok:
  assumes l: "wf_lchan l" "rx_bursts l = Some b" "length b = 696" "lchan_type l \<in> {TRXC_TCHH_0, TRXC_TCHH_1}"
  shows "\<exists>rc l' evs. rx_tchh_bfi_shift tn trx l fn = Some (rc, l', evs)
    \<and> wf_lchan l' \<and> same_lchan l l' \<and> cur_prim l' = cur_prim l \<and> list_all to_l1ctl evs"
proof -
  obtain b2 where b2: "tchh_shift b = Some b2" "length b2 = 696" using tchh_shift_Some [OF l(3)] by auto
  let ?l = "l\<lparr>rx_bursts := Some b2, rx_burst_mask := push_bit 2 (rx_burst_mask l)\<rparr>"
  have w: "wf_lchan ?l" "same_lchan l ?l" "cur_prim ?l = cur_prim l"
    using wf_lchan_upd(1) [OF wf_lchan_upd(8) [OF l(1,2)], of b2] b2 l(3) by (simp_all add: same_lchan_def)
  obtain f where "sched_tchh_block_dl_first_fn (lchan_type l) fn False = Some f"
    using dl_first_fn_Some [OF l(4)] by blast
  then show ?thesis
    using outcome_via [OF rx_tch_bfi_ok [OF w(1)] w(2,3)] l(2) b2(1)
    by (simp add: rx_tchh_bfi_shift_def)
qed

lemma rx_tchh_result_ok:
  assumes "wf_lchan l" "nat (fst r) \<le> length (fst (snd r)) \<and> nat (fst r) \<le> 128" "meas_hist l = sched_trx_meas_push h m"
  shows "\<exists>rc l' evs. rx_tchh_result tn trx l f r = Some (rc, l', evs)
    \<and> wf_lchan l' \<and> same_lchan l l' \<and> cur_prim l' = cur_prim l \<and> list_all to_l1ctl evs"
proof -
  obtain rc pl e where r: "r = (rc, pl, e)" by (cases r)
  obtain a4 a6 where avg: "sched_trx_meas_avg (meas_hist l) 4 = Some a4"
    "sched_trx_meas_avg (meas_hist l) 6 = Some a6"
    using meas_avg_push [of 4 h m] meas_avg_push [of 6 h m] assms(3) by auto
  let ?l4 = "l\<lparr>meas_avg := a4\<rparr>" and ?l6 = "l\<lparr>dl_ongoing_facch := True, meas_avg := a6\<rparr>"
  have w: "wf_lchan ?l4" "wf_lchan ?l6"
    using wf_lchan_upd(3) [OF assms(1)] wf_lchan_upd(3) [OF wf_lchan_upd(5) [OF assms(1)]] by simp_all
  have s: "same_lchan l ?l4" "same_lchan l ?l6" by (simp_all add: same_lchan_def)
  note bad = outcome_via [OF rx_tch_bfi_ok [OF w(1)] s(1)]
  note facch = outcome_via [OF add_events_ok [OF rx_tch_bfi_ok [OF w(2)]] s(2)]
  show ?thesis
  proof (cases "rc < 4")
    case True
    then show ?thesis using bad avg by (simp add: rx_tchh_result_def r)
  next
    case False
    then show ?thesis
      using facch [of "[sched_send_dt_ind tn trx ?l6 (take 23 pl) e False False]"] avg w(1) assms(2)
      by (cases "rc = 23") (simp_all add: rx_tchh_result_def r mem_read_def Let_def)
  qed
qed

lemma rx_tchh_decode_ok:
  assumes cd: "wf_codec cd" and l: "wf_lchan l" "rx_bursts l = Some b" "length b = 696"
    and chan: "lchan_type l \<in> {TRXC_TCHH_0, TRXC_TCHH_1}" and hist: "meas_hist l = sched_trx_meas_push h m"
  shows "\<exists>rc l' evs. rx_tchh_decode cd tn trx l fn = Some (rc, l', evs)
    \<and> wf_lchan l' \<and> same_lchan l l' \<and> cur_prim l' = cur_prim l \<and> list_all to_l1ctl evs"
proof -
  obtain e where e: "sched_tchh_facch_end (lchan_type l) fn False = Some e"
    using chan by (auto simp: sched_tchh_facch_end_def sched_tchh_block_map_fn_def)
  obtain f where f: "sched_tchh_block_dl_first_fn (lchan_type l) fn False = Some f"
    using dl_first_fn_Some [OF chan] by blast
  let ?r = "tch_hr_decode cd b (\<not> e)"
  have r: "nat (fst ?r) \<le> length (fst (snd ?r)) \<and> nat (fst ?r) \<le> 128"
    using wf_codec_decode(4) [OF cd _ l(3)] wf_codec_fits(3) [OF cd _ l(3)] by (metis prod.collapse)
  obtain b2 where b2: "tchh_shift b = Some b2" "length b2 = 696" using tchh_shift_Some [OF l(3)] by auto
  let ?l = "l\<lparr>rx_bursts := Some b2, rx_burst_mask := push_bit 2 (rx_burst_mask l)\<rparr>"
  have w: "wf_lchan ?l" "same_lchan l ?l" "cur_prim ?l = cur_prim l" "meas_hist ?l = sched_trx_meas_push h m"
    using wf_lchan_upd(1) [OF wf_lchan_upd(8) [OF l(1,2)], of b2] b2 l(3) hist by (simp_all add: same_lchan_def)
  note res = outcome_via [OF rx_tchh_result_ok [OF w(1) r w(4)] w(2,3), of tn trx f]
  then show ?thesis using l e f b2 by (simp add: rx_tchh_decode_def Let_def)
qed

lemma rx_tchh_fn_ok:
  assumes cd: "wf_codec cd" and l: "wf_lchan l" "active l" "served_by_rx RX_TCHH l"
    and bid: "bid < 2" and bits: "GSM_BURST_LEN \<le> length bits"
  shows "\<exists>rc l' evs. rx_tchh_fn cd tn trx l fn bid bits meas = Some (rc, l', evs)
    \<and> wf_lchan l' \<and> same_lchan l l' \<and> cur_prim l' = cur_prim l \<and> list_all to_l1ctl evs"
proof -
  obtain b where b: "rx_bursts l = Some b" "length b = 696"
    using wf_lchan_rx_buf [OF l] rx_fn_buf_size(4) [OF l(3)] by auto
  have chan: "lchan_type l \<in> {TRXC_TCHH_0, TRXC_TCHH_1}" using l(3) by (simp only: tchh_fn_chan)
  then have "\<exists>go. rx_tchh_aligned l fn bid = Some go"
    by (auto simp: rx_tchh_aligned_def sched_tchh_facch_start_def sched_tchh_traffic_start_def
        block_map_fn_at)
  then obtain go where go: "rx_tchh_aligned l fn bid = Some go" by blast
  have "bid * 116 + 464 + 116 \<le> length b" using bid b(2) by simp
  from rx_store_burst_ok [OF l(1) b(1) this bits, of bid meas]
  obtain l1 b1 where l1: "rx_store_burst l bid (bid * 116 + 464) bits meas = Some l1" "wf_lchan l1"
    "same_lchan l l1" "rx_bursts l1 = Some b1" "length b1 = length b" "cur_prim l1 = cur_prim l"
    "meas_hist l1 = sched_trx_meas_push (meas_hist l) meas" by metis
  have b1: "length b1 = 696" using l1(5) b(2) by simp
  have c1: "lchan_type l1 \<in> {TRXC_TCHH_0, TRXC_TCHH_1}" using chan l1(3) by (simp add: same_lchan_def)
  let ?l2 = "l1\<lparr>dl_ongoing_facch := False\<rparr>"
  have l2: "wf_lchan ?l2" "rx_bursts ?l2 = Some b1" "lchan_type ?l2 \<in> {TRXC_TCHH_0, TRXC_TCHH_1}"
    "same_lchan l ?l2" "cur_prim ?l2 = cur_prim l"
    using wf_lchan_upd(5) [OF l1(2)] l1(3,4,6) c1 by (simp_all add: same_lchan_def)
  note shift1 = outcome_via [OF rx_tchh_bfi_shift_ok [OF l1(2,4) b1 c1] l1(3,6), of tn trx fn]
  note shift2 = outcome_via [OF rx_tchh_bfi_shift_ok [OF l2(1,2) b1 l2(3)] l2(4,5), of tn trx fn]
  note dec = outcome_via [OF rx_tchh_decode_ok [OF cd l1(2,4) b1 c1 l1(7)] l1(3,6), of tn trx fn]
  show ?thesis
  proof (cases "go \<and> bid = 1")
    case True
    then show ?thesis
      using go l1(1) shift1 shift2 dec by (auto simp: rx_tchh_fn_def Let_def)
  next
    case False
    then show ?thesis
      using go l(1) l1 by (cases go) (simp_all add: rx_tchh_fn_def Let_def)
  qed
qed

interpretation tchf_tx: tx_handler_contract "\<lambda>tn trx l br. tx_tchf_fn cd tn trx l br"
  "\<lambda>l. wf_codec cd \<and> served_by_tx TX_TCHF l" for cd
  by unfold_locales (blast intro: tx_tchf_fn_ok)

interpretation tchh_tx: tx_handler_contract "\<lambda>tn trx l br. tx_tchh_fn cd tn trx l br"
  "\<lambda>l. wf_codec cd \<and> served_by_tx TX_TCHH l" for cd
  by unfold_locales (blast intro: tx_tchh_fn_ok)

interpretation tchf_rx: rx_handler_contract "\<lambda>tn trx l fn bid bits meas. rx_tchf_fn cd tn trx l fn bid bits meas"
  "\<lambda>l. wf_codec cd \<and> served_by_rx RX_TCHF l" 4 for cd
  by unfold_locales (blast intro: rx_tchf_fn_ok)

interpretation tchh_rx: rx_handler_contract "\<lambda>tn trx l fn bid bits meas. rx_tchh_fn cd tn trx l fn bid bits meas"
  "\<lambda>l. wf_codec cd \<and> served_by_rx RX_TCHH l" 2 for cd
  by unfold_locales (blast intro: rx_tchh_fn_ok)

end
