(* ===== verification/SchedLchanRach.thy ===== *)
theory SchedLchanRach
  imports SchedLchanCommon
begin

text \<open>
  The access burst transmitter (\<open>sched_lchan_rach.c\<close>) and the receiver of the
  synchronization channel (\<open>sched_lchan_sch.c\<close>).
\<close>

section \<open>Access bursts\<close>

definition rach_ext_tail_bits :: "ubit list" where
  "rach_ext_tail_bits = [0, 0, 1, 1, 1, 0, 1, 0]"

definition rach_synch_seq_bits :: "string list" where
  "rach_synch_seq_bits =
    [''01001011011111111001100110101010001111000'',
     ''01010100111110001000011000101111001001101'',
     ''11101111001001110101011000001101101110111'']"

text \<open>A \<open>uint16_t\<close> member of a packed structure, on a little-endian host.\<close>

definition get_u16 :: "u8 list \<Rightarrow> nat \<Rightarrow> u16" where
  "get_u16 b i = ucast (b ! i) OR push_bit 8 (ucast (b ! (i + 1)))"

definition put_u16 :: "u8 list \<Rightarrow> nat \<Rightarrow> u16 \<Rightarrow> u8 list" where
  "put_u16 b i w = b[i := ucast w, i + 1 := ucast (drop_bit 8 w)]"

text \<open>
  What the three branches on the length of the primitive find in its payload: the position
  of \<open>offset\<close>, the value of \<open>ra11\<close> or \<open>ra\<close>, whether it has 11 bits, and the
  synchronization sequence. \<open>None\<close> is an odd length.
\<close>

definition rach_fields :: "trx_ts_prim \<Rightarrow> (nat \<times> u16 \<times> bool \<times> nat) option" where
  "rach_fields prim =
    (if prim_is_rach11 prim
     then Some (4, get_u16 (payload prim) 0, True, unat (payload prim ! 2))
     else if prim_is_rach8 prim
     then Some (2, ucast (payload prim ! 0), False, 0)
     else None)"

definition rach_burst :: "nat \<Rightarrow> ubit list \<Rightarrow> ubit list" where
  "rach_burst synch_seq pl =
    rach_ext_tail_bits
    @ map (\<lambda>c. if c = CHR ''1'' then 1 else 0) (rach_synch_seq_bits ! synch_seq)
    @ pl @ replicate (GSM_BURST_LEN - (8 + 41 + 36)) 0"

text \<open>From the delay counter on.\<close>

definition rach_send :: "codec \<Rightarrow> nat \<Rightarrow> 'a trx_phy_scheme \<Rightarrow> trx_lchan_state \<Rightarrow> sched_burst_req
    \<Rightarrow> trx_ts_prim \<Rightarrow> nat \<Rightarrow> u16 \<Rightarrow> bool \<Rightarrow> nat \<Rightarrow> tx_outcome" where
  "rach_send cd tn trx lchan br prim off ra ext synch_seq = do {
     let offset = get_u16 (payload prim) off;
     let lchan = lchan\<lparr>cur_prim := Some (prim\<lparr>payload := put_u16 (payload prim) off (offset - 1)\<rparr>)\<rparr>;
     if offset > 0 then Some (0, lchan, br, [])
     else do {
       let (rc, pl) = rach_ext_encode cd ra (bsic trx) ext;
       if rc \<noteq> 0 then Some (rc, sched_prim_drop lchan, br, [])
       else do {
         pl \<leftarrow> mem_read pl 0 36;
         burst \<leftarrow> mem_write (br_burst br) 0 (rach_burst synch_seq pl);
         Some (0, sched_prim_drop lchan, br\<lparr>br_burst := burst, br_burst_len := GSM_BURST_LEN\<rparr>,
               [L1ctlRachConf (band_arfcn trx) (br_fn br)])
       }
     }
   }"

definition tx_rach_fn :: "codec \<Rightarrow> nat \<Rightarrow> 'a trx_phy_scheme \<Rightarrow> trx_lchan_state \<Rightarrow> sched_burst_req
    \<Rightarrow> tx_outcome" where
  "tx_rach_fn cd tn trx lchan br = do {
     prim \<leftarrow> cur_prim lchan;
     _ \<leftarrow> mem_read (payload prim) 0 (payload_len prim);
     case rach_fields prim of
       None \<Rightarrow> Some (- EINVAL, sched_prim_drop lchan, br, [])
     | Some (off, ra, ext, synch_seq) \<Rightarrow>
         if synch_seq \<ge> 3 then Some (- ENOTSUP, sched_prim_drop lchan, br, [])
         else rach_send cd tn trx lchan br prim off ra ext synch_seq
   }"

section \<open>SCH\<close>

definition decode_sb :: "u8 list \<Rightarrow> gsm_time \<times> u8" where
  "decode_sb sb_info =
    (let sb = push_bit 24 (ucast (sb_info ! 3)) OR push_bit 16 (ucast (sb_info ! 2))
              OR push_bit 8 (ucast (sb_info ! 1)) OR (ucast (sb_info ! 0) :: u32);
         bsic = ucast (drop_bit 2 sb AND 0x3f) :: u8;
         t1 = ucast (drop_bit 23 sb AND 0x01 OR (drop_bit 7 sb AND 0x1fe) OR (push_bit 9 sb AND 0x600)) :: u16;
         t2 = ucast (drop_bit 18 sb AND 0x1f) :: u8;
         t3p = ucast (drop_bit 24 sb AND 0x01 OR (drop_bit 15 sb AND 0x06)) :: u8;
         t3 = t3p * 10 + 1;
         time = \<lparr>gt_fn = 0, gt_t1 = t1, gt_t2 = t2, gt_t3 = t3, gt_tc = 0\<rparr>
     in (time\<lparr>gt_fn := gsm_gsmtime2fn time\<rparr>, bsic))"

text \<open>
  The only handler that updates the instance: the BSIC, and the flag of the L1CTL link that
  \<open>l1ctl_tx_fbsb_conf\<close> sets.
\<close>

definition rx_sch_fn :: "codec \<Rightarrow> nat \<Rightarrow> 'a trx_phy_scheme \<Rightarrow> trx_lchan_state \<Rightarrow> u32 \<Rightarrow> nat
    \<Rightarrow> sbit list \<Rightarrow> trx_meas_set \<Rightarrow> (int \<times> 'a trx_phy_scheme \<times> trx_event list) option" where
  "rx_sch_fn cd tn trx lchan fn bid bits meas = do {
     a \<leftarrow> mem_read bits 3 39;
     b \<leftarrow> mem_read bits (3 + 39 + 64) 39;
     let (rc, sb_info) = sch_decode cd (a @ b);
     if rc \<noteq> 0 then Some (rc, trx, [])
     else do {
       sb_info \<leftarrow> mem_read sb_info 0 4;
       let (time, new_bsic) = decode_sb sb_info;
       if gt_fn time \<noteq> fn then Some (- EINVAL, trx, [])
       else if fbsb_conf_sent trx then Some (0, trx, [])
       else do {
         let desc = trx_lchan_desc (lchan_type lchan);
         let dl = \<lparr>dl_chan_nr = ld_chan_nr desc OR of_nat tn, dl_link_id = ld_link_id desc,
                   dl_band_arfcn = band_arfcn trx, dl_frame_nr = fn,
                   dl_rx_level = - meas_rssi meas, dl_snr = 0, dl_num_biterr = 0,
                   dl_fire_crc = 0\<rparr>;
         Some (0, trx\<lparr>fbsb_conf_sent := True, bsic := new_bsic\<rparr>, [L1ctlFbsbConf 0 dl new_bsic])
       }
     }
   }"


section \<open>The contracts\<close>

lemma length_put_u16 [simp]: "length (put_u16 b i w) = length b"
  by (simp add: put_u16_def)

lemma length_rach_synch_seq: "s < 3 \<Longrightarrow> length (rach_synch_seq_bits ! s) = 41"
  by (auto simp: rach_synch_seq_bits_def numeral_3_eq_3 less_Suc_eq)

lemma length_rach_burst: "s < 3 \<Longrightarrow> length pl = 36 \<Longrightarrow> length (rach_burst s pl) = 148"
  by (simp add: rach_burst_def rach_ext_tail_bits_def length_rach_synch_seq)

text \<open>The counter of the primitive is part of the primitive.\<close>

lemma wf_lchan_offset:
  assumes "wf_lchan l" "cur_prim l = Some p"
  shows "wf_lchan (l\<lparr>cur_prim := Some (p\<lparr>payload := put_u16 (payload p) i w\<rparr>)\<rparr>)"
  using assms by (simp add: wf_lchan_def wf_prim_def cache_ok_def buf_ok_def mr_cached_def)

text \<open>
  The access burst handler works on every channel: a handover access burst is transmitted
  on the channel of the new cell.
\<close>

lemma tx_rach_fn_ok:
  assumes cd: "wf_codec cd" and l: "wf_lchan l" "cur_prim l \<noteq> None" and br: "wf_req br"
  shows "\<exists>rc l' br' evs. tx_rach_fn cd tn trx l br = Some (rc, l', br', evs)
    \<and> wf_lchan l' \<and> same_lchan l l' \<and> same_req br br' \<and> list_all to_l1ctl evs"
proof -
  obtain p where p: "cur_prim l = Some p" "length (payload p) = payload_len p"
    using l by (auto simp: wf_lchan_def wf_prim_def)
  have drop: "wf_lchan (sched_prim_drop l)" by (rule wf_lchan_upd(6) [OF l(1)])
  have start: "tx_rach_fn cd tn trx l br =
    (case rach_fields p of
       None \<Rightarrow> Some (- EINVAL, sched_prim_drop l, br, [])
     | Some (off, ra, ext, synch_seq) \<Rightarrow>
         if synch_seq \<ge> 3 then Some (- ENOTSUP, sched_prim_drop l, br, [])
         else rach_send cd tn trx l br p off ra ext synch_seq)"
    using p by (simp add: tx_rach_fn_def rach_send_def mem_read_def split: option.splits)
  have send: "\<exists>rc l' br' evs. rach_send cd tn trx l br p off ra ext s = Some (rc, l', br', evs)
    \<and> wf_lchan l' \<and> same_lchan l l' \<and> same_req br br' \<and> list_all to_l1ctl evs"
    if "s < 3" for off ra ext s
  proof -
    obtain rc pl where e: "rach_ext_encode cd ra (bsic trx) ext = (rc, pl)" by fastforce
    have "36 \<le> length pl" if "rc = 0" using wf_codec_encode(5) [OF cd] e that by simp
    moreover have "length (br_burst br) = 444" using br by (simp add: wf_req_def)
    ultimately show ?thesis
      using that e p(1) drop wf_lchan_offset [OF l(1) p(1)] br
      by (auto simp: rach_send_def sched_prim_drop_def mem_read_def mem_write_def length_rach_burst
          same_lchan_def same_req_def Let_def)
  qed
  show ?thesis unfolding start using drop send by (auto split: option.splits)
qed

interpretation rach_tx: tx_handler_contract "\<lambda>tn trx l br. tx_rach_fn cd tn trx l br"
  "\<lambda>l. wf_codec cd" for cd
  by unfold_locales (blast intro: tx_rach_fn_ok)


text \<open>The SCH handler completes, whatever is received, and can only set the BSIC and the flag.\<close>

lemma rx_sch_fn_ok:
  assumes cd: "wf_codec cd" and bits: "GSM_BURST_LEN \<le> length bits"
  shows "\<exists>rc trx' evs. rx_sch_fn cd tn trx l fn bid bits meas = Some (rc, trx', evs)
    \<and> (trx' = trx \<or> (\<exists>b. trx' = trx\<lparr>fbsb_conf_sent := True, bsic := b\<rparr>)) \<and> list_all to_l1ctl evs"
proof -
  let ?s = "take 39 (drop 3 bits) @ take 39 (drop 106 bits)"
  obtain rc sb where d: "sch_decode cd ?s = (rc, sb)" by fastforce
  have "rc = 0 \<Longrightarrow> 4 \<le> length sb" using wf_codec_decode(5) [OF cd] d by auto
  then show ?thesis
    using bits d
    by (auto simp: rx_sch_fn_def mem_read_def Let_def split: prod.splits)
qed

end
