(* ===== verification/SchedClck.thy ===== *)
theory SchedClck
  imports TdmaTime "HOL-Library.Monad_Syntax"
begin

text \<open>
  The frame clock (\<open>sched_clck.c\<close>): the state of \<open>struct trx_sched\<close>, the timer
  handler, the correction by clock indications and the reset.

  The clock calls the frame callback, which reads the frame counter and nothing else of the
  scheduler instance; a call is recorded as the value of the counter at that moment, and
  \<open>SchedTrx\<close> runs the callback on these values. The time of day is an argument. A
  \<open>struct timespec\<close> is a pair of integers: on the 64 bit members of the code the sums
  below stay far from the limits. \<open>clock_timer\<close> is the delay, in microseconds, the timer
  was scheduled with, \<open>None\<close> when it is not pending.
\<close>

section \<open>State\<close>

datatype tdma_sched_clck_state = SCH_CLCK_STATE_WAIT | SCH_CLCK_STATE_OK

record timespec =
  tv_sec :: int
  tv_nsec :: int

record trx_sched =
  clck_state :: tdma_sched_clck_state
  clck_time :: timespec
  fn_counter_proc :: u32
  fn_counter_advance :: u32
  fn_counter_lost :: u32
  clock_timer :: "int option"
  clock_cb :: bool

abbreviation (input) GSM_TDMA_FN_DURATION_uS :: int where "GSM_TDMA_FN_DURATION_uS \<equiv> 4615"
abbreviation (input) GSM_TDMA_FN_DURATION_nS :: int where "GSM_TDMA_FN_DURATION_nS \<equiv> 4615384"
abbreviation (input) MAX_FN_SKEW :: int where "MAX_FN_SKEW \<equiv> 50"
abbreviation (input) TRX_LOSS_FRAMES :: u32 where "TRX_LOSS_FRAMES \<equiv> 400"

section \<open>Time arithmetic\<close>

definition timespecadd :: "timespec \<Rightarrow> timespec \<Rightarrow> timespec" where
  "timespecadd a b =
    (let s = tv_sec a + tv_sec b; n = tv_nsec a + tv_nsec b
     in if n \<ge> 1000000000 then \<lparr>tv_sec = s + 1, tv_nsec = n - 1000000000\<rparr>
        else \<lparr>tv_sec = s, tv_nsec = n\<rparr>)"

definition timespecsub :: "timespec \<Rightarrow> timespec \<Rightarrow> timespec" where
  "timespecsub a b =
    (let s = tv_sec a - tv_sec b; n = tv_nsec a - tv_nsec b
     in if n < 0 then \<lparr>tv_sec = s - 1, tv_nsec = n + 1000000000\<rparr>
        else \<lparr>tv_sec = s, tv_nsec = n\<rparr>)"

text \<open>\<open>elapsed_us\<close>; the nanoseconds are not negative, so the division truncates downwards.\<close>

definition timespec_us :: "timespec \<Rightarrow> int" where
  "timespec_us t = tv_sec t * 1000000 + tv_nsec t div 1000"

definition frame_duration :: timespec where
  "frame_duration = \<lparr>tv_sec = 0, tv_nsec = GSM_TDMA_FN_DURATION_nS\<rparr>"

section \<open>The timer\<close>

text \<open>The loop that schedules the frames that are due.\<close>

function clck_tick_loop :: "'a trx_sched_scheme \<Rightarrow> int \<Rightarrow> 'a trx_sched_scheme \<times> int \<times> u32 list" where
  "clck_tick_loop sched elapsed_us =
    (if elapsed_us > GSM_TDMA_FN_DURATION_uS div 2
     then let sched = sched\<lparr>clck_time := timespecadd (clck_time sched) frame_duration,
                            fn_counter_proc := gsm_tdma_fn_inc (fn_counter_proc sched)\<rparr>;
              (s, us, calls) = clck_tick_loop sched (elapsed_us - GSM_TDMA_FN_DURATION_uS)
          in (s, us, (if clock_cb sched then [fn_counter_proc sched] else []) @ calls)
     else (sched, elapsed_us, []))"
  by pat_completeness auto

termination
  by (relation "measure (\<lambda>(s, us). nat (us + GSM_TDMA_FN_DURATION_uS))") auto

declare clck_tick_loop.simps [simp del]

definition sched_clck_tick :: "timespec \<Rightarrow> 'a trx_sched_scheme \<Rightarrow> 'a trx_sched_scheme \<times> u32 list" where
  "sched_clck_tick tv_now sched =
    (let lost = fn_counter_lost sched; sched = sched\<lparr>fn_counter_lost := lost + 1, clock_timer := None\<rparr> in
     if lost = TRX_LOSS_FRAMES then (sched\<lparr>clck_state := SCH_CLCK_STATE_WAIT\<rparr>, [])
     else let elapsed_us = timespec_us (timespecsub tv_now (clck_time sched)) in
       if elapsed_us > GSM_TDMA_FN_DURATION_uS * MAX_FN_SKEW \<or> elapsed_us < 0
       then (sched\<lparr>clck_state := SCH_CLCK_STATE_WAIT\<rparr>, [])
       else let (sched, elapsed_us, calls) = clck_tick_loop sched elapsed_us
            in (sched\<lparr>clock_timer := Some (GSM_TDMA_FN_DURATION_uS - elapsed_us)\<rparr>, calls))"

section \<open>Clock indications\<close>

definition sched_clck_correct :: "timespec \<Rightarrow> u32 \<Rightarrow> 'a trx_sched_scheme \<Rightarrow> 'a trx_sched_scheme \<times> u32 list" where
  "sched_clck_correct tv_now fn sched =
    (sched\<lparr>fn_counter_proc := fn, clck_time := tv_now, clock_timer := Some GSM_TDMA_FN_DURATION_uS\<rparr>,
     if clock_cb sched then [fn] else [])"

text \<open>
  The loop \<open>while (fn != sched->fn_counter_proc)\<close>. Nothing in it bounds the number of
  rounds: \<open>None\<close> is the loop that does not end.
\<close>

partial_function (option) clck_catch_up :: "u32 \<Rightarrow> u32 \<Rightarrow> (u32 \<times> u32 list) option" where
  "clck_catch_up fn proc =
    (if fn = proc then Some (proc, [])
     else do {
       (p, calls) \<leftarrow> clck_catch_up fn (gsm_tdma_fn_inc proc);
       Some (p, gsm_tdma_fn_inc proc # calls)
     })"

definition sched_clck_handle :: "timespec \<Rightarrow> u32 \<Rightarrow> 'a trx_sched_scheme
    \<Rightarrow> (int \<times> 'a trx_sched_scheme \<times> u32 list) option" where
  "sched_clck_handle tv_now fn sched =
    (let sched = sched\<lparr>fn_counter_lost := 0\<rparr> in
     if clck_state sched = SCH_CLCK_STATE_WAIT
     then let (sched, calls) = sched_clck_correct tv_now fn sched
          in Some (0, sched\<lparr>clck_state := SCH_CLCK_STATE_OK\<rparr>, calls)
     else
       let sched = sched\<lparr>clock_timer := None\<rparr>;
           elapsed_fn = uint (gsm_tdma_fn_sub fn (fn_counter_proc sched));
           elapsed_fn = (if elapsed_fn \<ge> 135774 then elapsed_fn - int GSM_TDMA_HYPERFRAME else elapsed_fn)
       in if elapsed_fn > MAX_FN_SKEW \<or> elapsed_fn < - MAX_FN_SKEW
          then let (sched, calls) = sched_clck_correct tv_now fn sched in Some (0, sched, calls)
          else if elapsed_fn < 0
          then let nsec = (0 - elapsed_fn) * GSM_TDMA_FN_DURATION_nS;
                   duration = \<lparr>tv_sec = nsec div 1000000000, tv_nsec = nsec mod 1000000000\<rparr>
               in Some (0, sched\<lparr>clck_time := timespecadd tv_now duration,
                               clock_timer := Some (GSM_TDMA_FN_DURATION_uS * (1 - elapsed_fn))\<rparr>, [])
          else do {
            (p, calls) \<leftarrow> clck_catch_up fn (fn_counter_proc sched);
            Some (0, sched\<lparr>fn_counter_proc := p, clck_time := tv_now,
                         clock_timer := Some GSM_TDMA_FN_DURATION_uS\<rparr>,
                  if clock_cb sched then calls else [])
          })"

definition sched_clck_reset :: "'a trx_sched_scheme \<Rightarrow> 'a trx_sched_scheme" where
  "sched_clck_reset sched = sched\<lparr>clck_state := SCH_CLCK_STATE_WAIT, clock_timer := None,
     fn_counter_proc := 0, fn_counter_lost := 0\<rparr>"


section \<open>Time arithmetic is exact\<close>

definition wf_timespec :: "timespec \<Rightarrow> bool" where
  "wf_timespec t \<longleftrightarrow> 0 \<le> tv_nsec t \<and> tv_nsec t < 1000000000"

definition timespec_ns :: "timespec \<Rightarrow> int" where
  "timespec_ns t = tv_sec t * 1000000000 + tv_nsec t"

lemma timespecadd_ns:
  "wf_timespec a \<Longrightarrow> wf_timespec b \<Longrightarrow>
    wf_timespec (timespecadd a b) \<and> timespec_ns (timespecadd a b) = timespec_ns a + timespec_ns b"
  by (simp add: wf_timespec_def timespec_ns_def timespecadd_def Let_def)

lemma timespecsub_ns:
  "wf_timespec a \<Longrightarrow> wf_timespec b \<Longrightarrow>
    wf_timespec (timespecsub a b) \<and> timespec_ns (timespecsub a b) = timespec_ns a - timespec_ns b"
  by (simp add: wf_timespec_def timespec_ns_def timespecsub_def Let_def)

lemma timespec_us_ns: "timespec_us t = timespec_ns t div 1000"
  by (simp add: timespec_us_def timespec_ns_def)

section \<open>The frames that follow a frame\<close>

primrec frames_after :: "u32 \<Rightarrow> nat \<Rightarrow> u32 list" where
  "frames_after fn 0 = []"
| "frames_after fn (Suc n) = gsm_tdma_fn_inc fn # frames_after (gsm_tdma_fn_inc fn) n"

definition frame_plus :: "u32 \<Rightarrow> nat \<Rightarrow> u32" where
  "frame_plus fn n = (gsm_tdma_fn_inc ^^ n) fn"

lemma length_frames_after [simp]: "length (frames_after fn n) = n"
  by (induction n arbitrary: fn) simp_all

lemma frame_plus_0 [simp]: "frame_plus fn 0 = fn"
  by (simp add: frame_plus_def)

lemma frame_plus_Suc: "frame_plus fn (Suc n) = frame_plus (gsm_tdma_fn_inc fn) n"
  by (simp add: frame_plus_def funpow_swap1)

lemma frame_plus_add: "frame_plus fn (m + n) = frame_plus (frame_plus fn m) n"
  by (induction m arbitrary: fn) (simp_all add: frame_plus_Suc)

lemma frames_after_add: "frames_after fn (m + n) = frames_after fn m @ frames_after (frame_plus fn m) n"
  by (induction m arbitrary: fn) (simp_all add: frame_plus_Suc)

lemma valid_frame_plus: "valid_fn fn \<Longrightarrow> valid_fn (frame_plus fn n)"
  by (induction n arbitrary: fn) (simp_all add: frame_plus_Suc)

lemma unat_frame_plus: "valid_fn fn \<Longrightarrow> unat (frame_plus fn n) = (unat fn + n) mod GSM_TDMA_HYPERFRAME"
  by (induction n arbitrary: fn) (simp_all add: frame_plus_Suc unat_fn_inc mod_simps)

section \<open>The loops\<close>

lemma clck_tick_loop_spec:
  assumes "clck_tick_loop s us = (s', us', calls)" "clock_cb s"
  shows "\<exists>n. calls = frames_after (fn_counter_proc s) n \<and> fn_counter_proc s' = frame_plus (fn_counter_proc s) n
    \<and> us' = us - int n * GSM_TDMA_FN_DURATION_uS \<and> us' \<le> GSM_TDMA_FN_DURATION_uS div 2
    \<and> (0 < n \<longrightarrow> GSM_TDMA_FN_DURATION_uS div 2 - GSM_TDMA_FN_DURATION_uS < us')
    \<and> s' = s\<lparr>clck_time := clck_time s', fn_counter_proc := fn_counter_proc s'\<rparr>
    \<and> (wf_timespec (clck_time s) \<longrightarrow> wf_timespec (clck_time s') \<and>
        timespec_ns (clck_time s') = timespec_ns (clck_time s) + int n * GSM_TDMA_FN_DURATION_nS)"
  using assms
proof (induction s us arbitrary: s' us' calls rule: clck_tick_loop.induct)
  case (1 s us)
  show ?case
  proof (cases "us > GSM_TDMA_FN_DURATION_uS div 2")
    case False
    then show ?thesis using 1 by (intro exI [of _ 0]) (simp add: clck_tick_loop.simps [of s])
  next
    case True
    let ?s = "s\<lparr>clck_time := timespecadd (clck_time s) frame_duration,
        fn_counter_proc := gsm_tdma_fn_inc (fn_counter_proc s)\<rparr>"
    obtain c where c: "clck_tick_loop ?s (us - GSM_TDMA_FN_DURATION_uS) = (s', us', c)"
      "calls = gsm_tdma_fn_inc (fn_counter_proc s) # c"
      using 1(2,3) True by (auto simp: clck_tick_loop.simps [of s] Let_def split: prod.splits)
    from 1(1) [OF True refl c(1)] 1(3) obtain n where
      n: "c = frames_after (fn_counter_proc ?s) n" "fn_counter_proc s' = frame_plus (fn_counter_proc ?s) n"
        "us' = us - GSM_TDMA_FN_DURATION_uS - int n * GSM_TDMA_FN_DURATION_uS"
        "us' \<le> GSM_TDMA_FN_DURATION_uS div 2"
        "0 < n \<longrightarrow> GSM_TDMA_FN_DURATION_uS div 2 - GSM_TDMA_FN_DURATION_uS < us'"
        "s' = ?s\<lparr>clck_time := clck_time s', fn_counter_proc := fn_counter_proc s'\<rparr>"
        "wf_timespec (clck_time ?s) \<longrightarrow> wf_timespec (clck_time s') \<and>
          timespec_ns (clck_time s') = timespec_ns (clck_time ?s) + int n * GSM_TDMA_FN_DURATION_nS"
      by auto
    have d: "wf_timespec frame_duration" "timespec_ns frame_duration = GSM_TDMA_FN_DURATION_nS"
      by (simp_all add: frame_duration_def wf_timespec_def timespec_ns_def)
    have t: "wf_timespec (clck_time s) \<longrightarrow> wf_timespec (clck_time s') \<and>
        timespec_ns (clck_time s') = timespec_ns (clck_time s) + int (Suc n) * GSM_TDMA_FN_DURATION_nS"
      using n(7) timespecadd_ns [OF _ d(1), of "clck_time s"] d(2) by (simp add: distrib_right)
    have s': "s' = s\<lparr>clck_time := clck_time s', fn_counter_proc := fn_counter_proc s'\<rparr>"
      by (rule trans [OF n(6)]) simp
    show ?thesis
      using n(1-5) c(2) t s' True by (intro exI [of _ "Suc n"]) (auto simp: frame_plus_Suc)
  qed
qed

lemma catch_up_valid:
  assumes "clck_catch_up fn proc = Some y" "valid_fn proc"
  shows "valid_fn fn"
proof -
  have "valid_fn proc \<longrightarrow> valid_fn fn"
    by (rule clck_catch_up.raw_induct [OF _ assms(1)])
      (auto split: if_splits simp: bind_eq_Some_conv)
  then show ?thesis using assms(2) by blast
qed

lemma catch_up_Some:
  "frame_plus proc n = fn \<Longrightarrow> (\<And>m. m < n \<Longrightarrow> frame_plus proc m \<noteq> fn) \<Longrightarrow>
    clck_catch_up fn proc = Some (fn, frames_after proc n)"
proof (induction n arbitrary: proc)
  case 0
  then show ?case by (simp add: clck_catch_up.simps [of fn fn])
next
  case (Suc n)
  have "fn \<noteq> proc" using Suc.prems(2) [of 0] by auto
  moreover have "frame_plus (gsm_tdma_fn_inc proc) m \<noteq> fn" if "m < n" for m
    using Suc.prems(2) [of "Suc m"] that by (simp add: frame_plus_Suc)
  with Suc.IH [of "gsm_tdma_fn_inc proc"] Suc.prems(1)
  have "clck_catch_up fn (gsm_tdma_fn_inc proc) = Some (fn, frames_after (gsm_tdma_fn_inc proc) n)"
    by (simp add: frame_plus_Suc)
  ultimately show ?case by (simp add: clck_catch_up.simps [of fn proc])
qed

lemma frame_plus_sub:
  assumes "valid_fn fn" "valid_fn proc"
  shows "frame_plus proc (unat (gsm_tdma_fn_sub fn proc)) = fn"
    and "m < unat (gsm_tdma_fn_sub fn proc) \<Longrightarrow> frame_plus proc m \<noteq> fn"
proof -
  let ?n = "unat (gsm_tdma_fn_sub fn proc)"
  have n: "?n = (unat fn + GSM_TDMA_HYPERFRAME - unat proc) mod GSM_TDMA_HYPERFRAME"
    using assms by (rule unat_fn_sub)
  have "(unat proc + ?n) mod GSM_TDMA_HYPERFRAME = unat fn"
    using assms by (simp add: n mod_simps)
  then show "frame_plus proc ?n = fn"
    using assms by (simp add: word_unat_eq_iff unat_frame_plus)
  assume m: "m < ?n"
  have "?n < GSM_TDMA_HYPERFRAME" by simp
  show "frame_plus proc m \<noteq> fn"
  proof
    assume "frame_plus proc m = fn"
    then have "(unat proc + m) mod GSM_TDMA_HYPERFRAME = (unat proc + ?n) mod GSM_TDMA_HYPERFRAME"
      using \<open>(unat proc + ?n) mod GSM_TDMA_HYPERFRAME = unat fn\<close> assms unat_frame_plus by metis
    then have "m = ?n" using m \<open>?n < GSM_TDMA_HYPERFRAME\<close> 
      by (intro add_mod_inj [of m GSM_TDMA_HYPERFRAME ?n "unat proc"]) linarith+
    then show False using m by simp
  qed
qed

lemma catch_up:
  assumes "valid_fn proc"
  shows "clck_catch_up fn proc =
    (if valid_fn fn then Some (fn, frames_after proc (unat (gsm_tdma_fn_sub fn proc))) else None)"
proof (cases "valid_fn fn")
  case True
  then show ?thesis
    using catch_up_Some [OF frame_plus_sub(1) frame_plus_sub(2)] assms by simp
next
  case False
  then show ?thesis using catch_up_valid [of fn proc] assms by (cases "clck_catch_up fn proc") auto
qed


section \<open>Clock indications\<close>

text \<open>How far the indicated frame is from the counter, as the code computes it.\<close>

definition fn_skew :: "u32 \<Rightarrow> u32 \<Rightarrow> int" where
  "fn_skew fn proc =
    (let e = uint (gsm_tdma_fn_sub fn proc)
     in if e \<ge> 135774 then e - int GSM_TDMA_HYPERFRAME else e)"

lemma fn_skew_nonneg: "0 \<le> fn_skew fn proc \<Longrightarrow> nat (fn_skew fn proc) = unat (gsm_tdma_fn_sub fn proc)"
proof -
  define n where "n = unat (gsm_tdma_fn_sub fn proc)"
  have e: "uint (gsm_tdma_fn_sub fn proc) = int n" by (simp add: n_def)
  have n: "n < GSM_TDMA_HYPERFRAME" unfolding n_def by (rule valid_fn_sub)
  have "nat (fn_skew fn proc) = n" if "0 \<le> fn_skew fn proc"
    using that n unfolding fn_skew_def e Let_def by (simp split: if_splits)
  then show "0 \<le> fn_skew fn proc \<Longrightarrow> nat (fn_skew fn proc) = unat (gsm_tdma_fn_sub fn proc)"
    by (simp add: n_def)
qed

lemma clck_handle_cases:
  fixes s :: "'a trx_sched_scheme" and fn :: u32
  assumes "valid_fn (fn_counter_proc s)"
  defines "k \<equiv> fn_skew fn (fn_counter_proc s)"
  shows "sched_clck_handle now fn s =
    (if clck_state s = SCH_CLCK_STATE_WAIT \<or> k > MAX_FN_SKEW \<or> k < - MAX_FN_SKEW
     then Some (0, s\<lparr>fn_counter_lost := 0, clck_state := SCH_CLCK_STATE_OK, fn_counter_proc := fn, clck_time := now,
                    clock_timer := Some GSM_TDMA_FN_DURATION_uS\<rparr>, if clock_cb s then [fn] else [])
     else if k < 0
     then Some (0, s\<lparr>fn_counter_lost := 0,
                    clck_time := timespecadd now \<lparr>tv_sec = 0, tv_nsec = - k * GSM_TDMA_FN_DURATION_nS\<rparr>,
                    clock_timer := Some (GSM_TDMA_FN_DURATION_uS * (1 - k))\<rparr>, [])
     else if valid_fn fn
     then Some (0, s\<lparr>fn_counter_lost := 0, fn_counter_proc := fn, clck_time := now,
                    clock_timer := Some GSM_TDMA_FN_DURATION_uS\<rparr>,
               if clock_cb s then frames_after (fn_counter_proc s) (nat k) else [])
     else None)"
proof -
  have c: "clck_state s = SCH_CLCK_STATE_OK" if "clck_state s \<noteq> SCH_CLCK_STATE_WAIT"
    using that by (cases "clck_state s") auto
  have k: "nat k = unat (gsm_tdma_fn_sub fn (fn_counter_proc s))" if "k \<ge> 0"
    using that fn_skew_nonneg unfolding k_def by simp
  have d: "(- k * GSM_TDMA_FN_DURATION_nS) div 1000000000 = 0"
    "(- k * GSM_TDMA_FN_DURATION_nS) mod 1000000000 = - k * GSM_TDMA_FN_DURATION_nS"
    if "k < 0" "- MAX_FN_SKEW \<le> k"
  proof -
    have "0 \<le> - k * GSM_TDMA_FN_DURATION_nS" "- k * GSM_TDMA_FN_DURATION_nS < 1000000000"
      using that by linarith+
    then show "(- k * GSM_TDMA_FN_DURATION_nS) div 1000000000 = 0"
      "(- k * GSM_TDMA_FN_DURATION_nS) mod 1000000000 = - k * GSM_TDMA_FN_DURATION_nS"
      by (rule div_pos_pos_trivial, rule mod_pos_pos_trivial)
  qed
  show ?thesis
  proof (cases "clck_state s = SCH_CLCK_STATE_WAIT")
    case True
    then show ?thesis by (simp add: sched_clck_handle_def sched_clck_correct_def Let_def)
  next
    case False
    note ok = c [OF this]
    have "sched_clck_handle now fn s =
      (if k > MAX_FN_SKEW \<or> k < - MAX_FN_SKEW
       then Some (0, s\<lparr>fn_counter_lost := 0, fn_counter_proc := fn, clck_time := now,
                    clock_timer := Some GSM_TDMA_FN_DURATION_uS\<rparr>, if clock_cb s then [fn] else [])
       else if k < 0
       then Some (0, s\<lparr>fn_counter_lost := 0,
                    clck_time := timespecadd now \<lparr>tv_sec = (- k * GSM_TDMA_FN_DURATION_nS) div 1000000000,
                       tv_nsec = (- k * GSM_TDMA_FN_DURATION_nS) mod 1000000000\<rparr>,
                    clock_timer := Some (GSM_TDMA_FN_DURATION_uS * (1 - k))\<rparr>, [])
       else do {
            (p, calls) \<leftarrow> clck_catch_up fn (fn_counter_proc s);
            Some (0, s\<lparr>fn_counter_lost := 0, fn_counter_proc := p, clck_time := now,
                         clock_timer := Some GSM_TDMA_FN_DURATION_uS\<rparr>,
                  if clock_cb s then calls else [])
          })"
      using ok unfolding k_def fn_skew_def sched_clck_handle_def sched_clck_correct_def Let_def
      by simp
    then show ?thesis
      using ok k d assms(1) by (simp add: catch_up)
  qed
qed


section \<open>Runs of the clock\<close>

datatype clck_event = ClckTick timespec | ClckInd timespec u32

definition clck_step :: "clck_event \<Rightarrow> 'a trx_sched_scheme \<Rightarrow> ('a trx_sched_scheme \<times> u32 list) option" where
  "clck_step e s =
    (case e of ClckTick now \<Rightarrow> Some (sched_clck_tick now s)
     | ClckInd now fn \<Rightarrow> map_option (\<lambda>(rc, s, calls). (s, calls)) (sched_clck_handle now fn s))"

fun clck_run :: "clck_event list \<Rightarrow> 'a trx_sched_scheme \<Rightarrow> ('a trx_sched_scheme \<times> u32 list) option" where
  "clck_run [] s = Some (s, [])"
| "clck_run (e # es) s = do {
     (s, calls) \<leftarrow> clck_step e s;
     (s, calls') \<leftarrow> clck_run es s;
     Some (s, calls @ calls')
   }"

text \<open>Every indication of the run finds the clock running and at most 50 frames off.\<close>

fun in_sync :: "clck_event list \<Rightarrow> 'a trx_sched_scheme \<Rightarrow> bool" where
  "in_sync [] s = True"
| "in_sync (e # es) s =
    ((case e of ClckTick now \<Rightarrow> True
      | ClckInd now fn \<Rightarrow> clck_state s = SCH_CLCK_STATE_OK \<and> valid_fn fn
          \<and> \<bar>fn_skew fn (fn_counter_proc s)\<bar> \<le> MAX_FN_SKEW) \<and>
     (case clck_step e s of Some (s', calls) \<Rightarrow> in_sync es s' | None \<Rightarrow> True))"

text \<open>The invariant: the timer is pending exactly while the clock runs.\<close>

definition clck_inv :: "'a trx_sched_scheme \<Rightarrow> bool" where
  "clck_inv s \<longleftrightarrow> valid_fn (fn_counter_proc s) \<and>
    (clck_state s = SCH_CLCK_STATE_WAIT \<longleftrightarrow> clock_timer s = None)"

lemma clck_tick_cases:
  assumes "clock_cb s" "sched_clck_tick now s = (s', calls)"
  obtains "s' = s\<lparr>fn_counter_lost := fn_counter_lost s + 1, clock_timer := None,
        clck_state := SCH_CLCK_STATE_WAIT\<rparr>" "calls = []"
  | n d where "calls = frames_after (fn_counter_proc s) n" "fn_counter_proc s' = frame_plus (fn_counter_proc s) n"
    "clock_timer s' = Some d" "2308 \<le> d" "d \<le> 6922" "clck_state s' = clck_state s" "clock_cb s'"
proof -
  let ?s = "s\<lparr>fn_counter_lost := fn_counter_lost s + 1, clock_timer := None\<rparr>"
  let ?us = "timespec_us (timespecsub now (clck_time s))"
  obtain s1 us c where l: "clck_tick_loop ?s ?us = (s1, us, c)" by (cases "clck_tick_loop ?s ?us")
  from clck_tick_loop_spec [OF l] assms(1) obtain n where n: "c = frames_after (fn_counter_proc s) n"
    "fn_counter_proc s1 = frame_plus (fn_counter_proc s) n" "us = ?us - int n * GSM_TDMA_FN_DURATION_uS"
    "us \<le> GSM_TDMA_FN_DURATION_uS div 2" "0 < n \<longrightarrow> GSM_TDMA_FN_DURATION_uS div 2 - GSM_TDMA_FN_DURATION_uS < us"
    "s1 = ?s\<lparr>clck_time := clck_time s1, fn_counter_proc := fn_counter_proc s1\<rparr>" by auto
  obtain t p where "s1 = ?s\<lparr>clck_time := t, fn_counter_proc := p\<rparr>" using n(6) by blast
  then have s1: "clck_state s1 = clck_state s" "clock_cb s1" using assms(1) by simp_all
  show thesis
  proof (cases "fn_counter_lost s = TRX_LOSS_FRAMES \<or> ?us > GSM_TDMA_FN_DURATION_uS * MAX_FN_SKEW \<or> ?us < 0")
    case True
    then show ?thesis using that(1) assms(2) by (auto simp: sched_clck_tick_def Let_def split: if_splits)
  next
    case False
    then have r: "s' = s1\<lparr>clock_timer := Some (GSM_TDMA_FN_DURATION_uS - us)\<rparr>" "calls = c"
      using assms(2) l by (auto simp: sched_clck_tick_def Let_def)
    have us: "- 2307 \<le> us" using False n(3,5) by (cases "n = 0") auto
    show ?thesis
      by (rule that(2) [of n "GSM_TDMA_FN_DURATION_uS - us"]) (use r n(1,2,4) s1 us in auto)
  qed
qed


lemma clck_tick_frames:
  assumes "clock_cb s" "sched_clck_tick now s = (s', calls)"
  shows "calls = frames_after (fn_counter_proc s) (length calls)
    \<and> fn_counter_proc s' = frame_plus (fn_counter_proc s) (length calls) \<and> clock_cb s'"
  by (rule clck_tick_cases [OF assms]) (use assms(1) in auto)

lemma clck_ind_frames:
  assumes "valid_fn (fn_counter_proc s)" "clock_cb s" "clck_state s = SCH_CLCK_STATE_OK" "valid_fn fn"
    and "\<bar>fn_skew fn (fn_counter_proc s)\<bar> \<le> MAX_FN_SKEW"
  shows "\<exists>s' calls. sched_clck_handle now fn s = Some (0, s', calls)
    \<and> calls = frames_after (fn_counter_proc s) (length calls)
    \<and> fn_counter_proc s' = frame_plus (fn_counter_proc s) (length calls) \<and> clock_cb s'"
proof -
  let ?k = "fn_skew fn (fn_counter_proc s)"
  have "0 \<le> ?k \<Longrightarrow> frame_plus (fn_counter_proc s) (nat ?k) = fn"
    using frame_plus_sub(1) [OF assms(4,1)] fn_skew_nonneg [of fn "fn_counter_proc s"] by simp
  then show ?thesis
    using assms unfolding clck_handle_cases [OF assms(1)] by auto
qed

text \<open>
  C11. The frame clock misses no frame and schedules none twice. In any sequence of timer
  expirations and clock indications in which every indication finds the clock running and
  is at most 50 frames off, whatever the local time does, the frame callback is called for
  consecutive frame numbers: the successors, modulo the hyperframe, of the frame the clock
  started at, each once and in order; and the counter ends at the last of them.
\<close>

theorem clock_frames_contiguous:
  assumes "valid_fn (fn_counter_proc s)" "clock_cb s" "in_sync evs s"
  shows "\<exists>s' calls. clck_run evs s = Some (s', calls)
    \<and> calls = frames_after (fn_counter_proc s) (length calls)
    \<and> fn_counter_proc s' = frame_plus (fn_counter_proc s) (length calls)"
  using assms
proof (induction evs arbitrary: s)
  case Nil
  then show ?case by simp
next
  case (Cons e es)
  have "\<exists>s1 c. clck_step e s = Some (s1, c) \<and> c = frames_after (fn_counter_proc s) (length c)
      \<and> fn_counter_proc s1 = frame_plus (fn_counter_proc s) (length c) \<and> clock_cb s1"
  proof (cases e)
    case (ClckTick now)
    then show ?thesis
      using clck_tick_frames [OF Cons.prems(2), of now] by (cases "sched_clck_tick now s") (auto simp: clck_step_def)
  next
    case (ClckInd now fn)
    then have "clck_state s = SCH_CLCK_STATE_OK" "valid_fn fn" "\<bar>fn_skew fn (fn_counter_proc s)\<bar> \<le> MAX_FN_SKEW"
      using Cons.prems(3) by simp_all
    from clck_ind_frames [OF Cons.prems(1,2) this, of now] ClckInd show ?thesis
      by (auto simp: clck_step_def)
  qed
  then obtain s1 c where s1: "clck_step e s = Some (s1, c)" "c = frames_after (fn_counter_proc s) (length c)"
    "fn_counter_proc s1 = frame_plus (fn_counter_proc s) (length c)" "clock_cb s1" by blast
  have "valid_fn (fn_counter_proc s1)" unfolding s1(3) by (rule valid_frame_plus [OF Cons.prems(1)])
  moreover have "in_sync es s1" using Cons.prems(3) s1(1) by simp
  ultimately obtain s' c' where s': "clck_run es s1 = Some (s', c')"
    "c' = frames_after (fn_counter_proc s1) (length c')"
    "fn_counter_proc s' = frame_plus (fn_counter_proc s1) (length c')"
    using Cons.IH s1(4) by blast
  show ?case
  proof (intro exI conjI)
    show "clck_run (e # es) s = Some (s', c @ c')" using s1(1) s'(1) by simp
    show "c @ c' = frames_after (fn_counter_proc s) (length (c @ c'))"
      unfolding length_append frames_after_add s1(2) [symmetric] s1(3) [symmetric] s'(2) [symmetric] ..
    show "fn_counter_proc s' = frame_plus (fn_counter_proc s) (length (c @ c'))"
      unfolding length_append frame_plus_add s1(3) [symmetric] by (rule s'(3))
  qed
qed

text \<open>The evaluation of the clock on concrete states.\<close>

lemmas clck_eval = clck_step_def sched_clck_tick_def clck_tick_loop.simps Let_def timespec_us_def timespecsub_def
  timespecadd_def frame_duration_def gsm_tdma_fn_inc_def gsm_tdma_fn_sum_def gsm_tdma_fn_sub_def fn_skew_def
  sched_clck_handle_def clck_catch_up.simps

text \<open>A running clock, three frames before the end of the hyperframe.\<close>

definition demo_clock :: trx_sched where
  "demo_clock = \<lparr>clck_state = SCH_CLCK_STATE_OK, clck_time = \<lparr>tv_sec = 5, tv_nsec = 0\<rparr>,
     fn_counter_proc = 2715645, fn_counter_advance = 3, fn_counter_lost = 0,
     clock_timer = Some 4615, clock_cb = True\<rparr>"

theorem clock_frames_contiguous_witness:
  "\<exists>s'. clck_run [ClckTick \<lparr>tv_sec = 5, tv_nsec = 9230000\<rparr>, ClckInd \<lparr>tv_sec = 5, tv_nsec = 12000000\<rparr> 1] demo_clock
      = Some (s', [2715646, 2715647, 0, 1]) \<and> fn_counter_proc s' = 1"
  using clock_frames_contiguous [of demo_clock
    "[ClckTick \<lparr>tv_sec = 5, tv_nsec = 9230000\<rparr>, ClckInd \<lparr>tv_sec = 5, tv_nsec = 12000000\<rparr> 1]"]
  by (simp add: demo_clock_def clck_eval)

text \<open>
  C12. The loop of \<open>sched_clck_handle\<close> that catches up with an indication ends for every
  frame number below the hyperframe, and only for those: on a running clock, an indication
  beyond the hyperframe that is within 50 frames of the counter modulo the hyperframe is
  never reached, and the loop calls the frame callback for ever. (The only caller checks
  the frame number first.)
\<close>

theorem clck_handle_returns_iff:
  assumes "valid_fn (fn_counter_proc s)"
  shows "sched_clck_handle now fn s = None \<longleftrightarrow>
    clck_state s = SCH_CLCK_STATE_OK \<and> \<not> valid_fn fn
      \<and> 0 \<le> fn_skew fn (fn_counter_proc s) \<and> fn_skew fn (fn_counter_proc s) \<le> MAX_FN_SKEW"
  unfolding clck_handle_cases [OF assms] by (cases "clck_state s") auto

theorem clck_handle_returns_iff_witness:
  "sched_clck_handle \<lparr>tv_sec = 6, tv_nsec = 0\<rparr> 2 demo_clock \<noteq> None
    \<and> sched_clck_handle \<lparr>tv_sec = 6, tv_nsec = 0\<rparr> 5431300 (demo_clock\<lparr>fn_counter_proc := 0\<rparr>) = None"
  using clck_handle_returns_iff [of demo_clock "\<lparr>tv_sec = 6, tv_nsec = 0\<rparr>" 2]
    clck_handle_returns_iff [of "demo_clock\<lparr>fn_counter_proc := 0\<rparr>" "\<lparr>tv_sec = 6, tv_nsec = 0\<rparr>" 5431300]
  by (simp add: demo_clock_def fn_skew_def gsm_tdma_fn_sub_def)

lemma clck_ind_inv:
  assumes "clck_inv s" "valid_fn fn" "sched_clck_handle now fn s = Some (rc, s', calls)"
  shows "clck_inv s' \<and> clck_state s' = SCH_CLCK_STATE_OK
    \<and> (\<exists>d. clock_timer s' = Some d \<and> GSM_TDMA_FN_DURATION_uS \<le> d \<and> d \<le> 51 * GSM_TDMA_FN_DURATION_uS)"
proof -
  have p: "valid_fn (fn_counter_proc s)" using assms(1) by (simp add: clck_inv_def)
  have ok: "clck_state s = SCH_CLCK_STATE_OK" if "clck_state s \<noteq> SCH_CLCK_STATE_WAIT"
    using that by (cases "clck_state s") auto
  show ?thesis
    using assms ok p unfolding clck_handle_cases [OF p]
    by (auto simp: clck_inv_def split: if_splits)
qed

text \<open>
  C13. The timer of the frame clock is pending exactly while the clock runs, after every
  timer expiration, clock indication and reset, so that a running clock never stalls and
  the memory of a pending timer is never cleared; and the timer is never set to less than
  2308 microseconds (half a frame) nor, by its own handler, to more than 6922.
\<close>

theorem clock_timer_pending_iff_running:
  assumes "clck_inv s" "clock_cb s" "valid_fn fn"
  shows "(clock_timer s \<noteq> None \<longrightarrow>
      (case sched_clck_tick now s of (s', calls) \<Rightarrow> clck_inv s'
        \<and> (\<forall>d. clock_timer s' = Some d \<longrightarrow> 2308 \<le> d \<and> d \<le> 6922)))
    \<and> (\<exists>s' calls d. sched_clck_handle now fn s = Some (0, s', calls) \<and> clck_inv s'
      \<and> clck_state s' = SCH_CLCK_STATE_OK \<and> clock_timer s' = Some d \<and> 4615 \<le> d \<and> d \<le> 235365)
    \<and> clck_inv (sched_clck_reset s)"
proof -
  have p: "valid_fn (fn_counter_proc s)" using assms(1) by (simp add: clck_inv_def)
  obtain s1 c where t: "sched_clck_tick now s = (s1, c)" by fastforce
  have tick: "clck_inv s1 \<and> (\<forall>d. clock_timer s1 = Some d \<longrightarrow> 2308 \<le> d \<and> d \<le> 6922)"
    if "clock_timer s \<noteq> None"
  proof (cases rule: clck_tick_cases [OF assms(2) t])
    case 1
    then show ?thesis using p by (simp add: clck_inv_def)
  next
    case (2 n d)
    have "clck_state s \<noteq> SCH_CLCK_STATE_WAIT" using assms(1) that by (simp add: clck_inv_def)
    then show ?thesis using 2 valid_frame_plus [OF p] by (simp add: clck_inv_def)
  qed
  obtain rc s2 c2 where h: "sched_clck_handle now fn s = Some (rc, s2, c2)"
    using clck_handle_returns_iff [OF p, of now fn] assms(3)
    by (cases "sched_clck_handle now fn s") auto
  have "rc = 0" using h unfolding clck_handle_cases [OF p] by (auto split: if_splits)
  moreover note clck_ind_inv [OF assms(1,3) h]
  moreover have "clck_inv (sched_clck_reset s)" by (simp add: clck_inv_def sched_clck_reset_def)
  ultimately show ?thesis using t tick h by auto
qed


theorem clock_timer_pending_iff_running_witness:
  "\<exists>s' calls. sched_clck_tick \<lparr>tv_sec = 5, tv_nsec = 9230000\<rparr> demo_clock = (s', calls)
    \<and> clck_inv s' \<and> clock_timer s' = Some 4615"
  using clock_timer_pending_iff_running [of demo_clock 7 "\<lparr>tv_sec = 5, tv_nsec = 9230000\<rparr>"]
  by (simp add: demo_clock_def clck_eval clck_inv_def)

end
