(* ===== verification/SchedTrx.thy ===== *)
theory SchedTrx
  imports SchedLchanXcch SchedLchanTch SchedLchanRach SchedClck
begin

text \<open>
  The core of the trxcon scheduler (\<open>sched_trx.c\<close>): the transceiver instance, timeslot
  and channel management, ciphering, the transmission of a TDMA frame, the compensation of
  lost frames and the dispatch of received bursts.

  Functions that reach through a list head return an option: \<open>None\<close> is the crash on a
  head that was never initialised, an index outside an array, a failed assertion in a
  callee or a division by a zero period. Allocation never fails. Events are the messages
  sent, in their order.
\<close>

section \<open>The instance\<close>

record trx_instance = trx_phy +
  sched :: trx_sched
  ts_list :: "trx_ts option list"

abbreviation (input) TRX_TS_COUNT :: nat where "TRX_TS_COUNT \<equiv> 8"
abbreviation (input) MAX_A5_KEY_LEN :: nat where "MAX_A5_KEY_LEN \<equiv> 16"

text \<open>Write an element back into a list it was found in by a search.\<close>

fun update_first :: "('b \<Rightarrow> bool) \<Rightarrow> 'b \<Rightarrow> 'b list \<Rightarrow> 'b list" where
  "update_first P y [] = []"
| "update_first P y (x # xs) = (if P x then y # xs else x # update_first P y xs)"

definition sched_trx_find_lchan :: "trx_ts \<Rightarrow> trx_lchan_type \<Rightarrow> trx_lchan_state option option" where
  "sched_trx_find_lchan ts chan = map_option (find (\<lambda>l. lchan_type l = chan)) (lchans ts)"

text \<open>Every field of a channel state but its type may have changed since it was found.\<close>

definition put_lchan :: "trx_ts \<Rightarrow> trx_lchan_state \<Rightarrow> trx_ts" where
  "put_lchan ts lchan =
    ts\<lparr>lchans := map_option (update_first (\<lambda>l. lchan_type l = lchan_type lchan) lchan) (lchans ts)\<rparr>"

section \<open>Activation of logical channels\<close>

definition sched_trx_reset_lchan :: "trx_lchan_state \<Rightarrow> trx_lchan_state" where
  "sched_trx_reset_lchan lchan =
    (let lchan = sched_prim_drop (lchan\<lparr>rx_burst_mask := 0, tx_burst_mask := 0,
                                       rx_bursts := None, tx_bursts := None\<rparr>);
         lchan = (if chan_is_tch (lchan_type lchan)
                  then lchan\<lparr>dl_ongoing_facch := False, ul_facch_blocks := 0,
                             tch_mode := GSM48_CMODE_SIGN\<rparr>
                  else if chan_is_sacch (lchan_type lchan)
                  then lchan\<lparr>mr_cache := replicate GSM_MACBLOCK_LEN 0, mr_cache_usage := 0,
                             mr_tx_last := False\<rparr>
                  else lchan)
     in lchan\<lparr>a5_key := replicate MAX_A5_KEY_LEN 0, a5_key_len := 0, a5_algo := 0,
              last_proc := 0, num_proc := 0, num_lost := 0\<rparr>)"

definition activated :: "trx_lchan_state \<Rightarrow> trx_lchan_state" where
  "activated lchan =
    (let desc = trx_lchan_desc (lchan_type lchan);
         buf = replicate (ld_burst_buf_size desc) 0;
         lchan = (if ld_rx_fn desc \<noteq> None \<and> ld_burst_buf_size desc > 0
                  then lchan\<lparr>rx_bursts := Some buf\<rparr> else lchan);
         lchan = (if ld_tx_fn desc \<noteq> None \<and> ld_burst_buf_size desc > 0
                  then lchan\<lparr>tx_bursts := Some buf\<rparr> else lchan)
     in lchan\<lparr>active := True\<rparr>)"

definition sched_trx_activate_lchan :: "trx_ts \<Rightarrow> trx_lchan_type \<Rightarrow> (int \<times> trx_ts) option" where
  "sched_trx_activate_lchan ts chan = do {
     found \<leftarrow> sched_trx_find_lchan ts chan;
     Some (case found of
         None \<Rightarrow> (- EINVAL, ts)
       | Some lchan \<Rightarrow> if active lchan then (- EINVAL, ts) else (0, put_lchan ts (activated lchan)))
   }"

definition sched_trx_deactivate_lchan :: "trx_ts \<Rightarrow> trx_lchan_type \<Rightarrow> (int \<times> trx_ts) option" where
  "sched_trx_deactivate_lchan ts chan = do {
     found \<leftarrow> sched_trx_find_lchan ts chan;
     Some (case found of
         None \<Rightarrow> (- EINVAL, ts)
       | Some lchan \<Rightarrow> if \<not> active lchan then (- EINVAL, ts)
           else (0, put_lchan ts ((sched_trx_reset_lchan lchan)\<lparr>active := False\<rparr>)))
   }"

definition sched_trx_deactivate_all_lchans :: "trx_ts \<Rightarrow> trx_ts option" where
  "sched_trx_deactivate_all_lchans ts = do {
     ls \<leftarrow> lchans ts;
     Some (ts\<lparr>lchans := Some (map (\<lambda>lchan. if active lchan then (sched_trx_reset_lchan lchan)\<lparr>active := False\<rparr>
                                        else lchan) ls)\<rparr>)
   }"

text \<open>The loop over the channels of the timeslot, from position \<open>j\<close> on, \<open>n\<close> rounds.\<close>

fun set_lchans_loop :: "u8 \<Rightarrow> bool \<Rightarrow> u8 \<Rightarrow> nat \<Rightarrow> nat \<Rightarrow> int \<Rightarrow> trx_ts \<Rightarrow> (int \<times> trx_ts) option" where
  "set_lchans_loop chan_nr act mode j 0 rc ts = Some (rc, ts)"
| "set_lchans_loop chan_nr act mode j (Suc n) rc ts = do {
     ls \<leftarrow> lchans ts;
     lchan \<leftarrow> mem_at ls j;
     (rc, ts) \<leftarrow>
       (if ld_chan_nr (trx_lchan_desc (lchan_type lchan)) \<noteq> chan_nr AND 0xf8 then Some (rc, ts)
        else if act then do {
          (r, ts) \<leftarrow> sched_trx_activate_lchan ts (lchan_type lchan);
          Some (rc OR r, ts\<lparr>lchans := map_option (\<lambda>ls. ls[j := (ls ! j)\<lparr>tch_mode := mode\<rparr>]) (lchans ts)\<rparr>)
        }
        else do {
          (r, ts) \<leftarrow> sched_trx_deactivate_lchan ts (lchan_type lchan);
          Some (rc OR r, ts)
        });
     set_lchans_loop chan_nr act mode (Suc j) n rc ts
   }"

definition sched_trx_set_lchans :: "trx_ts option \<Rightarrow> u8 \<Rightarrow> bool \<Rightarrow> u8 \<Rightarrow> (int \<times> trx_ts option) option" where
  "sched_trx_set_lchans ts chan_nr act mode =
    (case ts of
       None \<Rightarrow> Some (- EINVAL, None)
     | Some ts \<Rightarrow> do {
         ls \<leftarrow> lchans ts;
         (rc, ts) \<leftarrow> set_lchans_loop chan_nr act mode 0 (length ls) 0 ts;
         Some (rc, Some ts)
       })"

definition sched_trx_start_ciphering :: "trx_ts option \<Rightarrow> u8 \<Rightarrow> u8 list \<Rightarrow> u8
    \<Rightarrow> (int \<times> trx_ts option) option" where
  "sched_trx_start_ciphering ts algo key key_len =
    (case ts of
       None \<Rightarrow> Some (- EINVAL, None)
     | Some ts \<Rightarrow>
         if unat key_len > MAX_A5_KEY_LEN then Some (- ERANGE, Some ts)
         else do {
           ls \<leftarrow> lchans ts;
           k \<leftarrow> mem_read key 0 (unat key_len);
           Some (0, Some (ts\<lparr>lchans := Some (map (\<lambda>lchan.
             if active lchan
             then lchan\<lparr>a5_key_len := key_len, a5_algo := algo, a5_key := blit (a5_key lchan) 0 k\<rparr>
             else lchan) ls)\<rparr>))
         })"

section \<open>Timeslots\<close>

text \<open>\<open>talloc_zero\<close>: no layout, and the two list heads are zero, not empty lists.\<close>

definition new_ts :: "nat \<Rightarrow> trx_ts" where
  "new_ts tn = \<lparr>ts_index = tn, mf_layout = None, lchans = None, tx_prims = None\<rparr>"

definition sched_trx_add_ts :: "trx_instance \<Rightarrow> nat \<Rightarrow> (trx_ts option \<times> trx_instance) option" where
  "sched_trx_add_ts trx tn = do {
     slot \<leftarrow> mem_at (ts_list trx) tn;
     Some (if slot \<noteq> None then (None, trx)
           else (Some (new_ts tn), trx\<lparr>ts_list := (ts_list trx)[tn := Some (new_ts tn)]\<rparr>))
   }"

definition sched_trx_del_ts :: "trx_instance \<Rightarrow> nat \<Rightarrow> (trx_instance \<times> trx_event list) option" where
  "sched_trx_del_ts trx tn = do {
     slot \<leftarrow> mem_at (ts_list trx) tn;
     case slot of
       None \<Rightarrow> Some (trx, [])
     | Some ts \<Rightarrow> do {
         ts \<leftarrow> sched_trx_deactivate_all_lchans ts;
         _ \<leftarrow> sched_prim_flush_queue (tx_prims ts);
         Some (trx\<lparr>ts_list := (ts_list trx)[tn := None]\<rparr>, [TrxCmdSetslot tn 0])
       }
   }"

definition sched_trx_reset_ts :: "trx_instance \<Rightarrow> nat \<Rightarrow> (int \<times> trx_instance \<times> trx_event list) option" where
  "sched_trx_reset_ts trx tn = do {
     slot \<leftarrow> mem_at (ts_list trx) tn;
     case slot of
       None \<Rightarrow> Some (- EINVAL, trx, [])
     | Some ts \<Rightarrow> do {
         q \<leftarrow> sched_prim_flush_queue (tx_prims ts);
         ts \<leftarrow> sched_trx_deactivate_all_lchans (ts\<lparr>mf_layout := None, tx_prims := Some q\<rparr>);
         Some (0, trx\<lparr>ts_list := (ts_list trx)[tn := Some (ts\<lparr>lchans := Some []\<rparr>)]\<rparr>, [TrxCmdSetslot tn 0])
       }
   }"

text \<open>The loop that allocates the channel states of a layout.\<close>

fun alloc_lchans :: "trx_multiframe \<Rightarrow> trx_lchan_type list \<Rightarrow> trx_ts \<Rightarrow> trx_ts option" where
  "alloc_lchans mf [] ts = Some ts"
| "alloc_lchans mf (chan # chans) ts =
    (if \<not> layout_has_lchan mf chan then alloc_lchans mf chans ts
     else do {
       ls \<leftarrow> lchans ts;
       let ts = ts\<lparr>lchans := Some (ls @ [new_lchan chan])\<rparr>;
       ts \<leftarrow> (if chan_flag_auto chan
              then do { (rc, ts) \<leftarrow> sched_trx_activate_lchan ts chan; Some ts }
              else Some ts);
       alloc_lchans mf chans ts
     })"

definition sched_trx_configure_ts :: "trx_instance \<Rightarrow> nat \<Rightarrow> gsm_phys_chan_config
    \<Rightarrow> (int \<times> trx_instance \<times> trx_event list) option" where
  "sched_trx_configure_ts trx tn config = do {
     slot \<leftarrow> mem_at (ts_list trx) tn;
     (trx, evs) \<leftarrow>
       (if slot \<noteq> None
        then do { (rc, trx, evs) \<leftarrow> sched_trx_reset_ts trx tn; Some (trx, evs) }
        else do { (ts, trx) \<leftarrow> sched_trx_add_ts trx tn; Some (trx, []) });
     slot \<leftarrow> mem_at (ts_list trx) tn;
     ts \<leftarrow> slot;
     let ts = ts\<lparr>mf_layout := sched_mframe_layout config tn\<rparr>;
     case mf_layout ts of
       None \<Rightarrow> Some (- EINVAL, trx\<lparr>ts_list := (ts_list trx)[tn := Some ts]\<rparr>, evs)
     | Some mf \<Rightarrow>
         if chan_config mf \<noteq> config
         then Some (- EINVAL, trx\<lparr>ts_list := (ts_list trx)[tn := Some ts]\<rparr>, evs)
         else do {
           ts \<leftarrow> alloc_lchans mf all_lchan_types (ts\<lparr>tx_prims := Some [], lchans := Some []\<rparr>);
           Some (0, trx\<lparr>ts_list := (ts_list trx)[tn := Some ts]\<rparr>, evs @ [TrxCmdSetslot tn 1])
         }
   }"

text \<open>The loop over all timeslots that \<open>sched_trx_reset\<close> and \<open>sched_trx_shutdown\<close> share.\<close>

fun del_all_ts :: "nat list \<Rightarrow> trx_instance \<Rightarrow> (trx_instance \<times> trx_event list) option" where
  "del_all_ts [] trx = Some (trx, [])"
| "del_all_ts (tn # tns) trx = do {
     (trx, evs) \<leftarrow> sched_trx_del_ts trx tn;
     (trx, evs') \<leftarrow> del_all_ts tns trx;
     Some (trx, evs @ evs')
   }"

definition sched_trx_init :: "trx_instance \<Rightarrow> u32 \<Rightarrow> int \<times> trx_instance" where
  "sched_trx_init trx fn_advance =
    (0, trx\<lparr>sched := (sched trx)\<lparr>clock_cb := True, fn_counter_advance := fn_advance\<rparr>\<rparr>)"

definition sched_trx_shutdown :: "trx_instance \<Rightarrow> (int \<times> trx_instance \<times> trx_event list) option" where
  "sched_trx_shutdown trx = do {
     (trx, evs) \<leftarrow> del_all_ts [0..<TRX_TS_COUNT] trx;
     Some (0, trx, evs)
   }"

definition sched_trx_reset :: "trx_instance \<Rightarrow> bool \<Rightarrow> (int \<times> trx_instance \<times> trx_event list) option" where
  "sched_trx_reset trx reset_clock = do {
     (trx, evs) \<leftarrow> del_all_ts [0..<TRX_TS_COUNT] trx;
     Some (0, if reset_clock then trx\<lparr>sched := sched_clck_reset (sched trx)\<rparr> else trx, evs)
   }"

section \<open>Ciphering\<close>

text \<open>The loops over the 57 + 57 bits around the training sequence.\<close>

definition sched_trx_a5_burst_dec :: "codec \<Rightarrow> trx_lchan_state \<Rightarrow> u32 \<Rightarrow> sbit list \<Rightarrow> sbit list option" where
  "sched_trx_a5_burst_dec cd lchan fn burst =
    (let (ks, ul) = osmo_a5 cd (a5_algo lchan) (a5_key lchan) fn in
     if length ks < 114 \<or> length burst < 145 then None
     else Some (fold (\<lambda>i b.
       let b = (if ks ! i \<noteq> 0 then b[i + 3 := - (b ! (i + 3))] else b)
       in if ks ! (i + 57) \<noteq> 0 then b[i + 88 := - (b ! (i + 88))] else b) [0..<57] burst))"

definition sched_trx_a5_burst_enc :: "codec \<Rightarrow> trx_lchan_state \<Rightarrow> sched_burst_req \<Rightarrow> sched_burst_req option" where
  "sched_trx_a5_burst_enc cd lchan br =
    (let (dl, ks) = osmo_a5 cd (a5_algo lchan) (a5_key lchan) (br_fn br); burst = br_burst br in
     if length ks < 114 \<or> length burst < 145 then None
     else Some (br\<lparr>br_burst := fold (\<lambda>i b.
       let b = b[i + 3 := b ! (i + 3) XOR ks ! i]
       in b[i + 88 := b ! (i + 88) XOR ks ! (i + 57)]) [0..<57] burst\<rparr>))"

section \<open>Dispatch\<close>

definition tx_call :: "codec \<Rightarrow> tx_handler \<Rightarrow> nat \<Rightarrow> trx_instance \<Rightarrow> trx_lchan_state \<Rightarrow> sched_burst_req
    \<Rightarrow> tx_outcome" where
  "tx_call cd f tn trx lchan br =
    (case f of
       TX_DATA \<Rightarrow> tx_data_fn cd tn trx lchan br
     | TX_RACH \<Rightarrow> tx_rach_fn cd tn trx lchan br
     | TX_TCHF \<Rightarrow> tx_tchf_fn cd tn trx lchan br
     | TX_TCHH \<Rightarrow> tx_tchh_fn cd tn trx lchan br
     | TX_PDTCH \<Rightarrow> tx_pdtch_fn cd tn trx lchan br)"

definition rx_call :: "codec \<Rightarrow> rx_handler \<Rightarrow> nat \<Rightarrow> trx_instance \<Rightarrow> trx_lchan_state \<Rightarrow> u32 \<Rightarrow> nat
    \<Rightarrow> sbit list \<Rightarrow> trx_meas_set \<Rightarrow> (int \<times> trx_instance \<times> trx_lchan_state \<times> trx_event list) option" where
  "rx_call cd f tn trx lchan fn bid bits meas =
    (let keep = map_option (\<lambda>(rc, l, evs). (rc, trx, l, evs)) in
     case f of
       RX_SCH \<Rightarrow> map_option (\<lambda>(rc, trx, evs). (rc, trx, lchan, evs)) (rx_sch_fn cd tn trx lchan fn bid bits meas)
     | RX_DATA \<Rightarrow> keep (rx_data_fn cd tn trx lchan fn bid bits meas)
     | RX_TCHF \<Rightarrow> keep (rx_tchf_fn cd tn trx lchan fn bid bits meas)
     | RX_TCHH \<Rightarrow> keep (rx_tchh_fn cd tn trx lchan fn bid bits meas)
     | RX_PDTCH \<Rightarrow> keep (rx_pdtch_fn cd tn trx lchan fn bid bits meas))"

section \<open>Transmission of a frame\<close>

text \<open>
  If no primitive is being processed, a new one is taken from the queue; on a channel with
  continuous transmission a missing one is replaced by a dummy.
\<close>

definition frame_obtain_prim :: "(nat \<Rightarrow> u8) \<Rightarrow> 'a trx_phy_scheme \<Rightarrow> u32 \<Rightarrow> trx_ts \<Rightarrow> trx_lchan_state
    \<Rightarrow> (trx_ts \<times> trx_lchan_state) option" where
  "frame_obtain_prim rnd trx fn ts lchan = do {
     (ts, lchan) \<leftarrow>
       (if cur_prim lchan = None
        then do {
          q \<leftarrow> tx_prims ts;
          (p, q, lchan) \<leftarrow> sched_prim_dequeue trx q fn lchan;
          Some (ts\<lparr>tx_prims := Some q\<rparr>, lchan\<lparr>cur_prim := p\<rparr>)
        }
        else Some (ts, lchan));
     if chan_flag_cbtx (lchan_type lchan) \<and> cur_prim lchan = None
     then do { (rc, lchan) \<leftarrow> sched_prim_dummy rnd lchan; Some (ts, lchan) }
     else Some (ts, lchan)
   }"

text \<open>The handler is poked, unless there is nothing to send, and its burst is encrypted.\<close>

definition frame_poke :: "codec \<Rightarrow> trx_instance \<Rightarrow> tx_handler \<Rightarrow> trx_ts \<Rightarrow> trx_lchan_state
    \<Rightarrow> sched_burst_req \<Rightarrow> (trx_ts \<times> sched_burst_req \<times> trx_event list) option" where
  "frame_poke cd trx handler ts lchan br =
    (case cur_prim lchan of
       None \<Rightarrow> Some (put_lchan ts lchan, br, [])
     | Some prim \<Rightarrow> do {
         h \<leftarrow> (if prim_is_rach prim \<and> prim_chan prim \<noteq> TRXC_RACH
              then ld_tx_fn (trx_lchan_desc TRXC_RACH) else Some handler);
         (rc, lchan, br, evs) \<leftarrow> tx_call cd h (ts_index ts) trx lchan br;
         br \<leftarrow> (if a5_algo lchan \<noteq> 0 then sched_trx_a5_burst_enc cd lchan br else Some br);
         Some (put_lchan ts lchan, br, evs)
       })"

text \<open>One timeslot of the frame: the body of the loop after the check of the slot.\<close>

definition frame_slot :: "codec \<Rightarrow> (nat \<Rightarrow> u8) \<Rightarrow> trx_instance \<Rightarrow> u32 \<Rightarrow> nat \<Rightarrow> trx_ts
    \<Rightarrow> (trx_ts \<times> sched_burst_req \<times> trx_event list) option" where
  "frame_slot cd rnd trx fn i ts =
    (let br = new_req fn i (tx_power trx) 0 in
     case mf_layout ts of
       None \<Rightarrow> Some (ts, br, [])
     | Some mf \<Rightarrow>
         if period mf = 0 then None
         else do {
           frame \<leftarrow> mem_at (frames mf) (unat fn mod period mf);
           let br = br\<lparr>br_bid := ul_bid frame\<rparr>;
           case ld_tx_fn (trx_lchan_desc (ul_chan frame)) of
             None \<Rightarrow> Some (ts, br, [])
           | Some handler \<Rightarrow> do {
               found \<leftarrow> sched_trx_find_lchan ts (ul_chan frame);
               case found of
                 None \<Rightarrow> Some (ts, br, [])
               | Some lchan \<Rightarrow>
                   if \<not> active lchan then Some (ts, br, [])
                   else do {
                     (ts, lchan) \<leftarrow> frame_obtain_prim rnd trx fn ts lchan;
                     frame_poke cd trx handler ts lchan br
                   }
             }
         })"

fun frame_slots :: "codec \<Rightarrow> (nat \<Rightarrow> nat \<Rightarrow> u8) \<Rightarrow> u32 \<Rightarrow> nat list \<Rightarrow> trx_instance
    \<Rightarrow> (trx_instance \<times> sched_burst_req list \<times> trx_event list) option" where
  "frame_slots cd rnd fn [] trx = Some (trx, [], [])"
| "frame_slots cd rnd fn (i # is) trx = do {
     slot \<leftarrow> mem_at (ts_list trx) i;
     (trx, br, evs) \<leftarrow>
       (case slot of
          None \<Rightarrow> Some (trx, new_req fn i (tx_power trx) 0, [])
        | Some ts \<Rightarrow> do {
            (ts, br, evs) \<leftarrow> frame_slot cd (rnd i) trx fn i ts;
            Some (trx\<lparr>ts_list := (ts_list trx)[i := Some ts]\<rparr>, br, evs)
          });
     (trx, brs, evs') \<leftarrow> frame_slots cd rnd fn is trx;
     Some (trx, br # brs, evs @ evs')
   }"

definition sched_frame_clck_cb :: "codec \<Rightarrow> (nat \<Rightarrow> nat \<Rightarrow> u8) \<Rightarrow> trx_instance
    \<Rightarrow> (trx_instance \<times> trx_event list) option" where
  "sched_frame_clck_cb cd rnd trx = do {
     let fn = gsm_tdma_fn_sum (fn_counter_proc (sched trx)) (fn_counter_advance (sched trx));
     (trx, brs, evs) \<leftarrow> frame_slots cd rnd fn [0..<TRX_TS_COUNT] trx;
     Some (trx, evs @ map TrxTxBurst brs)
   }"

text \<open>The clock and its callback: the callback runs with the counter at the recorded values.\<close>

fun run_frames :: "codec \<Rightarrow> (u32 \<Rightarrow> nat \<Rightarrow> nat \<Rightarrow> u8) \<Rightarrow> u32 list \<Rightarrow> trx_instance
    \<Rightarrow> (trx_instance \<times> trx_event list) option" where
  "run_frames cd rnd [] trx = Some (trx, [])"
| "run_frames cd rnd (fn # fns) trx = do {
     (trx, evs) \<leftarrow> sched_frame_clck_cb cd (rnd fn) (trx\<lparr>sched := (sched trx)\<lparr>fn_counter_proc := fn\<rparr>\<rparr>);
     (trx, evs') \<leftarrow> run_frames cd rnd fns trx;
     Some (trx, evs @ evs')
   }"

definition trx_clck_tick :: "codec \<Rightarrow> (u32 \<Rightarrow> nat \<Rightarrow> nat \<Rightarrow> u8) \<Rightarrow> timespec \<Rightarrow> trx_instance
    \<Rightarrow> (trx_instance \<times> trx_event list) option" where
  "trx_clck_tick cd rnd now trx = do {
     let (s, calls) = sched_clck_tick now (sched trx);
     (trx, evs) \<leftarrow> run_frames cd rnd calls trx;
     Some (trx\<lparr>sched := s\<rparr>, evs)
   }"

definition trx_clck_handle :: "codec \<Rightarrow> (u32 \<Rightarrow> nat \<Rightarrow> nat \<Rightarrow> u8) \<Rightarrow> timespec \<Rightarrow> u32 \<Rightarrow> trx_instance
    \<Rightarrow> (trx_instance \<times> trx_event list) option" where
  "trx_clck_handle cd rnd now fn trx = do {
     (rc, s, calls) \<leftarrow> sched_clck_handle now fn (sched trx);
     (trx, evs) \<leftarrow> run_frames cd rnd calls trx;
     Some (trx\<lparr>sched := s\<rparr>, evs)
   }"

section \<open>Reception of a burst\<close>

text \<open>The number of frames elapsed since the last one, folded into half a hyperframe.\<close>

definition elapsed_frames :: "u32 \<Rightarrow> u32 \<Rightarrow> int" where
  "elapsed_frames fn last_fn =
    (let elapsed = sint (fn - last_fn)
     in if elapsed \<ge> GSM_TDMA_HYPERFRAME div 2 then elapsed - GSM_TDMA_HYPERFRAME
        else if elapsed < - (GSM_TDMA_HYPERFRAME div 2) then elapsed + GSM_TDMA_HYPERFRAME
        else elapsed)"

text \<open>The loop that calls the handler for the \<open>n\<close> missing frames after \<open>fake_fn\<close>.\<close>

fun subst_loop :: "codec \<Rightarrow> rx_handler \<Rightarrow> nat \<Rightarrow> trx_multiframe \<Rightarrow> nat \<Rightarrow> u32 \<Rightarrow> trx_instance \<Rightarrow> trx_lchan_state
    \<Rightarrow> (trx_instance \<times> trx_lchan_state \<times> trx_event list) option" where
  "subst_loop cd h tn mf 0 fake_fn trx lchan = Some (trx, lchan, [])"
| "subst_loop cd h tn mf (Suc n) fake_fn trx lchan = do {
     let fake_fn = gsm_tdma_fn_inc fake_fn;
     fp \<leftarrow> mem_at (frames mf) (unat fake_fn mod period mf);
     if dl_chan fp \<noteq> lchan_type lchan then subst_loop cd h tn mf n fake_fn trx lchan
     else do {
       (rc, trx, lchan, evs) \<leftarrow> rx_call cd h tn trx lchan fake_fn (dl_bid fp) (replicate GSM_BURST_LEN 0)
         \<lparr>meas_fn = fake_fn, meas_toa256 = 0, meas_rssi = -120\<rparr>;
       let lchan = lchan\<lparr>last_proc := fake_fn, num_proc := num_proc lchan + 1, num_lost := num_lost lchan + 1\<rparr>;
       (trx, lchan, evs') \<leftarrow> subst_loop cd h tn mf n fake_fn trx lchan;
       Some (trx, lchan, evs @ evs')
     }
   }"

definition subst_frame_loss :: "codec \<Rightarrow> rx_handler \<Rightarrow> u32 \<Rightarrow> nat \<Rightarrow> trx_multiframe \<Rightarrow> trx_instance \<Rightarrow> trx_lchan_state
    \<Rightarrow> (int \<times> trx_instance \<times> trx_lchan_state \<times> trx_event list) option" where
  "subst_frame_loss cd h fn tn mf trx lchan =
    (if num_proc lchan = 0 then Some (- EAGAIN, trx, lchan, [])
     else let elapsed = elapsed_frames fn (last_proc lchan) in
       if elapsed < 0 then Some (- EALREADY, trx, lchan, [])
       else if elapsed > int (period mf) then Some (- EIO, trx, lchan, [])
       else if elapsed = 0 then Some (- EIO, trx, lchan, [])
       else do {
         (trx, lchan, evs) \<leftarrow> subst_loop cd h tn mf (nat (elapsed - 1)) (last_proc lchan) trx lchan;
         Some (0, trx, lchan, evs)
       })"

text \<open>The part for an active channel.\<close>

definition rx_burst_lchan :: "codec \<Rightarrow> rx_handler \<Rightarrow> u32 \<Rightarrow> nat \<Rightarrow> nat \<Rightarrow> trx_multiframe \<Rightarrow> sbit list \<Rightarrow> trx_meas_set
    \<Rightarrow> trx_instance \<Rightarrow> trx_lchan_state \<Rightarrow> (int \<times> trx_instance \<times> trx_lchan_state \<times> trx_event list) option" where
  "rx_burst_lchan cd h fn bid tn mf bits meas trx lchan = do {
     (rc, trx, lchan, evs) \<leftarrow> subst_frame_loss cd h fn tn mf trx lchan;
     if rc = - EALREADY then Some (rc, trx, lchan, evs)
     else do {
       bits \<leftarrow> (if a5_algo lchan \<noteq> 0 then sched_trx_a5_burst_dec cd lchan fn bits else Some bits);
       (rc, trx, lchan, evs') \<leftarrow> rx_call cd h tn trx lchan fn bid bits meas;
       let num = num_proc lchan + 1;
       Some (0, trx, lchan\<lparr>last_proc := fn, num_proc := (if num = 0 then 1 else num)\<rparr>, evs @ evs')
     }
   }"

definition sched_trx_handle_rx_burst :: "codec \<Rightarrow> trx_instance \<Rightarrow> nat \<Rightarrow> u32 \<Rightarrow> sbit list \<Rightarrow> trx_meas_set
    \<Rightarrow> (int \<times> trx_instance \<times> trx_event list) option" where
  "sched_trx_handle_rx_burst cd trx tn fn bits meas = do {
     slot \<leftarrow> mem_at (ts_list trx) tn;
     case slot of
       None \<Rightarrow> Some (- EINVAL, trx, [])
     | Some ts \<Rightarrow>
         (case mf_layout ts of
            None \<Rightarrow> Some (- EINVAL, trx, [])
          | Some mf \<Rightarrow>
              if period mf = 0 then None
              else do {
                frame \<leftarrow> mem_at (frames mf) (unat fn mod period mf);
                case ld_rx_fn (trx_lchan_desc (dl_chan frame)) of
                  None \<Rightarrow> Some (- ENODEV, trx, [])
                | Some h \<Rightarrow> do {
                    found \<leftarrow> sched_trx_find_lchan ts (dl_chan frame);
                    case found of
                      None \<Rightarrow> Some (- ENODEV, trx, [])
                    | Some lchan \<Rightarrow>
                        if \<not> active lchan then Some (0, trx, [])
                        else do {
                          (rc, trx, lchan, evs) \<leftarrow>
                            rx_burst_lchan cd h fn (dl_bid frame) (ts_index ts) mf bits meas trx lchan;
                          Some (rc, trx\<lparr>ts_list := (ts_list trx)[tn := Some (put_lchan ts lchan)]\<rparr>, evs)
                        }
                  }
              })
   }"

end
