(* ===== verification/SchedTrxInv.thy ===== *)
theory SchedTrxInv
  imports SchedTrx
begin

text \<open>
  The invariant of the scheduler and the lemmas that every operation of \<open>SchedTrx\<close>
  completes and preserves it: one lemma per operation.
\<close>

section \<open>The invariant\<close>

text \<open>
  A timeslot that was allocated by a successful configuration: initialised lists, one well
  formed channel state per type, well formed primitives, and a layout of the tables.
\<close>

definition wf_ts :: "nat \<Rightarrow> trx_ts \<Rightarrow> bool" where
  "wf_ts i ts \<longleftrightarrow> ts_index ts = i \<and>
    (\<exists>ls q. lchans ts = Some ls \<and> tx_prims ts = Some q \<and> wf_queue q
      \<and> distinct (map lchan_type ls) \<and> (\<forall>l \<in> set ls. wf_lchan l)) \<and>
    (\<forall>mf. mf_layout ts = Some mf \<longrightarrow> mf_ok mf)"

definition wf_trx :: "trx_instance \<Rightarrow> bool" where
  "wf_trx trx \<longleftrightarrow> unat (tsc trx) < 8 \<and> length (ts_list trx) = TRX_TS_COUNT \<and>
    (\<forall>i < TRX_TS_COUNT. \<forall>ts. ts_list trx ! i = Some ts \<longrightarrow> wf_ts i ts)"

lemma wf_trx_slot: "wf_trx trx \<Longrightarrow> i < 8 \<Longrightarrow> mem_at (ts_list trx) i = Some (ts_list trx ! i)"
  by (simp add: wf_trx_def mem_at_def)

lemma wf_trx_put:
  "wf_trx trx \<Longrightarrow> i < 8 \<Longrightarrow> (\<And>ts. slot = Some ts \<Longrightarrow> wf_ts i ts) \<Longrightarrow>
    wf_trx (trx\<lparr>ts_list := (ts_list trx)[i := slot]\<rparr>)"
  by (auto simp: wf_trx_def nth_list_update)

text \<open>The ids of the tables are below the length of a block.\<close>

lemma bids_run_less:
  "bids_run c k b rows = Some r \<Longrightarrow> b < k \<Longrightarrow> (c, x) \<in> set rows \<Longrightarrow> x < k"
  by (induction c k b rows rule: bids_run.induct) (auto split: if_splits)

lemma block_len_le_4: "block_len c \<le> 4"
  by (cases c) simp_all

lemma rows_in_order_bid:
  "rows_in_order rows \<Longrightarrow> (c, x) \<in> set rows \<Longrightarrow> c \<noteq> TRXC_IDLE \<Longrightarrow> x < block_len c"
  by (force simp: rows_in_order_def intro: bids_run_less)

lemma mf_ok_frame:
  assumes "mf_ok mf"
  shows "mem_at (frames mf) (n mod period mf) = Some (frame_at mf n)" "0 < period mf"
    and "dl_chan (frame_at mf n) \<noteq> TRXC_IDLE \<Longrightarrow> dl_bid (frame_at mf n) < block_len (dl_chan (frame_at mf n))"
    and "ul_chan (frame_at mf n) \<noteq> TRXC_IDLE \<Longrightarrow> ul_bid (frame_at mf n) < block_len (ul_chan (frame_at mf n))"
proof -
  show "mem_at (frames mf) (n mod period mf) = Some (frame_at mf n)" "0 < period mf"
    using assms by (simp_all add: mf_ok_def mem_at_def frame_at_def)
  have f: "frame_at mf n \<in> set (frames mf)" by (rule frame_at_in [OF assms])
  have r: "rows_in_order (dl_rows mf)" "rows_in_order (ul_rows mf)" using assms by (simp_all add: mf_ok_def)
  show "dl_chan (frame_at mf n) \<noteq> TRXC_IDLE \<Longrightarrow> dl_bid (frame_at mf n) < block_len (dl_chan (frame_at mf n))"
    by (rule rows_in_order_bid [OF r(1)]) (use f in \<open>auto simp: dl_rows_def\<close>)
  show "ul_chan (frame_at mf n) \<noteq> TRXC_IDLE \<Longrightarrow> ul_bid (frame_at mf n) < block_len (ul_chan (frame_at mf n))"
    by (rule rows_in_order_bid [OF r(2)]) (use f in \<open>auto simp: ul_rows_def\<close>)
qed

section \<open>Channels of a timeslot\<close>

lemma update_first_types:
  "map lchan_type (update_first (\<lambda>l. lchan_type l = lchan_type y) y xs) = map lchan_type xs"
  by (induction xs) auto

lemma set_update_first: "set (update_first P y xs) \<subseteq> insert y (set xs)"
  by (induction xs) auto

lemma find_update_first:
  "find (\<lambda>l. lchan_type l = lchan_type y) xs \<noteq> None \<Longrightarrow>
    find (\<lambda>l. lchan_type l = lchan_type y) (update_first (\<lambda>l. lchan_type l = lchan_type y) y xs) = Some y"
  by (induction xs) auto

lemma find_update_first_other:
  "c \<noteq> lchan_type y \<Longrightarrow>
    find (\<lambda>l. lchan_type l = c) (update_first (\<lambda>l. lchan_type l = lchan_type y) y xs)
      = find (\<lambda>l. lchan_type l = c) xs"
  by (induction xs) auto

lemma wf_ts_put: "wf_ts i ts \<Longrightarrow> wf_lchan l \<Longrightarrow> wf_ts i (put_lchan ts l)"
  using set_update_first [of "\<lambda>x. lchan_type x = lchan_type l" l] update_first_types [of l]
  by (fastforce simp: wf_ts_def put_lchan_def)

lemma wf_ts_find:
  assumes "wf_ts i ts"
  shows "\<exists>r. sched_trx_find_lchan ts c = Some r \<and> (\<forall>l. r = Some l \<longrightarrow> wf_lchan l \<and> lchan_type l = c)"
proof -
  obtain ls where ls: "lchans ts = Some ls" "\<forall>l \<in> set ls. wf_lchan l" using assms unfolding wf_ts_def by blast
  have "sched_trx_find_lchan ts c = Some (find (\<lambda>l. lchan_type l = c) ls)"
    by (simp add: sched_trx_find_lchan_def ls(1))
  moreover have "wf_lchan l \<and> lchan_type l = c" if "find (\<lambda>l. lchan_type l = c) ls = Some l" for l
    using find_SomeD [OF that] ls(2) by blast
  ultimately show ?thesis by blast
qed

section \<open>Transmission\<close>

lemma tx_call_ok:
  assumes cd: "wf_codec cd" and "unat (tsc trx) < 8" "wf_lchan l" "active l" "cur_prim l \<noteq> None" "wf_req br"
    and "served_by_tx f l \<or> f = TX_RACH"
  shows "\<exists>rc l' br' evs. tx_call cd f tn trx l br = Some (rc, l', br', evs)
    \<and> wf_lchan l' \<and> same_lchan l l' \<and> same_req br br' \<and> list_all to_l1ctl evs"
  using assms xcch_tx.tx_contract [OF assms(2-4), of cd br tn] pdtch_tx.tx_contract [OF assms(2-4), of cd br tn]
    tchf_tx.tx_contract [OF assms(2-4), of cd br tn] tchh_tx.tx_contract [OF assms(2-4), of cd br tn]
    rach_tx.tx_contract [OF assms(2-4), of cd br tn]
  by (cases f) (simp_all add: tx_call_def)

lemma fold_updates_length:
  "(\<And>i b. length (f i b) = length b) \<Longrightarrow> length (fold f is b) = length b"
  by (induction "is" arbitrary: b) simp_all

lemma a5_burst_enc_ok:
  assumes "wf_codec cd" "wf_req br"
  shows "\<exists>br'. sched_trx_a5_burst_enc cd l br = Some br' \<and> same_req br br' \<and> br_burst_len br' = br_burst_len br"
proof -
  have "length (snd (osmo_a5 cd (a5_algo l) (a5_key l) (br_fn br))) = 114"
    using assms(1) by (simp add: wf_codec_def)
  then show ?thesis
    using assms(2) by (auto simp: sched_trx_a5_burst_enc_def Let_def same_req_def wf_req_def
        fold_updates_length split: prod.splits)
qed

lemma a5_burst_dec_ok:
  assumes "wf_codec cd" "GSM_BURST_LEN \<le> length bits"
  shows "\<exists>bits'. sched_trx_a5_burst_dec cd l fn bits = Some bits' \<and> length bits' = length bits"
proof -
  have "length (fst (osmo_a5 cd (a5_algo l) (a5_key l) fn)) = 114"
    using assms(1) by (simp add: wf_codec_def)
  then show ?thesis
    using assms(2) by (auto simp: sched_trx_a5_burst_dec_def Let_def fold_updates_length split: prod.splits)
qed


lemma wf_lchan_dummy:
  assumes "wf_lchan l" "cur_prim l = None" "\<not> chan_is_sacch (lchan_type l)"
  shows "\<exists>rc p. sched_prim_dummy rnd l = Some (rc, l\<lparr>cur_prim := p\<rparr>) \<and> wf_lchan (l\<lparr>cur_prim := p\<rparr>)"
proof -
  have l: "l\<lparr>cur_prim := None\<rparr> = l" using assms(2) by (cases l) simp
  let ?b = "if chan_is_tch (lchan_type l) \<and> tch_mode_is_speech (tch_mode l) then sched_bad_frame_ind l
    else [0x01, 0x03, 0x01, 0x2b] @ map rnd [0..<19]"
  let ?p = "\<lparr>prim_chan = lchan_type l, payload_len = length ?b, payload = ?b\<rparr>"
  have "wf_lchan (l\<lparr>cur_prim := Some ?p\<rparr>)"
    using assms(1,3) by (simp add: wf_lchan_def wf_prim_def cache_ok_def mr_cached_def buf_ok_def)
  moreover have "sched_prim_dummy rnd l = Some (0, l\<lparr>cur_prim := None\<rparr>)
      \<or> sched_prim_dummy rnd l = Some (0, l\<lparr>cur_prim := Some ?p\<rparr>)"
    using assms(2,3) unfolding l by (simp add: sched_prim_dummy_def Let_def)
  ultimately show ?thesis using assms(1) l by metis
qed

lemma dequeue_prim_ok:
  assumes "wf_queue q" "wf_lchan l" "cur_prim l = None"
  shows "\<exists>p q' l1. sched_prim_dequeue trx q fn l = Some (p, q', l1) \<and> wf_queue q'
    \<and> wf_lchan (l1\<lparr>cur_prim := p\<rparr>) \<and> lchan_type l1 = lchan_type l \<and> active l1 = active l
    \<and> tx_burst_mask l1 = tx_burst_mask l \<and> a5_algo l1 = a5_algo l
    \<and> (chan_is_sacch (lchan_type l) \<longrightarrow> p \<noteq> None)"
proof -
  let ?c = "lchan_type l"
  have pre: "dequeue_pre ?c l q" using assms by (simp add: dequeue_pre_def wf_lchan_def)
  have "(case (trx, fn, l) of (trx, fn, lchan) \<Rightarrow> \<lambda>q. dequeue_pre ?c lchan q) q" using pre by simp
  from deq.deq_total [OF this] obtain p q1 l1 where
    d: "sched_prim_dequeue trx q fn l = Some (p, q1, l1)" by auto
  note post = sched_prim_dequeue_lchan [OF pre d]
  then obtain ca u t where l1: "l1 = l\<lparr>mr_cache := ca, mr_cache_usage := u, mr_tx_last := t\<rparr>" by blast
  have c: "cache_ok l1"
  proof (cases "chan_is_sacch ?c")
    case True
    then show ?thesis using post by (simp add: dequeue_pre_def)
  next
    case False
    then have "l1 = l" using d sched_prim_dequeue_unfold [OF pre, of trx fn] by auto
    then show ?thesis using assms(2) by (simp add: wf_lchan_def)
  qed
  have "wf_lchan (l1\<lparr>cur_prim := p\<rparr>)"
    using assms(2) post c by (auto simp: wf_lchan_def l1 cache_ok_def mr_cached_def buf_ok_def)
  moreover have "p \<noteq> None" if "chan_is_sacch ?c"
    using d that sched_prim_dequeue_unfold [OF pre, of trx fn] by auto
  moreover have "wf_queue q1" using post by (simp add: dequeue_pre_def)
  ultimately show ?thesis using d by (auto simp: l1)
qed

lemma frame_obtain_prim_ok:
  assumes ts: "tx_prims ts = Some q" "wf_queue q" and l: "wf_lchan l"
  shows "\<exists>q' l'. frame_obtain_prim rnd trx fn ts l = Some (ts\<lparr>tx_prims := Some q'\<rparr>, l')
    \<and> wf_queue q' \<and> wf_lchan l' \<and> lchan_type l' = lchan_type l \<and> active l' = active l
    \<and> tx_burst_mask l' = tx_burst_mask l \<and> a5_algo l' = a5_algo l"
proof -
  have same: "ts\<lparr>tx_prims := Some q\<rparr> = ts" using ts(1) by (cases ts) simp
  obtain q1 l1 where 1: "(if cur_prim l = None
        then do {
          q \<leftarrow> tx_prims ts;
          (p, q, lchan) \<leftarrow> sched_prim_dequeue trx q fn l;
          Some (ts\<lparr>tx_prims := Some q\<rparr>, lchan\<lparr>cur_prim := p\<rparr>)
        }
        else Some (ts, l)) = Some (ts\<lparr>tx_prims := Some q1\<rparr>, l1)" "wf_queue q1" "wf_lchan l1"
      "lchan_type l1 = lchan_type l" "active l1 = active l" "tx_burst_mask l1 = tx_burst_mask l"
      "a5_algo l1 = a5_algo l" "chan_is_sacch (lchan_type l) \<longrightarrow> cur_prim l1 \<noteq> None"
  proof (cases "cur_prim l = None")
    case True
    obtain p q' l1 where d: "sched_prim_dequeue trx q fn l = Some (p, q', l1)" "wf_queue q'"
      "wf_lchan (l1\<lparr>cur_prim := p\<rparr>)" "lchan_type l1 = lchan_type l" "active l1 = active l"
      "tx_burst_mask l1 = tx_burst_mask l" "a5_algo l1 = a5_algo l" "chan_is_sacch (lchan_type l) \<longrightarrow> p \<noteq> None"
      using dequeue_prim_ok [OF ts(2) l True, of trx fn] by blast
    show ?thesis by (rule that [of q' "l1\<lparr>cur_prim := p\<rparr>"]) (use d ts(1) True in simp_all)
  next
    case False
    show ?thesis by (rule that [of q l]) (use False same ts(2) l in auto)
  qed
  show ?thesis
  proof (cases "chan_flag_cbtx (lchan_type l1) \<and> cur_prim l1 = None")
    case True
    then obtain rc p where "sched_prim_dummy rnd l1 = Some (rc, l1\<lparr>cur_prim := p\<rparr>)" "wf_lchan (l1\<lparr>cur_prim := p\<rparr>)"
      using wf_lchan_dummy [OF 1(3), of rnd] 1(4,8) by auto
    then show ?thesis using 1 True unfolding frame_obtain_prim_def by (auto simp only: 1(1) bind.simps) auto
  next
    case False
    then show ?thesis using 1 unfolding frame_obtain_prim_def by auto
  qed
qed


lemma wf_ts_prims: "wf_ts i ts \<Longrightarrow> wf_queue q \<Longrightarrow> wf_ts i (ts\<lparr>tx_prims := Some q\<rparr>)"
  by (auto simp: wf_ts_def)

lemma put_lchan_simps [simp]:
  "mf_layout (put_lchan ts l) = mf_layout ts" "tx_prims (put_lchan ts l) = tx_prims ts"
  "ts_index (put_lchan ts l) = ts_index ts"
  by (simp_all add: put_lchan_def)

lemma frame_poke_ok:
  assumes cd: "wf_codec cd" and tsc: "unat (tsc trx) < 8" and ts: "wf_ts i ts" and l: "wf_lchan l" "active l"
    and h: "served_by_tx h l" and br: "wf_req br"
  shows "\<exists>l' br' evs. frame_poke cd trx h ts l br = Some (put_lchan ts l', br', evs)
    \<and> wf_lchan l' \<and> same_req br br' \<and> list_all to_l1ctl evs"
proof (cases "cur_prim l")
  case None
  then show ?thesis using l(1) by (auto simp: frame_poke_def)
next
  case (Some p)
  define f where "f = (if prim_is_rach p \<and> prim_chan p \<noteq> TRXC_RACH then TX_RACH else h)"
  have f: "(if prim_is_rach p \<and> prim_chan p \<noteq> TRXC_RACH
      then ld_tx_fn (trx_lchan_desc TRXC_RACH) else Some h) = Some f"
    by (simp add: f_def)
  have "served_by_tx f l \<or> f = TX_RACH" using h by (simp add: f_def)
  from tx_call_ok [OF cd tsc l _ br this, of "ts_index ts"] Some
  obtain rc l1 br1 evs where c: "tx_call cd f (ts_index ts) trx l br = Some (rc, l1, br1, evs)"
    "wf_lchan l1" "same_req br br1" "list_all to_l1ctl evs" by auto
  obtain br2 where "(if a5_algo l1 \<noteq> 0 then sched_trx_a5_burst_enc cd l1 br1 else Some br1) = Some br2"
    "same_req br1 br2" "br_burst_len br2 = br_burst_len br1"
    using a5_burst_enc_ok [OF cd same_req_wf [OF c(3) br], of l1] by (cases "a5_algo l1 \<noteq> 0") auto
  then show ?thesis
    using c Some f by (auto simp: frame_poke_def same_req_def)
qed

lemma no_idle_handler: "ld_tx_fn (trx_lchan_desc c) = Some h \<Longrightarrow> c \<noteq> TRXC_IDLE"
  "ld_rx_fn (trx_lchan_desc c) = Some h' \<Longrightarrow> c \<noteq> TRXC_IDLE"
  by auto

text \<open>What is known of the request of a timeslot, whatever happened.\<close>

definition slot_req :: "u32 \<Rightarrow> nat \<Rightarrow> sched_burst_req \<Rightarrow> bool" where
  "slot_req fn i br \<longleftrightarrow> br_fn br = fn \<and> br_tn br = i \<and> length (br_burst br) = EDGE_BURST_LEN
    \<and> (br_burst_len br = 0 \<or> br_burst_len br = GSM_BURST_LEN)"

lemma slot_req_new [simp]: "slot_req fn i (new_req fn i p b)"
  by (simp add: slot_req_def new_req_def)

lemma slot_req_same: "same_req (new_req fn i p b) br \<Longrightarrow> slot_req fn i br"
  by (auto simp: slot_req_def same_req_def new_req_def)

lemma frame_slot_ok:
  assumes cd: "wf_codec cd" and tsc: "unat (tsc trx) < 8" and ts: "wf_ts i ts"
  shows "\<exists>ts' br evs. frame_slot cd rnd trx fn i ts = Some (ts', br, evs)
    \<and> wf_ts i ts' \<and> slot_req fn i br \<and> list_all to_l1ctl evs \<and> mf_layout ts' = mf_layout ts"
proof (cases "mf_layout ts")
  case None
  then show ?thesis using ts by (simp add: frame_slot_def)
next
  case (Some mf)
  then have mf: "mf_ok mf" using ts by (simp add: wf_ts_def)
  let ?f = "frame_at mf (unat fn)"
  let ?br = "new_req fn i (tx_power trx) (ul_bid ?f)"
  have br: "(new_req fn i (tx_power trx) 0)\<lparr>br_bid := ul_bid ?f\<rparr> = ?br" by (simp add: new_req_def)
  note mfr = mf_ok_frame(1) [OF mf, of "unat fn"] mf_ok_frame(2) [OF mf] mf_ok_frame(3,4) [OF mf, of "unat fn"]
  obtain q where q: "tx_prims ts = Some q" "wf_queue q" using ts unfolding wf_ts_def by blast
  obtain r where r: "sched_trx_find_lchan ts (ul_chan ?f) = Some r"
    "\<forall>l. r = Some l \<longrightarrow> wf_lchan l \<and> lchan_type l = ul_chan ?f" using wf_ts_find [OF ts] by blast
  show ?thesis
  proof (cases "\<exists>h l. ld_tx_fn (trx_lchan_desc (ul_chan ?f)) = Some h \<and> r = Some l \<and> active l")
    case False
    then have "frame_slot cd rnd trx fn i ts = Some (ts, new_req fn i (tx_power trx) 0, [])
        \<or> frame_slot cd rnd trx fn i ts = Some (ts, ?br, [])"
      using Some mfr(1,2) r(1) br by (auto simp: frame_slot_def Let_def split: option.splits)
    then show ?thesis using ts by auto
  next
    case True
    then obtain h l where h: "ld_tx_fn (trx_lchan_desc (ul_chan ?f)) = Some h" "r = Some l" "active l" by blast
    have l: "wf_lchan l" "lchan_type l = ul_chan ?f" using r(2) h(2) by auto
    obtain q' l' where o: "frame_obtain_prim (rnd) trx fn ts l = Some (ts\<lparr>tx_prims := Some q'\<rparr>, l')"
      "wf_queue q'" "wf_lchan l'" "lchan_type l' = lchan_type l" "active l' = active l"
      using frame_obtain_prim_ok [OF q l(1), of rnd trx fn] by blast
    have "ul_bid ?f < 4" using mfr(4) no_idle_handler(1) [OF h(1)] block_len_le_4 by (meson order_less_le_trans)
    then have wr: "wf_req ?br" by (rule wf_new_req)
    have "wf_ts i (ts\<lparr>tx_prims := Some q'\<rparr>)" by (rule wf_ts_prims [OF ts o(2)])
    from frame_poke_ok [OF cd tsc this o(3) _ _ wr, of h] o(4,5) h l(2)
    obtain l2 br' evs where p: "frame_poke cd trx h (ts\<lparr>tx_prims := Some q'\<rparr>) l' ?br
        = Some (put_lchan (ts\<lparr>tx_prims := Some q'\<rparr>) l2, br', evs)"
      "wf_lchan l2" "same_req ?br br'" "list_all to_l1ctl evs" by auto
    have "wf_ts i (put_lchan (ts\<lparr>tx_prims := Some q'\<rparr>) l2)"
      by (rule wf_ts_put [OF wf_ts_prims [OF ts o(2)] p(2)])
    then show ?thesis
      using Some mfr(1,2) br r(1) h o(1) p slot_req_same [OF p(3)]
      by (simp add: frame_slot_def Let_def)
  qed
qed


lemma frame_slots_ok:
  assumes cd: "wf_codec cd"
  shows "wf_trx trx \<Longrightarrow> \<forall>i \<in> set js. i < TRX_TS_COUNT \<Longrightarrow>
    \<exists>tss brs evs. frame_slots cd rnd fn js trx = Some (trx\<lparr>ts_list := tss\<rparr>, brs, evs)
      \<and> wf_trx (trx\<lparr>ts_list := tss\<rparr>) \<and> list_all2 (slot_req fn) js brs \<and> list_all to_l1ctl evs"
proof (induction js arbitrary: trx)
  case Nil
  have "trx\<lparr>ts_list := ts_list trx\<rparr> = trx" by simp
  with Nil(1) show ?case by (intro exI [of _ "ts_list trx"]) simp
next
  case (Cons i js)
  have i: "i < 8" using Cons.prems(2) by simp
  have step: "\<exists>tss br evs. (case ts_list trx ! i of
          None \<Rightarrow> Some (trx, new_req fn i (tx_power trx) 0, [])
        | Some ts \<Rightarrow> do {
            (ts, br, evs) \<leftarrow> frame_slot cd (rnd i) trx fn i ts;
            Some (trx\<lparr>ts_list := (ts_list trx)[i := Some ts]\<rparr>, br, evs)
          }) = Some (trx\<lparr>ts_list := tss\<rparr>, br, evs)
      \<and> wf_trx (trx\<lparr>ts_list := tss\<rparr>) \<and> slot_req fn i br \<and> list_all to_l1ctl evs"
  proof (cases "ts_list trx ! i")
    case None
    have "trx\<lparr>ts_list := ts_list trx\<rparr> = trx" by simp
    then show ?thesis
      using Cons.prems(1) None by (intro exI [of _ "ts_list trx"]) simp
  next
    case (Some ts)
    then have ts: "wf_ts i ts" and t: "unat (tsc trx) < 8" using Cons.prems(1) i by (simp_all add: wf_trx_def)
    obtain ts' br evs where f: "frame_slot cd (rnd i) trx fn i ts = Some (ts', br, evs)"
      "wf_ts i ts'" "slot_req fn i br" "list_all to_l1ctl evs"
      using frame_slot_ok [OF cd t ts, of "rnd i" fn] by blast
    then show ?thesis
      using Some wf_trx_put [OF Cons.prems(1) i, of "Some ts'"]
      by (intro exI [of _ "(ts_list trx)[i := Some ts']"]) simp
  qed
  then obtain tss br evs where s: "(case ts_list trx ! i of
          None \<Rightarrow> Some (trx, new_req fn i (tx_power trx) 0, [])
        | Some ts \<Rightarrow> do {
            (ts, br, evs) \<leftarrow> frame_slot cd (rnd i) trx fn i ts;
            Some (trx\<lparr>ts_list := (ts_list trx)[i := Some ts]\<rparr>, br, evs)
          }) = Some (trx\<lparr>ts_list := tss\<rparr>, br, evs)"
      "wf_trx (trx\<lparr>ts_list := tss\<rparr>)" "slot_req fn i br" "list_all to_l1ctl evs" by blast
  from Cons.IH [OF s(2)] Cons.prems(2) obtain tss' brs evs' where
    r: "frame_slots cd rnd fn js (trx\<lparr>ts_list := tss\<rparr>) = Some (trx\<lparr>ts_list := tss'\<rparr>, brs, evs')"
      "wf_trx (trx\<lparr>ts_list := tss'\<rparr>)" "list_all2 (slot_req fn) js brs" "list_all to_l1ctl evs'"
    by auto
  have "frame_slots cd rnd fn (i # js) trx = Some (trx\<lparr>ts_list := tss'\<rparr>, br # brs, evs @ evs')"
    by (simp only: frame_slots.simps wf_trx_slot [OF Cons.prems(1) i] bind.simps s(1) prod.case r(1))
  then show ?case using r s(3,4) by auto
qed

lemma wf_trx_sched: "wf_trx (trx\<lparr>sched := s\<rparr>) = wf_trx trx"
  by (simp add: wf_trx_def)

lemma sched_frame_clck_cb_ok:
  assumes "wf_codec cd" "wf_trx trx"
  shows "\<exists>tss brs evs. sched_frame_clck_cb cd rnd trx = Some (trx\<lparr>ts_list := tss\<rparr>, evs @ map TrxTxBurst brs)
    \<and> wf_trx (trx\<lparr>ts_list := tss\<rparr>) \<and> list_all to_l1ctl evs
    \<and> list_all2 (slot_req (gsm_tdma_fn_sum (fn_counter_proc (sched trx)) (fn_counter_advance (sched trx))))
        [0..<TRX_TS_COUNT] brs"
proof -
  let ?fn = "gsm_tdma_fn_sum (fn_counter_proc (sched trx)) (fn_counter_advance (sched trx))"
  have "\<forall>i \<in> set [0..<8]. i < (8 :: nat)" by simp
  from frame_slots_ok [OF assms this, of rnd ?fn] obtain tss brs evs where
    f: "frame_slots cd rnd ?fn [0..<8] trx = Some (trx\<lparr>ts_list := tss\<rparr>, brs, evs)"
      "wf_trx (trx\<lparr>ts_list := tss\<rparr>)" "list_all2 (slot_req ?fn) [0..<8] brs" "list_all to_l1ctl evs"
    by blast
  have "sched_frame_clck_cb cd rnd trx = Some (trx\<lparr>ts_list := tss\<rparr>, evs @ map TrxTxBurst brs)"
    by (simp only: sched_frame_clck_cb_def Let_def f(1) bind.simps prod.case)
  with f(2-4) show ?thesis by blast
qed

text \<open>What the transmission of frames issues: messages to the L1CTL link and bursts.\<close>

definition frame_event :: "trx_event \<Rightarrow> bool" where
  "frame_event e \<longleftrightarrow> to_l1ctl e \<or> (\<exists>br. e = TrxTxBurst br)"

lemma frame_events: "list_all to_l1ctl evs \<Longrightarrow> list_all frame_event (evs @ map TrxTxBurst brs)"
  by (auto simp: frame_event_def list_all_iff)

lemma run_frames_ok:
  assumes "wf_codec cd"
  shows "wf_trx trx \<Longrightarrow> \<exists>tss s evs. run_frames cd rnd fns trx = Some (trx\<lparr>ts_list := tss, sched := s\<rparr>, evs)
    \<and> wf_trx (trx\<lparr>ts_list := tss\<rparr>) \<and> list_all frame_event evs"
proof (induction fns arbitrary: trx)
  case Nil
  have "trx\<lparr>ts_list := ts_list trx, sched := sched trx\<rparr> = trx" "trx\<lparr>ts_list := ts_list trx\<rparr> = trx" by simp_all
  with Nil show ?case by (intro exI [of _ "ts_list trx"] exI [of _ "sched trx"]) simp
next
  case (Cons fn fns)
  let ?t = "trx\<lparr>sched := (sched trx)\<lparr>fn_counter_proc := fn\<rparr>\<rparr>"
  have "wf_trx ?t" using Cons.prems by (simp add: wf_trx_sched)
  from sched_frame_clck_cb_ok [OF assms this] obtain tss evs where
    1: "sched_frame_clck_cb cd (rnd fn) ?t = Some (?t\<lparr>ts_list := tss\<rparr>, evs)" "wf_trx (?t\<lparr>ts_list := tss\<rparr>)"
      "list_all frame_event evs"
    by (metis frame_events)
  from Cons.IH [OF 1(2)] obtain tss' s evs' where
    2: "run_frames cd rnd fns (?t\<lparr>ts_list := tss\<rparr>) = Some (?t\<lparr>ts_list := tss', sched := s\<rparr>, evs')"
      "wf_trx (?t\<lparr>ts_list := tss'\<rparr>)" "list_all frame_event evs'" by auto
  have "wf_trx (trx\<lparr>ts_list := tss'\<rparr>)" using 2(2) by (simp add: wf_trx_def)
  then show ?case using 1(1,3) 2(1,3) by auto
qed

section \<open>Reception\<close>

text \<open>What a receiver can change of the instance: the BSIC and the flag of the L1CTL link.\<close>

definition same_trx :: "trx_instance \<Rightarrow> trx_instance \<Rightarrow> bool" where
  "same_trx trx trx' \<longleftrightarrow>
    (\<exists>f b. trx' = trx\<lparr>fbsb_conf_sent := f, bsic := b\<rparr>)"

lemma same_trx_refl [simp]: "same_trx trx trx"
  unfolding same_trx_def by (intro exI [of _ "fbsb_conf_sent trx"] exI [of _ "bsic trx"]) simp

lemma same_trx_trans: "same_trx a b \<Longrightarrow> same_trx b c \<Longrightarrow> same_trx a c"
  by (auto simp: same_trx_def) (rule exI, rule exI, rule refl)

lemma same_trx_fields:
  assumes "same_trx trx trx'"
  shows "tsc trx' = tsc trx" "ts_list trx' = ts_list trx" "sched trx' = sched trx"
  using assms by (auto simp: same_trx_def)

lemma block_len_rx:
  "bid < block_len c \<Longrightarrow> bid < 4"
  "ld_rx_fn (trx_lchan_desc c) = Some RX_TCHH \<Longrightarrow> bid < block_len c \<Longrightarrow> bid < 2"
proof -
  show "bid < block_len c \<Longrightarrow> bid < 4" using block_len_le_4 [of c] by simp
  assume "ld_rx_fn (trx_lchan_desc c) = Some RX_TCHH"
  then have "c \<in> {TRXC_TCHH_0, TRXC_TCHH_1}" by (simp only: tchh_fn_chan)
  then show "bid < block_len c \<Longrightarrow> bid < 2" by auto
qed

lemma rx_call_ok:
  assumes cd: "wf_codec cd" and l: "wf_lchan l" "active l" "served_by_rx f l"
    and bid: "bid < block_len (lchan_type l)" and bits: "GSM_BURST_LEN \<le> length bits"
  shows "\<exists>rc trx' l' evs. rx_call cd f tn trx l fn bid bits meas = Some (rc, trx', l', evs)
    \<and> wf_lchan l' \<and> same_lchan l l' \<and> cur_prim l' = cur_prim l \<and> same_trx trx trx' \<and> list_all to_l1ctl evs"
proof (cases f)
  case RX_SCH
  obtain rc trx' evs where s: "rx_sch_fn cd tn trx l fn bid bits meas = Some (rc, trx', evs)"
    "trx' = trx \<or> (\<exists>b. trx' = trx\<lparr>fbsb_conf_sent := True, bsic := b\<rparr>)" "list_all to_l1ctl evs"
    using rx_sch_fn_ok [OF cd bits, of tn trx l fn bid meas] by blast
  have "same_trx trx trx'"
  proof (cases "trx' = trx")
    case False
    then show ?thesis using s(2) by (auto simp: same_trx_def)
  qed simp
  then show ?thesis using s l RX_SCH by (simp add: rx_call_def)
next
  case RX_DATA
  then show ?thesis
    using xcch_rx.rx_contract [OF l(1,2) _ block_len_rx(1) [OF bid] bits, of cd tn trx fn meas] cd l(3)
    by (auto simp: rx_call_def)
next
  case RX_PDTCH
  then show ?thesis
    using pdtch_rx.rx_contract [OF l(1,2) _ block_len_rx(1) [OF bid] bits, of cd tn trx fn meas] cd l(3)
    by (auto simp: rx_call_def)
next
  case RX_TCHF
  then show ?thesis
    using tchf_rx.rx_contract [OF l(1,2) _ block_len_rx(1) [OF bid] bits, of cd tn trx fn meas] cd l(3)
    by (auto simp: rx_call_def)
next
  case RX_TCHH
  then show ?thesis
    using tchh_rx.rx_contract [OF l(1,2) _ block_len_rx(2) [OF _ bid] bits, of cd tn trx fn meas] cd l(3)
    by (auto simp: rx_call_def)
qed


lemma wf_lchan_count:
  "wf_lchan l \<Longrightarrow> wf_lchan (l\<lparr>last_proc := a, num_proc := b, num_lost := c\<rparr>)"
  "wf_lchan l \<Longrightarrow> wf_lchan (l\<lparr>last_proc := a, num_proc := b\<rparr>)"
  by (simp_all add: wf_lchan_def cache_ok_def mr_cached_def)

text \<open>The administrative state of a channel that reception leaves alone.\<close>

definition same_admin :: "trx_lchan_state \<Rightarrow> trx_lchan_state \<Rightarrow> bool" where
  "same_admin l l' \<longleftrightarrow> lchan_type l' = lchan_type l \<and> active l' = active l \<and> tch_mode l' = tch_mode l
    \<and> a5_key l' = a5_key l \<and> a5_algo l' = a5_algo l \<and> cur_prim l' = cur_prim l"

lemma same_admin_refl [simp]: "same_admin l l"
  by (simp add: same_admin_def)

lemma same_admin_trans: "same_admin l l' \<Longrightarrow> same_admin l' l'' \<Longrightarrow> same_admin l l''"
  by (simp add: same_admin_def)

lemma same_lchan_admin: "same_lchan l l' \<Longrightarrow> cur_prim l' = cur_prim l \<Longrightarrow> same_admin l l'"
  by (simp add: same_admin_def same_lchan_def)

lemma same_admin_count [simp]:
  "same_admin l (l'\<lparr>last_proc := a, num_proc := b, num_lost := c\<rparr>) = same_admin l l'"
  "same_admin l (l'\<lparr>last_proc := a, num_proc := b\<rparr>) = same_admin l l'"
  by (simp_all add: same_admin_def)

lemma subst_loop_ok:
  assumes cd: "wf_codec cd" and mf: "mf_ok mf"
  shows "wf_lchan l \<Longrightarrow> active l \<Longrightarrow> served_by_rx h l \<Longrightarrow>
    \<exists>trx' l' evs. subst_loop cd h tn mf n fake trx l = Some (trx', l', evs)
      \<and> wf_lchan l' \<and> same_admin l l' \<and> same_trx trx trx' \<and> list_all to_l1ctl evs"
proof (induction n arbitrary: fake trx l)
  case 0
  then show ?case by simp
next
  case (Suc n)
  let ?fn = "gsm_tdma_fn_inc fake"
  let ?fp = "frame_at mf (unat ?fn)"
  note fp = mf_ok_frame(1) [OF mf, of "unat ?fn"]
  show ?case
  proof (cases "dl_chan ?fp = lchan_type l")
    case False
    then show ?thesis
      using Suc.IH [OF Suc.prems, of ?fn trx] fp by (simp add: Let_def)
  next
    case True
    have bid: "dl_bid ?fp < block_len (lchan_type l)"
      using mf_ok_frame(3) [OF mf, of "unat ?fn"] no_idle_handler(2) [OF Suc.prems(3)] True by simp
    let ?m = "\<lparr>meas_fn = ?fn, meas_toa256 = 0, meas_rssi = -120\<rparr>"
    obtain rc t1 l1 evs where c: "rx_call cd h tn trx l ?fn (dl_bid ?fp) (replicate 148 0) ?m = Some (rc, t1, l1, evs)"
      "wf_lchan l1" "same_lchan l l1" "cur_prim l1 = cur_prim l" "same_trx trx t1" "list_all to_l1ctl evs"
      using rx_call_ok [OF cd Suc.prems bid, of "replicate 148 0" tn trx ?fn ?m] by auto
    let ?l = "l1\<lparr>last_proc := ?fn, num_proc := num_proc l1 + 1, num_lost := num_lost l1 + 1\<rparr>"
    have l: "wf_lchan ?l" "active ?l" "served_by_rx h ?l" "same_admin l ?l"
      using c(2,3,4) Suc.prems wf_lchan_count(1) same_lchan_admin [OF c(3,4)] by (simp_all add: same_lchan_def)
    obtain t2 l2 evs' where r: "subst_loop cd h tn mf n ?fn t1 ?l = Some (t2, l2, evs')"
      "wf_lchan l2" "same_admin ?l l2" "same_trx t1 t2" "list_all to_l1ctl evs'"
      using Suc.IH [OF l(1-3), of ?fn t1] by blast
    have "subst_loop cd h tn mf (Suc n) fake trx l = Some (t2, l2, evs @ evs')"
      using fp True c(1) r(1) by (simp add: Let_def)
    then show ?thesis
      using r(2,5) c(6) same_admin_trans [OF l(4) r(3)] same_trx_trans [OF c(5) r(4)] by auto
  qed
qed

lemma subst_frame_loss_ok:
  assumes cd: "wf_codec cd" and mf: "mf_ok mf" and l: "wf_lchan l" "active l" "served_by_rx h l"
  shows "\<exists>rc trx' l' evs. subst_frame_loss cd h fn tn mf trx l = Some (rc, trx', l', evs)
      \<and> wf_lchan l' \<and> same_admin l l' \<and> same_trx trx trx' \<and> list_all to_l1ctl evs"
proof -
  obtain t1 l1 evs where "subst_loop cd h tn mf (nat (elapsed_frames fn (last_proc l) - 1)) (last_proc l) trx l
      = Some (t1, l1, evs)" "wf_lchan l1" "same_admin l l1" "same_trx trx t1" "list_all to_l1ctl evs"
    using subst_loop_ok [OF cd mf l] by blast
  then show ?thesis using l(1) by (simp add: subst_frame_loss_def Let_def)
qed

lemma rx_burst_lchan_ok:
  assumes cd: "wf_codec cd" and mf: "mf_ok mf" and l: "wf_lchan l" "active l" "served_by_rx h l"
    and bid: "bid < block_len (lchan_type l)" and bits: "GSM_BURST_LEN \<le> length bits"
  shows "\<exists>rc trx' l' evs. rx_burst_lchan cd h fn bid tn mf bits meas trx l = Some (rc, trx', l', evs)
      \<and> wf_lchan l' \<and> same_admin l l' \<and> same_trx trx trx' \<and> list_all to_l1ctl evs"
proof -
  obtain rc t1 l1 evs where 1: "subst_frame_loss cd h fn tn mf trx l = Some (rc, t1, l1, evs)"
    "wf_lchan l1" "same_admin l l1" "same_trx trx t1" "list_all to_l1ctl evs"
    using subst_frame_loss_ok [OF cd mf l] by blast
  obtain bits' where b: "(if a5_algo l1 \<noteq> 0 then sched_trx_a5_burst_dec cd l1 fn bits else Some bits) = Some bits'"
    "GSM_BURST_LEN \<le> length bits'"
    using a5_burst_dec_ok [OF cd bits, of l1 fn] bits by (cases "a5_algo l1 \<noteq> 0") auto
  have l1: "active l1" "served_by_rx h l1" "bid < block_len (lchan_type l1)"
    using 1(3) l bid by (simp_all add: same_admin_def)
  obtain rc2 t2 l2 evs2 where 2: "rx_call cd h tn t1 l1 fn bid bits' meas = Some (rc2, t2, l2, evs2)"
    "wf_lchan l2" "same_lchan l1 l2" "cur_prim l2 = cur_prim l1" "same_trx t1 t2" "list_all to_l1ctl evs2"
    using rx_call_ok [OF cd 1(2) l1 b(2), of tn t1 fn meas] by blast
  have a: "same_admin l l2" by (rule same_admin_trans [OF 1(3) same_lchan_admin [OF 2(3,4)]])
  show ?thesis
  proof (cases "rc = - EALREADY")
    case True
    then show ?thesis using 1 by (simp add: rx_burst_lchan_def)
  next
    case False
    then have "rx_burst_lchan cd h fn bid tn mf bits meas trx l = Some (0, t2,
        l2\<lparr>last_proc := fn, num_proc := (if num_proc l2 + 1 = 0 then 1 else num_proc l2 + 1)\<rparr>, evs @ evs2)"
      by (simp only: rx_burst_lchan_def 1(1) bind.simps prod.case if_False b(1) 2(1) Let_def)
    then show ?thesis
      using a 1(5) 2(2,6) wf_lchan_count(2) same_trx_trans [OF 1(4) 2(5)] by simp
  qed
qed

lemma handle_rx_burst_ok:
  assumes cd: "wf_codec cd" and trx: "wf_trx trx" and tn: "tn < TRX_TS_COUNT" and bits: "GSM_BURST_LEN \<le> length bits"
  shows "\<exists>rc trx' evs. sched_trx_handle_rx_burst cd trx tn fn bits meas = Some (rc, trx', evs)
      \<and> wf_trx trx' \<and> list_all to_l1ctl evs \<and> sched trx' = sched trx"
proof (cases "\<exists>ts mf. ts_list trx ! tn = Some ts \<and> mf_layout ts = Some mf")
  case False
  then show ?thesis
    using wf_trx_slot [OF trx tn] trx
    by (cases "ts_list trx ! tn") (auto simp: sched_trx_handle_rx_burst_def)
next
  case True
  then obtain ts mf where t: "ts_list trx ! tn = Some ts" "mf_layout ts = Some mf" by blast
  have ts: "wf_ts tn ts" using trx tn t(1) by (simp add: wf_trx_def)
  have mf: "mf_ok mf" using ts t(2) by (simp add: wf_ts_def)
  let ?f = "frame_at mf (unat fn)"
  note fr = mf_ok_frame(1) [OF mf, of "unat fn"] mf_ok_frame(2) [OF mf]
  obtain r where r: "sched_trx_find_lchan ts (dl_chan ?f) = Some r"
    "\<forall>l. r = Some l \<longrightarrow> wf_lchan l \<and> lchan_type l = dl_chan ?f" using wf_ts_find [OF ts] by blast
  show ?thesis
  proof (cases "\<exists>h l. ld_rx_fn (trx_lchan_desc (dl_chan ?f)) = Some h \<and> r = Some l \<and> active l")
    case False
    then have "\<exists>rc. sched_trx_handle_rx_burst cd trx tn fn bits meas = Some (rc, trx, [])"
      using wf_trx_slot [OF trx tn] t fr r(1)
      by (auto simp: sched_trx_handle_rx_burst_def split: option.splits)
    then show ?thesis using trx by auto
  next
    case True
    then obtain h l where h: "ld_rx_fn (trx_lchan_desc (dl_chan ?f)) = Some h" "r = Some l" "active l" by blast
    have l: "wf_lchan l" "lchan_type l = dl_chan ?f" using r(2) h(2) by auto
    have "dl_bid ?f < block_len (lchan_type l)"
      using mf_ok_frame(3) [OF mf, of "unat fn"] no_idle_handler(2) [OF h(1)] l(2) by simp
    from rx_burst_lchan_ok [OF cd mf l(1) h(3) _ this bits, of h fn "ts_index ts" meas trx] h(1) l(2)
    obtain rc t1 l1 evs where 1: "rx_burst_lchan cd h fn (dl_bid ?f) (ts_index ts) mf bits meas trx l = Some (rc, t1, l1, evs)"
      "wf_lchan l1" "same_trx trx t1" "list_all to_l1ctl evs" by auto
    have w: "wf_trx t1" using trx same_trx_fields [OF 1(3)] by (simp add: wf_trx_def)
    have "wf_trx (t1\<lparr>ts_list := (ts_list t1)[tn := Some (put_lchan ts l1)]\<rparr>)"
      by (rule wf_trx_put [OF w tn]) (use wf_ts_put [OF ts 1(2)] in simp)
    moreover have "sched_trx_handle_rx_burst cd trx tn fn bits meas =
        Some (rc, t1\<lparr>ts_list := (ts_list t1)[tn := Some (put_lchan ts l1)]\<rparr>, evs)"
      using wf_trx_slot [OF trx tn] t fr r(1) h 1(1) by (simp add: sched_trx_handle_rx_burst_def)
    ultimately show ?thesis using 1(4) same_trx_fields(3) [OF 1(3)] by simp
  qed
qed


section \<open>Management\<close>

lemma lchan_type_activated [simp]: "lchan_type (activated l) = lchan_type l"
  by (simp add: activated_def Let_def)

lemma wf_activated: "wf_lchan l \<Longrightarrow> wf_lchan (activated l)"
  by (simp add: wf_lchan_def activated_def Let_def buf_ok_def cache_ok_def mr_cached_def)

lemma lchan_type_reset [simp]: "lchan_type (sched_trx_reset_lchan l) = lchan_type l"
  by (simp add: sched_trx_reset_lchan_def sched_prim_drop_def Let_def)

lemma wf_reset_lchan: "wf_lchan l \<Longrightarrow> wf_lchan ((sched_trx_reset_lchan l)\<lparr>active := False\<rparr>)"
  by (simp add: wf_lchan_def sched_trx_reset_lchan_def sched_prim_drop_def Let_def cache_ok_def mr_cached_def)

lemma wf_lchan_tch_mode: "wf_lchan l \<Longrightarrow> wf_lchan (l\<lparr>tch_mode := m\<rparr>)"
  by (simp add: wf_lchan_def cache_ok_def mr_cached_def)

lemma length_put_lchan [simp]: "map_option length (lchans (put_lchan ts l)) = map_option length (lchans ts)"
proof -
  have "length (update_first P y xs) = length xs" for P and y :: trx_lchan_state and xs
    by (induction xs) auto
  then show ?thesis by (simp add: put_lchan_def option.map_comp o_def)
qed

lemma activate_lchan_ok:
  assumes "wf_ts i ts"
  shows "\<exists>rc ts'. sched_trx_activate_lchan ts c = Some (rc, ts') \<and> wf_ts i ts'
    \<and> map_option length (lchans ts') = map_option length (lchans ts)"
proof -
  obtain r where r: "sched_trx_find_lchan ts c = Some r" "\<forall>l. r = Some l \<longrightarrow> wf_lchan l \<and> lchan_type l = c"
    using wf_ts_find [OF assms] by blast
  show ?thesis
    using r assms wf_ts_put [OF assms] wf_activated
    by (cases r) (auto simp: sched_trx_activate_lchan_def)
qed

lemma deactivate_lchan_ok:
  assumes "wf_ts i ts"
  shows "\<exists>rc ts'. sched_trx_deactivate_lchan ts c = Some (rc, ts') \<and> wf_ts i ts'
    \<and> map_option length (lchans ts') = map_option length (lchans ts)"
proof -
  obtain r where r: "sched_trx_find_lchan ts c = Some r" "\<forall>l. r = Some l \<longrightarrow> wf_lchan l \<and> lchan_type l = c"
    using wf_ts_find [OF assms] by blast
  show ?thesis
    using r assms wf_ts_put [OF assms] wf_reset_lchan
    by (cases r) (auto simp: sched_trx_deactivate_lchan_def)
qed

lemma wf_ts_map:
  assumes "wf_ts i ts" "lchans ts = Some ls" "\<And>l. wf_lchan l \<Longrightarrow> wf_lchan (f l)" "\<And>l. lchan_type (f l) = lchan_type l"
  shows "wf_ts i (ts\<lparr>lchans := Some (map f ls)\<rparr>)"
  using assms by (auto simp: wf_ts_def o_def)

lemma deactivate_all_ok:
  assumes "wf_ts i ts"
  shows "\<exists>ls. sched_trx_deactivate_all_lchans ts = Some (ts\<lparr>lchans := Some ls\<rparr>) \<and> wf_ts i (ts\<lparr>lchans := Some ls\<rparr>)
    \<and> (\<forall>l \<in> set ls. \<not> active l)"
proof -
  obtain ls where ls: "lchans ts = Some ls" using assms by (auto simp: wf_ts_def)
  let ?f = "\<lambda>l. if active l then (sched_trx_reset_lchan l)\<lparr>active := False\<rparr> else l"
  have "wf_ts i (ts\<lparr>lchans := Some (map ?f ls)\<rparr>)"
    by (rule wf_ts_map [OF assms ls]) (auto simp: wf_reset_lchan)
  moreover have "\<forall>l \<in> set (map ?f ls). \<not> active l" by auto
  moreover have "sched_trx_deactivate_all_lchans ts = Some (ts\<lparr>lchans := Some (map ?f ls)\<rparr>)"
    by (simp add: sched_trx_deactivate_all_lchans_def ls)
  ultimately show ?thesis by blast
qed

lemma set_lchans_loop_ok:
  assumes "wf_ts i ts" "lchans ts = Some ls" "j + n \<le> length ls"
  shows "\<exists>rc' ts'. set_lchans_loop chan_nr act mode j n rc ts = Some (rc', ts') \<and> wf_ts i ts'"
  using assms
proof (induction n arbitrary: j rc ts ls)
  case 0
  then show ?case by simp
next
  case (Suc n)
  let ?c = "lchan_type (ls ! j)"
  have j: "mem_at ls j = Some (ls ! j)" using Suc.prems(3) by (simp add: mem_at_def)
  obtain r1 t1 where a: "sched_trx_activate_lchan ts ?c = Some (r1, t1)" "wf_ts i t1"
    "map_option length (lchans t1) = Some (length ls)"
    using activate_lchan_ok [OF Suc.prems(1), of ?c] Suc.prems(2) by auto
  obtain r2 t2 where d: "sched_trx_deactivate_lchan ts ?c = Some (r2, t2)" "wf_ts i t2"
    "map_option length (lchans t2) = Some (length ls)"
    using deactivate_lchan_ok [OF Suc.prems(1), of ?c] Suc.prems(2) by auto
  obtain l1 where l1: "lchans t1 = Some l1" "length l1 = length ls" using a(3) by auto
  obtain l2 where l2: "lchans t2 = Some l2" "length l2 = length ls" using d(3) by auto
  let ?t1 = "t1\<lparr>lchans := Some (l1[j := (l1 ! j)\<lparr>tch_mode := mode\<rparr>])\<rparr>"
  have types: "map lchan_type (l1[j := (l1 ! j)\<lparr>tch_mode := mode\<rparr>]) = map lchan_type l1"
    using Suc.prems(3) l1(2) by (simp add: map_update list_update_same_conv)
  have w1: "wf_ts i ?t1"
    using a(2) l1 Suc.prems(3) types unfolding wf_ts_def
    by (auto simp: wf_lchan_tch_mode dest!: subsetD [OF set_update_subset_insert])
  consider "ld_chan_nr (trx_lchan_desc ?c) \<noteq> chan_nr AND 0xf8"
    | "ld_chan_nr (trx_lchan_desc ?c) = chan_nr AND 0xf8" "act" | "ld_chan_nr (trx_lchan_desc ?c) = chan_nr AND 0xf8" "\<not> act"
    by blast
  then show ?case
  proof cases
    case 1
    then show ?thesis
      using Suc.IH [OF Suc.prems(1,2), of "Suc j" rc] Suc.prems(2,3) j by simp
  next
    case 2
    then show ?thesis
      using Suc.IH [OF w1, of "l1[j := (l1 ! j)\<lparr>tch_mode := mode\<rparr>]" "Suc j" "rc OR r1"] Suc.prems(2,3) j a(1) l1 by simp
  next
    case 3
    then show ?thesis
      using Suc.IH [OF d(2) l2(1), of "Suc j" "rc OR r2"] Suc.prems(2,3) j d(1) l2(2) by simp
  qed
qed


lemma set_lchans_ok:
  assumes "\<And>ts. slot = Some ts \<Longrightarrow> wf_ts i ts"
  shows "\<exists>rc slot'. sched_trx_set_lchans slot chan_nr act mode = Some (rc, slot')
    \<and> (\<forall>ts. slot' = Some ts \<longrightarrow> wf_ts i ts)"
proof (cases slot)
  case None
  then show ?thesis by (simp add: sched_trx_set_lchans_def)
next
  case (Some ts)
  have ts: "wf_ts i ts" by (rule assms [OF Some])
  then obtain ls where ls: "lchans ts = Some ls" by (auto simp: wf_ts_def)
  show ?thesis
    using set_lchans_loop_ok [OF ts ls, of 0 "length ls" chan_nr act mode 0] Some ls
    by (auto simp: sched_trx_set_lchans_def)
qed

lemma wf_lchan_cipher:
  "wf_lchan l \<Longrightarrow> length k \<le> 16 \<Longrightarrow> wf_lchan (l\<lparr>a5_key_len := n, a5_algo := a, a5_key := blit (a5_key l) 0 k\<rparr>)"
  by (simp add: wf_lchan_def cache_ok_def mr_cached_def)

lemma start_ciphering_ok:
  assumes "\<And>ts. slot = Some ts \<Longrightarrow> wf_ts i ts" "unat key_len \<le> length key"
  shows "\<exists>rc slot'. sched_trx_start_ciphering slot algo key key_len = Some (rc, slot')
    \<and> (\<forall>ts. slot' = Some ts \<longrightarrow> wf_ts i ts)"
proof (cases slot)
  case None
  then show ?thesis by (simp add: sched_trx_start_ciphering_def)
next
  case (Some ts)
  have ts: "wf_ts i ts" by (rule assms(1) [OF Some])
  then obtain ls where ls: "lchans ts = Some ls" by (auto simp: wf_ts_def)
  let ?k = "take (unat key_len) key"
  let ?f = "\<lambda>l. if active l then l\<lparr>a5_key_len := key_len, a5_algo := algo, a5_key := blit (a5_key l) 0 ?k\<rparr> else l"
  have "wf_ts i (ts\<lparr>lchans := Some (map ?f ls)\<rparr>)" if "unat key_len \<le> 16"
    by (rule wf_ts_map [OF ts ls]) (use that in \<open>auto intro!: wf_lchan_cipher\<close>)
  then show ?thesis
    using Some ls assms(2) ts by (simp add: sched_trx_start_ciphering_def mem_read_def)
qed

lemma del_ts_ok:
  assumes "wf_trx trx" "tn < TRX_TS_COUNT"
  shows "sched_trx_del_ts trx tn =
    Some (trx\<lparr>ts_list := (ts_list trx)[tn := None]\<rparr>, if ts_list trx ! tn = None then [] else [TrxCmdSetslot tn 0])"
    and "wf_trx (trx\<lparr>ts_list := (ts_list trx)[tn := None]\<rparr>)"
proof -
  show "wf_trx (trx\<lparr>ts_list := (ts_list trx)[tn := None]\<rparr>)" by (rule wf_trx_put [OF assms]) simp
  show "sched_trx_del_ts trx tn =
    Some (trx\<lparr>ts_list := (ts_list trx)[tn := None]\<rparr>, if ts_list trx ! tn = None then [] else [TrxCmdSetslot tn 0])"
  proof (cases "ts_list trx ! tn")
    case None
    then have "(ts_list trx)[tn := None] = ts_list trx" by (metis list_update_id)
    then show ?thesis using wf_trx_slot [OF assms] None by (simp add: sched_trx_del_ts_def)
  next
    case (Some ts)
    then have ts: "wf_ts tn ts" using assms by (simp add: wf_trx_def)
    then obtain q where q: "tx_prims ts = Some q" by (auto simp: wf_ts_def)
    obtain ls where "sched_trx_deactivate_all_lchans ts = Some (ts\<lparr>lchans := Some ls\<rparr>)"
      using deactivate_all_ok [OF ts] by blast
    then show ?thesis
      using wf_trx_slot [OF assms] Some q by (simp add: sched_trx_del_ts_def sched_prim_flush_queue_def)
  qed
qed

lemma del_all_ts_ok:
  assumes "\<forall>i \<in> set tns. i < TRX_TS_COUNT" "wf_trx trx"
  shows "\<exists>tss evs. del_all_ts tns trx = Some (trx\<lparr>ts_list := tss\<rparr>, evs) \<and> wf_trx (trx\<lparr>ts_list := tss\<rparr>)
    \<and> (\<forall>i \<in> set tns. tss ! i = None) \<and> (\<forall>i. ts_list trx ! i = None \<longrightarrow> tss ! i = None)"
  using assms
proof (induction tns arbitrary: trx)
  case Nil
  have "trx\<lparr>ts_list := ts_list trx\<rparr> = trx" by simp
  with Nil(2) show ?case by (intro exI [of _ "ts_list trx"]) simp
next
  case (Cons tn tns)
  then have tn: "tn < 8" by simp
  note d = del_ts_ok [OF Cons.prems(2) tn]
  let ?t = "trx\<lparr>ts_list := (ts_list trx)[tn := None]\<rparr>"
  obtain tss evs where r: "del_all_ts tns ?t = Some (?t\<lparr>ts_list := tss\<rparr>, evs)" "wf_trx (?t\<lparr>ts_list := tss\<rparr>)"
    "\<forall>i \<in> set tns. tss ! i = None" "\<forall>i. ts_list ?t ! i = None \<longrightarrow> tss ! i = None"
    using Cons.IH [OF _ d(2)] Cons.prems(1) by auto
  have len: "tn < length (ts_list trx)" using Cons.prems(2) tn by (simp add: wf_trx_def)
  then have "tss ! tn = None" using r(4) by simp
  moreover have "\<forall>i. ts_list trx ! i = None \<longrightarrow> tss ! i = None"
    using r(4) len by (metis nth_list_update nth_list_update_neq trx_instance.select_convs(2) trx_instance.surjective trx_instance.update_convs(2))
  ultimately show ?case using d(1) r(1-3) by auto
qed


section \<open>Configuration\<close>

text \<open>What the allocation loop leaves: one channel state per type of the layout, in the
  order of the enumeration, the automatic ones activated.\<close>

definition config_lchan :: "trx_lchan_type \<Rightarrow> trx_lchan_state" where
  "config_lchan c = (if chan_flag_auto c then activated (new_lchan c) else new_lchan c)"

lemma lchan_type_config [simp]: "lchan_type (config_lchan c) = c"
  by (simp add: config_lchan_def new_lchan_def)

lemma wf_config_lchan: "wf_lchan (config_lchan c)"
  by (simp add: config_lchan_def wf_new_lchan wf_activated)

lemma find_append_new:
  "c \<notin> set (map lchan_type ls) \<Longrightarrow> lchan_type l = c \<Longrightarrow>
    find (\<lambda>l. lchan_type l = c) (ls @ [l]) = Some l"
  by (induction ls) auto

lemma update_first_append_new:
  "lchan_type y \<notin> set (map lchan_type ls) \<Longrightarrow> lchan_type l = lchan_type y \<Longrightarrow>
    update_first (\<lambda>l. lchan_type l = lchan_type y) y (ls @ [l]) = ls @ [y]"
  by (induction ls) auto

lemma alloc_lchans_spec:
  assumes "distinct (map lchan_type ls @ cs)"
  shows "alloc_lchans mf cs (ts\<lparr>lchans := Some ls\<rparr>) =
    Some (ts\<lparr>lchans := Some (ls @ map config_lchan (filter (layout_has_lchan mf) cs))\<rparr>)"
  using assms
proof (induction cs arbitrary: ls)
  case Nil
  then show ?case by simp
next
  case (Cons c cs)
  show ?case
  proof (cases "layout_has_lchan mf c")
    case False
    then show ?thesis using Cons by simp
  next
    case True
    have c: "c \<notin> set (map lchan_type ls)" using Cons.prems by auto
    have n: "lchan_type (new_lchan c) = c" "\<not> active (new_lchan c)" by (simp_all add: new_lchan_def)
    have "(if chan_flag_auto c
              then do { (rc, ts) \<leftarrow> sched_trx_activate_lchan (ts\<lparr>lchans := Some (ls @ [new_lchan c])\<rparr>) c; Some ts }
              else Some (ts\<lparr>lchans := Some (ls @ [new_lchan c])\<rparr>))
      = Some (ts\<lparr>lchans := Some (ls @ [config_lchan c])\<rparr>)"
      using find_append_new [OF c n(1)] n update_first_append_new [of "activated (new_lchan c)" ls "new_lchan c"] c
      by (simp add: sched_trx_activate_lchan_def sched_trx_find_lchan_def put_lchan_def config_lchan_def)
    then show ?thesis
      using True Cons.IH [of "ls @ [config_lchan c]"] Cons.prems by (simp add: Let_def)
  qed
qed

text \<open>A configured timeslot.\<close>

definition configured_ts :: "nat \<Rightarrow> trx_multiframe \<Rightarrow> trx_ts" where
  "configured_ts tn mf = \<lparr>ts_index = tn, mf_layout = Some mf,
     lchans = Some (map config_lchan (filter (layout_has_lchan mf) all_lchan_types)),
     tx_prims = Some []\<rparr>"

lemma wf_configured_ts: "mf_ok mf \<Longrightarrow> wf_ts tn (configured_ts tn mf)"
  using distinct_all_lchan_types
  by (auto simp: wf_ts_def configured_ts_def wf_config_lchan o_def)

lemma reset_ts_ok:
  assumes "wf_trx trx" "tn < TRX_TS_COUNT" "ts_list trx ! tn = Some ts"
  shows "sched_trx_reset_ts trx tn = Some (0, trx\<lparr>ts_list := (ts_list trx)[tn :=
      Some \<lparr>ts_index = tn, mf_layout = None, lchans = Some [], tx_prims = Some []\<rparr>]\<rparr>, [TrxCmdSetslot tn 0])"
proof -
  have ts: "wf_ts tn ts" using assms by (simp add: wf_trx_def)
  then obtain q where q: "tx_prims ts = Some q" "ts_index ts = tn" by (auto simp: wf_ts_def)
  have "wf_ts tn (ts\<lparr>mf_layout := None, tx_prims := Some []\<rparr>)" using ts by (auto simp: wf_ts_def)
  from deactivate_all_ok [OF this] obtain ls where
    "sched_trx_deactivate_all_lchans (ts\<lparr>mf_layout := None, tx_prims := Some []\<rparr>)
      = Some (ts\<lparr>mf_layout := None, tx_prims := Some [], lchans := Some ls\<rparr>)" by auto
  then show ?thesis
    using wf_trx_slot [OF assms(1,2)] assms(3) q
    by (cases ts) (simp add: sched_trx_reset_ts_def sched_prim_flush_queue_def)
qed

text \<open>The timeslot before the lists are initialised: fresh, or emptied by the reset.\<close>

definition blank_ts :: "trx_ts option \<Rightarrow> nat \<Rightarrow> trx_ts" where
  "blank_ts slot tn = (if slot = None then new_ts tn
    else \<lparr>ts_index = tn, mf_layout = None, lchans = Some [], tx_prims = Some []\<rparr>)"

lemma configure_ts_spec:
  assumes "wf_trx trx" "tn < TRX_TS_COUNT"
  defines "base \<equiv> blank_ts (ts_list trx ! tn) tn"
    and "evs \<equiv> if ts_list trx ! tn = None then [] else [TrxCmdSetslot tn 0]"
  shows "sched_mframe_layout config tn = None \<Longrightarrow> sched_trx_configure_ts trx tn config =
      Some (- EINVAL, trx\<lparr>ts_list := (ts_list trx)[tn := Some base]\<rparr>, evs)"
    and "sched_mframe_layout config tn = Some mf \<Longrightarrow> chan_config mf = config \<Longrightarrow>
      sched_trx_configure_ts trx tn config =
      Some (0, trx\<lparr>ts_list := (ts_list trx)[tn := Some (configured_ts tn mf)]\<rparr>, evs @ [TrxCmdSetslot tn 1])"
proof -
  note slot = wf_trx_slot [OF assms(1,2)]
  have len: "tn < length (ts_list trx)" using assms(1,2) by (simp add: wf_trx_def)
  let ?t = "trx\<lparr>ts_list := (ts_list trx)[tn := Some base]\<rparr>"
  have first: "(if ts_list trx ! tn \<noteq> None
        then do { (rc, trx, evs) \<leftarrow> sched_trx_reset_ts trx tn; Some (trx, evs) }
        else do { (ts, trx) \<leftarrow> sched_trx_add_ts trx tn; Some (trx, []) }) = Some (?t, evs)"
    using reset_ts_ok [OF assms(1,2)] slot
    by (cases "ts_list trx ! tn") (simp_all add: sched_trx_add_ts_def base_def evs_def blank_ts_def)
  have second: "mem_at (ts_list ?t) tn = Some (Some base)"
    using len by (simp add: mem_at_def)
  have alloc: "alloc_lchans mf all_lchan_types (base\<lparr>mf_layout := Some mf, tx_prims := Some [], lchans := Some []\<rparr>)
      = Some (configured_ts tn mf)"
    using alloc_lchans_spec [of "[]" all_lchan_types mf "base\<lparr>mf_layout := Some mf, tx_prims := Some []\<rparr>"]
      distinct_all_lchan_types
    by (simp add: configured_ts_def new_ts_def base_def blank_ts_def split: if_splits)
  have upd: "base\<lparr>mf_layout := None\<rparr> = base" by (simp add: base_def blank_ts_def new_ts_def)
  have body: "sched_trx_configure_ts trx tn config =
    (case sched_mframe_layout config tn of
       None \<Rightarrow> Some (- EINVAL, trx\<lparr>ts_list := (ts_list trx)[tn := Some (base\<lparr>mf_layout := None\<rparr>)]\<rparr>, evs)
     | Some mf \<Rightarrow>
         if chan_config mf \<noteq> config
         then Some (- EINVAL, trx\<lparr>ts_list := (ts_list trx)[tn := Some (base\<lparr>mf_layout := Some mf\<rparr>)]\<rparr>, evs)
         else do {
           ts \<leftarrow> alloc_lchans mf all_lchan_types (base\<lparr>mf_layout := Some mf, tx_prims := Some [], lchans := Some []\<rparr>);
           Some (0, trx\<lparr>ts_list := (ts_list trx)[tn := Some ts]\<rparr>, evs @ [TrxCmdSetslot tn 1])
         })"
    unfolding sched_trx_configure_ts_def slot bind.simps first prod.case second
    by (simp add: Let_def split: option.split)
  show "sched_mframe_layout config tn = None \<Longrightarrow> sched_trx_configure_ts trx tn config =
      Some (- EINVAL, trx\<lparr>ts_list := (ts_list trx)[tn := Some base]\<rparr>, evs)"
    unfolding body by (simp add: upd)
  show "sched_mframe_layout config tn = Some mf \<Longrightarrow> chan_config mf = config \<Longrightarrow>
      sched_trx_configure_ts trx tn config =
      Some (0, trx\<lparr>ts_list := (ts_list trx)[tn := Some (configured_ts tn mf)]\<rparr>, evs @ [TrxCmdSetslot tn 1])"
    unfolding body using alloc by simp
qed

end
