(* ===== verification/SchedTrxProps.thy ===== *)
theory SchedTrxProps
  imports SchedTrxInv
begin

text \<open>
  The properties of the scheduler core: no sequence of operations gets stuck, the shape of a
  transmitted frame, the compensation of lost frames, ciphering, activation, and the crash
  after a rejected configuration.
\<close>

section \<open>The scheduler as a transition system\<close>

text \<open>The operations the transceiver and the L1CTL interface call.\<close>

datatype trx_cmd =
    CmdTick timespec
  | CmdClock timespec u32
  | CmdBurst nat u32 "sbit list" trx_meas_set
  | CmdConfigure nat gsm_phys_chan_config
  | CmdSetLchans nat u8 bool u8
  | CmdCipher nat u8 "u8 list" u8
  | CmdPush trx_ts_prim u8
  | CmdReset bool
  | CmdShutdown

definition trx_exec :: "codec \<Rightarrow> (u32 \<Rightarrow> nat \<Rightarrow> nat \<Rightarrow> u8) \<Rightarrow> trx_cmd \<Rightarrow> trx_instance
    \<Rightarrow> (trx_instance \<times> trx_event list) option" where
  "trx_exec cd rnd cmd trx =
    (case cmd of
       CmdTick now \<Rightarrow> trx_clck_tick cd rnd now trx
     | CmdClock now fn \<Rightarrow> trx_clck_handle cd rnd now fn trx
     | CmdBurst tn fn bits meas \<Rightarrow>
         map_option snd (sched_trx_handle_rx_burst cd trx tn fn bits meas)
     | CmdConfigure tn config \<Rightarrow> map_option snd (sched_trx_configure_ts trx tn config)
     | CmdSetLchans tn chan_nr act mode \<Rightarrow> do {
         slot \<leftarrow> mem_at (ts_list trx) tn;
         (rc, slot) \<leftarrow> sched_trx_set_lchans slot chan_nr act mode;
         Some (trx\<lparr>ts_list := (ts_list trx)[tn := slot]\<rparr>, [])
       }
     | CmdCipher tn algo key key_len \<Rightarrow> do {
         slot \<leftarrow> mem_at (ts_list trx) tn;
         (rc, slot) \<leftarrow> sched_trx_start_ciphering slot algo key key_len;
         Some (trx\<lparr>ts_list := (ts_list trx)[tn := slot]\<rparr>, [])
       }
     | CmdPush prim chan_nr \<Rightarrow> do {
         (rc, tss) \<leftarrow> sched_prim_push (ts_list trx) prim chan_nr;
         Some (trx\<lparr>ts_list := tss\<rparr>, [])
       }
     | CmdReset clock \<Rightarrow> map_option snd (sched_trx_reset trx clock)
     | CmdShutdown \<Rightarrow> map_option snd (sched_trx_shutdown trx))"

text \<open>
  What an operation requires of its arguments: a timeslot of the eight, a burst of full length, a
  frame number of the hyperframe, a channel combination that has a layout, a key no shorter
  than announced, a timer that is pending when it expires, and a primitive as long as its
  channel needs. \<open>trx_if.c\<close> checks what it receives; \<open>l1ctl.c\<close> requests no other
  combinations, but it does not check the length of a primitive.
\<close>

definition cmd_ok :: "trx_cmd \<Rightarrow> trx_instance \<Rightarrow> bool" where
  "cmd_ok cmd trx =
    (case cmd of
       CmdTick now \<Rightarrow> clock_timer (sched trx) \<noteq> None
     | CmdClock now fn \<Rightarrow> valid_fn fn
     | CmdBurst tn fn bits meas \<Rightarrow> tn < TRX_TS_COUNT \<and> GSM_BURST_LEN \<le> length bits
     | CmdConfigure tn config \<Rightarrow> tn < TRX_TS_COUNT \<and> supported_pchan config
     | CmdSetLchans tn chan_nr act mode \<Rightarrow> tn < TRX_TS_COUNT
     | CmdCipher tn algo key key_len \<Rightarrow> tn < TRX_TS_COUNT \<and> unat key_len \<le> length key
     | CmdPush prim chan_nr \<Rightarrow> wf_prim prim
     | _ \<Rightarrow> True)"

definition trx_inv :: "trx_instance \<Rightarrow> bool" where
  "trx_inv trx \<longleftrightarrow> wf_trx trx \<and> clck_inv (sched trx) \<and> clock_cb (sched trx)"

inductive trx_step :: "codec \<Rightarrow> trx_instance \<Rightarrow> trx_event list \<Rightarrow> trx_instance \<Rightarrow> bool" for cd where
  trx_stepI: "cmd_ok cmd trx \<Longrightarrow> trx_exec cd rnd cmd trx = Some (trx', evs) \<Longrightarrow> trx_step cd trx evs trx'"

inductive_cases trx_stepE: "trx_step cd trx evs trx'"

text \<open>The states reached from a start state, with the messages sent on the way.\<close>

inductive trx_reach :: "codec \<Rightarrow> trx_instance \<Rightarrow> trx_event list \<Rightarrow> trx_instance \<Rightarrow> bool" for cd trx where
  reach_refl: "trx_reach cd trx [] trx"
| reach_step: "trx_reach cd trx evs trx' \<Longrightarrow> trx_step cd trx' evs' trx'' \<Longrightarrow> trx_reach cd trx (evs @ evs') trx''"

text \<open>The instance as \<open>trx_if_open\<close> allocates it.\<close>

definition trx_zero :: trx_instance where
  "trx_zero = \<lparr>band_arfcn = 0, tx_power = 0, bsic = 0, tsc = 0, ta = 0, fbsb_conf_sent = False,
     sched = \<lparr>clck_state = SCH_CLCK_STATE_WAIT, clck_time = \<lparr>tv_sec = 0, tv_nsec = 0\<rparr>, fn_counter_proc = 0,
              fn_counter_advance = 0, fn_counter_lost = 0, clock_timer = None, clock_cb = False\<rparr>,
     ts_list = replicate TRX_TS_COUNT None\<rparr>"

lemma trx_inv_init: "trx_inv (snd (sched_trx_init trx_zero adv))"
  by (simp add: trx_inv_def sched_trx_init_def trx_zero_def wf_trx_def clck_inv_def)

section \<open>Every operation preserves the invariant\<close>

lemma clck_inv_tick:
  assumes "clck_inv s" "clock_cb s" "clock_timer s \<noteq> None" "sched_clck_tick now s = (s', calls)"
  shows "clck_inv s' \<and> clock_cb s'"
proof -
  have p: "valid_fn (fn_counter_proc s)" and w: "clck_state s \<noteq> SCH_CLCK_STATE_WAIT"
    using assms(1,3) by (simp_all add: clck_inv_def)
  show ?thesis
    by (rule clck_tick_cases [OF assms(2,4)]) (use p w assms(2) valid_frame_plus [OF p] in \<open>simp_all add: clck_inv_def\<close>)
qed

lemma clck_inv_handle:
  assumes "clck_inv s" "clock_cb s" "valid_fn fn"
  shows "\<exists>rc s' calls. sched_clck_handle now fn s = Some (rc, s', calls) \<and> clck_inv s' \<and> clock_cb s'"
proof -
  have p: "valid_fn (fn_counter_proc s)" using assms(1) by (simp add: clck_inv_def)
  have "sched_clck_handle now fn s \<noteq> None" using assms(3) unfolding clck_handle_cases [OF p] by simp
  then obtain rc s' calls where h: "sched_clck_handle now fn s = Some (rc, s', calls)" by auto
  have "clock_cb s'" using h assms(2) unfolding clck_handle_cases [OF p] by (auto split: if_splits)
  then show ?thesis using clck_ind_inv [OF assms(1,3) h] h by blast
qed

lemma exec_tick_ok:
  assumes "wf_codec cd" "trx_inv trx" "clock_timer (sched trx) \<noteq> None"
  shows "\<exists>trx' evs. trx_clck_tick cd rnd now trx = Some (trx', evs) \<and> trx_inv trx'
    \<and> list_all frame_event evs"
proof -
  obtain s calls where s: "sched_clck_tick now (sched trx) = (s, calls)" by fastforce
  have "clck_inv s \<and> clock_cb s"
    by (rule clck_inv_tick [OF _ _ assms(3) s]) (use assms(2) in \<open>simp_all add: trx_inv_def\<close>)
  moreover obtain tss u evs where "run_frames cd rnd calls trx = Some (trx\<lparr>ts_list := tss, sched := u\<rparr>, evs)"
    "wf_trx (trx\<lparr>ts_list := tss\<rparr>)" "list_all frame_event evs"
    using run_frames_ok [OF assms(1), of trx rnd calls] assms(2) by (auto simp: trx_inv_def)
  ultimately show ?thesis using s by (simp add: trx_clck_tick_def trx_inv_def wf_trx_def)
qed

lemma exec_clock_ok:
  assumes "wf_codec cd" "trx_inv trx" "valid_fn fn"
  shows "\<exists>trx' evs. trx_clck_handle cd rnd now fn trx = Some (trx', evs) \<and> trx_inv trx'
    \<and> list_all frame_event evs"
proof -
  obtain rc s calls where s: "sched_clck_handle now fn (sched trx) = Some (rc, s, calls)" "clck_inv s \<and> clock_cb s"
    using clck_inv_handle [OF _ _ assms(3)] assms(2) unfolding trx_inv_def by blast
  moreover obtain tss u evs where "run_frames cd rnd calls trx = Some (trx\<lparr>ts_list := tss, sched := u\<rparr>, evs)"
    "wf_trx (trx\<lparr>ts_list := tss\<rparr>)" "list_all frame_event evs"
    using run_frames_ok [OF assms(1), of trx rnd calls] assms(2) by (auto simp: trx_inv_def)
  ultimately show ?thesis by (simp add: trx_clck_handle_def trx_inv_def wf_trx_def)
qed

lemma exec_push_ok:
  assumes "wf_trx trx" "wf_prim prim"
  shows "\<exists>rc tss. sched_prim_push (ts_list trx) prim chan_nr = Some (rc, tss) \<and> wf_trx (trx\<lparr>ts_list := tss\<rparr>)"
proof -
  let ?tn = "unat (chan_nr AND 0x7)"
  have "chan_nr AND 7 \<le> 7" by (rule word_and_le1)
  then have tn: "?tn < 8" by (simp add: word_le_nat_alt)
  have keep: "trx\<lparr>ts_list := ts_list trx\<rparr> = trx" by simp
  show ?thesis
  proof (cases "\<exists>ts. ts_list trx ! ?tn = Some ts \<and> mf_layout ts \<noteq> None")
    case False
    then have "sched_prim_push (ts_list trx) prim chan_nr = Some (- EINVAL, ts_list trx)"
      using wf_trx_slot [OF assms(1) tn] by (auto simp: sched_prim_push_def Let_def split: option.splits)
    then show ?thesis using assms(1) keep by auto
  next
    case True
    then obtain ts where ts: "ts_list trx ! ?tn = Some ts" "mf_layout ts \<noteq> None" by blast
    have w: "wf_ts ?tn ts" using assms(1) tn ts(1) by (simp add: wf_trx_def)
    then obtain q where q: "tx_prims ts = Some q" "wf_queue q" unfolding wf_ts_def by blast
    have "wf_ts ?tn (ts\<lparr>tx_prims := Some (q @ [prim])\<rparr>)"
      by (rule wf_ts_prims [OF w]) (use q(2) assms(2) in auto)
    then have "wf_trx (trx\<lparr>ts_list := (ts_list trx)[?tn := Some (ts\<lparr>tx_prims := Some (q @ [prim])\<rparr>)]\<rparr>)"
      by (intro wf_trx_put [OF assms(1) tn]) simp
    then show ?thesis
      using wf_trx_slot [OF assms(1) tn] ts q(1) by (auto simp: sched_prim_push_def Let_def)
  qed
qed


lemma exec_configure_ok:
  assumes "wf_trx trx" "tn < TRX_TS_COUNT" "supported_pchan config"
  shows "\<exists>evs ts. sched_trx_configure_ts trx tn config = Some (0, trx\<lparr>ts_list := (ts_list trx)[tn := Some ts]\<rparr>, evs)
    \<and> wf_trx (trx\<lparr>ts_list := (ts_list trx)[tn := Some ts]\<rparr>)"
proof -
  obtain mf where mf: "sched_mframe_layout config tn = Some mf" "chan_config mf = config" "mf_ok mf"
    by (rule supported_mframe_layout [OF assms(3,2)])
  have "wf_trx (trx\<lparr>ts_list := (ts_list trx)[tn := Some (configured_ts tn mf)]\<rparr>)"
    by (rule wf_trx_put [OF assms(1,2)]) (use wf_configured_ts [OF mf(3)] in simp)
  then show ?thesis using configure_ts_spec(2) [OF assms(1,2) mf(1,2)] by auto
qed

lemma trx_inv_ts_list: "trx_inv trx \<Longrightarrow> wf_trx (trx\<lparr>ts_list := tss\<rparr>) \<Longrightarrow> trx_inv (trx\<lparr>ts_list := tss\<rparr>)"
  by (simp add: trx_inv_def)

lemma exec_slot_ok:
  assumes "trx_inv trx" "tn < TRX_TS_COUNT"
    and "\<And>slot. (\<And>ts. slot = Some ts \<Longrightarrow> wf_ts tn ts) \<Longrightarrow>
      \<exists>rc slot'. f slot = Some (rc, slot') \<and> (\<forall>ts. slot' = Some ts \<longrightarrow> wf_ts tn ts)"
  shows "\<exists>slot rc slot'. mem_at (ts_list trx) tn = Some slot \<and> f slot = Some (rc, slot')
    \<and> trx_inv (trx\<lparr>ts_list := (ts_list trx)[tn := slot']\<rparr>)"
proof -
  have w: "wf_trx trx" using assms(1) by (simp add: trx_inv_def)
  have "wf_ts tn ts" if "ts_list trx ! tn = Some ts" for ts using w assms(2) that by (simp add: wf_trx_def)
  from assms(3) [OF this] obtain rc slot' where
    f: "f (ts_list trx ! tn) = Some (rc, slot')" "\<forall>ts. slot' = Some ts \<longrightarrow> wf_ts tn ts" by blast
  have "wf_trx (trx\<lparr>ts_list := (ts_list trx)[tn := slot']\<rparr>)"
    by (rule wf_trx_put [OF w assms(2)]) (use f(2) in blast)
  then show ?thesis using wf_trx_slot [OF w assms(2)] f(1) trx_inv_ts_list [OF assms(1)] by blast
qed

lemma trx_exec_ok:
  assumes cd: "wf_codec cd" and inv: "trx_inv trx" and ok: "cmd_ok cmd trx"
  shows "\<exists>trx' evs. trx_exec cd rnd cmd trx = Some (trx', evs) \<and> trx_inv trx'"
proof -
  have w: "wf_trx trx" using inv by (simp add: trx_inv_def)
  show ?thesis
  proof (cases cmd)
    case (CmdTick now)
    then show ?thesis using exec_tick_ok [OF cd inv] ok by (fastforce simp: trx_exec_def cmd_ok_def)
  next
    case (CmdClock now fn)
    then show ?thesis using exec_clock_ok [OF cd inv] ok by (fastforce simp: trx_exec_def cmd_ok_def)
  next
    case (CmdBurst tn fn bits meas)
    then obtain rc trx' evs where "sched_trx_handle_rx_burst cd trx tn fn bits meas = Some (rc, trx', evs)"
      "wf_trx trx'" "sched trx' = sched trx"
      using handle_rx_burst_ok [OF cd w, of tn bits fn meas] ok by (auto simp: cmd_ok_def)
    then show ?thesis using CmdBurst inv by (simp add: trx_exec_def trx_inv_def)
  next
    case (CmdConfigure tn config)
    then show ?thesis
      using exec_configure_ok [OF w, of tn config] ok trx_inv_ts_list [OF inv]
      by (fastforce simp: trx_exec_def cmd_ok_def)
  next
    case (CmdSetLchans tn chan_nr act mode)
    then have "tn < 8" using ok by (simp add: cmd_ok_def)
    from exec_slot_ok [where f = "\<lambda>slot. sched_trx_set_lchans slot chan_nr act mode", OF inv this set_lchans_ok]
    show ?thesis using CmdSetLchans by (auto simp: trx_exec_def)
  next
    case (CmdCipher tn algo key key_len)
    then have "tn < 8" "unat key_len \<le> length key" using ok by (simp_all add: cmd_ok_def)
    from exec_slot_ok [where f = "\<lambda>slot. sched_trx_start_ciphering slot algo key key_len",
        OF inv this(1) start_ciphering_ok [OF _ this(2)]]
    show ?thesis using CmdCipher by (auto simp: trx_exec_def)
  next
    case (CmdPush prim chan_nr)
    then show ?thesis
      using exec_push_ok [OF w, of prim chan_nr] ok trx_inv_ts_list [OF inv] by (auto simp: trx_exec_def cmd_ok_def)
  next
    case (CmdReset clock)
    obtain tss evs where d: "del_all_ts [0..<8] trx = Some (trx\<lparr>ts_list := tss\<rparr>, evs)" "wf_trx (trx\<lparr>ts_list := tss\<rparr>)"
      using del_all_ts_ok [of "[0..<8]", OF _ w] by auto
    then have "trx_inv (trx\<lparr>ts_list := tss, sched := sched_clck_reset (sched trx)\<rparr>)"
      using inv by (simp add: trx_inv_def wf_trx_def clck_inv_def sched_clck_reset_def)
    then show ?thesis using CmdReset d trx_inv_ts_list [OF inv d(2)] by (simp add: trx_exec_def sched_trx_reset_def)
  next
    case CmdShutdown
    obtain tss evs where d: "del_all_ts [0..<8] trx = Some (trx\<lparr>ts_list := tss\<rparr>, evs)" "wf_trx (trx\<lparr>ts_list := tss\<rparr>)"
      using del_all_ts_ok [of "[0..<8]", OF _ w] by auto
    then show ?thesis using CmdShutdown trx_inv_ts_list [OF inv d(2)] by (simp add: trx_exec_def sched_trx_shutdown_def)
  qed
qed

lemma trx_reach_inv:
  assumes "wf_codec cd" "trx_reach cd trx evs trx'" "trx_inv trx"
  shows "trx_inv trx'"
  using assms(2)
proof (induction rule: trx_reach.induct)
  case reach_refl
  show ?case by (rule assms(3))
next
  case (reach_step evs trx' evs' trx'')
  from reach_step(2) show ?case
  proof (rule trx_stepE)
    fix cmd rnd
    assume "cmd_ok cmd trx'" "trx_exec cd rnd cmd trx' = Some (trx'', evs')"
    then show "trx_inv trx''" using trx_exec_ok [OF assms(1) reach_step(3), of cmd rnd] by auto
  qed
qed

text \<open>
  C14. The scheduler never gets stuck, as long as its operations are called as \<open>cmd_ok\<close> says:
  received bursts and configurations name one of the eight timeslots, configurations ask for a
  channel combination that has a layout, bursts are of full length, clock indications are
  below the hyperframe, keys are no shorter than announced, primitives are well formed, and the
  clock expires only while its timer is pending. From a freshly opened and initialised instance, in
  every state that a sequence of such operations reaches -- timer expirations, clock
  indications, received bursts, (re)configurations, activations, ciphering requests, queued
  primitives, resets and shutdowns, in any order -- every further one completes: no
  assertion fails, no list head is used before its initialisation, no buffer, table or
  array is accessed outside its bounds, no loop runs for ever. The invariant holds again
  afterwards: every timeslot has at most one channel state per type, with its burst buffers
  allocated while it is active and no primitive but its own, and a well formed queue. (What a
  configuration that has no layout does is the subject of \<open>refused configurations\<close> in
  \<open>SchedTrxAdmin\<close>.)
\<close>

theorem scheduler_never_stuck:
  assumes "wf_codec cd"
    and "trx_reach cd (snd (sched_trx_init trx_zero adv)) evs trx" "cmd_ok cmd trx"
  shows "\<exists>trx' evs'. trx_exec cd rnd cmd trx = Some (trx', evs') \<and> trx_inv trx'"
  using trx_exec_ok [OF assms(1) trx_reach_inv [OF assms(1,2) trx_inv_init] assms(3)] .

theorem scheduler_never_stuck_witness:
  "\<exists>evs trx trx' evs'. trx_reach fixed_codec (snd (sched_trx_init trx_zero 3)) evs trx
     \<and> ts_list trx ! 2 \<noteq> None
     \<and> trx_exec fixed_codec (\<lambda>_ _ _. 0) (CmdClock \<lparr>tv_sec = 5, tv_nsec = 0\<rparr> 42) trx = Some (trx', evs') \<and> trx_inv trx'"
proof -
  let ?t = "snd (sched_trx_init trx_zero 3)"
  let ?c = "CmdConfigure 2 GSM_PCHAN_SDCCH8_SACCH8C"
  have "wf_trx ?t" using trx_inv_init [of 3] by (simp add: trx_inv_def)
  then obtain evs ts where c: "sched_trx_configure_ts ?t 2 GSM_PCHAN_SDCCH8_SACCH8C
      = Some (0, ?t\<lparr>ts_list := (ts_list ?t)[2 := Some ts]\<rparr>, evs)"
    using exec_configure_ok [of ?t 2 GSM_PCHAN_SDCCH8_SACCH8C] by (auto simp: supported_pchan_def)
  define trx where "trx = ?t\<lparr>ts_list := (ts_list ?t)[2 := Some ts]\<rparr>"
  have "trx_step fixed_codec ?t evs trx"
    by (rule trx_stepI [of ?c _ _ "\<lambda>_ _ _. 0"]) (use c in \<open>simp_all add: trx_exec_def cmd_ok_def trx_def supported_pchan_def\<close>)
  from reach_step [OF reach_refl this] have r: "trx_reach fixed_codec ?t evs trx" by simp
  have "ts_list trx ! 2 \<noteq> None" by (simp add: trx_def sched_trx_init_def trx_zero_def)
  moreover have "cmd_ok (CmdClock \<lparr>tv_sec = 5, tv_nsec = 0\<rparr> 42) trx" by (simp add: cmd_ok_def)
  ultimately show ?thesis using scheduler_never_stuck [OF wf_fixed_codec r] r by blast
qed

end
