(* ===== verification/SchedTrxLoss.thy ===== *)
theory SchedTrxLoss
  imports SchedTrxProps
begin

text \<open>
  Reception over lost frames: the loop that substitutes missing bursts, as the list of the
  frames of the channel between two bursts, and the order of the burst ids it delivers.
\<close>

section \<open>Compensation of lost frames\<close>

text \<open>
  The frames of a channel among the \<open>n\<close> frames after \<open>fn\<close>, in their order, with the
  burst id the layout gives each, and the delivery of a substitute burst for each of them.
\<close>

definition missed :: "trx_multiframe \<Rightarrow> trx_lchan_type \<Rightarrow> u32 \<Rightarrow> nat \<Rightarrow> (u32 \<times> nat) list" where
  "missed mf c fn n = map (\<lambda>f. (f, dl_bid (frame_at mf (unat f))))
     (filter (\<lambda>f. dl_chan (frame_at mf (unat f)) = c) (map (\<lambda>i. frame_plus fn (Suc i)) [0..<n]))"

fun deliver :: "codec \<Rightarrow> rx_handler \<Rightarrow> nat \<Rightarrow> (u32 \<times> nat) list \<Rightarrow> trx_instance \<Rightarrow> trx_lchan_state
    \<Rightarrow> (trx_instance \<times> trx_lchan_state \<times> trx_event list) option" where
  "deliver cd h tn [] trx lchan = Some (trx, lchan, [])"
| "deliver cd h tn ((fn, bid) # xs) trx lchan = do {
     (rc, trx, lchan, evs) \<leftarrow> rx_call cd h tn trx lchan fn bid (replicate GSM_BURST_LEN 0)
       \<lparr>meas_fn = fn, meas_toa256 = 0, meas_rssi = -120\<rparr>;
     (trx, lchan, evs') \<leftarrow> deliver cd h tn xs trx
       (lchan\<lparr>last_proc := fn, num_proc := num_proc lchan + 1, num_lost := num_lost lchan + 1\<rparr>);
     Some (trx, lchan, evs @ evs')
   }"

lemma missed_Suc:
  "missed mf c fn (Suc n) =
    (let f = gsm_tdma_fn_inc fn in
     if dl_chan (frame_at mf (unat f)) = c then (f, dl_bid (frame_at mf (unat f))) # missed mf c f n
     else missed mf c f n)"
proof -
  have "[0..<Suc n] = 0 # map Suc [0..<n]" by (simp add: map_Suc_upt upt_conv_Cons del: upt_Suc)
  then show ?thesis by (simp add: missed_def Let_def frame_plus_Suc o_def del: upt_Suc)
qed

text \<open>One substitute burst, and the state the loop goes on with.\<close>

lemma substitute_ok:
  assumes cd: "wf_codec cd" and l: "wf_lchan l" "active l" "served_by_rx h l" and bid: "bid < block_len (lchan_type l)"
  shows "\<exists>rc trx' l' evs. rx_call cd h tn trx l fn bid (replicate GSM_BURST_LEN 0) meas = Some (rc, trx', l', evs)
    \<and> (let l'' = l'\<lparr>last_proc := fn, num_proc := num_proc l' + 1, num_lost := num_lost l' + 1\<rparr>
       in wf_lchan l'' \<and> active l'' \<and> served_by_rx h l'' \<and> lchan_type l'' = lchan_type l)"
proof -
  obtain rc t1 l1 evs where c: "rx_call cd h tn trx l fn bid (replicate GSM_BURST_LEN 0) meas = Some (rc, t1, l1, evs)"
    "wf_lchan l1" "same_lchan l l1"
    using rx_call_ok [OF cd l bid, of "replicate GSM_BURST_LEN 0" tn trx fn meas] by auto
  then show ?thesis using l wf_lchan_count(1) by (simp add: same_lchan_def Let_def)
qed

lemma subst_loop_deliver:
  assumes cd: "wf_codec cd" and mf: "mf_ok mf"
  shows "wf_lchan l \<Longrightarrow> active l \<Longrightarrow> served_by_rx h l \<Longrightarrow>
    subst_loop cd h tn mf n fn trx l = deliver cd h tn (missed mf (lchan_type l) fn n) trx l"
proof (induction n arbitrary: fn trx l)
  case 0
  then show ?case by (simp add: missed_def)
next
  case (Suc n)
  let ?f = "gsm_tdma_fn_inc fn"
  let ?m = "\<lparr>meas_fn = ?f, meas_toa256 = 0, meas_rssi = -120\<rparr>"
  note f = mf_ok_frame(1) [OF mf, of "unat ?f"]
  show ?case
  proof (cases "dl_chan (frame_at mf (unat ?f)) = lchan_type l")
    case False
    then show ?thesis using Suc.IH [OF Suc.prems, of ?f trx] f by (simp add: missed_Suc Let_def)
  next
    case True
    have bid: "dl_bid (frame_at mf (unat ?f)) < block_len (lchan_type l)"
      using mf_ok_frame(3) [OF mf, of "unat ?f"] no_idle_handler(2) [OF Suc.prems(3)] True by simp
    obtain rc t1 l1 evs where "rx_call cd h tn trx l ?f (dl_bid (frame_at mf (unat ?f))) (replicate GSM_BURST_LEN 0) ?m
        = Some (rc, t1, l1, evs)"
      "wf_lchan (l1\<lparr>last_proc := ?f, num_proc := num_proc l1 + 1, num_lost := num_lost l1 + 1\<rparr>)"
      "active l1" "served_by_rx h (l1\<lparr>last_proc := ?f, num_proc := num_proc l1 + 1, num_lost := num_lost l1 + 1\<rparr>)"
      "lchan_type l1 = lchan_type l"
      using substitute_ok [OF cd Suc.prems bid, of tn trx ?f ?m] by (auto simp: Let_def)
    then show ?thesis using f True Suc.IH [of _ ?f t1] by (simp add: missed_Suc Let_def)
  qed
qed

text \<open>The signed difference of two frame numbers, brought back from across the hyperframe.\<close>

lemma sint_diff:
  fixes a b :: u32
  assumes "uint a < 2 ^ 31" "uint b < 2 ^ 31"
  shows "sint (a - b) = uint a - uint b"
proof -
  have "sint (a - b) = sint (word_of_int (uint a - uint b) :: u32)" by simp
  also have "\<dots> = signed_take_bit 31 (uint a - uint b)" by (subst sint_sbintrunc') simp
  also have "\<dots> = uint a - uint b"
    using assms uint_nonnegative [of a] uint_nonnegative [of b] by (intro signed_take_bit_int_eq_self) linarith+
  finally show ?thesis .
qed

lemma elapsed_frames_plus:
  assumes v: "valid_fn last_fn" and d: "d < GSM_TDMA_HYPERFRAME div 2"
  shows "elapsed_frames (frame_plus last_fn d) last_fn = int d"
proof -
  have u: "uint last_fn < GSM_TDMA_HYPERFRAME" "uint (frame_plus last_fn d) < GSM_TDMA_HYPERFRAME"
    using v valid_frame_plus [OF v, of d] by (simp_all add: uint_less_hyperframe)
  have s: "sint (frame_plus last_fn d - last_fn) = uint (frame_plus last_fn d) - uint last_fn"
    by (rule sint_diff) (use u in simp_all)
  define n where "n = unat last_fn"
  have n: "n < GSM_TDMA_HYPERFRAME" "uint last_fn = int n" using v by (simp_all add: n_def)
  have "uint (frame_plus last_fn d) = int (unat (frame_plus last_fn d))" by simp
  also have "unat (frame_plus last_fn d) = (n + d) mod GSM_TDMA_HYPERFRAME" unfolding n_def by (rule unat_frame_plus [OF v])
  also have "\<dots> = (if n + d < GSM_TDMA_HYPERFRAME then n + d else n + d - GSM_TDMA_HYPERFRAME)"
    using n(1) d by (simp add: mod_if)
  finally show ?thesis using n d by (auto simp: elapsed_frames_def Let_def s)
qed

lemma burst_ids_append:
  "burst_ids ch bid mf c (m + n) = burst_ids ch bid mf c m
     @ map bid (filter (\<lambda>f. ch f = c) (map (\<lambda>i. frame_at mf ((m + i) mod GSM_TDMA_HYPERFRAME)) [0..<n]))"
proof -
  have "[0..<m + n] = [0..<m] @ map (\<lambda>i. m + i) [0..<n]" by (induction n) simp_all
  then show ?thesis by (simp add: burst_ids_def o_def)
qed

lemma next_ids:
  assumes mf: "mf_ok mf" and c: "c \<noteq> TRXC_IDLE" and fn: "valid_fn fn" and at: "dl_chan (frame_at mf (unat fn)) = c"
  shows "map snd (missed mf c fn n)
    = map (\<lambda>i. (dl_bid (frame_at mf (unat fn)) + Suc i) mod block_len c) [0..<length (missed mf c fn n)]"
proof -
  let ?u = "unat fn" and ?k = "block_len c"
  obtain b where b: "\<And>n. burst_ids dl_chan dl_bid mf c n
      = map (\<lambda>i. (b + i) mod ?k) [0..<length (burst_ids dl_chan dl_bid mf c n)]"
    using burst_ids_in_order [OF mf _ c, of dl_chan dl_bid] mf by (auto simp: mf_ok_def dl_rows_def)
  let ?pre = "burst_ids dl_chan dl_bid mf c ?u"
  let ?m = "length ?pre"
  have ms: "map snd (missed mf c fn n)
      = map dl_bid (filter (\<lambda>f. dl_chan f = c) (map (\<lambda>i. frame_at mf ((Suc ?u + i) mod GSM_TDMA_HYPERFRAME)) [0..<n]))"
    by (simp add: missed_def unat_frame_plus [OF fn] filter_map o_def)
  have one: "burst_ids dl_chan dl_bid mf c (Suc ?u) = ?pre @ [dl_bid (frame_at mf ?u)]"
    using burst_ids_append [of dl_chan dl_bid mf c ?u 1] at fn by simp
  have all: "burst_ids dl_chan dl_bid mf c (Suc ?u + n) = ?pre @ [dl_bid (frame_at mf ?u)] @ map snd (missed mf c fn n)"
    using burst_ids_append [of dl_chan dl_bid mf c "Suc ?u" n] one ms by simp
  have nth: "(?pre @ [dl_bid (frame_at mf ?u)] @ map snd (missed mf c fn n)) ! j = (b + j) mod ?k"
    if "j < ?m + 1 + length (missed mf c fn n)" for j
    using arg_cong [OF b [of "Suc ?u + n"], of "\<lambda>xs. xs ! j"] that unfolding all by (simp del: upt_Suc)
  have d: "dl_bid (frame_at mf ?u) = (b + ?m) mod ?k" using nth [of ?m] by simp
  show ?thesis
  proof (rule nth_equalityI)
    fix i assume "i < length (map snd (missed mf c fn n))"
    then have "map snd (missed mf c fn n) ! i = (b + (?m + 1 + i)) mod ?k"
      using nth [of "?m + 1 + i"] by (simp add: nth_append)
    also have "\<dots> = ((b + ?m) mod ?k + Suc i) mod ?k"
      unfolding mod_add_left_eq by (simp add: add.assoc)
    finally show "map snd (missed mf c fn n) ! i
        = map (\<lambda>i. (dl_bid (frame_at mf ?u) + Suc i) mod ?k) [0..<length (missed mf c fn n)] ! i"
      using \<open>i < _\<close> d by simp
  qed simp
qed

lemma next_bid:
  assumes mf: "mf_ok mf" and c: "c \<noteq> TRXC_IDLE" and fn: "valid_fn fn" and at: "dl_chan (frame_at mf (unat fn)) = c"
    and n: "dl_chan (frame_at mf (unat (frame_plus fn (Suc n)))) = c"
  shows "dl_bid (frame_at mf (unat (frame_plus fn (Suc n))))
    = (dl_bid (frame_at mf (unat fn)) + Suc (length (missed mf c fn n))) mod block_len c"
proof -
  have "missed mf c fn (Suc n) = missed mf c fn n @ [(frame_plus fn (Suc n), dl_bid (frame_at mf (unat (frame_plus fn (Suc n)))))]"
    using n by (simp add: missed_def)
  then show ?thesis using next_ids [OF assms(1-4), of "Suc n"] by simp
qed

lemma layouts_period: "mf \<in> set layouts \<Longrightarrow> period mf \<le> 104"
proof -
  have "list_all (\<lambda>mf. period mf \<le> 104) layouts"
    unfolding layouts_def list.pred_inject by (simp add: mframe_sel)
  then show "mf \<in> set layouts \<Longrightarrow> period mf \<le> 104" by (simp add: list_all_iff)
qed

text \<open>
  C15. Lost frames are compensated exactly. When a burst of a channel arrives \<open>d\<close> frames
  after the last one, also across the wrap of the frame number, and \<open>d\<close> is at most one
  period, then the handler is first called with a substitute burst for every frame of this
  channel between the two, each once and in order, under its own frame number and burst id,
  and counted as lost; then with the burst itself. The ids it sees continue those before
  without a gap: modulo the block length they are \<open>b + 1\<close>, \<open>b + 2\<close>, up to the burst's.
\<close>

theorem lost_frames_compensated:
  assumes "wf_codec cd" "mf \<in> set layouts" "chan_config mf \<noteq> GSM_PCHAN_NONE"
    and "wf_lchan l" "active l" "served_by_rx h l" "num_proc l \<noteq> 0"
    and "valid_fn (last_proc l)" "dl_chan (frame_at mf (unat (last_proc l))) = lchan_type l"
    and "0 < d" "d \<le> period mf" "fn = frame_plus (last_proc l) d"
    and "dl_chan (frame_at mf (unat fn)) = lchan_type l"
  shows "let lost = missed mf (lchan_type l) (last_proc l) (d - 1) in
    rx_burst_lchan cd h fn bid tn mf bits meas trx l = do {
      (trx, l, evs) \<leftarrow> deliver cd h tn lost trx l;
      bits \<leftarrow> (if a5_algo l \<noteq> 0 then sched_trx_a5_burst_dec cd l fn bits else Some bits);
      (rc, trx, l, evs') \<leftarrow> rx_call cd h tn trx l fn bid bits meas;
      Some (0, trx, l\<lparr>last_proc := fn, num_proc := (if num_proc l + 1 = 0 then 1 else num_proc l + 1)\<rparr>, evs @ evs')
    }
    \<and> map snd lost @ [dl_bid (frame_at mf (unat fn))]
      = map (\<lambda>i. (dl_bid (frame_at mf (unat (last_proc l))) + Suc i) mod block_len (lchan_type l)) [0..<Suc (length lost)]"
proof -
  have mf: "mf_ok mf" by (rule layouts_mf_ok [OF assms(2,3)])
  have c: "lchan_type l \<noteq> TRXC_IDLE" using no_idle_handler(2) assms(6) by blast
  have "d < GSM_TDMA_HYPERFRAME div 2" using layouts_period [OF assms(2)] assms(11) by simp
  note e = elapsed_frames_plus [OF assms(8) this, folded assms(12)]
  have loss: "subst_frame_loss cd h fn tn mf trx l = do {
      (trx, l, evs) \<leftarrow> deliver cd h tn (missed mf (lchan_type l) (last_proc l) (d - 1)) trx l;
      Some (0, trx, l, evs) }"
    using assms(7,10,11) by (simp add: subst_frame_loss_def e Let_def subst_loop_deliver [OF assms(1) mf assms(4-6)] nat_diff_distrib)
  show ?thesis
    unfolding Let_def rx_burst_lchan_def loss
    using next_ids [OF mf c assms(8,9), of "d - 1"] next_bid [OF mf c assms(8,9), of "d - 1"] assms(10,13)
    unfolding assms(12)
    by (intro conjI) (simp_all add: split_def Option.bind_assoc cong: if_cong)
qed

definition demo_rx_lchan :: trx_lchan_state where
  "demo_rx_lchan = (fresh_lchan TRXC_SDCCH8_0)\<lparr>num_proc := 1, last_proc := 0\<rparr>"

theorem lost_frames_compensated_witness:
  "\<exists>mf \<in> set layouts. chan_config mf = GSM_PCHAN_SDCCH8_SACCH8C \<and>
    rx_burst_lchan fixed_codec RX_DATA 3 3 2 mf (replicate 148 0) meas0 trx_zero demo_rx_lchan = do {
      (trx, l, evs) \<leftarrow> deliver fixed_codec RX_DATA 2 [(1, 1), (2, 2)] trx_zero demo_rx_lchan;
      bits \<leftarrow> (if a5_algo l \<noteq> 0 then sched_trx_a5_burst_dec fixed_codec l 3 (replicate 148 0) else Some (replicate 148 0));
      (rc, trx, l, evs') \<leftarrow> rx_call fixed_codec RX_DATA 2 trx l 3 3 bits meas0;
      Some (0, trx, l\<lparr>last_proc := 3, num_proc := (if num_proc l + 1 = 0 then 1 else num_proc l + 1)\<rparr>, evs @ evs')
    }"
proof -
  let ?mf = "mframe GSM_PCHAN_SDCCH8_SACCH8C ''SDCCH/8+SACCH/8'' 102 0xff m64_sdcch8 frame_sdcch8"
  have mf: "?mf \<in> set layouts" by (simp only: layouts_def list.set insert_iff simp_thms)
  have inc: "frame_plus 0 (Suc 0) = 1" "frame_plus 0 2 = 2" "frame_plus 0 3 = 3"
    by (simp_all add: word_unat_eq_iff unat_frame_plus)
  have wf: "wf_lchan demo_rx_lchan"
    using wf_fresh_lchan [of TRXC_SDCCH8_0] by (simp add: demo_rx_lchan_def wf_lchan_def cache_ok_def mr_cached_def)
  have ms: "missed ?mf TRXC_SDCCH8_0 0 2 = [(1, 1), (2, 2)]"
    by (simp add: missed_def inc frame_at_def mframe_sel frame_sdcch8_def upt_rec numeral_2_eq_2 [symmetric])
  from lost_frames_compensated [OF wf_fixed_codec mf _ wf, where h = RX_DATA and d = 3 and fn = 3 and bid = 3
      and tn = 2 and bits = "replicate 148 0" and meas = meas0 and trx = trx_zero]
  show ?thesis
    using ms inc
    by (intro bexI [OF _ mf])
      (simp add: mframe_sel frame_at_def frame_sdcch8_def demo_rx_lchan_def fresh_lchan_def new_lchan_def Let_def)
qed

end
