(* ===== verification/SchedTrxAdmin.thy ===== *)
theory SchedTrxAdmin
  imports SchedTrxProps
begin

text \<open>
  What the operations of the scheduler core compute: the requests of one frame, ciphering as
  a function on bursts and its round trip, the switching of channels as a map over the
  channels of a timeslot, and what a refused configuration leaves behind.
\<close>

section \<open>Ciphering\<close>

text \<open>The keystream bit that covers a position of the burst: 57 bits on each side of the
  stealing flags and the training sequence.\<close>

definition cipher_pos :: "nat \<Rightarrow> nat option" where
  "cipher_pos i = (if 3 \<le> i \<and> i < 60 then Some (i - 3)
    else if 88 \<le> i \<and> i < 145 then Some (i - 31) else None)"

definition ciphered :: "('a \<Rightarrow> u8 \<Rightarrow> 'a) \<Rightarrow> u8 list \<Rightarrow> 'a list \<Rightarrow> 'a list" where
  "ciphered f ks b = map (\<lambda>i. case cipher_pos i of None \<Rightarrow> b ! i | Some j \<Rightarrow> f (b ! i) (ks ! j)) [0..<length b]"

lemma update_keep: "i \<noteq> j \<Longrightarrow> c[i := x, j := c ! j] = c[i := x]"
  by (simp add: list_update_swap [of i j])

lemma cipher_loop:
  assumes step: "\<And>i c. step i c = (let c = c[i + 3 := f (c ! (i + 3)) (ks ! i)] in c[i + 88 := f (c ! (i + 88)) (ks ! (i + 57))])"
    and len: "145 \<le> length b" and n: "n \<le> 57"
  shows "fold step [0..<n] b = map (\<lambda>i. if i < 3 + n \<and> 3 \<le> i then f (b ! i) (ks ! (i - 3))
      else if 88 \<le> i \<and> i < 88 + n then f (b ! i) (ks ! (i - 31)) else b ! i) [0..<length b]"
  using n
proof (induction n)
  case 0
  show ?case by (rule nth_equalityI) auto
next
  case (Suc n)
  then show ?case using len by (auto simp: step Let_def nth_list_update add.commute [of n] intro!: nth_equalityI)
qed

lemma cipher_loop_spec:
  assumes "\<And>i c. step i c = (let c = c[i + 3 := f (c ! (i + 3)) (ks ! i)] in c[i + 88 := f (c ! (i + 88)) (ks ! (i + 57))])"
    and "145 \<le> length b"
  shows "fold step [0..<57] b = ciphered f ks b"
  unfolding cipher_loop [OF assms order_refl] ciphered_def by (auto simp: cipher_pos_def)

lemma a5_burst_enc_spec:
  assumes "osmo_a5 cd (a5_algo l) (a5_key l) (br_fn br) = (dl, ul)" "length ul = 114" "145 \<le> length (br_burst br)"
  shows "sched_trx_a5_burst_enc cd l br = Some (br\<lparr>br_burst := ciphered (XOR) ul (br_burst br)\<rparr>)"
  using assms(1,2) by (simp add: sched_trx_a5_burst_enc_def Let_def assms(3) linorder_not_less
      cipher_loop_spec [where f = "(XOR)" and ks = ul, OF _ assms(3)])

lemma a5_burst_dec_spec:
  assumes "osmo_a5 cd (a5_algo l) (a5_key l) fn = (dl, ul)" "length dl = 114" "145 \<le> length b"
  shows "sched_trx_a5_burst_dec cd l fn b = Some (ciphered (\<lambda>x k. if k \<noteq> 0 then - x else x) dl b)"
proof -
  have "fold (\<lambda>i b.
       let b = (if dl ! i \<noteq> 0 then b[i + 3 := - (b ! (i + 3))] else b)
       in if dl ! (i + 57) \<noteq> 0 then b[i + 88 := - (b ! (i + 88))] else b) [0..<57] b
      = ciphered (\<lambda>x k. if k \<noteq> 0 then - x else x) dl b"
    by (rule cipher_loop_spec [OF _ assms(3)]) (simp add: Let_def update_keep)
  then show ?thesis using assms by (simp add: sched_trx_a5_burst_dec_def)
qed

text \<open>
  C17. Ciphering and deciphering. The burst a channel in ciphering mode transmits differs
  from the plain one in the 114 payload bits only, which are the plain bits XOR the uplink
  keystream of the frame; the tail bits, the stealing flags and the training sequence are
  sent in clear. A peer that generates the keystreams with the directions swapped recovers
  exactly the plain burst from it, as soft bits, with \<open>sched_trx_a5_burst_dec\<close>.
\<close>

theorem a5_burst_roundtrip:
  assumes "\<forall>fn. osmo_a5 cd' (a5_algo l) (a5_key l) fn = prod.swap (osmo_a5 cd (a5_algo l) (a5_key l) fn)"
    and "length (snd (osmo_a5 cd (a5_algo l) (a5_key l) (br_fn br))) = 114"
    and "set (snd (osmo_a5 cd (a5_algo l) (a5_key l) (br_fn br))) \<subseteq> {0, 1}"
    and "145 \<le> length (br_burst br)" "set (br_burst br) \<subseteq> {0, 1}"
  shows "\<exists>br'. sched_trx_a5_burst_enc cd l br = Some br' \<and> same_req br br' \<and> br_burst_len br' = br_burst_len br
    \<and> (\<forall>i < length (br_burst br). cipher_pos i = None \<longrightarrow> br_burst br' ! i = br_burst br ! i)
    \<and> (\<forall>i < length (br_burst br). \<forall>j. cipher_pos i = Some j \<longrightarrow>
         br_burst br' ! i = br_burst br ! i XOR snd (osmo_a5 cd (a5_algo l) (a5_key l) (br_fn br)) ! j)
    \<and> sched_trx_a5_burst_dec cd' l (br_fn br) (map soft (br_burst br')) = Some (map soft (br_burst br))"
proof -
  obtain dl ul where ks: "osmo_a5 cd (a5_algo l) (a5_key l) (br_fn br) = (dl, ul)" by fastforce
  note ul = assms(2,3) [unfolded ks snd_conv]
  have soft: "(if k \<noteq> 0 then - soft (x XOR k) else soft (x XOR k)) = soft x" if "x \<in> {0, 1}" "k \<in> {0, 1}" for x k
    using that by (auto simp: soft_def)
  have eq: "ciphered (\<lambda>x k. if k \<noteq> 0 then - x else x) ul (map soft (ciphered (XOR) ul (br_burst br)))
      = map soft (br_burst br)"
  proof (rule nth_equalityI)
    fix i assume "i < length (ciphered (\<lambda>x k. if k \<noteq> 0 then - x else x) ul (map soft (ciphered (XOR) ul (br_burst br))))"
    then have i: "i < length (br_burst br)" by (simp add: ciphered_def)
    then have x: "br_burst br ! i \<in> {0, 1}" using assms(5) nth_mem by blast
    have "j < 114" if "cipher_pos i = Some j" for j using that by (auto simp: cipher_pos_def split: if_splits)
    then have "ul ! j \<in> {0, 1}" if "cipher_pos i = Some j" for j
      using subsetD [OF ul(2) nth_mem, of j] that ul(1) by simp
    then show "ciphered (\<lambda>x k. if k \<noteq> 0 then - x else x) ul (map soft (ciphered (XOR) ul (br_burst br))) ! i
        = map soft (br_burst br) ! i"
      using i soft [OF x, of "ul ! the (cipher_pos i)"] by (cases "cipher_pos i") (simp_all add: ciphered_def split: if_splits)
  qed (simp add: ciphered_def)
  have len: "145 \<le> length (map soft (ciphered (XOR) ul (br_burst br)))"
    using assms(4) by (simp add: ciphered_def)
  have "osmo_a5 cd' (a5_algo l) (a5_key l) (br_fn br) = (ul, dl)" using assms(1) ks by simp
  note dec = a5_burst_dec_spec [OF this ul(1) len, unfolded eq]
  let ?br = "br\<lparr>br_burst := ciphered (XOR) ul (br_burst br)\<rparr>"
  have "ciphered (XOR) ul (br_burst br) ! i = (case cipher_pos i of None \<Rightarrow> br_burst br ! i | Some j \<Rightarrow> br_burst br ! i XOR ul ! j)"
    if "i < length (br_burst br)" for i using that by (simp add: ciphered_def split: option.split)
  moreover have "same_req br ?br" by (simp add: same_req_def ciphered_def)
  ultimately show ?thesis
    using a5_burst_enc_spec [OF ks ul(1) assms(4)] dec unfolding ks snd_conv
    by (intro exI [of _ ?br]) simp
qed


definition demo_a5_codec :: codec where
  "demo_a5_codec = fixed_codec\<lparr>osmo_a5 := \<lambda>al k fn. (replicate 114 0, 1 # replicate 113 0)\<rparr>"

theorem a5_burst_roundtrip_witness:
  "\<exists>br'. sched_trx_a5_burst_enc demo_a5_codec (fresh_lchan TRXC_TCHF) (new_req 7 1 0 0) = Some br'
    \<and> br_burst br' ! 3 = 1 \<and> br_burst br' ! 4 = 0
    \<and> sched_trx_a5_burst_dec (demo_a5_codec\<lparr>osmo_a5 := \<lambda>al k fn. prod.swap (osmo_a5 demo_a5_codec al k fn)\<rparr>)
        (fresh_lchan TRXC_TCHF) 7 (map soft (br_burst br')) = Some (replicate 444 127)"
proof -
  have "cipher_pos 3 = Some 0" "cipher_pos 4 = Some 1" by (simp_all add: cipher_pos_def)
  then show ?thesis
    using a5_burst_roundtrip [of "demo_a5_codec\<lparr>osmo_a5 := \<lambda>al k fn. prod.swap (osmo_a5 demo_a5_codec al k fn)\<rparr>"
        "fresh_lchan TRXC_TCHF" demo_a5_codec "new_req 7 1 0 0"]
    by (force simp: demo_a5_codec_def new_req_def soft_def)
qed

section \<open>Switching the logical channels of a timeslot\<close>

text \<open>What a request does to one channel state.\<close>

definition switch_lchan :: "u8 \<Rightarrow> bool \<Rightarrow> u8 \<Rightarrow> trx_lchan_state \<Rightarrow> trx_lchan_state" where
  "switch_lchan chan_nr act mode l =
    (if ld_chan_nr (trx_lchan_desc (lchan_type l)) \<noteq> chan_nr AND 0xf8 then l
     else if act then (if active l then l else activated l)\<lparr>tch_mode := mode\<rparr>
     else if active l then (sched_trx_reset_lchan l)\<lparr>active := False\<rparr> else l)"

definition switch_fails :: "u8 \<Rightarrow> bool \<Rightarrow> trx_lchan_state \<Rightarrow> bool" where
  "switch_fails chan_nr act l \<longleftrightarrow>
    ld_chan_nr (trx_lchan_desc (lchan_type l)) = chan_nr AND 0xf8 \<and> active l = act"

lemma nth_lchan:
  assumes "distinct (map lchan_type ls)" "j < length ls"
  shows "find (\<lambda>l. lchan_type l = lchan_type (ls ! j)) ls = Some (ls ! j)"
    and "update_first (\<lambda>l. lchan_type l = lchan_type (ls ! j)) y ls = ls[j := y]"
  using assms
proof (atomize (full), induction ls arbitrary: j)
  case (Cons a ls)
  have "lchan_type a \<noteq> lchan_type (ls ! k)" if "k < length ls" for k
    using Cons.prems(1) nth_mem [OF that] by (force simp: image_iff)
  then show ?case using Cons by (cases j) simp_all
qed simp

lemma lchan_type_switch [simp]: "lchan_type (switch_lchan n a m l) = lchan_type l"
  by (simp add: switch_lchan_def)

lemma set_lchans_loop_spec:
  assumes "lchans ts = Some (xs @ ys)" "distinct (map lchan_type (xs @ ys))" "rc = 0 \<or> rc = - EINVAL"
  shows "set_lchans_loop chan_nr act mode (length xs) (length ys) rc ts =
    Some (if rc \<noteq> 0 \<or> (\<exists>l \<in> set ys. switch_fails chan_nr act l) then - EINVAL else 0,
          ts\<lparr>lchans := Some (xs @ map (switch_lchan chan_nr act mode) ys)\<rparr>)"
  using assms
proof (induction ys arbitrary: xs rc ts)
  case Nil
  then show ?case by auto
next
  case (Cons l ys)
  let ?l = "switch_lchan chan_nr act mode l"
  have j: "mem_at (xs @ l # ys) (length xs) = Some l" by (simp add: mem_at_def)
  have nth: "find (\<lambda>x. lchan_type x = lchan_type l) (xs @ l # ys) = Some l"
    "update_first (\<lambda>x. lchan_type x = lchan_type l) y (xs @ l # ys) = xs @ y # ys" for y
    using nth_lchan(1) [OF Cons.prems(2), of "length xs"] nth_lchan(2) [OF Cons.prems(2), of "length xs" y]
    by (simp_all add: nth_append)
  have IH: "set_lchans_loop chan_nr act mode (Suc (length xs)) (length ys) r (ts\<lparr>lchans := Some (xs @ ?l # ys)\<rparr>)
    = Some (if r \<noteq> 0 \<or> (\<exists>l \<in> set ys. switch_fails chan_nr act l) then - EINVAL else 0,
          ts\<lparr>lchans := Some (xs @ ?l # map (switch_lchan chan_nr act mode) ys)\<rparr>)" if "r = 0 \<or> r = - EINVAL" for r
    using Cons.IH [of "ts\<lparr>lchans := Some (xs @ ?l # ys)\<rparr>" "xs @ [?l]" r] Cons.prems(2) that by simp
  have same: "ts\<lparr>lchans := Some (xs @ l # ys)\<rparr> = ts" using Cons.prems(1) by simp
  have or: "rc OR - EINVAL = - EINVAL" using Cons.prems(3) by auto
  show ?case
    using IH [OF Cons.prems(3)] IH [of "- EINVAL"] Cons.prems(1,3) j nth same or
    by (cases "ld_chan_nr (trx_lchan_desc (lchan_type l)) = chan_nr AND 0xf8"; cases act; cases "active l")
      (simp_all add: switch_lchan_def switch_fails_def sched_trx_activate_lchan_def sched_trx_deactivate_lchan_def
        sched_trx_find_lchan_def put_lchan_def)
qed

text \<open>
  C18. Switching channels by their channel number acts on exactly the addressed channels of
  the timeslot, the dedicated channel and its associated control channel together, and on
  nothing else: an activation allocates the buffers of those that were not active and sets
  the channel mode of all of them, a deactivation drops everything of those that were
  active. The request reports an error exactly if one of them already was as requested, and
  is carried out for the others even so.
\<close>

theorem set_lchans_exact:
  assumes "wf_ts i ts" "lchans ts = Some ls"
  shows "sched_trx_set_lchans (Some ts) chan_nr act mode =
      Some (if \<exists>l \<in> set ls. switch_fails chan_nr act l then - EINVAL else 0,
            Some (ts\<lparr>lchans := Some (map (switch_lchan chan_nr act mode) ls)\<rparr>))
    \<and> (\<forall>l \<in> set ls. active (switch_lchan chan_nr act mode l) =
      (if ld_chan_nr (trx_lchan_desc (lchan_type l)) = chan_nr AND 0xf8 then act else active l))"
proof (rule conjI)
  have "distinct (map lchan_type ([] @ ls))" using assms by (auto simp: wf_ts_def)
  from set_lchans_loop_spec [of ts "[]", OF _ this, of 0 chan_nr act mode]
  show "sched_trx_set_lchans (Some ts) chan_nr act mode =
      Some (if \<exists>l \<in> set ls. switch_fails chan_nr act l then - EINVAL else 0,
            Some (ts\<lparr>lchans := Some (map (switch_lchan chan_nr act mode) ls)\<rparr>))"
    using assms(2) by (simp add: sched_trx_set_lchans_def)
  show "\<forall>l \<in> set ls. active (switch_lchan chan_nr act mode l) =
      (if ld_chan_nr (trx_lchan_desc (lchan_type l)) = chan_nr AND 0xf8 then act else active l)"
    by (simp add: switch_lchan_def activated_def Let_def)
qed

definition demo_sdcch_ts :: trx_ts where
  "demo_sdcch_ts = \<lparr>ts_index = 2, mf_layout = None,
     lchans = Some [new_lchan TRXC_SDCCH8_1, new_lchan TRXC_SDCCH8_2, new_lchan TRXC_SACCH8_1], tx_prims = Some []\<rparr>"

theorem set_lchans_exact_witness:
  "sched_trx_set_lchans (Some demo_sdcch_ts) 0x4a True 0 =
    Some (0, Some (demo_sdcch_ts\<lparr>lchans := Some [activated (new_lchan TRXC_SDCCH8_1),
       new_lchan TRXC_SDCCH8_2, activated (new_lchan TRXC_SACCH8_1)]\<rparr>))"
proof -
  have w: "wf_ts 2 demo_sdcch_ts"
    by (simp add: wf_ts_def demo_sdcch_ts_def wf_new_lchan) (simp add: new_lchan_def)
  have l: "lchans demo_sdcch_ts = Some [new_lchan TRXC_SDCCH8_1, new_lchan TRXC_SDCCH8_2, new_lchan TRXC_SACCH8_1]"
    by (simp add: demo_sdcch_ts_def)
  show ?thesis
    unfolding set_lchans_exact [OF w l, THEN conjunct1]
    by (simp add: switch_lchan_def switch_fails_def new_lchan_def activated_def Let_def)
qed

section \<open>A configuration that is refused\<close>

lemma del_all_ts_poisoned:
  "tn \<in> set tns \<Longrightarrow> mem_at (ts_list trx) tn = Some (Some ts) \<Longrightarrow> lchans ts = None \<Longrightarrow> del_all_ts tns trx = None"
proof (induction tns arbitrary: trx)
  case (Cons t tns)
  show ?case
  proof (cases "t = tn")
    case True
    then show ?thesis
      using Cons.prems by (simp add: sched_trx_del_ts_def sched_trx_deactivate_all_lchans_def)
  next
    case False
    have "mem_at (ts_list trx') tn = Some (Some ts)" if "sched_trx_del_ts trx t = Some (trx', evs)" for trx' evs
      using that Cons.prems(2) False
      by (auto simp: sched_trx_del_ts_def mem_at_def bind_Some_iff split: if_splits option.splits)
    then show ?thesis
      using Cons False by (cases "sched_trx_del_ts trx t") (force simp: bind_None_iff)+
  qed
qed simp

text \<open>
  C19. A refused configuration poisons the timeslot. Asked for a combination that has no
  layout, on a timeslot not allocated yet, \<open>sched_trx_configure_ts\<close> reports
  \<open>-EINVAL\<close> but leaves the timeslot allocated, with no layout and with list heads that were
  never initialised. The operations that walk these lists then dereference a null pointer:
  deleting, resetting and configuring the timeslot, switching its channels, ciphering with a key
  that fits, resetting the scheduler and shutting it down. Those that look at the layout first
  do not: a received burst and a pushed primitive are refused as not configured, and a frame
  gets an empty burst request for the timeslot.
\<close>

theorem refused_configuration_crashes:
  assumes "wf_trx trx" "tn < TRX_TS_COUNT" "ts_list trx ! tn = None"
    and "\<not> supported_pchan config" "config \<noteq> GSM_PCHAN_NONE"
    and "unat key_len \<le> MAX_A5_KEY_LEN" "unat (prim_nr AND 0x7) = tn"
  shows "\<exists>trx'. sched_trx_configure_ts trx tn config = Some (- EINVAL, trx', [])
    \<and> ts_list trx' = (ts_list trx)[tn := Some (new_ts tn)]
    \<and> sched_trx_del_ts trx' tn = None \<and> sched_trx_reset_ts trx' tn = None
    \<and> sched_trx_configure_ts trx' tn config' = None
    \<and> sched_trx_set_lchans (ts_list trx' ! tn) chan_nr act mode = None
    \<and> sched_trx_start_ciphering (ts_list trx' ! tn) algo key key_len = None
    \<and> sched_trx_reset trx' clock = None \<and> sched_trx_shutdown trx' = None
    \<and> sched_trx_handle_rx_burst cd trx' tn fn burst meas = Some (- EINVAL, trx', [])
    \<and> sched_prim_push (ts_list trx') prim prim_nr = Some (- EINVAL, ts_list trx')
    \<and> frame_slot cd rnd trx' fn tn (new_ts tn) = Some (new_ts tn, new_req fn tn (tx_power trx') 0, [])"
proof -
  have none: "sched_mframe_layout config tn = None"
    using assms(2,4,5) mframe_layout_None_iff [OF assms(2)] by (auto simp: supported_pchan_def)
  have len: "length (ts_list trx) = 8" using assms(1) by (simp add: wf_trx_def)
  let ?t = "trx\<lparr>ts_list := (ts_list trx)[tn := Some (new_ts tn)]\<rparr>"
  note ts = assms(2) len mem_at_def new_ts_def
  have "sched_trx_configure_ts trx tn config = Some (- EINVAL, ?t, [])"
    using assms(3) none by (simp add: sched_trx_configure_ts_def sched_trx_add_ts_def ts)
  moreover have "sched_trx_del_ts ?t tn = None"
    by (simp add: sched_trx_del_ts_def sched_trx_deactivate_all_lchans_def ts)
  moreover have reset: "sched_trx_reset_ts ?t tn = None"
    by (simp add: sched_trx_reset_ts_def sched_prim_flush_queue_def ts)
  moreover have "sched_trx_configure_ts ?t tn config' = None"
    using reset by (simp add: sched_trx_configure_ts_def ts)
  moreover have "sched_trx_set_lchans (ts_list ?t ! tn) chan_nr act mode = None"
    by (simp add: sched_trx_set_lchans_def ts)
  moreover have "sched_trx_start_ciphering (ts_list ?t ! tn) algo key key_len = None"
    using assms(6) by (simp add: sched_trx_start_ciphering_def ts)
  moreover have "del_all_ts [0..<8] ?t = None"
    by (rule del_all_ts_poisoned [of tn _ _ "new_ts tn"]) (simp_all add: ts)
  moreover have "sched_trx_handle_rx_burst cd ?t tn fn burst meas = Some (- EINVAL, ?t, [])"
    by (simp add: sched_trx_handle_rx_burst_def ts)
  moreover have "sched_prim_push (ts_list ?t) prim prim_nr = Some (- EINVAL, ts_list ?t)"
    by (simp add: sched_prim_push_def assms(7) ts)
  moreover have "frame_slot cd rnd ?t fn tn (new_ts tn) = Some (new_ts tn, new_req fn tn (tx_power ?t) 0, [])"
    by (simp add: frame_slot_def ts)
  ultimately show ?thesis
    by (intro exI [of _ ?t]) (simp add: sched_trx_reset_def sched_trx_shutdown_def)
qed

theorem refused_configuration_crashes_witness:
  "\<exists>trx'. sched_trx_configure_ts trx_zero 3 GSM_PCHAN_OSMO_DYN = Some (- EINVAL, trx', [])
    \<and> sched_trx_del_ts trx' 3 = None \<and> sched_trx_shutdown trx' = None
    \<and> sched_trx_handle_rx_burst fixed_codec trx' 3 7 [] meas0 = Some (- EINVAL, trx', [])"
proof -
  have "wf_trx trx_zero" "ts_list trx_zero ! 3 = None" by (simp_all add: wf_trx_def trx_zero_def)
  then show ?thesis
    using refused_configuration_crashes [of trx_zero 3 GSM_PCHAN_OSMO_DYN 8 3 GSM_PCHAN_NONE 0 True 0 1 "[]" True
        fixed_codec 7 "[]" meas0]
    by (simp add: supported_pchan_def) blast
qed

section \<open>One frame of transmission\<close>

text \<open>
  C16. In every frame the transceiver is given exactly one burst request for each of the
  eight timeslots, in their order and after all confirmations to the upper layers, for the
  frame that is the configured advance ahead of the clock; each holds a whole burst or
  nothing, whatever is configured, activated, queued or ciphered on the timeslots.
\<close>

theorem frame_requests_complete:
  assumes "wf_codec cd" "wf_trx trx"
  shows "\<exists>trx' evs brs. sched_frame_clck_cb cd rnd trx = Some (trx', evs @ map TrxTxBurst brs) \<and> wf_trx trx'
    \<and> list_all to_l1ctl evs \<and> map br_tn brs = [0..<TRX_TS_COUNT]
    \<and> list_all (\<lambda>br. unat (br_fn br) = (unat (fn_counter_proc (sched trx)) + unat (fn_counter_advance (sched trx)))
                         mod 2 ^ 32 mod GSM_TDMA_HYPERFRAME
         \<and> br_burst_len br \<in> {0, GSM_BURST_LEN} \<and> length (br_burst br) = EDGE_BURST_LEN) brs"
proof -
  let ?fn = "gsm_tdma_fn_sum (fn_counter_proc (sched trx)) (fn_counter_advance (sched trx))"
  obtain tss brs evs where f: "sched_frame_clck_cb cd rnd trx = Some (trx\<lparr>ts_list := tss\<rparr>, evs @ map TrxTxBurst brs)"
    "wf_trx (trx\<lparr>ts_list := tss\<rparr>)" "list_all to_l1ctl evs" "list_all2 (slot_req ?fn) [0..<TRX_TS_COUNT] brs"
    using sched_frame_clck_cb_ok [OF assms, of rnd] by blast
  have fn: "unat ?fn = (unat (fn_counter_proc (sched trx)) + unat (fn_counter_advance (sched trx)))
                         mod 2 ^ 32 mod GSM_TDMA_HYPERFRAME"
    by (simp add: gsm_tdma_fn_sum_def unat_mod_distrib unat_word_ariths)
  have len: "length brs = 8" using f(4) by (auto simp: list_all2_conv_all_nth)
  have nth: "slot_req ?fn i (brs ! i)" if "i < 8" for i
    using f(4) that by (auto simp: list_all2_conv_all_nth)
  have "map br_tn brs = [0..<8]"
    using nth len by (intro nth_equalityI) (auto simp: slot_req_def)
  moreover have "slot_req ?fn (br_tn br) br" if br: "br \<in> set brs" for br
  proof -
    obtain i where "i < 8" "brs ! i = br" using br len by (auto simp: in_set_conv_nth)
    then show ?thesis using nth [of i] by (auto simp: slot_req_def)
  qed
  ultimately show ?thesis
    using f(1-3) fn by (intro exI conjI) (assumption | auto simp: list_all_iff slot_req_def)+
qed

theorem frame_requests_complete_witness:
  "\<exists>trx' evs brs. sched_frame_clck_cb fixed_codec (\<lambda>_ _. 0) trx_zero = Some (trx', evs @ map TrxTxBurst brs)
    \<and> map br_tn brs = [0, 1, 2, 3, 4, 5, 6, 7]"
proof -
  have "wf_trx trx_zero" by (simp add: wf_trx_def trx_zero_def)
  moreover have "[0..<8] = [0, 1, 2, 3, 4, 5, 6, 7 :: nat]" by (simp add: upt_rec)
  ultimately show ?thesis
    using frame_requests_complete [OF wf_fixed_codec, of trx_zero "\<lambda>_ _. 0"] by metis
qed

end
