(* ===== verification/ArfcnFreq.thy ===== *)
theory ArfcnFreq
  imports Prelude
begin

text \<open>
  Channel numbers and frequencies (\<open>gsm_utils.c\<close> of \<open>libosmocore\<close>): the table of the
  GSM bands, the conversion of an ARFCN with its band flag to a frequency in units of
  100 kHz, and back.
\<close>

record gsm_freq_range =
  arfcn_first :: u16
  arfcn_last :: u16
  freq_ul_first :: u16
  freq_dl_offset :: u16
  fr_flags :: u16

abbreviation (input) ARFCN_PCS :: u16 where "ARFCN_PCS \<equiv> 0x8000"
abbreviation (input) ARFCN_UPLINK :: u16 where "ARFCN_UPLINK \<equiv> 0x4000"
abbreviation (input) ARFCN_FLAG_MASK :: u16 where "ARFCN_FLAG_MASK \<equiv> 0xf000"

definition fr :: "u16 \<Rightarrow> u16 \<Rightarrow> u16 \<Rightarrow> u16 \<Rightarrow> u16 \<Rightarrow> gsm_freq_range" where
  "fr a b f d fl = \<lparr>arfcn_first = a, arfcn_last = b, freq_ul_first = f, freq_dl_offset = d, fr_flags = fl\<rparr>"

definition gsm_ranges :: "gsm_freq_range list" where
  "gsm_ranges =
    [fr 512 810 18502 800 ARFCN_PCS, fr 0 124 8900 450 0, fr 955 1023 8762 450 0, fr 128 251 8242 450 0,
     fr 512 885 17102 950 0, fr 259 293 4506 100 0, fr 306 340 4790 100 0, fr 350 425 8060 450 0,
     fr 438 511 7472 300 0]"

definition gsm_arfcn2freq10 :: "u16 \<Rightarrow> bool \<Rightarrow> u16" where
  "gsm_arfcn2freq10 arfcn uplink =
    (let fl = arfcn AND ARFCN_FLAG_MASK; n = arfcn AND NOT ARFCN_FLAG_MASK in
     case find (\<lambda>r. fl = fr_flags r \<and> arfcn_first r \<le> n \<and> n \<le> arfcn_last r) gsm_ranges of
       None \<Rightarrow> 0xffff
     | Some r \<Rightarrow>
         let ul = freq_ul_first r + 2 * (n - arfcn_first r)
         in if uplink then ul else ul + freq_dl_offset r)"

definition freq10_lo :: "bool \<Rightarrow> gsm_freq_range \<Rightarrow> u16" where
  "freq10_lo uplink r = (if uplink then freq_ul_first r else freq_ul_first r + freq_dl_offset r)"

definition gsm_freq102arfcn :: "u16 \<Rightarrow> bool \<Rightarrow> u16" where
  "gsm_freq102arfcn freq10 uplink =
    (let arfcn =
       (case find (\<lambda>r. freq10_lo uplink r \<le> freq10 \<and>
                     freq10 \<le> freq10_lo uplink r + 2 * (arfcn_last r - arfcn_first r)) gsm_ranges of
          None \<Rightarrow> 0xffff
        | Some r \<Rightarrow> (arfcn_first r + drop_bit 1 (freq10 - freq10_lo uplink r)) OR fr_flags r)
     in if uplink then arfcn OR ARFCN_UPLINK else arfcn)"

section \<open>The bands\<close>

lemma and_or_flags:
  assumes "unat (x :: u16) < 4096" "fl = 0 \<or> fl = ARFCN_PCS"
  shows "(x OR fl) AND ARFCN_FLAG_MASK = fl" "(x OR fl) AND NOT ARFCN_FLAG_MASK = x"
proof -
  have "bit (push_bit 12 (mask 4) :: u16) i \<longleftrightarrow> 12 \<le> i \<and> i < 16" for i by (auto simp: bit_simps)
  moreover define M :: u16 where "M = ARFCN_FLAG_MASK"
  ultimately have m: "bit M i \<longleftrightarrow> 12 \<le> i \<and> i < 16" for i by (simp add: mask_eq_exp_minus_1)
  have "bit (push_bit 15 1 :: u16) i \<longleftrightarrow> i = 15" for i by (simp only: bit_push_bit_iff bit_1_iff) auto
  moreover have "push_bit 15 1 = (ARFCN_PCS :: u16)" by simp
  ultimately have p: "bit (ARFCN_PCS :: u16) i \<longleftrightarrow> i = 15" for i by metis
  have "take_bit 12 x = x" using assms(1) by (simp add: word_unat_eq_iff unsigned_take_bit_eq take_bit_nat_eq_self)
  then have b: "\<not> bit x i" if "12 \<le> i" for i using bit_take_bit_iff [of 12 x i] that by simp
  show "(x OR fl) AND ARFCN_FLAG_MASK = fl" "(x OR fl) AND NOT ARFCN_FLAG_MASK = x"
    unfolding M_def [symmetric] using assms(2)
    by (auto intro!: bit_word_eqI simp: bit_and_iff bit_or_iff bit_not_iff m p b simp del: bit_numeral_word_iff)
qed

lemma arfcn_split: "(x AND NOT ARFCN_FLAG_MASK) OR (x AND ARFCN_FLAG_MASK) = (x :: u16)"
  by (auto intro!: bit_word_eqI simp: bit_simps)

lemma unat_steps:
  fixes n f l :: u16
  assumes "f \<le> n" "unat l + 2 * (unat n - unat f) < 2 ^ 16"
  shows "unat (l + 2 * (n - f)) = unat l + 2 * (unat n - unat f)"
    and "drop_bit 1 (2 * (n - f)) = n - f"
proof -
  define d where "d = n - f"
  have s: "unat d = unat n - unat f" unfolding d_def using assms(1) by (simp add: unat_sub word_le_nat_alt)
  show "unat (l + 2 * (n - f)) = unat l + 2 * (unat n - unat f)"
    unfolding d_def [symmetric] using assms(2) s by (simp add: unat_word_ariths)
  have "unat (2 * d) = 2 * unat d" using assms(2) by (simp add: unat_word_ariths s)
  then show "drop_bit 1 (2 * (n - f)) = n - f"
    unfolding d_def [symmetric] by (simp only: word_unat_eq_iff unat_drop_bit_eq) (simp add: drop_bit_eq_div)
qed


section \<open>Conversions within a band\<close>

lemma range_cases:
  assumes "r \<in> set gsm_ranges"
  obtains "r = fr 512 810 18502 800 ARFCN_PCS" | "r = fr 0 124 8900 450 0" | "r = fr 955 1023 8762 450 0"
  | "r = fr 128 251 8242 450 0" | "r = fr 512 885 17102 950 0" | "r = fr 259 293 4506 100 0"
  | "r = fr 306 340 4790 100 0" | "r = fr 350 425 8060 450 0" | "r = fr 438 511 7472 300 0"
  using assms unfolding gsm_ranges_def by auto

lemma arfcn2freq10_range:
  assumes "r \<in> set gsm_ranges" "arfcn_first r \<le> n" "n \<le> arfcn_last r"
  shows "gsm_arfcn2freq10 (n OR fr_flags r) up = freq10_lo up r + 2 * (n - arfcn_first r)"
proof -
  have n: "unat n < 4096"
    using assms(3) by (cases rule: range_cases [OF assms(1)]) (simp_all add: fr_def word_le_nat_alt)
  have "fr_flags r = 0 \<or> fr_flags r = ARFCN_PCS" by (cases rule: range_cases [OF assms(1)]) (simp_all add: fr_def)
  note fl = and_or_flags [OF n this]
  have "find (\<lambda>q. fr_flags r = fr_flags q \<and> arfcn_first q \<le> n \<and> n \<le> arfcn_last q) gsm_ranges = Some r"
    using assms(2,3) by (cases rule: range_cases [OF assms(1)]) (simp_all add: gsm_ranges_def fr_def word_le_nat_alt)
  then show ?thesis
    unfolding gsm_arfcn2freq10_def fl Let_def by (simp add: freq10_lo_def add.commute add.left_commute)
qed

lemma freq102arfcn_range:
  assumes "r \<in> set gsm_ranges" "arfcn_first r \<le> n" "n \<le> arfcn_last r"
  shows "gsm_freq102arfcn (freq10_lo up r + 2 * (n - arfcn_first r)) up = (n OR fr_flags r) OR (if up then ARFCN_UPLINK else 0)"
proof -
  let ?f = "freq10_lo up r + 2 * (n - arfcn_first r)"
  have "unat (freq10_lo up r) + 2 * (unat n - unat (arfcn_first r)) < 2 ^ 16"
    using assms(2,3) by (cases rule: range_cases [OF assms(1)]; cases up) (simp_all add: fr_def freq10_lo_def word_le_nat_alt)
  note f = unat_steps [OF assms(2) this]
  have fd: "find (\<lambda>q. freq10_lo up q \<le> ?f \<and> ?f \<le> freq10_lo up q + 2 * (arfcn_last q - arfcn_first q)) gsm_ranges = Some r"
    using assms(2,3) f(1) unfolding word_le_nat_alt f(1)
    by (cases rule: range_cases [OF assms(1)]; cases up) (simp_all add: gsm_ranges_def fr_def freq10_lo_def)
  show ?thesis
    unfolding gsm_freq102arfcn_def Let_def fd option.case add_diff_cancel_left' f(2) by simp
qed

lemma arfcn2freq10_SomeD:
  assumes "gsm_arfcn2freq10 a up \<noteq> 0xffff"
  obtains r n where "r \<in> set gsm_ranges" "arfcn_first r \<le> n" "n \<le> arfcn_last r" "a = n OR fr_flags r"
proof (cases "find (\<lambda>r. a AND ARFCN_FLAG_MASK = fr_flags r \<and> arfcn_first r \<le> a AND NOT ARFCN_FLAG_MASK
    \<and> a AND NOT ARFCN_FLAG_MASK \<le> arfcn_last r) gsm_ranges")
  case None
  then show thesis using assms unfolding gsm_arfcn2freq10_def Let_def None option.case by simp
next
  case (Some r)
  note r = find_SomeD [OF Some]
  show thesis
    by (rule that [of r "a AND NOT ARFCN_FLAG_MASK"]) (use r arfcn_split [of a] in auto)
qed

lemma freq_back:
  assumes "gsm_arfcn2freq10 a up \<noteq> 0xffff"
  shows "gsm_freq102arfcn (gsm_arfcn2freq10 a up) up = a OR (if up then ARFCN_UPLINK else 0)"
proof -
  obtain r n where r: "r \<in> set gsm_ranges" "arfcn_first r \<le> n" "n \<le> arfcn_last r" "a = n OR fr_flags r"
    by (rule arfcn2freq10_SomeD [OF assms])
  show ?thesis unfolding r(4) arfcn2freq10_range [OF r(1-3)] by (rule freq102arfcn_range [OF r(1-3)])
qed

text \<open>
  C20. Every channel number of a band, with the flag of the band, has a frequency on the
  downlink and on the uplink, both within 16 bits and a duplex distance apart; the
  frequency determines the channel number, which the inverse conversion returns, with the
  uplink flag on the uplink. No two bands share a frequency on the same link direction.
\<close>

theorem arfcn_freq_roundtrip:
  assumes "gsm_arfcn2freq10 a up \<noteq> 0xffff"
  shows "gsm_freq102arfcn (gsm_arfcn2freq10 a up) up = a OR (if up then ARFCN_UPLINK else 0)
    \<and> (\<exists>r \<in> set gsm_ranges. gsm_arfcn2freq10 a False = gsm_arfcn2freq10 a True + freq_dl_offset r)"
proof (rule conjI)
  obtain r n where r: "r \<in> set gsm_ranges" "arfcn_first r \<le> n" "n \<le> arfcn_last r" "a = n OR fr_flags r"
    by (rule arfcn2freq10_SomeD [OF assms])
  show "gsm_freq102arfcn (gsm_arfcn2freq10 a up) up = a OR (if up then ARFCN_UPLINK else 0)"
    by (rule freq_back [OF assms])
  show "\<exists>r \<in> set gsm_ranges. gsm_arfcn2freq10 a False = gsm_arfcn2freq10 a True + freq_dl_offset r"
    unfolding r(4) arfcn2freq10_range [OF r(1-3)] by (rule bexI [OF _ r(1)]) (simp add: freq10_lo_def)
qed

theorem arfcn_freq_roundtrip_witness:
  "gsm_arfcn2freq10 (513 OR ARFCN_PCS) True = 18504
    \<and> gsm_freq102arfcn (gsm_arfcn2freq10 (513 OR ARFCN_PCS) True) True = (513 OR ARFCN_PCS) OR ARFCN_UPLINK"
proof -
  have "gsm_arfcn2freq10 (513 OR ARFCN_PCS) True = 18504"
    by (simp add: gsm_arfcn2freq10_def gsm_ranges_def fr_def)
  then show ?thesis using arfcn_freq_roundtrip [of "513 OR ARFCN_PCS" True] by simp
qed

end
