(* ===== verification/CText.thy ===== *)
theory CText
  imports Prelude
begin

text \<open>
  What the control interface uses of the C library's strings: the contents of a character
  buffer up to its terminator, decimal output of \<open>printf\<close> and decimal input of
  \<open>sscanf\<close>.
\<close>

abbreviation (input) NUL :: char where "NUL \<equiv> CHR 0x00"

definition cstr :: "string \<Rightarrow> string" where
  "cstr buf = takeWhile (\<lambda>c. c \<noteq> NUL) buf"

text \<open>\<open>strncmp\<close> as the code uses it: equality of the first \<open>n\<close> characters.\<close>

definition streq_n :: "string \<Rightarrow> string \<Rightarrow> nat \<Rightarrow> bool" where
  "streq_n a b n \<longleftrightarrow> take n (cstr a) = take n (cstr b)"

text \<open>\<open>strchr\<close>, as an offset.\<close>

definition strchr_off :: "string \<Rightarrow> char \<Rightarrow> nat option" where
  "strchr_off s c = (let s = cstr s; n = length (takeWhile (\<lambda>x. x \<noteq> c) s) in if n < length s then Some n else None)"

section \<open>Output\<close>

definition digit :: "nat \<Rightarrow> char" where
  "digit d = char_of (48 + d)"

lemma digits:
  "digit 0 = CHR ''0''" "digit 1 = CHR ''1''" "digit (Suc 0) = CHR ''1''" "digit 2 = CHR ''2''" "digit 3 = CHR ''3''"
  "digit 4 = CHR ''4''" "digit 5 = CHR ''5''" "digit 6 = CHR ''6''" "digit 7 = CHR ''7''" "digit 8 = CHR ''8''"
  "digit 9 = CHR ''9''"
  by code_simp+

fun dec_nat :: "nat \<Rightarrow> string" where
  "dec_nat n = (if n < 10 then [digit n] else dec_nat (n div 10) @ [digit (n mod 10)])"

declare dec_nat.simps [simp del]

definition dec_int :: "int \<Rightarrow> string" where
  "dec_int i = (if i < 0 then ''-'' @ dec_nat (nat (- i)) else dec_nat (nat i))"

section \<open>Input\<close>

definition isspace :: "char \<Rightarrow> bool" where
  "isspace c \<longleftrightarrow> c = CHR 0x20 \<or> (9 \<le> (of_char c :: nat) \<and> (of_char c :: nat) \<le> 13)"

definition isdigit :: "char \<Rightarrow> bool" where
  "isdigit c \<longleftrightarrow> 48 \<le> (of_char c :: nat) \<and> (of_char c :: nat) \<le> 57"

definition digits_val :: "string \<Rightarrow> nat" where
  "digits_val s = foldl (\<lambda>v c. 10 * v + (of_char c - 48)) 0 s"

text \<open>
  One \<open>%d\<close> or \<open>%u\<close> conversion: the number and the rest of the input, or no match.
\<close>

definition scan_digits :: "string \<Rightarrow> (nat \<times> string) option" where
  "scan_digits s = (let d = takeWhile isdigit s in
     if d = [] then None else Some (digits_val d, dropWhile isdigit s))"

definition scan_int :: "string \<Rightarrow> (int \<times> string) option" where
  "scan_int s = (let s = dropWhile isspace (cstr s) in
     case s of
       [] \<Rightarrow> None
     | c # r \<Rightarrow>
         if c = CHR ''-'' then map_option (\<lambda>(n, t). (- int n, t)) (scan_digits r)
         else if c = CHR ''+'' then map_option (\<lambda>(n, t). (int n, t)) (scan_digits r)
         else map_option (\<lambda>(n, t). (int n, t)) (scan_digits s))"

section \<open>Reading back what was printed\<close>

lemma of_char_digit [simp]: "d < 10 \<Longrightarrow> of_char (digit d) = 48 + d"
  by (simp add: digit_def)

lemma isdigit_digit [simp]: "d < 10 \<Longrightarrow> isdigit (digit d)"
  by (simp add: isdigit_def)

lemma digits_val_snoc: "digits_val (s @ [c]) = 10 * digits_val s + (of_char c - 48)"
  by (simp add: digits_val_def)

lemma dec_nat_digits: "\<forall>c \<in> set (dec_nat n). isdigit c"
proof (induction n rule: dec_nat.induct)
  case (1 n)
  then show ?case by (subst dec_nat.simps) auto
qed

lemma dec_nat_Nil [simp]: "dec_nat n \<noteq> []"
  by (subst dec_nat.simps) simp

lemma digits_val_dec_nat [simp]: "digits_val (dec_nat n) = n"
proof (induction n rule: dec_nat.induct)
  case (1 n)
  then show ?case by (subst dec_nat.simps) (simp add: digits_val_snoc, simp add: digits_val_def)
qed

lemma isdigit_not: "isdigit c \<Longrightarrow> \<not> isspace c \<and> c \<noteq> NUL \<and> c \<noteq> CHR ''-'' \<and> c \<noteq> CHR ''+''"
  by (auto simp: isdigit_def isspace_def)

lemma scan_digits_dec_nat:
  assumes "r = [] \<or> \<not> isdigit (hd r)"
  shows "scan_digits (dec_nat n @ r) = Some (n, r)"
proof -
  have "takeWhile isdigit (dec_nat n @ r) = dec_nat n" "dropWhile isdigit (dec_nat n @ r) = r"
    using dec_nat_digits [of n] assms by (cases r; simp add: takeWhile_append2 dropWhile_append2)+
  then show ?thesis by (simp add: scan_digits_def)
qed

lemma cstr_append: "NUL \<notin> set s \<Longrightarrow> cstr (s @ t) = s @ cstr t"
  by (induction s) (auto simp: cstr_def)

lemma cstr_id: "NUL \<notin> set s \<Longrightarrow> cstr s = s"
  using cstr_append [of s "[]"] by (simp add: cstr_def)

lemma cstr_NUL [simp]: "cstr (CHR 0x00 # t) = []"
  by (simp add: cstr_def)

lemma dec_nat_no_NUL: "NUL \<notin> set (dec_nat n)"
  using dec_nat_digits isdigit_not by blast

lemma dec_int_no_NUL: "NUL \<notin> set (dec_int i)"
  using dec_nat_no_NUL by (simp add: dec_int_def)

lemma scan_int_dec_int:
  assumes "cstr r = [] \<or> \<not> isdigit (hd (cstr r))" "\<forall>c \<in> set w. isspace c"
  shows "scan_int (w @ dec_int i @ r) = Some (i, cstr r)"
proof -
  have "\<not> isspace NUL" by (simp add: isspace_def)
  then have "NUL \<notin> set w" using assms(2) by blast
  then have c: "cstr (w @ dec_int i @ r) = w @ dec_int i @ cstr r"
    using dec_int_no_NUL by (simp add: cstr_append)
  define m where "m = nat \<bar>i\<bar>"
  obtain x xs where x: "dec_nat m = x # xs" by (cases "dec_nat m") simp_all
  have "isdigit x" using dec_nat_digits [of m] x by simp
  note nx = isdigit_not [OF this]
  note sd = scan_digits_dec_nat [OF assms(1), of m]
  show ?thesis
  proof (cases "i < 0")
    case True
    then have d: "dec_int i = ''-'' @ dec_nat m" "i = - int m" by (simp_all add: dec_int_def m_def)
    have "\<not> isspace (CHR ''-'')" by (simp add: isspace_def)
    then show ?thesis
      unfolding scan_int_def d(1) c [unfolded d(1)] using sd assms(2) d(2) by (simp add: dropWhile_append)
  next
    case False
    then have d: "dec_int i = dec_nat m" "i = int m" by (simp_all add: dec_int_def m_def)
    have "dropWhile isspace (w @ dec_nat m @ cstr r) = x # xs @ cstr r"
      using assms(2) nx x by (simp add: dropWhile_append)
    then show ?thesis
      unfolding scan_int_def d(1) c [unfolded d(1)] Let_def using sd [unfolded x] nx d(2) by simp
  qed
qed

section \<open>Lengths\<close>

lemma length_dec_nat: "0 < k \<Longrightarrow> n < 10 ^ k \<Longrightarrow> length (dec_nat n) \<le> k"
proof (induction k arbitrary: n)
  case (Suc k)
  show ?case
  proof (cases "n < 10")
    case True
    then show ?thesis by (simp add: dec_nat.simps [of n])
  next
    case False
    then have "0 < k" using Suc.prems(2) by (cases k) simp_all
    then have "length (dec_nat (n div 10)) \<le> k" using Suc by (simp add: less_mult_imp_div_less)
    then show ?thesis using False by (simp add: dec_nat.simps [of n])
  qed
qed simp

lemma length_dec_nat_ge: "10 ^ k \<le> n \<Longrightarrow> k < length (dec_nat n)"
proof (induction k arbitrary: n)
  case (Suc k)
  then have "10 ^ k \<le> n div 10" by (simp add: less_eq_div_iff_mult_less_eq mult.commute)
  moreover have "\<not> n < 10" using Suc.prems by (simp add: not_less order_trans [of 10 "10 * 10 ^ k"])
  ultimately show ?case using Suc.IH [of "n div 10"] by (simp add: dec_nat.simps [of n])
qed simp

end
