(* ===== verification/TrxIf.thy ===== *)
theory TrxIf
  imports SchedTrxProps ArfcnFreq CText
begin

text \<open>
  The transceiver interface of trxcon (\<open>trx_if.c\<close>): the queue of control commands with
  its state machine, retransmission timer and response handler, the commands, the power
  scan, and the burst datagrams of the data interface.

  The instance of \<open>SchedTrx\<close> is the part of \<open>struct trx_instance\<close> the scheduler
  owns; the record below holds the rest. A socket is the sequence of datagrams sent.
  \<open>None\<close> is undefined behaviour, as in the scheduler.
\<close>

datatype trx_fsm_state = TRX_STATE_OFFLINE | TRX_STATE_IDLE | TRX_STATE_ACTIVE | TRX_STATE_RSP_WAIT

record trx_ctrl_msg =
  cmd :: string
  retry_cnt :: nat
  critical :: bool
  cmd_len :: nat

text \<open>\<open>ctrl_timer\<close> is true while the two second response timer is pending.\<close>

record trx_if =
  ctrl_timer :: bool
  ctrl_list :: "trx_ctrl_msg list"
  fsm_state :: trx_fsm_state
  prev_state :: trx_fsm_state
  powered_up :: bool
  pm_band_arfcn_start :: u16
  pm_band_arfcn_stop :: u16
  inst :: trx_instance

text \<open>
  What the interface sends: a control datagram, a burst datagram, a message to the L1CTL
  link (those of the scheduler, and the result of a power measurement with the flag of the
  last one), and an event for the state machine of the application.
\<close>

datatype if_event =
    CtrlSent string
  | DataSent "u8 list"
  | ToL1ctl trx_event
  | PmConf u16 u8 bool
  | TrxOffline
  | TrxRspError

section \<open>State machine\<close>

text \<open>\<open>out_state_mask\<close> of the states, and \<open>osmo_fsm_inst_state_chg\<close> on them.\<close>

fun out_state_mask :: "trx_fsm_state \<Rightarrow> trx_fsm_state list" where
  "out_state_mask TRX_STATE_OFFLINE = [TRX_STATE_IDLE, TRX_STATE_RSP_WAIT]"
| "out_state_mask TRX_STATE_IDLE = [TRX_STATE_OFFLINE, TRX_STATE_IDLE, TRX_STATE_ACTIVE, TRX_STATE_RSP_WAIT]"
| "out_state_mask TRX_STATE_ACTIVE = [TRX_STATE_IDLE, TRX_STATE_RSP_WAIT]"
| "out_state_mask TRX_STATE_RSP_WAIT = [TRX_STATE_IDLE, TRX_STATE_ACTIVE, TRX_STATE_OFFLINE]"

definition state_chg :: "trx_if \<Rightarrow> trx_fsm_state \<Rightarrow> trx_if" where
  "state_chg t new = (if new \<in> set (out_state_mask (fsm_state t)) then t\<lparr>fsm_state := new\<rparr> else t)"

section \<open>The queue of control commands\<close>

definition trx_ctrl_send :: "trx_if \<Rightarrow> trx_if \<times> if_event list" where
  "trx_ctrl_send t =
    (case ctrl_list t of
       [] \<Rightarrow> (t, [])
     | tcm # _ \<Rightarrow>
         let t = (if fsm_state t \<noteq> TRX_STATE_RSP_WAIT
                  then state_chg (t\<lparr>prev_state := fsm_state t\<rparr>) TRX_STATE_RSP_WAIT else t)
         in (t\<lparr>ctrl_timer := True\<rparr>, [CtrlSent (cmd tcm)]))"

definition trx_ctrl_timer_cb :: "trx_if \<Rightarrow> trx_if \<times> if_event list" where
  "trx_ctrl_timer_cb t =
    (let t = t\<lparr>ctrl_timer := False\<rparr> in
     case ctrl_list t of
       [] \<Rightarrow> (t, [])
     | tcm # rest \<Rightarrow>
         let tcm = tcm\<lparr>retry_cnt := retry_cnt tcm + 1\<rparr>; t = t\<lparr>ctrl_list := tcm # rest\<rparr> in
         if retry_cnt tcm > 3 then (state_chg t TRX_STATE_OFFLINE, [TrxOffline])
         else trx_ctrl_send t)"

text \<open>The text of a command: \<open>snprintf\<close> into a buffer of 1024 octets less one.\<close>

abbreviation (input) ENOSPC :: int where "ENOSPC \<equiv> 28"
abbreviation (input) TRXC_BUF_SIZE :: nat where "TRXC_BUF_SIZE \<equiv> 1024"

definition ctrl_text :: "string \<Rightarrow> string option \<Rightarrow> string" where
  "ctrl_text name args =
    (case args of
       None \<Rightarrow> take (TRXC_BUF_SIZE - 2) (''CMD '' @ name)
     | Some a \<Rightarrow>
         let head = ''CMD '' @ name @ '' '' in take (TRXC_BUF_SIZE - 2) head @ take (TRXC_BUF_SIZE - 2 - length head) a)"

definition trx_ctrl_cmd :: "trx_if \<Rightarrow> bool \<Rightarrow> string \<Rightarrow> string option \<Rightarrow> int \<times> trx_if \<times> if_event list" where
  "trx_ctrl_cmd t crit name args =
    (let pending = ctrl_list t \<noteq> [];
         tcm = \<lparr>cmd = ctrl_text name args, retry_cnt = 0, critical = crit, cmd_len = length name\<rparr>;
         t = t\<lparr>ctrl_list := ctrl_list t @ [tcm]\<rparr>
     in if pending then (0, t, []) else (0, trx_ctrl_send t))"

section \<open>Commands\<close>

definition trx_if_cmd_echo :: "trx_if \<Rightarrow> int \<times> trx_if \<times> if_event list" where
  "trx_if_cmd_echo t = trx_ctrl_cmd t True ''ECHO'' None"

definition trx_if_cmd_poweroff :: "trx_if \<Rightarrow> int \<times> trx_if \<times> if_event list" where
  "trx_if_cmd_poweroff t = trx_ctrl_cmd t True ''POWEROFF'' None"

definition trx_if_cmd_poweron :: "trx_if \<Rightarrow> int \<times> trx_if \<times> if_event list" where
  "trx_if_cmd_poweron t =
    (if powered_up t then (- EAGAIN, t, []) else trx_ctrl_cmd t True ''POWERON'' None)"

definition trx_if_cmd_setslot :: "trx_if \<Rightarrow> nat \<Rightarrow> u8 \<Rightarrow> int \<times> trx_if \<times> if_event list" where
  "trx_if_cmd_setslot t tn ty =
    trx_ctrl_cmd t True ''SETSLOT'' (Some (dec_nat tn @ '' '' @ dec_nat (unat ty)))"

text \<open>Frequencies in kHz: a 16 bit number of 100 kHz steps, multiplied as an int.\<close>

definition khz :: "u16 \<Rightarrow> string" where
  "khz freq10 = dec_nat (unat freq10 * 100)"

definition trx_if_cmd_rxtune :: "trx_if \<Rightarrow> u16 \<Rightarrow> int \<times> trx_if \<times> if_event list" where
  "trx_if_cmd_rxtune t arfcn =
    (let freq10 = gsm_arfcn2freq10 arfcn False in
     if freq10 = 0xffff then (- ENOTSUP, t, []) else trx_ctrl_cmd t True ''RXTUNE'' (Some (khz freq10)))"

definition trx_if_cmd_txtune :: "trx_if \<Rightarrow> u16 \<Rightarrow> int \<times> trx_if \<times> if_event list" where
  "trx_if_cmd_txtune t arfcn =
    (let freq10 = gsm_arfcn2freq10 arfcn True in
     if freq10 = 0xffff then (- ENOTSUP, t, []) else trx_ctrl_cmd t True ''TXTUNE'' (Some (khz freq10)))"

definition trx_if_cmd_measure :: "trx_if \<Rightarrow> u16 \<Rightarrow> u16 \<Rightarrow> int \<times> trx_if \<times> if_event list" where
  "trx_if_cmd_measure t start stop =
    (let t = t\<lparr>pm_band_arfcn_start := start, pm_band_arfcn_stop := stop\<rparr>;
         freq10 = gsm_arfcn2freq10 start False
     in if freq10 = 0xffff then (- ENOTSUP, t, []) else trx_ctrl_cmd t True ''MEASURE'' (Some (khz freq10)))"

definition trx_if_cmd_setta :: "trx_if \<Rightarrow> 8 word \<Rightarrow> int \<times> trx_if \<times> if_event list" where
  "trx_if_cmd_setta t adv = trx_ctrl_cmd t False ''SETTA'' (Some (dec_int (sint adv)))"

text \<open>
  The loop that prints the mobile allocation into a buffer of \<open>room\<close> octets; \<open>Inl\<close> is
  the error it returns. A last pair that fits but for its space loses it to the terminator,
  which is the character the code overwrites anyway.
\<close>

fun setfh_loop :: "u16 list \<Rightarrow> nat \<Rightarrow> int + string" where
  "setfh_loop [] room = Inr []"
| "setfh_loop (a # ma) room =
    (let rx = gsm_arfcn2freq10 a False; tx = gsm_arfcn2freq10 a True in
     if rx = 0xffff \<or> tx = 0xffff then Inl (- EINVAL)
     else let s = khz rx @ '' '' @ khz tx @ '' '' in
       if room < length s then Inl (- ENOSPC)
       else case setfh_loop ma (room - length s) of Inl e \<Rightarrow> Inl e | Inr r \<Rightarrow> Inr (s @ r))"

definition trx_if_cmd_setfh :: "trx_if \<Rightarrow> u8 \<Rightarrow> u8 \<Rightarrow> u16 list \<Rightarrow> int \<times> trx_if \<times> if_event list" where
  "trx_if_cmd_setfh t hsn maio ma =
    (if ma = [] then (- EINVAL, t, [])
     else case setfh_loop ma (TRXC_BUF_SIZE - 24 - 1) of
         Inl e \<Rightarrow> (e, t, [])
       | Inr s \<Rightarrow> trx_ctrl_cmd t True ''SETFH''
           (Some (dec_nat (unat hsn) @ '' '' @ dec_nat (unat maio) @ '' '' @ butlast s)))"

section \<open>Responses\<close>

text \<open>
  The response of a power measurement. A number the text does not hold is left as it was on
  the stack: \<open>freq0\<close> and \<open>dbm0\<close>. \<open>%u\<close> and \<open>%d\<close> store 32 bits.
\<close>

definition scan_two :: "string \<Rightarrow> u32 \<Rightarrow> 32 word \<Rightarrow> u32 \<times> 32 word" where
  "scan_two s freq0 dbm0 =
    (case scan_int s of
       None \<Rightarrow> (freq0, dbm0)
     | Some (f, r) \<Rightarrow>
         (case scan_int r of
            None \<Rightarrow> (word_of_int f, dbm0)
          | Some (d, _) \<Rightarrow> (word_of_int f, word_of_int d)))"

definition trx_if_measure_rsp_cb :: "trx_if \<Rightarrow> string \<Rightarrow> u32 \<Rightarrow> 32 word \<Rightarrow> trx_if \<times> if_event list" where
  "trx_if_measure_rsp_cb t resp freq0 dbm0 =
    (let (freq, dbm) = scan_two resp freq0 dbm0;
         arfcn = gsm_freq102arfcn (ucast (freq div 100)) False
     in if arfcn \<noteq> pm_band_arfcn_start t then (t, [])
        else let ev = PmConf arfcn (dbm2rxlev (sint dbm)) (arfcn = pm_band_arfcn_stop t) in
          if arfcn \<noteq> pm_band_arfcn_stop t
          then let (rc, t, evs) = trx_if_cmd_measure t (arfcn + 1) (pm_band_arfcn_stop t) in (t, ev # evs)
          else (t, [ev]))"

text \<open>What a confirmed command does, by its text.\<close>

definition ctrl_confirmed :: "trx_if \<Rightarrow> string \<Rightarrow> string \<Rightarrow> u32 \<Rightarrow> 32 word \<Rightarrow> trx_if \<times> if_event list" where
  "ctrl_confirmed t c buf freq0 dbm0 =
    (if streq_n (drop 4 c) ''POWERON'' 7 then (state_chg (t\<lparr>powered_up := True\<rparr>) TRX_STATE_ACTIVE, [])
     else if streq_n (drop 4 c) ''POWEROFF'' 8 then (state_chg (t\<lparr>powered_up := False\<rparr>) TRX_STATE_IDLE, [])
     else if streq_n (drop 4 c) ''MEASURE'' 7 then trx_if_measure_rsp_cb t (drop 14 buf) freq0 dbm0
     else if streq_n (drop 4 c) ''ECHO'' 4 then (state_chg t TRX_STATE_IDLE, [])
     else (state_chg t (prev_state t), []))"

text \<open>The command is removed and the next one is sent.\<close>

definition ctrl_next :: "trx_if \<Rightarrow> string \<Rightarrow> string \<Rightarrow> u32 \<Rightarrow> 32 word \<Rightarrow> trx_if \<times> if_event list" where
  "ctrl_next t c buf freq0 dbm0 =
    (let (t, evs) = ctrl_confirmed t c buf freq0 dbm0;
         (t, evs') = trx_ctrl_send (t\<lparr>ctrl_list := tl (ctrl_list t)\<rparr>)
     in (t, evs @ evs'))"

text \<open>
  The response handler. \<open>stack\<close> is what the buffer held before the datagram was read into
  it; \<open>resp0\<close>, \<open>freq0\<close>, \<open>dbm0\<close> are the contents of the locals that \<open>sscanf\<close> may
  leave unset. A datagram is cut at the size of the buffer.
\<close>

definition rsp_buf :: "string \<Rightarrow> string \<Rightarrow> string" where
  "rsp_buf dgram stack = (let d = take (TRXC_BUF_SIZE - 1) dgram in d @ NUL # drop (length d + 1) stack)"

definition trx_ctrl_read_cb :: "trx_if \<Rightarrow> string \<Rightarrow> string \<Rightarrow> int \<Rightarrow> u32 \<Rightarrow> 32 word
    \<Rightarrow> (int \<times> trx_if \<times> if_event list) option" where
  "trx_ctrl_read_cb t dgram stack resp0 freq0 dbm0 =
    (if dgram = [] then Some (0, t, [])
     else let buf = rsp_buf dgram stack in
     if \<not> streq_n buf ''RSP '' 4 then Some (0, t, [])
     else let p = strchr_off (drop 4 buf) (CHR '' '');
              rsp_len = (case p of Some n \<Rightarrow> n | None \<Rightarrow> length (cstr buf) - 4);
              t = t\<lparr>ctrl_timer := False\<rparr>
       in case ctrl_list t of
            [] \<Rightarrow> Some (- EINVAL, t, [])
          | tcm # rest \<Rightarrow>
              if \<not> streq_n (drop 4 buf) (drop 4 (cmd tcm)) rsp_len then Some (- EIO, t, [TrxRspError])
              else case p of
                  None \<Rightarrow> None
                | Some n \<Rightarrow>
                    let resp = (case scan_int (drop (4 + n + 1) buf) of None \<Rightarrow> resp0 | Some (v, _) \<Rightarrow> v) in
                    if resp \<noteq> 0 \<and> critical tcm then Some (- EIO, t, [TrxRspError])
                    else Some (0, ctrl_next t (cmd tcm) buf freq0 dbm0))"

definition trx_if_flush_ctrl :: "trx_if \<Rightarrow> trx_if" where
  "trx_if_flush_ctrl t = (state_chg t TRX_STATE_IDLE)\<lparr>ctrl_list := []\<rparr>"

text \<open>The interface as \<open>trx_if_open\<close> leaves it when the sockets could be opened.\<close>

definition trx_if_open :: trx_if where
  "trx_if_open = \<lparr>ctrl_timer = False, ctrl_list = [], fsm_state = TRX_STATE_OFFLINE,
     prev_state = TRX_STATE_OFFLINE, powered_up = False, pm_band_arfcn_start = 0, pm_band_arfcn_stop = 0,
     inst = trx_zero\<rparr>"

section \<open>Burst datagrams\<close>

definition osmo_ubit2sbit :: "ubit list \<Rightarrow> sbit list" where
  "osmo_ubit2sbit = map (\<lambda>b. if b \<noteq> 0 then -127 else 127)"

definition osmo_load32be :: "u8 list \<Rightarrow> u32" where
  "osmo_load32be b =
    push_bit 24 (ucast (b ! 0)) OR push_bit 16 (ucast (b ! 1)) OR push_bit 8 (ucast (b ! 2)) OR ucast (b ! 3)"

definition osmo_store32be :: "u32 \<Rightarrow> u8 list" where
  "osmo_store32be v = [ucast (drop_bit 24 v), ucast (drop_bit 16 v), ucast (drop_bit 8 v), ucast v]"

text \<open>
  The events of the scheduler, as the interface carries them out: a slot command joins the
  queue, a burst is sent, the rest goes to the L1CTL link.
\<close>

definition trx_if_tx_burst :: "sched_burst_req \<Rightarrow> u8 list" where
  "trx_if_tx_burst br =
    [of_nat (br_tn br)] @ osmo_store32be (br_fn br) @ [br_pwr br] @ take (br_burst_len br) (br_burst br)"

fun run_events :: "trx_if \<Rightarrow> trx_event list \<Rightarrow> trx_if \<times> if_event list" where
  "run_events t [] = (t, [])"
| "run_events t (TrxCmdSetslot tn ty # evs) =
    (let (rc, t, o1) = trx_if_cmd_setslot t tn ty; (t, o2) = run_events t evs in (t, o1 @ o2))"
| "run_events t (TrxTxBurst br # evs) =
    (let (t, o2) = run_events t evs in (t, DataSent (trx_if_tx_burst br) # o2))"
| "run_events t (e # evs) = (let (t, o2) = run_events t evs in (t, ToL1ctl e # o2))"

definition burst_meas :: "u8 list \<Rightarrow> trx_meas_set" where
  "burst_meas buf = \<lparr>meas_fn = osmo_load32be (drop 1 buf),
     meas_toa256 = push_bit 8 (ucast (buf ! 6)) OR ucast (buf ! 7), meas_rssi = - (buf ! 5)\<rparr>"

text \<open>The burst goes to the scheduler, and every 51st frame to the clock.\<close>

definition trx_data_poke :: "codec \<Rightarrow> (u32 \<Rightarrow> nat \<Rightarrow> nat \<Rightarrow> u8) \<Rightarrow> timespec \<Rightarrow> trx_if \<Rightarrow> nat \<Rightarrow> u32 \<Rightarrow> sbit list
    \<Rightarrow> trx_meas_set \<Rightarrow> (int \<times> trx_if \<times> if_event list) option" where
  "trx_data_poke cd rnd now t tn fn bits meas = do {
     (rc, trx, evs) \<leftarrow> sched_trx_handle_rx_burst cd (inst t) tn fn bits meas;
     let (t, out) = run_events (t\<lparr>inst := trx\<rparr>) evs;
     if unat fn mod 51 = 0
     then do {
       (trx, evs) \<leftarrow> trx_clck_handle cd rnd now fn (inst t);
       let (t, out') = run_events (t\<lparr>inst := trx\<rparr>) evs;
       Some (0, t, out @ out')
     }
     else Some (0, t, out)
   }"

definition trx_data_rx_cb :: "codec \<Rightarrow> (u32 \<Rightarrow> nat \<Rightarrow> nat \<Rightarrow> u8) \<Rightarrow> timespec \<Rightarrow> trx_if \<Rightarrow> u8 list
    \<Rightarrow> (int \<times> trx_if \<times> if_event list) option" where
  "trx_data_rx_cb cd rnd now t dgram =
    (if dgram = [] then Some (0, t, [])
     else let buf = take 512 dgram in
     if length buf < 8 + 148 then Some (- EINVAL, t, [])
     else let tn = buf ! 0; fn = osmo_load32be (drop 1 buf);
              bits = osmo_ubit2sbit (take 148 (drop 8 buf))
       in if sint tn \<ge> 8 then Some (- EINVAL, t, [])
          else if fn \<ge> GSM_TDMA_HYPERFRAME then Some (- EINVAL, t, [])
          else trx_data_poke cd rnd now t (unat tn) fn bits (burst_meas buf))"

end
