(* ===== verification/TrxIfQueue.thy ===== *)
theory TrxIfQueue
  imports TrxIf
begin

text \<open>
  The control queue as a stop-and-wait protocol: an abstract queue of texts, the refinement
  of every operation to it, and the order and number of the transmissions over any run.
\<close>

section \<open>What the operations do to the queue\<close>

definition sent :: "if_event list \<Rightarrow> string list" where
  "sent evs = concat (map (\<lambda>e. case e of CtrlSent c \<Rightarrow> [c] | _ \<Rightarrow> []) evs)"

lemma sent_simps [simp]:
  "sent [] = []" "sent (CtrlSent c # evs) = c # sent evs" "sent (DataSent d # evs) = sent evs"
  "sent (ToL1ctl e # evs) = sent evs" "sent (PmConf a r l # evs) = sent evs"
  "sent (TrxOffline # evs) = sent evs" "sent (TrxRspError # evs) = sent evs"
  "sent (xs @ ys) = sent xs @ sent ys"
  by (simp_all add: sent_def)

lemma state_chg_keeps [simp]:
  "ctrl_list (state_chg t s) = ctrl_list t" "ctrl_timer (state_chg t s) = ctrl_timer t"
  "prev_state (state_chg t s) = prev_state t" "powered_up (state_chg t s) = powered_up t"
  "inst (state_chg t s) = inst t"
  "pm_band_arfcn_start (state_chg t s) = pm_band_arfcn_start t"
  "pm_band_arfcn_stop (state_chg t s) = pm_band_arfcn_stop t"
  by (simp_all add: state_chg_def)

lemma ctrl_send_Nil: "ctrl_list t = [] \<Longrightarrow> trx_ctrl_send t = (t, [])"
  by (simp add: trx_ctrl_send_def)

lemma ctrl_send_Cons:
  "ctrl_list t = m # ms \<Longrightarrow> trx_ctrl_send t =
    (t\<lparr>ctrl_timer := True, fsm_state := TRX_STATE_RSP_WAIT,
       prev_state := (if fsm_state t = TRX_STATE_RSP_WAIT then prev_state t else fsm_state t)\<rparr>, [CtrlSent (cmd m)])"
  by (cases "fsm_state t") (simp_all add: trx_ctrl_send_def state_chg_def)

lemma ctrl_send_queue:
  "trx_ctrl_send t = (t', evs) \<Longrightarrow> ctrl_list t' = ctrl_list t \<and> sent evs = map cmd (take 1 (ctrl_list t))
    \<and> (ctrl_list t \<noteq> [] \<longrightarrow> ctrl_timer t')"
  by (cases "ctrl_list t") (auto simp: ctrl_send_Nil ctrl_send_Cons)

definition new_msg :: "bool \<Rightarrow> string \<Rightarrow> string option \<Rightarrow> trx_ctrl_msg" where
  "new_msg crit name args = \<lparr>cmd = ctrl_text name args, retry_cnt = 0, critical = crit, cmd_len = length name\<rparr>"

lemma ctrl_cmd_queue:
  "trx_ctrl_cmd t crit name args = (rc, t', evs) \<Longrightarrow> rc = 0 \<and> ctrl_list t' = ctrl_list t @ [new_msg crit name args]
    \<and> sent evs = (if ctrl_list t = [] then [ctrl_text name args] else [])
    \<and> inst t' = inst t \<and> (ctrl_list t \<noteq> [] \<longrightarrow> ctrl_timer t' = ctrl_timer t)"
  by (cases "ctrl_list t") (auto simp: trx_ctrl_cmd_def new_msg_def Let_def ctrl_send_Cons)

lemma measure_rsp_queue:
  "trx_if_measure_rsp_cb t resp f d = (t', evs) \<Longrightarrow> ctrl_list t \<noteq> [] \<Longrightarrow>
    \<exists>new. ctrl_list t' = ctrl_list t @ new \<and> sent evs = [] \<and> (\<forall>m \<in> set new. retry_cnt m = 0)"
  by (auto simp: trx_if_measure_rsp_cb_def Let_def trx_if_cmd_measure_def new_msg_def split: prod.splits if_splits
      dest!: ctrl_cmd_queue)

lemma confirmed_queue:
  "ctrl_confirmed t c buf f d = (t', evs) \<Longrightarrow> ctrl_list t \<noteq> [] \<Longrightarrow>
    \<exists>new. ctrl_list t' = ctrl_list t @ new \<and> sent evs = [] \<and> (\<forall>m \<in> set new. retry_cnt m = 0)"
  by (auto simp: ctrl_confirmed_def split: if_splits dest: measure_rsp_queue)

lemma ctrl_next_queue:
  assumes "ctrl_next t c buf f d = (t', evs)" "ctrl_list t = m # ms"
  shows "\<exists>new. ctrl_list t' = ms @ new \<and> sent evs = map cmd (take 1 (ms @ new)) \<and> (\<forall>m \<in> set new. retry_cnt m = 0)"
proof -
  obtain t1 e1 where 1: "ctrl_confirmed t c buf f d = (t1, e1)" by fastforce
  obtain t2 e2 where 2: "trx_ctrl_send (t1\<lparr>ctrl_list := tl (ctrl_list t1)\<rparr>) = (t2, e2)" by fastforce
  obtain new where n: "ctrl_list t1 = m # ms @ new" "sent e1 = []" "\<forall>m \<in> set new. retry_cnt m = 0"
    using confirmed_queue [OF 1] assms(2) by auto
  have "ctrl_list t2 = ms @ new \<and> sent e2 = map cmd (take 1 (ms @ new))" using ctrl_send_queue [OF 2] n(1) by simp
  moreover have "t' = t2" "evs = e1 @ e2" using assms(1) 1 2 by (simp_all add: ctrl_next_def)
  ultimately show ?thesis using n by auto
qed

text \<open>The outcomes of the response handler.\<close>

definition rsp_ignored :: "string \<Rightarrow> string \<Rightarrow> bool" where
  "rsp_ignored dgram stack \<longleftrightarrow> dgram = [] \<or> \<not> streq_n (rsp_buf dgram stack) ''RSP '' 4"

lemma read_cb_cases:
  assumes "trx_ctrl_read_cb t dgram stack r0 f0 d0 = Some (rc, t', evs)"
  obtains "t' = t" "rc = 0" "evs = []" "rsp_ignored dgram stack"
  | "t' = t\<lparr>ctrl_timer := False\<rparr>" "ctrl_list t = []" "rc = - EINVAL" "evs = []"
  | "t' = t\<lparr>ctrl_timer := False\<rparr>" "ctrl_list t \<noteq> []" "rc = - EIO" "evs = [TrxRspError]"
  | m ms where "ctrl_list t = m # ms" "rc = 0"
      "(t', evs) = ctrl_next (t\<lparr>ctrl_timer := False\<rparr>) (cmd m) (rsp_buf dgram stack) f0 d0" "\<not> rsp_ignored dgram stack"
  using assms unfolding trx_ctrl_read_cb_def Let_def rsp_ignored_def
  by (auto split: if_splits option.splits list.splits)

text \<open>A response either confirms the head of the queue, or leaves the queue as it is.\<close>

lemma read_cb_queue:
  assumes "trx_ctrl_read_cb t dgram stack r0 f0 d0 = Some (rc, t', evs)"
  shows "(ctrl_list t' = ctrl_list t \<and> sent evs = [] \<and> (ctrl_timer t' \<longrightarrow> ctrl_timer t))
    \<or> (\<exists>m ms new. ctrl_list t = m # ms \<and> rc = 0 \<and> ctrl_list t' = ms @ new \<and> sent evs = map cmd (take 1 (ms @ new))
         \<and> (\<forall>m \<in> set new. retry_cnt m = 0))"
  using assms
proof (cases rule: read_cb_cases)
  case (4 m ms)
  obtain new where "ctrl_list t' = ms @ new" "sent evs = map cmd (take 1 (ms @ new))" "\<forall>m \<in> set new. retry_cnt m = 0"
    using ctrl_next_queue [OF 4(3) [symmetric]] 4(1) by auto
  then show ?thesis using 4(1,2) by blast
qed auto

section \<open>The stop-and-wait protocol\<close>

text \<open>
  The abstract protocol: commands answered, commands waiting, and how often the first of the
  waiting ones was transmitted. Each step transmits the texts of its middle argument.
\<close>

record saw =
  answered :: "string list"
  waiting :: "string list"
  tries :: nat

inductive saw_step :: "saw \<Rightarrow> string list \<Rightarrow> saw \<Rightarrow> bool" where
  saw_idle: "saw_step s [] s"
| saw_ask_first: "waiting s = [] \<Longrightarrow> saw_step s [c] (s\<lparr>waiting := [c], tries := 1\<rparr>)"
| saw_ask: "waiting s \<noteq> [] \<Longrightarrow> saw_step s [] (s\<lparr>waiting := waiting s @ [c]\<rparr>)"
| saw_retry: "waiting s = c # w \<Longrightarrow> tries s < 4 \<Longrightarrow> saw_step s [c] (s\<lparr>tries := tries s + 1\<rparr>)"
| saw_answer: "waiting s = c # w \<Longrightarrow> saw_step s (take 1 (w @ new))
    (s\<lparr>answered := answered s @ [c], waiting := w @ new, tries := (if w @ new = [] then 0 else 1)\<rparr>)"

inductive_cases saw_stepE: "saw_step s out s'"

inductive saw_run :: "saw \<Rightarrow> string list \<Rightarrow> saw \<Rightarrow> bool" for s where
  saw_run_refl: "saw_run s [] s"
| saw_run_step: "saw_run s out s' \<Longrightarrow> saw_step s' out' s'' \<Longrightarrow> saw_run s (out @ out') s''"

definition saw_init :: saw where
  "saw_init = \<lparr>answered = [], waiting = [], tries = 0\<rparr>"

text \<open>What was transmitted: each command of a history, as often as the list of counts says.\<close>

definition transmissions :: "nat list \<Rightarrow> string list \<Rightarrow> string list" where
  "transmissions ks cs = concat (map (\<lambda>(k, c). replicate k c) (zip ks cs))"

definition saw_ok :: "saw \<Rightarrow> string list \<Rightarrow> bool" where
  "saw_ok s out \<longleftrightarrow>
    (\<exists>ks. length ks = length (answered s) \<and> (\<forall>k \<in> set ks. 1 \<le> k \<and> k \<le> 4)
      \<and> (case waiting s of [] \<Rightarrow> out = transmissions ks (answered s)
           | c # _ \<Rightarrow> 1 \<le> tries s \<and> tries s \<le> 4 \<and> out = transmissions ks (answered s) @ replicate (tries s) c))"

lemma transmissions_snoc:
  "length ks = length cs \<Longrightarrow> transmissions (ks @ [k]) (cs @ [c]) = transmissions ks cs @ replicate k c"
  by (simp add: transmissions_def)

lemma saw_ok_step:
  assumes "saw_step s out s'" "saw_ok s o'"
  shows "saw_ok s' (o' @ out)"
  using assms(1)
proof (cases rule: saw_step.cases)
  case (saw_ask c)
  then show ?thesis using assms(2) by (cases "waiting s") (auto simp: saw_ok_def)
next
  case (saw_retry c w)
  then show ?thesis using assms(2) by (auto simp: saw_ok_def replicate_append_same)
next
  case (saw_answer c w new)
  then obtain ks where "length ks = length (answered s)" "\<forall>k \<in> set ks. 1 \<le> k \<and> k \<le> 4" "1 \<le> tries s" "tries s \<le> 4"
    "o' = transmissions ks (answered s) @ replicate (tries s) c" using assms(2) by (auto simp: saw_ok_def)
  moreover obtain q where "out = take 1 q" "waiting s' = q" "answered s' = answered s @ [c]"
    "tries s' = (if q = [] then 0 else 1)" by (rule that [of "w @ new"]) (use saw_answer in simp_all)
  ultimately show ?thesis
    unfolding saw_ok_def by (cases q; intro exI [of _ "ks @ [tries s]"]) (auto simp: transmissions_snoc)
qed (use assms(2) in \<open>auto simp: saw_ok_def split: list.splits\<close>)

lemma saw_ok_alt:
  assumes "saw_ok s out"
  shows "\<exists>ks. length ks = length (answered s) \<and> (\<forall>k \<in> set ks. 1 \<le> k \<and> k \<le> 4) \<and>
    (case waiting s of [] \<Rightarrow> out = transmissions ks (answered s)
       | c # _ \<Rightarrow> \<exists>k. 1 \<le> k \<and> k \<le> 4 \<and> out = transmissions ks (answered s) @ replicate k c)"
proof (cases "waiting s")
  case Nil
  then show ?thesis using assms by (auto simp: saw_ok_def)
next
  case (Cons c w)
  with assms obtain ks where "length ks = length (answered s)" "\<forall>k \<in> set ks. 1 \<le> k \<and> k \<le> 4"
    "1 \<le> tries s" "tries s \<le> 4" "out = transmissions ks (answered s) @ replicate (tries s) c"
    by (auto simp: saw_ok_def)
  then show ?thesis unfolding Cons list.case by blast
qed

text \<open>The same, over the list of the answered and the waiting commands together.\<close>

lemma transmissions_upto:
  assumes "n \<le> length cs" "\<exists>ks. length ks = length (take n cs) \<and> (\<forall>k \<in> set ks. 1 \<le> k \<and> k \<le> 4) \<and>
    (case drop n cs of [] \<Rightarrow> out = transmissions ks (take n cs)
       | c # _ \<Rightarrow> \<exists>k. 1 \<le> k \<and> k \<le> 4 \<and> out = transmissions ks (take n cs) @ replicate k c)"
  shows "\<exists>ks. length ks = min (length cs) (Suc n) \<and> (\<forall>k \<in> set ks. 1 \<le> k \<and> k \<le> 4) \<and> out = transmissions ks cs"
proof -
  obtain ks where ks: "length ks = n" "\<forall>k \<in> set ks. 1 \<le> k \<and> k \<le> 4"
    "case drop n cs of [] \<Rightarrow> out = transmissions ks (take n cs)
       | c # _ \<Rightarrow> \<exists>k. 1 \<le> k \<and> k \<le> 4 \<and> out = transmissions ks (take n cs) @ replicate k c"
    using assms by auto
  have t: "transmissions ls (take m cs) = transmissions ls cs" if "length ls \<le> m" for ls m
  proof -
    have "zip ls (take m cs) = take m (zip ls cs)" using that by (simp add: take_zip)
    then show ?thesis using that by (simp add: transmissions_def)
  qed
  show ?thesis
  proof (cases "drop n cs")
    case Nil
    then show ?thesis using ks assms(1) by (intro exI [of _ ks]) (simp add: min_def)
  next
    case (Cons c rest)
    then obtain k where k: "1 \<le> k" "k \<le> 4" "out = transmissions ks (take n cs) @ replicate k c" using ks(3) by auto
    have n: "n < length cs" "cs ! n = c" using Cons by (auto simp: nth_via_drop) (metis drop_all list.distinct(1) not_less)
    have "out = transmissions (ks @ [k]) (take n cs @ [c])"
      using transmissions_snoc [of ks "take n cs" k c] ks(1) n(1) k(3) by simp
    also have "take n cs @ [c] = take (Suc n) cs" using n by (simp add: take_Suc_conv_app_nth)
    finally have "out = transmissions (ks @ [k]) cs" using t [of "ks @ [k]" "Suc n"] ks(1) by simp
    then show ?thesis using ks(1,2) k(1,2) n(1) by (intro exI [of _ "ks @ [k]"]) auto
  qed
qed

lemma saw_run_ok: "saw_run s out s' \<Longrightarrow> saw_ok s [] \<Longrightarrow> saw_ok s' out"
proof (induction rule: saw_run.induct)
  case (saw_run_step out s' out' s'')
  then show ?case using saw_ok_step by blast
qed

text \<open>
  An implementation of the protocol, by an abstraction of its states that every step from a
  good state respects: what it transmits is what the protocol allows.
\<close>

locale stop_and_wait =
  fixes step :: "'s \<Rightarrow> string list \<Rightarrow> 's \<Rightarrow> bool"
    and good :: "'s \<Rightarrow> bool"
    and absf :: "'s \<Rightarrow> saw"
  assumes step_sim: "good s \<Longrightarrow> step s out s' \<Longrightarrow> saw_step (absf s) out (absf s') \<and> good s'"
begin

inductive run :: "'s \<Rightarrow> string list \<Rightarrow> 's \<Rightarrow> bool" for s where
  run_refl: "run s [] s"
| run_step: "run s out s' \<Longrightarrow> step s' out' s'' \<Longrightarrow> run s (out @ out') s''"

lemma run_sim: "run s out s' \<Longrightarrow> good s \<Longrightarrow> saw_run (absf s) out (absf s') \<and> good s'"
proof (induction rule: run.induct)
  case run_refl
  then show ?case by (simp add: saw_run_refl)
next
  case (run_step out s' out' s'')
  then show ?case using step_sim saw_run_step by blast
qed

lemma run_ok: "run s out s' \<Longrightarrow> good s \<Longrightarrow> absf s = saw_init \<Longrightarrow> saw_ok (absf s') out"
  using run_sim [of s out s'] saw_run_ok [of saw_init out] by (auto simp: saw_ok_def saw_init_def transmissions_def)

end

section \<open>The control interface implements it\<close>

text \<open>
  A state of the interface, with the commands answered so far. A response is one that
  answers the head of the queue if it is a response at all and is not reported as an error.
\<close>

inductive ctrl_step :: "trx_if \<times> string list \<Rightarrow> string list \<Rightarrow> trx_if \<times> string list \<Rightarrow> bool" where
  step_cmd: "trx_ctrl_cmd t crit name args = (rc, t', evs) \<Longrightarrow> ctrl_step (t, done) (sent evs) (t', done)"
| step_timer: "ctrl_timer t \<Longrightarrow> trx_ctrl_timer_cb t = (t', evs) \<Longrightarrow> ctrl_step (t, done) (sent evs) (t', done)"
| step_rsp: "trx_ctrl_read_cb t dgram stack r0 f0 d0 = Some (rc, t', evs) \<Longrightarrow>
    ctrl_step (t, done) (sent evs)
      (t', if rc = 0 \<and> \<not> rsp_ignored dgram stack then done @ [cmd (hd (ctrl_list t))] else done)"

inductive_cases ctrl_stepE: "ctrl_step s out s'"

definition ctrl_good :: "trx_if \<times> string list \<Rightarrow> bool" where
  "ctrl_good s \<longleftrightarrow> (\<forall>m \<in> set (tl (ctrl_list (fst s))). retry_cnt m = 0)"

definition ctrl_abs :: "trx_if \<times> string list \<Rightarrow> saw" where
  "ctrl_abs s = \<lparr>answered = snd s, waiting = map cmd (ctrl_list (fst s)),
     tries = (case ctrl_list (fst s) of [] \<Rightarrow> 0 | m # _ \<Rightarrow> min 4 (retry_cnt m + 1))\<rparr>"

lemma ctrl_cmd_sim:
  assumes "trx_ctrl_cmd t crit name args = (rc, t', evs)" "ctrl_good (t, a)"
  shows "saw_step (ctrl_abs (t, a)) (sent evs) (ctrl_abs (t', a)) \<and> ctrl_good (t', a)"
proof (cases "ctrl_list t")
  case Nil
  then show ?thesis
    using ctrl_cmd_queue [OF assms(1)] saw_ask_first [of "ctrl_abs (t, a)" "ctrl_text name args"]
    by (simp add: ctrl_abs_def ctrl_good_def new_msg_def)
next
  case (Cons m ms)
  then show ?thesis
    using ctrl_cmd_queue [OF assms(1)] assms(2) saw_ask [of "ctrl_abs (t, a)" "ctrl_text name args"]
    by (simp add: ctrl_abs_def ctrl_good_def new_msg_def)
qed

lemma ctrl_timer_sim:
  assumes "trx_ctrl_timer_cb t = (t', evs)" "ctrl_good (t, a)"
  shows "saw_step (ctrl_abs (t, a)) (sent evs) (ctrl_abs (t', a)) \<and> ctrl_good (t', a)"
proof (cases "ctrl_list t")
  case Nil
  then show ?thesis
    using assms saw_idle [of "ctrl_abs (t, a)"] by (auto simp: trx_ctrl_timer_cb_def ctrl_abs_def ctrl_good_def Let_def)
next
  case (Cons m ms)
  let ?m = "m\<lparr>retry_cnt := retry_cnt m + 1\<rparr>"
  show ?thesis
  proof (cases "retry_cnt m + 1 > 3")
    case True
    then show ?thesis
      using assms Cons saw_idle [of "ctrl_abs (t, a)"]
      by (auto simp: trx_ctrl_timer_cb_def ctrl_abs_def ctrl_good_def Let_def min_def)
  next
    case False
    then have "trx_ctrl_send (t\<lparr>ctrl_timer := False, ctrl_list := ?m # ms\<rparr>) = (t', evs)"
      using assms(1) Cons by (simp add: trx_ctrl_timer_cb_def Let_def)
    from ctrl_send_queue [OF this] show ?thesis
      using Cons False assms(2) saw_retry [of "ctrl_abs (t, a)" "cmd m" "map cmd ms"]
      by (simp add: ctrl_abs_def ctrl_good_def)
  qed
qed

lemma ctrl_rsp_sim:
  assumes "trx_ctrl_read_cb t dgram stack r0 f0 d0 = Some (rc, t', evs)" "ctrl_good (t, a)"
  shows "saw_step (ctrl_abs (t, a)) (sent evs)
      (ctrl_abs (t', if rc = 0 \<and> \<not> rsp_ignored dgram stack then a @ [cmd (hd (ctrl_list t))] else a))
    \<and> ctrl_good (t', if rc = 0 \<and> \<not> rsp_ignored dgram stack then a @ [cmd (hd (ctrl_list t))] else a)"
  using assms(1)
proof (cases rule: read_cb_cases)
  case (4 m ms)
  obtain new where n: "ctrl_list t' = ms @ new" "sent evs = map cmd (take 1 (ms @ new))"
    "\<forall>m \<in> set new. retry_cnt m = 0"
    using ctrl_next_queue [OF 4(3) [symmetric]] 4(1) by auto
  have r: "\<forall>m \<in> set (ms @ new). retry_cnt m = 0" using n(3) assms(2) 4(1) by (auto simp: ctrl_good_def)
  have "ctrl_abs (t', a @ [cmd m]) = \<lparr>answered = a @ [cmd m], waiting = map cmd ms @ map cmd new,
      tries = (if map cmd ms @ map cmd new = [] then 0 else 1)\<rparr>"
    using r n(1) by (cases "ms @ new") (auto simp: ctrl_abs_def map_append [symmetric] simp del: map_append)
  then have "saw_step (ctrl_abs (t, a)) (take 1 (map cmd ms @ map cmd new)) (ctrl_abs (t', a @ [cmd m]))"
    using saw_answer [of "ctrl_abs (t, a)" "cmd m" "map cmd ms" "map cmd new"] 4(1) by (simp add: ctrl_abs_def)
  moreover have "ctrl_good (t', a @ [cmd m])" using r n(1) by (cases "ms @ new") (auto simp: ctrl_good_def)
  ultimately show ?thesis using 4(1,2,4) n(2) by (simp add: take_map)
qed (use assms(2) saw_idle [of "ctrl_abs (t, a)"] in \<open>simp_all add: ctrl_abs_def ctrl_good_def\<close>)

interpretation trxc: stop_and_wait ctrl_step ctrl_good ctrl_abs
proof
  fix s out s'
  assume g: "ctrl_good s" and "ctrl_step s out s'"
  from this(2) show "saw_step (ctrl_abs s) out (ctrl_abs s') \<and> ctrl_good s'"
    using g by cases (simp_all only: ctrl_cmd_sim ctrl_timer_sim ctrl_rsp_sim)
qed

section \<open>The requests of a run\<close>

text \<open>
  The text of the request that the response to a power measurement makes, if it makes one: the
  next channel, unless the one measured is not the expected one, or the last, or is followed by
  a number that is no channel.
\<close>

definition measure_requests :: "trx_if \<Rightarrow> string \<Rightarrow> u32 \<Rightarrow> 32 word \<Rightarrow> string list" where
  "measure_requests t resp f d =
    (let a = gsm_freq102arfcn (ucast (fst (scan_two resp f d) div 100)) False; freq10 = gsm_arfcn2freq10 (a + 1) False in
     if a = pm_band_arfcn_start t \<and> a \<noteq> pm_band_arfcn_stop t \<and> freq10 \<noteq> 0xffff
     then [ctrl_text ''MEASURE'' (Some (khz freq10))] else [])"

definition rsp_requests :: "trx_if \<Rightarrow> string \<Rightarrow> string \<Rightarrow> u32 \<Rightarrow> 32 word \<Rightarrow> string list" where
  "rsp_requests t c buf f d =
    (if \<not> streq_n (drop 4 c) ''POWERON'' 7 \<and> \<not> streq_n (drop 4 c) ''POWEROFF'' 8 \<and> streq_n (drop 4 c) ''MEASURE'' 7
     then measure_requests t (drop 14 buf) f d else [])"

definition accepted :: "trx_if \<Rightarrow> int \<Rightarrow> string \<Rightarrow> string \<Rightarrow> bool" where
  "accepted t rc dgram stack \<longleftrightarrow> rc = 0 \<and> \<not> rsp_ignored dgram stack"

text \<open>
  The runs of the interface from a state \<open>t0\<close>, seen from outside: the texts of all commands
  requested so far in the order of their requests, the number of responses accepted, the
  control datagrams transmitted, and the state reached.
\<close>

inductive ctrl_history :: "trx_if \<Rightarrow> string list \<Rightarrow> nat \<Rightarrow> string list \<Rightarrow> trx_if \<Rightarrow> bool" for t0 where
  hist_start: "ctrl_history t0 [] 0 [] t0"
| hist_cmd: "ctrl_history t0 reqs n out t \<Longrightarrow> trx_ctrl_cmd t crit name args = (rc, t', evs) \<Longrightarrow>
    ctrl_history t0 (reqs @ [ctrl_text name args]) n (out @ sent evs) t'"
| hist_timer: "ctrl_history t0 reqs n out t \<Longrightarrow> ctrl_timer t \<Longrightarrow> trx_ctrl_timer_cb t = (t', evs) \<Longrightarrow>
    ctrl_history t0 reqs n (out @ sent evs) t'"
| hist_rsp: "ctrl_history t0 reqs n out t \<Longrightarrow> trx_ctrl_read_cb t dgram stack r0 f0 d0 = Some (rc, t', evs) \<Longrightarrow>
    \<not> accepted t rc dgram stack \<Longrightarrow> ctrl_history t0 reqs n (out @ sent evs) t'"
| hist_answer: "ctrl_history t0 reqs n out t \<Longrightarrow> trx_ctrl_read_cb t dgram stack r0 f0 d0 = Some (rc, t', evs) \<Longrightarrow>
    accepted t rc dgram stack \<Longrightarrow>
    ctrl_history t0 (reqs @ rsp_requests t (cmd (hd (ctrl_list t))) (rsp_buf dgram stack) f0 d0) (Suc n) (out @ sent evs) t'"

lemma measure_rsp_requests:
  "trx_if_measure_rsp_cb t resp f d = (t', evs) \<Longrightarrow>
    map cmd (ctrl_list t') = map cmd (ctrl_list t) @ measure_requests t resp f d"
  by (auto simp: trx_if_measure_rsp_cb_def measure_requests_def Let_def trx_if_cmd_measure_def new_msg_def
      split: prod.splits if_splits dest!: ctrl_cmd_queue)

lemma confirmed_requests:
  "ctrl_confirmed t c buf f d = (t', evs) \<Longrightarrow> map cmd (ctrl_list t') = map cmd (ctrl_list t) @ rsp_requests t c buf f d"
  by (auto simp: ctrl_confirmed_def rsp_requests_def split: if_splits dest: measure_rsp_requests)

lemma ctrl_next_requests:
  assumes "ctrl_next t c buf f d = (t', evs)" "ctrl_list t = m # ms"
  shows "map cmd (ctrl_list t') = map cmd ms @ rsp_requests t c buf f d"
proof -
  obtain t1 e1 where 1: "ctrl_confirmed t c buf f d = (t1, e1)" by fastforce
  obtain t2 e2 where 2: "trx_ctrl_send (t1\<lparr>ctrl_list := tl (ctrl_list t1)\<rparr>) = (t2, e2)" by fastforce
  have "t' = t2" using assms(1) 1 2 by (simp add: ctrl_next_def)
  then show ?thesis
    using ctrl_send_queue [OF 2] confirmed_requests [OF 1] assms(2) by (cases "ctrl_list t1") (auto simp: map_tl)
qed

lemma read_cb_requests:
  assumes "trx_ctrl_read_cb t dgram stack r0 f0 d0 = Some (rc, t', evs)"
  shows "if accepted t rc dgram stack
    then ctrl_list t \<noteq> [] \<and> map cmd (ctrl_list t') =
      map cmd (tl (ctrl_list t)) @ rsp_requests t (cmd (hd (ctrl_list t))) (rsp_buf dgram stack) f0 d0
    else ctrl_list t' = ctrl_list t"
  using assms
proof (cases rule: read_cb_cases)
  case (4 m ms)
  have "rsp_requests (t\<lparr>ctrl_timer := False\<rparr>) = rsp_requests t"
    by (intro ext) (simp add: rsp_requests_def measure_requests_def)
  then show ?thesis
    using ctrl_next_requests [OF 4(3) [symmetric], of m ms] 4(1,2,4) by (simp add: accepted_def)
qed (simp_all add: accepted_def)

text \<open>A history is a run, in which the commands answered are the first of those requested.\<close>

lemma ctrl_history_run:
  assumes "ctrl_history t0 reqs n out t" "ctrl_list t0 = []"
  shows "trxc.run (t0, []) out (t, take n reqs) \<and> n \<le> length reqs \<and> map cmd (ctrl_list t) = drop n reqs"
  using assms(1)
proof (induction rule: ctrl_history.induct)
  case hist_start
  then show ?case using assms(2) by (simp add: trxc.run_refl)
next
  case (hist_cmd reqs n out t crit name args rc t' evs)
  then show ?case
    using trxc.run_step [OF _ step_cmd [OF hist_cmd.hyps(2)], of "(t0, [])" out "take n reqs"] ctrl_cmd_queue [OF hist_cmd.hyps(2)]
    by (simp add: new_msg_def)
next
  case (hist_timer reqs n out t t' evs)
  have "map cmd (ctrl_list t') = map cmd (ctrl_list t)"
    using hist_timer.hyps(3) by (auto simp: trx_ctrl_timer_cb_def Let_def split: list.splits if_splits dest!: ctrl_send_queue)
  then show ?case
    using trxc.run_step [OF _ step_timer [OF hist_timer.hyps(2,3)], of "(t0, [])" out "take n reqs"] hist_timer.IH by simp
next
  case (hist_rsp reqs n out t dgram stack r0 f0 d0 rc t' evs)
  then show ?case
    using trxc.run_step [OF _ step_rsp [OF hist_rsp.hyps(2)], of "(t0, [])" out "take n reqs"] read_cb_requests [OF hist_rsp.hyps(2)]
    by (auto simp: accepted_def)
next
  case (hist_answer reqs n out t dgram stack r0 f0 d0 rc t' evs)
  have q: "ctrl_list t \<noteq> []" "map cmd (ctrl_list t') =
      map cmd (tl (ctrl_list t)) @ rsp_requests t (cmd (hd (ctrl_list t))) (rsp_buf dgram stack) f0 d0"
    using read_cb_requests [OF hist_answer.hyps(2)] hist_answer.hyps(3) by simp_all
  have d: "map cmd (ctrl_list t) = drop n reqs" "n \<le> length reqs" using hist_answer.IH by simp_all
  then have n: "n < length reqs" using q(1) by (cases "n = length reqs") auto
  have "cmd (hd (ctrl_list t)) = hd (drop n reqs)" using q(1) by (simp add: hd_map flip: d(1))
  then have h: "take n reqs @ [cmd (hd (ctrl_list t))] = take (Suc n) reqs"
    using n by (simp add: hd_drop_conv_nth take_Suc_conv_app_nth)
  have "map cmd (tl (ctrl_list t)) = drop (Suc n) reqs" using d(1) by (simp add: map_tl drop_Suc tl_drop)
  then show ?case
    using trxc.run_step [OF _ step_rsp [OF hist_answer.hyps(2)], of "(t0, [])" out "take n reqs"] hist_answer q n h
    by (simp add: accepted_def)
qed

section \<open>Properties\<close>

text \<open>
  C21. The control interface refines the stop-and-wait protocol: every request, expiry of the
  response timer and received datagram is one step of the abstract protocol under the
  abstraction to answered commands, waiting commands and transmissions of the first of
  them. A command is transmitted only when it is the first in the queue, a further time
  only after a timeout and at most four times in all, and the next one only when a response
  to the one before it was accepted.
\<close>

theorem ctrl_refines_stop_and_wait:
  assumes "ctrl_good (t, a)" "ctrl_step (t, a) out (t', a')"
  shows "saw_step (ctrl_abs (t, a)) out (ctrl_abs (t', a')) \<and> ctrl_good (t', a')"
  using trxc.step_sim [OF assms] .

theorem ctrl_refines_stop_and_wait_witness:
  "saw_step \<lparr>answered = [], waiting = [''CMD ECHO''], tries = 1\<rparr> []
     \<lparr>answered = [], waiting = [''CMD ECHO'', ''CMD SETTA -3''], tries = 1\<rparr>"
proof -
  let ?m = "\<lparr>cmd = ''CMD ECHO'', retry_cnt = 0, critical = True, cmd_len = 4\<rparr>"
  let ?t = "trx_if_open\<lparr>ctrl_timer := True, ctrl_list := [?m], fsm_state := TRX_STATE_RSP_WAIT\<rparr>"
  have c: "ctrl_text ''SETTA'' (Some ''-3'') = ''CMD SETTA -3''" by (simp add: ctrl_text_def)
  have g: "ctrl_good (?t, [])" by (simp add: ctrl_good_def)
  obtain rc t' evs where x: "trx_ctrl_cmd ?t False ''SETTA'' (Some ''-3'') = (rc, t', evs)" by (cases "trx_ctrl_cmd ?t False ''SETTA'' (Some ''-3'')")
  note q = ctrl_cmd_queue [OF x]
  from ctrl_refines_stop_and_wait [OF g step_cmd [OF x, of "[]"]] show ?thesis
    using q c by (simp add: ctrl_abs_def new_msg_def)
qed

text \<open>
  C22. Control commands are transmitted in the order of their requests, one at a time. In any run
  that starts with an empty queue, as the interface is opened, and whatever is requested
  (the power scan's own requests included), times out or is received: if \<open>reqs\<close> are the texts
  of all commands requested so far, in the order of their requests, and \<open>n\<close> responses were
  accepted, then the first \<open>n\<close> of \<open>reqs\<close> are the answered ones, the queue holds exactly the others in
  their order, and the sequence of all control datagrams is the first \<open>n\<close> of \<open>reqs\<close>, and
  the one after them if there is one, each repeated one to four times. No command is skipped,
  reordered or sent before its predecessor is answered.
\<close>

theorem ctrl_commands_in_order:
  assumes "ctrl_list t0 = []" "ctrl_history t0 reqs n out t"
  shows "n \<le> length reqs \<and> map cmd (ctrl_list t) = drop n reqs \<and>
    (\<exists>ks. length ks = min (length reqs) (Suc n) \<and> (\<forall>k \<in> set ks. 1 \<le> k \<and> k \<le> 4) \<and> out = transmissions ks reqs)"
proof -
  have r: "trxc.run (t0, []) out (t, take n reqs)" and n: "n \<le> length reqs" and q: "map cmd (ctrl_list t) = drop n reqs"
    using ctrl_history_run [OF assms(2,1)] by simp_all
  have "saw_ok (ctrl_abs (t, take n reqs)) out"
    by (rule trxc.run_ok [OF r]) (simp_all add: ctrl_good_def ctrl_abs_def saw_init_def assms(1))
  note ok = saw_ok_alt [OF this]
  have a: "answered (ctrl_abs (t, take n reqs)) = take n reqs" "waiting (ctrl_abs (t, take n reqs)) = drop n reqs"
    by (simp_all add: ctrl_abs_def q)
  show ?thesis using transmissions_upto [OF n ok [unfolded a]] n q by blast
qed

theorem ctrl_commands_in_order_witness:
  "\<exists>t ks. ctrl_history trx_if_open [''CMD ECHO'', ''CMD POWERON''] 0 [''CMD ECHO'', ''CMD ECHO''] t
     \<and> map cmd (ctrl_list t) = [''CMD ECHO'', ''CMD POWERON'']
     \<and> length ks = 1 \<and> [''CMD ECHO'', ''CMD ECHO''] = transmissions ks [''CMD ECHO'', ''CMD POWERON'']"
proof -
  let ?m = "\<lparr>cmd = ''CMD ECHO'', retry_cnt = 0, critical = True, cmd_len = 4\<rparr>"
  let ?p = "\<lparr>cmd = ''CMD POWERON'', retry_cnt = 0, critical = True, cmd_len = 7\<rparr>"
  let ?t1 = "trx_if_open\<lparr>ctrl_timer := True, ctrl_list := [?m], fsm_state := TRX_STATE_RSP_WAIT\<rparr>"
  let ?t2 = "?t1\<lparr>ctrl_list := [?m, ?p]\<rparr>"
  let ?t3 = "?t1\<lparr>ctrl_list := [?m\<lparr>retry_cnt := 1\<rparr>, ?p]\<rparr>"
  have c: "ctrl_text ''ECHO'' None = ''CMD ECHO''" "ctrl_text ''POWERON'' None = ''CMD POWERON''"
    by (simp_all add: ctrl_text_def)
  have 1: "trx_ctrl_cmd trx_if_open True ''ECHO'' None = (0, ?t1, [CtrlSent ''CMD ECHO''])"
    by (simp add: trx_ctrl_cmd_def trx_ctrl_send_def c trx_if_open_def state_chg_def Let_def)
  have 2: "trx_ctrl_cmd ?t1 True ''POWERON'' None = (0, ?t2, [])"
    by (simp add: trx_ctrl_cmd_def c Let_def)
  have 3: "trx_ctrl_timer_cb ?t2 = (?t3, [CtrlSent ''CMD ECHO''])"
    by (simp add: trx_ctrl_timer_cb_def trx_ctrl_send_def trx_if_open_def Let_def)
  note h = hist_timer [OF hist_cmd [OF hist_cmd [OF hist_start 1] 2] _ 3]
  have r: "ctrl_history trx_if_open [''CMD ECHO'', ''CMD POWERON''] 0 [''CMD ECHO'', ''CMD ECHO''] ?t3"
    using h by (simp add: c)
  have e: "ctrl_list trx_if_open = []" by (simp add: trx_if_open_def)
  from ctrl_commands_in_order [OF e r] r show ?thesis by auto
qed

end
