(* ===== verification/TrxIfReply.thy ===== *)
theory TrxIfReply
  imports TrxIfQueue
begin

text \<open>
  Responses to the commands of the transceiver interface: what a well formed response does,
  the queue that stalls after a rejection, the power scan, and the length of the hopping
  command.
\<close>

section \<open>Well formed responses\<close>

definition name_ok :: "string \<Rightarrow> bool" where
  "name_ok n \<longleftrightarrow> (\<forall>c \<in> set n. c \<noteq> CHR '' '' \<and> c \<noteq> NUL)"

lemma rsp_buf_small: "length d \<le> 1023 \<Longrightarrow> rsp_buf d stack = d @ NUL # drop (length d + 1) stack"
  by (simp add: rsp_buf_def)

lemma takeWhile_name: "name_ok n \<Longrightarrow> takeWhile (\<lambda>x. x \<noteq> CHR '' '') (n @ CHR '' '' # s) = n"
  by (induction n) (simp_all add: name_ok_def)

lemma scan_int_cstr: "NUL \<notin> set s \<Longrightarrow> scan_int (s @ NUL # x) = scan_int s"
  by (simp add: scan_int_def cstr_append cstr_id)

text \<open>A response with the name of the command at the head of the queue.\<close>

lemma read_cb_reply:
  assumes name: "name_ok name" and arg: "NUL \<notin> set arg" and len: "length name + length arg \<le> 1018"
    and l: "ctrl_list t = m # ms" and c: "cmd m = ''CMD '' @ name @ rest"
  shows "trx_ctrl_read_cb t (''RSP '' @ name @ '' '' @ arg) stack r0 f0 d0 =
    (if (case scan_int arg of None \<Rightarrow> r0 | Some (v, _) \<Rightarrow> v) \<noteq> 0 \<and> critical m
     then Some (- EIO, t\<lparr>ctrl_timer := False\<rparr>, [TrxRspError])
     else Some (0, ctrl_next (t\<lparr>ctrl_timer := False\<rparr>) (cmd m) (rsp_buf (''RSP '' @ name @ '' '' @ arg) stack) f0 d0))"
proof -
  let ?d = "''RSP '' @ name @ '' '' @ arg"
  let ?x = "drop (length ?d + 1) stack"
  have n0: "NUL \<notin> set name" using name by (auto simp: name_ok_def)
  define buf where "buf = rsp_buf ?d stack"
  have b: "buf = ''RSP '' @ name @ '' '' @ arg @ NUL # ?x"
    unfolding buf_def using rsp_buf_small [of ?d stack] len by simp
  have z: "NUL \<notin> set (''RSP '' @ name @ '' '' @ arg)" "NUL \<notin> set (name @ '' '' @ arg)" using n0 arg by simp_all
  have cs: "cstr buf = ''RSP '' @ name @ '' '' @ arg"
    using cstr_append [OF z(1), of "NUL # ?x"] unfolding b by simp
  have dr: "drop 4 buf = name @ '' '' @ arg @ NUL # ?x" unfolding b by simp
  have cs4: "cstr (drop 4 buf) = name @ '' '' @ arg"
    using cstr_append [OF z(2), of "NUL # ?x"] unfolding dr by simp
  have 1: "streq_n buf ''RSP '' 4" unfolding streq_n_def cs by (simp add: cstr_id)
  have 2: "strchr_off (drop 4 buf) (CHR '' '') = Some (length name)"
    unfolding strchr_off_def cs4 using takeWhile_name [OF name, of arg] by (simp add: Let_def)
  have 3: "streq_n (drop 4 buf) (drop 4 (cmd m)) (length name)"
    unfolding streq_n_def cs4 c using cstr_append [OF n0, of rest] by simp
  have 4: "scan_int (drop (4 + length name + 1) buf) = scan_int arg"
  proof -
    have "buf = (''RSP '' @ name @ '' '') @ arg @ NUL # ?x" unfolding b by simp
    then have "drop (length (''RSP '' @ name @ '' '')) buf = arg @ NUL # ?x"
      using append_eq_conv_conj [of "''RSP '' @ name @ '' ''" "arg @ NUL # ?x" buf] by simp
    moreover have "length (''RSP '' @ name @ '' '') = 4 + length name + 1" by simp
    ultimately have "drop (4 + length name + 1) buf = arg @ NUL # ?x" by (simp only:)
    then show ?thesis by (simp add: scan_int_cstr [OF arg])
  qed
  have ne: "?d \<noteq> []" by simp
  show ?thesis
    unfolding trx_ctrl_read_cb_def Let_def buf_def [symmetric]
    by (simp only: ne if_False 1 not_True_eq_False 2 option.case 3 4 trx_if.select_convs trx_if.update_convs list.case)
      (simp add: l 3)
qed

lemma scan_int_number: "scan_int (dec_int v) = Some (v, [])"
  using scan_int_dec_int [of "[]" "[]" v] by (simp add: cstr_def)

lemma dec_int_0: "dec_int 0 = ''0''"
  by code_simp

lemma length_dec_int: "\<bar>v\<bar> < 10 ^ 20 \<Longrightarrow> length (dec_int v) \<le> 21"
proof -
  assume "\<bar>v\<bar> < 10 ^ 20"
  then have "nat \<bar>v\<bar> < 10 ^ 20" by simp
  from length_dec_nat [OF _ this] show "length (dec_int v) \<le> 21" by (cases "v < 0") (simp_all add: dec_int_def)
qed

text \<open>The name of a command, and the commands the interface composes.\<close>

definition cmd_name :: "trx_ctrl_msg \<Rightarrow> string" where
  "cmd_name m = takeWhile (\<lambda>c. c \<noteq> CHR '' '') (drop 4 (cmd m))"

definition wf_msg :: "trx_ctrl_msg \<Rightarrow> bool" where
  "wf_msg m \<longleftrightarrow> (\<exists>rest. cmd m = ''CMD '' @ cmd_name m @ rest) \<and> name_ok (cmd_name m) \<and> length (cmd_name m) \<le> 16"

lemma wf_msgI:
  "cmd m = ''CMD '' @ name @ rest \<Longrightarrow> name_ok name \<Longrightarrow> rest = [] \<or> hd rest = CHR '' '' \<Longrightarrow> length name \<le> 16 \<Longrightarrow>
    wf_msg m \<and> cmd_name m = name"
proof -
  assume a: "cmd m = ''CMD '' @ name @ rest" "name_ok name" "rest = [] \<or> hd rest = CHR '' ''" "length name \<le> 16"
  have "takeWhile (\<lambda>c. c \<noteq> CHR '' '') (name @ rest) = name"
    using a(2,3) by (cases rest) (auto simp: name_ok_def takeWhile_append2 takeWhile_eq_all_conv)
  then have "cmd_name m = name" by (simp add: cmd_name_def a(1))
  then show ?thesis using a by (auto simp: wf_msg_def)
qed

lemma read_cb_status:
  assumes "wf_msg m" "ctrl_list t = m # ms" "\<bar>v\<bar> < 10 ^ 20"
  shows "trx_ctrl_read_cb t (''RSP '' @ cmd_name m @ '' '' @ dec_int v) stack r0 f0 d0 =
    (if v \<noteq> 0 \<and> critical m then Some (- EIO, t\<lparr>ctrl_timer := False\<rparr>, [TrxRspError])
     else Some (0, ctrl_next (t\<lparr>ctrl_timer := False\<rparr>) (cmd m)
       (rsp_buf (''RSP '' @ cmd_name m @ '' '' @ dec_int v) stack) f0 d0))"
proof -
  obtain rest where r: "cmd m = ''CMD '' @ cmd_name m @ rest" "name_ok (cmd_name m)" "length (cmd_name m) \<le> 16"
    using assms(1) by (auto simp: wf_msg_def)
  have "length (cmd_name m) + length (dec_int v) \<le> 1018"
    using r(3) length_dec_int [OF assms(3)] by simp
  from read_cb_reply [OF r(2) dec_int_no_NUL this assms(2) r(1)] show ?thesis
    by (simp add: scan_int_number)
qed

section \<open>A cooperative transceiver\<close>

text \<open>Every command waiting is answered with success, in turn, \<open>n\<close> times.\<close>

fun answer_all :: "string \<Rightarrow> nat \<Rightarrow> trx_if \<Rightarrow> (trx_if \<times> if_event list) option" where
  "answer_all stack 0 t = Some (t, [])"
| "answer_all stack (Suc n) t =
    (case ctrl_list t of
       [] \<Rightarrow> Some (t, [])
     | m # _ \<Rightarrow> do {
         (rc, t, evs) \<leftarrow> trx_ctrl_read_cb t (''RSP '' @ cmd_name m @ '' 0'') stack 0 0 0;
         (t, evs') \<leftarrow> answer_all stack n t;
         Some (t, evs @ evs')
       })"

lemma confirmed_other:
  assumes "\<not> streq_n (drop 4 c) ''MEASURE'' 7" "ctrl_confirmed t c buf f d = (t', evs)"
  shows "ctrl_list t' = ctrl_list t \<and> evs = [] \<and> ctrl_timer t' = ctrl_timer t"
  using assms by (auto simp: ctrl_confirmed_def split: if_splits)

lemma answer_all_ok:
  "length (ctrl_list t) = n \<Longrightarrow>
    (\<forall>m \<in> set (ctrl_list t). wf_msg m \<and> \<not> streq_n (drop 4 (cmd m)) ''MEASURE'' 7) \<Longrightarrow>
    \<exists>t' evs. answer_all stack n t = Some (t', evs) \<and> ctrl_list t' = [] \<and> evs = map (CtrlSent \<circ> cmd) (tl (ctrl_list t))
      \<and> (ctrl_list t \<noteq> [] \<longrightarrow> \<not> ctrl_timer t')"
proof (induction n arbitrary: t)
  case 0
  then show ?case by simp
next
  case (Suc n)
  then obtain m ms where l: "ctrl_list t = m # ms" by (cases "ctrl_list t") auto
  let ?b = "rsp_buf (''RSP '' @ cmd_name m @ '' '' @ dec_int 0) stack"
  obtain t1 e1 where 1: "ctrl_confirmed (t\<lparr>ctrl_timer := False\<rparr>) (cmd m) ?b 0 0 = (t1, e1)" by fastforce
  obtain t2 e2 where 2: "trx_ctrl_send (t1\<lparr>ctrl_list := tl (ctrl_list t1)\<rparr>) = (t2, e2)" by fastforce
  have c: "ctrl_list t1 = m # ms" "e1 = []" "\<not> ctrl_timer t1" using confirmed_other [OF _ 1] Suc.prems(2) l by auto
  have s: "ctrl_list t2 = ms" "e2 = map (CtrlSent \<circ> cmd) (take 1 ms)" "ms = [] \<Longrightarrow> \<not> ctrl_timer t2"
    using 2 c by (cases ms; auto simp: ctrl_send_Nil ctrl_send_Cons)+
  have w: "wf_msg m" using Suc.prems(2) l by simp
  have r: "trx_ctrl_read_cb t (''RSP '' @ cmd_name m @ '' 0'') stack 0 0 0 = Some (0, t2, e2)"
    using read_cb_status [OF w l, of 0 stack 0 0 0] 1 2 c(2) by (simp add: dec_int_0 ctrl_next_def)
  have "\<exists>t' evs. answer_all stack n t2 = Some (t', evs) \<and> ctrl_list t' = []
      \<and> evs = map (CtrlSent \<circ> cmd) (tl (ctrl_list t2)) \<and> (ctrl_list t2 \<noteq> [] \<longrightarrow> \<not> ctrl_timer t')"
    by (rule Suc.IH) (use Suc.prems l s(1) in auto)
  then obtain t' evs where a: "answer_all stack n t2 = Some (t', evs)" "ctrl_list t' = []"
    "evs = map (CtrlSent \<circ> cmd) (tl ms)" "ms \<noteq> [] \<longrightarrow> \<not> ctrl_timer t'" using s(1) by auto
  moreover have "ms = [] \<longrightarrow> \<not> ctrl_timer t'" using a(1) s(1,3) by (cases n) auto
  ultimately show ?case using l r s(2) by (cases ms) simp_all
qed

section \<open>A queue that stalls\<close>

definition stalled :: "trx_if \<Rightarrow> bool" where
  "stalled t \<longleftrightarrow> ctrl_list t \<noteq> [] \<and> \<not> ctrl_timer t"

text \<open>
  As long as no response is accepted, whatever else happens: nothing is transmitted, and the
  requests pile up behind the commands that were waiting.
\<close>

definition blocked :: "trx_if \<Rightarrow> bool" where
  "blocked t \<longleftrightarrow> (\<forall>reqs out t'. ctrl_history t reqs 0 out t' \<longrightarrow>
     out = [] \<and> stalled t' \<and> map cmd (ctrl_list t') = map cmd (ctrl_list t) @ reqs)"

lemma stalled_history:
  assumes "ctrl_history t reqs n out t'" "stalled t"
  shows "n = 0 \<longrightarrow> out = [] \<and> stalled t' \<and> map cmd (ctrl_list t') = map cmd (ctrl_list t) @ reqs"
  using assms(1)
proof (induction rule: ctrl_history.induct)
  case (hist_cmd reqs n out u crit name args rc u' evs)
  then show ?case using ctrl_cmd_queue [OF hist_cmd.hyps(2)] by (auto simp: stalled_def new_msg_def)
next
  case (hist_timer reqs n out u u' evs)
  then show ?case by (auto simp: stalled_def)
next
  case (hist_rsp reqs n out u dgram stack r0 f0 d0 rc u' evs)
  show ?case
    using hist_rsp.IH hist_rsp.hyps(3) by (cases rule: read_cb_cases [OF hist_rsp.hyps(2)]) (auto simp: stalled_def accepted_def)
qed (use assms(2) in simp_all)

lemma stalled_blocked: "stalled t \<Longrightarrow> blocked t"
  using stalled_history by (auto simp: blocked_def)

section \<open>The power scan\<close>

definition measure_rsp :: "u16 \<Rightarrow> int \<Rightarrow> string" where
  "measure_rsp a dbm = ''RSP MEASURE 0 '' @ khz (gsm_arfcn2freq10 a False) @ '' '' @ dec_int dbm"

lemma scan_two_rsp:
  assumes "\<bar>d\<bar> < 2 ^ 31"
  shows "scan_two (khz f @ '' '' @ dec_int d @ NUL # x) f0 d0 = (of_nat (unat f * 100), word_of_int d)"
proof -
  let ?r = "'' '' @ dec_int d @ NUL # x"
  have c: "cstr (dec_int d @ NUL # x) = dec_int d" using cstr_append [OF dec_int_no_NUL, of d "NUL # x"] by simp
  have cr: "cstr ?r = '' '' @ dec_int d" using cstr_append [of "'' ''" "dec_int d @ NUL # x"] c by simp
  have nd: "\<not> isdigit (CHR '' '')" by (simp add: isdigit_def)
  have "dec_nat n = dec_int (int n)" for n by (simp add: dec_int_def)
  then have "khz f = dec_int (int (unat f * 100))" by (simp only: khz_def)
  then have "scan_int (khz f @ ?r) = Some (int (unat f * 100), '' '' @ dec_int d)"
    using scan_int_dec_int [of ?r "[]" "int (unat f * 100)"] cr nd by simp
  moreover have "scan_int ('' '' @ dec_int d) = Some (d, [])"
    using scan_int_dec_int [of "[]" "'' ''" d] by (simp add: cstr_def isspace_def)
  ultimately show ?thesis unfolding scan_two_def by simp
qed

lemma khz_no_NUL: "NUL \<notin> set (khz f)"
  by (simp add: khz_def dec_nat_no_NUL)

lemma khz_back: "ucast ((of_nat (unat (f :: u16) * 100) :: u32) div 100) = f"
proof -
  have "unat f * 100 < 2 ^ 32" using unat_u16_less [of f] by simp
  then have "unat (of_nat (unat f * 100) :: u32) = unat f * 100" by (simp only: unsigned_of_nat) (simp add: take_bit_nat_eq_self)
  then have u: "unat ((of_nat (unat f * 100) :: u32) div 100) = unat f" by (simp add: unat_div)
  have "unat (ucast ((of_nat (unat f * 100) :: u32) div 100) :: u16) = unat f"
    using unat_ucast_small [where ?'b = 16, of "(of_nat (unat f * 100) :: u32) div 100"] u unat_u16_less [of f] by simp
  then show ?thesis by (simp add: word_unat_eq_iff)
qed

text \<open>The command for a channel, and the answers of a transceiver for a list of them.\<close>

definition measure_text :: "u16 \<Rightarrow> string" where
  "measure_text a = ''CMD MEASURE '' @ khz (gsm_arfcn2freq10 a False)"

lemma length_khz: "length (khz f) \<le> 7"
proof -
  have "unat f * 100 < 10 ^ 7" using unat_u16_less [of f] by simp
  then show ?thesis unfolding khz_def by (rule length_dec_nat [rotated]) simp
qed

lemma measure_ctrl_text: "ctrl_text ''MEASURE'' (Some (khz (gsm_arfcn2freq10 a False))) = measure_text a"
  using length_khz [of "gsm_arfcn2freq10 a False"] by (simp add: ctrl_text_def measure_text_def)

lemma measure_kinds:
  "\<not> streq_n (drop 4 (measure_text a)) ''POWERON'' 7" "\<not> streq_n (drop 4 (measure_text a)) ''POWEROFF'' 8"
  "streq_n (drop 4 (measure_text a)) ''MEASURE'' 7"
  using cstr_append [of "''MEASURE ''" "khz (gsm_arfcn2freq10 a False)"]
  by (simp_all add: streq_n_def measure_text_def cstr_id)

lemma sint_of_level: "\<bar>d\<bar> < 2 ^ 31 \<Longrightarrow> sint (word_of_int d :: 32 word) = d"
  by (subst sint_sbintrunc') (simp add: signed_take_bit_int_eq_self)

lemma scan_step:
  assumes l: "ctrl_list t = [m]" "cmd m = measure_text a" and a: "pm_band_arfcn_start t = a" "gsm_arfcn2freq10 a False \<noteq> 0xffff"
    and d: "\<bar>d\<bar> < 2 ^ 31"
  shows "trx_ctrl_read_cb t (measure_rsp a d) stack r0 f0 d0 = Some (0,
    (if a = pm_band_arfcn_stop t then (t\<lparr>ctrl_timer := False, ctrl_list := []\<rparr>, [PmConf a (dbm2rxlev d) True])
     else if gsm_arfcn2freq10 (a + 1) False = 0xffff
     then (t\<lparr>ctrl_timer := False, ctrl_list := [], pm_band_arfcn_start := a + 1\<rparr>, [PmConf a (dbm2rxlev d) False])
     else (let (t', evs) = trx_ctrl_send (t\<lparr>ctrl_timer := False, pm_band_arfcn_start := a + 1,
              ctrl_list := [new_msg True ''MEASURE'' (Some (khz (gsm_arfcn2freq10 (a + 1) False)))]\<rparr>)
           in (t', PmConf a (dbm2rxlev d) False # evs))))"
proof -
  let ?f = "gsm_arfcn2freq10 a False"
  let ?arg = "''0 '' @ khz ?f @ '' '' @ dec_int d"
  have rsp: "measure_rsp a d = ''RSP '' @ ''MEASURE'' @ '' '' @ ?arg" by (simp add: measure_rsp_def)
  have arg: "NUL \<notin> set ?arg" using khz_no_NUL dec_int_no_NUL by simp
  have "\<bar>d\<bar> < 10 ^ 20" using d by simp
  from length_dec_int [OF this] length_khz [of ?f]
  have len: "length ''MEASURE'' + length ?arg \<le> 1018" by simp
  have nd: "\<not> isdigit (CHR '' '')" by (simp add: isdigit_def)
  have "cstr ('' '' @ khz ?f @ '' '' @ dec_int d) = '' '' @ khz ?f @ '' '' @ dec_int d"
    by (rule cstr_id) (use khz_no_NUL dec_int_no_NUL in simp)
  then have s0: "scan_int ?arg = Some (0, '' '' @ khz ?f @ '' '' @ dec_int d)"
    using scan_int_dec_int [of "'' '' @ khz ?f @ '' '' @ dec_int d" "[]" 0] nd by (simp add: dec_int_0)
  have c: "cmd m = ''CMD '' @ ''MEASURE'' @ '' '' @ khz ?f" by (simp add: l(2) measure_text_def)
  have n: "name_ok ''MEASURE''" by (simp add: name_ok_def)
  obtain x where b: "rsp_buf (measure_rsp a d) stack = measure_rsp a d @ NUL # x"
    using rsp_buf_small [of "measure_rsp a d" stack] len unfolding rsp by auto
  have "drop 14 (rsp_buf (measure_rsp a d) stack) = khz ?f @ '' '' @ dec_int d @ NUL # x"
    unfolding b by (simp add: measure_rsp_def)
  then have two: "scan_two (drop 14 (rsp_buf (measure_rsp a d) stack)) f0 d0 = (of_nat (unat ?f * 100), word_of_int d)"
    using scan_two_rsp [OF d] by simp
  have bk: "gsm_freq102arfcn ?f False = a" using freq_back [OF a(2)] by simp
  show ?thesis
    unfolding read_cb_reply [OF n arg len l(1) c, folded rsp] s0 ctrl_next_def ctrl_confirmed_def l(2)
      if_not_P [OF measure_kinds(1)] if_not_P [OF measure_kinds(2)] if_P [OF measure_kinds(3)]
      trx_if_measure_rsp_cb_def two Let_def prod.case khz_back bk
    using a l by (simp add: sint_of_level [OF d] trx_if_cmd_measure_def trx_ctrl_cmd_def new_msg_def ctrl_send_Nil split_def Let_def)
qed

text \<open>The answers to a scan, one by one, and what the interface passes on.\<close>

fun answer_scan :: "string \<Rightarrow> (u16 \<times> int) list \<Rightarrow> trx_if \<Rightarrow> (trx_if \<times> if_event list) option" where
  "answer_scan stack [] t = Some (t, [])"
| "answer_scan stack ((a, d) # xs) t = do {
     (rc, t, evs) \<leftarrow> trx_ctrl_read_cb t (measure_rsp a d) stack 0 0 0;
     (t, evs') \<leftarrow> answer_scan stack xs t;
     Some (t, evs @ evs')
   }"

definition scan_events :: "u16 \<Rightarrow> (nat \<Rightarrow> int) \<Rightarrow> nat \<Rightarrow> if_event list" where
  "scan_events start level n = concat (map (\<lambda>i.
     PmConf (start + of_nat i) (dbm2rxlev (level i)) (i = n) #
     (if i = n then [] else [CtrlSent (measure_text (start + of_nat (Suc i)))])) [0..<Suc n])"

lemma upt_0_Suc: "[0..<Suc n] = 0 # map Suc [0..<n]"
  by (simp add: map_Suc_upt upt_conv_Cons del: upt_Suc)

lemma scan_events_0: "scan_events start level 0 = [PmConf start (dbm2rxlev (level 0)) True]"
  by (simp add: scan_events_def)

lemma scan_events_Suc:
  "scan_events start level (Suc n) =
    PmConf start (dbm2rxlev (level 0)) False # CtrlSent (measure_text (start + 1))
      # scan_events (start + 1) (level \<circ> Suc) n"
  unfolding scan_events_def upt_0_Suc [of "Suc n"] by (simp add: o_def add.assoc cong: if_cong del: upt_Suc)

lemma answer_scan_ok:
  assumes "ctrl_list t = [m]" "cmd m = measure_text start" "pm_band_arfcn_start t = start"
    "pm_band_arfcn_stop t = start + of_nat n" "n < 2 ^ 16" "fsm_state t = TRX_STATE_RSP_WAIT"
    "\<forall>i \<le> n. gsm_arfcn2freq10 (start + of_nat i) False \<noteq> 0xffff" "\<forall>i \<le> n. \<bar>level i\<bar> < 2 ^ 31"
  shows "\<exists>t'. answer_scan stack (map (\<lambda>i. (start + of_nat i, level i)) [0..<Suc n]) t = Some (t', scan_events start level n)
    \<and> ctrl_list t' = [] \<and> \<not> ctrl_timer t' \<and> fsm_state t' = TRX_STATE_RSP_WAIT"
  using assms
proof (induction n arbitrary: t m start level)
  case 0
  then show ?case
    using scan_step [OF "0.prems"(1,2,3), of "level 0" stack 0 0 0] by (simp add: scan_events_0)
next
  case (Suc n)
  have f: "gsm_arfcn2freq10 start False \<noteq> 0xffff" "gsm_arfcn2freq10 (start + 1) False \<noteq> 0xffff"
    using Suc.prems(7) [rule_format, of 0] Suc.prems(7) [rule_format, of 1] by simp_all
  have "of_nat (Suc n) \<noteq> (0 :: u16)" using Suc.prems(5) by (simp add: word_of_nat_eq_0_iff nat_dvd_not_less del: of_nat_Suc)
  then have ne: "start \<noteq> pm_band_arfcn_stop t" using Suc.prems(4) by (metis add_cancel_left_right)
  have d: "\<bar>level 0\<bar> < 2 ^ 31" using Suc.prems(8) by simp
  let ?m = "new_msg True ''MEASURE'' (Some (khz (gsm_arfcn2freq10 (start + 1) False)))"
  let ?t = "t\<lparr>ctrl_timer := True, pm_band_arfcn_start := start + 1, ctrl_list := [?m]\<rparr>"
  have r: "trx_ctrl_read_cb t (measure_rsp start (level 0)) stack 0 0 0
      = Some (0, ?t, [PmConf start (dbm2rxlev (level 0)) False, CtrlSent (measure_text (start + 1))])"
    using scan_step [OF Suc.prems(1-3) f(1) d, of stack 0 0 0] ne f(2) Suc.prems(6)
    by (simp add: ctrl_send_Cons new_msg_def measure_ctrl_text)
  have "\<exists>t'. answer_scan stack (map (\<lambda>i. (start + 1 + of_nat i, (level \<circ> Suc) i)) [0..<Suc n]) ?t
      = Some (t', scan_events (start + 1) (level \<circ> Suc) n)
    \<and> ctrl_list t' = [] \<and> \<not> ctrl_timer t' \<and> fsm_state t' = TRX_STATE_RSP_WAIT"
  proof (rule Suc.IH [of ?t ?m])
    show "\<forall>i \<le> n. gsm_arfcn2freq10 (start + 1 + of_nat i) False \<noteq> 0xffff"
      using Suc.prems(7) by (metis Suc_le_mono add.assoc of_nat_Suc)
  qed (use Suc.prems in \<open>simp_all add: new_msg_def measure_ctrl_text add.assoc\<close>)
  then show ?case
    unfolding upt_0_Suc [of "Suc n"] scan_events_Suc using r by (auto simp: o_def add.assoc simp del: upt_Suc)
qed

section \<open>Properties\<close>

text \<open>
  C23. A cooperative transceiver drains the queue. If every command waiting is answered in
  turn with a success response that repeats its name, then after as many responses as there
  are commands the queue is empty, every command behind the first was transmitted exactly
  once and in order, no error was reported, and the response timer is off. (A power
  measurement, which extends the queue, is the subject of the scan below.)
\<close>

theorem responses_drain_queue:
  assumes "\<forall>m \<in> set (ctrl_list t). wf_msg m \<and> \<not> streq_n (drop 4 (cmd m)) ''MEASURE'' 7" "ctrl_list t \<noteq> []"
  shows "\<exists>t'. answer_all stack (length (ctrl_list t)) t = Some (t', map (CtrlSent \<circ> cmd) (tl (ctrl_list t)))
    \<and> ctrl_list t' = [] \<and> \<not> ctrl_timer t'"
  using answer_all_ok [OF refl assms(1), of stack] assms(2) by auto

definition demo_msgs :: "trx_ctrl_msg list" where
  "demo_msgs = [new_msg True ''RXTUNE'' (Some ''935200''), new_msg False ''SETTA'' (Some ''-3''), new_msg True ''POWERON'' None]"

lemma demo_msgs_wf: "\<forall>m \<in> set demo_msgs. wf_msg m \<and> \<not> streq_n (drop 4 (cmd m)) ''MEASURE'' 7"
proof -
  let ?a = "new_msg True ''RXTUNE'' (Some ''935200'')" and ?b = "new_msg False ''SETTA'' (Some ''-3'')"
    and ?c = "new_msg True ''POWERON'' None"
  have "wf_msg ?a" "wf_msg ?b" "wf_msg ?c"
    using wf_msgI [of ?a "''RXTUNE''" "'' 935200''"] wf_msgI [of ?b "''SETTA''" "'' -3''"] wf_msgI [of ?c "''POWERON''" "[]"]
    by (simp_all add: new_msg_def ctrl_text_def name_ok_def)
  then show ?thesis by (simp add: demo_msgs_def streq_n_def new_msg_def ctrl_text_def cstr_def)
qed

theorem responses_drain_queue_witness:
  "\<exists>t'. answer_all [] 3 (trx_if_open\<lparr>ctrl_list := demo_msgs\<rparr>)
     = Some (t', [CtrlSent ''CMD SETTA -3'', CtrlSent ''CMD POWERON'']) \<and> ctrl_list t' = [] \<and> \<not> ctrl_timer t'"
  using responses_drain_queue [of "trx_if_open\<lparr>ctrl_list := demo_msgs\<rparr>" "[]"] demo_msgs_wf
  by (simp add: demo_msgs_def new_msg_def ctrl_text_def numeral_3_eq_3)

text \<open>
  C24. A failure stalls the queue until a response is accepted. When the transceiver rejects a
  critical command, or lets the fourth transmission time out, the response timer is off and
  the command stays at the head of the queue. From then on, in any sequence of requests,
  expiries of the timer and received datagrams of which none is accepted as the response to that
  command, nothing is transmitted, and the requests pile up behind it in their order. What revives the
  queue is a response that is accepted: after a rejection, one that reports success
  removes the command and transmits the next one.
\<close>

theorem failed_command_stalls_queue:
  assumes "wf_msg m" "ctrl_list t = m # ms" "critical m" "v \<noteq> 0" "\<bar>v\<bar> < 10 ^ 20"
  shows "(\<exists>t'. trx_ctrl_read_cb t (''RSP '' @ cmd_name m @ '' '' @ dec_int v) stack r0 f0 d0 = Some (- EIO, t', [TrxRspError])
      \<and> ctrl_list t' = m # ms \<and> blocked t'
      \<and> (\<exists>t'' evs new. trx_ctrl_read_cb t' (''RSP '' @ cmd_name m @ '' '' @ dec_int 0) stack' r0 f0 d0 = Some (0, t'', evs)
           \<and> ctrl_list t'' = ms @ new \<and> sent evs = map cmd (take 1 (ms @ new))))
    \<and> (retry_cnt m = 3 \<longrightarrow> (\<exists>t'. trx_ctrl_timer_cb t = (t', [TrxOffline])
      \<and> map cmd (ctrl_list t') = map cmd (m # ms) \<and> blocked t'))"
proof (intro conjI impI)
  let ?t = "t\<lparr>ctrl_timer := False\<rparr>"
  have r: "trx_ctrl_read_cb t (''RSP '' @ cmd_name m @ '' '' @ dec_int v) stack r0 f0 d0 = Some (- EIO, ?t, [TrxRspError])"
    using read_cb_status [OF assms(1,2,5), of stack r0 f0 d0] assms(3,4) by simp
  have l: "ctrl_list ?t = m # ms" using assms(2) by simp
  obtain t'' evs where n: "ctrl_next (?t\<lparr>ctrl_timer := False\<rparr>) (cmd m)
      (rsp_buf (''RSP '' @ cmd_name m @ '' '' @ dec_int 0) stack') f0 d0 = (t'', evs)" by fastforce
  have "ctrl_list (?t\<lparr>ctrl_timer := False\<rparr>) = m # ms" using assms(2) by simp
  note q = ctrl_next_queue [OF n this]
  have "trx_ctrl_read_cb ?t (''RSP '' @ cmd_name m @ '' '' @ dec_int 0) stack' r0 f0 d0 = Some (0, t'', evs)"
    using read_cb_status [OF assms(1) l, of 0 stack' r0 f0 d0] n by simp
  moreover have "blocked ?t" by (rule stalled_blocked) (simp add: stalled_def assms(2))
  ultimately show "\<exists>t'. trx_ctrl_read_cb t (''RSP '' @ cmd_name m @ '' '' @ dec_int v) stack r0 f0 d0 = Some (- EIO, t', [TrxRspError])
      \<and> ctrl_list t' = m # ms \<and> blocked t'
      \<and> (\<exists>t'' evs new. trx_ctrl_read_cb t' (''RSP '' @ cmd_name m @ '' '' @ dec_int 0) stack' r0 f0 d0 = Some (0, t'', evs)
           \<and> ctrl_list t'' = ms @ new \<and> sent evs = map cmd (take 1 (ms @ new)))"
    using r l q by blast
next
  assume "retry_cnt m = 3"
  then obtain t' where t': "trx_ctrl_timer_cb t = (t', [TrxOffline])" "map cmd (ctrl_list t') = map cmd (m # ms)" "stalled t'"
    using assms(2) by (simp add: trx_ctrl_timer_cb_def stalled_def)
  then show "\<exists>t'. trx_ctrl_timer_cb t = (t', [TrxOffline]) \<and> map cmd (ctrl_list t') = map cmd (m # ms) \<and> blocked t'"
    using stalled_blocked [OF t'(3)] by blast
qed

theorem failed_command_stalls_queue_witness:
  "\<exists>t'. trx_ctrl_read_cb (trx_if_open\<lparr>ctrl_list := demo_msgs, ctrl_timer := True\<rparr>) ''RSP RXTUNE 1'' [] 0 0 0
      = Some (- EIO, t', [TrxRspError]) \<and> blocked t'
      \<and> (\<exists>t'' evs new. trx_ctrl_read_cb t' ''RSP RXTUNE 0'' [] 0 0 0 = Some (0, t'', evs)
           \<and> sent evs = map cmd (take 1 (tl demo_msgs @ new)))"
proof -
  let ?t = "trx_if_open\<lparr>ctrl_list := demo_msgs, ctrl_timer := True\<rparr>"
  have w: "wf_msg (hd demo_msgs)" using demo_msgs_wf by (simp add: demo_msgs_def)
  have l: "ctrl_list ?t = hd demo_msgs # tl demo_msgs" by (simp add: demo_msgs_def)
  have n: "''RSP '' @ cmd_name (hd demo_msgs) @ '' '' @ dec_int 1 = ''RSP RXTUNE 1''"
    "''RSP '' @ cmd_name (hd demo_msgs) @ '' '' @ dec_int 0 = ''RSP RXTUNE 0''" by code_simp+
  have c: "critical (hd demo_msgs)" by (simp add: demo_msgs_def new_msg_def)
  from failed_command_stalls_queue [OF w l c, of 1 "[]" 0 0 0 "[]", unfolded n, THEN conjunct1]
  show ?thesis by simp blast
qed

text \<open>
  C25. A power scan measures every channel of its range, once and in ascending order: if the
  transceiver answers each request with a level, the confirmations sent to the L1CTL link
  are those of \<open>start\<close> to \<open>stop\<close>, each with its own level, the last one and no other
  marked as the last, and between any two of them the request for the next channel is
  transmitted. Afterwards the queue is empty, and yet the state machine is left waiting for
  a response.
\<close>

theorem power_scan_complete:
  assumes "ctrl_list t = []" "\<forall>i \<le> n. gsm_arfcn2freq10 (start + of_nat i) False \<noteq> 0xffff"
    and "\<forall>i \<le> n. \<bar>level i\<bar> < 2 ^ 31" "n < 2 ^ 16"
  shows "\<exists>t1 t2. trx_if_cmd_measure t start (start + of_nat n) = (0, t1, [CtrlSent (measure_text start)])
    \<and> answer_scan stack (map (\<lambda>i. (start + of_nat i, level i)) [0..<Suc n]) t1 = Some (t2, scan_events start level n)
    \<and> ctrl_list t2 = [] \<and> \<not> ctrl_timer t2 \<and> fsm_state t2 = TRX_STATE_RSP_WAIT"
proof -
  have f: "gsm_arfcn2freq10 start False \<noteq> 0xffff" using assms(2) [rule_format, of 0] by simp
  let ?m = "new_msg True ''MEASURE'' (Some (khz (gsm_arfcn2freq10 start False)))"
  obtain t1 where t1: "trx_if_cmd_measure t start (start + of_nat n) = (0, t1, [CtrlSent (measure_text start)])"
    "ctrl_list t1 = [?m]" "pm_band_arfcn_start t1 = start" "pm_band_arfcn_stop t1 = start + of_nat n"
    "fsm_state t1 = TRX_STATE_RSP_WAIT"
    using f assms(1) by (simp add: trx_if_cmd_measure_def trx_ctrl_cmd_def ctrl_send_Cons Let_def new_msg_def measure_ctrl_text)
  have "cmd ?m = measure_text start" by (simp add: new_msg_def measure_ctrl_text)
  from answer_scan_ok [OF t1(2) this t1(3,4) assms(4) t1(5) assms(2,3), of stack] show ?thesis
    using t1(1) by blast
qed

theorem power_scan_complete_witness:
  "\<exists>t1 t2. trx_if_cmd_measure trx_if_open 1 2 = (0, t1, [CtrlSent ''CMD MEASURE 935200''])
    \<and> answer_scan [] [(1, -70), (2, -85)] t1
        = Some (t2, [PmConf 1 40 False, CtrlSent ''CMD MEASURE 935400'', PmConf 2 25 True])"
proof -
  let ?l = "\<lambda>i. if i = 0 then -70 else -85 :: int"
  have f: "gsm_arfcn2freq10 1 False = 9352" "gsm_arfcn2freq10 2 False = 9354"
    by (simp_all add: gsm_arfcn2freq10_def gsm_ranges_def fr_def)
  have "dec_nat 935200 = ''935200''" "dec_nat 935400 = ''935400''" by (simp_all add: dec_nat.simps digits)
  then have m: "measure_text 1 = ''CMD MEASURE 935200''" "measure_text 2 = ''CMD MEASURE 935400''"
    by (simp_all add: measure_text_def f khz_def)
  have e: "scan_events 1 ?l 1 = [PmConf 1 40 False, CtrlSent ''CMD MEASURE 935400'', PmConf 2 25 True]"
    by (simp add: scan_events_def m(2) dbm2rxlev_def)
  have "gsm_arfcn2freq10 (1 + of_nat i) False \<noteq> 0xffff" if "i \<le> 1" for i :: nat
  proof -
    from that consider "i = 0" | "i = 1" by linarith
    then show ?thesis using f by cases simp_all
  qed
  then have "\<forall>i \<le> 1 :: nat. gsm_arfcn2freq10 (1 + of_nat i) False \<noteq> 0xffff" by blast
  moreover have "\<forall>i \<le> 1 :: nat. \<bar>?l i\<bar> < 2 ^ 31" by simp
  ultimately show ?thesis using power_scan_complete [of trx_if_open 1 1 ?l "[]"] e m(1)
    by (simp add: trx_if_open_def del: answer_scan.simps) blast
qed

end
