(* ===== verification/TrxIfData.thy ===== *)
theory TrxIfData
  imports TrxIf SchedTrxLoss
begin

text \<open>
  The data interface: the burst datagrams sent and received, the received ones that crash
  the program, and the length of the hopping command.
\<close>

section \<open>Big endian numbers\<close>

lemma load_store_32be: "osmo_load32be (osmo_store32be v @ r) = v"
proof (rule bit_word_eqI)
  fix n assume "n < LENGTH(32)"
  then have n: "n < 32" by simp
  have e: "osmo_load32be (osmo_store32be v @ r) = push_bit 24 (ucast (ucast (drop_bit 24 v) :: u8))
      OR push_bit 16 (ucast (ucast (drop_bit 16 v) :: u8)) OR push_bit 8 (ucast (ucast (drop_bit 8 v) :: u8))
      OR ucast (ucast v :: u8)"
    by (simp add: osmo_load32be_def osmo_store32be_def numeral_3_eq_3)
  consider "n < 8" | "8 \<le> n" "n < 16" | "16 \<le> n" "n < 24" | "24 \<le> n" by linarith
  then show "bit (osmo_load32be (osmo_store32be v @ r)) n = bit v n"
    unfolding e using n by cases (auto simp: bit_simps)
qed

section \<open>Transmitted bursts\<close>

text \<open>How a transceiver reads a burst datagram: timeslot, frame number, attenuation, bits.\<close>

definition parse_tx :: "u8 list \<Rightarrow> u8 \<times> u32 \<times> u8 \<times> ubit list" where
  "parse_tx d = (d ! 0, osmo_load32be (drop 1 d), d ! 5, drop 6 d)"

text \<open>
  C26. A transmitted burst reaches the transceiver unchanged: from the datagram it reads back
  the timeslot, the frame number, the attenuation and the bits of the request, none if the
  request is empty; the datagram never exceeds the buffer it is composed in.
\<close>

theorem tx_burst_roundtrip:
  assumes "br_tn br < 256" "br_burst_len br \<le> length (br_burst br)" "length (br_burst br) = EDGE_BURST_LEN"
  shows "parse_tx (trx_if_tx_burst br)
      = (of_nat (br_tn br), br_fn br, br_pwr br, take (br_burst_len br) (br_burst br))
    \<and> unat (of_nat (br_tn br) :: u8) = br_tn br
    \<and> length (trx_if_tx_burst br) = 6 + br_burst_len br \<and> length (trx_if_tx_burst br) \<le> 512"
  using assms load_store_32be [of "br_fn br" "br_pwr br # take (br_burst_len br) (br_burst br)"]
  by (simp add: parse_tx_def trx_if_tx_burst_def osmo_store32be_def take_bit_nat_eq_self unsigned_of_nat)

definition demo_burst :: sched_burst_req where
  "demo_burst = (new_req 0x0102ff 3 9 0)\<lparr>br_burst_len := 148\<rparr>"

theorem tx_burst_roundtrip_witness:
  "parse_tx (trx_if_tx_burst demo_burst) = (3, 0x0102ff, 9, replicate 148 0)"
  using tx_burst_roundtrip [of demo_burst] by (simp add: demo_burst_def new_req_def)

section \<open>Received bursts\<close>

lemma run_events_inst [simp]: "inst (fst (run_events t evs)) = inst t"
proof (induction t evs rule: run_events.induct)
  case (2 t tn ty evs)
  obtain rc t' o1 where c: "trx_if_cmd_setslot t tn ty = (rc, t', o1)" by (cases "trx_if_cmd_setslot t tn ty")
  then have "inst t' = inst t"
    by (auto simp: trx_if_cmd_setslot_def trx_ctrl_cmd_def trx_ctrl_send_def state_chg_def Let_def split: list.splits if_splits)
  then show ?case using 2 c by (simp add: split_def Let_def)
qed (simp_all add: split_def Let_def)

lemma handle_rx_burst_bad_tn:
  "trx_inv trx \<Longrightarrow> 8 \<le> tn \<Longrightarrow> sched_trx_handle_rx_burst cd trx tn fn bits meas = None"
  by (simp add: sched_trx_handle_rx_burst_def mem_at_def trx_inv_def wf_trx_def)

lemma sint_u8: "sint (w :: u8) = (if unat w < 128 then int (unat w) else int (unat w) - 256)"
proof -
  define n where "n = unat w"
  have n: "n < 256" "uint w = int n" using unat_u8_less [of w] by (simp_all add: n_def)
  have "sint (word_of_int (int n) :: u8) = (int n + 2 ^ 7) mod 2 ^ 8 - 2 ^ 7" by (subst int_word_sint) simp
  moreover have "word_of_int (int n) = w" by (simp add: n_def)
  ultimately have "sint w = (int n + 2 ^ 7) mod 2 ^ 8 - 2 ^ 7" by (simp only:)
  moreover have "(int n + 2 ^ 7) mod 2 ^ 8 - 2 ^ 7 = (if n < 128 then int n else int n - 256)"
  proof (cases "n < 128")
    case True
    then show ?thesis by (simp add: mod_pos_pos_trivial)
  next
    case False
    have "int n + 128 = (int n - 128) + 256" by simp
    then have "(int n + 128) mod 256 = (int n - 128) mod 256" by (simp only: mod_add_self2)
    also have "\<dots> = int n - 128" using False n(1) by (intro mod_pos_pos_trivial) auto
    finally show ?thesis using False by simp
  qed
  ultimately show ?thesis unfolding n_def by (simp only:)
qed

text \<open>What the interface passes on of them: datagrams, and messages of bounded length.\<close>

definition if_event_ok :: "if_event \<Rightarrow> bool" where
  "if_event_ok ev \<longleftrightarrow> (case ev of ToL1ctl e \<Rightarrow> to_l1ctl e | _ \<Rightarrow> True)"

lemma run_events_ok: "list_all if_event_ok (snd (run_events t evs))" if "list_all frame_event evs"
  using that
proof (induction t evs rule: run_events.induct)
  case (2 t tn ty evs)
  then show ?case by (simp add: frame_event_def to_l1ctl_def)
qed (auto simp: split_def Let_def if_event_ok_def frame_event_def to_l1ctl_def)

lemma burst_handled:
  assumes cd: "wf_codec cd" and inv: "trx_inv (inst t)" and "tn < 8" "148 \<le> length bits" and fn: "valid_fn fn"
  shows "\<exists>rc t' out. trx_data_poke cd rnd now t tn fn bits meas = Some (rc, t', out) \<and> trx_inv (inst t')
    \<and> list_all if_event_ok out"
proof -
  obtain rc trx evs where h: "sched_trx_handle_rx_burst cd (inst t) tn fn bits meas = Some (rc, trx, evs)"
    "wf_trx trx" "sched trx = sched (inst t)" "list_all to_l1ctl evs"
    using handle_rx_burst_ok [OF cd _ assms(3), of "inst t" bits fn meas] inv assms(4) by (auto simp: trx_inv_def)
  then have inv1: "trx_inv trx" using inv by (simp add: trx_inv_def)
  obtain t1 o1 where 1: "run_events (t\<lparr>inst := trx\<rparr>) evs = (t1, o1)" by fastforce
  have i1: "inst t1 = trx" using run_events_inst [of "t\<lparr>inst := trx\<rparr>" evs] 1 by simp
  have e1: "list_all if_event_ok o1"
    using run_events_ok [of evs "t\<lparr>inst := trx\<rparr>"] 1 frame_events [OF h(4), of "[]"] by simp
  obtain trx' evs' where c: "trx_clck_handle cd rnd now fn trx = Some (trx', evs')" "trx_inv trx'" "list_all frame_event evs'"
    using exec_clock_ok [OF cd inv1 fn] by blast
  obtain t2 o2 where 2: "run_events (t1\<lparr>inst := trx'\<rparr>) evs' = (t2, o2)" by fastforce
  have i2: "inst t2 = trx'" using run_events_inst [of "t1\<lparr>inst := trx'\<rparr>" evs'] 2 by simp
  have e2: "list_all if_event_ok o2" using run_events_ok [OF c(3), of "t1\<lparr>inst := trx'\<rparr>"] 2 by simp
  show ?thesis using h(1) 1 i1 e1 c(1,2) 2 i2 e2 inv1 by (simp add: trx_data_poke_def)
qed

text \<open>The checks of the datagram, with the timeslot octet read as unsigned.\<close>

lemma data_rx_unfold:
  "trx_data_rx_cb cd rnd now t d =
    (if d = [] then Some (0, t, [])
     else if length d < 156 \<or> (8 \<le> unat (d ! 0) \<and> unat (d ! 0) < 128) \<or> \<not> valid_fn (osmo_load32be (drop 1 d))
     then Some (- EINVAL, t, [])
     else trx_data_poke cd rnd now t (unat (d ! 0)) (osmo_load32be (drop 1 d))
       (osmo_ubit2sbit (take 148 (drop 8 (take 512 d)))) (burst_meas (take 512 d)))"
proof -
  have "osmo_load32be (drop 1 (take 512 d)) = osmo_load32be (drop 1 d)" if "156 \<le> length d"
    using that by (simp add: osmo_load32be_def)
  moreover have "take 512 d ! 0 = d ! 0" by simp
  moreover have "fn \<ge> GSM_TDMA_HYPERFRAME \<longleftrightarrow> \<not> valid_fn fn" for fn by (simp add: word_le_nat_alt not_less)
  moreover have "8 \<le> sint (d ! 0) \<longleftrightarrow> 8 \<le> unat (d ! 0) \<and> unat (d ! 0) < 128"
  proof -
    define k where "k = unat (d ! 0)"
    have "sint (d ! 0) = (if k < 128 then int k else int k - 256)" "k < 256"
      using sint_u8 [of "d ! 0"] unat_u8_less [of "d ! 0"] by (simp_all only: k_def)
    then show ?thesis unfolding k_def [symmetric] by auto
  qed
  moreover have "length (take 512 d) < 8 + 148 \<longleftrightarrow> length d < 156" by (simp add: min_def)
  ultimately show ?thesis unfolding trx_data_rx_cb_def Let_def by simp
qed

text \<open>
  C27. The received datagrams that crash trxcon are exactly the long enough ones with a valid
  frame number whose first octet has its top bit set: the timeslot is checked as a signed
  number, and the scheduler then reads its table of timeslots far out of bounds. Every other
  datagram, whatever its length and contents, is handled, and keeps the invariant of the
  scheduler and the clock.
\<close>

theorem rx_datagram_crash_iff:
  assumes "wf_codec cd" "trx_inv (inst t)"
  shows "(trx_data_rx_cb cd rnd now t d = None \<longleftrightarrow>
      156 \<le> length d \<and> 128 \<le> unat (d ! 0) \<and> valid_fn (osmo_load32be (drop 1 d)))
    \<and> (\<forall>rc t' out. trx_data_rx_cb cd rnd now t d = Some (rc, t', out) \<longrightarrow> trx_inv (inst t'))"
proof (cases "156 \<le> length d \<and> (unat (d ! 0) < 8 \<or> 128 \<le> unat (d ! 0)) \<and> valid_fn (osmo_load32be (drop 1 d))")
  case False
  then show ?thesis using assms(2) unfolding data_rx_unfold by auto
next
  case True
  then have ne: "d \<noteq> []" by auto
  let ?bits = "osmo_ubit2sbit (take 148 (drop 8 (take 512 d)))"
  have len: "148 \<le> length ?bits" using True by (auto simp: osmo_ubit2sbit_def min_def)
  show ?thesis
  proof (cases "unat (d ! 0) < 8")
    case True
    from burst_handled [OF assms this len, of "osmo_load32be (drop 1 d)" rnd now "burst_meas (take 512 d)"]
    show ?thesis using \<open>156 \<le> length d \<and> _\<close> ne True unfolding data_rx_unfold by auto
  next
    case False
    then have "sched_trx_handle_rx_burst cd (inst t) (unat (d ! 0)) fn bits meas = None" for fn bits meas
      using handle_rx_burst_bad_tn [OF assms(2), of "unat (d ! 0)"] by simp
    then show ?thesis
      using \<open>156 \<le> length d \<and> _\<close> ne False unfolding data_rx_unfold trx_data_poke_def by auto
  qed
qed

definition demo_dgram :: "u8 list" where
  "demo_dgram = [0x82, 0, 0, 0, 102, 60, 0, 0] @ replicate 148 0"

theorem rx_datagram_crash_iff_witness:
  "trx_data_rx_cb fixed_codec (\<lambda>_ _ _. 0) \<lparr>tv_sec = 1, tv_nsec = 0\<rparr> (trx_if_open\<lparr>inst := snd (sched_trx_init trx_zero 3)\<rparr>)
     demo_dgram = None"
  using rx_datagram_crash_iff [OF wf_fixed_codec, of "trx_if_open\<lparr>inst := snd (sched_trx_init trx_zero 3)\<rparr>"
      "\<lambda>_ _ _. 0" "\<lparr>tv_sec = 1, tv_nsec = 0\<rparr>" demo_dgram] trx_inv_init [of 3]
  by (simp add: demo_dgram_def osmo_load32be_def)

section \<open>The hopping command\<close>

text \<open>The text of one pair of frequencies, and of the list, without the last space.\<close>

definition ma_pair :: "u16 \<Rightarrow> string" where
  "ma_pair a = khz (gsm_arfcn2freq10 a False) @ '' '' @ khz (gsm_arfcn2freq10 a True) @ '' ''"

definition ma_text :: "u16 list \<Rightarrow> string" where
  "ma_text ma = concat (map ma_pair ma)"

lemma setfh_loop_Inr:
  "\<forall>a \<in> set ma. gsm_arfcn2freq10 a False \<noteq> 0xffff \<and> gsm_arfcn2freq10 a True \<noteq> 0xffff \<Longrightarrow>
    setfh_loop ma room = (if length (ma_text ma) \<le> room then Inr (ma_text ma) else Inl (- ENOSPC))"
  by (induction ma arbitrary: room) (auto simp: ma_text_def ma_pair_def Let_def)

lemma length_khz_7: "10000 \<le> unat f \<Longrightarrow> length (khz f) = 7"
proof -
  assume f: "10000 \<le> unat f"
  have "unat f * 100 < 10 ^ 7" using unat_u16_less [of f] by simp
  moreover have "10 ^ 6 \<le> unat f * 100" using f by simp
  ultimately show "length (khz f) = 7"
    unfolding khz_def using length_dec_nat [of 7 "unat f * 100"] length_dec_nat_ge [of 6 "unat f * 100"] by linarith
qed

lemma length_ma_text_1800:
  "\<forall>a \<in> set ma. 10000 \<le> unat (gsm_arfcn2freq10 a False) \<and> 10000 \<le> unat (gsm_arfcn2freq10 a True) \<Longrightarrow>
    length (ma_text ma) = 16 * length ma"
  by (induction ma) (simp_all add: ma_text_def ma_pair_def length_khz_7)

lemma length_dec_u8: "length (dec_nat (unat (w :: u8))) \<le> 3"
  by (rule length_dec_nat) (use unat_u8_less [of w] in simp_all)

text \<open>
  C28. The hopping command is composed in full or not at all. For a mobile allocation of
  valid channels the command queued holds the hopping sequence number, the offset and all
  pairs of frequencies, untruncated and within the buffer, exactly if the list of pairs
  takes at most 999 characters; otherwise the request is refused and nothing is queued. In
  the 1800 and 1900 MHz bands, where a pair takes 16 characters, that is 62 channels and no
  more, although a mobile allocation may hold 64.
\<close>

theorem setfh_fits_iff:
  assumes "ma \<noteq> []" "\<forall>a \<in> set ma. gsm_arfcn2freq10 a False \<noteq> 0xffff \<and> gsm_arfcn2freq10 a True \<noteq> 0xffff"
  shows "trx_if_cmd_setfh t hsn maio ma =
      (if length (ma_text ma) \<le> 999
       then trx_ctrl_cmd t True ''SETFH''
         (Some (dec_nat (unat hsn) @ '' '' @ dec_nat (unat maio) @ '' '' @ butlast (ma_text ma)))
       else (- ENOSPC, t, []))
    \<and> (length (ma_text ma) \<le> 999 \<longrightarrow>
        ctrl_text ''SETFH'' (Some (dec_nat (unat hsn) @ '' '' @ dec_nat (unat maio) @ '' '' @ butlast (ma_text ma)))
          = ''CMD SETFH '' @ dec_nat (unat hsn) @ '' '' @ dec_nat (unat maio) @ '' '' @ butlast (ma_text ma))
    \<and> ((\<forall>a \<in> set ma. 10000 \<le> unat (gsm_arfcn2freq10 a False) \<and> 10000 \<le> unat (gsm_arfcn2freq10 a True)) \<longrightarrow>
        (length (ma_text ma) \<le> 999) = (length ma \<le> 62))"
proof (intro conjI impI)
  show "trx_if_cmd_setfh t hsn maio ma =
      (if length (ma_text ma) \<le> 999
       then trx_ctrl_cmd t True ''SETFH''
         (Some (dec_nat (unat hsn) @ '' '' @ dec_nat (unat maio) @ '' '' @ butlast (ma_text ma)))
       else (- ENOSPC, t, []))"
    using assms(1) by (simp add: trx_if_cmd_setfh_def setfh_loop_Inr [OF assms(2)])
next
  assume "length (ma_text ma) \<le> 999"
  then show "ctrl_text ''SETFH'' (Some (dec_nat (unat hsn) @ '' '' @ dec_nat (unat maio) @ '' '' @ butlast (ma_text ma)))
          = ''CMD SETFH '' @ dec_nat (unat hsn) @ '' '' @ dec_nat (unat maio) @ '' '' @ butlast (ma_text ma)"
    using length_dec_u8 [of hsn] length_dec_u8 [of maio] by (simp add: ctrl_text_def)
next
  assume "\<forall>a \<in> set ma. 10000 \<le> unat (gsm_arfcn2freq10 a False) \<and> 10000 \<le> unat (gsm_arfcn2freq10 a True)"
  from length_ma_text_1800 [OF this] show "(length (ma_text ma) \<le> 999) = (length ma \<le> 62)" by linarith
qed

theorem setfh_fits_iff_witness:
  "trx_if_cmd_setfh trx_if_open 5 0 (replicate 63 600) = (- ENOSPC, trx_if_open, [])"
proof -
  have f: "gsm_arfcn2freq10 600 False = 18228" "gsm_arfcn2freq10 600 True = 17278"
    by (simp_all add: gsm_arfcn2freq10_def gsm_ranges_def fr_def)
  then show ?thesis using setfh_fits_iff [of "replicate 63 600" trx_if_open 5 0] by simp
qed

end
