(* ===== verification/L1ctl.thy ===== *)
theory L1ctl
  imports TrxIf
begin

text \<open>
  The layer 1 control interface of trxcon: the link to the layer 2 and 3 application with
  its framing and write queue (\<open>l1ctl_link.c\<close>), the messages sent and the handlers of
  the requests (\<open>l1ctl.c\<close>), and the state machine of the application
  (\<open>trxcon.c\<close>). It joins the transceiver interface and the scheduler into one state.

  A received message lies at the start of a zeroed buffer of \<open>L1CTL_LENGTH\<close> octets.
  \<open>None\<close> is undefined behaviour or a failed assertion; allocation never fails. What a
  function sends to the transceiver is the list of datagrams in its result.
\<close>

section \<open>The link\<close>

datatype l1ctl_fsm_state = L1CTL_STATE_IDLE | L1CTL_STATE_CONNECTED

datatype trxcon_fsm_state = TRXCON_STATE_IDLE | TRXCON_STATE_MANAGED

datatype trxcon_event = L1CTL_EVENT_CONNECT | L1CTL_EVENT_DISCONNECT | TRX_EVENT_RSP_ERROR | TRX_EVENT_OFFLINE

text \<open>
  \<open>struct l1ctl_link\<close> with the transceiver it is bound to and the state of the
  application. \<open>conn_fd\<close> is the socket of the connection or -1, \<open>wq\<close> the write queue
  with its limit, \<open>fbsb_timer\<close> the microseconds the pending timer was started with.
\<close>

record l1ctl_link =
  l1_fsm :: l1ctl_fsm_state
  conn_fd :: int
  wq :: "u8 list list"
  wq_max :: nat
  fbsb_timer :: "nat option"
  app_fsm :: trxcon_fsm_state
  l1_trx :: trx_if

abbreviation (input) L1CTL_LENGTH :: nat where "L1CTL_LENGTH \<equiv> 256"
abbreviation (input) GSM_TDMA_FN_DURATION_uS :: nat where "GSM_TDMA_FN_DURATION_uS \<equiv> 4615"

definition osmo_load16be :: "u8 list \<Rightarrow> u16" where
  "osmo_load16be b = push_bit 8 (ucast (b ! 0)) OR ucast (b ! 1)"

definition osmo_store16be :: "u16 \<Rightarrow> u8 list" where
  "osmo_store16be v = [ucast (drop_bit 8 v), ucast v]"

definition l1ctl_link_send :: "l1ctl_link \<Rightarrow> u8 list \<Rightarrow> int \<times> l1ctl_link" where
  "l1ctl_link_send l msg =
    (if wq_max l \<le> length (wq l) then (- EIO, l)
     else (0, l\<lparr>wq := wq l @ [osmo_store16be (of_nat (length msg)) @ msg]\<rparr>))"

text \<open>What is sent: the pending message is written as it is.\<close>

definition l1ctl_link_write :: "l1ctl_link \<Rightarrow> (l1ctl_link \<times> u8 list) option" where
  "l1ctl_link_write l = (case wq l of [] \<Rightarrow> None | m # q \<Rightarrow> Some (l\<lparr>wq := q\<rparr>, m))"

section \<open>Messages to the application\<close>

text \<open>A message of the given type, its flags clear, in a buffer of \<open>L1CTL_LENGTH\<close> octets.\<close>

definition l1ctl_msg :: "u8 \<Rightarrow> u8 list \<Rightarrow> u8 list" where
  "l1ctl_msg ty body = [ty, 0, 0, 0] @ body"

definition l1ctl_tx_pm_conf :: "l1ctl_link \<Rightarrow> u16 \<Rightarrow> u8 \<Rightarrow> bool \<Rightarrow> int \<times> l1ctl_link" where
  "l1ctl_tx_pm_conf l arfcn rxlev done =
    (let m = l1ctl_msg 9 (osmo_store16be arfcn @ [rxlev, 0])
     in l1ctl_link_send l (if done then m[1 := m ! 1 OR 1] else m))"

definition l1ctl_tx_reset_ind :: "l1ctl_link \<Rightarrow> u8 \<Rightarrow> int \<times> l1ctl_link" where
  "l1ctl_tx_reset_ind l ty = l1ctl_link_send l (l1ctl_msg 7 [ty, 0, 0, 0])"

definition l1ctl_tx_reset_conf :: "l1ctl_link \<Rightarrow> u8 \<Rightarrow> int \<times> l1ctl_link" where
  "l1ctl_tx_reset_conf l ty = l1ctl_link_send l (l1ctl_msg 14 [ty, 0, 0, 0])"

definition dl_info_octets :: "l1ctl_info_dl \<Rightarrow> u8 list" where
  "dl_info_octets dl = [dl_chan_nr dl, dl_link_id dl] @ osmo_store16be (dl_band_arfcn dl)
    @ osmo_store32be (dl_frame_nr dl) @ [dl_rx_level dl, dl_snr dl, dl_num_biterr dl, dl_fire_crc dl]"

definition dl_info0 :: l1ctl_info_dl where
  "dl_info0 = \<lparr>dl_chan_nr = 0, dl_link_id = 0, dl_band_arfcn = 0, dl_frame_nr = 0, dl_rx_level = 0,
     dl_snr = 0, dl_num_biterr = 0, dl_fire_crc = 0\<rparr>"

definition put_dl_info_hdr :: "l1ctl_info_dl option \<Rightarrow> u8 list" where
  "put_dl_info_hdr dl = (case dl of Some d \<Rightarrow> dl_info_octets d | None \<Rightarrow> dl_info_octets dl_info0)"

text \<open>The frequency error comes first; it stays zero.\<close>

definition fbsb_conf_make :: "u8 \<Rightarrow> u8 \<Rightarrow> u8 list" where
  "fbsb_conf_make result b = [0, 0, result, b]"

definition set_fbsb_conf_sent :: "bool \<Rightarrow> l1ctl_link \<Rightarrow> l1ctl_link" where
  "set_fbsb_conf_sent b l = l\<lparr>l1_trx := (l1_trx l)\<lparr>inst := (inst (l1_trx l))\<lparr>fbsb_conf_sent := b\<rparr>\<rparr>\<rparr>"

definition l1ctl_tx_fbsb_conf :: "l1ctl_link \<Rightarrow> u8 \<Rightarrow> l1ctl_info_dl option \<Rightarrow> u8 \<Rightarrow> int \<times> l1ctl_link" where
  "l1ctl_tx_fbsb_conf l result dl b =
    l1ctl_link_send ((set_fbsb_conf_sent True l)\<lparr>fbsb_timer := None\<rparr>)
      (l1ctl_msg 2 (put_dl_info_hdr dl @ fbsb_conf_make result b))"

definition l1ctl_tx_ccch_mode_conf :: "l1ctl_link \<Rightarrow> u8 \<Rightarrow> int \<times> l1ctl_link" where
  "l1ctl_tx_ccch_mode_conf l mode = l1ctl_link_send l (l1ctl_msg 17 [mode, 0, 0, 0])"

text \<open>The only message of variable length: \<open>msgb_put\<close> aborts when it does not fit.\<close>

definition l1ctl_tx_dt_ind :: "l1ctl_link \<Rightarrow> l1ctl_info_dl \<Rightarrow> u8 list \<Rightarrow> bool \<Rightarrow> (int \<times> l1ctl_link) option" where
  "l1ctl_tx_dt_ind l dl l2 traffic =
    (let m = l1ctl_msg (if traffic then 30 else 3) (put_dl_info_hdr (Some dl) @ l2)
     in if L1CTL_LENGTH < length m then None else Some (l1ctl_link_send l m))"

definition l1ctl_tx_rach_conf :: "l1ctl_link \<Rightarrow> u16 \<Rightarrow> u32 \<Rightarrow> int \<times> l1ctl_link" where
  "l1ctl_tx_rach_conf l arfcn fn =
    l1ctl_link_send l (l1ctl_msg 12 (dl_info_octets (dl_info0\<lparr>dl_band_arfcn := arfcn, dl_frame_nr := fn\<rparr>)))"

definition l1ctl_tx_dt_conf :: "l1ctl_link \<Rightarrow> l1ctl_info_dl \<Rightarrow> bool \<Rightarrow> int \<times> l1ctl_link" where
  "l1ctl_tx_dt_conf l dl traffic =
    l1ctl_link_send l (l1ctl_msg (if traffic then 29 else 15) (put_dl_info_hdr (Some dl)))"

definition fbsb_timer_cb :: "l1ctl_link \<Rightarrow> l1ctl_link" where
  "fbsb_timer_cb l =
    (let l = l\<lparr>fbsb_timer := None\<rparr>;
         dl = dl_info0\<lparr>dl_band_arfcn := band_arfcn (inst (l1_trx l))\<rparr>
     in snd (l1ctl_link_send (set_fbsb_conf_sent True l) (l1ctl_msg 2 (put_dl_info_hdr (Some dl) @ fbsb_conf_make 255 0))))"

section \<open>Scheduler and transceiver below the link\<close>

text \<open>\<open>osmo_fsm_inst_dispatch\<close> on the machine of the application: the events a state accepts.\<close>

fun in_event_mask :: "trxcon_fsm_state \<Rightarrow> trxcon_event list" where
  "in_event_mask TRXCON_STATE_IDLE = [L1CTL_EVENT_CONNECT]"
| "in_event_mask TRXCON_STATE_MANAGED = [L1CTL_EVENT_DISCONNECT, TRX_EVENT_RSP_ERROR, TRX_EVENT_OFFLINE]"

text \<open>
  What the interface below reports, carried out by the link: messages are sent to the
  application, datagrams stay in the result. The events about the transceiver reach the
  application's machine, which does nothing with them.
\<close>

definition l1_event :: "l1ctl_link \<Rightarrow> if_event \<Rightarrow> (l1ctl_link \<times> if_event list) option" where
  "l1_event l ev =
    (case ev of
       CtrlSent c \<Rightarrow> Some (l, [ev])
     | DataSent d \<Rightarrow> Some (l, [ev])
     | PmConf arfcn rxlev done \<Rightarrow> Some (snd (l1ctl_tx_pm_conf l arfcn rxlev done), [])
     | ToL1ctl (L1ctlDtInd dl l2 traffic) \<Rightarrow> do { (rc, l) \<leftarrow> l1ctl_tx_dt_ind l dl l2 traffic; Some (l, []) }
     | ToL1ctl (L1ctlDtConf dl traffic) \<Rightarrow> Some (snd (l1ctl_tx_dt_conf l dl traffic), [])
     | ToL1ctl (L1ctlRachConf arfcn fn) \<Rightarrow> Some (snd (l1ctl_tx_rach_conf l arfcn fn), [])
     | ToL1ctl (L1ctlFbsbConf result dl b) \<Rightarrow> Some (snd (l1ctl_tx_fbsb_conf l result (Some dl) b), [])
     | _ \<Rightarrow> Some (l, []))"

fun l1_events :: "l1ctl_link \<Rightarrow> if_event list \<Rightarrow> (l1ctl_link \<times> if_event list) option" where
  "l1_events l [] = Some (l, [])"
| "l1_events l (ev # evs) = do {
     (l, o1) \<leftarrow> l1_event l ev;
     (l, o2) \<leftarrow> l1_events l evs;
     Some (l, o1 @ o2)
   }"

text \<open>A call into the transceiver interface or the scheduler, and the sequence of two calls.\<close>

type_synonym 'a l1_result = "('a \<times> l1ctl_link \<times> if_event list) option"

definition on_trx :: "l1ctl_link \<Rightarrow> (trx_if \<Rightarrow> int \<times> trx_if \<times> if_event list) \<Rightarrow> int l1_result" where
  "on_trx l f =
    (let (rc, t, evs) = f (l1_trx l)
     in do { (l, out) \<leftarrow> l1_events (l\<lparr>l1_trx := t\<rparr>) evs; Some (rc, l, out) })"

definition on_sched :: "l1ctl_link \<Rightarrow> (trx_instance \<Rightarrow> (int \<times> trx_instance \<times> trx_event list) option)
    \<Rightarrow> int l1_result" where
  "on_sched l f = do {
     (rc, i, evs) \<leftarrow> f (inst (l1_trx l));
     let (t, evs) = run_events ((l1_trx l)\<lparr>inst := i\<rparr>) evs;
     (l, out) \<leftarrow> l1_events (l\<lparr>l1_trx := t\<rparr>) evs;
     Some (rc, l, out)
   }"

definition and_then :: "'a l1_result \<Rightarrow> ('a \<Rightarrow> l1ctl_link \<Rightarrow> 'b l1_result) \<Rightarrow> 'b l1_result" where
  "and_then m f = do { (a, l, o1) \<leftarrow> m; (b, l, o2) \<leftarrow> f a l; Some (b, l, o1 @ o2) }"

definition put_inst :: "l1ctl_link \<Rightarrow> trx_instance \<Rightarrow> l1ctl_link" where
  "put_inst l i = l\<lparr>l1_trx := (l1_trx l)\<lparr>inst := i\<rparr>\<rparr>"

abbreviation (input) link_inst :: "l1ctl_link \<Rightarrow> trx_instance" where
  "link_inst l \<equiv> inst (l1_trx l)"

section \<open>Requests\<close>

text \<open>The length behind the header, an \<open>unsigned int\<close>: it wraps when the message is shorter.\<close>

definition msgb_l1len :: "nat \<Rightarrow> nat" where
  "msgb_l1len len = unat (of_nat len - 4 :: u32)"

definition msgb_l2len :: "nat \<Rightarrow> nat" where
  "msgb_l2len len = unat (of_nat len - 8 :: u32)"

definition l1ctl_ccch_mode2pchan_config :: "u8 \<Rightarrow> gsm_phys_chan_config" where
  "l1ctl_ccch_mode2pchan_config mode =
    (if mode = 1 \<or> mode = 0 then GSM_PCHAN_CCCH
     else if mode = 2 then GSM_PCHAN_CCCH_SDCCH4
     else if mode = 3 then GSM_PCHAN_CCCH_SDCCH4_CBCH
     else GSM_PCHAN_CCCH)"

definition fbsb_retune :: "l1ctl_link \<Rightarrow> u16 \<Rightarrow> int l1_result" where
  "fbsb_retune l arfcn =
    (if band_arfcn (link_inst l) \<noteq> arfcn
     then and_then (on_trx (put_inst l ((link_inst l)\<lparr>band_arfcn := arfcn\<rparr>)) (\<lambda>t. trx_if_cmd_rxtune t arfcn))
            (\<lambda>rc l. on_trx l (\<lambda>t. trx_if_cmd_txtune t arfcn))
     else Some (0, l, []))"

definition l1ctl_rx_fbsb_req :: "l1ctl_link \<Rightarrow> u8 list \<Rightarrow> nat \<Rightarrow> int l1_result" where
  "l1ctl_rx_fbsb_req l mem len =
    (if msgb_l1len len < 13 then Some (- EINVAL, l, [])
     else let ch_config = l1ctl_ccch_mode2pchan_config (mem ! 15);
              arfcn = osmo_load16be (drop 4 mem);
              timeout = osmo_load16be (drop 6 mem)
       in and_then (on_sched l (\<lambda>i. sched_trx_reset i True)) (\<lambda>_ l.
          and_then (on_sched l (\<lambda>i. sched_trx_configure_ts i 0 ch_config)) (\<lambda>_ l.
          and_then (fbsb_retune (set_fbsb_conf_sent False l) arfcn) (\<lambda>_ l.
          and_then (if \<not> powered_up (l1_trx l) then on_trx l trx_if_cmd_poweron else Some (0, l, [])) (\<lambda>_ l.
            Some (0, l\<lparr>fbsb_timer := Some (unat timeout * GSM_TDMA_FN_DURATION_uS)\<rparr>, []))))))"

definition l1ctl_rx_pm_req :: "l1ctl_link \<Rightarrow> u8 list \<Rightarrow> nat \<Rightarrow> int l1_result" where
  "l1ctl_rx_pm_req l mem len =
    (if msgb_l1len len < 8 then Some (- EINVAL, l, [])
     else on_trx l (\<lambda>t. trx_if_cmd_measure t (osmo_load16be (drop 8 mem)) (osmo_load16be (drop 10 mem))))"

definition reset_and_confirm :: "l1ctl_link \<Rightarrow> u8 \<Rightarrow> int l1_result" where
  "reset_and_confirm l ty =
    and_then (on_sched l (\<lambda>i. sched_trx_reset i True))
      (\<lambda>_ l. let (rc, l) = l1ctl_tx_reset_conf l ty in Some (rc, l, []))"

definition l1ctl_rx_reset_req :: "l1ctl_link \<Rightarrow> u8 list \<Rightarrow> nat \<Rightarrow> int l1_result" where
  "l1ctl_rx_reset_req l mem len =
    (if msgb_l1len len < 4 then Some (- EINVAL, l, [])
     else let ty = mem ! 4 in
       if ty = 1 then and_then (on_trx l trx_if_cmd_poweroff) (\<lambda>_ l.
                      and_then (on_trx l trx_if_cmd_echo) (\<lambda>_ l. reset_and_confirm l ty))
       else if ty = 2 then reset_and_confirm l ty
       else Some (0, l, []))"

text \<open>
  The handler takes the start of the payload for the header, so the type overwrites the
  first octet of the payload, and as many octets are sent from there as the message has with
  its header: the last four of them lie behind the message.
\<close>

definition l1ctl_rx_echo_req :: "l1ctl_link \<Rightarrow> u8 list \<Rightarrow> nat \<Rightarrow> int l1_result" where
  "l1ctl_rx_echo_req l mem len =
    (if L1CTL_LENGTH < len + 4 then None
     else let (rc, l) = l1ctl_link_send l (take len (drop 4 (mem[4 := 11]))) in Some (rc, l, []))"

definition l1ctl_rx_ccch_mode_req :: "l1ctl_link \<Rightarrow> u8 list \<Rightarrow> nat \<Rightarrow> int l1_result" where
  "l1ctl_rx_ccch_mode_req l mem len =
    (if msgb_l1len len < 4 then Some (- EINVAL, l, [])
     else do {
       slot \<leftarrow> mem_at (ts_list (link_inst l)) 0;
       case Option.bind slot mf_layout of
         None \<Rightarrow> Some (- EINVAL, l, [])
       | Some mf \<Rightarrow>
           let ch_config = l1ctl_ccch_mode2pchan_config (mem ! 4) in
           and_then (if chan_config mf \<noteq> ch_config then on_sched l (\<lambda>i. sched_trx_configure_ts i 0 ch_config)
                     else Some (0, l, []))
             (\<lambda>rc l. if rc = 0 then let (rc, l) = l1ctl_tx_ccch_mode_conf l (mem ! 4) in Some (rc, l, [])
                     else Some (rc, l, []))
     })"

text \<open>
  Data and random access requests: a primitive is allocated, put into the transmit queue of
  its timeslot, and filled from the message, \<open>pl_len\<close> octets from position 8.
\<close>

definition l1ctl_push_prim :: "l1ctl_link \<Rightarrow> u8 list \<Rightarrow> nat \<Rightarrow> u8 \<Rightarrow> u8 \<Rightarrow> int l1_result" where
  "l1ctl_push_prim l mem pl_len chan_nr link_id = do {
     r \<leftarrow> sched_prim_init pl_len chan_nr link_id;
     case r of
       Inl rc \<Rightarrow> Some (rc, l, [])
     | Inr prim \<Rightarrow> do {
         (rc, tss) \<leftarrow> sched_prim_push (ts_list (link_inst l)) prim chan_nr;
         if rc \<noteq> 0 then Some (rc, l, [])
         else do {
           src \<leftarrow> mem_read mem 8 pl_len;
           pl \<leftarrow> mem_write (payload prim) 0 src;
           (rc, tss) \<leftarrow> sched_prim_push (ts_list (link_inst l)) (prim\<lparr>payload := pl\<rparr>) chan_nr;
           Some (rc, put_inst l ((link_inst l)\<lparr>ts_list := tss\<rparr>), [])
         }
       }
   }"

text \<open>\<open>ntohs\<close> on a member of the payload, on a little-endian host.\<close>

definition swap16 :: "u8 list \<Rightarrow> nat \<Rightarrow> u8 list" where
  "swap16 mem i = mem[i := mem ! (i + 1), i + 1 := mem ! i]"

definition l1ctl_rx_rach_req :: "l1ctl_link \<Rightarrow> u8 list \<Rightarrow> bool \<Rightarrow> int l1_result" where
  "l1ctl_rx_rach_req l mem ext =
    (let (mem, len) = (if ext then (swap16 (swap16 mem 12) 8, 6) else (swap16 mem 10, 4));
         chan_nr = (if mem ! 4 = 0 then 0x88 else mem ! 4)
     in l1ctl_push_prim l mem len chan_nr (mem ! 5))"

definition l1ctl_proc_est_req_h0 :: "l1ctl_link \<Rightarrow> u8 list \<Rightarrow> int l1_result" where
  "l1ctl_proc_est_req_h0 l h =
    (let arfcn = osmo_load16be h in
     if band_arfcn (link_inst l) = arfcn then Some (0, l, [])
     else and_then (on_trx l (\<lambda>t. trx_if_cmd_rxtune t arfcn)) (\<lambda>rc1 l.
          and_then (on_trx l (\<lambda>t. trx_if_cmd_txtune t arfcn)) (\<lambda>rc2 l.
            if rc1 OR rc2 \<noteq> 0 then Some (rc1 OR rc2, l, [])
            else Some (0, put_inst l ((link_inst l)\<lparr>band_arfcn := arfcn\<rparr>), []))))"

definition l1ctl_proc_est_req_h1 :: "l1ctl_link \<Rightarrow> u8 list \<Rightarrow> int l1_result" where
  "l1ctl_proc_est_req_h1 l h =
    (let n = unat (h ! 2) in
     if n = 0 then Some (- EINVAL, l, [])
     else if n > 64 then Some (- EINVAL, l, [])
     else let ma = map (\<lambda>i. osmo_load16be (drop (4 + 2 * i) h)) [0..<n]
       in on_trx l (\<lambda>t. trx_if_cmd_setfh t (h ! 0) (h ! 1) ma))"

text \<open>The channels of a configured timeslot: only the requested ones become active.\<close>

definition est_activate :: "l1ctl_link \<Rightarrow> nat \<Rightarrow> u8 \<Rightarrow> u8 \<Rightarrow> int l1_result" where
  "est_activate l tn chan_nr mode = do {
     slot \<leftarrow> mem_at (ts_list (link_inst l)) tn;
     ts \<leftarrow> slot;
     ts \<leftarrow> sched_trx_deactivate_all_lchans ts;
     (rc, slot) \<leftarrow> sched_trx_set_lchans (Some ts) chan_nr True mode;
     Some (if rc \<noteq> 0 then - EINVAL else 0,
           put_inst l ((link_inst l)\<lparr>ts_list := (ts_list (link_inst l))[tn := slot]\<rparr>), [])
   }"

definition est_configure :: "l1ctl_link \<Rightarrow> nat \<Rightarrow> gsm_phys_chan_config \<Rightarrow> u8 \<Rightarrow> u8 \<Rightarrow> u8 \<Rightarrow> int l1_result" where
  "est_configure l tn config training chan_nr mode =
    and_then (on_sched (put_inst l ((link_inst l)\<lparr>tsc := training\<rparr>)) (\<lambda>i. sched_trx_configure_ts i tn config))
      (\<lambda>rc l. if rc \<noteq> 0 then Some (- EINVAL, l, []) else est_activate l tn chan_nr mode)"

definition l1ctl_rx_dm_est_req :: "l1ctl_link \<Rightarrow> u8 list \<Rightarrow> int l1_result" where
  "l1ctl_rx_dm_est_req l mem =
    (let chan_nr = mem ! 4; tn = unat (chan_nr AND 7);
         config = sched_trx_chan_nr2pchan_config chan_nr
     in if config = GSM_PCHAN_NONE then Some (- EINVAL, l, [])
        else and_then (if mem ! 9 \<noteq> 0 then l1ctl_proc_est_req_h1 l (drop 10 mem)
                       else l1ctl_proc_est_req_h0 l (drop 10 mem))
          (\<lambda>rc l. if rc \<noteq> 0 then Some (rc, l, [])
                  else est_configure l tn config (mem ! 8) chan_nr (mem ! 142)))"

definition l1ctl_rx_dm_rel_req :: "l1ctl_link \<Rightarrow> int l1_result" where
  "l1ctl_rx_dm_rel_req l = and_then (on_sched l (\<lambda>i. sched_trx_reset i False)) (\<lambda>_ l. Some (0, l, []))"

definition l1ctl_rx_dt_req :: "l1ctl_link \<Rightarrow> u8 list \<Rightarrow> nat \<Rightarrow> int l1_result" where
  "l1ctl_rx_dt_req l mem len = l1ctl_push_prim l mem (msgb_l2len len) (mem ! 4) (mem ! 5 AND 0x40)"

definition l1ctl_rx_param_req :: "l1ctl_link \<Rightarrow> u8 list \<Rightarrow> int l1_result" where
  "l1ctl_rx_param_req l mem =
    and_then (if ta (link_inst l) \<noteq> mem ! 8 then on_trx l (\<lambda>t. trx_if_cmd_setta t (mem ! 8)) else Some (0, l, []))
      (\<lambda>_ l. Some (0, put_inst l ((link_inst l)\<lparr>ta := mem ! 8, tx_power := mem ! 9\<rparr>), []))"

text \<open>The loop over the configured timeslots and their active channels.\<close>

definition set_tch_mode :: "u8 \<Rightarrow> trx_ts option \<Rightarrow> trx_ts option option" where
  "set_tch_mode mode slot =
    (case slot of
       None \<Rightarrow> Some None
     | Some ts \<Rightarrow>
         if mf_layout ts = None then Some (Some ts)
         else do {
           ls \<leftarrow> lchans ts;
           Some (Some (ts\<lparr>lchans := Some (map (\<lambda>lchan. if active lchan then lchan\<lparr>tch_mode := mode\<rparr> else lchan) ls)\<rparr>))
         })"

definition l1ctl_rx_tch_mode_req :: "l1ctl_link \<Rightarrow> u8 list \<Rightarrow> nat \<Rightarrow> int l1_result" where
  "l1ctl_rx_tch_mode_req l mem len =
    (let slots = map (set_tch_mode (mem ! 4)) (ts_list (link_inst l)) in
     if None \<in> set slots then None
     else let (rc, l) = l1ctl_link_send (put_inst l ((link_inst l)\<lparr>ts_list := map the slots\<rparr>)) (take len (mem[0 := 25]))
       in Some (rc, l, []))"

definition l1ctl_rx_crypto_req :: "l1ctl_link \<Rightarrow> u8 list \<Rightarrow> int l1_result" where
  "l1ctl_rx_crypto_req l mem =
    (let tn = unat (mem ! 4 AND 7) in do {
       slot \<leftarrow> mem_at (ts_list (link_inst l)) tn;
       if Option.bind slot mf_layout = None then Some (- EINVAL, l, [])
       else do {
         (rc, slot) \<leftarrow> sched_trx_start_ciphering slot (mem ! 8) (drop 10 mem) (mem ! 9);
         Some (if rc \<noteq> 0 then - EINVAL else 0,
               put_inst l ((link_inst l)\<lparr>ts_list := (ts_list (link_inst l))[tn := slot]\<rparr>), [])
       } })"

section \<open>Dispatch\<close>

definition l1ctl_rx_cb :: "l1ctl_link \<Rightarrow> u8 list \<Rightarrow> nat \<Rightarrow> int l1_result" where
  "l1ctl_rx_cb l mem len =
    (let ty = mem ! 0 in
     if ty = 1 then l1ctl_rx_fbsb_req l mem len
     else if ty = 8 then l1ctl_rx_pm_req l mem len
     else if ty = 13 then l1ctl_rx_reset_req l mem len
     else if ty = 10 then l1ctl_rx_echo_req l mem len
     else if ty = 16 then l1ctl_rx_ccch_mode_req l mem len
     else if ty = 4 then l1ctl_rx_rach_req l mem False
     else if ty = 36 then l1ctl_rx_rach_req l mem True
     else if ty = 5 then l1ctl_rx_dm_est_req l mem
     else if ty = 18 then l1ctl_rx_dm_rel_req l
     else if ty = 6 then l1ctl_rx_dt_req l mem len
     else if ty = 28 then l1ctl_rx_dt_req l mem len
     else if ty = 19 then l1ctl_rx_param_req l mem
     else if ty = 24 then l1ctl_rx_tch_mode_req l mem len
     else if ty = 21 then l1ctl_rx_crypto_req l mem
     else if ty \<in> {26, 34, 32, 20, 22} then Some (- ENOTSUP, l, [])
     else Some (- EINVAL, l, []))"

section \<open>The connection\<close>

definition trxcon_fsm_dispatch :: "l1ctl_link \<Rightarrow> trxcon_event \<Rightarrow> unit l1_result" where
  "trxcon_fsm_dispatch l ev =
    (if ev \<notin> set (in_event_mask (app_fsm l)) then Some ((), l, [])
     else case ev of
         L1CTL_EVENT_CONNECT \<Rightarrow> Some ((), l\<lparr>app_fsm := TRXCON_STATE_MANAGED\<rparr>, [])
       | L1CTL_EVENT_DISCONNECT \<Rightarrow>
           (let l = l\<lparr>app_fsm := TRXCON_STATE_IDLE\<rparr> in
            if fsm_state (l1_trx l) \<noteq> TRX_STATE_OFFLINE
            then and_then (on_sched l (\<lambda>i. sched_trx_reset i True)) (\<lambda>_ l.
                 and_then (on_trx l trx_if_cmd_poweroff) (\<lambda>_ l.
                 and_then (on_trx l trx_if_cmd_echo) (\<lambda>_ l. Some ((), l, []))))
            else Some ((), l, []))
       | _ \<Rightarrow> Some ((), l, []))"

definition l1ctl_link_close_conn :: "l1ctl_link \<Rightarrow> int l1_result" where
  "l1ctl_link_close_conn l =
    (if conn_fd l \<le> 0 then Some (- EINVAL, l, [])
     else and_then (trxcon_fsm_dispatch (l\<lparr>conn_fd := -1, wq := []\<rparr>) L1CTL_EVENT_DISCONNECT)
       (\<lambda>_ l. Some (0, l\<lparr>l1_fsm := L1CTL_STATE_IDLE\<rparr>, [])))"

text \<open>\<open>cfd\<close> is the accepted socket, or negative; \<open>registered\<close> tells whether it could be watched.\<close>

definition l1ctl_link_accept :: "l1ctl_link \<Rightarrow> int \<Rightarrow> bool \<Rightarrow> int l1_result" where
  "l1ctl_link_accept l cfd registered =
    (if cfd < 0 then Some (-1, l, [])
     else if conn_fd l \<noteq> -1 then Some (0, l, [])
     else let l = l\<lparr>wq := [], wq_max := 100\<rparr> in
       if \<not> registered then Some (-1, l, [])
       else and_then (trxcon_fsm_dispatch (l\<lparr>conn_fd := cfd\<rparr>) L1CTL_EVENT_CONNECT)
         (\<lambda>_ l. Some (0, l\<lparr>l1_fsm := L1CTL_STATE_CONNECTED\<rparr>, [])))"

text \<open>
  The read handler: \<open>hdr\<close> is what the first \<open>read\<close> returned, at most two octets, and
  \<open>body\<close> what the second one returned, at most as many as announced.
\<close>

definition l1ctl_link_read_cb :: "l1ctl_link \<Rightarrow> u8 list \<Rightarrow> u8 list \<Rightarrow> int l1_result" where
  "l1ctl_link_read_cb l hdr body =
    (if length hdr < 2 then and_then (l1ctl_link_close_conn l) (\<lambda>_ l. Some (- EIO, l, []))
     else let len = unat (osmo_load16be hdr) in
     if len > L1CTL_LENGTH then Some (- EINVAL, l, [])
     else if length body \<noteq> len then Some (int (length body), l, [])
     else and_then (l1ctl_rx_cb l (body @ replicate (L1CTL_LENGTH - len) 0) len) (\<lambda>_ l. Some (0, l, [])))"

definition l1ctl_shutdown_cb :: "l1ctl_link \<Rightarrow> l1ctl_link" where
  "l1ctl_shutdown_cb l = l\<lparr>fbsb_timer := None\<rparr>"

text \<open>The link as \<open>l1ctl_link_init\<close> leaves it, bound to a transceiver.\<close>

definition l1ctl_link_init :: "trx_if \<Rightarrow> l1ctl_link" where
  "l1ctl_link_init t = \<lparr>l1_fsm = L1CTL_STATE_IDLE, conn_fd = -1, wq = [], wq_max = 0, fbsb_timer = None,
     app_fsm = TRXCON_STATE_IDLE, l1_trx = t\<rparr>"

end
