(* ===== verification/L1ctlInv.thy ===== *)
theory L1ctlInv
  imports L1ctl
begin

text \<open>
  The requests of the application keep the state well formed: commands and configuration
  below the link only send control datagrams, and every handler, on a message that meets the
  conditions stated here, returns and preserves the invariant of the scheduler and the clock.
\<close>

section \<open>Calls into the transceiver interface\<close>

definition only_ctrl :: "if_event list \<Rightarrow> bool" where
  "only_ctrl evs \<longleftrightarrow> (\<forall>ev \<in> set evs. \<exists>c. ev = CtrlSent c)"

lemma only_ctrl_simps [simp]:
  "only_ctrl []" "only_ctrl (CtrlSent c # evs) \<longleftrightarrow> only_ctrl evs"
  "only_ctrl (o1 @ o2) \<longleftrightarrow> only_ctrl o1 \<and> only_ctrl o2"
  by (auto simp: only_ctrl_def)

lemma l1_events_ctrl: "only_ctrl evs \<Longrightarrow> l1_events l evs = Some (l, evs)"
  by (induction evs) (auto simp: only_ctrl_def l1_event_def)

text \<open>What a command does: it changes the queue and the machine, and sends at most itself.\<close>

definition cmd_like :: "(trx_if \<Rightarrow> int \<times> trx_if \<times> if_event list) \<Rightarrow> bool" where
  "cmd_like f \<longleftrightarrow> (\<forall>t. case f t of (rc, t', evs) \<Rightarrow> inst t' = inst t \<and> only_ctrl evs)"

lemma cmd_like_ctrl_cmd: "cmd_like (\<lambda>t. trx_ctrl_cmd t crit name args)"
  by (auto simp: cmd_like_def trx_ctrl_cmd_def trx_ctrl_send_def state_chg_def Let_def split: list.splits)

lemma cmd_like_cmds:
  "cmd_like trx_if_cmd_echo" "cmd_like trx_if_cmd_poweroff" "cmd_like trx_if_cmd_poweron"
  "cmd_like (\<lambda>t. trx_if_cmd_rxtune t a)" "cmd_like (\<lambda>t. trx_if_cmd_txtune t a)"
  "cmd_like (\<lambda>t. trx_if_cmd_setta t w)" "cmd_like (\<lambda>t. trx_if_cmd_setslot t tn ty)"
  "cmd_like (\<lambda>t. trx_if_cmd_measure t a b)" "cmd_like (\<lambda>t. trx_if_cmd_setfh t hsn maio ma)"
  using cmd_like_ctrl_cmd
  by (simp_all add: cmd_like_def trx_if_cmd_echo_def trx_if_cmd_poweroff_def trx_if_cmd_poweron_def
      trx_if_cmd_rxtune_def trx_if_cmd_txtune_def trx_if_cmd_setta_def trx_if_cmd_setslot_def
      trx_if_cmd_measure_def trx_if_cmd_setfh_def Let_def split: sum.split)
    (simp_all add: split_def)

lemma on_trx_cmd:
  assumes "cmd_like f"
  obtains rc t out where "on_trx l f = Some (rc, l\<lparr>l1_trx := t\<rparr>, out)" "f (l1_trx l) = (rc, t, out)"
    "inst t = link_inst l"
proof -
  obtain rc t evs where f: "f (l1_trx l) = (rc, t, evs)" by (cases "f (l1_trx l)")
  then have "inst t = link_inst l" "only_ctrl evs" using assms by (auto simp: cmd_like_def dest: spec [of _ "l1_trx l"])
  with that f show thesis by (simp add: on_trx_def l1_events_ctrl)
qed

section \<open>Calls into the scheduler\<close>

definition only_setslot :: "trx_event list \<Rightarrow> bool" where
  "only_setslot evs \<longleftrightarrow> (\<forall>ev \<in> set evs. \<exists>tn ty. ev = TrxCmdSetslot tn ty)"

lemma only_setslot_simps [simp]:
  "only_setslot []" "only_setslot (TrxCmdSetslot tn ty # evs) \<longleftrightarrow> only_setslot evs"
  "only_setslot (o1 @ o2) \<longleftrightarrow> only_setslot o1 \<and> only_setslot o2"
  by (auto simp: only_setslot_def)

lemma run_setslots:
  "only_setslot evs \<Longrightarrow> \<exists>t' out. run_events t evs = (t', out) \<and> inst t' = inst t \<and> only_ctrl out"
proof (induction evs arbitrary: t)
  case (Cons ev evs)
  then obtain tn ty where ev: "ev = TrxCmdSetslot tn ty" by (auto simp: only_setslot_def)
  obtain rc t1 o1 where 1: "trx_if_cmd_setslot t tn ty = (rc, t1, o1)" by (cases "trx_if_cmd_setslot t tn ty")
  then have k: "inst t1 = inst t" "only_ctrl o1"
    using cmd_like_cmds(7) [of tn ty] by (auto simp: cmd_like_def dest: spec [of _ t])
  have "only_setslot evs" using Cons.prems ev by simp
  from Cons.IH [OF this, of t1] show ?case using 1 k ev by auto
qed simp

lemma on_sched_setslots:
  assumes "f (link_inst l) = Some (rc, i, evs)" "only_setslot evs"
  obtains t out where "on_sched l f = Some (rc, l\<lparr>l1_trx := t\<rparr>, out)" "inst t = i"
    "run_events ((l1_trx l)\<lparr>inst := i\<rparr>) evs = (t, out)"
proof -
  obtain t out where "run_events ((l1_trx l)\<lparr>inst := i\<rparr>) evs = (t, out)" "inst t = i" "only_ctrl out"
    using run_setslots [OF assms(2), of "(l1_trx l)\<lparr>inst := i\<rparr>"] by auto
  with that assms(1) show thesis by (simp add: on_sched_def l1_events_ctrl)
qed

lemma del_all_ts_events: "del_all_ts tns i = Some (i', evs) \<Longrightarrow> only_setslot evs"
proof (induction tns arbitrary: i i' evs)
  case (Cons tn tns)
  then obtain i1 e1 e2 where "sched_trx_del_ts i tn = Some (i1, e1)" "del_all_ts tns i1 = Some (i', e2)" "evs = e1 @ e2"
    by (auto simp: bind_Some_iff)
  moreover from this(1) have "only_setslot e1"
    by (auto simp: sched_trx_del_ts_def bind_Some_iff split: option.splits)
  ultimately show ?case using Cons.IH by simp
qed simp

lemma clck_inv_reset: "clck_inv s \<Longrightarrow> clck_inv (sched_clck_reset s) \<and> clock_cb (sched_clck_reset s) = clock_cb s"
  by (simp add: clck_inv_def sched_clck_reset_def)

lemma sched_reset_ok:
  assumes "trx_inv i"
  obtains i' evs where "sched_trx_reset i b = Some (0, i', evs)" "trx_inv i'" "only_setslot evs"
    "ts_list i' = replicate 8 None" "tsc i' = tsc i" "band_arfcn i' = band_arfcn i"
proof -
  from assms have w: "wf_trx i" by (simp add: trx_inv_def)
  obtain tss evs where d: "del_all_ts [0..<8] i = Some (i\<lparr>ts_list := tss\<rparr>, evs)" "wf_trx (i\<lparr>ts_list := tss\<rparr>)"
    "\<forall>k \<in> set [0..<8]. tss ! k = None"
    using del_all_ts_ok [of "[0..<8]", OF _ w] by auto
  have e: "tss = replicate 8 None" using d(2,3) by (intro nth_equalityI) (auto simp: wf_trx_def)
  show thesis
  proof (rule that)
    show "sched_trx_reset i b =
        Some (0, if b then i\<lparr>ts_list := tss, sched := sched_clck_reset (sched i)\<rparr> else i\<lparr>ts_list := tss\<rparr>, evs)"
      using d(1) by (simp add: sched_trx_reset_def)
    show "trx_inv (if b then i\<lparr>ts_list := tss, sched := sched_clck_reset (sched i)\<rparr> else i\<lparr>ts_list := tss\<rparr>)"
      using assms d(2) clck_inv_reset [of "sched i"] by (auto simp: trx_inv_def wf_trx_def)
  qed (use e del_all_ts_events [OF d(1)] in simp_all)
qed

lemma configure_ok:
  assumes "trx_inv i" "tn < TRX_TS_COUNT" "supported_pchan config"
  obtains mf evs where "sched_mframe_layout config tn = Some mf" "chan_config mf = config" "mf_ok mf"
    "evs = (if ts_list i ! tn = None then [] else [TrxCmdSetslot tn 0]) @ [TrxCmdSetslot tn 1]"
    "sched_trx_configure_ts i tn config
      = Some (0, i\<lparr>ts_list := (ts_list i)[tn := Some (configured_ts tn mf)]\<rparr>, evs)"
    "trx_inv (i\<lparr>ts_list := (ts_list i)[tn := Some (configured_ts tn mf)]\<rparr>)"
proof -
  from assms(1) have w: "wf_trx i" by (simp add: trx_inv_def)
  obtain mf where mf: "sched_mframe_layout config tn = Some mf" "chan_config mf = config" "mf_ok mf"
    by (rule supported_mframe_layout [OF assms(3,2)])
  have "wf_trx (i\<lparr>ts_list := (ts_list i)[tn := Some (configured_ts tn mf)]\<rparr>)"
    by (rule wf_trx_put [OF w assms(2)]) (use wf_configured_ts [OF mf(3)] in simp)
  then have "trx_inv (i\<lparr>ts_list := (ts_list i)[tn := Some (configured_ts tn mf)]\<rparr>)"
    using assms(1) by (simp add: trx_inv_def)
  with that mf configure_ts_spec(2) [OF w assms(2) mf(1,2)] show thesis by blast
qed

section \<open>The contract of the handlers\<close>

definition l1_inv :: "l1ctl_link \<Rightarrow> bool" where
  "l1_inv l \<longleftrightarrow> trx_inv (link_inst l) \<and> length (wq l) \<le> wq_max l"

definition l1_post :: "('a \<Rightarrow> l1ctl_link \<Rightarrow> bool) \<Rightarrow> 'a l1_result \<Rightarrow> bool" where
  "l1_post P m \<longleftrightarrow> (\<exists>a l out. m = Some (a, l, out) \<and> P a l \<and> l1_inv l \<and> only_ctrl out)"

abbreviation l1_ok :: "'a l1_result \<Rightarrow> bool" where
  "l1_ok \<equiv> l1_post (\<lambda>_ _. True)"

lemma l1_postI: "P a l \<Longrightarrow> l1_inv l \<Longrightarrow> only_ctrl out \<Longrightarrow> l1_post P (Some (a, l, out))"
  by (simp add: l1_post_def)

lemma l1_post_then:
  "l1_post P m \<Longrightarrow> (\<And>a l. P a l \<Longrightarrow> l1_inv l \<Longrightarrow> l1_post Q (f a l)) \<Longrightarrow> l1_post Q (and_then m f)"
  by (fastforce simp: l1_post_def and_then_def)

lemma l1_ok_then: "l1_ok m \<Longrightarrow> (\<And>a l. l1_inv l \<Longrightarrow> l1_post Q (f a l)) \<Longrightarrow> l1_post Q (and_then m f)"
  by (rule l1_post_then)

lemma l1_post_return [simp]: "l1_post P (Some (a, l, [])) \<longleftrightarrow> P a l \<and> l1_inv l"
  by (simp add: l1_post_def)

lemma l1_inv_put_inst: "l1_inv l \<Longrightarrow> trx_inv i \<Longrightarrow> l1_inv (put_inst l i)"
  by (simp add: l1_inv_def put_inst_def)

lemma l1_inv_fields:
  "l1_inv (l\<lparr>fbsb_timer := x\<rparr>) = l1_inv l" "l1_inv (l\<lparr>app_fsm := y\<rparr>) = l1_inv l"
  "l1_inv (l\<lparr>l1_fsm := z\<rparr>) = l1_inv l" "l1_inv l \<Longrightarrow> l1_inv (l\<lparr>conn_fd := c, wq := []\<rparr>)"
  by (simp_all add: l1_inv_def)

lemma trx_inv_phy:
  assumes "trx_inv i"
  shows "trx_inv (i\<lparr>band_arfcn := a\<rparr>)" "trx_inv (i\<lparr>fbsb_conf_sent := b\<rparr>)" "trx_inv (i\<lparr>ta := t, tx_power := p\<rparr>)"
    "unat c < 8 \<Longrightarrow> trx_inv (i\<lparr>tsc := c\<rparr>)"
  using assms by (simp_all add: trx_inv_def wf_trx_def)

lemma l1_inv_fbsb_sent: "l1_inv l \<Longrightarrow> l1_inv (set_fbsb_conf_sent b l)"
  by (simp add: l1_inv_def set_fbsb_conf_sent_def trx_inv_phy)

lemma link_send_ok: "l1_inv l \<Longrightarrow> l1ctl_link_send l m = (rc, l') \<Longrightarrow> l1_inv l'"
  by (auto simp: l1_inv_def l1ctl_link_send_def split: if_splits)

lemma sent_post: "l1_inv l \<Longrightarrow> l1_ok (case l1ctl_link_send l m of (rc, l) \<Rightarrow> Some (rc, l, []))"
  using link_send_ok [of l m] by (auto simp: l1_post_def split: prod.split)

lemma on_trx_ok: "cmd_like f \<Longrightarrow> l1_inv l \<Longrightarrow> l1_ok (on_trx l f)"
  by (rule on_trx_cmd [of f l]) (auto simp: l1_post_def l1_inv_def on_trx_def l1_events_ctrl cmd_like_def dest: spec [of _ "l1_trx l"])

lemma on_sched_ok:
  assumes "f (link_inst l) = Some (rc, i, evs)" "only_setslot evs" "l1_inv l" "trx_inv i"
  shows "l1_post (\<lambda>a l'. a = rc \<and> link_inst l' = i) (on_sched l f)"
proof -
  obtain t out where "run_events ((l1_trx l)\<lparr>inst := i\<rparr>) evs = (t, out)" "inst t = i" "only_ctrl out"
    using run_setslots [OF assms(2), of "(l1_trx l)\<lparr>inst := i\<rparr>"] by auto
  with assms show ?thesis by (simp add: on_sched_def l1_events_ctrl l1_post_def l1_inv_def)
qed

lemma l1_post_weaken: "l1_post P m \<Longrightarrow> (\<And>a l. P a l \<Longrightarrow> Q a l) \<Longrightarrow> l1_post Q m"
  by (auto simp: l1_post_def)

lemma on_reset_ok:
  assumes "l1_inv l"
  shows "l1_ok (on_sched l (\<lambda>i. sched_trx_reset i b))"
proof -
  have "trx_inv (link_inst l)" using assms by (simp add: l1_inv_def)
  then obtain i' evs where "sched_trx_reset (link_inst l) b = Some (0, i', evs)" "trx_inv i'" "only_setslot evs"
    by (rule sched_reset_ok)
  then show ?thesis
    by (intro l1_post_weaken [OF on_sched_ok [where f = "\<lambda>i. sched_trx_reset i b", OF _ _ assms]]) simp_all
qed

lemma on_configure_ok:
  assumes "l1_inv l" "tn < TRX_TS_COUNT" "supported_pchan config"
  shows "l1_post (\<lambda>rc l'. rc = 0 \<and> ts_list (link_inst l') ! tn \<noteq> None) (on_sched l (\<lambda>i. sched_trx_configure_ts i tn config))"
proof -
  have i: "trx_inv (link_inst l)" using assms(1) by (simp add: l1_inv_def)
  obtain mf evs where c: "evs = (if ts_list (link_inst l) ! tn = None then [] else [TrxCmdSetslot tn 0]) @ [TrxCmdSetslot tn 1]"
    "sched_trx_configure_ts (link_inst l) tn config
      = Some (0, (link_inst l)\<lparr>ts_list := (ts_list (link_inst l))[tn := Some (configured_ts tn mf)]\<rparr>, evs)"
    "trx_inv ((link_inst l)\<lparr>ts_list := (ts_list (link_inst l))[tn := Some (configured_ts tn mf)]\<rparr>)"
    by (rule configure_ok [OF i assms(2,3)])
  have "only_setslot evs" by (simp add: c(1))
  from on_sched_ok [where f = "\<lambda>i. sched_trx_configure_ts i tn config", OF c(2) this assms(1) c(3)]
  show ?thesis using i assms(2) by (auto simp: l1_post_def trx_inv_def wf_trx_def)
qed

section \<open>The handlers\<close>

lemma supported_ccch: "supported_pchan (l1ctl_ccch_mode2pchan_config m)"
  by (simp add: l1ctl_ccch_mode2pchan_config_def supported_pchan_def)

lemma supported_est: "sched_trx_chan_nr2pchan_config c \<noteq> GSM_PCHAN_NONE \<Longrightarrow> supported_pchan (sched_trx_chan_nr2pchan_config c)"
  by (auto simp: sched_trx_chan_nr2pchan_config_def supported_pchan_def Let_def)

lemma tn_less: "unat (c AND 7 :: u8) < 8"
  using word_and_le1 [of c 7] by (simp add: word_le_nat_alt)

lemma l1_inv_inst [simp]: "l1_inv l \<Longrightarrow> trx_inv (link_inst l)"
  by (simp add: l1_inv_def)

lemma l1_inv_put_phy:
  "l1_inv l \<Longrightarrow> l1_inv (put_inst l ((link_inst l)\<lparr>band_arfcn := a\<rparr>))"
  "l1_inv l \<Longrightarrow> l1_inv (put_inst l ((link_inst l)\<lparr>ta := t, tx_power := p\<rparr>))"
  "l1_inv l \<Longrightarrow> unat c < 8 \<Longrightarrow> l1_inv (put_inst l ((link_inst l)\<lparr>tsc := c\<rparr>))"
  by (intro l1_inv_put_inst; simp add: trx_inv_phy)+

lemma fbsb_retune_ok: "l1_inv l \<Longrightarrow> l1_ok (fbsb_retune l arfcn)"
  unfolding fbsb_retune_def by (auto intro!: l1_ok_then on_trx_ok cmd_like_cmds l1_inv_put_phy)

lemma on_configure_any:
  "l1_inv l \<Longrightarrow> tn < TRX_TS_COUNT \<Longrightarrow> supported_pchan config \<Longrightarrow> l1_ok (on_sched l (\<lambda>i. sched_trx_configure_ts i tn config))"
  by (rule l1_post_weaken [OF on_configure_ok]) simp_all

lemma fbsb_req_ok: "l1_inv l \<Longrightarrow> l1_ok (l1ctl_rx_fbsb_req l mem len)"
  unfolding l1ctl_rx_fbsb_req_def Let_def
  by (auto intro!: l1_ok_then on_reset_ok on_configure_any fbsb_retune_ok on_trx_ok cmd_like_cmds
      supported_ccch l1_inv_fbsb_sent simp: l1_inv_fields)

lemma pm_req_ok: "l1_inv l \<Longrightarrow> l1_ok (l1ctl_rx_pm_req l mem len)"
  by (simp add: l1ctl_rx_pm_req_def on_trx_ok cmd_like_cmds)

lemma reset_and_confirm_ok: "l1_inv l \<Longrightarrow> l1_ok (reset_and_confirm l ty)"
  unfolding reset_and_confirm_def l1ctl_tx_reset_conf_def
  by (rule l1_ok_then [OF on_reset_ok]) (simp_all add: sent_post Let_def)

lemma reset_req_ok: "l1_inv l \<Longrightarrow> l1_ok (l1ctl_rx_reset_req l mem len)"
  unfolding l1ctl_rx_reset_req_def Let_def
  by (auto intro!: l1_ok_then on_trx_ok cmd_like_cmds reset_and_confirm_ok)

lemma echo_req_ok: "l1_inv l \<Longrightarrow> len \<le> 252 \<Longrightarrow> l1_ok (l1ctl_rx_echo_req l mem len)"
  unfolding l1ctl_rx_echo_req_def by (simp add: sent_post Let_def)

lemma ts0_slot: "l1_inv l \<Longrightarrow> tn < 8 \<Longrightarrow> mem_at (ts_list (link_inst l)) tn = Some (ts_list (link_inst l) ! tn)"
  by (simp add: l1_inv_def trx_inv_def wf_trx_slot)

lemma ccch_mode_req_ok: "l1_inv l \<Longrightarrow> l1_ok (l1ctl_rx_ccch_mode_req l mem len)"
  unfolding l1ctl_rx_ccch_mode_req_def Let_def l1ctl_tx_ccch_mode_conf_def
  by (auto simp: ts0_slot sent_post supported_ccch split: option.split
      intro!: l1_ok_then on_configure_any)

text \<open>A primitive with its payload: \<open>pl\<close> as long as it claims, and no short SACCH block.\<close>

lemma push_prim_ok:
  assumes l: "l1_inv l" and mem: "length mem = L1CTL_LENGTH"
    and ok: "sched_trx_chan_nr2lchan_type chan_nr link_id = TRXC_IDLE \<or>
      (pl_len \<le> 223 \<and> (chan_is_sacch (sched_trx_chan_nr2lchan_type chan_nr link_id) \<longrightarrow> 23 \<le> pl_len))"
  shows "l1_ok (l1ctl_push_prim l mem pl_len chan_nr link_id)"
proof (cases "sched_trx_chan_nr2lchan_type chan_nr link_id = TRXC_IDLE")
  case True
  then show ?thesis using l by (simp add: l1ctl_push_prim_def sched_prim_init_def)
next
  case False
  let ?c = "sched_trx_chan_nr2lchan_type chan_nr link_id"
  define prim where "prim = \<lparr>prim_chan = ?c, payload_len = pl_len, payload = replicate pl_len (0 :: u8)\<rparr>"
  have pl: "pl_len \<le> 223" "chan_is_sacch ?c \<longrightarrow> 23 \<le> pl_len" using ok False by auto
  have "unat (32 + of_nat pl_len :: u8) = 32 + pl_len"
    using pl(1) by (subst unat_add_lem [THEN iffD1]) (simp_all add: unat_of_nat)
  then have init: "sched_prim_init pl_len chan_nr link_id = Some (Inr prim)"
    using False by (simp add: sched_prim_init_def prim_def Let_def)
  let ?prim = "prim\<lparr>payload := blit (payload prim) 0 (take pl_len (drop 8 mem))\<rparr>"
  have w: "wf_prim prim" "wf_prim ?prim" using pl by (auto simp: wf_prim_def prim_def)
  have i: "wf_trx (link_inst l)" "trx_inv (link_inst l)" using l by (simp_all add: l1_inv_def trx_inv_def)
  obtain rc tss where p1: "sched_prim_push (ts_list (link_inst l)) prim chan_nr = Some (rc, tss)"
    using exec_push_ok [OF i(1) w(1)] by blast
  obtain rc' tss' where p2: "sched_prim_push (ts_list (link_inst l)) ?prim chan_nr = Some (rc', tss')"
    "wf_trx ((link_inst l)\<lparr>ts_list := tss'\<rparr>)"
    using exec_push_ok [OF i(1) w(2)] by blast
  then have "l1_inv (put_inst l ((link_inst l)\<lparr>ts_list := tss'\<rparr>))"
    using l i(2) by (intro l1_inv_put_inst) (simp_all add: trx_inv_ts_list)
  moreover have "mem_read mem 8 pl_len = Some (take pl_len (drop 8 mem))" using pl(1) mem by (simp add: mem_read_def)
  moreover have "mem_write (payload prim) 0 (take pl_len (drop 8 mem)) = Some (payload ?prim)"
    using pl(1) mem by (simp add: mem_write_def prim_def)
  ultimately show ?thesis using init p1 p2(1) l by (simp add: l1ctl_push_prim_def)
qed

lemma rach_req_ok:
  assumes "l1_inv l" "length mem = L1CTL_LENGTH"
    and "\<not> chan_is_sacch (sched_trx_chan_nr2lchan_type (if mem ! 4 = 0 then 0x88 else mem ! 4) (mem ! 5))"
  shows "l1_ok (l1ctl_rx_rach_req l mem ext)"
  using assms(2,3)
  by (cases ext) (auto simp: l1ctl_rx_rach_req_def Let_def swap16_def intro!: push_prim_ok [OF assms(1)] split: if_splits)

lemma dt_req_ok:
  assumes "l1_inv l" "length mem = L1CTL_LENGTH" "len \<le> L1CTL_LENGTH"
    and "sched_trx_chan_nr2lchan_type (mem ! 4) (mem ! 5 AND 0x40) = TRXC_IDLE \<or> 8 \<le> len \<and> len \<le> 231 \<and>
      (chan_is_sacch (sched_trx_chan_nr2lchan_type (mem ! 4) (mem ! 5 AND 0x40)) \<longrightarrow> 31 \<le> len)"
  shows "l1_ok (l1ctl_rx_dt_req l mem len)"
proof -
  have "msgb_l2len len = len - 8" if "8 \<le> len"
  proof -
    have "of_nat len - (8 :: u32) = of_nat (len - 8)" using that by (simp add: of_nat_diff)
    then show ?thesis using assms(3) by (simp add: msgb_l2len_def unat_of_nat)
  qed
  then show ?thesis using assms unfolding l1ctl_rx_dt_req_def by (intro push_prim_ok) auto
qed

text \<open>Establishment of a dedicated channel.\<close>

lemma est_activate_ok:
  assumes l: "l1_inv l" and tn: "tn < 8" and ts: "ts_list (link_inst l) ! tn \<noteq> None"
  shows "l1_ok (est_activate l tn chan_nr mode)"
proof -
  have i: "trx_inv (link_inst l)" "wf_trx (link_inst l)" using l by (simp_all add: l1_inv_def trx_inv_def)
  obtain ts where t: "ts_list (link_inst l) ! tn = Some ts" using ts by auto
  then have "wf_ts tn ts" using i(2) tn by (simp add: wf_trx_def)
  from deactivate_all_ok [OF this] obtain ls where
    d: "sched_trx_deactivate_all_lchans ts = Some (ts\<lparr>lchans := Some ls\<rparr>)" "wf_ts tn (ts\<lparr>lchans := Some ls\<rparr>)" by blast
  obtain rc slot where s: "sched_trx_set_lchans (Some (ts\<lparr>lchans := Some ls\<rparr>)) chan_nr True mode = Some (rc, slot)"
    "\<forall>ts. slot = Some ts \<longrightarrow> wf_ts tn ts"
    using set_lchans_ok [of "Some (ts\<lparr>lchans := Some ls\<rparr>)" tn chan_nr True mode] d(2) by auto
  have "wf_trx ((link_inst l)\<lparr>ts_list := (ts_list (link_inst l))[tn := slot]\<rparr>)"
    by (rule wf_trx_put [OF i(2) tn]) (use s(2) in blast)
  from l1_inv_put_inst [OF l trx_inv_ts_list [OF i(1) this]] show ?thesis
    using d(1) s(1) t by (simp add: est_activate_def ts0_slot [OF l tn])
qed

lemma dm_est_req_ok:
  assumes l: "l1_inv l" and training: "unat (mem ! 8) < 8"
  shows "l1_ok (l1ctl_rx_dm_est_req l mem)"
proof -
  have h0: "l1_ok (l1ctl_proc_est_req_h0 l h)" for h
    unfolding l1ctl_proc_est_req_h0_def Let_def using l
    by (auto intro!: l1_ok_then on_trx_ok cmd_like_cmds l1_inv_put_phy)
  have h1: "l1_ok (l1ctl_proc_est_req_h1 l h)" for h
    unfolding l1ctl_proc_est_req_h1_def Let_def using l by (simp add: on_trx_ok cmd_like_cmds)
  have conf: "l1_ok (est_configure l' (unat (mem ! 4 AND 7)) (sched_trx_chan_nr2pchan_config (mem ! 4)) (mem ! 8) c m)"
    if "l1_inv l'" "sched_trx_chan_nr2pchan_config (mem ! 4) \<noteq> GSM_PCHAN_NONE" for l' c m
  proof -
    have "l1_inv (put_inst l' ((link_inst l')\<lparr>tsc := mem ! 8\<rparr>))"
      using that(1) training by (intro l1_inv_put_phy)
    from on_configure_ok [OF this tn_less supported_est [OF that(2)]] show ?thesis
      unfolding est_configure_def by (rule l1_post_then) (auto intro: est_activate_ok tn_less)
  qed
  show ?thesis unfolding l1ctl_rx_dm_est_req_def Let_def using l conf
    by (auto intro!: l1_ok_then h0 h1)
qed

lemma dm_rel_req_ok: "l1_inv l \<Longrightarrow> l1_ok (l1ctl_rx_dm_rel_req l)"
  unfolding l1ctl_rx_dm_rel_req_def by (rule l1_ok_then [OF on_reset_ok]) simp_all

lemma param_req_ok: "l1_inv l \<Longrightarrow> l1_ok (l1ctl_rx_param_req l mem)"
  unfolding l1ctl_rx_param_req_def
  by (auto intro!: l1_ok_then on_trx_ok cmd_like_cmds l1_inv_put_phy)

lemma set_tch_mode_ok:
  assumes "\<And>ts. slot = Some ts \<Longrightarrow> wf_ts i ts"
  shows "\<exists>slot'. set_tch_mode mode slot = Some slot' \<and> (\<forall>ts. slot' = Some ts \<longrightarrow> wf_ts i ts)"
proof (cases "\<exists>ts. slot = Some ts \<and> mf_layout ts \<noteq> None")
  case True
  then obtain ts where ts: "slot = Some ts" "mf_layout ts \<noteq> None" by blast
  then have w: "wf_ts i ts" by (intro assms)
  then obtain ls where ls: "lchans ts = Some ls" by (auto simp: wf_ts_def)
  have "wf_ts i (ts\<lparr>lchans := Some (map (\<lambda>lchan. if active lchan then lchan\<lparr>tch_mode := mode\<rparr> else lchan) ls)\<rparr>)"
    by (rule wf_ts_map [OF w ls]) (auto simp: wf_lchan_tch_mode)
  then show ?thesis using ts ls by (auto simp: set_tch_mode_def)
qed (use assms in \<open>auto simp: set_tch_mode_def split: option.splits\<close>)

lemma tch_mode_req_ok:
  assumes "l1_inv l"
  shows "l1_ok (l1ctl_rx_tch_mode_req l mem len)"
proof -
  have i: "trx_inv (link_inst l)" "wf_trx (link_inst l)" using assms by (simp_all add: l1_inv_def trx_inv_def)
  let ?slots = "map (set_tch_mode (mem ! 4)) (ts_list (link_inst l))"
  have ok: "\<exists>slot'. set_tch_mode (mem ! 4) (ts_list (link_inst l) ! k) = Some slot' \<and> (\<forall>ts. slot' = Some ts \<longrightarrow> wf_ts k ts)"
    if "k < 8" for k
    by (rule set_tch_mode_ok) (use i(2) that in \<open>simp add: wf_trx_def\<close>)
  have len: "length (ts_list (link_inst l)) = 8" using i(2) by (simp add: wf_trx_def)
  have "None \<notin> set ?slots"
  proof
    assume "None \<in> set ?slots"
    then obtain k where "k < 8" "set_tch_mode (mem ! 4) (ts_list (link_inst l) ! k) = None"
      using len by (auto simp: in_set_conv_nth)
    with ok show False by fastforce
  qed
  moreover have "wf_trx ((link_inst l)\<lparr>ts_list := map the ?slots\<rparr>)"
    using i(2) len ok by (fastforce simp: wf_trx_def)
  ultimately show ?thesis using assms trx_inv_ts_list [OF i(1)]
    by (simp add: l1ctl_rx_tch_mode_req_def Let_def sent_post l1_inv_put_inst)
qed

lemma crypto_req_ok:
  assumes l: "l1_inv l" and mem: "length mem = L1CTL_LENGTH"
  shows "l1_ok (l1ctl_rx_crypto_req l mem)"
proof -
  define tn where "tn = unat (mem ! 4 AND 7)"
  have tn: "tn < 8" by (simp add: tn_def tn_less)
  have i: "trx_inv (link_inst l)" "wf_trx (link_inst l)" using l by (simp_all add: l1_inv_def trx_inv_def)
  have "unat (mem ! 9) \<le> length (drop 10 mem)" if "unat (mem ! 9) \<le> 16" using that mem by simp
  then have "\<exists>rc slot'. sched_trx_start_ciphering slot (mem ! 8) (drop 10 mem) (mem ! 9) = Some (rc, slot')
      \<and> (\<forall>ts. slot' = Some ts \<longrightarrow> wf_ts tn ts)" if "\<And>ts. slot = Some ts \<Longrightarrow> wf_ts tn ts" for slot
    using start_ciphering_ok [OF that] that
    by (cases "unat (mem ! 9) \<le> 16") (auto simp: sched_trx_start_ciphering_def split: option.splits)
  from exec_slot_ok [where f = "\<lambda>s. sched_trx_start_ciphering s (mem ! 8) (drop 10 mem) (mem ! 9)", OF i(1) tn this]
  obtain rc slot' where
    s: "sched_trx_start_ciphering (ts_list (link_inst l) ! tn) (mem ! 8) (drop 10 mem) (mem ! 9) = Some (rc, slot')"
    "trx_inv ((link_inst l)\<lparr>ts_list := (ts_list (link_inst l))[tn := slot']\<rparr>)"
    using ts0_slot [OF l tn] by auto
  then show ?thesis using l ts0_slot [OF l tn]
    by (simp add: l1ctl_rx_crypto_req_def Let_def tn_def [symmetric] l1_inv_put_inst)
qed

section \<open>The dispatcher and the connection\<close>

text \<open>
  What a message must meet: an echo request leaves room for the four octets sent too many, a
  data request has a payload that fits into a primitive and is no short SACCH block, an
  access request is not for a SACCH, and the training sequence code exists.
\<close>

definition l1ctl_msg_ok :: "u8 list \<Rightarrow> nat \<Rightarrow> bool" where
  "l1ctl_msg_ok mem len \<longleftrightarrow>
    (mem ! 0 = 10 \<longrightarrow> len \<le> 252) \<and>
    (mem ! 0 = 6 \<or> mem ! 0 = 28 \<longrightarrow>
       sched_trx_chan_nr2lchan_type (mem ! 4) (mem ! 5 AND 0x40) = TRXC_IDLE \<or> 8 \<le> len \<and> len \<le> 231 \<and>
       (chan_is_sacch (sched_trx_chan_nr2lchan_type (mem ! 4) (mem ! 5 AND 0x40)) \<longrightarrow> 31 \<le> len)) \<and>
    (mem ! 0 = 4 \<or> mem ! 0 = 36 \<longrightarrow>
       \<not> chan_is_sacch (sched_trx_chan_nr2lchan_type (if mem ! 4 = 0 then 0x88 else mem ! 4) (mem ! 5))) \<and>
    (mem ! 0 = 5 \<longrightarrow> unat (mem ! 8) < 8)"

lemma rx_cb_ok:
  assumes l: "l1_inv l" and mem: "length mem = L1CTL_LENGTH" "len \<le> L1CTL_LENGTH" and ok: "l1ctl_msg_ok mem len"
  shows "l1_ok (l1ctl_rx_cb l mem len)"
  using ok l mem unfolding l1ctl_rx_cb_def Let_def l1ctl_msg_ok_def
  by (simp add: fbsb_req_ok pm_req_ok reset_req_ok echo_req_ok ccch_mode_req_ok rach_req_ok dm_est_req_ok
      dm_rel_req_ok dt_req_ok param_req_ok tch_mode_req_ok crypto_req_ok)

lemma close_conn_ok: "l1_inv l \<Longrightarrow> l1_ok (l1ctl_link_close_conn l)"
proof -
  assume l: "l1_inv l"
  have "l1_ok (trxcon_fsm_dispatch (l\<lparr>conn_fd := -1, wq := []\<rparr>) L1CTL_EVENT_DISCONNECT)"
    unfolding trxcon_fsm_dispatch_def Let_def using l
    by (auto simp: l1_inv_fields intro!: l1_ok_then on_reset_ok on_trx_ok cmd_like_cmds)
  then show ?thesis unfolding l1ctl_link_close_conn_def using l
    by (auto simp: l1_inv_fields intro!: l1_ok_then)
qed

lemma accept_ok: "l1_inv l \<Longrightarrow> l1_ok (l1ctl_link_accept l cfd registered)"
proof -
  assume l: "l1_inv l"
  then have "l1_inv (l\<lparr>wq := [], wq_max := 100\<rparr>)" "l1_inv (l\<lparr>wq := [], wq_max := 100, conn_fd := cfd\<rparr>)"
    "l1_inv (l\<lparr>wq := [], wq_max := 100, conn_fd := cfd, app_fsm := TRXCON_STATE_MANAGED\<rparr>)" by (simp_all add: l1_inv_def)
  then show ?thesis using l unfolding l1ctl_link_accept_def Let_def trxcon_fsm_dispatch_def
    by (auto simp: l1_inv_fields intro!: l1_ok_then)
qed

text \<open>What one call of the read handler may find on the socket.\<close>

definition read_ok :: "u8 list \<Rightarrow> u8 list \<Rightarrow> bool" where
  "read_ok hdr body \<longleftrightarrow> (2 \<le> length hdr \<and> length body = unat (osmo_load16be hdr) \<and> length body \<le> L1CTL_LENGTH
    \<longrightarrow> l1ctl_msg_ok (body @ replicate (L1CTL_LENGTH - length body) 0) (length body))"

lemma read_cb_ok:
  assumes "l1_inv l" "read_ok hdr body"
  shows "l1_ok (l1ctl_link_read_cb l hdr body)"
  using assms unfolding l1ctl_link_read_cb_def Let_def
  by (auto simp: read_ok_def intro!: l1_ok_then close_conn_ok rx_cb_ok)

lemma fbsb_timer_ok: "l1_inv l \<Longrightarrow> l1_inv (fbsb_timer_cb l)"
  by (auto simp: fbsb_timer_cb_def Let_def l1ctl_link_send_def set_fbsb_conf_sent_def l1_inv_def trx_inv_phy)

end
