(* ===== verification/L1ctlReq.thy ===== *)
theory L1ctlReq
  imports L1ctlInv SchedTrxAdmin TrxIfQueue
begin

text \<open>
  What the two requests at the heart of a call do, exactly: the establishment of a dedicated
  channel, from the frequency to the channel states and the commands queued for the
  transceiver, and a data request, from the octets of the message to the transmit queue,
  with the messages that crash the program.
\<close>

section \<open>Data requests\<close>

lemma l2len_cases:
  assumes "len \<le> L1CTL_LENGTH"
  shows "8 \<le> len \<Longrightarrow> msgb_l2len len = len - 8" and "len < 8 \<Longrightarrow> msgb_l2len len = 2 ^ 32 - (8 - len)"
proof -
  have n: "unat (of_nat len :: u32) = len" using assms by (simp add: unat_of_nat)
  show "8 \<le> len \<Longrightarrow> msgb_l2len len = len - 8" and "len < 8 \<Longrightarrow> msgb_l2len len = 2 ^ 32 - (8 - len)"
    unfolding msgb_l2len_def unat_sub_if' n by simp_all
qed

text \<open>A message shorter than its header passes every check of the length behind it.\<close>

lemma short_header_unchecked: "len < 4 \<Longrightarrow> \<not> msgb_l1len len < 13"
proof -
  assume "len < 4"
  moreover from this have "unat (of_nat len :: u32) = len" by (simp add: unat_of_nat)
  ultimately show ?thesis unfolding msgb_l1len_def unat_sub_if' by simp
qed

text \<open>The eight bits of the size of a primitive, for a message of any length.\<close>

lemma prim_size:
  assumes "len \<le> L1CTL_LENGTH"
  shows "unat (32 + of_nat (msgb_l2len len) :: u8) = (if len < 8 then 24 + len else if len \<le> 231 then 24 + len else len - 232)"
proof -
  have e: "unat (32 + of_nat m :: u8) = (32 + m) mod 256" for m
  proof -
    have "(32 + of_nat m :: u8) = of_nat (32 + m)" by simp
    then show ?thesis by (simp only: unat_of_nat) simp
  qed
  consider "len < 8" | "8 \<le> len" "len \<le> 231" | "231 < len" by linarith
  then show ?thesis
  proof cases
    case 1
    then have "len \<in> set [0..<8]" by simp
    then show ?thesis unfolding e l2len_cases(2) [OF assms 1] by (auto simp: upt_rec)
  next
    case 2
    then show ?thesis unfolding e l2len_cases(1) [OF assms 2(1)] by simp
  next
    case 3
    have "32 + (len - 8) = 256 + (len - 232)" using 3 by simp
    then have "(32 + (len - 8)) mod 256 = (len - 232) mod 256" by (simp only: mod_add_self1)
    then show ?thesis unfolding e using l2len_cases(1) [OF assms] 3 assms by simp
  qed
qed

definition data_prim :: "trx_lchan_type \<Rightarrow> u8 list \<Rightarrow> nat \<Rightarrow> trx_ts_prim" where
  "data_prim chan mem len =
    \<lparr>prim_chan = chan, payload_len = len - 8, payload = take (len - 8) (drop 8 mem)\<rparr>"

text \<open>
  C31. A data or traffic request is decided as follows. If channel number and link identifier
  name no logical channel it is refused. Otherwise a message without a complete uplink
  header, or with more than 223 octets of payload, is written past the memory allocated for
  it. Every other one is put, octet for octet, at the end of the transmit queue of its
  timeslot and nothing else changes, or refused if that timeslot is not configured.
\<close>

theorem data_request_exact:
  assumes "trx_inv (inst (l1_trx l))" "length mem = 256" "len \<le> 256"
  defines "c \<equiv> sched_trx_chan_nr2lchan_type (mem ! 4) (mem ! 5 AND 0x40)" and "tn \<equiv> unat (mem ! 4 AND 7)"
  shows "l1ctl_rx_dt_req l mem len =
    (if c = TRXC_IDLE then Some (- EINVAL, l, [])
     else if len < 8 \<or> 231 < len then None
     else case ts_list (inst (l1_trx l)) ! tn of
         None \<Rightarrow> Some (- EINVAL, l, [])
       | Some ts \<Rightarrow>
           if mf_layout ts = None then Some (- EINVAL, l, [])
           else Some (0, put_inst l ((inst (l1_trx l))\<lparr>ts_list := (ts_list (inst (l1_trx l)))
             [tn := Some (ts\<lparr>tx_prims := Some (the (tx_prims ts) @ [data_prim c mem len])\<rparr>)]\<rparr>), []))"
proof -
  have w: "wf_trx (link_inst l)" using assms(1) by (simp add: trx_inv_def)
  have tn: "tn < 8" by (simp add: tn_def tn_less)
  show ?thesis
  proof (cases "c = TRXC_IDLE \<or> len < 8 \<or> 231 < len")
    case True
    then show ?thesis using prim_size [OF assms(3)] assms(3)
      by (auto simp: l1ctl_rx_dt_req_def l1ctl_push_prim_def sched_prim_init_def c_def Let_def)
  next
    case False
    then have len: "8 \<le> len" "len \<le> 231" "c \<noteq> TRXC_IDLE" by auto
    define prim where "prim = \<lparr>prim_chan = c, payload_len = len - 8, payload = replicate (len - 8) (0 :: u8)\<rparr>"
    have init: "sched_prim_init (len - 8) (mem ! 4) (mem ! 5 AND 0x40) = Some (Inr prim)"
      using prim_size [OF assms(3)] l2len_cases(1) [OF assms(3) len(1)] len
      by (simp add: sched_prim_init_def prim_def c_def Let_def)
    have rd: "mem_read mem 8 (len - 8) = Some (take (len - 8) (drop 8 mem))" using assms(2,3) len by (simp add: mem_read_def)
    have wr: "mem_write (payload prim) 0 (take (len - 8) (drop 8 mem)) = Some (take (len - 8) (drop 8 mem))"
      using assms(2,3) len by (simp add: mem_write_def prim_def blit_def)
    have push: "sched_prim_push (ts_list (link_inst l)) p (mem ! 4) =
      (case ts_list (link_inst l) ! tn of
         None \<Rightarrow> Some (- EINVAL, ts_list (link_inst l))
       | Some ts \<Rightarrow> if mf_layout ts = None then Some (- EINVAL, ts_list (link_inst l))
           else Some (0, (ts_list (link_inst l))[tn := Some (ts\<lparr>tx_prims := Some (the (tx_prims ts) @ [p])\<rparr>)]))" for p
    proof (cases "ts_list (link_inst l) ! tn")
      case None
      then show ?thesis using wf_trx_slot [OF w tn] by (simp add: sched_prim_push_def tn_def [symmetric])
    next
      case (Some ts)
      then have "wf_ts tn ts" using w tn by (simp add: wf_trx_def)
      then obtain q where "tx_prims ts = Some q" by (auto simp: wf_ts_def)
      then show ?thesis using Some wf_trx_slot [OF w tn] by (simp add: sched_prim_push_def tn_def [symmetric])
    qed
    show ?thesis
      unfolding l1ctl_rx_dt_req_def l1ctl_push_prim_def l2len_cases(1) [OF assms(3) len(1)]
      using len init rd wr
      by (simp add: push data_prim_def prim_def split: option.split)
  qed
qed

definition demo_data_req :: "u8 list" where
  "demo_data_req = [6, 0, 0, 0, 0x22, 0, 0, 0] @ replicate 23 0x2b @ replicate 225 0"

lemma demo_link:
  obtains mf where "chan_config mf = GSM_PCHAN_CCCH_SDCCH4"
    "trx_inv ((snd (sched_trx_init trx_zero 3))\<lparr>ts_list := (replicate 8 None)[2 := Some (configured_ts 2 mf)]\<rparr>)"
proof -
  have z: "ts_list (snd (sched_trx_init trx_zero 3)) = replicate 8 None" by (simp add: sched_trx_init_def trx_zero_def)
  obtain mf evs where "chan_config mf = GSM_PCHAN_CCCH_SDCCH4"
    "trx_inv ((snd (sched_trx_init trx_zero 3))\<lparr>ts_list := (ts_list (snd (sched_trx_init trx_zero 3)))[2 := Some (configured_ts 2 mf)]\<rparr>)"
    by (rule configure_ok [OF trx_inv_init [of 3], of 2 GSM_PCHAN_CCCH_SDCCH4]) (simp_all add: supported_pchan_def)
  with that z show thesis by simp
qed

theorem data_request_exact_witness:
  "\<exists>l ts l'. ts_list (inst (l1_trx l)) ! 2 = Some ts \<and> tx_prims ts = Some []
    \<and> l1ctl_rx_dt_req l demo_data_req 31 = Some (0, l', [])
    \<and> map_option tx_prims (ts_list (inst (l1_trx l')) ! 2)
        = Some (Some [\<lparr>prim_chan = TRXC_SDCCH4_0, payload_len = 23, payload = replicate 23 0x2b\<rparr>])
    \<and> l1ctl_rx_dt_req l demo_data_req 7 = None"
proof -
  obtain mf where mf: "trx_inv ((snd (sched_trx_init trx_zero 3))\<lparr>ts_list := (replicate 8 None)[2 := Some (configured_ts 2 mf)]\<rparr>)"
    by (rule demo_link)
  define l where "l = l1ctl_link_init (trx_if_open\<lparr>inst := (snd (sched_trx_init trx_zero 3))\<lparr>ts_list := (replicate 8 None)[2 := Some (configured_ts 2 mf)]\<rparr>\<rparr>)"
  have i: "inst (l1_trx l) = (snd (sched_trx_init trx_zero 3))\<lparr>ts_list := (replicate 8 None)[2 := Some (configured_ts 2 mf)]\<rparr>"
    by (simp add: l_def l1ctl_link_init_def)
  have m: "length demo_data_req = 256" "demo_data_req ! 4 = 0x22" "demo_data_req ! 5 = 0"
    "take 23 (drop 8 demo_data_req) = replicate 23 0x2b" by (simp_all add: demo_data_req_def)
  have c: "sched_trx_chan_nr2lchan_type 0x22 0 = TRXC_SDCCH4_0"
    by (simp add: sched_trx_chan_nr2lchan_type_def all_lchan_types_def)
  have t: "unat (0x22 AND 7 :: u8) = 2" by simp
  note data_request_exact [of l demo_data_req, unfolded i, OF mf m(1)]
  note r = this [of 31] this [of 7]
  show ?thesis
    by (intro exI [of _ l] exI [of _ "configured_ts 2 mf"] exI [of _ "put_inst l ((link_inst l)\<lparr>ts_list :=
          (replicate 8 None)[2 := Some ((configured_ts 2 mf)\<lparr>tx_prims := Some [data_prim TRXC_SDCCH4_0 demo_data_req 31]\<rparr>)]\<rparr>)"])
      (use r in \<open>simp add: i m c t configured_ts_def data_prim_def put_inst_def\<close>)
qed

section \<open>Establishment of a dedicated channel\<close>

text \<open>The texts of the commands in the queue.\<close>

abbreviation queued :: "trx_if \<Rightarrow> string list" where
  "queued t \<equiv> map cmd (ctrl_list t)"

lemma cmd_queued:
  assumes "trx_ctrl_cmd t crit name args = (rc, t', evs)"
  shows "rc = 0" "queued t' = queued t @ [ctrl_text name args]" "inst t' = inst t"
  using ctrl_cmd_queue [OF assms] by (simp_all add: new_msg_def)

lemma on_trx_queued:
  assumes "\<And>t. f t = trx_ctrl_cmd t crit name args"
  obtains t out where "on_trx l f = Some (0, l\<lparr>l1_trx := t\<rparr>, out)" "inst t = link_inst l"
    "queued t = queued (l1_trx l) @ [ctrl_text name args]"
proof -
  obtain rc t evs where c: "trx_ctrl_cmd (l1_trx l) crit name args = (rc, t, evs)"
    by (cases "trx_ctrl_cmd (l1_trx l) crit name args")
  have "only_ctrl evs" using cmd_like_ctrl_cmd [of crit name args] c by (auto simp: cmd_like_def dest: spec [of _ "l1_trx l"])
  with that [of t evs] cmd_queued [OF c] show thesis by (simp add: on_trx_def assms c l1_events_ctrl)
qed

definition setslot_text :: "trx_event \<Rightarrow> string list" where
  "setslot_text e = (case e of TrxCmdSetslot tn ty \<Rightarrow>
     [ctrl_text ''SETSLOT'' (Some (dec_nat tn @ '' '' @ dec_nat (unat ty)))] | _ \<Rightarrow> [])"

lemma run_setslots_queued:
  "only_setslot evs \<Longrightarrow> \<exists>t' out. run_events t evs = (t', out) \<and> inst t' = inst t \<and> only_ctrl out
    \<and> queued t' = queued t @ concat (map setslot_text evs)"
proof (induction evs arbitrary: t)
  case (Cons ev evs)
  then obtain tn ty where ev: "ev = TrxCmdSetslot tn ty" by (auto simp: only_setslot_def)
  obtain rc t1 o1 where 1: "trx_if_cmd_setslot t tn ty = (rc, t1, o1)" by (cases "trx_if_cmd_setslot t tn ty")
  then have k: "inst t1 = inst t" "only_ctrl o1"
    using cmd_like_cmds(7) [of tn ty] by (auto simp: cmd_like_def dest: spec [of _ t])
  have q: "queued t1 = queued t @ [ctrl_text ''SETSLOT'' (Some (dec_nat tn @ '' '' @ dec_nat (unat ty)))]"
    using cmd_queued(2) 1 unfolding trx_if_cmd_setslot_def by blast
  have "only_setslot evs" using Cons.prems ev by simp
  from Cons.IH [OF this, of t1] show ?case using 1 k q ev by (auto simp: setslot_text_def)
qed simp

text \<open>The tuning step, with the channel frequencies known.\<close>

lemma est_h0_spec:
  assumes "l1_inv l" and f: "gsm_arfcn2freq10 a False \<noteq> 0xffff" "gsm_arfcn2freq10 a True \<noteq> 0xffff"
    and a: "osmo_load16be h = a"
  obtains t out where "l1ctl_proc_est_req_h0 l h = Some (0, l\<lparr>l1_trx := t\<rparr>, out)"
    "inst t = (link_inst l)\<lparr>band_arfcn := a\<rparr>" "only_ctrl out"
    "queued t = queued (l1_trx l) @ (if band_arfcn (link_inst l) = a then []
       else [ctrl_text ''RXTUNE'' (Some (khz (gsm_arfcn2freq10 a False))),
             ctrl_text ''TXTUNE'' (Some (khz (gsm_arfcn2freq10 a True)))])"
proof (cases "band_arfcn (link_inst l) = a")
  case True
  then have "(link_inst l)\<lparr>band_arfcn := a\<rparr> = link_inst l" by auto
  with that [of "l1_trx l" "[]"] show thesis using True a by (simp add: l1ctl_proc_est_req_h0_def)
next
  case False
  have 1: "trx_if_cmd_rxtune t a = trx_ctrl_cmd t True ''RXTUNE'' (Some (khz (gsm_arfcn2freq10 a False)))"
    and 2: "trx_if_cmd_txtune t a = trx_ctrl_cmd t True ''TXTUNE'' (Some (khz (gsm_arfcn2freq10 a True)))" for t
    using f by (simp_all add: trx_if_cmd_rxtune_def trx_if_cmd_txtune_def)
  obtain t1 o1 where t1: "on_trx l (\<lambda>t. trx_if_cmd_rxtune t a) = Some (0, l\<lparr>l1_trx := t1\<rparr>, o1)" "inst t1 = link_inst l"
    "queued t1 = queued (l1_trx l) @ [ctrl_text ''RXTUNE'' (Some (khz (gsm_arfcn2freq10 a False)))]"
    by (rule on_trx_queued [OF 1])
  obtain t2 o2 where t2: "on_trx (l\<lparr>l1_trx := t1\<rparr>) (\<lambda>t. trx_if_cmd_txtune t a) = Some (0, l\<lparr>l1_trx := t1, l1_trx := t2\<rparr>, o2)"
    "inst t2 = link_inst (l\<lparr>l1_trx := t1\<rparr>)"
    "queued t2 = queued (l1_trx (l\<lparr>l1_trx := t1\<rparr>)) @ [ctrl_text ''TXTUNE'' (Some (khz (gsm_arfcn2freq10 a True)))]"
    by (rule on_trx_queued [OF 2])
  have "only_ctrl o1" "only_ctrl o2"
    using on_trx_ok [OF cmd_like_cmds(4) [of a] assms(1)] t1(1)
      on_trx_ok [OF cmd_like_cmds(5) [of a] , of "l\<lparr>l1_trx := t1\<rparr>"] t2(1) t1(2) assms(1)
    by (simp_all add: l1_post_def l1_inv_def)
  with that [of "t2\<lparr>inst := (inst t2)\<lparr>band_arfcn := a\<rparr>\<rparr>" "o1 @ o2"] False a t1 t2 show thesis
    by (simp add: l1ctl_proc_est_req_h0_def and_then_def put_inst_def)
qed

text \<open>The channels of the timeslot once the requested ones are switched on.\<close>

definition est_lchan :: "u8 \<Rightarrow> u8 \<Rightarrow> trx_lchan_type \<Rightarrow> trx_lchan_state" where
  "est_lchan chan_nr mode c =
    (let l = config_lchan c
     in switch_lchan chan_nr True mode (if active l then (sched_trx_reset_lchan l)\<lparr>active := False\<rparr> else l))"

lemma est_lchan_facts:
  "lchan_type (est_lchan n m c) = c" "active (est_lchan n m c) \<longleftrightarrow> ld_chan_nr (trx_lchan_desc c) = n AND 0xf8"
  "active (est_lchan n m c) \<Longrightarrow> tch_mode (est_lchan n m c) = m"
  by (auto simp: est_lchan_def Let_def switch_lchan_def activated_def lchan_type_reset split: if_splits)

lemma est_activate_spec:
  assumes l: "l1_inv l" and tn: "tn < 8" and ts: "ts_list (link_inst l) ! tn = Some (configured_ts tn mf)"
  shows "est_activate l tn chan_nr mode = Some (0, put_inst l ((link_inst l)\<lparr>ts_list := (ts_list (link_inst l))
    [tn := Some ((configured_ts tn mf)\<lparr>lchans :=
      Some (map (est_lchan chan_nr mode) (filter (layout_has_lchan mf) all_lchan_types))\<rparr>)]\<rparr>), [])"
proof -
  let ?cs = "filter (layout_has_lchan mf) all_lchan_types"
  let ?off = "\<lambda>l. if active l then (sched_trx_reset_lchan l)\<lparr>active := False\<rparr> else l"
  let ?ls = "map (?off o config_lchan) ?cs"
  let ?ts = "(configured_ts tn mf)\<lparr>lchans := Some ?ls\<rparr>"
  have d: "sched_trx_deactivate_all_lchans (configured_ts tn mf) = Some ?ts"
    by (simp add: sched_trx_deactivate_all_lchans_def configured_ts_def)
  have ty: "lchan_type (?off (config_lchan c)) = c" for c by (simp add: lchan_type_reset)
  have off: "\<not> active (?off x)" for x by simp
  have "distinct ?cs" using distinct_all_lchan_types by simp
  then have dist: "distinct (map lchan_type ([] @ ?ls))" by (simp add: o_def ty del: if_distrib cong: map_cong)
  have none: "\<not> switch_fails chan_nr True x" if "x \<in> set ?ls" for x
    using that off by (auto simp: switch_fails_def)
  have "set_lchans_loop chan_nr True mode 0 (length ?ls) 0 ?ts = Some (0, ?ts\<lparr>lchans := Some (map (switch_lchan chan_nr True mode) ?ls)\<rparr>)"
    using set_lchans_loop_spec [of ?ts "[]" ?ls 0 chan_nr True mode, OF _ dist] none by simp
  moreover have "map (switch_lchan chan_nr True mode) ?ls = map (est_lchan chan_nr mode) ?cs"
    by (simp add: est_lchan_def Let_def)
  ultimately have "sched_trx_set_lchans (Some ?ts) chan_nr True mode
      = Some (0, Some (?ts\<lparr>lchans := Some (map (est_lchan chan_nr mode) ?cs)\<rparr>))"
    by (simp add: sched_trx_set_lchans_def)
  then show ?thesis using d ts ts0_slot [OF l tn] by (simp add: est_activate_def)
qed

section \<open>Every dedicated channel number has its channel\<close>

lemma layouts_dedicated:
  "list_all (\<lambda>mf.
      (chan_config mf = GSM_PCHAN_TCH_F \<longrightarrow> layout_has_lchan mf TRXC_TCHF) \<and>
      (chan_config mf = GSM_PCHAN_TCH_H \<longrightarrow> layout_has_lchan mf TRXC_TCHH_0 \<and> layout_has_lchan mf TRXC_TCHH_1) \<and>
      (chan_config mf = GSM_PCHAN_CCCH_SDCCH4 \<longrightarrow>
        list_all (layout_has_lchan mf) [TRXC_SDCCH4_0, TRXC_SDCCH4_1, TRXC_SDCCH4_2, TRXC_SDCCH4_3]) \<and>
      (chan_config mf = GSM_PCHAN_SDCCH8_SACCH8C \<longrightarrow>
        list_all (layout_has_lchan mf) [TRXC_SDCCH8_0, TRXC_SDCCH8_1, TRXC_SDCCH8_2, TRXC_SDCCH8_3,
          TRXC_SDCCH8_4, TRXC_SDCCH8_5, TRXC_SDCCH8_6, TRXC_SDCCH8_7]) \<and>
      (chan_config mf = GSM_PCHAN_CCCH_SDCCH4_CBCH \<longrightarrow> layout_has_lchan mf TRXC_SDCCH4_CBCH) \<and>
      (chan_config mf = GSM_PCHAN_SDCCH8_SACCH8C_CBCH \<longrightarrow> layout_has_lchan mf TRXC_SDCCH8_CBCH) \<and>
      (chan_config mf = GSM_PCHAN_PDCH \<longrightarrow> layout_has_lchan mf TRXC_PDTCH)) layouts"
  unfolding layouts_def list.pred_inject
  by (intro conjI TrueI) (simp_all add: mframe_sel layout_has_lchan_iff mask_bits del: lchan_code.simps)

lemma push_drop_3: "push_bit 3 (drop_bit 3 n) = n AND (0xf8 :: u8)"
proof (rule bit_word_eqI)
  fix k assume "k < LENGTH(8)"
  then have "k \<in> {0, 1, 2, 3, 4, 5, 6, 7}" by auto
  then show "bit (push_bit 3 (drop_bit 3 n)) k = bit (n AND (0xf8 :: u8)) k" by (auto simp: bit_simps)
qed

lemma drop_3_cases:
  obtains k where "k < 32" "drop_bit 3 (n :: u8) = of_nat k"
proof -
  have "unat (drop_bit 3 n) = unat n div 8" by (simp add: unat_div drop_bit_eq_div)
  then have "unat (drop_bit 3 n) < 32" using unat_u8_less [of n] by simp
  with that [of "unat (drop_bit 3 n)"] show thesis by simp
qed

definition dedicated_chans :: "trx_lchan_type list" where
  "dedicated_chans = [TRXC_IDLE, TRXC_TCHF, TRXC_TCHH_0, TRXC_TCHH_1,
     TRXC_SDCCH4_0, TRXC_SDCCH4_1, TRXC_SDCCH4_2, TRXC_SDCCH4_3,
     TRXC_SDCCH8_0, TRXC_SDCCH8_1, TRXC_SDCCH8_2, TRXC_SDCCH8_3,
     TRXC_SDCCH8_4, TRXC_SDCCH8_5, TRXC_SDCCH8_6, TRXC_SDCCH8_7] @ replicate 8 TRXC_IDLE
     @ [TRXC_PDTCH, TRXC_SDCCH4_CBCH, TRXC_SDCCH8_CBCH] @ replicate 5 TRXC_IDLE"

lemma dedicated_chans_match:
  "list_all (\<lambda>(c, k). c = TRXC_IDLE \<or> ld_chan_nr (trx_lchan_desc c) = push_bit 3 (of_nat k))
    (zip dedicated_chans [0..<32])"
  by (simp add: dedicated_chans_def upt_rec numeral_eq_Suc)

definition pchan_of_cbits :: "u8 \<Rightarrow> gsm_phys_chan_config" where
  "pchan_of_cbits cbits =
    (if cbits = 0x01 then GSM_PCHAN_TCH_F
     else if cbits AND 0x1e = 0x02 then GSM_PCHAN_TCH_H
     else if cbits AND 0x1c = 0x04 then GSM_PCHAN_CCCH_SDCCH4
     else if cbits AND 0x18 = 0x08 then GSM_PCHAN_SDCCH8_SACCH8C
     else if cbits AND 0x1f = 0x19 then GSM_PCHAN_CCCH_SDCCH4_CBCH
     else if cbits AND 0x1f = 0x1a then GSM_PCHAN_SDCCH8_SACCH8C_CBCH
     else if cbits AND 0x1f = 0x18 then GSM_PCHAN_PDCH
     else GSM_PCHAN_NONE)"

lemma pchan_config_cbits: "sched_trx_chan_nr2pchan_config n = pchan_of_cbits (drop_bit 3 n)"
  by (simp add: sched_trx_chan_nr2pchan_config_def pchan_of_cbits_def Let_def)

definition dedicated_configs :: "gsm_phys_chan_config list" where
  "dedicated_configs = [
     GSM_PCHAN_NONE, GSM_PCHAN_TCH_F, GSM_PCHAN_TCH_H, GSM_PCHAN_TCH_H,
     GSM_PCHAN_CCCH_SDCCH4, GSM_PCHAN_CCCH_SDCCH4, GSM_PCHAN_CCCH_SDCCH4, GSM_PCHAN_CCCH_SDCCH4,
     GSM_PCHAN_SDCCH8_SACCH8C, GSM_PCHAN_SDCCH8_SACCH8C, GSM_PCHAN_SDCCH8_SACCH8C, GSM_PCHAN_SDCCH8_SACCH8C,
     GSM_PCHAN_SDCCH8_SACCH8C, GSM_PCHAN_SDCCH8_SACCH8C, GSM_PCHAN_SDCCH8_SACCH8C, GSM_PCHAN_SDCCH8_SACCH8C,
     GSM_PCHAN_NONE, GSM_PCHAN_NONE, GSM_PCHAN_NONE, GSM_PCHAN_NONE,
     GSM_PCHAN_NONE, GSM_PCHAN_NONE, GSM_PCHAN_NONE, GSM_PCHAN_NONE,
     GSM_PCHAN_PDCH, GSM_PCHAN_CCCH_SDCCH4_CBCH, GSM_PCHAN_SDCCH8_SACCH8C_CBCH, GSM_PCHAN_NONE,
     GSM_PCHAN_NONE, GSM_PCHAN_NONE, GSM_PCHAN_NONE, GSM_PCHAN_NONE]"

lemma dedicated_configs_match:
  "list_all (\<lambda>(cfg, k). pchan_of_cbits (of_nat k) = cfg) (zip dedicated_configs [0..<32])"
  by (simp add: dedicated_configs_def upt_rec pchan_of_cbits_def)

lemma dedicated_in_layout:
  assumes "mf \<in> set layouts"
  shows "list_all (\<lambda>(cfg, c). cfg = GSM_PCHAN_NONE \<or> (chan_config mf = cfg \<longrightarrow> layout_has_lchan mf c \<and> c \<noteq> TRXC_IDLE))
    (zip dedicated_configs dedicated_chans)"
  using bspec [OF layouts_dedicated [unfolded list_all_iff] assms]
  by (simp add: dedicated_configs_def dedicated_chans_def numeral_eq_Suc)

lemma est_lchan_exists:
  assumes mf: "mf \<in> set layouts" and config: "sched_trx_chan_nr2pchan_config n = chan_config mf" "chan_config mf \<noteq> GSM_PCHAN_NONE"
  shows "\<exists>c. layout_has_lchan mf c \<and> ld_chan_nr (trx_lchan_desc c) = n AND 0xf8"
proof -
  obtain k where k: "k < 32" "drop_bit 3 n = of_nat k" by (rule drop_3_cases)
  let ?n = "push_bit 3 (of_nat k) :: u8"
  have n: "n AND 0xf8 = ?n" by (simp only: push_drop_3 [symmetric] k(2))
  have c: "pchan_of_cbits (of_nat k) = chan_config mf"
    using config(1) k(2) by (simp only: pchan_config_cbits)
  have len: "length dedicated_configs = 32" "length dedicated_chans = 32"
    by (simp_all add: dedicated_configs_def dedicated_chans_def)
  have "dedicated_configs ! k = chan_config mf"
    using dedicated_configs_match k(1) len c by (auto simp: list_all_length)
  then have "layout_has_lchan mf (dedicated_chans ! k)" "dedicated_chans ! k \<noteq> TRXC_IDLE"
    using dedicated_in_layout [OF mf] k(1) len config(2) by (auto simp: list_all_length)
  moreover have "dedicated_chans ! k = TRXC_IDLE \<or> ld_chan_nr (trx_lchan_desc (dedicated_chans ! k)) = ?n"
    using dedicated_chans_match k(1) len by (auto simp: list_all_length)
  ultimately show ?thesis using n by metis
qed

section \<open>The request\<close>

text \<open>The configuration step: the timeslot is rebuilt and the requested channels switched on.\<close>

lemma est_configure_spec:
  assumes l: "l1_inv l" and tn: "tn < 8" and config: "supported_pchan config" and training: "unat t < 8"
  obtains l' out mf where "est_configure l tn config t chan_nr mode = Some (0, l', out)"
    "sched_mframe_layout config tn = Some mf" "chan_config mf = config"
    "link_inst l' = (link_inst l)\<lparr>tsc := t, ts_list := (ts_list (link_inst l))[tn :=
       Some ((configured_ts tn mf)\<lparr>lchans := Some (map (est_lchan chan_nr mode) (filter (layout_has_lchan mf) all_lchan_types))\<rparr>)]\<rparr>"
    "queued (l1_trx l') = queued (l1_trx l) @
       concat (map setslot_text ((if ts_list (link_inst l) ! tn = None then [] else [TrxCmdSetslot tn 0]) @ [TrxCmdSetslot tn 1]))"
proof -
  define i where "i = (link_inst l)\<lparr>tsc := t\<rparr>"
  have i: "trx_inv i" "ts_list i = ts_list (link_inst l)" using l training by (simp_all add: i_def trx_inv_phy)
  obtain mf evs where mf: "sched_mframe_layout config tn = Some mf" "chan_config mf = config" "mf_ok mf"
    and evs: "evs = (if ts_list i ! tn = None then [] else [TrxCmdSetslot tn 0]) @ [TrxCmdSetslot tn 1]"
    and conf: "sched_trx_configure_ts i tn config = Some (0, i\<lparr>ts_list := (ts_list i)[tn := Some (configured_ts tn mf)]\<rparr>, evs)"
      "trx_inv (i\<lparr>ts_list := (ts_list i)[tn := Some (configured_ts tn mf)]\<rparr>)"
    by (rule configure_ok [OF i(1) tn config])
  let ?i = "i\<lparr>ts_list := (ts_list i)[tn := Some (configured_ts tn mf)]\<rparr>"
  have "only_setslot evs" by (simp add: evs)
  then obtain t2 o2 where 2: "run_events ((l1_trx (put_inst l i))\<lparr>inst := ?i\<rparr>) evs = (t2, o2)" "inst t2 = ?i" "only_ctrl o2"
    "queued t2 = queued (l1_trx l) @ concat (map setslot_text evs)"
    using run_setslots_queued [of evs "(l1_trx (put_inst l i))\<lparr>inst := ?i\<rparr>"] by (auto simp: put_inst_def)
  have s: "on_sched (put_inst l i) (\<lambda>i. sched_trx_configure_ts i tn config) = Some (0, l\<lparr>l1_trx := t2\<rparr>, o2)"
    using conf(1) 2(1,3) by (simp add: on_sched_def put_inst_def l1_events_ctrl)
  have l2: "l1_inv (l\<lparr>l1_trx := t2\<rparr>)" using l conf(2) 2(2) by (simp add: l1_inv_def)
  have "tn < length (ts_list i)" using i(1) tn by (simp add: trx_inv_def wf_trx_def)
  then have ts: "ts_list (link_inst (l\<lparr>l1_trx := t2\<rparr>)) ! tn = Some (configured_ts tn mf)" by (simp add: 2(2))
  note e = est_activate_spec [OF l2 tn ts, of chan_nr mode]
  obtain l' where "est_activate (l\<lparr>l1_trx := t2\<rparr>) tn chan_nr mode = Some (0, l', [])" "link_inst l' = i\<lparr>ts_list := (ts_list i)[tn :=
      Some ((configured_ts tn mf)\<lparr>lchans := Some (map (est_lchan chan_nr mode) (filter (layout_has_lchan mf) all_lchan_types))\<rparr>)]\<rparr>"
    "queued (l1_trx l') = queued t2"
    using e by (simp add: put_inst_def 2(2))
  with s show thesis
    by (intro that [of l' o2 mf]) (use mf evs i(2) 2(4) in \<open>simp_all add: est_configure_def and_then_def i_def\<close>)
qed

text \<open>
  C30. A request for a dedicated channel on a single, known frequency with a valid training
  sequence code succeeds: the transceiver is told to tune to the two carriers, if the
  frequency is a new one, and to reconfigure the timeslot; the timeslot gets the multiframe
  layout of the requested kind of channel, an empty transmit queue, and one channel state per
  channel of the layout, of which exactly those with the requested channel number are active,
  at least one, in the requested mode; and nothing else of the scheduler changes.
\<close>

theorem dedicated_channel_established:
  assumes "l1_inv l" "mem ! 9 = 0" "unat (mem ! 8) < 8"
    and "sched_trx_chan_nr2pchan_config (mem ! 4) = config" "config \<noteq> GSM_PCHAN_NONE"
    and "osmo_load16be (drop 10 mem) = a"
    and "gsm_arfcn2freq10 a False = dl" "gsm_arfcn2freq10 a True = ul" "dl \<noteq> 0xffff" "ul \<noteq> 0xffff"
    and "unat (mem ! 4 AND 7) = tn"
  shows "\<exists>l' out mf. l1ctl_rx_dm_est_req l mem = Some (0, l', out)
    \<and> sched_mframe_layout config tn = Some mf
    \<and> inst (l1_trx l') = (inst (l1_trx l))\<lparr>band_arfcn := a, tsc := mem ! 8,
        ts_list := (ts_list (inst (l1_trx l)))[tn := Some \<lparr>ts_index = tn, mf_layout = Some mf,
          lchans = Some (map (est_lchan (mem ! 4) (mem ! 142)) (filter (layout_has_lchan mf) all_lchan_types)),
          tx_prims = Some []\<rparr>]\<rparr>
    \<and> (\<forall>c. active (est_lchan (mem ! 4) (mem ! 142) c) = (ld_chan_nr (trx_lchan_desc c) = mem ! 4 AND 0xf8))
    \<and> (\<exists>c. layout_has_lchan mf c \<and> active (est_lchan (mem ! 4) (mem ! 142) c)
        \<and> tch_mode (est_lchan (mem ! 4) (mem ! 142) c) = mem ! 142)
    \<and> queued (l1_trx l') = queued (l1_trx l)
        @ (if band_arfcn (inst (l1_trx l)) = a then []
           else [ctrl_text ''RXTUNE'' (Some (khz dl)), ctrl_text ''TXTUNE'' (Some (khz ul))])
        @ (if ts_list (inst (l1_trx l)) ! tn = None then [] else [ctrl_text ''SETSLOT'' (Some (dec_nat tn @ '' 0''))])
        @ [ctrl_text ''SETSLOT'' (Some (dec_nat tn @ '' 1''))]"
proof -
  have tn: "tn < 8" using tn_less [of "mem ! 4"] assms(11) by simp
  obtain t1 o1 where 1: "l1ctl_proc_est_req_h0 l (drop 10 mem) = Some (0, l\<lparr>l1_trx := t1\<rparr>, o1)"
    "inst t1 = (link_inst l)\<lparr>band_arfcn := a\<rparr>" "only_ctrl o1"
    "queued t1 = queued (l1_trx l) @ (if band_arfcn (link_inst l) = a then []
       else [ctrl_text ''RXTUNE'' (Some (khz (gsm_arfcn2freq10 a False))),
             ctrl_text ''TXTUNE'' (Some (khz (gsm_arfcn2freq10 a True)))])"
    by (rule est_h0_spec [OF assms(1) _ _ assms(6)]) (use assms(7-10) in simp_all)
  have l1: "l1_inv (l\<lparr>l1_trx := t1\<rparr>)" using assms(1) 1(2) by (simp add: l1_inv_def trx_inv_phy)
  obtain l' out mf where 2: "est_configure (l\<lparr>l1_trx := t1\<rparr>) tn config (mem ! 8) (mem ! 4) (mem ! 142) = Some (0, l', out)"
    and mf: "sched_mframe_layout config tn = Some mf" "chan_config mf = config"
    and i: "link_inst l' = (link_inst (l\<lparr>l1_trx := t1\<rparr>))\<lparr>tsc := mem ! 8, ts_list := (ts_list (link_inst (l\<lparr>l1_trx := t1\<rparr>)))[tn :=
       Some ((configured_ts tn mf)\<lparr>lchans := Some (map (est_lchan (mem ! 4) (mem ! 142)) (filter (layout_has_lchan mf) all_lchan_types))\<rparr>)]\<rparr>"
    and q: "queued (l1_trx l') = queued (l1_trx (l\<lparr>l1_trx := t1\<rparr>)) @
       concat (map setslot_text ((if ts_list (link_inst (l\<lparr>l1_trx := t1\<rparr>)) ! tn = None then [] else [TrxCmdSetslot tn 0]) @ [TrxCmdSetslot tn 1]))"
    by (rule est_configure_spec [OF l1 tn supported_est [of "mem ! 4", unfolded assms(4), OF assms(5)] assms(3)])
  obtain c where c: "layout_has_lchan mf c" "ld_chan_nr (trx_lchan_desc c) = mem ! 4 AND 0xf8"
    using est_lchan_exists [of mf "mem ! 4"] mframe_layout_SomeD [OF mf(1)] mf(2) assms(4,5) by auto
  show ?thesis
  proof (intro exI conjI)
    show "l1ctl_rx_dm_est_req l mem = Some (0, l', o1 @ out)"
      using 1(1) 2 assms(2,4,5,11) by (simp add: l1ctl_rx_dm_est_req_def and_then_def)
    show "sched_mframe_layout config tn = Some mf" by (rule mf(1))
    show "layout_has_lchan mf c" by (rule c(1))
    show "active (est_lchan (mem ! 4) (mem ! 142) c)" using est_lchan_facts(2) c(2) by simp
    then show "tch_mode (est_lchan (mem ! 4) (mem ! 142) c) = mem ! 142" by (rule est_lchan_facts(3))
    show "\<forall>c. active (est_lchan (mem ! 4) (mem ! 142) c) = (ld_chan_nr (trx_lchan_desc c) = mem ! 4 AND 0xf8)"
      by (simp add: est_lchan_facts(2))
  qed (use i q 1(2,4) assms(7,8) in \<open>simp_all add: configured_ts_def setslot_text_def dec_nat.simps digits\<close>)
qed

definition demo_est_req :: "u8 list" where
  "demo_est_req = [5, 0, 0, 0, 0x41, 0, 0, 0, 7, 0, 0, 1] @ replicate 244 0"

theorem dedicated_channel_established_witness:
  "\<exists>l l' out. trx_inv (inst (l1_trx l)) \<and> l1ctl_rx_dm_est_req l demo_est_req = Some (0, l', out)
    \<and> queued (l1_trx l') = [''CMD RXTUNE 935200'', ''CMD TXTUNE 890200'', ''CMD SETSLOT 1 1'']
    \<and> tsc (inst (l1_trx l')) = 7"
proof -
  define l where "l = l1ctl_link_init (trx_if_open\<lparr>inst := snd (sched_trx_init trx_zero 3)\<rparr>)"
  have l: "l1_inv l" "queued (l1_trx l) = []" "band_arfcn (inst (l1_trx l)) = 0" "ts_list (inst (l1_trx l)) = replicate 8 None"
    using trx_inv_init [of 3] by (simp_all add: l_def l1_inv_def l1ctl_link_init_def trx_if_open_def sched_trx_init_def trx_zero_def)
  have m: "demo_est_req ! 9 = 0" "demo_est_req ! 8 = 7" "demo_est_req ! 4 = 0x41" "osmo_load16be (drop 10 demo_est_req) = 1"
    by (simp_all add: demo_est_req_def osmo_load16be_def)
  have f: "gsm_arfcn2freq10 1 False = 9352" "gsm_arfcn2freq10 1 True = 8902"
    by (simp_all add: gsm_arfcn2freq10_def gsm_ranges_def fr_def)
  have c: "sched_trx_chan_nr2pchan_config 0x41 = GSM_PCHAN_SDCCH8_SACCH8C"
    by (simp add: sched_trx_chan_nr2pchan_config_def)
  have t: "ctrl_text ''RXTUNE'' (Some (khz 9352)) = ''CMD RXTUNE 935200''"
    "ctrl_text ''TXTUNE'' (Some (khz 8902)) = ''CMD TXTUNE 890200''"
    "ctrl_text ''SETSLOT'' (Some (dec_nat (Suc 0) @ '' 1'')) = ''CMD SETSLOT 1 1''"
    by (simp_all add: ctrl_text_def khz_def dec_nat.simps digits)
  have "unat (demo_est_req ! 8) < 8" "unat (demo_est_req ! 4 AND 7) = 1" by (simp_all add: m)
  with dedicated_channel_established [OF l(1) m(1) _ _ _ m(4) f, of GSM_PCHAN_SDCCH8_SACCH8C 1]
  obtain l' out where "l1ctl_rx_dm_est_req l demo_est_req = Some (0, l', out)"
    "queued (l1_trx l') = [''CMD RXTUNE 935200'', ''CMD TXTUNE 890200'', ''CMD SETSLOT 1 1'']"
    "tsc (inst (l1_trx l')) = 7"
    using l c by (auto simp: m t)
  then show ?thesis using l(1) by (auto simp: l1_inv_def)
qed

end
