(* ===== verification/Trxcon.thy ===== *)
theory Trxcon
  imports L1ctlInv TrxIfData
begin

text \<open>
  The whole of trxcon as a transition system: every callback its select loop can run, on the
  joint state of the L1CTL link, the transceiver interface and the scheduler, and the proof
  that no sequence of acceptable inputs brings the program to undefined behaviour.
\<close>

section \<open>The callbacks\<close>

text \<open>
  A connection on the listening socket, what a read of the connection returns, a control
  response with the stale contents of the handler's locals, the response timer, a burst
  datagram, the clock timer, the FBSB timer, and a writable connection.
\<close>

datatype app_input =
    InAccept int bool
  | InClient "u8 list" "u8 list"
  | InCtrl string string int u32 "32 word"
  | InCtrlTimer
  | InData timespec "u8 list"
  | InTick timespec
  | InFbsbTimer
  | InWrite

definition app_exec :: "codec \<Rightarrow> (u32 \<Rightarrow> nat \<Rightarrow> nat \<Rightarrow> u8) \<Rightarrow> app_input \<Rightarrow> l1ctl_link
    \<Rightarrow> (l1ctl_link \<times> if_event list) option" where
  "app_exec cd rnd inp l =
    (case inp of
       InAccept cfd registered \<Rightarrow> map_option snd (l1ctl_link_accept l cfd registered)
     | InClient hdr body \<Rightarrow> map_option snd (l1ctl_link_read_cb l hdr body)
     | InCtrl dgram stack resp0 freq0 dbm0 \<Rightarrow> do {
         (rc, t, evs) \<leftarrow> trx_ctrl_read_cb (l1_trx l) dgram stack resp0 freq0 dbm0;
         l1_events (l\<lparr>l1_trx := t\<rparr>) evs
       }
     | InCtrlTimer \<Rightarrow> let (t, evs) = trx_ctrl_timer_cb (l1_trx l) in l1_events (l\<lparr>l1_trx := t\<rparr>) evs
     | InData now dgram \<Rightarrow> do {
         (rc, t, evs) \<leftarrow> trx_data_rx_cb cd rnd now (l1_trx l) dgram;
         l1_events (l\<lparr>l1_trx := t\<rparr>) evs
       }
     | InTick now \<Rightarrow> do {
         (i, evs) \<leftarrow> trx_clck_tick cd rnd now (link_inst l);
         let (t, evs) = run_events ((l1_trx l)\<lparr>inst := i\<rparr>) evs;
         l1_events (l\<lparr>l1_trx := t\<rparr>) evs
       }
     | InFbsbTimer \<Rightarrow> Some (fbsb_timer_cb l, [])
     | InWrite \<Rightarrow> Some (case l1ctl_link_write l of None \<Rightarrow> (l, []) | Some (l', m) \<Rightarrow> (l', [])))"

text \<open>
  The inputs considered: timers fire only when pending, a message of the client meets the
  conditions of its handler, a control response that repeats the command is followed by a
  space, and a full burst datagram does not have the top bit of its timeslot octet set.
\<close>

definition input_ok :: "app_input \<Rightarrow> l1ctl_link \<Rightarrow> bool" where
  "input_ok inp l =
    (case inp of
       InClient hdr body \<Rightarrow> read_ok hdr body
     | InCtrl dgram stack resp0 freq0 dbm0 \<Rightarrow> strchr_off (drop 4 (rsp_buf dgram stack)) (CHR '' '') \<noteq> None
     | InCtrlTimer \<Rightarrow> ctrl_timer (l1_trx l)
     | InData now d \<Rightarrow> length d < 156 \<or> unat (d ! 0) < 128 \<or> \<not> valid_fn (osmo_load32be (drop 1 d))
     | InTick now \<Rightarrow> clock_timer (sched (link_inst l)) \<noteq> None
     | InFbsbTimer \<Rightarrow> fbsb_timer l \<noteq> None
     | _ \<Rightarrow> True)"

inductive app_reach :: "codec \<Rightarrow> l1ctl_link \<Rightarrow> if_event list \<Rightarrow> l1ctl_link \<Rightarrow> bool" for cd l where
  app_refl: "app_reach cd l [] l"
| app_step: "app_reach cd l evs l' \<Longrightarrow> input_ok inp l' \<Longrightarrow> app_exec cd rnd inp l' = Some (l'', evs') \<Longrightarrow>
    app_reach cd l (evs @ evs') l''"

text \<open>The program after its start: the link bound to an open transceiver with a scheduler.\<close>

definition app_init :: "u32 \<Rightarrow> l1ctl_link" where
  "app_init adv = l1ctl_link_init (trx_if_open\<lparr>inst := snd (sched_trx_init (inst trx_if_open) adv)\<rparr>)"

section \<open>Messages to the client\<close>

lemma length_dl_info [simp]: "length (dl_info_octets dl) = 12"
  by (simp add: dl_info_octets_def osmo_store16be_def osmo_store32be_def)

lemma l1_event_ok:
  assumes "l1_inv l" "if_event_ok ev"
  shows "\<exists>l' out. l1_event l ev = Some (l', out) \<and> l1_inv l'"
proof -
  note s = link_send_ok [OF assms(1)] and f = l1_inv_fbsb_sent [OF assms(1), of True]
  have snd: "l1_inv (snd (l1ctl_link_send l m))" for m using s by (metis prod.collapse)
  have fb: "l1_inv (snd (l1ctl_tx_fbsb_conf l r dl b))" for r dl b
    unfolding l1ctl_tx_fbsb_conf_def using f by (auto simp: l1_inv_def l1ctl_link_send_def)
  have dt: "\<exists>rc l'. l1ctl_tx_dt_ind l dl l2 tr = Some (rc, l') \<and> l1_inv l'" if "length l2 \<le> 128" for dl l2 tr
    using that s unfolding l1ctl_tx_dt_ind_def Let_def
    by (auto simp: l1ctl_msg_def put_dl_info_hdr_def) (metis prod.collapse)+
  show ?thesis using assms(1) assms(2) snd fb dt
    by (cases ev) (auto simp: l1_event_def if_event_ok_def to_l1ctl_def bind_Some_iff l1ctl_tx_pm_conf_def
        l1ctl_tx_dt_conf_def l1ctl_tx_rach_conf_def Let_def split: trx_event.splits; fastforce)+
qed

lemma l1_events_ok:
  "l1_inv l \<Longrightarrow> list_all if_event_ok evs \<Longrightarrow> \<exists>l' out. l1_events l evs = Some (l', out) \<and> l1_inv l'"
proof (induction evs arbitrary: l)
  case (Cons ev evs)
  then obtain l1 o1 where 1: "l1_event l ev = Some (l1, o1)" "l1_inv l1" using l1_event_ok [of l ev] by auto
  obtain l2 o2 where "l1_events l1 evs = Some (l2, o2)" "l1_inv l2" using Cons.IH [OF 1(2)] Cons.prems(2) by auto
  with 1 show ?case by simp
qed simp

lemma l1_inv_trx: "l1_inv l \<Longrightarrow> trx_inv (inst t) \<Longrightarrow> l1_inv (l\<lparr>l1_trx := t\<rparr>)"
  by (simp add: l1_inv_def)

section \<open>The control interface leaves the scheduler alone\<close>

lemma ctrl_send_inst: "inst (fst (trx_ctrl_send t)) = inst t \<and> list_all if_event_ok (snd (trx_ctrl_send t))"
  by (auto simp: trx_ctrl_send_def state_chg_def Let_def if_event_ok_def split: list.splits)

lemma ctrl_timer_inst: "inst (fst (trx_ctrl_timer_cb t)) = inst t \<and> list_all if_event_ok (snd (trx_ctrl_timer_cb t))"
  using ctrl_send_inst
  by (auto simp: trx_ctrl_timer_cb_def Let_def state_chg_def if_event_ok_def split: list.splits)

lemma measure_rsp_inst:
  "inst (fst (trx_if_measure_rsp_cb t s f d)) = inst t \<and> list_all if_event_ok (snd (trx_if_measure_rsp_cb t s f d))"
proof -
  have "inst t' = inst t \<and> list_all if_event_ok evs" if "trx_if_cmd_measure t a b = (rc, t', evs)" for a b rc t' evs
    using that spec [OF cmd_like_cmds(8) [of a b, unfolded cmd_like_def], of t]
    by (auto simp: only_ctrl_def list_all_iff if_event_ok_def)
  then show ?thesis
    by (auto simp: trx_if_measure_rsp_cb_def Let_def if_event_ok_def split: prod.splits)
qed

lemma ctrl_next_inst: "inst (fst (ctrl_next t c b f d)) = inst t \<and> list_all if_event_ok (snd (ctrl_next t c b f d))"
proof -
  have c: "inst (fst (ctrl_confirmed t c b f d)) = inst t \<and> list_all if_event_ok (snd (ctrl_confirmed t c b f d))"
    using measure_rsp_inst [of t] by (simp add: ctrl_confirmed_def state_chg_def)
  obtain t1 e1 where 1: "ctrl_confirmed t c b f d = (t1, e1)" by fastforce
  obtain t2 e2 where 2: "trx_ctrl_send (t1\<lparr>ctrl_list := tl (ctrl_list t1)\<rparr>) = (t2, e2)" by fastforce
  show ?thesis using c 1 2 ctrl_send_inst [of "t1\<lparr>ctrl_list := tl (ctrl_list t1)\<rparr>"]
    by (simp add: ctrl_next_def)
qed

lemma ctrl_read_ok:
  assumes "strchr_off (drop 4 (rsp_buf dgram stack)) (CHR '' '') \<noteq> None"
  shows "\<exists>rc t' evs. trx_ctrl_read_cb t dgram stack r0 f0 d0 = Some (rc, t', evs) \<and> inst t' = inst t \<and> list_all if_event_ok evs"
proof -
  have n: "\<exists>t' evs. ctrl_next u c b f d = (t', evs) \<and> inst t' = inst u \<and> list_all if_event_ok evs" for u c b f d
    using ctrl_next_inst [of u c b f d] by (metis prod.collapse)
  from assms obtain k where "strchr_off (drop 4 (rsp_buf dgram stack)) (CHR '' '') = Some k" by auto
  then show ?thesis
    using n by (auto simp: trx_ctrl_read_cb_def Let_def if_event_ok_def split: list.splits) (metis trx_if.select_convs trx_if.surjective trx_if.update_convs)+
qed

section \<open>Progress and preservation\<close>

lemma data_rx_ok:
  assumes cd: "wf_codec cd" and inv: "trx_inv (inst t)"
    and d: "length d < 156 \<or> unat (d ! 0) < 128 \<or> \<not> valid_fn (osmo_load32be (drop 1 d))"
  shows "\<exists>rc t' evs. trx_data_rx_cb cd rnd now t d = Some (rc, t', evs) \<and> trx_inv (inst t') \<and> list_all if_event_ok evs"
proof (cases "d = [] \<or> length d < 156 \<or> (8 \<le> unat (d ! 0) \<and> unat (d ! 0) < 128) \<or> \<not> valid_fn (osmo_load32be (drop 1 d))")
  case True
  then show ?thesis using inv by (cases "d = []") (auto simp: data_rx_unfold)
next
  case False
  then have "unat (d ! 0) < 8" "148 \<le> length (osmo_ubit2sbit (take 148 (drop 8 (take 512 d))))"
    "valid_fn (osmo_load32be (drop 1 d))"
    using d by (auto simp: osmo_ubit2sbit_def)
  from burst_handled [OF cd inv this, of rnd now "burst_meas (take 512 d)"] show ?thesis
    using False by (auto simp: data_rx_unfold)
qed

lemma post_some: "l1_post P m \<Longrightarrow> \<exists>l' out. map_option snd m = Some (l', out) \<and> l1_inv l'"
  by (auto simp: l1_post_def)

lemma app_exec_ok:
  assumes cd: "wf_codec cd" and l: "l1_inv l" and ok: "input_ok inp l"
  shows "\<exists>l' out. app_exec cd rnd inp l = Some (l', out) \<and> l1_inv l'"
proof -
  have i: "trx_inv (link_inst l)" using l by simp
  have run: "\<exists>l' out. l1_events (l\<lparr>l1_trx := t\<rparr>) evs = Some (l', out) \<and> l1_inv l'"
    if "trx_inv (inst t)" "list_all if_event_ok evs" for t evs
    by (rule l1_events_ok [OF l1_inv_trx [OF l that(1)] that(2)])
  show ?thesis
  proof (cases inp)
    case (InAccept cfd registered)
    then show ?thesis using post_some [OF accept_ok [OF l]] by (simp add: app_exec_def)
  next
    case (InClient hdr body)
    then show ?thesis using post_some [OF read_cb_ok [OF l, of hdr body]] ok by (simp add: app_exec_def input_ok_def)
  next
    case (InCtrl dgram stack r0 f0 d0)
    then obtain rc t evs where "trx_ctrl_read_cb (l1_trx l) dgram stack r0 f0 d0 = Some (rc, t, evs)"
      "inst t = link_inst l" "list_all if_event_ok evs"
      using ctrl_read_ok [of dgram stack "l1_trx l" r0 f0 d0] ok by (auto simp: input_ok_def)
    then show ?thesis using run [of t evs] i InCtrl by (simp add: app_exec_def)
  next
    case InCtrlTimer
    then show ?thesis using run [of "fst (trx_ctrl_timer_cb (l1_trx l))" "snd (trx_ctrl_timer_cb (l1_trx l))"]
        ctrl_timer_inst [of "l1_trx l"] i by (simp add: app_exec_def split_def Let_def)
  next
    case (InData now d)
    then obtain rc t evs where "trx_data_rx_cb cd rnd now (l1_trx l) d = Some (rc, t, evs)"
      "trx_inv (inst t)" "list_all if_event_ok evs"
      using data_rx_ok [OF cd i, of d rnd now] ok by (auto simp: input_ok_def)
    then show ?thesis using run [of t evs] InData by (simp add: app_exec_def)
  next
    case (InTick now)
    then obtain j evs where k: "trx_clck_tick cd rnd now (link_inst l) = Some (j, evs)" "trx_inv j" "list_all frame_event evs"
      using exec_tick_ok [OF cd i, of rnd now] ok by (auto simp: input_ok_def)
    obtain t out where r: "run_events ((l1_trx l)\<lparr>inst := j\<rparr>) evs = (t, out)" by fastforce
    have "inst t = j" "list_all if_event_ok out"
      using run_events_inst [of "(l1_trx l)\<lparr>inst := j\<rparr>" evs] run_events_ok [OF k(3), of "(l1_trx l)\<lparr>inst := j\<rparr>"] r by simp_all
    then show ?thesis using run [of t out] k(1,2) r InTick by (simp add: app_exec_def)
  next
    case InFbsbTimer
    then show ?thesis using fbsb_timer_ok [OF l] by (simp add: app_exec_def)
  next
    case InWrite
    then show ?thesis using l by (auto simp: app_exec_def l1ctl_link_write_def l1_inv_def split: list.splits)
  qed
qed

lemma app_init_inv: "l1_inv (app_init adv)"
  using trx_inv_init [of adv] by (simp add: app_init_def l1_inv_def l1ctl_link_init_def trx_if_open_def)

lemma app_reach_inv:
  assumes "wf_codec cd" "app_reach cd l evs l'" "l1_inv l"
  shows "l1_inv l'"
  using assms(2,3,1)
proof induction
  case (app_step evs l' inp rnd l'' evs')
  then show ?case using app_exec_ok [of cd l' inp rnd] by auto
qed

text \<open>
  C29. The program is type sound: from its start, and whatever connections, client messages,
  control responses, burst datagrams and timeouts it has handled, every further acceptable
  input is handled without undefined behaviour and leaves the scheduler, the clock and the
  write queue of the link well formed.
\<close>

theorem trxcon_never_stuck:
  assumes "wf_codec cd" "app_reach cd (app_init adv) evs l" "input_ok inp l"
  shows "\<exists>l' out. app_exec cd rnd inp l = Some (l', out) \<and> trx_inv (inst (l1_trx l')) \<and> length (wq l') \<le> wq_max l'"
  using app_exec_ok [OF assms(1) app_reach_inv [OF assms(1,2) app_init_inv] assms(3), of rnd]
  by (auto simp: l1_inv_def)

definition demo_fbsb_req :: "u8 list" where
  "demo_fbsb_req = [1, 0, 0, 0, 0, 7, 0, 100, 0, 0, 0, 0, 0, 7, 0, 2, 0]"

theorem trxcon_never_stuck_witness:
  "\<exists>evs l l' out. app_reach fixed_codec (app_init 3) evs l \<and> l1_fsm l = L1CTL_STATE_CONNECTED
    \<and> app_exec fixed_codec (\<lambda>_ _ _. 0) (InClient [0, 17] demo_fbsb_req) l = Some (l', out)
    \<and> trx_inv (inst (l1_trx l'))"
proof -
  obtain l where l: "app_exec fixed_codec (\<lambda>_ _ _. 0) (InAccept 5 True) (app_init 3) = Some (l, [])"
    "l1_fsm l = L1CTL_STATE_CONNECTED"
    by (simp add: app_exec_def l1ctl_link_accept_def app_init_def l1ctl_link_init_def trxcon_fsm_dispatch_def and_then_def)
  have "app_reach fixed_codec (app_init 3) ([] @ []) l"
    by (rule app_step [OF app_refl _ l(1)]) (simp add: input_ok_def)
  moreover have "input_ok (InClient [0, 17] demo_fbsb_req) l"
    by (simp add: input_ok_def read_ok_def l1ctl_msg_ok_def demo_fbsb_req_def)
  ultimately show ?thesis
    using trxcon_never_stuck [OF wf_fixed_codec, of 3 "[] @ []" l "InClient [0, 17] demo_fbsb_req" "\<lambda>_ _ _. 0"] l(2) by blast
qed

end
