(* ===== verification/Sercomm.thy ===== *)
theory Sercomm
  imports SchedTypes "HOL-Library.Multiset"
begin

text \<open>
  The serial multiplexer between the phone and the host, HDLC framing on a UART: the firmware's
  \<open>comm/sercomm.c\<close>, which the loader \<open>osmocon\<close> on the host compiles too.

  A message buffer is its free space in front and its octets; the message being transmitted is
  what is left of it from \<open>next_char\<close> on, which the code modifies in place. \<open>None\<close> is an
  access out of bounds or a failed assertion of the message buffer functions.
\<close>

abbreviation (input) HDLC_FLAG :: u8 where "HDLC_FLAG \<equiv> 0x7E"
abbreviation (input) HDLC_ESCAPE :: u8 where "HDLC_ESCAPE \<equiv> 0x7D"
abbreviation (input) HDLC_C_UI :: u8 where "HDLC_C_UI \<equiv> 0x03"
abbreviation (input) SC_DLCI_MAX :: nat where "SC_DLCI_MAX \<equiv> 129"
abbreviation (input) EBUSY :: int where "EBUSY \<equiv> 16"

datatype rx_state = RX_ST_WAIT_START | RX_ST_ADDR | RX_ST_CTRL | RX_ST_DATA | RX_ST_ESCAPE

text \<open>A registered handler: the echo service, or a client whose calls are the messages delivered.\<close>

datatype dlci_cb = CbEcho | CbClient

record sermsg =
  headroom :: nat
  octets :: "u8 list"

record sercomm =
  dlci_queues :: "sermsg list list"
  tx_next :: "u8 list option"
  tx_state :: rx_state
  dlci_handler :: "dlci_cb option list"
  rx_size :: nat
  rx_buf :: "u8 list option"
  rx_st :: rx_state
  rx_dlci :: u8
  rx_ctrl :: u8

section \<open>The user interface\<close>

definition sercomm_sendmsg :: "sercomm \<Rightarrow> u8 \<Rightarrow> sermsg \<Rightarrow> sercomm option" where
  "sercomm_sendmsg s dlci msg =
    (if headroom msg < 2 then None
     else do {
       q \<leftarrow> mem_at (dlci_queues s) (unat dlci);
       Some (s\<lparr>dlci_queues := (dlci_queues s)[unat dlci :=
         q @ [\<lparr>headroom = headroom msg - 2, octets = dlci # HDLC_C_UI # octets msg\<rparr>]]\<rparr>)
     })"

definition sercomm_tx_queue_depth :: "sercomm \<Rightarrow> u8 \<Rightarrow> nat option" where
  "sercomm_tx_queue_depth s dlci = map_option length (mem_at (dlci_queues s) (unat dlci))"

definition sercomm_register_rx_cb :: "sercomm \<Rightarrow> u8 \<Rightarrow> dlci_cb \<Rightarrow> int \<times> sercomm" where
  "sercomm_register_rx_cb s dlci cb =
    (if SC_DLCI_MAX \<le> unat dlci then (- EINVAL, s)
     else if dlci_handler s ! unat dlci \<noteq> None then (- EBUSY, s)
     else (0, s\<lparr>dlci_handler := (dlci_handler s)[unat dlci := Some cb]\<rparr>))"

text \<open>The static variable before and after the initialisation, for a receive buffer of a given size.\<close>

definition sercomm0 :: "nat \<Rightarrow> sercomm" where
  "sercomm0 sz = \<lparr>dlci_queues = replicate SC_DLCI_MAX [], tx_next = None, tx_state = RX_ST_WAIT_START,
     dlci_handler = replicate SC_DLCI_MAX None, rx_size = sz, rx_buf = None, rx_st = RX_ST_WAIT_START,
     rx_dlci = 0, rx_ctrl = 0\<rparr>"

definition sercomm_init :: "sercomm \<Rightarrow> sercomm" where
  "sercomm_init s = snd (sercomm_register_rx_cb
     (s\<lparr>dlci_queues := replicate SC_DLCI_MAX [], rx_buf := None\<rparr>) 128 CbEcho)"

section \<open>The driver interface\<close>

text \<open>The loop over the queues: the first message of the first queue that has one.\<close>

fun dequeue_first :: "sermsg list list \<Rightarrow> (sermsg \<times> sermsg list list) option" where
  "dequeue_first [] = None"
| "dequeue_first ((m # q) # qs) = Some (m, q # qs)"
| "dequeue_first ([] # qs) = map_option (\<lambda>(m, qs). (m, [] # qs)) (dequeue_first qs)"

text \<open>The octet fetched, or none when there is nothing to send.\<close>

definition sercomm_drv_pull :: "sercomm \<Rightarrow> (u8 option \<times> sercomm) option" where
  "sercomm_drv_pull s =
    (case tx_next s of
       None \<Rightarrow>
         (case dequeue_first (dlci_queues s) of
            None \<Rightarrow> Some (None, s)
          | Some (m, qs) \<Rightarrow> Some (Some HDLC_FLAG, s\<lparr>dlci_queues := qs, tx_next := Some (octets m)\<rparr>))
     | Some next \<Rightarrow>
         if tx_state s = RX_ST_ESCAPE then
           (case next of
              [] \<Rightarrow> None
            | c # cs \<Rightarrow> Some (Some c, s\<lparr>tx_next := Some cs, tx_state := RX_ST_DATA\<rparr>))
         else
           (case next of
              [] \<Rightarrow> Some (Some HDLC_FLAG, s\<lparr>tx_next := None\<rparr>)
            | c # cs \<Rightarrow>
                if c = HDLC_FLAG \<or> c = HDLC_ESCAPE \<or> c = 0
                then Some (Some HDLC_ESCAPE, s\<lparr>tx_next := Some ((c XOR 0x20) # cs), tx_state := RX_ST_ESCAPE\<rparr>)
                else Some (Some c, s\<lparr>tx_next := Some cs\<rparr>)))"

text \<open>The messages delivered to clients are returned; a received message has four octets in front.\<close>

definition dispatch_rx_msg :: "sercomm \<Rightarrow> u8 \<Rightarrow> u8 list \<Rightarrow> (sercomm \<times> (u8 \<times> u8 list) list) option" where
  "dispatch_rx_msg s dlci msg =
    (if SC_DLCI_MAX \<le> unat dlci then Some (s, [])
     else case dlci_handler s ! unat dlci of
         None \<Rightarrow> Some (s, [])
       | Some CbEcho \<Rightarrow> map_option (\<lambda>s. (s, [])) (sercomm_sendmsg s dlci \<lparr>headroom = 4, octets = msg\<rparr>)
       | Some CbClient \<Rightarrow> Some (s, [(dlci, msg)]))"

text \<open>
  The room left in the receive buffer, which was allocated with \<open>sz\<close> octets behind its
  headroom, and the append of one octet: \<open>msgb_put\<close> aborts the program when there is no room.
\<close>

definition msgb_tailroom :: "nat \<Rightarrow> u8 list \<Rightarrow> nat" where
  "msgb_tailroom sz msg = sz - length msg"

definition msgb_put_octet :: "nat \<Rightarrow> u8 list \<Rightarrow> u8 \<Rightarrow> u8 list option" where
  "msgb_put_octet sz msg ch = (if msgb_tailroom sz msg < 1 then None else Some (msg @ [ch]))"

definition sercomm_drv_rx_char :: "sercomm \<Rightarrow> u8 \<Rightarrow> (int \<times> sercomm \<times> (u8 \<times> u8 list) list) option" where
  "sercomm_drv_rx_char s ch =
    (let msg = (case rx_buf s of None \<Rightarrow> [] | Some m \<Rightarrow> m); s = s\<lparr>rx_buf := Some msg\<rparr> in
     if msgb_tailroom (rx_size s) msg = 0 then Some (0, s\<lparr>rx_buf := Some [], rx_st := RX_ST_WAIT_START\<rparr>, [])
     else case rx_st s of
         RX_ST_WAIT_START \<Rightarrow> Some (1, if ch \<noteq> HDLC_FLAG then s else s\<lparr>rx_st := RX_ST_ADDR\<rparr>, [])
       | RX_ST_ADDR \<Rightarrow> Some (1, s\<lparr>rx_dlci := ch, rx_st := RX_ST_CTRL\<rparr>, [])
       | RX_ST_CTRL \<Rightarrow> Some (1, s\<lparr>rx_ctrl := ch, rx_st := RX_ST_DATA\<rparr>, [])
       | RX_ST_DATA \<Rightarrow>
           if ch = HDLC_ESCAPE then Some (1, s\<lparr>rx_st := RX_ST_ESCAPE\<rparr>, [])
           else if ch = HDLC_FLAG then do {
             (s, out) \<leftarrow> dispatch_rx_msg s (rx_dlci s) msg;
             Some (1, s\<lparr>rx_buf := None, rx_st := RX_ST_WAIT_START\<rparr>, out)
           }
           else do {
             msg \<leftarrow> msgb_put_octet (rx_size s) msg ch;
             Some (1, s\<lparr>rx_buf := Some msg\<rparr>, [])
           }
       | RX_ST_ESCAPE \<Rightarrow> do {
           msg \<leftarrow> msgb_put_octet (rx_size s) msg (ch XOR 0x20);
           Some (1, s\<lparr>rx_buf := Some msg, rx_st := RX_ST_DATA\<rparr>, [])
         })"

text \<open>While there is room, the overflow guard is passed and no append aborts.\<close>

lemma msgb_room [simp]:
  "(msgb_tailroom n m = 0) = (n \<le> length m)"
  "length m < n \<Longrightarrow> msgb_put_octet n m c = Some (m @ [c])"
  by (auto simp: msgb_tailroom_def msgb_put_octet_def)

section \<open>Runs of the driver\<close>

text \<open>All the octets there are to fetch: at most \<open>n\<close>.\<close>

fun pull_run :: "nat \<Rightarrow> sercomm \<Rightarrow> (u8 list \<times> sercomm) option" where
  "pull_run 0 s = Some ([], s)"
| "pull_run (Suc n) s = do {
     (c, s) \<leftarrow> sercomm_drv_pull s;
     case c of None \<Rightarrow> Some ([], s)
     | Some c \<Rightarrow> do { (cs, s) \<leftarrow> pull_run n s; Some (c # cs, s) }
   }"

fun rx_run :: "u8 list \<Rightarrow> sercomm \<Rightarrow> (sercomm \<times> (u8 \<times> u8 list) list) option" where
  "rx_run [] s = Some (s, [])"
| "rx_run (c # cs) s = do {
     (rc, s, o1) \<leftarrow> sercomm_drv_rx_char s c;
     (s, o2) \<leftarrow> rx_run cs s;
     Some (s, o1 @ o2)
   }"

section \<open>The frame of a message\<close>

definition esc :: "u8 \<Rightarrow> u8 list" where
  "esc c = (if c = HDLC_FLAG \<or> c = HDLC_ESCAPE \<or> c = 0 then [HDLC_ESCAPE, c XOR 0x20] else [c])"

definition frame :: "u8 list \<Rightarrow> u8 list" where
  "frame m = HDLC_FLAG # concat (map esc m) @ [HDLC_FLAG]"

lemma esc_special: "(0x7E :: u8) XOR 0x20 = 0x5E" "(0x7D :: u8) XOR 0x20 = 0x5D" "(0 :: u8) XOR 0x20 = 0x20"
  by simp_all

lemma xor_20_20: "(c XOR 0x20) XOR 0x20 = (c :: u8)"
  by (simp add: xor.assoc)

subsection \<open>Transmission\<close>

lemma pull_esc:
  assumes "tx_state s \<noteq> RX_ST_ESCAPE"
  shows "\<exists>st. st \<noteq> RX_ST_ESCAPE \<and> pull_run (length (esc c) + n) (s\<lparr>tx_next := Some (c # cs)\<rparr>) =
    map_option (\<lambda>(w, s'). (esc c @ w, s')) (pull_run n (s\<lparr>tx_next := Some cs, tx_state := st\<rparr>))"
proof (cases "c = 0x7E \<or> c = 0x7D \<or> c = 0")
  case True
  then show ?thesis using assms
    by (intro exI [of _ RX_ST_DATA]) (auto simp: esc_def sercomm_drv_pull_def numeral_2_eq_2 map_option_case split: option.split)
next
  case False
  then show ?thesis using assms
    by (intro exI [of _ "tx_state s"]) (auto simp: esc_def sercomm_drv_pull_def map_option_case split: option.split)
qed

lemma pull_octets:
  assumes "tx_state s \<noteq> RX_ST_ESCAPE"
  shows "\<exists>st. st \<noteq> RX_ST_ESCAPE \<and> pull_run (length (concat (map esc cs)) + 1 + n) (s\<lparr>tx_next := Some cs\<rparr>) =
    map_option (\<lambda>(w, s'). (concat (map esc cs) @ 0x7E # w, s')) (pull_run n (s\<lparr>tx_next := None, tx_state := st\<rparr>))"
  using assms
proof (induction cs arbitrary: s)
  case Nil
  then show ?case
    by (intro exI [of _ "tx_state s"]) (auto simp: sercomm_drv_pull_def map_option_case split: option.split)
next
  case (Cons c cs)
  obtain st where st: "st \<noteq> RX_ST_ESCAPE" "pull_run (length (esc c) + (length (concat (map esc cs)) + 1 + n)) (s\<lparr>tx_next := Some (c # cs)\<rparr>) =
    map_option (\<lambda>(w, s'). (esc c @ w, s')) (pull_run (length (concat (map esc cs)) + 1 + n) (s\<lparr>tx_next := Some cs, tx_state := st\<rparr>))"
    using pull_esc [OF Cons.prems, of c "length (concat (map esc cs)) + 1 + n" cs] by blast
  obtain st' where st': "st' \<noteq> RX_ST_ESCAPE"
    "pull_run (length (concat (map esc cs)) + 1 + n) ((s\<lparr>tx_state := st\<rparr>)\<lparr>tx_next := Some cs\<rparr>) =
    map_option (\<lambda>(w, s'). (concat (map esc cs) @ 0x7E # w, s')) (pull_run n ((s\<lparr>tx_state := st\<rparr>)\<lparr>tx_next := None, tx_state := st'\<rparr>))"
    using Cons.IH [of "s\<lparr>tx_state := st\<rparr>"] st(1) by auto
  have e: "length (concat (map esc (c # cs))) + 1 + n = length (esc c) + (length (concat (map esc cs)) + 1 + n)" by simp
  have c: "s\<lparr>tx_next := Some cs, tx_state := st\<rparr> = (s\<lparr>tx_state := st\<rparr>)\<lparr>tx_next := Some cs\<rparr>" by simp
  have "(s\<lparr>tx_state := st\<rparr>)\<lparr>tx_next := None, tx_state := st'\<rparr> = s\<lparr>tx_next := None, tx_state := st'\<rparr>" by simp
  with st'(1) show ?case unfolding e st(2) c st'(2)
    by (intro exI [of _ st']) (simp add: option.map_comp o_def split_def del: pull_run.simps)
qed

text \<open>The messages in the queues, in the order they are fetched.\<close>

lemma dequeue_first_None: "dequeue_first qs = None \<longleftrightarrow> concat qs = []"
  by (induction qs rule: dequeue_first.induct) auto

lemma dequeue_first_Some: "dequeue_first qs = Some (m, qs') \<Longrightarrow> concat qs = m # concat qs'"
  by (induction qs arbitrary: qs' rule: dequeue_first.induct) auto

definition wire :: "sercomm \<Rightarrow> u8 list" where
  "wire s = concat (map (frame o octets) (concat (dlci_queues s)))"

lemma pull_all:
  assumes "tx_next s = None" "tx_state s \<noteq> RX_ST_ESCAPE" "length (wire s) < n"
  shows "\<exists>s'. pull_run n s = Some (wire s, s') \<and> tx_next s' = None \<and> concat (dlci_queues s') = []"
  using assms
proof (induction "length (concat (dlci_queues s))" arbitrary: s n)
  case 0
  have c: "concat (dlci_queues s) = []" using 0(1) [symmetric] by (simp only: length_0_conv)
  then have "dequeue_first (dlci_queues s) = None" by (simp only: dequeue_first_None)
  moreover have "wire s = []" by (simp only: wire_def c list.map concat.simps)
  ultimately show ?case using 0 c by (cases n) (simp_all add: sercomm_drv_pull_def)
next
  case (Suc k)
  have "concat (dlci_queues s) \<noteq> []" using Suc.hyps(2) by (metis list.size(3) nat.distinct(1))
  then obtain m qs where d: "dequeue_first (dlci_queues s) = Some (m, qs)"
    using dequeue_first_None [of "dlci_queues s"] by (metis not_None_eq surj_pair)
  then have q: "concat (dlci_queues s) = m # concat qs" by (rule dequeue_first_Some)
  let ?E = "concat (map esc (octets m))"
  have w: "wire s = 0x7E # ?E @ 0x7E # concat (map (frame o octets) (concat qs))"
    by (simp add: wire_def q frame_def)
  obtain r where n: "n = Suc (length ?E + 1 + r)" "length (concat (map (frame o octets) (concat qs))) < r"
  proof
    show "n = Suc (length ?E + 1 + (n - length ?E - 2))" using Suc.prems(3) w by simp
    show "length (concat (map (frame o octets) (concat qs))) < n - length ?E - 2" using Suc.prems(3) w by simp
  qed
  let ?s = "s\<lparr>dlci_queues := qs\<rparr>"
  obtain st where st: "st \<noteq> RX_ST_ESCAPE" "pull_run (length ?E + 1 + r) (?s\<lparr>tx_next := Some (octets m)\<rparr>) =
    map_option (\<lambda>(w, s'). (?E @ 0x7E # w, s')) (pull_run r (?s\<lparr>tx_next := None, tx_state := st\<rparr>))"
    using pull_octets [of ?s "octets m" r] Suc.prems(2) by auto
  have "\<exists>s'. pull_run r (?s\<lparr>tx_next := None, tx_state := st\<rparr>) = Some (wire (?s\<lparr>tx_next := None, tx_state := st\<rparr>), s')
      \<and> tx_next s' = None \<and> concat (dlci_queues s') = []"
    by (rule Suc.hyps(1)) (use Suc.hyps(2) q n(2) st(1) in \<open>simp_all add: wire_def\<close>)
  then show ?case using d Suc.prems(1) st(2) w unfolding n(1) pull_run.simps
    by (auto simp: sercomm_drv_pull_def wire_def simp del: pull_run.simps)
qed

declare pull_run.simps [simp del]

subsection \<open>Reception\<close>

lemma rx_run_seq:
  "rx_run xs s = Some (s1, o1) \<Longrightarrow> rx_run ys s1 = Some (s2, o2) \<Longrightarrow> rx_run (xs @ ys) s = Some (s2, o1 @ o2)"
  by (induction xs arbitrary: s o1) (auto simp: bind_Some_iff)

definition same_side :: "sercomm \<Rightarrow> sercomm \<Rightarrow> bool" where
  "same_side s s' \<longleftrightarrow> dlci_handler s' = dlci_handler s \<and> rx_size s' = rx_size s \<and> length (dlci_queues s') = length (dlci_queues s)"

text \<open>Between two messages, with an empty buffer.\<close>

definition in_phase :: "sercomm \<Rightarrow> bool" where
  "in_phase s \<longleftrightarrow> rx_st s = RX_ST_WAIT_START \<and> (rx_buf s = None \<or> rx_buf s = Some [])"

definition rx_ok :: "sercomm \<Rightarrow> bool" where
  "rx_ok s \<longleftrightarrow> length (dlci_handler s) = SC_DLCI_MAX \<and> length (dlci_queues s) = SC_DLCI_MAX \<and> 0 < rx_size s"

lemma same_side_refl [simp]: "same_side s s"
  by (simp add: same_side_def)

lemma same_side_trans: "same_side s s1 \<Longrightarrow> same_side s1 s2 \<Longrightarrow> same_side s s2"
  by (simp add: same_side_def)

lemma same_side_ok: "same_side s s' \<Longrightarrow> rx_ok s \<Longrightarrow> rx_ok s'"
  by (simp add: same_side_def rx_ok_def)

definition to_client :: "dlci_cb option list \<Rightarrow> u8 \<times> u8 list \<Rightarrow> (u8 \<times> u8 list) list" where
  "to_client hs x = (if unat (fst x) < SC_DLCI_MAX \<and> hs ! unat (fst x) = Some CbClient then [x] else [])"

lemma dispatch_ok:
  assumes "rx_ok s"
  shows "\<exists>s'. dispatch_rx_msg s d m = Some (s', to_client (dlci_handler s) (d, m)) \<and> same_side s s'"
  using assms
  by (auto simp: dispatch_rx_msg_def to_client_def rx_ok_def same_side_def sercomm_sendmsg_def mem_at_def
      split: option.split dlci_cb.split)

lemma esc_no_flag: "0x7E \<notin> set (concat (map esc xs))"
  by (induction xs) (auto simp: esc_def)

lemma rx_esc:
  assumes "rx_st s = RX_ST_DATA" "rx_buf s = Some b" "length b < rx_size s"
  shows "rx_run (esc c) s = Some (s\<lparr>rx_buf := Some (b @ [c])\<rparr>, [])"
proof -
  have "s\<lparr>rx_buf := rx_buf s\<rparr> = s" "s\<lparr>rx_buf := Some (b @ [c]), rx_st := RX_ST_DATA\<rparr> = s\<lparr>rx_buf := Some (b @ [c])\<rparr>"
    using assms(1) by simp_all
  with assms show ?thesis by (auto simp: esc_def sercomm_drv_rx_char_def)
qed

lemma rx_octets:
  assumes "rx_st s = RX_ST_DATA" "rx_buf s = Some b" "length b + length xs \<le> rx_size s"
  shows "rx_run (concat (map esc xs)) s = Some (s\<lparr>rx_buf := Some (b @ xs)\<rparr>, [])"
  using assms
proof (induction xs arbitrary: s b)
  case Nil
  have "s\<lparr>rx_buf := rx_buf s\<rparr> = s" by simp
  with Nil show ?case by simp
next
  case (Cons x xs)
  have 1: "rx_run (esc x) s = Some (s\<lparr>rx_buf := Some (b @ [x])\<rparr>, [])" by (rule rx_esc) (use Cons.prems in auto)
  have "rx_run (concat (map esc xs)) (s\<lparr>rx_buf := Some (b @ [x])\<rparr>) = Some ((s\<lparr>rx_buf := Some (b @ [x])\<rparr>)\<lparr>rx_buf := Some ((b @ [x]) @ xs)\<rparr>, [])"
    by (rule Cons.IH) (use Cons.prems in auto)
  from rx_run_seq [OF 1 this] show ?case by simp
qed

lemma rx_ignored:
  assumes "in_phase s" "rx_ok s" "0x7E \<notin> set w"
  shows "\<exists>s'. rx_run w s = Some (s', []) \<and> in_phase s' \<and> same_side s s'"
  using assms
proof (induction w arbitrary: s)
  case (Cons c w)
  let ?s = "s\<lparr>rx_buf := Some []\<rparr>"
  have "sercomm_drv_rx_char s c = Some (1, ?s, [])"
    using Cons.prems by (auto simp: sercomm_drv_rx_char_def in_phase_def rx_ok_def Let_def)
  moreover have "in_phase ?s" "same_side s ?s" "rx_ok ?s" using Cons.prems by (simp_all add: in_phase_def same_side_def rx_ok_def)
  ultimately show ?case using Cons.IH [of ?s] Cons.prems(3) same_side_trans [of s ?s] by auto
qed auto

text \<open>Data with room or without: the receiver is left in the data or between two messages.\<close>

definition in_data :: "sercomm \<Rightarrow> bool" where
  "in_data s \<longleftrightarrow> rx_st s \<in> {RX_ST_DATA, RX_ST_ESCAPE} \<and> rx_buf s \<noteq> None"

lemma rx_any:
  assumes "in_data s" "rx_ok s" "0x7E \<notin> set w"
  shows "\<exists>s'. rx_run w s = Some (s', []) \<and> (in_phase s' \<or> in_data s') \<and> same_side s s'"
  using assms
proof (induction w arbitrary: s)
  case (Cons c w)
  obtain b where b: "rx_buf s = Some b" using Cons.prems(1) by (auto simp: in_data_def)
  obtain s1 rc where 1: "sercomm_drv_rx_char s c = Some (rc, s1, [])" "same_side s s1" "in_phase s1 \<or> in_data s1"
    using Cons.prems b 
    by (cases "rx_size s \<le> length b"; cases "c = 0x7D") (auto simp: sercomm_drv_rx_char_def in_data_def in_phase_def same_side_def Let_def)
  have ok: "rx_ok s1" "0x7E \<notin> set w" using same_side_ok [OF 1(2)] Cons.prems by auto
  obtain s2 where "rx_run w s1 = Some (s2, [])" "in_phase s2 \<or> in_data s2" "same_side s1 s2"
    using 1(3) Cons.IH [OF _ ok] rx_ignored [OF _ ok] by blast
  then show ?case using 1 same_side_trans [OF 1(2)] by auto
qed auto

text \<open>A frame in phase: what it delivers depends on whether its address had to be escaped.\<close>

definition received :: "u8 \<Rightarrow> u8 list \<Rightarrow> u8 \<times> u8 list" where
  "received d p = (if d = HDLC_FLAG \<or> d = HDLC_ESCAPE \<or> d = 0 then (HDLC_ESCAPE, HDLC_C_UI # p) else (d, p))"

lemma rx_end_flag:
  assumes "rx_ok s" "rx_st s = RX_ST_DATA" "rx_buf s = Some b" "length b < rx_size s"
  shows "\<exists>s'. rx_run [0x7E] s = Some (s', to_client (dlci_handler s) (rx_dlci s, b)) \<and> in_phase s' \<and> same_side s s'"
proof -
  have e: "s\<lparr>rx_buf := Some b\<rparr> = s" using assms(3) by simp
  obtain s' where d: "dispatch_rx_msg s (rx_dlci s) b = Some (s', to_client (dlci_handler s) (rx_dlci s, b))" "same_side s s'"
    using dispatch_ok [OF assms(1)] by blast
  then show ?thesis using assms
    by (simp add: sercomm_drv_rx_char_def e Let_def) (simp add: in_phase_def same_side_def)
qed

lemma rx_quiet: "sercomm_drv_rx_char s c = Some (rc, s', []) \<Longrightarrow> rx_run (c # w) s = rx_run w s'"
  by (cases "rx_run w s'") auto

text \<open>The address and the control octet, and what is left of the frame.\<close>

lemma rx_header:
  assumes "in_phase s" "rx_ok s"
  shows "rx_run (0x7E # a # c # w) s =
    rx_run w (s\<lparr>rx_buf := Some [], rx_st := RX_ST_DATA, rx_dlci := a, rx_ctrl := c\<rparr>)"
proof -
  let ?s0 = "s\<lparr>rx_buf := Some []\<rparr>"
  have 1: "sercomm_drv_rx_char s 0x7E = Some (1, ?s0\<lparr>rx_st := RX_ST_ADDR\<rparr>, [])"
    using assms by (auto simp: in_phase_def rx_ok_def sercomm_drv_rx_char_def Let_def)
  have 2: "sercomm_drv_rx_char (?s0\<lparr>rx_st := RX_ST_ADDR\<rparr>) a = Some (1, ?s0\<lparr>rx_dlci := a, rx_st := RX_ST_CTRL\<rparr>, [])"
    using assms by (simp add: rx_ok_def sercomm_drv_rx_char_def Let_def)
  have 3: "sercomm_drv_rx_char (?s0\<lparr>rx_dlci := a, rx_st := RX_ST_CTRL\<rparr>) c =
      Some (1, ?s0\<lparr>rx_dlci := a, rx_ctrl := c, rx_st := RX_ST_DATA\<rparr>, [])"
    using assms by (simp add: rx_ok_def sercomm_drv_rx_char_def Let_def)
  have e: "?s0\<lparr>rx_dlci := a, rx_ctrl := c, rx_st := RX_ST_DATA\<rparr> =
      s\<lparr>rx_buf := Some [], rx_st := RX_ST_DATA, rx_dlci := a, rx_ctrl := c\<rparr>" by simp
  show ?thesis unfolding rx_quiet [OF 1] rx_quiet [OF 2] rx_quiet [OF 3] e by (rule refl)
qed

lemma frame_header:
  "\<exists>a c xs. frame (d # 0x03 # p) = 0x7E # a # c # concat (map esc xs) @ [0x7E] \<and> received d p = (a, xs)"
proof (cases "d = 0x7E \<or> d = 0x7D \<or> d = 0")
  case True
  have "concat (map esc (0x03 # p)) = 0x03 # concat (map esc p)" by (simp add: esc_def)
  with True show ?thesis
    by (intro exI [of _ "0x7D"] exI [of _ "d XOR 0x20"] exI [of _ "0x03 # p"])
      (auto simp: frame_def received_def esc_def)
next
  case False
  then show ?thesis
    by (intro exI [of _ d] exI [of _ "0x03"] exI [of _ p]) (simp add: frame_def received_def esc_def)
qed

lemma rx_frame:
  assumes "in_phase s" "rx_ok s" "length (snd (received d p)) < rx_size s"
  shows "\<exists>s'. rx_run (frame (d # 0x03 # p)) s = Some (s', to_client (dlci_handler s) (received d p))
    \<and> in_phase s' \<and> same_side s s'"
proof -
  obtain a c xs where f: "frame (d # 0x03 # p) = 0x7E # a # c # concat (map esc xs) @ [0x7E]" "received d p = (a, xs)"
    using frame_header [of d p] by blast
  let ?s = "s\<lparr>rx_buf := Some [], rx_st := RX_ST_DATA, rx_dlci := a, rx_ctrl := c\<rparr>"
  have len: "length xs < rx_size s" using assms(3) f(2) by simp
  have 1: "rx_run (concat (map esc xs)) ?s = Some (?s\<lparr>rx_buf := Some ([] @ xs)\<rparr>, [])"
    by (rule rx_octets) (use len in simp_all)
  obtain s' where 2: "rx_run [0x7E] (?s\<lparr>rx_buf := Some ([] @ xs)\<rparr>) = Some (s', to_client (dlci_handler s) (a, xs))"
    "in_phase s'" "same_side (?s\<lparr>rx_buf := Some ([] @ xs)\<rparr>) s'"
    using rx_end_flag [of "?s\<lparr>rx_buf := Some ([] @ xs)\<rparr>" xs] assms(2) len by (auto simp: rx_ok_def)
  have "same_side s s'" using 2(3) by (simp add: same_side_def)
  then show ?thesis using rx_run_seq [OF 1 2(1)] 2(2) f by (auto simp: rx_header [OF assms(1,2)] simp del: rx_run.simps)
qed

lemma rx_frames:
  assumes "in_phase s" "rx_ok s" "\<forall>(d, p) \<in> set ms. length (snd (received d p)) < rx_size s"
  shows "\<exists>s'. rx_run (concat (map (\<lambda>(d, p). frame (d # 0x03 # p)) ms)) s
      = Some (s', concat (map (\<lambda>(d, p). to_client (dlci_handler s) (received d p)) ms)) \<and> in_phase s' \<and> same_side s s'"
  using assms
proof (induction ms arbitrary: s)
  case (Cons m ms)
  obtain d p where m: "m = (d, p)" by (cases m)
  obtain s1 where 1: "rx_run (frame (d # 0x03 # p)) s = Some (s1, to_client (dlci_handler s) (received d p))"
    "in_phase s1" "same_side s s1"
    using rx_frame [of s d p] Cons.prems m by auto
  have h: "dlci_handler s1 = dlci_handler s" "rx_size s1 = rx_size s" using 1(3) by (simp_all add: same_side_def)
  obtain s2 where 2: "rx_run (concat (map (\<lambda>(d, p). frame (d # 0x03 # p)) ms)) s1
      = Some (s2, concat (map (\<lambda>(d, p). to_client (dlci_handler s) (received d p)) ms))" "in_phase s2" "same_side s1 s2"
    using Cons.IH [OF 1(2) same_side_ok [OF 1(3) Cons.prems(2)]] Cons.prems(3) h by auto
  show ?case using rx_run_seq [OF 1(1) 2(1)] 2(2) same_side_trans [OF 1(3) 2(3)] m by auto
qed auto

section \<open>Synchronisation\<close>

text \<open>After a flag that opens a message.\<close>

definition at_addr :: "sercomm \<Rightarrow> bool" where
  "at_addr s \<longleftrightarrow> rx_st s = RX_ST_ADDR \<and> rx_buf s = Some []"

text \<open>What holds whatever has been received: only a message being received has octets in the buffer.\<close>

definition rx_wf :: "sercomm \<Rightarrow> bool" where
  "rx_wf s \<longleftrightarrow> in_phase s \<or> in_data s \<or> (rx_st s \<in> {RX_ST_ADDR, RX_ST_CTRL} \<and> rx_buf s = Some [])"

lemma rx_char_ok:
  assumes "rx_wf s" "rx_ok s"
  shows "\<exists>rc s' out. sercomm_drv_rx_char s c = Some (rc, s', out) \<and> rx_wf s' \<and> same_side s s'"
proof -
  obtain b where b: "(case rx_buf s of None \<Rightarrow> [] | Some m \<Rightarrow> m) = b" by blast
  obtain s' out where d: "dispatch_rx_msg (s\<lparr>rx_buf := Some b\<rparr>) (rx_dlci s) b = Some (s', out)"
    "same_side (s\<lparr>rx_buf := Some b\<rparr>) s'"
    using dispatch_ok [of "s\<lparr>rx_buf := Some b\<rparr>" "rx_dlci s" b] assms(2) by (auto simp: rx_ok_def)
  show ?thesis
  proof (cases "rx_size s \<le> length b")
    case True
    then show ?thesis by (simp add: sercomm_drv_rx_char_def b Let_def rx_wf_def in_phase_def same_side_def)
  next
    case False
    then show ?thesis using assms b d
      by (cases "rx_st s") (auto simp: sercomm_drv_rx_char_def rx_wf_def in_phase_def in_data_def same_side_def Let_def)
  qed
qed

lemma rx_run_ok:
  "rx_wf s \<Longrightarrow> rx_ok s \<Longrightarrow> \<exists>s' out. rx_run w s = Some (s', out) \<and> rx_wf s' \<and> same_side s s'"
proof (induction w arbitrary: s)
  case (Cons c w)
  obtain rc s1 o1 where 1: "sercomm_drv_rx_char s c = Some (rc, s1, o1)" "rx_wf s1" "same_side s s1"
    using rx_char_ok [OF Cons.prems] by blast
  with Cons.IH [OF 1(2) same_side_ok [OF 1(3) Cons.prems(2)]] show ?case
    using same_side_trans [OF 1(3)] by auto
qed auto

lemma rx_open_flag:
  assumes "in_phase s" "rx_ok s"
  shows "rx_run [0x7E] s = Some (s\<lparr>rx_buf := Some [], rx_st := RX_ST_ADDR\<rparr>, [])"
  using assms by (auto simp: sercomm_drv_rx_char_def in_phase_def rx_ok_def Let_def)

lemma rx_tail:
  assumes "rx_st s = RX_ST_DATA" "rx_buf s = Some b" "rx_ok s"
  shows "\<exists>s' out. rx_run (concat (map esc xs) @ [0x7E]) s = Some (s', out) \<and> (in_phase s' \<or> at_addr s') \<and> same_side s s'"
  using assms
proof (induction xs arbitrary: s b)
  case Nil
  show ?case
  proof (cases "length b < rx_size s")
    case True
    then show ?thesis using rx_end_flag [OF Nil(3,1,2)] by (auto simp del: rx_run.simps)
  next
    case False
    then show ?thesis using Nil by (simp add: sercomm_drv_rx_char_def Let_def in_phase_def same_side_def)
  qed
next
  case (Cons x xs)
  show ?case
  proof (cases "length b < rx_size s")
    case True
    let ?s = "s\<lparr>rx_buf := Some (b @ [x])\<rparr>"
    obtain s' out where "rx_run (concat (map esc xs) @ [0x7E]) ?s = Some (s', out)" "in_phase s' \<or> at_addr s'" "same_side ?s s'"
      using Cons.IH [of ?s "b @ [x]"] Cons.prems by (auto simp: rx_ok_def)
    then show ?thesis using rx_run_seq [OF rx_esc [OF Cons.prems(1,2) True, of x]] by (auto simp: same_side_def)
  next
    case False
    have "concat (map esc (x # xs)) \<noteq> []" by (simp add: esc_def)
    then obtain c w where w: "concat (map esc (x # xs)) = c # w" "0x7E \<notin> set w"
      using esc_no_flag [of "x # xs"] by (metis neq_Nil_conv list.set_intros(2))
    let ?s = "s\<lparr>rx_buf := Some [], rx_st := RX_ST_WAIT_START\<rparr>"
    have 1: "sercomm_drv_rx_char s c = Some (0, ?s, [])" using False Cons.prems by (simp add: sercomm_drv_rx_char_def Let_def)
    have "in_phase ?s" "rx_ok ?s" using Cons.prems(3) by (simp_all add: in_phase_def rx_ok_def)
    then obtain s1 where 2: "rx_run w ?s = Some (s1, [])" "in_phase s1" "same_side ?s s1"
      using rx_ignored w(2) by blast
    from rx_run_seq [OF 2(1) rx_open_flag [OF 2(2) same_side_ok [OF 2(3)]]] \<open>rx_ok ?s\<close>
    show ?thesis using 2(3) unfolding w(1) append_Cons rx_quiet [OF 1]
      by (auto simp: at_addr_def same_side_def)
  qed
qed

text \<open>The octets of a frame after its address, as the receiver that took the opening flag for an
  address and the address for a control octet finds them.\<close>

lemma frame_tail:
  obtains c xs where "frame (d # 0x03 # p) = 0x7E # c # concat (map esc xs) @ [0x7E]" "length xs \<le> length p + 2"
proof (cases "d = 0x7E \<or> d = 0x7D \<or> d = 0")
  case True
  have "concat (map esc ((d XOR 0x20) # 0x03 # p)) = (d XOR 0x20) # 0x03 # concat (map esc p)"
    using True by (auto simp: esc_def)
  then show ?thesis using True that [of "0x7D" "(d XOR 0x20) # 0x03 # p"] by (auto simp: frame_def esc_def)
next
  case False
  then show ?thesis using that [of d "0x03 # p"] by (simp add: frame_def esc_def)
qed

lemma addr_flag:
  assumes "rx_ok s" "at_addr s"
  shows "rx_run (a # c # w) s = rx_run w (s\<lparr>rx_dlci := a, rx_ctrl := c, rx_st := RX_ST_DATA\<rparr>)"
proof -
  have e: "s\<lparr>rx_buf := Some []\<rparr> = s" using assms(2) by (simp add: at_addr_def)
  have 1: "sercomm_drv_rx_char s a = Some (1, s\<lparr>rx_dlci := a, rx_st := RX_ST_CTRL\<rparr>, [])"
    using assms by (simp add: rx_ok_def at_addr_def sercomm_drv_rx_char_def Let_def e)
  have 2: "sercomm_drv_rx_char (s\<lparr>rx_dlci := a, rx_st := RX_ST_CTRL\<rparr>) c =
      Some (1, s\<lparr>rx_dlci := a, rx_ctrl := c, rx_st := RX_ST_DATA\<rparr>, [])"
    using assms by (simp add: rx_ok_def at_addr_def sercomm_drv_rx_char_def Let_def e)
  show ?thesis unfolding rx_quiet [OF 1] rx_quiet [OF 2] by (rule refl)
qed

lemma at_addr_wf: "at_addr s \<Longrightarrow> rx_wf s"
  by (simp add: at_addr_def rx_wf_def)

text \<open>The first frame received in an arbitrary state ends between two messages or after a flag
  taken for an opening one; the second, if it is short enough, between two messages.\<close>

lemma frame_split: "frame m = [0x7E] @ concat (map esc m) @ [0x7E]"
  by (simp add: frame_def)

lemma rx_flag: "rx_run [0x7E] s = Some (s1, out) \<Longrightarrow> rx_st s1 \<noteq> RX_ST_ESCAPE"
  by (auto simp: sercomm_drv_rx_char_def Let_def bind_Some_iff split: if_splits rx_state.splits)

lemma frame_first:
  assumes "rx_wf s" "rx_ok s"
  shows "\<exists>s' out. rx_run (frame (d # 0x03 # p)) s = Some (s', out) \<and> (in_phase s' \<or> at_addr s') \<and> same_side s s'"
proof -
  let ?m = "d # 0x03 # p"
  let ?goal = "\<lambda>w s. \<exists>s' out. rx_run w s = Some (s', out) \<and> (in_phase s' \<or> at_addr s') \<and> same_side s s'"
  have late: "?goal (concat (map esc ?m) @ [0x7E]) s1" if ip: "in_phase s1" "rx_ok s1" for s1
  proof -
    obtain s2 where 2: "rx_run (concat (map esc ?m)) s1 = Some (s2, [])" "in_phase s2" "same_side s1 s2"
      using rx_ignored [OF ip esc_no_flag [of ?m]] by blast
    from rx_run_seq [OF 2(1) rx_open_flag [OF 2(2) same_side_ok [OF 2(3) ip(2)]]] 2(3) show ?thesis
      by (auto simp: at_addr_def same_side_def)
  qed
  have seq: "?goal (w @ v) s" if w: "rx_run w s = Some (s1, o1)" "same_side s s1" "?goal v s1" for w v s1 o1
  proof -
    obtain s2 o2 where "rx_run v s1 = Some (s2, o2)" "in_phase s2 \<or> at_addr s2" "same_side s1 s2" using w(3) by blast
    then show ?thesis using rx_run_seq [OF w(1)] same_side_trans [OF w(2)] by blast
  qed
  obtain s1 o1 where 1: "rx_run [0x7E] s = Some (s1, o1)" "rx_wf s1" "same_side s s1"
    using rx_run_ok [OF assms] by blast
  have ok1: "rx_ok s1" using same_side_ok [OF 1(3) assms(2)] .
  consider "in_phase s1" | b where "rx_st s1 = RX_ST_DATA" "rx_buf s1 = Some b" | "at_addr s1" | "rx_st s1 = RX_ST_CTRL" "rx_buf s1 = Some []"
    using 1(2) rx_flag [OF 1(1)] by (auto simp: rx_wf_def in_data_def at_addr_def)
  then have "?goal (concat (map esc ?m) @ [0x7E]) s1"
  proof cases
    case 1
    then show ?thesis using late ok1 by blast
  next
    case 2
    then show ?thesis using rx_tail ok1 by blast
  next
    case 3
    obtain c c' xs where f: "concat (map esc ?m) @ [0x7E] = c # c' # concat (map esc xs) @ [0x7E]"
      using frame_header [of d p] frame_split [of "d # 0x03 # p"] by auto
    show ?thesis unfolding f addr_flag [OF ok1 3]
      using rx_tail [of "s1\<lparr>rx_dlci := c, rx_ctrl := c', rx_st := RX_ST_DATA\<rparr>" "[]" xs] 3 ok1
      by (auto simp: at_addr_def rx_ok_def same_side_def)
  next
    case 4
    obtain c xs where f: "frame ?m = 0x7E # c # concat (map esc xs) @ [0x7E]" using frame_tail by blast
    have e: "s1\<lparr>rx_buf := Some []\<rparr> = s1" using 4(2) by simp
    have g: "concat (map esc ?m) @ [0x7E] = c # concat (map esc xs) @ [0x7E]" using f by (simp add: frame_split)
    have 5: "sercomm_drv_rx_char s1 c = Some (1, s1\<lparr>rx_ctrl := c, rx_st := RX_ST_DATA\<rparr>, [])"
      using 4 ok1 by (simp add: rx_ok_def sercomm_drv_rx_char_def Let_def e)
    show ?thesis unfolding g rx_quiet [OF 5]
      using rx_tail [of "s1\<lparr>rx_ctrl := c, rx_st := RX_ST_DATA\<rparr>" "[]" xs] 4 ok1
      by (auto simp: rx_ok_def same_side_def)
  qed
  from seq [OF 1(1,3) this] show ?thesis by (simp only: frame_split)
qed

lemma frame_second:
  assumes "rx_ok s" "in_phase s \<or> at_addr s" "length p + 2 < rx_size s"
  shows "\<exists>s' out. rx_run (frame (d # 0x03 # p)) s = Some (s', out) \<and> in_phase s' \<and> same_side s s'"
  using assms(2)
proof
  assume "in_phase s"
  moreover have "length (snd (received d p)) < rx_size s" using assms(3) by (simp add: received_def)
  ultimately show ?thesis using rx_frame [of s d p] assms(1) by blast
next
  assume at: "at_addr s"
  obtain c xs where f: "frame (d # 0x03 # p) = 0x7E # c # concat (map esc xs) @ [0x7E]" "length xs \<le> length p + 2"
    by (rule frame_tail)
  let ?s = "s\<lparr>rx_dlci := 0x7E, rx_ctrl := c, rx_st := RX_ST_DATA\<rparr>"
  have 1: "rx_run (concat (map esc xs)) ?s = Some (?s\<lparr>rx_buf := Some ([] @ xs)\<rparr>, [])"
    by (rule rx_octets) (use at assms(3) f(2) in \<open>simp_all add: at_addr_def\<close>)
  obtain s' out where "rx_run [0x7E] (?s\<lparr>rx_buf := Some ([] @ xs)\<rparr>) = Some (s', out)" "in_phase s'"
    "same_side (?s\<lparr>rx_buf := Some ([] @ xs)\<rparr>) s'"
    using rx_end_flag [of "?s\<lparr>rx_buf := Some ([] @ xs)\<rparr>" xs] assms f(2) by (auto simp: rx_ok_def)
  with rx_run_seq [OF 1] show ?thesis unfolding f(1) addr_flag [OF assms(1) at] by (auto simp: same_side_def)
qed

section \<open>What the pair of multiplexers does\<close>

text \<open>The messages of a list handed to the transmitter one after the other, each with the four
  octets in front that the message buffers of this layer have.\<close>

fun send_all :: "sercomm \<Rightarrow> (u8 \<times> u8 list) list \<Rightarrow> sercomm option" where
  "send_all s [] = Some s"
| "send_all s ((d, p) # ms) = do { s \<leftarrow> sercomm_sendmsg s d \<lparr>headroom = 4, octets = p\<rparr>; send_all s ms }"

abbreviation "dlci_key \<equiv> \<lambda>m. unat (fst m :: u8)"

definition queued :: "u8 \<times> u8 list \<Rightarrow> sermsg" where
  "queued m = \<lparr>headroom = 2, octets = fst m # HDLC_C_UI # snd m\<rparr>"

lemma send_all_queues:
  assumes "\<forall>m \<in> set ms. dlci_key m < length (dlci_queues s)"
  shows "\<exists>qs. send_all s ms = Some (s\<lparr>dlci_queues := qs\<rparr>) \<and> length qs = length (dlci_queues s) \<and>
    (\<forall>i < length qs. qs ! i = dlci_queues s ! i @ map queued (filter (\<lambda>m. dlci_key m = i) ms))"
  using assms
proof (induction ms arbitrary: s)
  case Nil
  show ?case by (rule exI [of _ "dlci_queues s"]) simp
next
  case (Cons m ms)
  let ?i = "dlci_key m" and ?q = "dlci_queues s"
  let ?s = "s\<lparr>dlci_queues := ?q[?i := ?q ! ?i @ [queued m]]\<rparr>"
  have "sercomm_sendmsg s (fst m) \<lparr>headroom = 4, octets = snd m\<rparr> = Some ?s"
    using Cons.prems by (simp add: sercomm_sendmsg_def mem_at_def queued_def)
  then have "send_all s (m # ms) = send_all ?s ms" by (cases m) simp
  then show ?case using Cons.IH [of ?s] Cons.prems by (auto simp: nth_list_update)
qed

text \<open>The queues in ascending order are the messages sorted by their address, in the order they came.\<close>

lemma concat_by_key:
  assumes "\<forall>m \<in> set ms. key m < n"
  shows "concat (map (\<lambda>i. filter (\<lambda>m. key m = i) ms) [0..<n]) = sort_key key ms"
proof (rule properties_for_sort_key [symmetric])
  let ?ys = "\<lambda>n. concat (map (\<lambda>i. filter (\<lambda>m. key m = i) ms) [0..<n])"
  have "mset (?ys n) = filter_mset (\<lambda>m. key m < n) (mset ms)" for n
    by (induction n) (auto simp: multiset_eq_iff)
  moreover have "filter_mset (\<lambda>m. key m < n) (mset ms) = mset ms" using assms by (simp add: filter_mset_eq_conv)
  ultimately show "mset (?ys n) = mset ms" by simp
  have f: "filter (\<lambda>x. key k = key x) (?ys n) = (if key k < n then filter (\<lambda>x. key k = key x) ms else [])" for k n
  proof (induction n)
    case (Suc n)
    have "filter (\<lambda>x. key k = key x) (filter (\<lambda>m. key m = n) ms) = (if key k = n then filter (\<lambda>x. key k = key x) ms else [])"
      by (auto simp: filter_empty_conv intro: filter_cong)
    with Suc show ?case by (auto simp: less_Suc_eq)
  qed simp
  show "filter (\<lambda>x. key k = key x) (?ys n) = filter (\<lambda>x. key k = key x) ms" if "k \<in> set (?ys n)" for k
    using that by (auto simp: f)
  have "sorted (map key (?ys n)) \<and> (\<forall>m \<in> set (?ys n). key m < n)" for n
    by (induction n) (auto simp: sorted_append sorted_map_same [of key "\<lambda>_. n" ms for n])
  then show "sorted (map key (?ys n))" by blast
qed

lemma concat_queued:
  assumes "\<forall>m \<in> set ms. dlci_key m < length qs" "concat qs0 = []" "length qs0 = length qs"
    and "\<forall>i < length qs. qs ! i = qs0 ! i @ map queued (filter (\<lambda>m. dlci_key m = i) ms)"
  shows "concat qs = map queued (sort_key dlci_key ms)"
proof -
  have "qs0 ! i = []" if "i < length qs" for i using assms(2,3) that by (metis concat_eq_Nil_conv nth_mem)
  then have "qs = map (\<lambda>i. map queued (filter (\<lambda>m. dlci_key m = i) ms)) [0..<length qs]"
    by (intro nth_equalityI) (use assms(4) in auto)
  then have "concat qs = concat (map (\<lambda>i. map queued (filter (\<lambda>m. dlci_key m = i) ms)) [0..<length qs])" by simp
  also have "\<dots> = map queued (concat (map (\<lambda>i. filter (\<lambda>m. dlci_key m = i) ms) [0..<length qs]))"
    by (simp add: map_concat o_def)
  finally show ?thesis using concat_by_key [of ms dlci_key "length qs"] assms(1) by simp
qed

lemma map_wire: "concat (map (frame o octets) (map queued ms)) = concat (map (\<lambda>(d, p). frame (d # 0x03 # p)) ms)"
  by (induction ms) (auto simp: queued_def)

text \<open>An idle transmitter, with all its queues empty.\<close>

definition tx_idle :: "sercomm \<Rightarrow> bool" where
  "tx_idle s \<longleftrightarrow> tx_next s = None \<and> tx_state s \<noteq> RX_ST_ESCAPE \<and> dlci_queues s = replicate SC_DLCI_MAX []"

text \<open>C32. Whatever messages are handed to an idle transmitter, pulling its octets until there are
  none left and feeding them to a receiver between two messages delivers all of them, in ascending
  order of their addresses (the priority the header promises) and in their own order within one
  address, each unchanged and to the handler of its address alone, however many of their octets
  had to be escaped. The exception is an address that is itself escaped, which the receiver does
  not undo: such a message arrives at address 0x7D with its control octet in front. Messages are
  to be shorter than the receive buffer.\<close>

theorem sercomm_delivers:
  assumes "tx_idle t" "in_phase r" "rx_ok r"
    and "\<forall>m \<in> set ms. unat (fst m) < SC_DLCI_MAX"
    and "\<forall>m \<in> set ms. length (snd (received (fst m) (snd m))) < rx_size r"
  shows "\<exists>t1 w r1. send_all t ms = Some t1 \<and>
    (\<forall>n > length w. \<exists>t2. pull_run n t1 = Some (w, t2) \<and> tx_next t2 = None \<and> concat (dlci_queues t2) = []) \<and>
    rx_run w r = Some (r1, concat (map (\<lambda>(d, p). to_client (dlci_handler r) (received d p)) (sort_key (\<lambda>m. unat (fst m)) ms)))
    \<and> in_phase r1"
proof -
  have len: "length (dlci_queues t) = SC_DLCI_MAX" "concat (dlci_queues t) = []" using assms(1) by (simp_all add: tx_idle_def)
  obtain qs where q: "send_all t ms = Some (t\<lparr>dlci_queues := qs\<rparr>)" "length qs = SC_DLCI_MAX"
    "\<forall>i < length qs. qs ! i = dlci_queues t ! i @ map queued (filter (\<lambda>m. dlci_key m = i) ms)"
    using send_all_queues [of ms t] assms(4) len by auto
  let ?t = "t\<lparr>dlci_queues := qs\<rparr>" and ?ms = "sort_key dlci_key ms"
  have q': "concat qs = map queued ?ms" by (rule concat_queued [OF _ len(2) _ q(3)]) (use q(2) len assms(4) in simp_all)
  have "wire ?t = concat (map (frame o octets) (concat qs))" by (simp add: wire_def)
  then have w: "wire ?t = concat (map (\<lambda>(d, p). frame (d # 0x03 # p)) ?ms)" by (simp only: q' map_wire)
  have "\<exists>t2. pull_run n ?t = Some (wire ?t, t2) \<and> tx_next t2 = None \<and> concat (dlci_queues t2) = []"
    if "length (wire ?t) < n" for n
    by (rule pull_all) (use that assms(1) in \<open>simp_all add: tx_idle_def\<close>)
  moreover have l: "\<forall>(d, p) \<in> set ?ms. length (snd (received d p)) < rx_size r" using assms(5) by auto
  moreover obtain r1 where "rx_run (wire ?t) r = Some (r1, concat (map (\<lambda>(d, p). to_client (dlci_handler r) (received d p)) ?ms))" "in_phase r1"
    using rx_frames [OF assms(2,3) l] w by auto
  ultimately show ?thesis using q(1) by blast
qed

text \<open>A sender and a receiver, one client at the layer 1 address.\<close>

definition rx_demo :: sercomm where
  "rx_demo = snd (sercomm_register_rx_cb (sercomm_init (sercomm0 256)) 5 CbClient)"

lemma rx_demo_fields:
  "in_phase rx_demo" "rx_ok rx_demo" "rx_size rx_demo = 256" "dlci_handler rx_demo ! 5 = Some CbClient"
  by (simp_all add: rx_demo_def sercomm_register_rx_cb_def sercomm_init_def sercomm0_def in_phase_def rx_ok_def nth_list_update)

lemma tx_idle_init: "tx_idle (sercomm_init (sercomm0 256))"
  by (simp add: sercomm_init_def sercomm0_def sercomm_register_rx_cb_def tx_idle_def)

lemma sercomm_delivers_witness:
  "\<exists>t1 w r1. send_all (sercomm_init (sercomm0 256)) [(5, [0x7E, 0, 1]), (5, [])] = Some t1 \<and>
    (\<forall>n > length w. \<exists>t2. pull_run n t1 = Some (w, t2) \<and> tx_next t2 = None \<and> concat (dlci_queues t2) = []) \<and>
    rx_run w rx_demo = Some (r1, [(5, [0x7E, 0, 1]), (5, [])]) \<and> in_phase r1"
  using sercomm_delivers [OF tx_idle_init rx_demo_fields(1,2), of "[(5, [0x7E, 0, 1]), (5, [])]"]
  by (simp add: rx_demo_fields received_def to_client_def)

text \<open>C33. A receiver recovers from anything: after arbitrary octets on the line, none of which makes
  it append to a full buffer (which would abort it) or access memory out of bounds, at most two frames are lost or garbled, provided that the second
  of them is not longer than the buffer less three octets; every frame that follows is
  delivered exactly.\<close>

theorem sercomm_resyncs:
  assumes "rx_wf r" "rx_ok r" "length p2 + 2 < rx_size r"
    and "\<forall>(d, p) \<in> set ms. length (snd (received d p)) < rx_size r"
  shows "\<exists>r1 garbled. rx_run (noise @ frame (d1 # HDLC_C_UI # p1) @ frame (d2 # HDLC_C_UI # p2) @
      concat (map (\<lambda>(d, p). frame (d # HDLC_C_UI # p)) ms)) r =
    Some (r1, garbled @ concat (map (\<lambda>(d, p). to_client (dlci_handler r) (received d p)) ms)) \<and> in_phase r1"
proof -
  obtain s1 o1 where 1: "rx_run noise r = Some (s1, o1)" "rx_wf s1" "same_side r s1"
    using rx_run_ok [OF assms(1,2)] by blast
  note k1 = same_side_ok [OF 1(3) assms(2)]
  obtain s2 o2 where 2: "rx_run (frame (d1 # HDLC_C_UI # p1)) s1 = Some (s2, o2)" "in_phase s2 \<or> at_addr s2" "same_side s1 s2"
    using frame_first [OF 1(2) k1] by blast
  note k2 = same_side_ok [OF 2(3) k1]
  have "rx_size s2 = rx_size r" using 1(3) 2(3) by (simp add: same_side_def)
  then obtain s3 o3 where 3: "rx_run (frame (d2 # HDLC_C_UI # p2)) s2 = Some (s3, o3)" "in_phase s3" "same_side s2 s3"
    using frame_second [OF k2 2(2), of p2 d2] assms(3) by auto
  have e: "dlci_handler s3 = dlci_handler r" "rx_size s3 = rx_size r" using 1(3) 2(3) 3(3) by (simp_all add: same_side_def)
  obtain s4 where 4: "rx_run (concat (map (\<lambda>(d, p). frame (d # HDLC_C_UI # p)) ms)) s3 =
      Some (s4, concat (map (\<lambda>(d, p). to_client (dlci_handler r) (received d p)) ms))" "in_phase s4"
    using rx_frames [OF 3(2) same_side_ok [OF 3(3) k2], of ms] assms(4) e by auto
  show ?thesis
    using rx_run_seq [OF 1(1) rx_run_seq [OF 2(1) rx_run_seq [OF 3(1) 4(1)]]] 4(2)
    by (intro exI [of _ s4] exI [of _ "o1 @ o2 @ o3"]) simp
qed

lemma sercomm_resyncs_witness:
  "\<exists>r1 garbled. rx_run ([1, 0x7E, 0x7D] @ frame [5, 0x03, 1] @ frame [5, 0x03, 2] @ frame [5, 0x03, 0x7D]) rx_demo =
    Some (r1, garbled @ [(5, [0x7D])]) \<and> in_phase r1"
  using sercomm_resyncs [of rx_demo "[2]" "[(5, [0x7D])]" "[1, 0x7E, 0x7D]" 5 "[1]" 5] rx_demo_fields
  by (simp add: rx_wf_def received_def to_client_def)

text \<open>The two limits of the round trip: the address of highest priority is not usable, and a
  message that fills the receive buffer is dropped, with its closing flag.\<close>

lemma dlci_highest_garbled:
  assumes "in_phase r" "rx_ok r" "length p + 1 < rx_size r"
  shows "\<exists>r1. rx_run (frame (0 # HDLC_C_UI # p)) r = Some (r1, to_client (dlci_handler r) (0x7D, 0x03 # p))"
  using rx_frame [OF assms(1,2), of 0 p] assms(3) by (auto simp: received_def)

end
