(* ===== verification/Tlv.thy ===== *)
theory Tlv
  imports SchedTypes "HOL-Library.Sublist"
begin

text \<open>
  The TLV parser and encoder of libosmocore (\<open>gsm/tlv_parser.c\<close>, \<open>osmocom/gsm/tlv.h\<close>), which
  the layer 3 of the phone takes its messages apart with.

  A pointer into memory is the list of the octets from there to the end of the buffer it points
  into, so that an access beyond the end is an access beyond the list: \<open>None\<close>. The arrays of 256
  entries that an octet indexes are functions of that octet. Message buffers are their octets and
  the room behind them.
\<close>

section \<open>Definitions of the information elements, and parsed messages\<close>

datatype tlv_type = TLV_TYPE_NONE | TLV_TYPE_FIXED | TLV_TYPE_T | TLV_TYPE_TV | TLV_TYPE_TLV | TLV_TYPE_TL16V
  | TLV_TYPE_TvLV | TLV_TYPE_SINGLE_TV | TLV_TYPE_vTvLV_GAN

record tlv_def =
  tlv_ty :: tlv_type
  fixed_len :: u8

type_synonym tlv_definition = "u8 \<Rightarrow> tlv_def"

record tlv_p_entry =
  lv_len :: u16
  lv_val :: "u8 list option"

type_synonym tlv_parsed = "u8 \<Rightarrow> tlv_p_entry"

abbreviation (input) OSMO_TLVP_ERR_OFS_BEYOND_BUFFER :: int where "OSMO_TLVP_ERR_OFS_BEYOND_BUFFER \<equiv> - 1"
abbreviation (input) OSMO_TLVP_ERR_OFS_LEN_BEYOND_BUFFER :: int where "OSMO_TLVP_ERR_OFS_LEN_BEYOND_BUFFER \<equiv> - 2"
abbreviation (input) OSMO_TLVP_ERR_UNKNOWN_TLV_TYPE :: int where "OSMO_TLVP_ERR_UNKNOWN_TLV_TYPE \<equiv> - 3"
abbreviation (input) OSMO_TLVP_ERR_MAND_IE_MISSING :: int where "OSMO_TLVP_ERR_MAND_IE_MISSING \<equiv> - 50"
abbreviation (input) OSMO_TLVP_ERR_IE_TOO_SHORT :: int where "OSMO_TLVP_ERR_IE_TOO_SHORT \<equiv> - 51"

definition no_ies :: tlv_parsed where
  "no_ies = (\<lambda>_. \<lparr>lv_len = 0, lv_val = None\<rparr>)"

definition all_tags :: "u8 list" where
  "all_tags = map of_nat [0..<256]"

abbreviation "TLVP_PRESENT tp i \<equiv> lv_val (tp i) \<noteq> None"

definition tlv_def_patch :: "tlv_definition \<Rightarrow> tlv_definition \<Rightarrow> tlv_definition" where
  "tlv_def_patch dst src = (\<lambda>i. if tlv_ty (src i) = TLV_TYPE_NONE then dst i
     else if tlv_ty (dst i) = TLV_TYPE_NONE then src i else dst i)"

text \<open>The two definitions the library sets up when it is loaded.\<close>

definition tvlv_att_def :: tlv_definition where
  "tvlv_att_def = (\<lambda>_. \<lparr>tlv_ty = TLV_TYPE_TvLV, fixed_len = 0\<rparr>)"

definition vtvlv_gan_att_def :: tlv_definition where
  "vtvlv_gan_att_def = (\<lambda>_. \<lparr>tlv_ty = TLV_TYPE_vTvLV_GAN, fixed_len = 0\<rparr>)"

section \<open>Parsing\<close>

text \<open>What the parser of one element writes through its pointers.\<close>

record tlv_out =
  o_tag :: u8
  o_len :: u16
  o_val :: "u8 list option"

text \<open>The two kinds of length fields, and the check at the end.\<close>

definition parse_tlv :: "tlv_out \<Rightarrow> u8 list \<Rightarrow> (int \<times> tlv_out) option" where
  "parse_tlv out buf =
    (if length buf < 2 then Some (OSMO_TLVP_ERR_OFS_BEYOND_BUFFER, out)
     else do {
       b1 \<leftarrow> mem_at buf 1;
       Some (int (unat b1) + 2, out\<lparr>o_val := Some (drop 2 buf), o_len := ucast b1\<rparr>)
     })"

definition parse_tl16v :: "tlv_out \<Rightarrow> u8 \<Rightarrow> u8 list \<Rightarrow> (int \<times> tlv_out) option" where
  "parse_tl16v out lmask buf =
    (if length buf < 3 then Some (OSMO_TLVP_ERR_OFS_BEYOND_BUFFER, out)
     else do {
       b1 \<leftarrow> mem_at buf 1;
       b2 \<leftarrow> mem_at buf 2;
       let l = push_bit 8 (ucast (b1 AND lmask)) OR ucast b2;
       Some (int (unat l) + 3, out\<lparr>o_val := Some (drop 3 buf), o_len := l\<rparr>)
     })"

definition tlv_parse_one :: "tlv_out \<Rightarrow> tlv_definition \<Rightarrow> u8 list \<Rightarrow> (int \<times> tlv_out) option" where
  "tlv_parse_one out def buf =
    (if buf = [] then Some (OSMO_TLVP_ERR_OFS_BEYOND_BUFFER, out)
     else do {
       tag \<leftarrow> mem_at buf 0;
       let out = out\<lparr>o_tag := tag\<rparr>;
       if tlv_ty (def (tag AND 0xf0)) = TLV_TYPE_SINGLE_TV
       then Some (1, out\<lparr>o_tag := tag AND 0xf0, o_val := Some buf, o_len := 1\<rparr>)
       else do {
         (rv, out) \<leftarrow> (case tlv_ty (def tag) of
             TLV_TYPE_T \<Rightarrow> Some (1, out\<lparr>o_val := Some buf, o_len := 0\<rparr>)
           | TLV_TYPE_TV \<Rightarrow> Some (2, out\<lparr>o_val := Some (drop 1 buf), o_len := 1\<rparr>)
           | TLV_TYPE_FIXED \<Rightarrow>
               Some (int (unat (fixed_len (def tag))) + 1,
                 out\<lparr>o_val := Some (drop 1 buf), o_len := ucast (fixed_len (def tag))\<rparr>)
           | TLV_TYPE_TLV \<Rightarrow> parse_tlv out buf
           | TLV_TYPE_vTvLV_GAN \<Rightarrow>
               if length buf < 2 then Some (OSMO_TLVP_ERR_OFS_BEYOND_BUFFER, out)
               else do {
                 b1 \<leftarrow> mem_at buf 1;
                 if bit b1 7 then parse_tl16v out 0x7F buf else parse_tlv out buf
               }
           | TLV_TYPE_TvLV \<Rightarrow>
               if length buf < 2 then Some (OSMO_TLVP_ERR_OFS_BEYOND_BUFFER, out)
               else do {
                 b1 \<leftarrow> mem_at buf 1;
                 if bit b1 7
                 then Some (int (unat (b1 AND 0x7f)) + 2, out\<lparr>o_val := Some (drop 2 buf), o_len := ucast (b1 AND 0x7f)\<rparr>)
                 else parse_tl16v out 0xFF buf
               }
           | TLV_TYPE_TL16V \<Rightarrow> parse_tl16v out 0xFF buf
           | _ \<Rightarrow> Some (OSMO_TLVP_ERR_UNKNOWN_TLV_TYPE, out));
         Some (if 0 \<le> rv \<and> int (length buf) < rv
           then (OSMO_TLVP_ERR_OFS_LEN_BEYOND_BUFFER, out\<lparr>o_val := None\<rparr>) else (rv, out))
       }
     })"

lemma parse_one_consumes:
  "tlv_parse_one out def buf = Some (rv, out') \<Longrightarrow> rv < 0 \<or> (1 \<le> rv \<and> rv \<le> int (length buf))"
  by (auto simp: tlv_parse_one_def parse_tlv_def parse_tl16v_def mem_at_def Let_def bind_Some_iff
      Suc_le_eq split: if_splits tlv_type.splits)

text \<open>The loop that looks for the first array without the element.\<close>

fun store_ie :: "tlv_parsed list \<Rightarrow> u8 \<Rightarrow> tlv_p_entry \<Rightarrow> tlv_parsed list" where
  "store_ie [] tag e = []"
| "store_ie (d # ds) tag e = (if lv_val (d tag) \<noteq> None then d # store_ie ds tag e else d(tag := e) # ds)"

text \<open>The loop of the initial elements without a tag, which stores into the first array always.\<close>

definition store_lv :: "tlv_parsed list \<Rightarrow> u8 \<Rightarrow> tlv_p_entry \<Rightarrow> tlv_parsed list" where
  "store_lv ds tag e =
    (if \<exists>d \<in> set ds. lv_val (d tag) = None then (hd ds)(tag := e) # tl ds else ds)"

text \<open>An initial length and value, at the front of what is left of the buffer: the error, or what
  is left behind it.\<close>

definition parse_lv :: "tlv_parsed list \<Rightarrow> u8 \<Rightarrow> u8 list \<Rightarrow> (int + u8 list \<times> tlv_parsed list) option" where
  "parse_lv ds lv_tag buf = do {
     l \<leftarrow> mem_at buf 0;
     if length buf < unat l + 1 then Some (Inl OSMO_TLVP_ERR_OFS_LEN_BEYOND_BUFFER)
     else Some (Inr (drop (unat l + 1) buf, store_lv ds lv_tag \<lparr>lv_len = ucast l, lv_val = Some (drop 1 buf)\<rparr>))
   }"

function parse_loop :: "tlv_definition \<Rightarrow> tlv_out \<Rightarrow> u8 list \<Rightarrow> int \<Rightarrow> tlv_parsed list \<Rightarrow> (int \<times> tlv_parsed list) option" where
  "parse_loop def out buf num ds =
    (if buf = [] then Some (num, ds)
     else case tlv_parse_one out def buf of
         None \<Rightarrow> None
       | Some (rv, out') \<Rightarrow>
           if rv < 0 then Some (rv, ds)
           else parse_loop def out' (drop (nat rv) buf) (num + 1)
             (store_ie ds (o_tag out') \<lparr>lv_len = o_len out', lv_val = o_val out'\<rparr>))"
  by pat_completeness auto

termination by (relation "measure (\<lambda>(def, out, buf, num, ds). length buf)") (auto dest!: parse_one_consumes)

declare parse_loop.simps [simp del]

definition tlv_parse2 ::
    "nat \<Rightarrow> tlv_definition \<Rightarrow> u8 list \<Rightarrow> u8 \<Rightarrow> u8 \<Rightarrow> (int \<times> tlv_parsed list) option" where
  "tlv_parse2 dec_multiples def buf lv_tag lv_tag2 =
    (let ds = replicate dec_multiples no_ies; out = \<lparr>o_tag = 0, o_len = 0, o_val = None\<rparr> in do {
       r1 \<leftarrow> (if lv_tag \<noteq> 0 then parse_lv ds lv_tag buf else Some (Inr (buf, ds)));
       case r1 of Inl e \<Rightarrow> Some (e, ds)
       | Inr (buf1, ds1) \<Rightarrow> do {
           r2 \<leftarrow> (if lv_tag2 \<noteq> 0 then parse_lv ds1 lv_tag2 buf1 else Some (Inr (buf1, ds1)));
           case r2 of Inl e \<Rightarrow> Some (e, ds1)
           | Inr (buf2, ds2) \<Rightarrow> parse_loop def out buf2 (of_bool (lv_tag \<noteq> 0) + of_bool (lv_tag2 \<noteq> 0)) ds2
         }
     })"

definition tlv_parse :: "tlv_definition \<Rightarrow> u8 list \<Rightarrow> u8 \<Rightarrow> u8 \<Rightarrow> (int \<times> tlv_parsed) option" where
  "tlv_parse def buf lv_tag lv_tag2 = map_option (\<lambda>(rc, ds). (rc, hd ds)) (tlv_parse2 1 def buf lv_tag lv_tag2)"

section \<open>Taking a message apart from the front\<close>

text \<open>Each returns the code of the function, the data that is left, and what it extracted.\<close>

definition osmo_shift_v_fixed :: "u8 list \<Rightarrow> nat \<Rightarrow> int \<times> u8 list \<times> u8 list option" where
  "osmo_shift_v_fixed data len =
    (if length data < len then (- 1, [], None) else (int len, drop len data, Some data))"

definition osmo_match_shift_tv_fixed :: "u8 list \<Rightarrow> u8 \<Rightarrow> nat \<Rightarrow> int \<times> u8 list \<times> u8 list option" where
  "osmo_match_shift_tv_fixed data tag len =
    (case data of [] \<Rightarrow> (- 1, [], None)
     | t # rest \<Rightarrow>
         if t \<noteq> tag then (0, data, None)
         else if length rest < len then (- 1, [], None)
         else (int len + 1, drop len rest, Some rest))"

definition osmo_shift_tlv :: "u8 list \<Rightarrow> int \<times> u8 list \<times> (u8 \<times> u8 list \<times> nat) option" where
  "osmo_shift_tlv data =
    (case data of t # l # rest \<Rightarrow>
         if length rest < unat l then (- 1, [], None)
         else (int (unat l) + 2, drop (unat l) rest, Some (t, rest, unat l))
     | _ \<Rightarrow> (- 1, [], None))"

definition osmo_match_shift_tlv :: "u8 list \<Rightarrow> u8 \<Rightarrow> int \<times> u8 list \<times> (u8 list \<times> nat) option" where
  "osmo_match_shift_tlv data expected_tag =
    (case osmo_shift_tlv data of
       (rc, rest, None) \<Rightarrow> (rc, rest, None)
     | (rc, rest, Some (t, v)) \<Rightarrow> if 0 < rc \<and> t \<noteq> expected_tag then (0, data, Some v) else (rc, rest, Some v))"

definition osmo_shift_lv :: "u8 list \<Rightarrow> int \<times> u8 list \<times> (u8 list \<times> nat) option" where
  "osmo_shift_lv data =
    (case data of [] \<Rightarrow> (- 1, [], None)
     | l # rest \<Rightarrow>
         if length rest < unat l then (- 1, [], None)
         else (int (unat l) + 1, drop (unat l) rest, Some (rest, unat l)))"

section \<open>Copies of parsed messages\<close>

text \<open>The copy is zeroed memory, so its own value pointer, which the code tests, is \<open>NULL\<close>.\<close>

definition copy_entry :: "tlv_p_entry \<Rightarrow> tlv_p_entry option" where
  "copy_entry e =
    (let out = \<lparr>lv_len = lv_len e, lv_val = None\<rparr> in
     if lv_len e \<noteq> 0 \<and> lv_val out \<noteq> None
     then do { v \<leftarrow> lv_val e; v \<leftarrow> mem_read v 0 (unat (lv_len e)); Some (out\<lparr>lv_val := Some v\<rparr>) }
     else Some out)"

definition osmo_tlvp_copy :: "tlv_parsed option \<Rightarrow> tlv_parsed option" where
  "osmo_tlvp_copy tp_orig =
    (case tp_orig of None \<Rightarrow> Some no_ies
     | Some tp \<Rightarrow>
         if list_all (\<lambda>i. copy_entry (tp i) \<noteq> None) all_tags then Some (\<lambda>i. the (copy_entry (tp i))) else None)"

text \<open>The length of the destination is cleared with the value it replaces, and not set.\<close>

definition merge_entry :: "tlv_p_entry \<Rightarrow> tlv_p_entry \<Rightarrow> tlv_p_entry option" where
  "merge_entry d s =
    (case lv_val s of None \<Rightarrow> Some d
     | Some v \<Rightarrow>
         if lv_len s = 0 then Some d
         else do {
           v \<leftarrow> mem_read v 0 (unat (lv_len s));
           Some \<lparr>lv_len = (if lv_val d \<noteq> None then 0 else lv_len d), lv_val = Some v\<rparr>
         })"

definition osmo_tlvp_merge :: "tlv_parsed \<Rightarrow> tlv_parsed \<Rightarrow> (int \<times> tlv_parsed) option" where
  "osmo_tlvp_merge dst src =
    (if list_all (\<lambda>i. merge_entry (dst i) (src i) \<noteq> None) all_tags
     then Some (0, \<lambda>i. the (merge_entry (dst i) (src i))) else None)"

section \<open>Encoding\<close>

record tmsg =
  m_data :: "u8 list"
  m_room :: nat

text \<open>Extend the message by \<open>n\<close> octets and write octets from where it ended. The functions
  never write fewer octets than they claim; more run into the room behind.\<close>

definition msgb_put_octets :: "tmsg \<Rightarrow> nat \<Rightarrow> u8 list \<Rightarrow> tmsg option" where
  "msgb_put_octets msg n bs =
    (if m_room msg < n \<or> m_room msg < length bs then None
     else Some \<lparr>m_data = m_data msg @ take n bs, m_room = m_room msg - n\<rparr>)"

definition msgb_v_put :: "tmsg \<Rightarrow> u8 \<Rightarrow> tmsg option" where
  "msgb_v_put msg v = msgb_put_octets msg 1 [v]"

definition msgb_tv_put :: "tmsg \<Rightarrow> u8 \<Rightarrow> u8 \<Rightarrow> tmsg option" where
  "msgb_tv_put msg tag v = msgb_put_octets msg 2 [tag, v]"

definition msgb_tv_fixed_put :: "tmsg \<Rightarrow> u8 \<Rightarrow> nat \<Rightarrow> u8 list \<Rightarrow> tmsg option" where
  "msgb_tv_fixed_put msg tag len v = do { v \<leftarrow> mem_read v 0 len; msgb_put_octets msg (1 + len) (tag # v) }"

definition msgb_tlv_put :: "tmsg \<Rightarrow> u8 \<Rightarrow> u8 \<Rightarrow> u8 list \<Rightarrow> tmsg option" where
  "msgb_tlv_put msg tag len v = do {
     v \<leftarrow> mem_read v 0 (unat len); msgb_put_octets msg (unat len + 2) (tag # len # v) }"

definition msgb_tl16v_put :: "tmsg \<Rightarrow> u8 \<Rightarrow> u16 \<Rightarrow> u8 list \<Rightarrow> tmsg option" where
  "msgb_tl16v_put msg tag len v = do {
     v \<leftarrow> mem_read v 0 (unat len);
     msgb_put_octets msg (unat len + 3) (tag # ucast (drop_bit 8 len) # ucast (len AND 0xff) # v) }"

definition TVLV_GROSS_LEN :: "u16 \<Rightarrow> u16" where
  "TVLV_GROSS_LEN len = (if len \<le> 0x7f then len + 2 else len + 3)"

definition msgb_tvlv_put :: "tmsg \<Rightarrow> u8 \<Rightarrow> u16 \<Rightarrow> u8 list \<Rightarrow> tmsg option" where
  "msgb_tvlv_put msg tag len v = do {
     v \<leftarrow> mem_read v 0 (unat len);
     msgb_put_octets msg (unat (TVLV_GROSS_LEN len))
       (if len \<le> 0x7f then tag # (ucast len OR 0x80) # v
        else tag # ucast (drop_bit 8 len) # ucast (len AND 0xff) # v) }"

definition VTVLV_GAN_GROSS_LEN :: "u16 \<Rightarrow> u16 \<Rightarrow> u16" where
  "VTVLV_GAN_GROSS_LEN tag len = (if len \<le> 0x7f then len + 2 else len + 3) + of_bool (0x7f < tag)"

definition vt_gan_put :: "u16 \<Rightarrow> u8 list" where
  "vt_gan_put tag = (if 0x7f < tag then [0x80 OR ucast (drop_bit 8 tag), ucast (tag AND 0xff)] else [ucast tag])"

definition msgb_vtvlv_gan_put :: "tmsg \<Rightarrow> u16 \<Rightarrow> u16 \<Rightarrow> u8 list \<Rightarrow> tmsg option" where
  "msgb_vtvlv_gan_put msg tag len v = do {
     v \<leftarrow> mem_read v 0 (unat len);
     msgb_put_octets msg (unat (VTVLV_GAN_GROSS_LEN tag len)) (vt_gan_put tag @ vt_gan_put len @ v) }"

definition tlv_encode_one :: "tmsg \<Rightarrow> tlv_type \<Rightarrow> u8 \<Rightarrow> u16 \<Rightarrow> u8 list \<Rightarrow> (int \<times> tmsg) option" where
  "tlv_encode_one msg ty tag len v =
    map_option (\<lambda>msg. (0, msg)) (case ty of
       TLV_TYPE_NONE \<Rightarrow> Some msg
     | TLV_TYPE_FIXED \<Rightarrow> msgb_tv_fixed_put msg tag (unat len) v
     | TLV_TYPE_T \<Rightarrow> msgb_v_put msg tag
     | TLV_TYPE_TV \<Rightarrow> do { v0 \<leftarrow> mem_at v 0; msgb_tv_put msg tag v0 }
     | TLV_TYPE_TLV \<Rightarrow> msgb_tlv_put msg tag (ucast len) v
     | TLV_TYPE_TL16V \<Rightarrow> msgb_tl16v_put msg tag len v
     | TLV_TYPE_TvLV \<Rightarrow> msgb_tvlv_put msg tag len v
     | TLV_TYPE_SINGLE_TV \<Rightarrow> do { v0 \<leftarrow> mem_at v 0; msgb_v_put msg (push_bit 4 tag OR (v0 AND 0xf)) }
     | TLV_TYPE_vTvLV_GAN \<Rightarrow> msgb_vtvlv_gan_put msg (ucast tag) len v)"

text \<open>The elements of a list of tags; with all tags in ascending order it is \<open>tlv_encode\<close>.\<close>

fun encode_tags :: "tlv_definition \<Rightarrow> tlv_parsed \<Rightarrow> u8 list \<Rightarrow> tmsg \<Rightarrow> (int \<times> tmsg) option" where
  "encode_tags def tp [] msg = Some (0, msg)"
| "encode_tags def tp (tag # tags) msg =
    (case lv_val (tp tag) of
       None \<Rightarrow> encode_tags def tp tags msg
     | Some v \<Rightarrow> do {
         (rc, msg) \<leftarrow> tlv_encode_one msg (tlv_ty (def tag)) tag (lv_len (tp tag)) v;
         if rc < 0 then Some (rc, msg) else encode_tags def tp tags msg
       })"

definition tlv_encode_ordered :: "tmsg \<Rightarrow> tlv_definition \<Rightarrow> tlv_parsed \<Rightarrow> u8 list \<Rightarrow> (int \<times> tmsg) option" where
  "tlv_encode_ordered msg def tp tag_order = do {
     (rc, msg') \<leftarrow> encode_tags def tp tag_order msg;
     Some (if rc < 0 then rc else int (m_room msg) - int (m_room msg'), msg')
   }"

definition tlv_encode :: "tmsg \<Rightarrow> tlv_definition \<Rightarrow> tlv_parsed \<Rightarrow> (int \<times> tmsg) option" where
  "tlv_encode msg def tp = do {
     (rc, msg') \<leftarrow> encode_tags def tp all_tags msg;
     Some (if rc < 0 then rc else int (m_room msg) - int (m_room msg'), msg')
   }"

section \<open>Validation against the definition of a protocol\<close>

text \<open>The mandatory elements of each message and the shortest length of each element; names and
  flags, which only messages to the user show, are left out.\<close>

record tlv_prot_def =
  prot_tlv_def :: tlv_definition
  mand_ies :: "u8 \<Rightarrow> u8 list option"
  min_len :: "u8 \<Rightarrow> u16"

text \<open>The value the function returns is the first error: of the mandatory elements, else of a length.\<close>

definition osmo_tlv_prot_validate_tp :: "tlv_prot_def \<Rightarrow> u8 \<Rightarrow> tlv_parsed \<Rightarrow> int" where
  "osmo_tlv_prot_validate_tp pdef msg_type tp =
    (let err = (if list_ex (\<lambda>iei. lv_val (tp iei) = None) (case mand_ies pdef msg_type of None \<Rightarrow> [] | Some ies \<Rightarrow> ies)
           then OSMO_TLVP_ERR_MAND_IE_MISSING else 0)
     in if list_ex (\<lambda>i. lv_val (tp i) \<noteq> None \<and> lv_len (tp i) < min_len pdef i) all_tags \<and> err = 0
        then OSMO_TLVP_ERR_IE_TOO_SHORT else err)"

definition osmo_tlv_prot_parse ::
    "tlv_prot_def \<Rightarrow> nat \<Rightarrow> u8 \<Rightarrow> u8 list \<Rightarrow> u8 \<Rightarrow> u8 \<Rightarrow> (int \<times> tlv_parsed list) option" where
  "osmo_tlv_prot_parse pdef dec_multiples msg_type buf lv_tag lv_tag2 = do {
     (rc, ds) \<leftarrow> tlv_parse2 dec_multiples (prot_tlv_def pdef) buf lv_tag lv_tag2;
     if rc < 0 then Some (rc, ds)
     else do { d \<leftarrow> mem_at ds 0; Some (osmo_tlv_prot_validate_tp pdef msg_type d, ds) }
   }"

section \<open>The parser stays inside the buffer\<close>

text \<open>A pointer into the buffer with at least the octets its length names behind it.\<close>

definition entry_within :: "u8 list \<Rightarrow> tlv_p_entry \<Rightarrow> bool" where
  "entry_within buf e \<longleftrightarrow> (\<forall>v. lv_val e = Some v \<longrightarrow> suffix v buf \<and> unat (lv_len e) \<le> length v)"

definition ies_within :: "u8 list \<Rightarrow> tlv_parsed list \<Rightarrow> bool" where
  "ies_within buf ds \<longleftrightarrow> (\<forall>d \<in> set ds. \<forall>tag. entry_within buf (d tag))"

lemma within_no_ies: "ies_within buf (replicate n no_ies)"
  by (simp add: ies_within_def entry_within_def no_ies_def)

lemma store_ie_within: "ies_within buf ds \<Longrightarrow> entry_within buf e \<Longrightarrow> ies_within buf (store_ie ds tag e)"
  by (induction ds) (auto simp: ies_within_def)

lemma length_store_ie [simp]: "length (store_ie ds tag e) = length ds"
  by (induction ds) auto

lemma store_lv_within: "ies_within buf ds \<Longrightarrow> entry_within buf e \<Longrightarrow> ies_within buf (store_lv ds tag e)"
  by (cases ds) (auto simp: ies_within_def store_lv_def)

lemma length_store_lv [simp]: "length (store_lv ds tag e) = length ds"
  by (cases ds) (auto simp: store_lv_def)

lemma unat_tl16: "unat (push_bit 8 (ucast (h :: u8)) OR ucast (l :: u8) :: u16) = unat h * 256 + unat l"
proof -
  have "push_bit 8 (ucast h) OR ucast l = (push_bit 8 (ucast h) + ucast l :: u16)"
    by (rule disjunctive_add [symmetric]) (auto simp: bit_simps dest: bit_imp_le_length)
  also have "unat \<dots> = unat h * 256 + unat l"
    using unat_u8_less [of h] unat_u8_less [of l]
    by (simp add: push_bit_eq_mult unat_word_ariths unat_ucast_small)
  finally show ?thesis .
qed

lemma unat_u16_u8 [simp]: "unat (ucast (b :: u8) :: u16) = unat b"
  using unat_u8_less [of b] by (simp add: unat_ucast_small)

lemma parse_one_total: "\<exists>rv out'. tlv_parse_one out def buf = Some (rv, out')"
  by (auto simp: tlv_parse_one_def parse_tlv_def parse_tl16v_def mem_at_def Let_def Suc_le_eq split: tlv_type.splits)

lemma parse_one_within:
  "tlv_parse_one out def buf = Some (rv, out') \<Longrightarrow> 0 \<le> rv \<Longrightarrow> entry_within buf \<lparr>lv_len = o_len out', lv_val = o_val out'\<rparr>"
  by (auto simp: tlv_parse_one_def parse_tlv_def parse_tl16v_def mem_at_def Let_def bind_Some_iff entry_within_def
      Suc_le_eq suffix_drop unat_u16_u8 simp del: of_nat_unat split: if_splits tlv_type.splits)

lemma parse_loop_within:
  assumes "suffix buf whole" "ies_within whole ds"
  shows "\<exists>n ds'. parse_loop def out buf num ds = Some (n, ds') \<and> ies_within whole ds' \<and> length ds' = length ds"
  using assms
proof (induction def out buf num ds rule: parse_loop.induct)
  case (1 def out buf num ds)
  show ?case
  proof (cases "buf = []")
    case True
    then show ?thesis using 1(3) by (simp add: parse_loop.simps [of _ _ "[]"])
  next
    case False
    obtain rv out' where r: "tlv_parse_one out def buf = Some (rv, out')" using parse_one_total by blast
    show ?thesis
    proof (cases "rv < 0")
      case True
      then show ?thesis using False r 1(3) by (simp add: parse_loop.simps [of _ _ buf])
    next
      case rv: False
      let ?e = "\<lparr>lv_len = o_len out', lv_val = o_val out'\<rparr>"
      have "entry_within whole ?e"
        using parse_one_within [OF r] rv 1(2) by (auto simp: entry_within_def intro: suffix_order.trans)
      moreover have "suffix (drop (nat rv) buf) whole" using 1(2) suffix_drop suffix_order.trans by blast
      ultimately show ?thesis
        using 1(1) [OF False r refl rv] store_ie_within [OF 1(3)] False r rv
        by (simp add: parse_loop.simps [of _ _ buf])
    qed
  qed
qed

lemma parse_lv_cases:
  assumes "suffix buf whole" "ies_within whole ds"
  obtains (missing) "buf = []" "parse_lv ds t buf = None"
  | (short) "buf \<noteq> []" "length buf \<noteq> unat (hd buf) + 1" "parse_lv ds t buf = Some (Inl (- 2))"
  | (stored) rest ds' where "buf \<noteq> []" "parse_lv ds t buf = Some (Inr (rest, ds'))"
      "suffix rest whole" "rest = [] \<longleftrightarrow> length buf = unat (hd buf) + 1" "ies_within whole ds'" "length ds' = length ds"
proof (cases buf)
  case Nil
  then show ?thesis using missing by (simp add: parse_lv_def mem_at_def)
next
  case (Cons l v)
  show ?thesis
  proof (cases "length v < unat l")
    case True
    then show ?thesis using short Cons by (simp add: parse_lv_def mem_at_def)
  next
    case False
    have v: "suffix v whole" using assms(1) Cons by (metis suffix_ConsD)
    then have "entry_within whole \<lparr>lv_len = ucast l, lv_val = Some v\<rparr>" using False by (simp add: entry_within_def)
    moreover have "suffix (drop (unat l) v) whole" using v suffix_drop suffix_order.trans by blast
    ultimately show ?thesis
      using stored [of "drop (unat l) v" "store_lv ds t \<lparr>lv_len = ucast l, lv_val = Some v\<rparr>"]
        store_lv_within [OF assms(2)] Cons False by (simp add: parse_lv_def mem_at_def)
  qed
qed

text \<open>The parser reads an octet behind the buffer exactly when an initial element is asked for and
  nothing is left for it.\<close>

definition lv_missing :: "u8 list \<Rightarrow> u8 \<Rightarrow> u8 \<Rightarrow> bool" where
  "lv_missing buf lv_tag lv_tag2 \<longleftrightarrow>
    (if lv_tag \<noteq> 0 then buf = [] \<or> (lv_tag2 \<noteq> 0 \<and> length buf = unat (hd buf) + 1) else lv_tag2 \<noteq> 0 \<and> buf = [])"

text \<open>C34. Whatever the definition of the elements and the octets received, the parser reads outside of
  the buffer in one case only, which is an initial element that is asked for behind the end of the
  buffer; otherwise it returns, and every element it has stored, even when it reports an error, is a
  pointer into the buffer with the whole of its length inside.\<close>

theorem tlv_parse_within:
  "(tlv_parse2 n def buf lv_tag lv_tag2 = None \<longleftrightarrow> lv_missing buf lv_tag lv_tag2) \<and>
   (\<forall>rc ds. tlv_parse2 n def buf lv_tag lv_tag2 = Some (rc, ds) \<longrightarrow>
     length ds = n \<and> (\<forall>d \<in> set ds. \<forall>tag v. lv_val (d tag) = Some v \<longrightarrow> suffix v buf \<and> unat (lv_len (d tag)) \<le> length v))"
proof -
  let ?ok = "\<lambda>r. \<exists>rc ds. r = Some (rc, ds) \<and> ies_within buf ds \<and> length ds = n"
  let ?ds = "replicate n no_ies" and ?out = "\<lparr>o_tag = 0, o_len = 0, o_val = None\<rparr>"
  have loop: "?ok (parse_loop def ?out b k ds)" if "suffix b buf" "ies_within buf ds" "length ds = n" for b k ds
    using parse_loop_within [OF that(1,2)] that(3) by metis
  let ?second = "\<lambda>b ds k. do {
           r2 \<leftarrow> (if lv_tag2 \<noteq> 0 then parse_lv ds lv_tag2 b else Some (Inr (b, ds)));
           case r2 of Inl e \<Rightarrow> Some (e, ds)
           | Inr (buf2, ds2) \<Rightarrow> parse_loop def ?out buf2 k ds2 }"
  have second: "if lv_tag2 \<noteq> 0 \<and> b = [] then ?second b ds k = None else ?ok (?second b ds k)"
    if b: "suffix b buf" "ies_within buf ds" "length ds = n" for b ds k
  proof (cases "lv_tag2 = 0")
    case True
    then show ?thesis using loop [OF b] by simp
  next
    case False
    from b(1,2) show ?thesis
      by (cases rule: parse_lv_cases [where t = lv_tag2]) (use False b loop in auto)
  qed
  have *: "if lv_missing buf lv_tag lv_tag2 then tlv_parse2 n def buf lv_tag lv_tag2 = None
    else ?ok (tlv_parse2 n def buf lv_tag lv_tag2)"
  proof (cases "lv_tag = 0")
    case True
    then show ?thesis using second [of buf ?ds "of_bool (lv_tag2 \<noteq> 0)"] within_no_ies
      by (auto simp: tlv_parse2_def lv_missing_def Let_def)
  next
    case False
    from suffix_order.refl within_no_ies [of buf n] show ?thesis
    proof (cases rule: parse_lv_cases [where t = lv_tag])
      case (stored rest ds')
      then show ?thesis using False second [of rest ds' "1 + of_bool (lv_tag2 \<noteq> 0)"]
        by (auto simp: tlv_parse2_def lv_missing_def Let_def)
    qed (use False in \<open>simp_all add: tlv_parse2_def lv_missing_def Let_def within_no_ies\<close>)
  qed
  then show ?thesis by (auto simp: ies_within_def entry_within_def split: if_splits)
qed

lemma tlv_parse_within_witness:
  "\<exists>d. tlv_parse2 1 tvlv_att_def [5, 0x81, 7] 0 0 = Some (1, [d]) \<and> lv_val (d 5) = Some [7] \<and> unat (lv_len (d 5)) \<le> 1"
proof -
  have "\<exists>d. tlv_parse2 1 tvlv_att_def [5, 0x81, 7] 0 0 = Some (1, [d]) \<and> lv_val (d 5) = Some [7]"
    by (simp add: tlv_parse2_def Let_def parse_loop.simps [of _ _ "[]"] parse_loop.simps [of _ _ "x # xs" for x xs]
      tlv_parse_one_def tvlv_att_def_def mem_at_def no_ies_def)
  then obtain d where d: "tlv_parse2 1 tvlv_att_def [5, 0x81, 7] 0 0 = Some (1, [d])" "lv_val (d 5) = Some [7]" by blast
  from tlv_parse_within [of 1 tvlv_att_def "[5, 0x81, 7]" 0 0] d(1)
  have "\<forall>v. lv_val (d 5) = Some v \<longrightarrow> unat (lv_len (d 5)) \<le> length v" by simp
  with d show ?thesis by simp
qed

section \<open>Encoding and parsing\<close>

definition ie_value :: "tlv_p_entry \<Rightarrow> u8 list option" where
  "ie_value e = map_option (take (unat (lv_len e))) (lv_val e)"

text \<open>The elements that the definition of their tag can carry.\<close>

fun carries :: "tlv_type \<Rightarrow> u8 \<Rightarrow> u8 \<Rightarrow> u16 \<Rightarrow> bool" where
  "carries TLV_TYPE_FIXED flen tag len \<longleftrightarrow> len = ucast flen"
| "carries TLV_TYPE_T flen tag len \<longleftrightarrow> len = 0"
| "carries TLV_TYPE_TV flen tag len \<longleftrightarrow> len = 1"
| "carries TLV_TYPE_TLV flen tag len \<longleftrightarrow> len < 0x100"
| "carries TLV_TYPE_TL16V flen tag len \<longleftrightarrow> True"
| "carries TLV_TYPE_TvLV flen tag len \<longleftrightarrow> len < 0x8000"
| "carries TLV_TYPE_vTvLV_GAN flen tag len \<longleftrightarrow> len < 0x8000 \<and> tag < 0x80"
| "carries _ flen tag len \<longleftrightarrow> False"

definition encodable :: "tlv_definition \<Rightarrow> u8 \<Rightarrow> tlv_p_entry \<Rightarrow> bool" where
  "encodable def tag e \<longleftrightarrow> carries (tlv_ty (def tag)) (fixed_len (def tag)) tag (lv_len e) \<and>
    tlv_ty (def (tag AND 0xf0)) \<noteq> TLV_TYPE_SINGLE_TV \<and>
    (case lv_val e of None \<Rightarrow> False | Some v \<Rightarrow> unat (lv_len e) \<le> length v)"

text \<open>The octets of the header of an element.\<close>

definition tl16 :: "u16 \<Rightarrow> u8 list" where
  "tl16 len = [ucast (drop_bit 8 len), ucast (len AND 0xff)]"

fun ie_header :: "tlv_type \<Rightarrow> u8 \<Rightarrow> u16 \<Rightarrow> u8 list" where
  "ie_header TLV_TYPE_TLV tag len = [tag, ucast len]"
| "ie_header TLV_TYPE_TL16V tag len = tag # tl16 len"
| "ie_header TLV_TYPE_TvLV tag len = (if len \<le> 0x7f then [tag, ucast len OR 0x80] else tag # tl16 len)"
| "ie_header TLV_TYPE_vTvLV_GAN tag len = vt_gan_put (ucast tag) @ vt_gan_put len"
| "ie_header _ tag len = [tag]"

definition ie_octets :: "tlv_definition \<Rightarrow> tlv_parsed \<Rightarrow> u8 \<Rightarrow> u8 list" where
  "ie_octets def tp tag = (case ie_value (tp tag) of None \<Rightarrow> [] | Some v \<Rightarrow> ie_header (tlv_ty (def tag)) tag (lv_len (tp tag)) @ v)"

lemma u16_le: "(x :: u16) \<le> 0x7f \<longleftrightarrow> unat x < 0x80" "(x :: u16) < 0x8000 \<longleftrightarrow> unat x < 0x8000" "(0x7f :: u16) < x \<longleftrightarrow> 0x7f < unat x"
  "(y :: u8) < 0x80 \<longleftrightarrow> unat y < 0x80" "x < 0x100 \<longleftrightarrow> unat x < 0x100"
  by (auto simp: word_le_nat_alt word_less_nat_alt)

lemma encode_one_octets:
  assumes "encodable def tag e" "lv_val e = Some v"
  shows "tlv_encode_one msg (tlv_ty (def tag)) tag (lv_len e) v =
    (let bs = ie_header (tlv_ty (def tag)) tag (lv_len e) @ take (unat (lv_len e)) v in
     if m_room msg < length bs then None else Some (0, \<lparr>m_data = m_data msg @ bs, m_room = m_room msg - length bs\<rparr>))"
proof -
  let ?l = "lv_len e" 
  have v: "unat ?l \<le> length v" using assms by (simp add: encodable_def)
  have g: "unat (TVLV_GROSS_LEN ?l) = unat ?l + (if ?l \<le> 0x7f then 2 else 3)" if "?l < 0x8000"
    using that by (simp add: TVLV_GROSS_LEN_def u16_le unat_word_ariths)
  have t: "\<not> (0x7f :: u16) < ucast tag" if "tag < 0x80" using that by (simp add: u16_le)
  have gg: "unat (VTVLV_GAN_GROSS_LEN (ucast tag) ?l) = unat ?l + (if ?l \<le> 0x7f then 2 else 3)" if "?l < 0x8000" "tag < 0x80"
    using that t by (simp add: VTVLV_GAN_GROSS_LEN_def u16_le unat_word_ariths)
  show ?thesis using assms(1) v
  proof (cases "tlv_ty (def tag)")
    case TLV_TYPE_vTvLV_GAN
    then show ?thesis using assms(1) v gg t
      by (auto simp: tlv_encode_one_def encodable_def msgb_vtvlv_gan_put_def msgb_put_octets_def vt_gan_put_def mem_simps mem_read_def Let_def)
  next
    case TLV_TYPE_TvLV
    then show ?thesis using assms(1) v g
      by (auto simp: tlv_encode_one_def encodable_def msgb_tvlv_put_def msgb_put_octets_def tl16_def mem_read_def Let_def)
  qed (auto simp: tlv_encode_one_def encodable_def msgb_put_octets_def msgb_v_put_def msgb_tv_put_def msgb_tv_fixed_put_def
      msgb_tlv_put_def msgb_tl16v_put_def tl16_def mem_read_def mem_at_def Let_def u16_le unat_ucast_small take_Suc_conv_app_nth)
qed

lemma mask_bits: "bit (255 :: int) n \<longleftrightarrow> n < 8" "bit (128 :: int) n \<longleftrightarrow> n = 7" "bit (127 :: int) n \<longleftrightarrow> n < 7"
proof -
  have "bit (mask 8 :: int) n \<longleftrightarrow> n < 8" by (simp only: bit_mask_iff) auto
  then show "bit (255 :: int) n \<longleftrightarrow> n < 8" by (simp add: mask_eq_exp_minus_1)
  have "bit (push_bit 7 1 :: int) n \<longleftrightarrow> n = 7" by (simp only: bit_push_bit_iff bit_1_iff) auto
  then show "bit (128 :: int) n \<longleftrightarrow> n = 7" by simp
  have "bit (mask 7 :: int) n \<longleftrightarrow> n < 7" by (simp only: bit_mask_iff) auto
  then show "bit (127 :: int) n \<longleftrightarrow> n < 7" by (simp add: mask_eq_exp_minus_1)
qed

lemma bit_u16_small:
  assumes "unat (x :: u16) < 2 ^ k" "bit x n"
  shows "n < k"
proof -
  have "take_bit k x = x" using assms(1) by (simp add: word_unat_eq_iff unsigned_take_bit_eq take_bit_nat_eq_self)
  then show ?thesis using assms(2) by (metis bit_take_bit_iff)
qed

lemma tl16_back: "push_bit 8 (ucast (ucast (drop_bit 8 l) :: u8)) OR ucast (ucast (l AND 0xff) :: u8) = (l :: u16)"
  by (rule bit_eqI) (auto simp: bit_simps mask_bits not_less dest: bit_imp_le_length)

lemma tl16_back_masked:
  assumes "l < (0x8000 :: u16)"
  shows "push_bit 8 (ucast ((0x80 OR ucast (drop_bit 8 l)) AND 0x7F :: u8)) OR ucast (ucast (l AND 0xff) :: u8) = l"
proof -
  have len: "unat l < 32768" using assms by (simp add: word_less_nat_alt)
  show ?thesis
    by (rule bit_eqI) (auto simp: bit_simps mask_bits not_less dest: bit_imp_le_length bit_u16_small [of l 15, simplified, OF len])
qed

lemma tl8_back:
  assumes "l \<le> (0x7f :: u16)"
  shows "ucast ((ucast l OR 0x80) AND 0x7f :: u8) = l"
proof -
  have len: "unat l < 128" using assms by (simp add: word_le_nat_alt)
  show ?thesis
    by (rule bit_eqI) (auto simp: bit_simps mask_bits dest: bit_imp_le_length bit_u16_small [of l 7, simplified, OF len])
qed

lemma tl_flag: "bit (ucast (l :: u16) OR 0x80 :: u8) 7" "bit (0x80 OR ucast (drop_bit 8 l) :: u8) 7"
  by (simp_all add: bit_simps mask_bits)

lemma tl16_no_flag: "l < 0x8000 \<Longrightarrow> \<not> bit (ucast (drop_bit 8 (l :: u16)) :: u8) 7"
  using bit_u16_small [of l 15 15] by (auto simp: bit_simps word_less_nat_alt)

lemma tl8_no_flag: "l \<le> 0x7f \<Longrightarrow> \<not> bit (ucast (l :: u16) :: u8) 7"
  using bit_u16_small [of l 7 7] by (auto simp: bit_simps word_le_nat_alt)

lemma parse_tl16v_octets:
  assumes "push_bit 8 (ucast (h AND lmask)) OR ucast l = len"
  shows "parse_tl16v out lmask (t # h # l # w) = Some (int (unat len) + 3, out\<lparr>o_val := Some w, o_len := len\<rparr>)"
  using assms by (simp add: parse_tl16v_def mem_at_def Let_def)

lemma and_ff: "(h :: u8) AND 0xFF = h"
  by (rule bit_eqI) (auto simp: bit_simps mask_bits dest: bit_imp_le_length)

lemma tl16_back_ff:
  "push_bit 8 (ucast (ucast (drop_bit 8 l) AND 0xFF :: u8)) OR ucast (ucast (l AND 0xff) :: u8) = (l :: u16)"
  by (simp only: and_ff tl16_back)

lemma parse_one_octets:
  assumes "encodable def tag e" "lv_val e = Some v"
  shows "\<exists>out' w. tlv_parse_one out def (ie_header (tlv_ty (def tag)) tag (lv_len e) @ take (unat (lv_len e)) v @ rest) =
      Some (int (length (ie_header (tlv_ty (def tag)) tag (lv_len e)) + unat (lv_len e)), out') \<and>
    o_tag out' = tag \<and> o_len out' = lv_len e \<and> o_val out' = Some w \<and> take (unat (lv_len e)) w = take (unat (lv_len e)) v"
proof -
  let ?l = "lv_len e" let ?v = "take (unat ?l) v"
  have v: "unat ?l \<le> length v" "tlv_ty (def (tag AND 0xf0)) \<noteq> TLV_TYPE_SINGLE_TV"
    and c: "carries (tlv_ty (def tag)) (fixed_len (def tag)) tag ?l"
    using assms by (simp_all add: encodable_def)
  note one = tlv_parse_one_def mem_at_def Let_def
  show ?thesis
  proof (cases "tlv_ty (def tag)")
    case TLV_TYPE_FIXED
    then show ?thesis using v c by (simp add: one)
  next
    case TLV_TYPE_T
    then show ?thesis using v c by (simp add: one)
  next
    case TLV_TYPE_TV
    then show ?thesis using v c by (simp add: one)
  next
    case TLV_TYPE_TLV
    then have "ucast (ucast ?l :: u8) = ?l" using c by (simp add: word_unat_eq_iff u16_le unat_ucast_small)
    moreover have "unat (ucast ?l :: u8) = unat ?l" using TLV_TYPE_TLV c by (simp add: u16_le unat_ucast_small)
    ultimately show ?thesis using v TLV_TYPE_TLV by (simp add: one parse_tlv_def del: of_nat_unat)
  next
    case TLV_TYPE_TL16V
    then show ?thesis using v by (simp add: one parse_tl16v_octets [OF tl16_back_ff] tl16_def)
  next
    case TLV_TYPE_TvLV
    show ?thesis
    proof (cases "?l \<le> 0x7f")
      case True
      note b = tl8_back [OF True]
      have "unat ((ucast ?l OR 0x80) AND 0x7f :: u8) = unat ?l" using arg_cong [OF b, of unat] by simp
      with v TLV_TYPE_TvLV True show ?thesis by (simp add: one b tl_flag del: of_nat_unat)
    next
      case False
      with v TLV_TYPE_TvLV c show ?thesis
        by (simp add: one tl16_no_flag parse_tl16v_octets [OF tl16_back_ff] tl16_def)
    qed
  next
    case TLV_TYPE_vTvLV_GAN
    then have t: "vt_gan_put (ucast tag) = [tag]" and l: "?l < 0x8000"
      using c unat_u8_less [of tag] by (simp_all add: vt_gan_put_def u16_le word_unat_eq_iff unat_ucast_small)
    show ?thesis
    proof (cases "?l \<le> 0x7f")
      case True
      then have "ucast (ucast ?l :: u8) = ?l" "unat (ucast ?l :: u8) = unat ?l"
        by (simp_all add: word_unat_eq_iff u16_le unat_ucast_small)
      moreover have "vt_gan_put ?l = [ucast ?l]" using True by (simp add: vt_gan_put_def not_less)
      ultimately show ?thesis using v TLV_TYPE_vTvLV_GAN t tl8_no_flag [OF True]
        by (simp add: one parse_tlv_def del: of_nat_unat)
    next
      case False
      then have "vt_gan_put ?l = [0x80 OR ucast (drop_bit 8 ?l), ucast (?l AND 0xff)]" by (simp add: vt_gan_put_def)
      with v TLV_TYPE_vTvLV_GAN l t show ?thesis
        by (simp add: one tl_flag parse_tl16v_octets [OF tl16_back_masked])
    qed
  qed (use c in simp_all)
qed

lemma all_tags: "distinct all_tags" "set all_tags = UNIV"
proof -
  have "inj_on (of_nat :: nat \<Rightarrow> u8) {0..<256}"
    by (intro inj_onI) (auto dest!: arg_cong [of _ _ unat] simp: unat_of_nat)
  then show "distinct all_tags" by (simp add: all_tags_def distinct_map)
  have "x \<in> set all_tags" for x :: u8
    using unat_u8_less [of x] by (auto simp: all_tags_def intro!: image_eqI [of _ _ "unat x"])
  then show "set all_tags = UNIV" by blast
qed

definition present_tags :: "tlv_parsed \<Rightarrow> u8 list" where
  "present_tags tp = filter (\<lambda>i. TLVP_PRESENT tp i) all_tags"

lemma encode_tags_octets:
  assumes "\<forall>i \<in> set tags. TLVP_PRESENT tp i \<longrightarrow> encodable def i (tp i)"
    and "length (concat (map (ie_octets def tp) tags)) \<le> m_room msg"
  shows "encode_tags def tp tags msg = Some (0, \<lparr>m_data = m_data msg @ concat (map (ie_octets def tp) tags),
    m_room = m_room msg - length (concat (map (ie_octets def tp) tags))\<rparr>)"
  using assms
proof (induction tags arbitrary: msg)
  case (Cons tag tags)
  show ?case
  proof (cases "lv_val (tp tag)")
    case None
    then show ?thesis using Cons by (simp add: ie_octets_def ie_value_def)
  next
    case (Some v)
    have e: "encodable def tag (tp tag)" using Cons.prems(1) Some by simp
    have o: "ie_octets def tp tag = ie_header (tlv_ty (def tag)) tag (lv_len (tp tag)) @ take (unat (lv_len (tp tag))) v"
      using Some by (simp add: ie_octets_def ie_value_def)
    let ?msg = "\<lparr>m_data = m_data msg @ ie_octets def tp tag, m_room = m_room msg - length (ie_octets def tp tag)\<rparr>"
    have "tlv_encode_one msg (tlv_ty (def tag)) tag (lv_len (tp tag)) v = Some (0, ?msg)"
      unfolding encode_one_octets [OF e Some] Let_def o [symmetric] using Cons.prems(2) by simp
    moreover have "encode_tags def tp tags ?msg = Some (0, \<lparr>m_data = m_data ?msg @ concat (map (ie_octets def tp) tags),
      m_room = m_room ?msg - length (concat (map (ie_octets def tp) tags))\<rparr>)"
      by (rule Cons.IH) (use Cons.prems in auto)
    ultimately show ?thesis using Some by simp
  qed
qed simp

lemma parse_loop_step:
  "bs \<noteq> [] \<Longrightarrow> tlv_parse_one out def bs = Some (int k, out') \<Longrightarrow>
    parse_loop def out bs num ds = parse_loop def out' (drop k bs) (num + 1)
      (store_ie ds (o_tag out') \<lparr>lv_len = o_len out', lv_val = o_val out'\<rparr>)"
  by (simp add: parse_loop.simps [of _ _ bs])

lemma parse_loop_octets:
  assumes "distinct tags" "\<forall>i \<in> set tags. encodable def i (tp i) \<and> \<not> TLVP_PRESENT d i"
  shows "\<exists>d'. parse_loop def out (concat (map (ie_octets def tp) tags)) num [d] = Some (num + int (length tags), [d']) \<and>
    (\<forall>i. if i \<in> set tags then lv_len (d' i) = lv_len (tp i) \<and> ie_value (d' i) = ie_value (tp i) else d' i = d i)"
  using assms
proof (induction tags arbitrary: out num d)
  case Nil
  then show ?case by (simp add: parse_loop.simps [of _ _ "[]"])
next
  case (Cons tag tags)
  let ?rest = "concat (map (ie_octets def tp) tags)" and ?l = "lv_len (tp tag)"
  have e: "encodable def tag (tp tag)" using Cons.prems by simp
  then obtain v where v: "lv_val (tp tag) = Some v" by (auto simp: encodable_def split: option.splits)
  have len: "unat ?l \<le> length v" using e v by (simp add: encodable_def)
  let ?h = "ie_header (tlv_ty (def tag)) tag ?l"
  have o: "ie_octets def tp tag = ?h @ take (unat ?l) v" using v by (simp add: ie_octets_def ie_value_def)
  obtain out' w where p: "tlv_parse_one out def (ie_octets def tp tag @ ?rest) = Some (int (length ?h + unat ?l), out')"
    "o_tag out' = tag" "o_len out' = ?l" "o_val out' = Some w" "take (unat ?l) w = take (unat ?l) v"
    using parse_one_octets [OF e v, of out ?rest] by (auto simp: o)
  have ne: "ie_octets def tp tag @ ?rest \<noteq> []"
    by (cases "tlv_ty (def tag)") (simp_all add: o vt_gan_put_def)
  let ?d = "d(tag := \<lparr>lv_len = ?l, lv_val = Some w\<rparr>)"
  have dr: "drop (length ?h + unat ?l) (ie_octets def tp tag @ ?rest) = ?rest" using len by (simp add: o)
  have 1: "parse_loop def out (ie_octets def tp tag @ ?rest) num [d] = parse_loop def out' ?rest (num + 1) [?d]"
    unfolding parse_loop_step [OF ne p(1)] dr using p(2,3,4) Cons.prems(2) by simp
  obtain d' where "parse_loop def out' ?rest (num + 1) [?d] = Some (num + 1 + int (length tags), [d'])"
    "\<forall>i. if i \<in> set tags then lv_len (d' i) = lv_len (tp i) \<and> ie_value (d' i) = ie_value (tp i) else d' i = ?d i"
  proof -
    have "distinct tags" "\<forall>i \<in> set tags. encodable def i (tp i) \<and> \<not> TLVP_PRESENT ?d i" using Cons.prems by auto
    from Cons.IH [OF this, of out' "num + 1"] that show thesis by blast
  qed
  moreover have "ie_value \<lparr>lv_len = ?l, lv_val = Some w\<rparr> = ie_value (tp tag)" using v p(5) by (simp add: ie_value_def)
  ultimately show ?case using 1 Cons.prems(1) by (intro exI [of _ d']) auto
qed

lemma concat_present: "concat (map (ie_octets def tp) all_tags) = concat (map (ie_octets def tp) (present_tags tp))"
proof -
  have "concat (map (ie_octets def tp) ts) = concat (map (ie_octets def tp) (filter (\<lambda>i. TLVP_PRESENT tp i) ts))" for ts
    by (induction ts) (auto simp: ie_octets_def ie_value_def)
  then show ?thesis by (simp add: present_tags_def)
qed

lemma value_absent: "ie_value (no_ies i) = None" "lv_val e = None \<Longrightarrow> ie_value e = None"
  by (simp_all add: ie_value_def no_ies_def)

text \<open>C35. Encoding and parsing are inverse: a set of elements that their definitions can carry (no
  element of half an octet, no length or tag above what its header holds) and that fits into the
  message is encoded in full, and parsing the message finds exactly these elements, each with its
  length and its value, and nothing else.\<close>

theorem tlv_encode_parse:
  assumes "\<forall>i. TLVP_PRESENT tp i \<longrightarrow> encodable def i (tp i)"
    and "m_data msg = []" "length (concat (map (ie_octets def tp) all_tags)) \<le> m_room msg"
  shows "\<exists>msg' dec. tlv_encode msg def tp = Some (int (length (m_data msg')), msg') \<and>
    tlv_parse def (m_data msg') 0 0 = Some (int (length (present_tags tp)), dec) \<and>
    (\<forall>i. ie_value (dec i) = ie_value (tp i) \<and> (TLVP_PRESENT tp i \<longrightarrow> lv_len (dec i) = lv_len (tp i)))"
proof -
  let ?bs = "concat (map (ie_octets def tp) all_tags)"
  have 1: "tlv_encode msg def tp = Some (int (length ?bs), \<lparr>m_data = ?bs, m_room = m_room msg - length ?bs\<rparr>)"
    using encode_tags_octets [of all_tags tp def msg] assms by (simp add: tlv_encode_def all_tags)
  have "distinct (present_tags tp)" "set (present_tags tp) = {i. TLVP_PRESENT tp i}"
    by (simp_all add: present_tags_def all_tags)
  moreover obtain d' where d: "parse_loop def \<lparr>o_tag = 0, o_len = 0, o_val = None\<rparr> ?bs 0 [no_ies] = Some (int (length (present_tags tp)), [d'])"
    "\<forall>i. if i \<in> set (present_tags tp) then lv_len (d' i) = lv_len (tp i) \<and> ie_value (d' i) = ie_value (tp i) else d' i = no_ies i"
    using parse_loop_octets [of "present_tags tp" def tp no_ies "\<lparr>o_tag = 0, o_len = 0, o_val = None\<rparr>" 0] assms(1) calculation
    by (auto simp: concat_present no_ies_def)
  moreover have "ie_value (d' i) = ie_value (tp i) \<and> (TLVP_PRESENT tp i \<longrightarrow> lv_len (d' i) = lv_len (tp i))" for i
    using d(2) [rule_format, of i] calculation(2) value_absent by (cases "TLVP_PRESENT tp i") auto
  ultimately have "tlv_parse def ?bs 0 0 = Some (int (length (present_tags tp)), d')"
    "\<forall>i. ie_value (d' i) = ie_value (tp i) \<and> (TLVP_PRESENT tp i \<longrightarrow> lv_len (d' i) = lv_len (tp i))"
    by (simp_all add: tlv_parse_def tlv_parse2_def Let_def)
  then show ?thesis using 1 by (intro exI [of _ "\<lparr>m_data = ?bs, m_room = m_room msg - length ?bs\<rparr>"] exI [of _ d']) simp
qed

text \<open>A message with one element of each of three kinds.\<close>

definition demo_ies_def :: tlv_definition where
  "demo_ies_def = (\<lambda>i. \<lparr>tlv_ty = (if i = 3 then TLV_TYPE_FIXED else if i < 0x10 then TLV_TYPE_TvLV else TLV_TYPE_TL16V), fixed_len = 2\<rparr>)"

definition demo_ies :: tlv_parsed where
  "demo_ies = no_ies(3 := \<lparr>lv_len = 2, lv_val = Some [1, 2, 9]\<rparr>, 7 := \<lparr>lv_len = 1, lv_val = Some [5]\<rparr>,
     0x20 := \<lparr>lv_len = 0, lv_val = Some []\<rparr>)"

lemma tlv_encode_parse_witness:
  "\<exists>msg' dec. tlv_encode \<lparr>m_data = [], m_room = 64\<rparr> demo_ies_def demo_ies = Some (int (length (m_data msg')), msg') \<and>
    tlv_parse demo_ies_def (m_data msg') 0 0 = Some (3, dec) \<and>
    ie_value (dec 3) = Some [1, 2] \<and> ie_value (dec 7) = Some [5] \<and> ie_value (dec 0x20) = Some [] \<and> ie_value (dec 4) = None"
proof -
  have p: "present_tags demo_ies = [3, 7, 0x20]" by (simp add: present_tags_def all_tags_def demo_ies_def no_ies_def upt_rec)
  have e: "\<forall>i. TLVP_PRESENT demo_ies i \<longrightarrow> encodable demo_ies_def i (demo_ies i)"
    by (auto simp: demo_ies_def demo_ies_def_def no_ies_def encodable_def)
  have l: "length (concat (map (ie_octets demo_ies_def demo_ies) all_tags)) \<le> 64"
    by (simp add: concat_present p) (simp add: ie_octets_def ie_value_def demo_ies_def demo_ies_def_def no_ies_def tl16_def)
  have d: "ie_value (demo_ies 3) = Some [1, 2]" "ie_value (demo_ies 7) = Some [5]" "ie_value (demo_ies 0x20) = Some []"
    "ie_value (demo_ies 4) = None" by (simp_all add: ie_value_def demo_ies_def no_ies_def)
  show ?thesis using tlv_encode_parse [OF e, of "\<lparr>m_data = [], m_room = 64\<rparr>"] l
    by (auto simp: p d)
qed

text \<open>Why the theorem leaves these elements out: an element of half an octet loses its tag, one
  with a tag of more than seven bits gains an octet, and a length of more than fifteen bits is read as
  one of seven.\<close>

lemma single_tv_loses_tag:
  "tlv_encode_one \<lparr>m_data = [], m_room = 9\<rparr> TLV_TYPE_SINGLE_TV 0x90 1 [0x95] = Some (0, \<lparr>m_data = [0x05], m_room = 8\<rparr>)"
  by (simp add: tlv_encode_one_def msgb_v_put_def msgb_put_octets_def mem_at_def)

lemma gan_tag_grows:
  "tlv_encode_one \<lparr>m_data = [], m_room = 9\<rparr> TLV_TYPE_vTvLV_GAN 0x81 1 [7] = Some (0, \<lparr>m_data = [0x80, 0x81, 1, 7], m_room = 5\<rparr>)"
  by (simp add: tlv_encode_one_def msgb_vtvlv_gan_put_def msgb_put_octets_def mem_read_def VTVLV_GAN_GROSS_LEN_def vt_gan_put_def)

text \<open>A copy has the lengths of the original and none of its values; what is merged in has a value
  and no length.\<close>

lemma copy_has_no_values: "osmo_tlvp_copy (Some tp) = Some (\<lambda>i. \<lparr>lv_len = lv_len (tp i), lv_val = None\<rparr>)"
  by (simp add: osmo_tlvp_copy_def copy_entry_def Let_def list_all_iff)

lemma merged_value_has_no_length:
  assumes "osmo_tlvp_merge no_ies src = Some (0, dst)"
  shows "lv_len (dst i) = 0"
proof -
  have "merge_entry (no_ies i) (src i) \<noteq> None" "dst i = the (merge_entry (no_ies i) (src i))"
    using assms by (auto simp: osmo_tlvp_merge_def list_all_iff all_tags split: if_splits)
  then show ?thesis by (auto simp: merge_entry_def no_ies_def mem_read_def split: option.splits if_splits)
qed

end
