(* ===== verification/ConvCode.thy ===== *)
theory ConvCode
  imports SchedTypes
begin

text \<open>
  The convolutional codes of libosmocore (\<open>conv.c\<close>, \<open>osmocom/core/conv.h\<close>): the description of a
  code, the encoder, and the Viterbi decoder for codes that the accelerated one does not support.

  The tables of a code are lists of octets, as the build generates them; an access outside of a
  table or of the input is \<open>None\<close>. The accumulated errors are unsigned and stay far below 2 ^ 32.
\<close>

section \<open>Codes\<close>

datatype osmo_conv_term = CONV_TERM_FLUSH | CONV_TERM_TRUNCATION | CONV_TERM_TAIL_BITING

record osmo_conv_code =
  cc_N :: nat
  cc_K :: nat
  cc_len :: nat
  cc_term :: osmo_conv_term
  next_output :: "u8 list list"
  next_state :: "u8 list list"
  next_term_output :: "u8 list option"
  next_term_state :: "u8 list option"
  cc_puncture :: "int list option"

definition osmo_conv_get_input_length :: "osmo_conv_code \<Rightarrow> int \<Rightarrow> int" where
  "osmo_conv_get_input_length code len = (if len \<le> 0 then int (cc_len code) else len)"

text \<open>The punctured bits are counted up to the negative number that ends the table.\<close>

definition osmo_conv_get_output_length :: "osmo_conv_code \<Rightarrow> int \<Rightarrow> int option" where
  "osmo_conv_get_output_length code len =
    (let out_len = osmo_conv_get_input_length code len * int (cc_N code)
           + (if cc_term code = CONV_TERM_FLUSH then int (cc_N code) * (int (cc_K code) - 1) else 0)
     in case cc_puncture code of
          None \<Rightarrow> Some out_len
        | Some punct \<Rightarrow>
            if list_all (\<lambda>p. 0 \<le> p) punct then None
            else Some (out_len - int (length (takeWhile (\<lambda>p. 0 \<le> p) punct))))"

text \<open>The entries of the tables.\<close>

definition next_of :: "u8 list list \<Rightarrow> u8 \<Rightarrow> u8 \<Rightarrow> u8 option" where
  "next_of tab s b = do { row \<leftarrow> mem_at tab (unat s); mem_at row (unat b) }"

section \<open>Encoding\<close>

record osmo_conv_encoder =
  i_idx :: nat
  p_idx :: nat
  e_state :: u8

definition osmo_conv_encode_init :: osmo_conv_encoder where
  "osmo_conv_encode_init = \<lparr>i_idx = 0, p_idx = 0, e_state = 0\<rparr>"

definition osmo_conv_encode_load_state :: "osmo_conv_code \<Rightarrow> osmo_conv_encoder \<Rightarrow> ubit list \<Rightarrow> osmo_conv_encoder option" where
  "osmo_conv_encode_load_state code enc input = do {
     bs \<leftarrow> mem_read input 0 (cc_K code - 1);
     Some (enc\<lparr>e_state := fold (\<lambda>b state. push_bit 1 state OR b) bs 0\<rparr>)
   }"

text \<open>The output bits of one symbol, the most significant one first; a bit whose number is the next in
  the table of punctured bits is left out.\<close>

fun punct_output :: "int list \<Rightarrow> osmo_conv_encoder \<Rightarrow> nat \<Rightarrow> u8 \<Rightarrow> nat list \<Rightarrow> (osmo_conv_encoder \<times> ubit list) option" where
  "punct_output punct enc n out [] = Some (enc, [])"
| "punct_output punct enc n out (j # js) = do {
     q \<leftarrow> mem_at punct (p_idx enc);
     if q = int (i_idx enc * n + j) then punct_output punct (enc\<lparr>p_idx := p_idx enc + 1\<rparr>) n out js
     else do { (enc, bs) \<leftarrow> punct_output punct enc n out js; Some (enc, (drop_bit (n - j - 1) out AND 1) # bs) }
   }"

definition conv_encode_do_output :: "osmo_conv_code \<Rightarrow> osmo_conv_encoder \<Rightarrow> u8 \<Rightarrow> (osmo_conv_encoder \<times> ubit list) option" where
  "conv_encode_do_output code enc out =
    (case cc_puncture code of
       Some punct \<Rightarrow> punct_output punct enc (cc_N code) out [0..<cc_N code]
     | None \<Rightarrow> Some (enc, map (\<lambda>j. drop_bit (cc_N code - j - 1) out AND 1) [0..<cc_N code]))"

fun osmo_conv_encode_raw :: "osmo_conv_code \<Rightarrow> osmo_conv_encoder \<Rightarrow> ubit list \<Rightarrow> (osmo_conv_encoder \<times> ubit list) option" where
  "osmo_conv_encode_raw code enc [] = Some (enc, [])"
| "osmo_conv_encode_raw code enc (b # input) = do {
     out \<leftarrow> next_of (next_output code) (e_state enc) b;
     state \<leftarrow> next_of (next_state code) (e_state enc) b;
     (enc, o1) \<leftarrow> conv_encode_do_output code enc out;
     (enc, o2) \<leftarrow> osmo_conv_encode_raw code (enc\<lparr>i_idx := i_idx enc + 1, e_state := state\<rparr>) input;
     Some (enc, o1 @ o2)
   }"

definition term_of :: "osmo_conv_code \<Rightarrow> u8 \<Rightarrow> (u8 \<times> u8) option" where
  "term_of code s =
    (case next_term_output code of
       Some tab \<Rightarrow> do { out \<leftarrow> mem_at tab (unat s); ts \<leftarrow> next_term_state code; state \<leftarrow> mem_at ts (unat s); Some (out, state) }
     | None \<Rightarrow> do { out \<leftarrow> next_of (next_output code) s 0; state \<leftarrow> next_of (next_state code) s 0; Some (out, state) })"

fun encode_flush :: "osmo_conv_code \<Rightarrow> osmo_conv_encoder \<Rightarrow> nat \<Rightarrow> (osmo_conv_encoder \<times> ubit list) option" where
  "encode_flush code enc 0 = Some (enc, [])"
| "encode_flush code enc (Suc n) = do {
     (out, state) \<leftarrow> term_of code (e_state enc);
     (enc, o1) \<leftarrow> conv_encode_do_output code enc out;
     (enc, o2) \<leftarrow> encode_flush code (enc\<lparr>i_idx := i_idx enc + 1, e_state := state\<rparr>) n;
     Some (enc, o1 @ o2)
   }"

definition osmo_conv_encode_flush :: "osmo_conv_code \<Rightarrow> osmo_conv_encoder \<Rightarrow> (osmo_conv_encoder \<times> ubit list) option" where
  "osmo_conv_encode_flush code enc = encode_flush code enc (cc_K code - 1)"

definition osmo_conv_encode :: "osmo_conv_code \<Rightarrow> ubit list \<Rightarrow> ubit list option" where
  "osmo_conv_encode code input = do {
     input \<leftarrow> mem_read input 0 (cc_len code);
     enc \<leftarrow> (if cc_term code = CONV_TERM_TAIL_BITING
            then osmo_conv_encode_load_state code osmo_conv_encode_init (drop (cc_len code + 1 - cc_K code) input)
            else Some osmo_conv_encode_init);
     (enc, o1) \<leftarrow> osmo_conv_encode_raw code enc input;
     (enc, o2) \<leftarrow> (if cc_term code = CONV_TERM_FLUSH then osmo_conv_encode_flush code enc else Some (enc, []));
     Some (o1 @ o2)
   }"

section \<open>Decoding of the codes that are not accelerated\<close>

abbreviation (input) MAX_AE :: nat where "MAX_AE \<equiv> 0x00ffffff"

text \<open>A row of the history for each symbol; an entry that has not been written is \<open>None\<close>. The second
  pass over a tail-biting code writes its rows over those of the first.\<close>

record osmo_conv_decoder =
  o_idx :: nat
  d_pidx :: nat
  ae :: "nat list"
  state_history :: "u8 option list list"

definition n_states :: "osmo_conv_code \<Rightarrow> nat" where
  "n_states code = 2 ^ (cc_K code - 1)"

definition osmo_conv_decode_reset :: "osmo_conv_code \<Rightarrow> osmo_conv_decoder \<Rightarrow> int \<Rightarrow> osmo_conv_decoder" where
  "osmo_conv_decode_reset code dec start_state =
    dec\<lparr>o_idx := 0, d_pidx := 0,
      ae := map (\<lambda>i. if start_state < 0 \<or> int i = start_state then 0 else MAX_AE) [0..<n_states code]\<rparr>"

definition osmo_conv_decode_init :: "osmo_conv_code \<Rightarrow> int \<Rightarrow> osmo_conv_decoder" where
  "osmo_conv_decode_init code start_state =
    osmo_conv_decode_reset code \<lparr>o_idx = 0, d_pidx = 0, ae = [], state_history = []\<rparr> start_state"

definition osmo_conv_decode_rewind :: "osmo_conv_decoder \<Rightarrow> osmo_conv_decoder" where
  "osmo_conv_decode_rewind dec =
    (let min_ae = fold min (ae dec) MAX_AE
     in dec\<lparr>o_idx := 0, d_pidx := 0, ae := map (\<lambda>e. e - min_ae) (ae dec), state_history := []\<rparr>)"

text \<open>The symbols of one step, with an undefined one for each punctured bit, the index into the
  table, and the input that is left.\<close>

fun get_symbols :: "int list option \<Rightarrow> nat \<Rightarrow> nat list \<Rightarrow> nat \<Rightarrow> sbit list \<Rightarrow> (sbit list \<times> nat \<times> sbit list) option" where
  "get_symbols punct base [] p input = Some ([], p, input)"
| "get_symbols punct base (j # js) p input = do {
     q \<leftarrow> (case punct of None \<Rightarrow> Some (- 1) | Some t \<Rightarrow> mem_at t p);
     if punct \<noteq> None \<and> q = int (base + j) then do {
       (syms, p, input) \<leftarrow> get_symbols punct base js (p + 1) input;
       Some (0 # syms, p, input)
     } else case input of [] \<Rightarrow> None
       | s # input \<Rightarrow> do { (syms, p, input) \<leftarrow> get_symbols punct base js p input; Some (s # syms, p, input) }
   }"

text \<open>The error of a symbol against an output.\<close>

definition branch_error :: "nat \<Rightarrow> u8 \<Rightarrow> sbit list \<Rightarrow> nat" where
  "branch_error n out syms =
    sum_list (map (\<lambda>(j, is). if is = 0 then 0
      else nat (drop_bit 9 ((sint is - (if bit out (n - 1 - j) then - 127 else 127)) ^ 2))) (zip [0..<n] syms))"

text \<open>One transition: the survivor of the state it leads to is replaced by a better one.\<close>

definition survive :: "u8 \<Rightarrow> nat \<Rightarrow> u8 \<Rightarrow> nat list \<times> u8 option list \<Rightarrow> (nat list \<times> u8 option list) option" where
  "survive state nae s acc = (case acc of (ae_next, hist) \<Rightarrow> do {
     cur \<leftarrow> mem_at ae_next (unat state);
     Some (if nae < cur then (ae_next[unat state := nae], hist[unat state := Some s]) else (ae_next, hist))
   })"

fun try_transitions :: "osmo_conv_code \<Rightarrow> bool \<Rightarrow> sbit list \<Rightarrow> nat list \<Rightarrow> (nat \<times> u8) list
    \<Rightarrow> nat list \<times> u8 option list \<Rightarrow> (nat list \<times> u8 option list) option" where
  "try_transitions code flush syms aes [] acc = Some acc"
| "try_transitions code flush syms aes ((s, b) # ts) acc = do {
     (out, state) \<leftarrow> (if flush then term_of code (of_nat s) else do {
         out \<leftarrow> next_of (next_output code) (of_nat s) b;
         state \<leftarrow> next_of (next_state code) (of_nat s) b;
         Some (out, state) });
     e \<leftarrow> mem_at aes s;
     acc \<leftarrow> survive state (e + branch_error (cc_N code) out syms) (of_nat s) acc;
     try_transitions code flush syms aes ts acc
   }"

fun scan_steps :: "osmo_conv_code \<Rightarrow> bool \<Rightarrow> nat \<Rightarrow> osmo_conv_decoder \<Rightarrow> sbit list \<Rightarrow> (osmo_conv_decoder \<times> sbit list) option" where
  "scan_steps code flush 0 dec input = Some (dec, input)"
| "scan_steps code flush (Suc n) dec input = do {
     (syms, p, input) \<leftarrow> get_symbols (cc_puncture code) (o_idx dec * cc_N code) [0..<cc_N code] (d_pidx dec) input;
     (ae_next, hist) \<leftarrow> try_transitions code flush syms (ae dec)
        (if flush then map (\<lambda>s. (s, 0)) [0..<n_states code]
         else concat (map (\<lambda>s. [(s, 0), (s, 1)]) [0..<n_states code]))
        (replicate (n_states code) MAX_AE, replicate (n_states code) None);
     scan_steps code flush n
       (dec\<lparr>o_idx := o_idx dec + 1, d_pidx := p, ae := ae_next, state_history := state_history dec @ [hist]\<rparr>) input
   }"

definition osmo_conv_decode_scan :: "osmo_conv_code \<Rightarrow> osmo_conv_decoder \<Rightarrow> sbit list \<Rightarrow> nat \<Rightarrow> (osmo_conv_decoder \<times> sbit list) option" where
  "osmo_conv_decode_scan code dec input n = scan_steps code False n dec input"

definition osmo_conv_decode_flush :: "osmo_conv_code \<Rightarrow> osmo_conv_decoder \<Rightarrow> sbit list \<Rightarrow> (osmo_conv_decoder \<times> sbit list) option" where
  "osmo_conv_decode_flush code dec input = scan_steps code True (cc_K code - 1) dec input"

text \<open>The traceback, from the last row of the history to the first; the output is generated backward.\<close>

fun trace_skip :: "nat \<Rightarrow> u8 option list list \<Rightarrow> u8 \<Rightarrow> (u8 option list list \<times> u8) option" where
  "trace_skip 0 rows cur = Some (rows, cur)"
| "trace_skip (Suc n) rows cur = (case rows of [] \<Rightarrow> None
     | row # rows \<Rightarrow> do { e \<leftarrow> mem_at row (unat cur); s \<leftarrow> e; trace_skip n rows s })"

fun trace_output :: "osmo_conv_code \<Rightarrow> u8 option list list \<Rightarrow> u8 \<Rightarrow> ubit list \<Rightarrow> ubit list option" where
  "trace_output code [] cur out = Some out"
| "trace_output code (row # rows) cur out = do {
     e \<leftarrow> mem_at row (unat cur);
     s \<leftarrow> e;
     n0 \<leftarrow> next_of (next_state code) s 0;
     trace_output code rows s ((if n0 = cur then 0 else 1) # out)
   }"

definition least_state :: "nat list \<Rightarrow> nat \<times> u8" where
  "least_state aes = fold (\<lambda>(s, e) (min_ae, min_state). if e < min_ae then (e, of_nat s) else (min_ae, min_state))
     (zip [0..<length aes] aes) (MAX_AE, 0xff)"

definition osmo_conv_decode_get_output :: "osmo_conv_code \<Rightarrow> osmo_conv_decoder \<Rightarrow> bool \<Rightarrow> int \<Rightarrow> (int \<times> ubit list) option" where
  "osmo_conv_decode_get_output code dec has_flush end_state =
    (if end_state < 0 \<and> snd (least_state (ae dec)) = 0xff then Some (- 1, [])
     else do {
       (min_ae, min_state) \<leftarrow> (if end_state < 0 then Some (least_state (ae dec))
         else do { e \<leftarrow> mem_at (ae dec) (nat end_state); Some (e, word_of_int end_state) });
       (rows, cur) \<leftarrow> trace_skip (if has_flush then cc_K code - 1 else 0) (rev (state_history dec)) min_state;
       out \<leftarrow> trace_output code rows cur [];
       Some (int min_ae, out)
     })"

end
