(* ===== verification/ConvAcc.thy ===== *)
theory ConvAcc
  imports ConvCode
begin

text \<open>
  The accelerated Viterbi decoder of libosmocore for constraint lengths 5 and 7 (\<open>conv_acc.c\<close>), with
  the portable implementation of its metric functions (\<open>conv_acc_generic.c\<close>); the variants for vector
  units are not modelled.

  A state of this decoder is the reverse of a state of the encoder: the most recent bit is the most
  significant one. The path metrics are 16 bit integers, kept here as the integers they stand for;
  \<open>i16\<close> is what storing one does. A path entry is -1 for the even predecessor, 0 for the odd one.
\<close>

abbreviation (input) EPROTO :: int where "EPROTO \<equiv> 71"

definition i16 :: "int \<Rightarrow> int" where
  "i16 x = (x + 32768) mod 65536 - 32768"

section \<open>States and outputs\<close>

definition NUM_STATES :: "nat \<Rightarrow> nat" where
  "NUM_STATES k = (if k = 7 then 64 else 16)"

definition vstate_lshift :: "nat \<Rightarrow> nat \<Rightarrow> nat \<Rightarrow> nat" where
  "vstate_lshift reg k v =
    ((push_bit 1 reg AND (if k = 5 then 0x0e else if k = 7 then 0x3e else 0)) OR v)"

definition bitswap2 :: "nat \<Rightarrow> nat" where
  "bitswap2 v = drop_bit 1 (v AND 0x02) OR push_bit 1 (v AND 0x01)"

definition bitswap3 :: "nat \<Rightarrow> nat" where
  "bitswap3 v = drop_bit 2 (v AND 0x04) OR (v AND 0x02) OR push_bit 2 (v AND 0x01)"

definition bitswap4 :: "nat \<Rightarrow> nat" where
  "bitswap4 v = drop_bit 3 (v AND 0x08) OR drop_bit 1 (v AND 0x04) OR push_bit 1 (v AND 0x02) OR push_bit 3 (v AND 0x01)"

definition bitswap5 :: "nat \<Rightarrow> nat" where
  "bitswap5 v = drop_bit 4 (v AND 0x10) OR drop_bit 2 (v AND 0x08) OR (v AND 0x04) OR
    push_bit 2 (v AND 0x02) OR push_bit 4 (v AND 0x01)"

definition bitswap6 :: "nat \<Rightarrow> nat" where
  "bitswap6 v = drop_bit 5 (v AND 0x20) OR drop_bit 3 (v AND 0x10) OR drop_bit 1 (v AND 0x08) OR
    push_bit 1 (v AND 0x04) OR push_bit 3 (v AND 0x02) OR push_bit 5 (v AND 0x01)"

definition bitswap :: "nat \<Rightarrow> nat \<Rightarrow> nat" where
  "bitswap v n = (if n = 1 then v else if n = 2 then bitswap2 v else if n = 3 then bitswap3 v
     else if n = 4 then bitswap4 v else if n = 5 then bitswap5 v else if n = 6 then bitswap6 v else 0)"

text \<open>The sign of an output bit: 0 is 1, 1 is -1.\<close>

definition BIT2NRZ :: "nat \<Rightarrow> nat \<Rightarrow> int" where
  "BIT2NRZ reg n = (if bit reg n then - 1 else 1)"

definition gen_output :: "osmo_conv_code \<Rightarrow> nat \<Rightarrow> nat \<Rightarrow> nat option" where
  "gen_output code prev0 v = do {
     out \<leftarrow> next_of (next_output code) (of_nat (bitswap prev0 (cc_K code - 1))) (of_nat v);
     Some (bitswap (unat out) (cc_N code))
   }"

text \<open>The input that leads to a state, and the signs of the output from its even predecessor.\<close>

definition gen_state_info :: "osmo_conv_code \<Rightarrow> nat \<Rightarrow> (nat \<times> int list) option" where
  "gen_state_info code reg =
    (let v = drop_bit (cc_K code - 2) reg AND 1 in do {
       out \<leftarrow> gen_output code (vstate_lshift reg (cc_K code) 0) v;
       Some (v, map (BIT2NRZ out) [0..<cc_N code])
     })"

definition gen_recursive_output :: "osmo_conv_code \<Rightarrow> nat \<Rightarrow> nat \<Rightarrow> (nat \<times> nat) option" where
  "gen_recursive_output code reg pos = do {
     tab \<leftarrow> next_term_output code;
     t \<leftarrow> mem_at tab (bitswap (vstate_lshift reg (cc_K code) 0) (cc_K code - 1));
     let v = (if drop_bit (cc_K code - 2) reg AND 1 = of_bool (bit t pos) then 0 else 1);
     out \<leftarrow> gen_output code (vstate_lshift reg (cc_K code) 0) v;
     Some (v, out)
   }"

text \<open>The position of the systematic bit: the first that no state outputs for the input 0.\<close>

fun systematic_pos :: "osmo_conv_code \<Rightarrow> nat list \<Rightarrow> nat option" where
  "systematic_pos code [] = None"
| "systematic_pos code (i # is) =
    (if list_all (\<lambda>row. \<not> bit (row ! 0) i) (take (NUM_STATES (cc_K code)) (next_output code))
     then Some i else systematic_pos code is)"

definition gen_recursive_state_info :: "osmo_conv_code \<Rightarrow> nat \<Rightarrow> (int + nat \<times> int list) option" where
  "gen_recursive_state_info code reg =
    (if length (next_output code) < NUM_STATES (cc_K code) \<or> list_ex (\<lambda>row. row = []) (next_output code) then None
     else case systematic_pos code [0..<cc_N code] of
         None \<Rightarrow> Some (Inl (- EPROTO))
       | Some pos \<Rightarrow> do {
           (v, out) \<leftarrow> gen_recursive_output code reg pos;
           Some (Inr (v, map (BIT2NRZ out) [0..<cc_N code]))
         })"

section \<open>The trellis\<close>

record vtrellis =
  num_states :: nat
  sums :: "int list"
  outputs :: "int list list"
  vals :: "nat list"

text \<open>The states one after the other, up to the first error.\<close>

fun gen_states :: "osmo_conv_code \<Rightarrow> nat list \<Rightarrow> (int + (nat \<times> int list) list) option" where
  "gen_states code [] = Some (Inr [])"
| "gen_states code (i # is) = do {
     r \<leftarrow> (if next_term_output code \<noteq> None then gen_recursive_state_info code i
          else map_option Inr (gen_state_info code i));
     case r of Inl e \<Rightarrow> Some (Inl e)
     | Inr info \<Rightarrow> do {
         rest \<leftarrow> gen_states code is;
         case rest of Inl e \<Rightarrow> Some (Inl e) | Inr infos \<Rightarrow> Some (Inr (info # infos))
       }
   }"

definition generate_trellis :: "osmo_conv_code \<Rightarrow> (int + vtrellis) option" where
  "generate_trellis code = do {
     r \<leftarrow> gen_states code [0..<NUM_STATES (cc_K code)];
     case r of Inl e \<Rightarrow> Some (Inl e)
     | Inr infos \<Rightarrow>
         let ns = NUM_STATES (cc_K code); s = replicate ns 0
         in Some (Inr \<lparr>num_states = ns,
              sums = (if cc_term code \<noteq> CONV_TERM_TAIL_BITING
                then s[0 := i16 (127 * int (cc_N code) * int (cc_K code))] else s),
              outputs = map snd infos, vals = map fst infos\<rparr>)
   }"

section \<open>The forward recursion\<close>

text \<open>The metric of the transition from the even predecessor, for the lower half of the states.\<close>

definition gen_branch_metrics :: "int list \<Rightarrow> vtrellis \<Rightarrow> int list" where
  "gen_branch_metrics seq t =
    map (\<lambda>i. i16 (sum_list (map2 (*) seq (outputs t ! i)))) [0..<num_states t div 2]"

text \<open>Two sums and their selections: for state \<open>i\<close> and for state \<open>i + ns / 2\<close>.\<close>

definition acs_butterfly :: "int \<Rightarrow> int \<Rightarrow> int \<Rightarrow> (int \<times> int) \<times> (int \<times> int)" where
  "acs_butterfly state0 state1 metric =
    (let sum0 = state0 + metric; sum1 = state1 - metric; sum2 = state0 - metric; sum3 = state1 + metric
     in (if sum1 \<le> sum0 then (i16 sum0, - 1) else (i16 sum1, 0),
         if sum3 \<le> sum2 then (i16 sum2, - 1) else (i16 sum3, 0)))"

definition gen_path_metrics :: "nat \<Rightarrow> int list \<Rightarrow> int list \<Rightarrow> bool \<Rightarrow> int list \<times> int list" where
  "gen_path_metrics ns sms metrics norm =
    (let acs = map (\<lambda>i. acs_butterfly (sms ! (2 * i)) (sms ! (2 * i + 1)) (metrics ! i)) [0..<ns div 2];
         new_sums = map (fst \<circ> fst) acs @ map (fst \<circ> snd) acs;
         paths = map (snd \<circ> fst) acs @ map (snd \<circ> snd) acs
     in (if norm then (let mn = fold min (tl new_sums) (hd new_sums) in map (\<lambda>x. i16 (x - mn)) new_sums) else new_sums,
         paths))"

record vdecoder =
  dec_n :: nat
  dec_k :: nat
  dec_len :: nat
  dec_recursive :: bool
  dec_intrvl :: nat
  dec_trellis :: vtrellis
  dec_paths :: "int list list"

definition vdec_init :: "osmo_conv_code \<Rightarrow> (int + vdecoder) option" where
  "vdec_init code =
    (if \<not> ((cc_K code = 5 \<or> cc_K code = 7) \<and> cc_N code \<in> {2, 3, 4}) then Some (Inl (- EINVAL))
     else do {
       r \<leftarrow> generate_trellis code;
       case r of Inl e \<Rightarrow> Some (Inl e)
       | Inr t \<Rightarrow> Some (Inr \<lparr>dec_n = cc_N code, dec_k = cc_K code,
           dec_len = (if cc_term code = CONV_TERM_FLUSH then cc_len code + cc_K code - 1 else cc_len code),
           dec_recursive = (next_term_output code \<noteq> None),
           dec_intrvl = 32767 div (cc_N code * 127) - cc_K code, dec_trellis = t, dec_paths = []\<rparr>)
     })"

text \<open>The symbols with a 0 in the place of each punctured one; the input starts at index \<open>m\<close>.\<close>

fun depuncture :: "sbit list \<Rightarrow> int list \<Rightarrow> nat list \<Rightarrow> nat \<Rightarrow> nat \<Rightarrow> sbit list option" where
  "depuncture input punct [] n m = Some []"
| "depuncture input punct (i # is) n m = do {
     q \<leftarrow> mem_at punct n;
     if q = int i then do { out \<leftarrow> depuncture input punct is (n + 1) m; Some (0 # out) }
     else do { s \<leftarrow> mem_at input m; out \<leftarrow> depuncture input punct is n (m + 1); Some (s # out) }
   }"

text \<open>The steps from number \<open>i\<close> on, each over the next \<open>n\<close> symbols.\<close>

fun forward_steps :: "vdecoder \<Rightarrow> nat list \<Rightarrow> sbit list \<Rightarrow> vdecoder option" where
  "forward_steps dec [] sq = Some dec"
| "forward_steps dec (i # is) sq = do {
     syms \<leftarrow> mem_read sq 0 (dec_n dec);
     let t = dec_trellis dec;
     let (new_sums, path) = gen_path_metrics (num_states t) (sums t) (gen_branch_metrics (map sint syms) t)
       (i mod dec_intrvl dec = 0);
     forward_steps (dec\<lparr>dec_trellis := t\<lparr>sums := new_sums\<rparr>, dec_paths := dec_paths dec @ [path]\<rparr>) is (drop (dec_n dec) sq)
   }"

definition forward_traverse :: "vdecoder \<Rightarrow> sbit list \<Rightarrow> vdecoder option" where
  "forward_traverse dec sq = forward_steps (dec\<lparr>dec_paths := []\<rparr>) [0..<dec_len dec] sq"

section \<open>The traceback\<close>

text \<open>From the last rows of the path table on; the output is generated backward.\<close>

fun trace_back :: "vdecoder \<Rightarrow> int list list \<Rightarrow> nat \<Rightarrow> ubit list \<Rightarrow> ubit list option" where
  "trace_back dec [] state out = Some out"
| "trace_back dec (row # rows) state out = do {
     p \<leftarrow> mem_at row state;
     v \<leftarrow> mem_at (vals (dec_trellis dec)) state;
     let path = nat (p + 1);
     trace_back dec rows (vstate_lshift state (dec_k dec) path)
       (of_nat (if dec_recursive dec then path XOR v else v) # out)
   }"

fun trace_tail :: "vdecoder \<Rightarrow> int list list \<Rightarrow> nat \<Rightarrow> nat option" where
  "trace_tail dec [] state = Some state"
| "trace_tail dec (row # rows) state = do {
     p \<leftarrow> mem_at row state;
     trace_tail dec rows (vstate_lshift state (dec_k dec) (nat (p + 1)))
   }"

text \<open>The state with the largest sum and that sum, which is -1 when none is 0 or more.\<close>

definition largest_state :: "int list \<Rightarrow> int \<times> nat" where
  "largest_state sms = fold (\<lambda>(i, sm) (mx, state). if mx < sm then (sm, i) else (mx, state))
     (zip [0..<length sms] sms) (- 1, 0)"

definition traceback :: "vdecoder \<Rightarrow> osmo_conv_term \<Rightarrow> nat \<Rightarrow> (int \<times> ubit list) option" where
  "traceback dec trm len =
    (let (mx, state) = (if trm \<noteq> CONV_TERM_FLUSH then largest_state (sums (dec_trellis dec)) else (0, 0))
     in if mx < 0 then Some (- EPROTO, [])
        else do {
          state \<leftarrow> trace_tail dec (rev (drop len (dec_paths dec))) state;
          out \<leftarrow> trace_back dec (rev (take len (dec_paths dec))) state [];
          Some (0, out)
        })"

definition conv_decode :: "vdecoder \<Rightarrow> sbit list \<Rightarrow> int list option \<Rightarrow> nat \<Rightarrow> osmo_conv_term \<Rightarrow> (int \<times> ubit list) option" where
  "conv_decode dec sq punct len trm = do {
     sq \<leftarrow> (case punct of None \<Rightarrow> Some sq | Some t \<Rightarrow> depuncture sq t [0..<dec_len dec * dec_n dec] 0 0);
     dec \<leftarrow> forward_traverse dec sq;
     dec \<leftarrow> (if trm = CONV_TERM_TAIL_BITING then forward_traverse dec sq else Some dec);
     traceback dec trm len
   }"

definition osmo_conv_decode_acc :: "osmo_conv_code \<Rightarrow> sbit list \<Rightarrow> (int \<times> ubit list) option" where
  "osmo_conv_decode_acc code input =
    (if cc_N code < 2 \<or> 4 < cc_N code \<or> cc_len code < 1 \<or> (cc_K code \<noteq> 5 \<and> cc_K code \<noteq> 7) then Some (- EINVAL, [])
     else do {
       r \<leftarrow> vdec_init code;
       case r of Inl e \<Rightarrow> Some (e, [])
       | Inr dec \<Rightarrow> conv_decode dec input (cc_puncture code) (cc_len code) (cc_term code)
     })"

text \<open>The decoder a caller asks for.\<close>

definition osmo_conv_decode :: "osmo_conv_code \<Rightarrow> sbit list \<Rightarrow> (int \<times> ubit list) option" where
  "osmo_conv_decode code input =
    (if cc_N code \<le> 4 \<and> (cc_K code = 5 \<or> cc_K code = 7) then osmo_conv_decode_acc code input
     else do {
       (dec, rest) \<leftarrow> (if cc_term code = CONV_TERM_TAIL_BITING
          then map_option (\<lambda>(dec, rest). (osmo_conv_decode_rewind dec, input))
            (osmo_conv_decode_scan code (osmo_conv_decode_init code 0) input (cc_len code))
          else Some (osmo_conv_decode_init code 0, input));
       (dec, rest) \<leftarrow> osmo_conv_decode_scan code dec input (cc_len code);
       (dec, rest) \<leftarrow> (if cc_term code = CONV_TERM_FLUSH then osmo_conv_decode_flush code dec rest else Some (dec, rest));
       osmo_conv_decode_get_output code dec (cc_term code = CONV_TERM_FLUSH)
         (if cc_term code = CONV_TERM_FLUSH then 0 else - 1)
     })"

section \<open>All states\<close>

lemma upt_16: "[0..<16::nat] = [0, 1, 2, 3, 4, 5, 6, 7, 8, 9, 10, 11, 12, 13, 14, 15]"
  by (simp add: upt_rec)

lemma upt_64: "[0..<64::nat] = [0, 1, 2, 3, 4, 5, 6, 7, 8, 9, 10, 11, 12, 13, 14, 15, 16, 17, 18, 19, 20, 21, 22, 23,
    24, 25, 26, 27, 28, 29, 30, 31, 32, 33, 34, 35, 36, 37, 38, 39, 40, 41, 42, 43, 44, 45, 46, 47, 48, 49, 50, 51,
    52, 53, 54, 55, 56, 57, 58, 59, 60, 61, 62, 63]"
  by (simp add: upt_rec)

lemma bitswap_bound:
  "list_all (\<lambda>r. bitswap r 4 < 16) [0..<16]" "list_all (\<lambda>r. bitswap r 6 < 64) [0..<64]"
  by (simp_all add: upt_16 upt_64 bitswap_def bitswap4_def bitswap6_def)

lemma vstate_lshift_pred:
  "list_all (\<lambda>r. vstate_lshift r 5 0 = 2 * (r mod 8) \<and> vstate_lshift r 5 1 = 2 * (r mod 8) + 1) [0..<16]"
  "list_all (\<lambda>r. vstate_lshift r 7 0 = 2 * (r mod 32) \<and> vstate_lshift r 7 1 = 2 * (r mod 32) + 1) [0..<64]"
  by (simp_all add: upt_16 upt_64 vstate_lshift_def)

end
