(* ===== verification/Viterbi.thy ===== *)
theory Viterbi
  imports ConvAcc
begin

text \<open>
  What the accelerated Viterbi decoder computes. A locale names what it relies on of a code: a
  feed-forward shift register whose outputs all change with its first and with its last bit. Inside
  it: the path metrics of the decoder are those of the exact recursion up to a common
  constant, in spite of their 16 bits, and the path it traces back has the largest metric of
  all paths.
\<close>

section \<open>Paths through the trellis\<close>

definition half :: "osmo_conv_code \<Rightarrow> nat" where
  "half c = 2 ^ (cc_K c - 2)"

definition nxt :: "osmo_conv_code \<Rightarrow> nat \<Rightarrow> nat \<Rightarrow> nat" where
  "nxt c r b = b * half c + r div 2"

text \<open>The output of the transition from a state with an input, reversed as the decoder has it, and its signs.\<close>

definition rout :: "osmo_conv_code \<Rightarrow> nat \<Rightarrow> nat \<Rightarrow> nat" where
  "rout c r b = bitswap (unat (next_output c ! bitswap r (cc_K c - 1) ! b)) (cc_N c)"

definition nrz :: "osmo_conv_code \<Rightarrow> nat \<Rightarrow> nat \<Rightarrow> int list" where
  "nrz c r b = map (BIT2NRZ (rout c r b)) [0..<cc_N c]"

definition dot :: "int list \<Rightarrow> int list \<Rightarrow> int" where
  "dot xs ys = sum_list (map2 (*) xs ys)"

fun endst :: "osmo_conv_code \<Rightarrow> nat \<Rightarrow> nat list \<Rightarrow> nat" where
  "endst c r [] = r"
| "endst c r (b # bs) = endst c (nxt c r b) bs"

text \<open>The correlation of the received symbols with the outputs along a path.\<close>

fun pmetric :: "osmo_conv_code \<Rightarrow> nat \<Rightarrow> nat list \<Rightarrow> int list list \<Rightarrow> int" where
  "pmetric c r (b # bs) (s # ss) = dot s (nrz c r b) + pmetric c (nxt c r b) bs ss"
| "pmetric c r _ _ = 0"

text \<open>The number of output bits in which two paths differ.\<close>

definition ham :: "int list \<Rightarrow> int list \<Rightarrow> nat" where
  "ham xs ys = length (filter (\<lambda>(x, y). x \<noteq> y) (zip xs ys))"

fun pdist :: "osmo_conv_code \<Rightarrow> nat \<Rightarrow> nat list \<Rightarrow> nat \<Rightarrow> nat list \<Rightarrow> nat" where
  "pdist c r (b # bs) r' (b' # bs') = ham (nrz c r b) (nrz c r' b') + pdist c (nxt c r b) bs (nxt c r' b') bs'"
| "pdist c r _ r' _ = 0"

definition bits :: "nat list \<Rightarrow> bool" where
  "bits bs \<longleftrightarrow> set bs \<subseteq> {0, 1}"

lemma bits_simps [simp]: "bits []" "bits (b # bs) \<longleftrightarrow> (b = 0 \<or> b = 1) \<and> bits bs" "bits (as @ bs) \<longleftrightarrow> bits as \<and> bits bs"
  "bits (replicate n 0)"
  by (auto simp: bits_def)

section \<open>The codes\<close>

locale acc_code =
  fixes c :: osmo_conv_code
  assumes K: "cc_K c = 5 \<or> cc_K c = 7"
    and N: "cc_N c = 2 \<or> cc_N c = 3 \<or> cc_N c = 4"
    and plain: "next_term_output c = None" "cc_puncture c = None" "cc_term c = CONV_TERM_FLUSH"
    and len: "0 < cc_len c"
    and tables: "length (next_output c) = 2 * half c" "\<forall>row \<in> set (next_output c). length row = 2"
      "length (next_state c) = 2 * half c" "\<forall>row \<in> set (next_state c). length row = 2"
    and shift: "\<And>r b. r < 2 * half c \<Longrightarrow> b < 2 \<Longrightarrow>
      unat (next_state c ! bitswap r (cc_K c - 1) ! b) = bitswap (nxt c r b) (cc_K c - 1)"
    and butterfly: "\<And>i. i < half c \<Longrightarrow> nrz c (2 * i + 1) 0 = map uminus (nrz c (2 * i) 0)"
      "\<And>i. i < half c \<Longrightarrow> nrz c (2 * i) 1 = map uminus (nrz c (2 * i) 0)"
      "\<And>i. i < half c \<Longrightarrow> nrz c (2 * i + 1) 1 = nrz c (2 * i) 0"
    and diverge: "\<And>p bs bs'. p < 2 * half c \<Longrightarrow> bits bs \<Longrightarrow> bits bs' \<Longrightarrow> length bs = cc_K c - 1 \<Longrightarrow>
      length bs' = cc_K c - 1 \<Longrightarrow> 2 * pdist c p bs p bs' \<le> (cc_K c + 1) * cc_N c"
begin

abbreviation "ns \<equiv> 2 * half c"

lemma half_cases: "half c = 8 \<and> cc_K c = 5 \<or> half c = 32 \<and> cc_K c = 7"
  using K by (auto simp: half_def)

lemma half_pos [simp]: "0 < half c"
  using half_cases by auto

lemma nxt_less: "r < ns \<Longrightarrow> b < 2 \<Longrightarrow> nxt c r b < ns"
proof -
  assume "r < ns" "b < 2"
  then have "b * half c \<le> half c" "r div 2 < half c" by auto
  then show ?thesis unfolding nxt_def by linarith
qed

lemma nxt_back: "r < ns \<Longrightarrow> b < 2 \<Longrightarrow> nxt c r b mod half c = r div 2" "r < ns \<Longrightarrow> b < 2 \<Longrightarrow> nxt c r b div half c = b"
  using half_pos by (auto simp: nxt_def less_mult_imp_div_less)

lemma nxt_pred: "r < ns \<Longrightarrow> d < 2 \<Longrightarrow> nxt c (2 * (r mod half c) + d) (r div half c) = r"
  by (simp add: nxt_def)

lemma pred_less: "d < 2 \<Longrightarrow> 2 * (r mod half c) + d < ns"
proof -
  assume "d < 2"
  moreover have "r mod half c < half c" by simp
  ultimately show ?thesis by linarith
qed

lemma endst_less: "r < ns \<Longrightarrow> bits bs \<Longrightarrow> endst c r bs < ns"
  by (induction bs arbitrary: r) (auto simp: nxt_less)

end

lemma endst_append: "endst c r (as @ bs) = endst c (endst c r as) bs"
  by (induction as arbitrary: r) auto

lemma pmetric_append:
  "length as = length ss \<Longrightarrow> pmetric c r (as @ bs) (ss @ ts) = pmetric c r as ss + pmetric c (endst c r as) bs ts"
  by (induction as ss arbitrary: r rule: list_induct2) auto

section \<open>The exact recursion\<close>

definition vstep :: "osmo_conv_code \<Rightarrow> (nat \<Rightarrow> int) \<Rightarrow> int list \<Rightarrow> nat \<Rightarrow> int" where
  "vstep c U s r = (let p = 2 * (r mod half c); b = r div half c in
     max (U p + dot s (nrz c p b)) (U (p + 1) + dot s (nrz c (p + 1) b)))"

fun vrun :: "osmo_conv_code \<Rightarrow> (nat \<Rightarrow> int) \<Rightarrow> int list list \<Rightarrow> nat \<Rightarrow> int" where
  "vrun c U [] = U"
| "vrun c U (s # ss) = vrun c (vstep c U s) ss"

lemma vrun_append: "vrun c U (ss @ ts) = vrun c (vrun c U ss) ts"
  by (induction ss arbitrary: U) auto

context acc_code
begin

text \<open>No path has a larger metric than the recursion computes, and one has it.\<close>

lemma vstep_ge:
  assumes "r < ns" "b < 2"
  shows "U r + dot s (nrz c r b) \<le> vstep c U s (nxt c r b)"
proof -
  have "r = 2 * (r div 2) \<or> r = 2 * (r div 2) + 1" by auto
  then show ?thesis unfolding vstep_def nxt_back [OF assms] Let_def by (metis max.cobounded1 max.cobounded2)
qed

lemma vstep_attained:
  obtains d where "d < 2" "vstep c U s r = U (2 * (r mod half c) + d) + dot s (nrz c (2 * (r mod half c) + d) (r div half c))"
proof -
  let ?p = "2 * (r mod half c)"
  have "vstep c U s r = U (?p + 0) + dot s (nrz c (?p + 0) (r div half c)) \<or>
    vstep c U s r = U (?p + 1) + dot s (nrz c (?p + 1) (r div half c))"
    by (simp add: vstep_def Let_def max_def)
  then show thesis using that [of 0] that [of 1] by auto
qed

lemma vrun_ge:
  "r < ns \<Longrightarrow> bits bs \<Longrightarrow> length bs = length ss \<Longrightarrow> U r + pmetric c r bs ss \<le> vrun c U ss (endst c r bs)"
proof (induction bs arbitrary: r U ss)
  case (Cons b bs)
  then obtain s ss' where ss: "ss = s # ss'" by (cases ss) auto
  have b: "b < 2" using Cons.prems(2) by auto
  have "vstep c U s (nxt c r b) + pmetric c (nxt c r b) bs ss' \<le> vrun c (vstep c U s) ss' (endst c (nxt c r b) bs)"
    using Cons.IH [of "nxt c r b" ss' "vstep c U s"] Cons.prems b ss nxt_less by auto
  then show ?case using vstep_ge [OF Cons.prems(1) b, of U s] ss by auto
qed simp

lemma div_half_less: "r < ns \<Longrightarrow> r div half c < 2"
  by (simp add: less_mult_imp_div_less)

lemma vrun_attained:
  "r < ns \<Longrightarrow> \<exists>p bs. p < ns \<and> bits bs \<and> length bs = length ss \<and> endst c p bs = r \<and> vrun c U ss r = U p + pmetric c p bs ss"
proof (induction ss arbitrary: U)
  case Nil
  then show ?case by (intro exI [of _ r] exI [of _ "[]"]) simp
next
  case (Cons s ss)
  obtain q bs where q: "q < ns" "bits bs" "length bs = length ss" "endst c q bs = r"
    "vrun c (vstep c U s) ss r = vstep c U s q + pmetric c q bs ss"
    using Cons.IH [OF Cons.prems, of "vstep c U s"] by blast
  obtain d where d: "d < 2" "vstep c U s q = U (2 * (q mod half c) + d) + dot s (nrz c (2 * (q mod half c) + d) (q div half c))"
    using vstep_attained by blast
  have "q div half c = 0 \<or> q div half c = 1" using div_half_less [OF q(1)] by auto
  with q d nxt_pred [OF q(1) d(1)] pred_less [OF d(1), of q] show ?case
    by (intro exI [of _ "2 * (q mod half c) + d"] exI [of _ "(q div half c) # bs"]) simp
qed

text \<open>A state forgets where a path started after one input for each of its bits.\<close>

lemma half_split: "k \<le> cc_K c - 2 \<Longrightarrow> half c = 2 ^ k * 2 ^ (cc_K c - 2 - k)"
  by (simp add: half_def power_add [symmetric])

lemma endst_merge:
  "p < ns \<Longrightarrow> p' < ns \<Longrightarrow> length bs \<le> cc_K c - 1 \<Longrightarrow>
    endst c p bs div 2 ^ (cc_K c - 1 - length bs) = endst c p' bs div 2 ^ (cc_K c - 1 - length bs)"
proof (induction bs rule: rev_induct)
  case Nil
  have "ns = 2 ^ (cc_K c - 1)" using half_cases by auto
  then show ?case using Nil by simp
next
  case (snoc b bs)
  let ?n = "length bs" and ?k = "cc_K c - 2 - length bs"
  have k: "?n \<le> cc_K c - 2" "cc_K c - 1 - ?n = Suc ?k" "cc_K c - 1 - length (bs @ [b]) = ?k" using snoc.prems(3) by auto
  have h: "half c = 2 ^ ?n * 2 ^ ?k" using half_split [OF k(1)] .
  have "nxt c e b div 2 ^ ?k = b * 2 ^ ?n + e div 2 ^ Suc ?k" for e
  proof -
    have "nxt c e b div 2 ^ ?k = (b * 2 ^ ?n * 2 ^ ?k + e div 2) div 2 ^ ?k" by (simp add: nxt_def h mult.assoc)
    also have "\<dots> = b * 2 ^ ?n + e div 2 div 2 ^ ?k" by simp
    finally show ?thesis by (simp add: div_mult2_eq)
  qed
  moreover have "endst c p bs div 2 ^ Suc ?k = endst c p' bs div 2 ^ Suc ?k" using snoc.IH snoc.prems k(2) by auto
  ultimately show ?case unfolding k(3) endst_append by simp
qed

lemma reachable: "p < ns \<Longrightarrow> r < ns \<Longrightarrow> \<exists>bs. bits bs \<and> length bs = cc_K c - 1 \<and> endst c p bs = r"
proof -
  assume p: "p < ns" and r: "r < ns"
  obtain q bs where q: "q < ns" "bits bs" "length bs = cc_K c - 1" "endst c q bs = r"
    using vrun_attained [OF r, of "replicate (cc_K c - 1) []" "\<lambda>_. 0"] by auto
  then show ?thesis using endst_merge [OF p q(1), of bs] by auto
qed

lemma zero_tail:
  "q < ns \<Longrightarrow> bits bs \<Longrightarrow> length bs + j \<le> cc_K c - 1 \<Longrightarrow> endst c q bs < 2 ^ j \<Longrightarrow> set bs \<subseteq> {0}"
proof (induction bs arbitrary: j rule: rev_induct)
  case (snoc b bs)
  have e: "endst c q (bs @ [b]) = b * half c + endst c q bs div 2" by (simp add: endst_append nxt_def)
  have "(2::nat) ^ j \<le> half c" unfolding half_def using snoc.prems(3) by (intro power_increasing) auto
  moreover have "b = 0 \<or> b = 1" using snoc.prems(2) by simp
  ultimately have b: "b = 0" using snoc.prems(4) unfolding e by (elim disjE) simp_all
  then have "endst c q bs < 2 ^ Suc j" using snoc.prems(4) e by simp
  then have "set bs \<subseteq> {0}" using snoc.IH [of "Suc j"] snoc.prems(1-3) by simp
  with b show ?case by simp
qed simp

lemma zero_end:
  "q < ns \<Longrightarrow> bits bs \<Longrightarrow> length bs = cc_K c - 1 \<Longrightarrow> endst c q bs = 0 \<Longrightarrow> bs = replicate (cc_K c - 1) 0"
  using zero_tail [of q bs 0] by (intro replicate_eqI) auto

text \<open>The metrics of two paths differ by at most twice the magnitude of the symbols where the outputs differ.\<close>

lemma nrz_sign: "x \<in> set (nrz c r b) \<Longrightarrow> x = 1 \<or> x = - 1"
  by (auto simp: nrz_def BIT2NRZ_def)

lemma length_nrz [simp]: "length (nrz c r b) = cc_N c"
  by (simp add: nrz_def)

end

definition loud :: "int list list \<Rightarrow> nat \<Rightarrow> bool" where
  "loud ss n \<longleftrightarrow> (\<forall>s \<in> set ss. length s = n \<and> (\<forall>x \<in> set s. \<bar>x\<bar> \<le> 127))"

lemma dot_diff:
  "length xs = length s \<Longrightarrow> length ys = length s \<Longrightarrow> \<forall>x \<in> set s. \<bar>x\<bar> \<le> 127 \<Longrightarrow>
    \<forall>x \<in> set xs. x = 1 \<or> x = - 1 \<Longrightarrow> \<forall>x \<in> set ys. x = 1 \<or> x = - 1 \<Longrightarrow> dot s xs - dot s ys \<le> 254 * int (ham xs ys)"
proof (induction s arbitrary: xs ys)
  case (Cons a s)
  then obtain x xs' y ys' where xy: "xs = x # xs'" "ys = y # ys'" by (metis length_Suc_conv)
  have IH: "dot s xs' - dot s ys' \<le> 254 * int (ham xs' ys')" using Cons xy by auto
  have "a * x - a * y \<le> 254 * (if x = y then 0 else 1)" using Cons.prems xy by auto
  then show ?case using IH xy by (auto simp: dot_def ham_def)
qed (simp add: dot_def ham_def)

lemma dot_le:
  "length xs = length s \<Longrightarrow> \<forall>x \<in> set s. \<bar>x\<bar> \<le> 127 \<Longrightarrow> \<forall>x \<in> set xs. x = 1 \<or> x = - 1 \<Longrightarrow> \<bar>dot s xs\<bar> \<le> 127 * int (length s)"
proof (induction s arbitrary: xs)
  case (Cons a s)
  then obtain x xs' where x: "xs = x # xs'" by (metis length_Suc_conv)
  have "\<bar>dot s xs'\<bar> \<le> 127 * int (length s)" using Cons x by auto
  moreover have "\<bar>a * x\<bar> \<le> 127" using Cons.prems x by auto
  ultimately show ?case using x by (auto simp: dot_def)
qed (simp add: dot_def)

context acc_code
begin

lemma pmetric_diff:
  "length bs = length ss \<Longrightarrow> length bs' = length ss \<Longrightarrow> loud ss (cc_N c) \<Longrightarrow>
    pmetric c p bs ss - pmetric c p' bs' ss \<le> 254 * int (pdist c p bs p' bs')"
proof (induction ss arbitrary: p p' bs bs')
  case (Cons s ss)
  then obtain b bs1 b' bs1' where b: "bs = b # bs1" "bs' = b' # bs1'" by (metis length_Suc_conv)
  have "pmetric c (nxt c p b) bs1 ss - pmetric c (nxt c p' b') bs1' ss \<le> 254 * int (pdist c (nxt c p b) bs1 (nxt c p' b') bs1')"
    using Cons b by (auto simp: loud_def)
  moreover have "dot s (nrz c p b) - dot s (nrz c p' b') \<le> 254 * int (ham (nrz c p b) (nrz c p' b'))"
    by (rule dot_diff) (use Cons.prems(3) nrz_sign in \<open>auto simp: loud_def\<close>)
  ultimately show ?case using b by simp
qed simp

abbreviation "D \<equiv> 127 * int (cc_N c)"

text \<open>The spread of the path metrics after at least one step for each bit of the state.\<close>

lemma spread:
  assumes "r < ns" "r' < ns" "loud ss (cc_N c)" "cc_K c - 1 \<le> length ss"
  shows "vrun c U ss r' - vrun c U ss r \<le> (int (cc_K c) + 1) * D"
proof -
  define ts where "ts = drop (length ss - (cc_K c - 1)) ss"
  define W where "W = vrun c U (take (length ss - (cc_K c - 1)) ss)"
  have ts: "length ts = cc_K c - 1" "loud ts (cc_N c)"
    using assms(3,4) by (auto simp: ts_def loud_def dest: in_set_dropD)
  have run: "vrun c U ss = vrun c W ts" by (simp add: W_def ts_def flip: vrun_append)
  obtain p bs' where p: "p < ns" "bits bs'" "length bs' = length ts" "vrun c W ts r' = W p + pmetric c p bs' ts"
    using vrun_attained [OF assms(2)] by blast
  obtain bs where bs: "bits bs" "length bs = length ts" "endst c p bs = r" using reachable [OF p(1) assms(1)] ts(1) by auto
  have "W p + pmetric c p bs ts \<le> vrun c W ts r" using vrun_ge [OF p(1) bs(1,2)] bs(3) by simp
  moreover have "pmetric c p bs' ts - pmetric c p bs ts \<le> 254 * int (pdist c p bs' p bs)"
    using pmetric_diff [OF p(3) bs(2) ts(2)] .
  moreover have "2 * pdist c p bs' p bs \<le> (cc_K c + 1) * cc_N c"
    using diverge [OF p(1,2) bs(1)] p(3) bs(2) ts(1) by simp
  then have "int (2 * pdist c p bs' p bs) \<le> int ((cc_K c + 1) * cc_N c)" by (simp only: of_nat_le_iff)
  ultimately show ?thesis using p(4) unfolding run by (simp add: algebra_simps)
qed

end

section \<open>The decoder follows the recursion\<close>

lemma i16_id: "- 32768 \<le> x \<Longrightarrow> x \<le> 32767 \<Longrightarrow> i16 x = x"
  by (simp add: i16_def)

lemma i16_diff: "i16 (i16 a - i16 b) = i16 (a - b)"
proof -
  have "(i16 a - i16 b + 32768) mod 65536 = (a - b + 32768) mod 65536"
    by (simp add: i16_def mod_simps algebra_simps)
  then show ?thesis by (simp add: i16_def)
qed

lemma fold_min_in: "fold min xs (a :: int) \<in> insert a (set xs)"
proof (induction xs arbitrary: a)
  case (Cons x xs)
  then show ?case using Cons [of "min x a"] by (auto simp: min_def split: if_splits)
qed simp

lemma dot_uminus: "dot s (map uminus xs) = - dot s xs"
proof (induction s arbitrary: xs)
  case (Cons a s)
  then show ?case by (cases xs) (auto simp: dot_def)
qed (simp add: dot_def)

context acc_code
begin

definition trellis_for :: "vtrellis \<Rightarrow> bool" where
  "trellis_for t \<longleftrightarrow> num_states t = ns \<and> (\<forall>i < half c. outputs t ! i = nrz c (2 * i) 0) \<and> vals t = map (\<lambda>r. r div half c) [0..<ns]"

definition row_ok :: "(nat \<Rightarrow> int) \<Rightarrow> int list \<Rightarrow> int list \<Rightarrow> bool" where
  "row_ok U s row \<longleftrightarrow> length row = ns \<and> (\<forall>r < ns. \<exists>d < 2. row ! r = int d - 1 \<and>
     vstep c U s r = U (2 * (r mod half c) + d) + dot s (nrz c (2 * (r mod half c) + d) (r div half c)))"

lemma vstep_butterfly:
  assumes "i < half c"
  shows "vstep c U s i = max (U (2 * i) + dot s (nrz c (2 * i) 0)) (U (2 * i + 1) - dot s (nrz c (2 * i) 0))"
    and "vstep c U s (half c + i) = max (U (2 * i) - dot s (nrz c (2 * i) 0)) (U (2 * i + 1) + dot s (nrz c (2 * i) 0))"
proof -
  have e: "i mod half c = i" "i div half c = 0" "(half c + i) mod half c = i" "(half c + i) div half c = 1"
    using assms half_pos by (auto simp: div_add_self1)
  show "vstep c U s i = max (U (2 * i) + dot s (nrz c (2 * i) 0)) (U (2 * i + 1) - dot s (nrz c (2 * i) 0))"
    unfolding vstep_def Let_def e butterfly(1) [OF assms] dot_uminus by simp
  show "vstep c U s (half c + i) = max (U (2 * i) - dot s (nrz c (2 * i) 0)) (U (2 * i + 1) + dot s (nrz c (2 * i) 0))"
    unfolding vstep_def Let_def e butterfly(2,3) [OF assms] dot_uminus by simp
qed

lemma branch_metrics:
  assumes "trellis_for t" "length s = cc_N c" "\<forall>x \<in> set s. \<bar>x\<bar> \<le> 127" "i < half c"
  shows "gen_branch_metrics s t ! i = dot s (nrz c (2 * i) 0)" "length (gen_branch_metrics s t) = half c"
proof -
  have "\<bar>dot s (nrz c (2 * i) 0)\<bar> \<le> 127 * int (length s)"
    by (rule dot_le) (use assms(2,3) nrz_sign in auto)
  also have "\<dots> \<le> 508" using N assms(2) by auto
  finally have "i16 (dot s (nrz c (2 * i) 0)) = dot s (nrz c (2 * i) 0)" by (intro i16_id) auto
  then show "gen_branch_metrics s t ! i = dot s (nrz c (2 * i) 0)" "length (gen_branch_metrics s t) = half c"
    using assms(1,4) by (simp_all add: gen_branch_metrics_def trellis_for_def dot_def)
qed

lemma less_ns_cases: "r < ns \<Longrightarrow> (r < half c \<Longrightarrow> P r) \<Longrightarrow> (\<And>i. i < half c \<Longrightarrow> r = half c + i \<Longrightarrow> P (half c + i)) \<Longrightarrow> P r"
  by (cases "r < half c") (auto simp: le_iff_add not_less)

lemma acs_shift:
  "acs_butterfly (x - k) (y - k) m =
    ((i16 (max (x + m) (y - m) - k), if y - m \<le> x + m then - 1 else 0),
     (i16 (max (x - m) (y + m) - k), if y + m \<le> x - m then - 1 else 0))"
proof -
  have 1: "acs_butterfly a b m = ((i16 (max (a + m) (b - m)), if b - m \<le> a + m then - 1 else 0),
      (i16 (max (a - m) (b + m)), if b + m \<le> a - m then - 1 else 0))" for a b
    by (auto simp: acs_butterfly_def Let_def max_def intro!: arg_cong [of _ _ i16])
  have 2: "max (x - k + m) (y - k - m) = max (x + m) (y - m) - k" "max (x - k - m) (y - k + m) = max (x - m) (y + m) - k"
    by (simp_all add: max_def)
  have 3: "y - k - m \<le> x - k + m \<longleftrightarrow> y - m \<le> x + m" "y - k + m \<le> x - k - m \<longleftrightarrow> y + m \<le> x - m" by auto
  show ?thesis unfolding 1 2 3 by (rule refl)
qed

lemma path_metrics_raw:
  assumes "\<And>r. r < ns \<Longrightarrow> sms ! r = U r - k" "\<And>i. i < half c \<Longrightarrow> ms ! i = dot s (nrz c (2 * i) 0)"
  shows "case gen_path_metrics ns sms ms False of (new, row) \<Rightarrow>
    length new = ns \<and> (\<forall>r < ns. new ! r = i16 (vstep c U s r - k)) \<and> row_ok U s row"
proof -
  let ?acs = "map (\<lambda>i. acs_butterfly (sms ! (2 * i)) (sms ! (2 * i + 1)) (ms ! i)) [0..<half c]"
  let ?new = "map (fst \<circ> fst) ?acs @ map (fst \<circ> snd) ?acs" and ?row = "map (snd \<circ> fst) ?acs @ map (snd \<circ> snd) ?acs"
  have g: "gen_path_metrics ns sms ms False = (?new, ?row)" by (simp add: gen_path_metrics_def Let_def)
  have st: "sms ! (2 * i) = U (2 * i) - k" "sms ! (2 * i + 1) = U (2 * i + 1) - k" if "i < half c" for i
    using assms(1) [of "2 * i"] assms(1) [of "2 * i + 1"] that by simp_all
  have new: "?new ! i = i16 (vstep c U s i - k)" "?new ! (half c + i) = i16 (vstep c U s (half c + i) - k)"
    and row: "?row ! i = (if U (2 * i + 1) - dot s (nrz c (2 * i) 0) \<le> U (2 * i) + dot s (nrz c (2 * i) 0) then - 1 else 0)"
      "?row ! (half c + i) = (if U (2 * i + 1) + dot s (nrz c (2 * i) 0) \<le> U (2 * i) - dot s (nrz c (2 * i) 0) then - 1 else 0)"
    if i: "i < half c" for i
    using i unfolding vstep_butterfly [OF i]
    by (simp_all add: nth_append st [OF i] assms(2) [OF i] acs_shift del: One_nat_def add_Suc_right)
  have pick: "\<exists>d < 2. (if y \<le> x then - 1 else 0 :: int) = int d - 1 \<and> max x y = (if d = 0 then x else y)" for x y :: int
    by (cases "y \<le> x") (auto intro: exI [of _ "0::nat"] exI [of _ "1::nat"])
  have low: "?new ! r = i16 (vstep c U s r - k) \<and> (\<exists>d < 2. ?row ! r = int d - 1 \<and>
     vstep c U s r = U (2 * (r mod half c) + d) + dot s (nrz c (2 * (r mod half c) + d) (r div half c)))" if r: "r < half c" for r
  proof -
    obtain d where d: "d < 2" "?row ! r = int d - 1" "vstep c U s r = (if d = 0 then U (2 * r) + dot s (nrz c (2 * r) 0) else U (2 * r + 1) - dot s (nrz c (2 * r) 0))"
      using pick [of "U (2 * r + 1) - dot s (nrz c (2 * r) 0)" "U (2 * r) + dot s (nrz c (2 * r) 0)"]
      unfolding row(1) [OF r] vstep_butterfly(1) [OF r] by blast
    have "dot s (nrz c (2 * r + 1) 0) = - dot s (nrz c (2 * r) 0)" using butterfly(1) [OF r] dot_uminus by metis
    with d r new(1) [OF r] show ?thesis by (intro conjI exI [of _ d]) (auto simp: less_2_cases_iff)
  qed
  have high: "?new ! (half c + i) = i16 (vstep c U s (half c + i) - k) \<and> (\<exists>d < 2. ?row ! (half c + i) = int d - 1 \<and>
     vstep c U s (half c + i) = U (2 * ((half c + i) mod half c) + d) + dot s (nrz c (2 * ((half c + i) mod half c) + d) ((half c + i) div half c)))"
    if i: "i < half c" for i
  proof -
    have e: "(half c + i) mod half c = i" "(half c + i) div half c = 1" using i half_pos by (auto simp: div_add_self1)
    obtain d where d: "d < 2" "?row ! (half c + i) = int d - 1"
      "vstep c U s (half c + i) = (if d = 0 then U (2 * i) - dot s (nrz c (2 * i) 0) else U (2 * i + 1) + dot s (nrz c (2 * i) 0))"
      using pick [of "U (2 * i + 1) + dot s (nrz c (2 * i) 0)" "U (2 * i) - dot s (nrz c (2 * i) 0)"]
      unfolding row(2) [OF i] vstep_butterfly(2) [OF i] by blast
    have "dot s (nrz c (2 * i) 1) = - dot s (nrz c (2 * i) 0)" "dot s (nrz c (2 * i + 1) 1) = dot s (nrz c (2 * i) 0)"
      using butterfly(2,3) [OF i] dot_uminus by metis+
    with d new(2) [OF i] show ?thesis unfolding e by (intro conjI exI [of _ d]) (auto simp: less_2_cases_iff)
  qed
  have "?new ! r = i16 (vstep c U s r - k) \<and> (\<exists>d < 2. ?row ! r = int d - 1 \<and>
     vstep c U s r = U (2 * (r mod half c) + d) + dot s (nrz c (2 * (r mod half c) + d) (r div half c)))" if "r < ns" for r
    using that by (rule less_ns_cases) (use low high in blast)+
  then show ?thesis unfolding g prod.case row_ok_def by simp
qed

lemma path_metrics_norm:
  assumes raw: "gen_path_metrics ns sms ms False = (new, row)" "length new = ns" "\<forall>r < ns. new ! r = i16 (V r - k)"
    and bound: "\<forall>r < ns. \<forall>q < ns. V r - V q \<le> 32767"
  shows "\<exists>new' q. gen_path_metrics ns sms ms True = (new', row) \<and> length new' = ns \<and> q < ns \<and> (\<forall>r < ns. new' ! r = V r - V q)"
proof -
  obtain a rest where new: "new = a # rest" using raw(2) half_pos by (cases new) auto
  have "fold min (tl new) (hd new) \<in> set new" using fold_min_in [of rest a] new by simp
  then obtain q where q: "q < ns" "fold min (tl new) (hd new) = new ! q" using raw(2) by (metis in_set_conv_nth)
  have e: "V r - k - (V q - k) = V r - V q" for r by simp
  have "i16 (V r - k - (V q - k)) = V r - V q" if "r < ns" for r
    unfolding e using bound [rule_format, OF that q(1)] bound [rule_format, OF q(1) that] by (intro i16_id) auto
  then have "\<forall>r < ns. map (\<lambda>x. i16 (x - new ! q)) new ! r = V r - V q"
    using raw(2,3) q(1) i16_diff by auto
  moreover have "gen_path_metrics ns sms ms True = (map (\<lambda>x. i16 (x - fold min (tl new) (hd new))) new, row)"
    using raw(1) by (auto simp: gen_path_metrics_def Let_def)
  ultimately show ?thesis using q raw(2) by (intro exI [of _ "map (\<lambda>x. i16 (x - new ! q)) new"] exI [of _ q]) simp
qed

lemma abs_dot: "r < ns \<Longrightarrow> length s = cc_N c \<Longrightarrow> \<forall>x \<in> set s. \<bar>x\<bar> \<le> 127 \<Longrightarrow> \<bar>dot s (nrz c r b)\<bar> \<le> D"
  using dot_le [of "nrz c r b" s] nrz_sign by auto

lemma vstep_le:
  assumes "\<forall>r < ns. U r \<le> M" "length s = cc_N c" "\<forall>x \<in> set s. \<bar>x\<bar> \<le> 127" "r < ns"
  shows "vstep c U s r \<le> M + D"
proof -
  obtain d where d: "d < 2" "vstep c U s r = U (2 * (r mod half c) + d) + dot s (nrz c (2 * (r mod half c) + d) (r div half c))"
    using vstep_attained by blast
  show ?thesis using d(2) assms(1) pred_less [OF d(1), of r] abs_dot [OF pred_less [OF d(1), of r] assms(2,3), of "r div half c"]
    by fastforce
qed

lemma vstep_lower:
  assumes "\<forall>r < ns. L \<le> U r" "r < ns"
  shows "L \<le> vstep c U s r"
proof -
  have "L \<le> U (2 * i)" "L \<le> U (2 * i + 1)" if "i < half c" for i using assms(1) that by auto
  then have "L \<le> vstep c U s i" "L \<le> vstep c U s (half c + i)" if "i < half c" for i
    using that unfolding vstep_butterfly [OF that] by (smt (verit))+
  then show ?thesis using assms(2) by (rule_tac less_ns_cases [of r]) auto
qed

abbreviation "I \<equiv> 32767 div (cc_N c * 127) - cc_K c"
abbreviation "B \<equiv> (int (cc_K c) + 1) * D"

lemma interval: "cc_K c \<le> I" "0 < I" "B + (int I - 1) * D \<le> 32767" "B \<le> 32767" "0 \<le> B"
  using K N by auto

text \<open>The metrics before a decoder starts.\<close>

definition U0 :: "nat \<Rightarrow> int" where
  "U0 r = (if r = 0 then int (cc_K c) * D else 0)"

lemma U0_bounds: "0 \<le> U0 r" "U0 r \<le> int (cc_K c) * D"
  by (simp_all add: U0_def)

text \<open>The spread just after a step that normalises, the first one or a later one.\<close>

lemma spread_norm:
  assumes "loud ss (cc_N c)" "ss \<noteq> []" "(length ss - 1) mod I = 0" "r < ns" "q < ns"
  shows "vrun c U0 ss r - vrun c U0 ss q \<le> B"
proof (cases "length ss = 1")
  case True
  then obtain s where ss: "ss = [s]" by (auto simp: length_Suc_conv)
  have s: "length s = cc_N c" "\<forall>x \<in> set s. \<bar>x\<bar> \<le> 127" using assms(1) ss by (simp_all add: loud_def)
  have "vstep c U0 s r \<le> int (cc_K c) * D + D" by (rule vstep_le) (use s assms(4) U0_bounds in auto)
  moreover have "0 \<le> vstep c U0 s q" by (rule vstep_lower) (use assms(5) U0_bounds in auto)
  ultimately show ?thesis using ss by (simp add: algebra_simps)
next
  case False
  then have "0 < length ss - 1" using assms(2) by (cases ss) auto
  with assms(3) have "I \<le> length ss - 1" by (meson dvd_imp_le mod_0_imp_dvd)
  then have "cc_K c - 1 \<le> length ss" using interval(1) by linarith
  then show ?thesis using spread [OF assms(5,4,1)] by simp
qed

definition in_range :: "nat \<Rightarrow> (nat \<Rightarrow> int) \<Rightarrow> int \<Rightarrow> bool" where
  "in_range i V k \<longleftrightarrow> (if i = 0 then V = U0 \<and> k = 0
     else \<forall>r < ns. - B \<le> V r - k \<and> V r - k \<le> B + int ((i - 1) mod I) * D)"

lemma step_range:
  assumes "in_range i V k" "i mod I \<noteq> 0" "length s = cc_N c" "\<forall>x \<in> set s. \<bar>x\<bar> \<le> 127"
  shows "in_range (Suc i) (vstep c V s) k"
    and "r < ns \<Longrightarrow> - 32768 \<le> vstep c V s r - k" "r < ns \<Longrightarrow> vstep c V s r - k \<le> 32767"
proof -
  have i: "i \<noteq> 0" using assms(2) by (metis mod_0)
  let ?j = "(i - 1) mod I"
  have j: "Suc ?j = i mod I" "Suc ?j < I"
    using assms(2) i interval(2) by (metis Suc_pred' bot_nat_0.not_eq_extremum mod_Suc mod_less_divisor)+
  have hi: "vstep c V s r \<le> (k + B + int ?j * D) + D" if "r < ns" for r
    by (rule vstep_le) (use assms(1,3,4) i that in \<open>auto simp: in_range_def\<close>)
  have lo: "k - B \<le> vstep c V s r" if "r < ns" for r
    by (rule vstep_lower) (use assms(1) i that in \<open>auto simp: in_range_def\<close>)
  have e: "int (i mod I) * D = int ?j * D + D" unfolding j(1) [symmetric] by (simp add: algebra_simps)
  show "in_range (Suc i) (vstep c V s) k" unfolding in_range_def using hi lo e by fastforce
  have "int (Suc ?j) * D \<le> (int I - 1) * D" using j(2) by (intro mult_right_mono) auto
  then have "B + int ?j * D + D \<le> 32767" using interval(3) by (simp add: algebra_simps)
  then show "r < ns \<Longrightarrow> - 32768 \<le> vstep c V s r - k" "r < ns \<Longrightarrow> vstep c V s r - k \<le> 32767"
    using hi [of r] lo [of r] interval(4) by auto
qed

text \<open>All steps of the decoder: its rows of selections are valid for the exact recursion.\<close>

definition rows_ok :: "(nat \<Rightarrow> int) \<Rightarrow> int list list \<Rightarrow> int list list \<Rightarrow> bool" where
  "rows_ok U ss rows \<longleftrightarrow> length rows = length ss \<and> (\<forall>i < length ss. row_ok (vrun c U (take i ss)) (ss ! i) (rows ! i))"

lemma rows_ok_snoc: "rows_ok U ss rows \<Longrightarrow> row_ok (vrun c U ss) s row \<Longrightarrow> rows_ok U (ss @ [s]) (rows @ [row])"
  by (auto simp: rows_ok_def nth_append less_Suc_eq)

lemma rows_ok_snocD:
  assumes "rows_ok U (ss @ [s]) (rows @ [row])"
  shows "rows_ok U ss rows" "row_ok (vrun c U ss) s row"
proof -
  have l: "length rows = length ss" using assms by (simp add: rows_ok_def)
  have a: "row_ok (vrun c U (take i (ss @ [s]))) ((ss @ [s]) ! i) ((rows @ [row]) ! i)"
    if "i \<le> length ss" for i using assms that by (simp add: rows_ok_def)
  show "row_ok (vrun c U ss) s row" using a [of "length ss"] unfolding l [symmetric] nth_append_length by (simp add: l)
  have "row_ok (vrun c U (take i ss)) (ss ! i) (rows ! i)" if "i < length ss" for i
    using a [of i] that l by (simp add: nth_append)
  then show "rows_ok U ss rows" using l by (simp add: rows_ok_def)
qed

definition dec_ok :: "vdecoder \<Rightarrow> int list list \<Rightarrow> bool" where
  "dec_ok dec ss \<longleftrightarrow> trellis_for (dec_trellis dec) \<and> dec_n dec = cc_N c \<and> dec_k dec = cc_K c \<and> \<not> dec_recursive dec
     \<and> dec_intrvl dec = I \<and> rows_ok U0 ss (dec_paths dec) \<and>
     (\<exists>k. in_range (length ss) (vrun c U0 ss) k \<and> (\<forall>r < ns. sums (dec_trellis dec) ! r = vrun c U0 ss r - k))"

lemma trellis_sums: "trellis_for t \<Longrightarrow> trellis_for (t\<lparr>sums := x\<rparr>)"
  by (simp add: trellis_for_def)

lemma path_metrics_step:
  assumes "dec_ok dec ss" "loud (ss @ [s]) (cc_N c)"
  shows "\<exists>new row. gen_path_metrics ns (sums (dec_trellis dec)) (gen_branch_metrics s (dec_trellis dec)) (length ss mod I = 0) = (new, row) \<and>
    row_ok (vrun c U0 ss) s row \<and>
    (\<exists>k. in_range (Suc (length ss)) (vrun c U0 (ss @ [s])) k \<and> (\<forall>r < ns. new ! r = vrun c U0 (ss @ [s]) r - k))"
proof -
  let ?V = "vrun c U0 ss" and ?t = "dec_trellis dec"
  have s: "length s = cc_N c" "\<forall>x \<in> set s. \<bar>x\<bar> \<le> 127" using assms(2) by (simp_all add: loud_def)
  obtain k where k: "in_range (length ss) ?V k" "\<forall>r < ns. sums ?t ! r = ?V r - k" using assms(1) by (auto simp: dec_ok_def)
  have t: "trellis_for ?t" using assms(1) by (simp add: dec_ok_def)
  obtain new row where raw: "gen_path_metrics ns (sums ?t) (gen_branch_metrics s ?t) False = (new, row)"
    "length new = ns" "\<forall>r < ns. new ! r = i16 (vstep c ?V s r - k)" "row_ok ?V s row"
    using path_metrics_raw [of "sums ?t" ?V k "gen_branch_metrics s ?t" s] k(2) branch_metrics(1) [OF t s] by (auto split: prod.splits)
  have run: "vrun c U0 (ss @ [s]) = vstep c ?V s" by (simp add: vrun_append)
  show ?thesis
  proof (cases "length ss mod I = 0")
    case False
    have "new ! r = vstep c ?V s r - k" if "r < ns" for r
      using raw(3) that step_range(2,3) [OF k(1) False s that] by (simp add: i16_id)
    then show ?thesis using raw(1,4) step_range(1) [OF k(1) False s] False unfolding run by auto
  next
    case True
    have b: "vstep c ?V s r - vstep c ?V s q \<le> B" if "r < ns" "q < ns" for r q
      using spread_norm [OF assms(2), of r q] True that unfolding run by simp
    then have "\<forall>r < ns. \<forall>q < ns. vstep c ?V s r - vstep c ?V s q \<le> 32767" using interval(4) by fastforce
    from path_metrics_norm [OF raw(1-3) this] obtain new' q where
      n: "gen_path_metrics ns (sums ?t) (gen_branch_metrics s ?t) True = (new', row)" "q < ns"
      "\<forall>r < ns. new' ! r = vstep c ?V s r - vstep c ?V s q" by blast
    have "in_range (Suc (length ss)) (vstep c ?V s) (vstep c ?V s q)"
      unfolding in_range_def using b n(2) True by fastforce
    then show ?thesis using n raw(4) True unfolding run by auto
  qed
qed

lemma forward_ok:
  assumes "dec_ok dec ss" "\<forall>x \<in> set cs. length x = cc_N c" "loud (ss @ map (map sint) cs) (cc_N c)"
  shows "\<exists>dec'. forward_steps dec [length ss..<length ss + length cs] (concat cs) = Some dec' \<and>
    dec_ok dec' (ss @ map (map sint) cs)"
  using assms
proof (induction cs arbitrary: dec ss)
  case (Cons x cs)
  let ?s = "map sint x" and ?t = "dec_trellis dec"
  have x: "length x = cc_N c" using Cons.prems(2) by simp
  have l: "loud (ss @ [?s]) (cc_N c)" using Cons.prems(3) by (auto simp: loud_def)
  obtain new row where g: "gen_path_metrics ns (sums ?t) (gen_branch_metrics ?s ?t) (length ss mod I = 0) = (new, row)"
    "row_ok (vrun c U0 ss) ?s row"
    "\<exists>k. in_range (Suc (length ss)) (vrun c U0 (ss @ [?s])) k \<and> (\<forall>r < ns. new ! r = vrun c U0 (ss @ [?s]) r - k)"
    using path_metrics_step [OF Cons.prems(1) l] by blast
  let ?dec = "dec\<lparr>dec_trellis := ?t\<lparr>sums := new\<rparr>, dec_paths := dec_paths dec @ [row]\<rparr>"
  have ok: "dec_ok ?dec (ss @ [?s])"
    using Cons.prems(1) g(2,3) trellis_sums rows_ok_snoc by (auto simp: dec_ok_def)
  obtain dec' where d: "forward_steps ?dec [Suc (length ss)..<Suc (length ss) + length cs] (concat cs) = Some dec'"
    "dec_ok dec' ((ss @ [?s]) @ map (map sint) cs)"
    using Cons.IH [OF ok] Cons.prems(2,3) by auto
  have f: "num_states ?t = ns" "dec_n dec = cc_N c" "dec_intrvl dec = I"
    using Cons.prems(1) by (simp_all add: dec_ok_def trellis_for_def)
  have u: "[length ss..<length ss + length (x # cs)] = length ss # [Suc (length ss)..<Suc (length ss) + length cs]"
    by (simp add: upt_rec)
  show ?case using d x g(1) unfolding u by (simp add: mem_read_def f)
qed auto

lemma all_upt: "list_all P [0..<n] \<Longrightarrow> r < n \<Longrightarrow> P r"
  by (simp add: list_all_iff)

lemma lshift_pred: "r < ns \<Longrightarrow> d < 2 \<Longrightarrow> vstate_lshift r (cc_K c) d = 2 * (r mod half c) + d"
proof -
  assume r: "r < ns" "d < 2"
  have "d = 0 \<or> d = 1" using r(2) by auto
  then show ?thesis using half_cases r(1) all_upt [OF vstate_lshift_pred(1), of r] all_upt [OF vstate_lshift_pred(2), of r]
    by auto
qed

definition trace_for :: "vdecoder \<Rightarrow> bool" where
  "trace_for dec \<longleftrightarrow> dec_k dec = cc_K c \<and> \<not> dec_recursive dec \<and> vals (dec_trellis dec) = map (\<lambda>r. r div half c) [0..<ns]"

lemma trace_step:
  assumes "row_ok U s row" "r < ns"
  obtains d p where "d < 2" "row ! r = int d - 1" "r < length row" "p = 2 * (r mod half c) + d" "p < ns" "nxt c p (r div half c) = r"
    "vstate_lshift r (cc_K c) (nat (row ! r + 1)) = p" "vstep c U s r = U p + dot s (nrz c p (r div half c))"
proof -
  obtain d where d: "d < 2" "row ! r = int d - 1" "length row = ns"
    "vstep c U s r = U (2 * (r mod half c) + d) + dot s (nrz c (2 * (r mod half c) + d) (r div half c))"
    using assms by (auto simp: row_ok_def)
  show thesis
    by (rule that [OF d(1,2) _ refl pred_less [OF d(1)] nxt_pred [OF assms(2) d(1)]])
      (use d assms(2) lshift_pred [OF assms(2) d(1)] in auto)
qed

lemma trace_ok:
  assumes "trace_for dec"
  shows "rows_ok U ss rows \<Longrightarrow> r < ns \<Longrightarrow> \<exists>p bs. p < ns \<and> bits bs \<and> length bs = length ss \<and> endst c p bs = r \<and>
    vrun c U ss r = U p + pmetric c p bs ss \<and> trace_tail dec (rev rows) r = Some p \<and>
    (\<forall>out. trace_back dec (rev rows) r out = Some (map of_nat bs @ out))"
proof (induction ss arbitrary: rows r rule: rev_induct)
  case Nil
  then show ?case by (intro exI [of _ r] exI [of _ "[]"]) (simp add: rows_ok_def)
next
  case (snoc s ss)
  obtain rows' row where rows: "rows = rows' @ [row]"
    using snoc.prems(1) by (cases rows rule: rev_cases) (auto simp: rows_ok_def)
  have ok: "rows_ok U ss rows'" "row_ok (vrun c U ss) s row"
    using rows_ok_snocD snoc.prems(1) rows by blast+
  let ?b = "r div half c"
  have b: "?b = 0 \<or> ?b = 1" using div_half_less [OF snoc.prems(2)] by auto
  obtain d q where q: "row ! r = int d - 1" "r < length row" "q < ns" "nxt c q ?b = r"
    "vstate_lshift r (cc_K c) (nat (row ! r + 1)) = q" "vstep c (vrun c U ss) s r = vrun c U ss q + dot s (nrz c q ?b)"
    using trace_step [OF ok(2) snoc.prems(2)] by metis
  obtain p bs where p: "p < ns" "bits bs" "length bs = length ss" "endst c p bs = q" "vrun c U ss q = U p + pmetric c p bs ss"
    "trace_tail dec (rev rows') q = Some p" "\<forall>out. trace_back dec (rev rows') q out = Some (map of_nat bs @ out)"
    using snoc.IH [OF ok(1) q(3)] by blast
  have v: "mem_at (vals (dec_trellis dec)) r = Some ?b" "dec_k dec = cc_K c" "\<not> dec_recursive dec" "mem_at row r = Some (row ! r)"
    using assms snoc.prems(2) q(2) by (simp_all add: trace_for_def mem_at_def)
  show ?case
    by (intro exI [of _ p] exI [of _ "bs @ [?b]"])
      (use p q v b in \<open>simp add: rows endst_append pmetric_append vrun_append\<close>)
qed

section \<open>The decoder at its start\<close>

lemma bitswap_less: "r < ns \<Longrightarrow> bitswap r (cc_K c - 1) < ns"
  using half_cases all_upt [OF bitswap_bound(1), of r] all_upt [OF bitswap_bound(2), of r] by auto

lemma unat_state: "r < ns \<Longrightarrow> unat (of_nat (bitswap r (cc_K c - 1)) :: u8) = bitswap r (cc_K c - 1)"
proof -
  assume "r < ns"
  then have "bitswap r (cc_K c - 1) < 256" using bitswap_less [of r] half_cases by auto
  then show ?thesis by (simp add: unat_of_nat)
qed

lemma unat_bit: "b < 2 \<Longrightarrow> unat (of_nat b :: u8) = b"
  by (simp add: unat_of_nat)

lemma lookups:
  assumes "r < ns" "b < 2"
  shows "next_of (next_output c) (of_nat (bitswap r (cc_K c - 1))) (of_nat b) = Some (next_output c ! bitswap r (cc_K c - 1) ! b)"
    and "next_of (next_state c) (of_nat (bitswap r (cc_K c - 1))) (of_nat b) = Some (of_nat (bitswap (nxt c r b) (cc_K c - 1)))"
proof -
  have "next_state c ! bitswap r (cc_K c - 1) ! b = of_nat (bitswap (nxt c r b) (cc_K c - 1))"
    unfolding shift [OF assms, symmetric] by simp
  then show "next_of (next_output c) (of_nat (bitswap r (cc_K c - 1))) (of_nat b) = Some (next_output c ! bitswap r (cc_K c - 1) ! b)"
    "next_of (next_state c) (of_nat (bitswap r (cc_K c - 1))) (of_nat b) = Some (of_nat (bitswap (nxt c r b) (cc_K c - 1)))"
    using tables bitswap_less [OF assms(1)] assms(2) unat_state [OF assms(1)] unat_bit [OF assms(2)]
    by (simp_all add: next_of_def mem_at_def)
qed

lemma state_info: "r < ns \<Longrightarrow> gen_state_info c r = Some (r div half c, nrz c (2 * (r mod half c)) (r div half c))"
proof -
  assume r: "r < ns"
  have p: "2 * (r mod half c) < ns" using pred_less [of 0 r] by simp
  have "drop_bit (cc_K c - 2) r AND 1 = r div half c"
    using div_half_less [OF r] by (simp add: drop_bit_eq_div half_def and_one_eq)
  then show ?thesis
    using lookups(1) [OF p div_half_less [OF r]] lshift_pred [OF r, of 0]
    by (simp add: gen_state_info_def gen_output_def nrz_def rout_def Let_def)
qed

lemma states_ok: "set rs \<subseteq> {..<ns} \<Longrightarrow>
    gen_states c rs = Some (Inr (map (\<lambda>r. (r div half c, nrz c (2 * (r mod half c)) (r div half c))) rs))"
  by (induction rs) (simp_all add: plain state_info)

lemma init_ok: "\<exists>dec. vdec_init c = Some (Inr dec) \<and> dec_ok dec [] \<and> trace_for dec \<and> dec_len dec = cc_len c + cc_K c - 1"
proof -
  let ?infos = "map (\<lambda>r. (r div half c, nrz c (2 * (r mod half c)) (r div half c))) [0..<ns]"
  let ?s0 = "(replicate ns 0)[0 := i16 (127 * int (cc_N c) * int (cc_K c))]"
  let ?t = "\<lparr>num_states = ns, sums = ?s0, outputs = map snd ?infos, vals = map fst ?infos\<rparr>"
  have ns: "NUM_STATES (cc_K c) = ns" using half_cases by (auto simp: NUM_STATES_def)
  have g: "generate_trellis c = Some (Inr ?t)"
    using states_ok [of "[0..<ns]"] by (simp add: generate_trellis_def ns plain Let_def atLeast_upt [symmetric] subset_iff)
  have "i16 (127 * int (cc_N c) * int (cc_K c)) = int (cc_K c) * D" using K N by (auto simp: i16_def)
  then have s0: "\<forall>r < ns. ?s0 ! r = U0 r - 0" by (simp add: U0_def nth_list_update)
  have t: "trellis_for ?t" by (simp add: trellis_for_def o_def)
  let ?dec = "\<lparr>dec_n = cc_N c, dec_k = cc_K c, dec_len = cc_len c + cc_K c - 1, dec_recursive = False,
    dec_intrvl = I, dec_trellis = ?t, dec_paths = []\<rparr>"
  have "vdec_init c = Some (Inr ?dec)" by (simp add: vdec_init_def K N g plain)
  moreover have "dec_ok ?dec []" using t s0 by (simp add: dec_ok_def rows_ok_def in_range_def)
  moreover have "trace_for ?dec" by (simp add: trace_for_def o_def)
  ultimately show ?thesis by (intro exI [of _ ?dec]) simp
qed

end

section \<open>The words of a code\<close>

text \<open>The output bits along a path, and their signs.\<close>

fun path_bits :: "osmo_conv_code \<Rightarrow> nat \<Rightarrow> nat list \<Rightarrow> ubit list" where
  "path_bits c r [] = []"
| "path_bits c r (b # bs) = map (\<lambda>j. of_bool (bit (rout c r b) j)) [0..<cc_N c] @ path_bits c (nxt c r b) bs"

definition word_of :: "osmo_conv_code \<Rightarrow> nat \<Rightarrow> nat list \<Rightarrow> ubit list" where
  "word_of c r bs = path_bits c r (bs @ replicate (cc_K c - 1) 0)"

definition bsgn :: "ubit \<Rightarrow> int" where
  "bsgn u = (if u = 0 then 1 else - 1)"

lemma bsgn_of_bool: "bsgn (of_bool P) = (if P then - 1 else 1)"
  by (simp add: bsgn_def)

lemma nrz_bits: "nrz c r b = map bsgn (map (\<lambda>j. of_bool (bit (rout c r b) j)) [0..<cc_N c])"
  by (simp add: nrz_def BIT2NRZ_def bsgn_of_bool)

lemma length_path_bits [simp]: "length (path_bits c r bs) = cc_N c * length bs"
  by (induction bs arbitrary: r) auto

lemma dot_append: "length xs = length ys \<Longrightarrow> dot (xs @ xs') (ys @ ys') = dot xs ys + dot xs' ys'"
  by (simp add: dot_def)

lemma ham_append: "length xs = length ys \<Longrightarrow> ham (xs @ xs') (ys @ ys') = ham xs ys + ham xs' ys'"
  by (simp add: ham_def)

lemma pmetric_dot:
  "length bs = length ss \<Longrightarrow> \<forall>s \<in> set ss. length s = cc_N c \<Longrightarrow> pmetric c r bs ss = dot (concat ss) (map bsgn (path_bits c r bs))"
proof (induction bs ss arbitrary: r rule: list_induct2)
  case Nil
  then show ?case by (simp add: dot_def)
next
  case (Cons b bs s ss)
  have "dot s (nrz c r b) = dot s (map bsgn (map (\<lambda>j. of_bool (bit (rout c r b) j)) [0..<cc_N c]))"
    by (simp only: nrz_bits)
  with Cons show ?case by (simp add: dot_append)
qed

lemma pdist_ham:
  "length bs = length bs' \<Longrightarrow> pdist c r bs r' bs' = ham (map bsgn (path_bits c r bs)) (map bsgn (path_bits c r' bs'))"
proof (induction bs bs' arbitrary: r r' rule: list_induct2)
  case Nil
  then show ?case by (simp add: ham_def)
next
  case (Cons b bs b' bs')
  have "ham (nrz c r b) (nrz c r' b') = ham (map bsgn (map (\<lambda>j. of_bool (bit (rout c r b) j)) [0..<cc_N c]))
      (map bsgn (map (\<lambda>j. of_bool (bit (rout c r' b') j)) [0..<cc_N c]))"
    by (simp only: nrz_bits)
  with Cons show ?case by (simp add: ham_append)
qed

lemma nat_mask_bits: "bit (1 :: nat) k \<longleftrightarrow> k = 0" "bit (2 :: nat) k \<longleftrightarrow> k = 1" "bit (4 :: nat) k \<longleftrightarrow> k = 2" "bit (8 :: nat) k \<longleftrightarrow> k = 3"
  using bit_exp_iff [where 'a = nat, of 0 k] bit_exp_iff [where 'a = nat, of 1 k] bit_exp_iff [where 'a = nat, of 2 k]
    bit_exp_iff [where 'a = nat, of 3 k] by auto

lemma swap_bits:
  "bit (bitswap2 v) j \<longleftrightarrow> j = 0 \<and> bit v 1 \<or> j = 1 \<and> bit v 0"
  "bit (bitswap3 v) j \<longleftrightarrow> j = 0 \<and> bit v 2 \<or> j = 1 \<and> bit v 1 \<or> j = 2 \<and> bit v 0"
  "bit (bitswap4 v) j \<longleftrightarrow> j = 0 \<and> bit v 3 \<or> j = 1 \<and> bit v 2 \<or> j = 2 \<and> bit v 1 \<or> j = 3 \<and> bit v 0"
  by (auto simp only: bitswap2_def bitswap3_def bitswap4_def bit_or_iff bit_and_iff bit_drop_bit_eq o_apply
    bit_push_bit_iff_nat nat_mask_bits) (simp_all add: numeral_eq_Suc)

lemma bitswap_bit:
  "n = 2 \<or> n = 3 \<or> n = 4 \<Longrightarrow> j < n \<Longrightarrow> bit (bitswap v n) j = bit v (n - j - 1)"
proof -
  assume n: "n = 2 \<or> n = 3 \<or> n = 4" and j: "j < n"
  have "j = 0 \<or> j = 1 \<or> j = 2 \<or> j = 3" using n j by auto
  then show ?thesis using n j by (elim disjE) (simp_all add: bitswap_def swap_bits)
qed

lemma unat_drop_and: "drop_bit k (w :: u8) AND 1 = of_bool (bit w k)"
  by (simp add: and_one_eq mod_2_eq_odd bit_iff_odd_drop_bit)

context acc_code
begin

lemma do_output_ok:
  "conv_encode_do_output c enc (next_output c ! bitswap r (cc_K c - 1) ! b) =
    Some (enc, map (\<lambda>j. of_bool (bit (rout c r b) j)) [0..<cc_N c])"
  by (simp add: conv_encode_do_output_def plain unat_drop_and rout_def bitswap_bit [OF N] bit_unsigned_iff cong: map_cong)

lemma encode_raw_ok:
  "r < ns \<Longrightarrow> bits bs \<Longrightarrow> e_state enc = of_nat (bitswap r (cc_K c - 1)) \<Longrightarrow>
    \<exists>enc'. osmo_conv_encode_raw c enc (map of_nat bs) = Some (enc', path_bits c r bs) \<and>
      e_state enc' = of_nat (bitswap (endst c r bs) (cc_K c - 1))"
proof (induction bs arbitrary: r enc)
  case (Cons b bs)
  have b: "b < 2" using Cons.prems(2) by auto
  have "\<exists>enc'. osmo_conv_encode_raw c (enc\<lparr>i_idx := i_idx enc + 1, e_state := of_nat (bitswap (nxt c r b) (cc_K c - 1))\<rparr>)
      (map of_nat bs) = Some (enc', path_bits c (nxt c r b) bs) \<and>
      e_state enc' = of_nat (bitswap (endst c (nxt c r b) bs) (cc_K c - 1))"
    by (rule Cons.IH) (use Cons.prems b nxt_less in auto)
  then show ?case using lookups [OF Cons.prems(1) b] Cons.prems(3) by (auto simp: do_output_ok [unfolded One_nat_def])
qed auto

lemma encode_flush_ok:
  "r < ns \<Longrightarrow> e_state enc = of_nat (bitswap r (cc_K c - 1)) \<Longrightarrow>
    \<exists>enc'. encode_flush c enc n = Some (enc', path_bits c r (replicate n 0))"
proof (induction n arbitrary: r enc)
  case (Suc n)
  have "\<exists>enc'. encode_flush c (enc\<lparr>i_idx := i_idx enc + 1, e_state := of_nat (bitswap (nxt c r 0) (cc_K c - 1))\<rparr>) n =
      Some (enc', path_bits c (nxt c r 0) (replicate n 0))"
    by (rule Suc.IH) (use Suc.prems nxt_less in auto)
  then show ?case using lookups [OF Suc.prems(1), of 0] Suc.prems(2) by (auto simp: term_of_def plain do_output_ok [unfolded One_nat_def])
qed auto

lemma path_bits_append: "path_bits c r (as @ bs) = path_bits c r as @ path_bits c (endst c r as) bs"
  by (induction as arbitrary: r) auto

lemma encode_ok: "bits bs \<Longrightarrow> length bs = cc_len c \<Longrightarrow> osmo_conv_encode c (map of_nat bs) = Some (word_of c 0 bs)"
proof -
  assume b: "bits bs" "length bs = cc_len c"
  have z: "bitswap 0 (cc_K c - 1) = 0" using K by (auto simp: bitswap_def bitswap4_def bitswap6_def)
  have "(0 :: nat) < ns" by simp
  then obtain enc where 1: "osmo_conv_encode_raw c osmo_conv_encode_init (map of_nat bs) = Some (enc, path_bits c 0 bs)"
    "e_state enc = of_nat (bitswap (endst c 0 bs) (cc_K c - 1))"
    using encode_raw_ok [of 0 bs osmo_conv_encode_init] b(1) z by (auto simp: osmo_conv_encode_init_def)
  obtain enc' where "encode_flush c enc (cc_K c - 1) = Some (enc', path_bits c (endst c 0 bs) (replicate (cc_K c - 1) 0))"
    using encode_flush_ok [OF endst_less [OF \<open>0 < ns\<close> b(1)] 1(2)] by blast
  with 1 b show ?thesis
    by (simp add: osmo_conv_encode_def plain osmo_conv_encode_flush_def mem_read_def word_of_def path_bits_append)
qed

end

section \<open>The decoder finds the closest word\<close>

lemma chunks: "length xs = n * m \<Longrightarrow> \<exists>cs. concat cs = xs \<and> length cs = m \<and> (\<forall>x \<in> set cs. length x = n)"
proof (induction m arbitrary: xs)
  case (Suc m)
  obtain cs where "concat cs = drop n xs" "length cs = m" "\<forall>x \<in> set cs. length x = n"
    using Suc.IH [of "drop n xs"] Suc.prems by auto
  then show ?case using Suc.prems by (intro exI [of _ "take n xs # cs"]) simp
qed simp

text \<open>
  Received soft symbols: their noise is how far they are, in all, from the symbols of a word at
  full magnitude, and those are wrong that do not have the sign of their bit (none is neither).
\<close>

definition soft_range :: "sbit list \<Rightarrow> bool" where
  "soft_range sq \<longleftrightarrow> (\<forall>x \<in> set sq. \<bar>sint x\<bar> \<le> 127)"

definition noise :: "sbit list \<Rightarrow> ubit list \<Rightarrow> int" where
  "noise sq w = sum_list (map (\<lambda>(x, u). 127 - sint x * bsgn u) (zip sq w))"

definition wrong :: "sbit list \<Rightarrow> ubit list \<Rightarrow> nat" where
  "wrong sq w = length (filter (\<lambda>(x, u). sint x * bsgn u \<le> 0) (zip sq w))"

text \<open>Received symbols at full magnitude, and the number of them that disagree with a word.\<close>

definition hard :: "sbit list \<Rightarrow> bool" where
  "hard sq \<longleftrightarrow> (\<forall>x \<in> set sq. sint x = 127 \<or> sint x = - 127)"

definition disagree :: "sbit list \<Rightarrow> ubit list \<Rightarrow> nat" where
  "disagree sq w = length (filter (\<lambda>(x, u). sint x \<noteq> 127 * bsgn u) (zip sq w))"

lemma bsgn_cases: "bsgn u = 1 \<or> bsgn u = - 1"
  by (simp add: bsgn_def)

lemma dot_noise: "length sq = length w \<Longrightarrow> dot (map sint sq) (map bsgn w) = 127 * int (length w) - noise sq w"
  by (induction sq w rule: list_induct2) (simp_all add: dot_def noise_def algebra_simps)

lemma soft_range_Cons: "soft_range (x # sq) \<longleftrightarrow> \<bar>sint x\<bar> \<le> 127 \<and> soft_range sq"
  by (simp add: soft_range_def)

lemma noise_nonneg: "soft_range sq \<Longrightarrow> 0 \<le> noise sq w"
proof (induction sq arbitrary: w)
  case (Cons x sq)
  show ?case
  proof (cases w)
    case Nil
    then show ?thesis by (simp add: noise_def)
  next
    case c: (Cons u w')
    have "0 \<le> noise sq w'" using Cons by (simp add: soft_range_Cons)
    moreover have "sint x * bsgn u \<le> 127" using bsgn_cases [of u] Cons.prems by (auto simp: soft_range_Cons)
    ultimately show ?thesis by (simp add: c noise_def)
  qed
qed (simp add: noise_def)

text \<open>Two words that differ in many bits are not both close to what is received.\<close>

lemma ham_noise:
  "length sq = length w \<Longrightarrow> length sq = length v \<Longrightarrow> soft_range sq \<Longrightarrow>
    254 * int (ham (map bsgn w) (map bsgn v)) \<le> noise sq w + noise sq v"
proof (induction sq arbitrary: w v)
  case (Cons x sq)
  then obtain u w' t v' where e: "w = u # w'" "v = t # v'" by (metis length_Suc_conv)
  have "254 * int (ham (map bsgn w') (map bsgn v')) \<le> noise sq w' + noise sq v'" using Cons e by (simp add: soft_range_Cons)
  then show ?case using bsgn_cases [of u] bsgn_cases [of t] Cons.prems(3)
    unfolding e by (auto simp: ham_def noise_def soft_range_Cons)
qed (simp add: ham_def noise_def)

lemma hard_soft_range: "hard sq \<Longrightarrow> soft_range sq"
  by (auto simp: hard_def soft_range_def)

lemma hard_noise:
  "hard sq \<Longrightarrow> noise sq w = 254 * int (disagree sq w) \<and> wrong sq w = disagree sq w"
proof (induction sq arbitrary: w)
  case (Cons x sq)
  show ?case
  proof (cases w)
    case c: (Cons u w')
    have "noise sq w' = 254 * int (disagree sq w')" "wrong sq w' = disagree sq w'" using Cons by (simp_all add: hard_def)
    moreover have "sint x = 127 \<or> sint x = - 127" using Cons.prems by (simp add: hard_def)
    ultimately show ?thesis using bsgn_cases [of u] by (auto simp: c noise_def disagree_def wrong_def)
  qed (simp add: noise_def disagree_def wrong_def)
qed (simp add: noise_def disagree_def wrong_def)

context acc_code
begin

lemma length_word [simp]: "length bs = cc_len c \<Longrightarrow> length (word_of c r bs) = cc_N c * (cc_len c + cc_K c - 1)"
  using K by (auto simp: word_of_def)

lemma decode_is_acc: "osmo_conv_decode c sq = osmo_conv_decode_acc c sq"
  using K N by (auto simp: osmo_conv_decode_def)

lemma rows_ok_split:
  assumes "rows_ok U (s1 @ s2) (r1 @ r2)" "length r1 = length s1"
  shows "rows_ok U s1 r1" "rows_ok (vrun c U s1) s2 r2"
proof -
  have l: "length r2 = length s2" using assms by (simp add: rows_ok_def)
  have a: "row_ok (vrun c U (take i (s1 @ s2))) ((s1 @ s2) ! i) ((r1 @ r2) ! i)" if "i < length (s1 @ s2)" for i
    using assms(1) that by (simp add: rows_ok_def)
  have "row_ok (vrun c U (take i s1)) (s1 ! i) (r1 ! i)" if "i < length s1" for i
    using a [of i] that assms(2) by (simp add: nth_append)
  then show "rows_ok U s1 r1" using assms(2) by (simp add: rows_ok_def)
  have "row_ok (vrun c (vrun c U s1) (take i s2)) (s2 ! i) (r2 ! i)" if "i < length s2" for i
    using a [of "length s1 + i"] that assms(2) by (simp add: nth_append vrun_append)
  then show "rows_ok (vrun c U s1) s2 r2" using l by (simp add: rows_ok_def)
qed

lemma endst_zeros: "r < ns \<Longrightarrow> endst c r (replicate (cc_K c - 1) 0) = 0"
proof -
  assume r: "r < ns"
  have "endst c 0 (replicate n 0) = 0" for n by (induction n) (simp_all add: nxt_def)
  then show ?thesis using endst_merge [OF r, of 0 "replicate (cc_K c - 1) 0"] by simp
qed

lemma decode_ml:
  assumes "length sq = cc_N c * (cc_len c + cc_K c - 1)" "\<forall>x \<in> set sq. \<bar>sint x\<bar> \<le> 127"
  shows "\<exists>p bs. osmo_conv_decode c sq = Some (0, map of_nat bs) \<and> p < ns \<and> bits bs \<and> length bs = cc_len c \<and>
    (\<forall>q bs'. q < ns \<longrightarrow> bits bs' \<longrightarrow> length bs' = cc_len c \<longrightarrow>
      U0 q + dot (map sint sq) (map bsgn (word_of c q bs')) \<le> U0 p + dot (map sint sq) (map bsgn (word_of c p bs)))"
proof -
  let ?m = "cc_len c + cc_K c - 1" and ?z = "replicate (cc_K c - 1) (0::nat)"
  obtain cs where cs: "concat cs = sq" "length cs = ?m" "\<forall>x \<in> set cs. length x = cc_N c" using chunks [OF assms(1)] by blast
  let ?ss = "map (map sint) cs"
  have loud: "loud ?ss (cc_N c)" using cs assms(2) by (auto simp: loud_def)
  obtain dec where dec: "vdec_init c = Some (Inr dec)" "dec_ok dec []" "trace_for dec" "dec_len dec = ?m" using init_ok by blast
  have "dec_ok (dec\<lparr>dec_paths := []\<rparr>) []" using dec(2) by (simp add: dec_ok_def rows_ok_def)
  then obtain dec' where f: "forward_steps (dec\<lparr>dec_paths := []\<rparr>) [0..<?m] sq = Some dec'" "dec_ok dec' ?ss"
    using forward_ok [of _ "[]" cs] cs loud by auto
  have tr: "trace_for dec'" using f(2) by (simp add: dec_ok_def trace_for_def trellis_for_def)
  let ?P = "dec_paths dec'" and ?s1 = "take (cc_len c) ?ss" and ?s2 = "drop (cc_len c) ?ss"
  have rows: "rows_ok U0 ?ss ?P" using f(2) by (simp add: dec_ok_def)
  have len: "length ?ss = ?m" "length ?P = ?m" using cs(2) rows by (simp_all add: rows_ok_def)
  have sp: "rows_ok U0 (?s1 @ ?s2) (take (cc_len c) ?P @ drop (cc_len c) ?P)" "length (take (cc_len c) ?P) = length ?s1"
    using rows len by simp_all
  obtain m bs2 where 2: "m < ns" "bits bs2" "length bs2 = length ?s2" "endst c m bs2 = 0"
    "vrun c (vrun c U0 ?s1) ?s2 0 = vrun c U0 ?s1 m + pmetric c m bs2 ?s2" "trace_tail dec' (rev (drop (cc_len c) ?P)) 0 = Some m"
    using trace_ok [OF tr rows_ok_split(2) [OF sp], of 0] by auto
  obtain p bs1 where 1: "p < ns" "bits bs1" "length bs1 = length ?s1" "endst c p bs1 = m" "vrun c U0 ?s1 m = U0 p + pmetric c p bs1 ?s1"
    "trace_back dec' (rev (take (cc_len c) ?P)) m [] = Some (map of_nat bs1)"
    using trace_ok [OF tr rows_ok_split(1) [OF sp] 2(1)] by (metis append_Nil2)
  have z: "bs2 = ?z" by (rule zero_end [OF 2(1,2) _ 2(4)]) (use 2(3) cs(2) K in auto)
  have K1: "cc_K c \<noteq> 0" using K by auto
  have lb: "length bs1 = cc_len c" using 1(3) len K1 by simp
  have met: "pmetric c q (bs @ ?z) ?ss = dot (map sint sq) (map bsgn (word_of c q bs))" if "length bs = cc_len c" for q bs
    using pmetric_dot [of "bs @ ?z" ?ss c q] that loud len K1 by (simp add: word_of_def loud_def map_concat flip: cs(1))
  have tot: "vrun c U0 ?ss 0 = U0 p + dot (map sint sq) (map bsgn (word_of c p bs1))"
  proof -
    have "vrun c U0 ?ss 0 = vrun c (vrun c U0 ?s1) ?s2 0" by (simp flip: vrun_append)
    also have "\<dots> = U0 p + pmetric c p (bs1 @ bs2) (?s1 @ ?s2)"
      unfolding pmetric_append [OF 1(3)] 2(5) 1(4,5) by simp
    finally show ?thesis unfolding z append_take_drop_id met [OF lb] .
  qed
  have ge: "U0 q + dot (map sint sq) (map bsgn (word_of c q bs)) \<le> U0 p + dot (map sint sq) (map bsgn (word_of c p bs1))"
    if "q < ns" "bits bs" "length bs = cc_len c" for q bs
  proof -
    have "endst c q (bs @ ?z) = 0" by (simp only: endst_append endst_zeros [OF endst_less [OF that(1,2)]])
    moreover have "bits (bs @ ?z)" "length (bs @ ?z) = length ?ss" using that len K1 by simp_all
    ultimately show ?thesis using vrun_ge [OF that(1), of "bs @ ?z" ?ss U0] by (simp only: met [OF that(3)] tot)
  qed
  have "traceback dec' CONV_TERM_FLUSH (cc_len c) = Some (0, map of_nat bs1)"
    using 1(6) 2(6) by (simp add: traceback_def)
  then have "osmo_conv_decode c sq = Some (0, map of_nat bs1)"
    using dec f(1) K N len acc_code.len [OF acc_code_axioms] by (auto simp: decode_is_acc osmo_conv_decode_acc_def conv_decode_def plain forward_traverse_def)
  then show ?thesis using 1(1,2) lb ge by blast
qed

text \<open>Less noise than half of the distance of the code, and than the advantage of the zero state.\<close>

lemma decode_corrects:
  assumes "bits bs" "length bs = cc_len c" "length sq = cc_N c * (cc_len c + cc_K c - 1)" "soft_range sq"
    and e: "noise sq (word_of c 0 bs) < 127 * int dist" "noise sq (word_of c 0 bs) < int (cc_K c) * D"
    and d: "\<And>bs'. bits bs' \<Longrightarrow> length bs' = cc_len c \<Longrightarrow> bs' \<noteq> bs \<Longrightarrow> dist \<le> ham (map bsgn (word_of c 0 bs)) (map bsgn (word_of c 0 bs'))"
  shows "osmo_conv_decode c sq = Some (0, map of_nat bs)"
proof -
  have "\<forall>x \<in> set sq. \<bar>sint x\<bar> \<le> 127" using assms(4) by (auto simp: soft_range_def)
  from decode_ml [OF assms(3) this] obtain p bs' where p: "osmo_conv_decode c sq = Some (0, map of_nat bs')" "p < ns" "bits bs'"
    "length bs' = cc_len c" "U0 0 + dot (map sint sq) (map bsgn (word_of c 0 bs)) \<le> U0 p + dot (map sint sq) (map bsgn (word_of c p bs'))"
    using assms(1,2) half_pos by (metis mult_pos_pos zero_less_numeral)
  have l: "length sq = length (word_of c 0 bs)" "length sq = length (word_of c p bs')" using assms(2,3) p(4) by simp_all
  have le: "U0 0 - noise sq (word_of c 0 bs) \<le> U0 p - noise sq (word_of c p bs')"
    using p(5) l unfolding dot_noise [OF l(1)] dot_noise [OF l(2)] by simp
  have p0: "p = 0"
  proof (rule ccontr)
    assume "p \<noteq> 0"
    then have "int (cc_K c) * D \<le> noise sq (word_of c 0 bs)"
      using le noise_nonneg [OF assms(4), of "word_of c p bs'"] by (simp add: U0_def)
    then show False using e(2) by simp
  qed
  then have "noise sq (word_of c 0 bs') \<le> noise sq (word_of c 0 bs)" using le by simp
  moreover have "254 * int (ham (map bsgn (word_of c 0 bs)) (map bsgn (word_of c 0 bs'))) \<le>
      noise sq (word_of c 0 bs) + noise sq (word_of c 0 bs')"
    using ham_noise [OF l assms(4)] p0 by simp
  ultimately have "ham (map bsgn (word_of c 0 bs)) (map bsgn (word_of c 0 bs')) < dist" using e(1) by linarith
  then have "bs' = bs" using d [OF p(3,4)] by fastforce
  then show ?thesis using p(1) by simp
qed

end

end
