(* ===== verification/ConvGsm.thy ===== *)
theory ConvGsm
  imports Viterbi
begin

text \<open>
  The codes of GSM as the build generates them (\<open>utils/conv_gen.py\<close>, \<open>utils/conv_codes_gsm.py\<close>),
  and that those of the signalling, the random access and the synchronisation channel are codes
  that the accelerated decoder decodes: with up to three errors, whatever the data and wherever
  the errors are.
\<close>

section \<open>The generator\<close>

definition poly :: "nat list \<Rightarrow> nat" where
  "poly args = sum_list (map (\<lambda>x. push_bit x 1) args)"

definition combine :: "nat \<Rightarrow> nat \<Rightarrow> nat \<Rightarrow> nat" where
  "combine src sel nb = (let x = src AND sel in fold (\<lambda>n y. y XOR (drop_bit n x AND 1)) [1..<nb] (x AND 1))"

text \<open>The integer part of the logarithm.\<close>

fun degree :: "nat \<Rightarrow> nat" where
  "degree n = (if n < 2 then 0 else Suc (degree (n div 2)))"

declare degree.simps [simp del]

text \<open>A code of the generator; the initialisation raises an error for polynomials that it does not support.\<close>

record ConvolutionalCode =
  gc_len :: nat
  gc_polys :: "(nat \<times> nat) list"
  gc_k :: nat
  gc_divider :: nat
  gc_puncture :: "int list"
  gc_term :: "osmo_conv_term option"

definition ConvolutionalCode_init :: "nat \<Rightarrow> (nat \<times> nat) list \<Rightarrow> int list \<Rightarrow> osmo_conv_term option \<Rightarrow> ConvolutionalCode option" where
  "ConvolutionalCode_init blen polys puncture term_type =
    (let ps = map (\<lambda>(x, y). if x = y then (1, 1) else (x, y)) polys;
         k = fold max (map (\<lambda>(x, y). degree (max x y)) polys) 1 + 1;
         rp = filter (\<lambda>y. y \<noteq> 1) (map snd ps)
     in if rp = [] then Some \<lparr>gc_len = blen, gc_polys = ps, gc_k = k, gc_divider = 1, gc_puncture = puncture, gc_term = term_type\<rparr>
        else if \<not> list_all (\<lambda>x. x = hd rp) rp then None
        else if \<not> list_all (\<lambda>(x, y). y = 1 \<longrightarrow> x = 1) polys then None
        else Some \<lparr>gc_len = blen, gc_polys = ps, gc_k = k, gc_divider = hd rp, gc_puncture = puncture, gc_term = term_type\<rparr>)"

definition recursive :: "ConvolutionalCode \<Rightarrow> bool" where
  "recursive self \<longleftrightarrow> gc_divider self \<noteq> 1"

definition state_mask :: "ConvolutionalCode \<Rightarrow> nat" where
  "state_mask self = 2 ^ (gc_k self - 1) - 1"

definition py_next_state :: "ConvolutionalCode \<Rightarrow> nat \<Rightarrow> nat \<Rightarrow> nat" where
  "py_next_state self state b =
    (let nb = combine (push_bit 1 state OR b) (gc_divider self) (gc_k self)
     in (push_bit 1 state OR nb) AND state_mask self)"

definition py_next_term_state :: "ConvolutionalCode \<Rightarrow> nat \<Rightarrow> nat" where
  "py_next_term_state self state = push_bit 1 state AND state_mask self"

definition py_next_output :: "ConvolutionalCode \<Rightarrow> nat \<Rightarrow> nat \<Rightarrow> nat list" where
  "py_next_output self state b =
    (let src = (py_next_state self state b AND 1) OR push_bit 1 state
     in map (\<lambda>(n, d). if recursive self \<and> d = 1 then b else combine src n (gc_k self)) (gc_polys self))"

definition py_next_term_output :: "ConvolutionalCode \<Rightarrow> nat \<Rightarrow> nat list" where
  "py_next_term_output self state =
    (let src = (py_next_term_state self state AND 1) OR push_bit 1 state
     in map (\<lambda>(n, d). if recursive self \<and> d = 1 then combine src (gc_divider self) (gc_k self)
          else combine src n (gc_k self)) (gc_polys self))"

definition pack :: "nat list \<Rightarrow> nat" where
  "pack xs = sum_list (map (\<lambda>(i, x). push_bit (length xs - i - 1) x) (zip [0..<length xs] xs))"

definition py_num_states :: "ConvolutionalCode \<Rightarrow> nat" where
  "py_num_states self = 2 ^ (gc_k self - 1)"

definition gen_tables :: "ConvolutionalCode \<Rightarrow> osmo_conv_code" where
  "gen_tables self =
    (let states = [0..<py_num_states self] in
     \<lparr>cc_N = length (gc_polys self), cc_K = gc_k self, cc_len = gc_len self,
      cc_term = (case gc_term self of None \<Rightarrow> CONV_TERM_FLUSH | Some t \<Rightarrow> t),
      next_output = map (\<lambda>s. [of_nat (pack (py_next_output self s 0)), of_nat (pack (py_next_output self s 1))]) states,
      next_state = map (\<lambda>s. [of_nat (py_next_state self s 0), of_nat (py_next_state self s 1)]) states,
      next_term_output = (if recursive self then Some (map (\<lambda>s. of_nat (pack (py_next_term_output self s))) states) else None),
      next_term_state = (if recursive self then Some (map (\<lambda>s. of_nat (py_next_term_state self s)) states) else None),
      cc_puncture = (if gc_puncture self = [] then None else Some (gc_puncture self))\<rparr>)"

definition gen_code :: "nat \<Rightarrow> (nat \<times> nat) list \<Rightarrow> int list \<Rightarrow> osmo_conv_term option \<Rightarrow> osmo_conv_code option" where
  "gen_code blen polys puncture term_type =
    map_option gen_tables (ConvolutionalCode_init blen polys puncture term_type)"

section \<open>The codes\<close>

definition G0 :: nat where "G0 = poly [0, 3, 4]"

definition G1 :: nat where "G1 = poly [0, 1, 3, 4]"

definition shared_polys_xcch :: "(nat \<times> nat) list" where
  "shared_polys_xcch = [(G0, 1), (G1, 1)]"

definition gsm0503_xcch :: osmo_conv_code where
  "gsm0503_xcch = the (gen_code 224 shared_polys_xcch [] None)"

definition gsm0503_rach :: osmo_conv_code where
  "gsm0503_rach = the (gen_code 14 shared_polys_xcch [] None)"

definition gsm0503_rach_ext :: osmo_conv_code where
  "gsm0503_rach_ext = the (gen_code 17 shared_polys_xcch [0, 2, 5, 37, 39, 41, - 1] None)"

definition gsm0503_sch :: osmo_conv_code where
  "gsm0503_sch = the (gen_code 35 shared_polys_xcch [] None)"

section \<open>The shared tables\<close>

definition xcch_output :: "u8 list list" where
  "xcch_output = [[0, 3], [1, 2], [0, 3], [1, 2], [3, 0], [2, 1], [3, 0], [2, 1],
     [3, 0], [2, 1], [3, 0], [2, 1], [0, 3], [1, 2], [0, 3], [1, 2]]"

definition xcch_state :: "u8 list list" where
  "xcch_state = [[0, 1], [2, 3], [4, 5], [6, 7], [8, 9], [10, 11], [12, 13], [14, 15],
     [0, 1], [2, 3], [4, 5], [6, 7], [8, 9], [10, 11], [12, 13], [14, 15]]"

definition xcch_like :: "nat \<Rightarrow> int list option \<Rightarrow> osmo_conv_code" where
  "xcch_like n p = \<lparr>cc_N = 2, cc_K = 5, cc_len = n, cc_term = CONV_TERM_FLUSH, next_output = xcch_output,
     next_state = xcch_state, next_term_output = None, next_term_state = None, cc_puncture = p\<rparr>"

lemma degrees: "degree 25 = 4" "degree 27 = 4"
  by (simp_all add: degree.simps)

lemma polys: "G0 = 25" "G1 = 27"
  by (simp_all add: G0_def G1_def poly_def)

lemma init_xcch:
  "ConvolutionalCode_init n shared_polys_xcch p None = Some \<lparr>gc_len = n, gc_polys = [(25, 1), (27, 1)], gc_k = 5,
     gc_divider = 1, gc_puncture = p, gc_term = None\<rparr>"
  by (simp add: ConvolutionalCode_init_def shared_polys_xcch_def polys degrees)

lemma combine_5: "combine src sel 5 = (let x = src AND sel in
   (((x AND 1) XOR (drop_bit 1 x AND 1)) XOR (drop_bit 2 x AND 1)) XOR (drop_bit 3 x AND 1) XOR (drop_bit 4 x AND 1))"
  by (simp add: combine_def upt_rec xor.assoc numeral_eq_Suc)

lemma xcch_tables:
  assumes "gc_k g = 5" "gc_divider g = 1" "gc_polys g = [(25, 1), (27, 1)]"
  shows "map (\<lambda>s. [of_nat (py_next_state g s 0), of_nat (py_next_state g s 1)]) [0..<16] = xcch_state"
    "map (\<lambda>s. [of_nat (pack (py_next_output g s 0)), of_nat (pack (py_next_output g s 1))]) [0..<16] = xcch_output"
proof -
  have st: "py_next_state g s b = (push_bit 1 s OR combine (push_bit 1 s OR b) 1 5) AND 15" for s b
    by (simp add: py_next_state_def state_mask_def assms)
  have out: "py_next_output g s b = map (\<lambda>n. combine ((py_next_state g s b AND 1) OR push_bit 1 s) n 5) [25, 27]" for s b
    by (simp add: py_next_output_def recursive_def assms Let_def)
  have pk: "pack [x, y] = 2 * x + y" for x y by (simp add: pack_def upt_rec)
  show "map (\<lambda>s. [of_nat (py_next_state g s 0), of_nat (py_next_state g s 1)]) [0..<16] = xcch_state"
    by (simp add: upt_16 st combine_5 xcch_state_def)
  show "map (\<lambda>s. [of_nat (pack (py_next_output g s 0)), of_nat (pack (py_next_output g s 1))]) [0..<16] = xcch_output"
    by (simp add: upt_16 out pk st combine_5 xcch_output_def)
qed

lemma gen_xcch:
  "gen_code n shared_polys_xcch p None = Some (xcch_like n (if p = [] then None else Some p))"
  by (simp add: gen_code_def init_xcch gen_tables_def xcch_like_def py_num_states_def recursive_def xcch_tables [simplified])

lemmas gsm_codes = gsm0503_xcch_def [unfolded gen_xcch, simplified] gsm0503_rach_def [unfolded gen_xcch, simplified]
  gsm0503_rach_ext_def [unfolded gen_xcch, simplified] gsm0503_sch_def [unfolded gen_xcch, simplified]

section \<open>Distances\<close>

text \<open>The code is linear: the weight of the outputs in which two transitions differ depends on the
  differences of their states and of their inputs alone.\<close>

lemma xcch_like_sel [simp]: "cc_N (xcch_like n p) = 2" "cc_K (xcch_like n p) = 5" "cc_len (xcch_like n p) = n"
  "cc_term (xcch_like n p) = CONV_TERM_FLUSH" "next_output (xcch_like n p) = xcch_output"
  "next_state (xcch_like n p) = xcch_state" "next_term_output (xcch_like n p) = None" "cc_puncture (xcch_like n p) = p"
  "half (xcch_like n p) = 8" "nxt (xcch_like n p) r b = b * 8 + r div 2"
  by (simp_all add: xcch_like_def half_def nxt_def)

lemma upt_8: "[0..<8::nat] = [0, 1, 2, 3, 4, 5, 6, 7]"
  by (simp add: upt_rec)

lemma all_16: "list_all P [0..<16] \<Longrightarrow> r < 16 \<Longrightarrow> P r"
  by (simp add: list_all_iff)

definition xcch_rout :: "nat list list" where
  "xcch_rout = [[0, 3], [3, 0], [3, 0], [0, 3], [0, 3], [3, 0], [3, 0], [0, 3],
     [2, 1], [1, 2], [1, 2], [2, 1], [2, 1], [1, 2], [1, 2], [2, 1]]"

lemma xcch_rout_table:
  "map (\<lambda>r. map (rout (xcch_like n p) r) [0, 1]) [0..<16] = xcch_rout"
proof -
  have sw: "map (\<lambda>r. bitswap r 4) [0..<16] = [0, 8, 4, 12, 2, 10, 6, 14, 1, 9, 5, 13, 3, 11, 7, 15]"
    by (simp add: upt_16 bitswap_def bitswap4_def)
  have two: "bitswap 0 2 = 0" "bitswap 1 2 = 2" "bitswap 2 2 = 1" "bitswap 3 2 = 3"
    by (simp_all add: bitswap_def bitswap2_def)
  have "map (\<lambda>r. map (rout (xcch_like n p) r) [0, 1]) [0..<16] =
      map (\<lambda>s. map (\<lambda>b. bitswap (unat (xcch_output ! s ! b)) 2) [0, 1]) (map (\<lambda>r. bitswap r 4) [0..<16])"
    by (simp add: rout_def)
  also have "\<dots> = xcch_rout" unfolding sw by (simp add: xcch_output_def xcch_rout_def two two [unfolded One_nat_def])
  finally show ?thesis .
qed

lemma rout_xcch:
  assumes "r < 16" "b = 0 \<or> b = 1"
  shows "rout (xcch_like n p) r b = xcch_rout ! r ! b"
proof -
  have "xcch_rout ! r = map (rout (xcch_like n p) r) [0, 1]"
    using assms(1) by (simp flip: xcch_rout_table [of n p])
  then show ?thesis using assms(2) by auto
qed

lemma nrz_sel:
  "nrz (xcch_like n p) r b = [BIT2NRZ (rout (xcch_like n p) r b) 0, BIT2NRZ (rout (xcch_like n p) r b) 1]"
  by (simp add: nrz_def upt_rec)

text \<open>The number of ones of a number below 4.\<close>

definition ones :: "nat \<Rightarrow> nat" where
  "ones v = of_bool (bit v 0) + of_bool (bit v 1)"

lemma ham_nrz:
  "ham (nrz (xcch_like n p) r b) (nrz (xcch_like n p) r' b') = ones (rout (xcch_like n p) r b XOR rout (xcch_like n p) r' b')"
  by (simp add: nrz_sel ham_def ones_def BIT2NRZ_def bit_xor_iff)

lemma rout_entries:
  "list_all (\<lambda>r. xcch_rout ! r ! 0 = xcch_rout ! r ! 1 XOR 3 \<and> xcch_rout ! r ! 1 < 4) [0..<16]"
  by (simp add: upt_16 xcch_rout_def)

lemma rout_xor: "list_all (\<lambda>r. list_all (\<lambda>r'. xcch_rout ! r ! 0 XOR xcch_rout ! r' ! 0 = xcch_rout ! (r XOR r') ! 0) [0..<16]) [0..<16]"
  by (simp add: upt_16 xcch_rout_def)

definition dweight :: "nat \<Rightarrow> nat \<Rightarrow> nat" where
  "dweight d e = ones (xcch_rout ! d ! e)"

fun wdist :: "nat \<Rightarrow> nat list \<Rightarrow> nat" where
  "wdist d [] = 0"
| "wdist d (e # es) = dweight d e + wdist (e * 8 + d div 2) es"

lemma xor_bits: "b = 0 \<or> b = 1 \<Longrightarrow> b' = 0 \<or> b' = 1 \<Longrightarrow> b XOR b' = 0 \<or> b XOR b' = (1 :: nat)"
  by auto

lemma xor_16: "r < 16 \<Longrightarrow> r' < 16 \<Longrightarrow> r XOR r' < (16::nat)"
proof -
  have "i < 16 \<longleftrightarrow> take_bit 4 i = (i :: nat)" for i by (simp add: take_bit_nat_eq_self_iff)
  then show "r < 16 \<Longrightarrow> r' < 16 \<Longrightarrow> r XOR r' < (16::nat)" by simp
qed

lemma rout_linear:
  assumes "r < 16" "r' < 16" "b = 0 \<or> b = 1" "b' = 0 \<or> b' = 1"
  shows "xcch_rout ! r ! b XOR xcch_rout ! r' ! b' = xcch_rout ! (r XOR r') ! (b XOR b')"
proof -
  let ?f = "\<lambda>r. xcch_rout ! r ! 0"
  have one: "xcch_rout ! q ! b = ?f q XOR b * 3" if "q < 16" "b = 0 \<or> b = 1" for q b
    using all_16 [OF rout_entries that(1)] that(2) by (auto simp: xor.assoc)
  have "?f r XOR ?f r' = ?f (r XOR r')"
    using all_16 [OF all_16 [OF rout_xor assms(1)] assms(2)] .
  moreover have "b * 3 XOR b' * 3 = (b XOR b') * 3" using assms(3,4) by auto
  ultimately show ?thesis
    unfolding one [OF assms(1,3)] one [OF assms(2,4)] one [OF xor_16 [OF assms(1,2)] xor_bits [OF assms(3,4)]]
    by (metis (no_types, lifting) xor.assoc xor.commute)
qed

lemma ham_linear:
  assumes "r < 16" "r' < 16" "b = 0 \<or> b = 1" "b' = 0 \<or> b' = 1"
  shows "ham (nrz (xcch_like n p) r b) (nrz (xcch_like n p) r' b') = dweight (r XOR r') (b XOR b')"
  unfolding ham_nrz rout_xcch [OF assms(1,3)] rout_xcch [OF assms(2,4)] rout_linear [OF assms] dweight_def ..

lemma nxt_xor:
  assumes "r < 16" "r' < 16" "b = 0 \<or> b = 1" "b' = 0 \<or> b' = 1"
  shows "(b * 8 + r div 2) XOR (b' * 8 + r' div 2) = (b XOR b') * 8 + (r XOR r') div (2::nat)"
proof -
  have t: "list_all (\<lambda>x. list_all (\<lambda>y. (8 + x) XOR y = 8 + (x XOR y) \<and> x XOR (8 + y) = 8 + (x XOR y) \<and>
      (8 + x) XOR (8 + y) = x XOR y) [0..<8]) [0..<8::nat]"
    by (simp add: upt_8)
  have d: "r div 2 XOR r' div 2 = (r XOR r') div 2"
    using drop_bit_xor [of 1 r r'] by (simp only: drop_bit_eq_div power_one_right)
  have l: "r div 2 < 8" "r' div 2 < 8" using assms by auto
  have a: "list_all P [0..<8] \<Longrightarrow> x < 8 \<Longrightarrow> P x" for P and x :: nat by (simp add: list_all_iff)
  from a [OF a [OF t l(1)] l(2)] assms(3,4) show ?thesis by (auto simp: d add.commute)
qed

lemma pdist_linear:
  "r < 16 \<Longrightarrow> r' < 16 \<Longrightarrow> bits bs \<Longrightarrow> bits bs' \<Longrightarrow> length bs = length bs' \<Longrightarrow>
    pdist (xcch_like n p) r bs r' bs' = wdist (r XOR r') (map2 (XOR) bs bs')"
proof (induction bs arbitrary: r r' bs')
  case (Cons b bs)
  then obtain b' bs'' where e: "bs' = b' # bs''" by (cases bs') auto
  have b: "b = 0 \<or> b = 1" "b' = 0 \<or> b' = 1" using Cons.prems e by auto
  have l: "b * 8 + r div 2 < 16" "b' * 8 + r' div 2 < 16" using b Cons.prems(1,2) by auto
  show ?case using Cons.IH [OF l, of bs''] Cons.prems e b nxt_xor [OF Cons.prems(1,2) b] ham_linear [OF Cons.prems(1,2) b]
    by simp
qed simp

lemma xcch_diverge:
  assumes "bits es" "length es = 4"
  shows "wdist 0 es \<le> 6"
proof -
  obtain a b c d where e: "es = [a, b, c, d]" using assms(2) by (auto simp: numeral_eq_Suc length_Suc_conv)
  show ?thesis using assms(1) unfolding e
    by (auto simp: dweight_def xcch_rout_def ones_def bit_nat_def)
qed

lemma bits_xor: "length bs = length bs' \<Longrightarrow> bits bs \<Longrightarrow> bits bs' \<Longrightarrow> bits (map2 (XOR) bs bs')"
  by (induction bs bs' rule: list_induct2) auto

lemma acc_xcch: "0 < n \<Longrightarrow> acc_code (xcch_like n None)"
proof
  let ?c = "xcch_like n None"
  have "list_all (\<lambda>r. unat (xcch_state ! bitswap r 4 ! 0) = bitswap (r div 2) 4 \<and>
      unat (xcch_state ! bitswap r 4 ! 1) = bitswap (8 + r div 2) 4) [0..<16]"
    by (simp add: upt_16 xcch_state_def bitswap_def bitswap4_def)
  note t = all_16 [OF this]
  show "unat (next_state ?c ! bitswap r (cc_K ?c - 1) ! b) = bitswap (nxt ?c r b) (cc_K ?c - 1)"
    if "r < 2 * half ?c" "b < 2" for r b
    using t [of r] that by (cases "b = 0") (auto simp: less_2_cases_iff)
  have f: "list_all (\<lambda>r. list_all (\<lambda>b. nrz ?c r b = map (BIT2NRZ (xcch_rout ! r ! b)) [0, 1]) [0, 1]) [0..<16]"
    by (auto simp: list_all_iff nrz_sel rout_xcch)
  have "list_all (\<lambda>i. map (BIT2NRZ (xcch_rout ! (2 * i + 1) ! 0)) [0, 1] = map uminus (map (BIT2NRZ (xcch_rout ! (2 * i) ! 0)) [0, 1]) \<and>
      map (BIT2NRZ (xcch_rout ! (2 * i) ! 1)) [0, 1] = map uminus (map (BIT2NRZ (xcch_rout ! (2 * i) ! 0)) [0, 1]) \<and>
      map (BIT2NRZ (xcch_rout ! (2 * i + 1) ! 1)) [0, 1] = map (BIT2NRZ (xcch_rout ! (2 * i) ! 0)) [0, 1]) [0..<8]"
    by (simp add: upt_8 xcch_rout_def BIT2NRZ_def bit_nat_def)
  then have b: "nrz ?c (2 * i + 1) 0 = map uminus (nrz ?c (2 * i) 0) \<and> nrz ?c (2 * i) 1 = map uminus (nrz ?c (2 * i) 0) \<and>
      nrz ?c (2 * i + 1) 1 = nrz ?c (2 * i) 0" if "i < 8" for i
    using that by (auto simp: list_all_iff nrz_sel rout_xcch)
  then show "nrz ?c (2 * i + 1) 0 = map uminus (nrz ?c (2 * i) 0)" "nrz ?c (2 * i) 1 = map uminus (nrz ?c (2 * i) 0)"
    "nrz ?c (2 * i + 1) 1 = nrz ?c (2 * i) 0" if "i < half ?c" for i
    using that by simp_all
  show "2 * pdist ?c p bs p bs' \<le> (cc_K ?c + 1) * cc_N ?c"
    if "p < 2 * half ?c" "bits bs" "bits bs'" "length bs = cc_K ?c - 1" "length bs' = cc_K ?c - 1" for p bs bs'
  proof -
    have "bits (map2 (XOR) bs bs')" using that by (intro bits_xor) simp_all
    then have "wdist 0 (map2 (XOR) bs bs') \<le> 6" using that(4,5) by (intro xcch_diverge) simp_all
    then show ?thesis using pdist_linear [of p p bs bs'] that by simp
  qed
qed (auto simp: xcch_output_def xcch_state_def)

text \<open>A lower bound of the weight of the paths from a difference back to the zero state.\<close>

definition pot :: "nat \<Rightarrow> nat" where
  "pot d = [0, 2, 4, 2, 4, 5, 4, 2, 5, 5, 5, 5, 4, 4, 3, 3] ! d"

fun dend :: "nat \<Rightarrow> nat list \<Rightarrow> nat" where
  "dend d [] = d"
| "dend d (e # es) = dend (e * 8 + d div 2) es"

lemma pot_step: "d < 16 \<Longrightarrow> e = 0 \<or> e = 1 \<Longrightarrow> pot d \<le> dweight d e + pot (e * 8 + d div 2)"
proof -
  have "list_all (\<lambda>d. pot d \<le> dweight d 0 + pot (d div 2) \<and> pot d \<le> dweight d 1 + pot (8 + d div 2)) [0..<16]"
    by (simp add: upt_16 pot_def dweight_def ones_def xcch_rout_def bit_nat_def)
  from all_16 [OF this] show "d < 16 \<Longrightarrow> e = 0 \<or> e = 1 \<Longrightarrow> pot d \<le> dweight d e + pot (e * 8 + d div 2)" by auto
qed

lemma pot_path: "d < 16 \<Longrightarrow> bits es \<Longrightarrow> pot d \<le> wdist d es + pot (dend d es)"
proof (induction es arbitrary: d)
  case (Cons e es)
  have "e * 8 + d div 2 < 16" using Cons.prems by auto
  then show ?case using Cons.IH [of "e * 8 + d div 2"] pot_step [of d e] Cons.prems by fastforce
qed simp

lemma free_distance:
  assumes "bits es" "es \<noteq> replicate (length es) 0" "dend 0 es = 0"
  shows "7 \<le> wdist 0 es"
  using assms
proof (induction es)
  case (Cons e es)
  show ?case
  proof (cases "e = 0")
    case True
    then show ?thesis using Cons by (auto simp: dweight_def xcch_rout_def ones_def)
  next
    case False
    then have "e = 1" using Cons.prems(1) by simp
    then show ?thesis using pot_path [of 8 es] Cons.prems
      by (simp add: pot_def dweight_def xcch_rout_def ones_def bit_nat_def)
  qed
qed simp

lemma dend_endst: "dend r bs = endst (xcch_like n p) r bs"
  by (induction bs arbitrary: r) simp_all

lemma dend_zeros: "length es = 4 \<Longrightarrow> es = [0, 0, 0, 0] \<Longrightarrow> d < 16 \<Longrightarrow> dend d es = 0"
  by simp

lemma dend_append: "dend d (as @ bs) = dend (dend d as) bs"
  by (induction as arbitrary: d) simp_all

lemma dend_less: "d < 16 \<Longrightarrow> bits es \<Longrightarrow> dend d es < 16"
proof (induction es arbitrary: d)
  case (Cons e es)
  have "e * 8 + d div 2 < 16" using Cons.prems by auto
  then show ?case using Cons by simp
qed simp

lemma xor_zero: "length bs = length bs' \<Longrightarrow> map2 (XOR) bs bs' = replicate (length bs) (0::nat) \<Longrightarrow> bs = bs'"
proof (induction bs bs' rule: list_induct2)
  case (Cons b bs b' bs')
  then have "b XOR b' = 0" by simp
  then have "b = b'" by (metis xor.assoc xor.left_neutral xor.right_neutral xor_self_eq)
  then show ?case using Cons by simp
qed simp

lemma xcch_distance:
  assumes a: "bits bs" "bits bs'" "length bs = n" "length bs' = n" "bs' \<noteq> bs"
  shows "7 \<le> ham (map bsgn (word_of (xcch_like n p) 0 bs)) (map bsgn (word_of (xcch_like n p) 0 bs'))"
proof -
  let ?z = "[0, 0, 0, 0] :: nat list"
  let ?es = "map2 (XOR) bs bs'"
  have z: "replicate (cc_K (xcch_like n p) - 1) 0 = ?z" by (simp add: numeral_eq_Suc)
  have b: "bits ?es" using a by (intro bits_xor) simp_all
  have e: "map2 (XOR) (bs @ ?z) (bs' @ ?z) = ?es @ ?z" using a by simp
  have "7 \<le> wdist 0 (?es @ ?z)"
  proof (rule free_distance)
    show "bits (?es @ ?z)" using b by simp
    show "?es @ ?z \<noteq> replicate (length (?es @ ?z)) 0"
    proof
      assume "?es @ ?z = replicate (length (?es @ ?z)) 0"
      moreover have "length (?es @ ?z) = n + 4" using a by simp
      ultimately have "?es @ ?z = replicate n 0 @ replicate 4 0" by (simp only: replicate_add)
      then have "?es = replicate (length bs) 0" using a by (subst (asm) append_eq_append_conv) simp_all
      then show False using xor_zero [of bs bs'] a by simp
    qed
    show "dend 0 (?es @ ?z) = 0"
      using dend_less [of 0 ?es] b by (simp add: dend_append)
  qed
  also have "wdist 0 (?es @ ?z) = pdist (xcch_like n p) 0 (bs @ ?z) 0 (bs' @ ?z)"
    using pdist_linear [of 0 0 "bs @ ?z" "bs' @ ?z" n p] a by (simp add: e)
  also have "\<dots> = ham (map bsgn (word_of (xcch_like n p) 0 bs)) (map bsgn (word_of (xcch_like n p) 0 bs'))"
    unfolding word_of_def z using a by (intro pdist_ham) simp
  finally show ?thesis .
qed

section \<open>The codes of the channels\<close>

interpretation xcch: acc_code gsm0503_xcch
  unfolding gsm_codes by (rule acc_xcch) simp

interpretation rach: acc_code gsm0503_rach
  unfolding gsm_codes by (rule acc_xcch) simp

interpretation sch: acc_code gsm0503_sch
  unfolding gsm_codes by (rule acc_xcch) simp

text \<open>Noise below 889, seven bits at full magnitude, is corrected.\<close>

lemma xcch_like_corrects:
  assumes "0 < n" "bits bs" "length bs = n" "length sq = 2 * (n + 4)" "soft_range sq"
    and "noise sq (word_of (xcch_like n None) 0 bs) < 889"
  shows "osmo_conv_decode (xcch_like n None) sq = Some (0, map of_nat bs)"
  using acc_code.decode_corrects [OF acc_xcch [OF assms(1)], of bs sq 7] xcch_distance [of bs _ n None] assms by simp

end
