(* ===== verification/BitsCrc.thy ===== *)
theory BitsCrc
  imports SchedTypes
begin

text \<open>
  The bit utilities of libosmocore (\<open>bits.c\<close>) and the generic CRC on unpacked bits
  (\<open>crcXXgen.c.tpl\<close>, which the build instantiates at 8, 16, 32 and 64 bits; the width is the word
  length here); \<open>osmo_ubit2sbit\<close> is in \<open>TrxIf\<close>. An access outside of a buffer is \<open>None\<close>.
\<close>

section \<open>Packed, unpacked and soft bits\<close>

text \<open>A byte is written once its eight bits are there, and a last one for the bits that are left.\<close>

fun ubit2pbit_loop :: "ubit list \<Rightarrow> nat \<Rightarrow> u8 \<Rightarrow> u8 list" where
  "ubit2pbit_loop [] i curbyte = (if i mod 8 \<noteq> 0 then [curbyte] else [])"
| "ubit2pbit_loop (b # bs) i curbyte =
    (let curbyte = curbyte OR push_bit (7 - i mod 8) b
     in if i mod 8 = 7 then curbyte # ubit2pbit_loop bs (i + 1) 0 else ubit2pbit_loop bs (i + 1) curbyte)"

definition osmo_ubit2pbit :: "u8 list \<Rightarrow> ubit list \<Rightarrow> nat \<Rightarrow> (nat \<times> u8 list) option" where
  "osmo_ubit2pbit out input num_bits = do {
     bs \<leftarrow> mem_read input 0 num_bits;
     let octets = ubit2pbit_loop bs 0 0;
     out \<leftarrow> mem_write out 0 octets;
     Some (length octets, out)
   }"

definition osmo_nibble_shift_right :: "u8 list \<Rightarrow> u8 list \<Rightarrow> nat \<Rightarrow> u8 list option" where
  "osmo_nibble_shift_right out input num_nibbles =
    (let n = num_nibbles div 2 in
     if n = 0 then Some out
     else do {
       x \<leftarrow> mem_at input 0;
       mid \<leftarrow> those (map (\<lambda>i. do { a \<leftarrow> mem_at input (i - 1); b \<leftarrow> mem_at input i;
                Some (push_bit 4 (a AND 0xf) OR drop_bit 4 b) }) [1..<n]);
       a \<leftarrow> mem_at input (n - 1);
       l \<leftarrow> (if odd num_nibbles then do { b \<leftarrow> mem_at input n; Some (push_bit 4 (a AND 0xf) OR drop_bit 4 b) }
             else Some (push_bit 4 (a AND 0xf)));
       mem_write out 0 (drop_bit 4 x # mid @ [l])
     })"

definition osmo_nibble_shift_left_unal :: "u8 list \<Rightarrow> u8 list \<Rightarrow> nat \<Rightarrow> u8 list option" where
  "osmo_nibble_shift_left_unal out input num_nibbles =
    (let n = num_nibbles div 2 in
     if n = 0 then Some out
     else do {
       octets \<leftarrow> those (map (\<lambda>i. do { a \<leftarrow> mem_at input i; b \<leftarrow> mem_at input (i + 1);
                Some (push_bit 4 (a AND 0xf) OR drop_bit 4 b) }) [0..<n]);
       l \<leftarrow> (if odd num_nibbles then do { a \<leftarrow> mem_at input n; Some [push_bit 4 (a AND 0xf)] } else Some []);
       mem_write out 0 (octets @ l)
     })"

definition osmo_sbit2ubit :: "ubit list \<Rightarrow> sbit list \<Rightarrow> nat \<Rightarrow> ubit list option" where
  "osmo_sbit2ubit out input num_bits = do {
     ss \<leftarrow> mem_read input 0 num_bits;
     mem_write out 0 (map (\<lambda>s. of_bool (s <s 0)) ss)
   }"

text \<open>The limit is compared after a bit is written, so that a bit is written even when none is asked for.\<close>

fun unpack_byte :: "nat \<Rightarrow> u8 \<Rightarrow> nat list \<Rightarrow> ubit list \<Rightarrow> ubit list \<times> bool" where
  "unpack_byte limit byte [] cur = (cur, False)"
| "unpack_byte limit byte (k # ks) cur =
    (let cur = cur @ [drop_bit k byte AND 1]
     in if limit \<le> length cur then (cur, True) else unpack_byte limit byte ks cur)"

fun unpack_bytes :: "nat \<Rightarrow> u8 list \<Rightarrow> nat list \<Rightarrow> ubit list \<Rightarrow> ubit list option" where
  "unpack_bytes limit input [] cur = Some cur"
| "unpack_bytes limit input (i # is) cur = do {
     byte \<leftarrow> mem_at input i;
     let (cur, stop) = unpack_byte limit byte [7, 6, 5, 4, 3, 2, 1, 0] cur;
     if stop then Some cur else unpack_bytes limit input is cur
   }"

definition osmo_pbit2ubit :: "ubit list \<Rightarrow> u8 list \<Rightarrow> nat \<Rightarrow> (nat \<times> ubit list) option" where
  "osmo_pbit2ubit out input num_bits = do {
     bs \<leftarrow> unpack_bytes num_bits input [0..<num_bits div 8 + 1] [];
     out \<leftarrow> mem_write out 0 bs;
     Some (length bs, out)
   }"

text \<open>The number of a bit in its byte.\<close>

definition bit_no :: "bool \<Rightarrow> nat \<Rightarrow> nat" where
  "bit_no lsb_mode op = (if lsb_mode then op mod 8 else 7 - op mod 8)"

definition put_bit :: "bool \<Rightarrow> nat \<Rightarrow> ubit \<Rightarrow> u8 list \<Rightarrow> u8 list option" where
  "put_bit lsb_mode op b out = do {
     x \<leftarrow> mem_at out (op div 8);
     let m = push_bit (bit_no lsb_mode op) 1;
     Some (out[op div 8 := if b \<noteq> 0 then x OR m else x AND NOT m])
   }"

fun put_bits :: "bool \<Rightarrow> nat \<Rightarrow> ubit list \<Rightarrow> u8 list \<Rightarrow> u8 list option" where
  "put_bits lsb_mode op [] out = Some out"
| "put_bits lsb_mode op (b # bs) out = do { out \<leftarrow> put_bit lsb_mode op b out; put_bits lsb_mode (op + 1) bs out }"

definition osmo_ubit2pbit_ext :: "u8 list \<Rightarrow> nat \<Rightarrow> ubit list \<Rightarrow> nat \<Rightarrow> nat \<Rightarrow> bool \<Rightarrow> (u32 \<times> u8 list) option" where
  "osmo_ubit2pbit_ext out out_ofs input in_ofs num_bits lsb_mode = do {
     bs \<leftarrow> mem_read input in_ofs num_bits;
     out \<leftarrow> put_bits lsb_mode out_ofs bs out;
     Some (drop_bit 3 (of_nat (out_ofs + num_bits) - 1) + 1, out)
   }"

definition get_bit :: "bool \<Rightarrow> u8 list \<Rightarrow> nat \<Rightarrow> ubit option" where
  "get_bit lsb_mode input ip = do {
     x \<leftarrow> mem_at input (ip div 8);
     Some (of_bool (x AND push_bit (bit_no lsb_mode ip) 1 \<noteq> 0))
   }"

definition osmo_pbit2ubit_ext :: "ubit list \<Rightarrow> nat \<Rightarrow> u8 list \<Rightarrow> nat \<Rightarrow> nat \<Rightarrow> bool \<Rightarrow> (nat \<times> ubit list) option" where
  "osmo_pbit2ubit_ext out out_ofs input in_ofs num_bits lsb_mode = do {
     bs \<leftarrow> those (map (\<lambda>i. get_bit lsb_mode input (in_ofs + i)) [0..<num_bits]);
     out \<leftarrow> mem_write out out_ofs bs;
     Some (out_ofs + num_bits, out)
   }"

section \<open>Reversal\<close>

definition flip_table :: "u8 list" where
  "flip_table = [
    0x00, 0x80, 0x40, 0xc0, 0x20, 0xa0, 0x60, 0xe0, 0x10, 0x90, 0x50, 0xd0, 0x30, 0xb0, 0x70, 0xf0,
    0x08, 0x88, 0x48, 0xc8, 0x28, 0xa8, 0x68, 0xe8, 0x18, 0x98, 0x58, 0xd8, 0x38, 0xb8, 0x78, 0xf8,
    0x04, 0x84, 0x44, 0xc4, 0x24, 0xa4, 0x64, 0xe4, 0x14, 0x94, 0x54, 0xd4, 0x34, 0xb4, 0x74, 0xf4,
    0x0c, 0x8c, 0x4c, 0xcc, 0x2c, 0xac, 0x6c, 0xec, 0x1c, 0x9c, 0x5c, 0xdc, 0x3c, 0xbc, 0x7c, 0xfc,
    0x02, 0x82, 0x42, 0xc2, 0x22, 0xa2, 0x62, 0xe2, 0x12, 0x92, 0x52, 0xd2, 0x32, 0xb2, 0x72, 0xf2,
    0x0a, 0x8a, 0x4a, 0xca, 0x2a, 0xaa, 0x6a, 0xea, 0x1a, 0x9a, 0x5a, 0xda, 0x3a, 0xba, 0x7a, 0xfa,
    0x06, 0x86, 0x46, 0xc6, 0x26, 0xa6, 0x66, 0xe6, 0x16, 0x96, 0x56, 0xd6, 0x36, 0xb6, 0x76, 0xf6,
    0x0e, 0x8e, 0x4e, 0xce, 0x2e, 0xae, 0x6e, 0xee, 0x1e, 0x9e, 0x5e, 0xde, 0x3e, 0xbe, 0x7e, 0xfe,
    0x01, 0x81, 0x41, 0xc1, 0x21, 0xa1, 0x61, 0xe1, 0x11, 0x91, 0x51, 0xd1, 0x31, 0xb1, 0x71, 0xf1,
    0x09, 0x89, 0x49, 0xc9, 0x29, 0xa9, 0x69, 0xe9, 0x19, 0x99, 0x59, 0xd9, 0x39, 0xb9, 0x79, 0xf9,
    0x05, 0x85, 0x45, 0xc5, 0x25, 0xa5, 0x65, 0xe5, 0x15, 0x95, 0x55, 0xd5, 0x35, 0xb5, 0x75, 0xf5,
    0x0d, 0x8d, 0x4d, 0xcd, 0x2d, 0xad, 0x6d, 0xed, 0x1d, 0x9d, 0x5d, 0xdd, 0x3d, 0xbd, 0x7d, 0xfd,
    0x03, 0x83, 0x43, 0xc3, 0x23, 0xa3, 0x63, 0xe3, 0x13, 0x93, 0x53, 0xd3, 0x33, 0xb3, 0x73, 0xf3,
    0x0b, 0x8b, 0x4b, 0xcb, 0x2b, 0xab, 0x6b, 0xeb, 0x1b, 0x9b, 0x5b, 0xdb, 0x3b, 0xbb, 0x7b, 0xfb,
    0x07, 0x87, 0x47, 0xc7, 0x27, 0xa7, 0x67, 0xe7, 0x17, 0x97, 0x57, 0xd7, 0x37, 0xb7, 0x77, 0xf7,
    0x0f, 0x8f, 0x4f, 0xcf, 0x2f, 0xaf, 0x6f, 0xef, 0x1f, 0x9f, 0x5f, 0xdf, 0x3f, 0xbf, 0x7f, 0xff]"

definition swap_masked :: "nat \<Rightarrow> u32 \<Rightarrow> u32 \<Rightarrow> u32" where
  "swap_masked n m x = push_bit n (x AND m) OR drop_bit n (x AND NOT m)"

definition osmo_bit_reversal :: "u32 \<Rightarrow> nat \<Rightarrow> u32" where
  "osmo_bit_reversal x k =
    (let x = (if bit k 0 then swap_masked 1 0x55555555 x else x);
         x = (if bit k 1 then swap_masked 2 0x33333333 x else x);
         x = (if bit k 2 then swap_masked 4 0x0f0f0f0f x else x);
         x = (if bit k 3 then swap_masked 8 0x00ff00ff x else x);
         x = (if bit k 4 then swap_masked 16 0x0000ffff x else x)
     in x)"

definition osmo_revbytebits_32 :: "u32 \<Rightarrow> u32" where
  "osmo_revbytebits_32 x = swap_masked 4 0x0f0f0f0f (swap_masked 2 0x33333333 (swap_masked 1 0x55555555 x))"

definition osmo_revbytebits_8 :: "u8 \<Rightarrow> u32" where
  "osmo_revbytebits_8 x = ucast (flip_table ! unat x)"

definition osmo_revbytebits_buf :: "u8 list \<Rightarrow> nat \<Rightarrow> u8 list option" where
  "osmo_revbytebits_buf buf len = do {
     xs \<leftarrow> mem_read buf 0 len;
     mem_write buf 0 (map (\<lambda>x. flip_table ! unat x) xs)
   }"

section \<open>CRC\<close>

record 'a crcgen_code =
  crc_bits :: nat
  crc_poly :: 'a
  crc_init :: 'a
  crc_remainder :: 'a

definition crc_step :: "('a::len) word crcgen_code \<Rightarrow> ubit \<Rightarrow> 'a word \<Rightarrow> 'a word" where
  "crc_step code b crc =
    (let n = crc_bits code - 1;
         crc = crc XOR push_bit n (ucast b AND 1);
         crc = (if bit crc n then push_bit 1 crc XOR crc_poly code else push_bit 1 crc)
     in crc AND (push_bit (crc_bits code) 1 - 1))"

definition osmo_crcgen_compute_bits :: "('a::len) word crcgen_code \<Rightarrow> ubit list \<Rightarrow> nat \<Rightarrow> 'a word option" where
  "osmo_crcgen_compute_bits code input len = do {
     bs \<leftarrow> mem_read input 0 len;
     Some (fold (crc_step code) bs (crc_init code) XOR crc_remainder code)
   }"

definition crc_bit :: "('a::len) word crcgen_code \<Rightarrow> 'a word \<Rightarrow> nat \<Rightarrow> 'a word" where
  "crc_bit code crc i = drop_bit (crc_bits code - i - 1) crc AND 1"

text \<open>The comparison ends at the first bit that differs.\<close>

fun crc_compare :: "('a::len) word crcgen_code \<Rightarrow> 'a word \<Rightarrow> ubit list \<Rightarrow> nat list \<Rightarrow> int option" where
  "crc_compare code crc bs [] = Some 0"
| "crc_compare code crc bs (i # is) = do {
     b \<leftarrow> mem_at bs i;
     if ucast b XOR crc_bit code crc i \<noteq> 0 then Some 1 else crc_compare code crc bs is
   }"

definition osmo_crcgen_check_bits :: "('a::len) word crcgen_code \<Rightarrow> ubit list \<Rightarrow> nat \<Rightarrow> ubit list \<Rightarrow> int option" where
  "osmo_crcgen_check_bits code input len crc = do {
     c \<leftarrow> osmo_crcgen_compute_bits code input len;
     crc_compare code c crc [0..<crc_bits code]
   }"

text \<open>The bits that are to be written.\<close>

definition osmo_crcgen_set_bits :: "('a::len) word crcgen_code \<Rightarrow> ubit list \<Rightarrow> nat \<Rightarrow> ubit list option" where
  "osmo_crcgen_set_bits code input len = do {
     c \<leftarrow> osmo_crcgen_compute_bits code input len;
     Some (map (\<lambda>i. ucast (crc_bit code c i)) [0..<crc_bits code])
   }"


section \<open>Unpacking and packing\<close>

definition pbit_at :: "bool \<Rightarrow> u8 list \<Rightarrow> nat \<Rightarrow> bool" where
  "pbit_at lsb xs i = bit (xs ! (i div 8)) (bit_no lsb i)"

lemma bit_no_less [simp]: "bit_no lsb i < 8"
  by (auto simp: bit_no_def intro: le_less_trans [OF diff_le_self])

lemma bit_no_inj: assumes "i div 8 = j div 8" "bit_no lsb i = bit_no lsb j" shows "i = j"
proof -
  have "i mod 8 < 8" "j mod 8 < 8" by simp_all
  then have "i mod 8 = j mod 8" using assms(2) unfolding bit_no_def by (cases lsb) simp_all
  then show ?thesis using assms(1) by (metis div_mult_mod_eq)
qed

lemma bit_no_onto: assumes "n < 8" shows "\<exists>i. i div 8 = k \<and> bit_no lsb i = n"
proof -
  obtain m where m: "m < 8" "n = (if lsb then m else 7 - m)"
    using assms by (cases lsb) (auto intro: that [of n] that [of "7 - n"])
  then have "(8 * k + m) div 8 = k \<and> bit_no lsb (8 * k + m) = n" by (simp add: bit_no_def)
  then show ?thesis by blast
qed

lemma and_pow_bit: "x AND 2 ^ n = 0 \<longleftrightarrow> \<not> bit (x :: u8) n"
  by (simp add: and_exp_eq_0_iff_not_bit)

lemma put_bit_ok:
  assumes "i < 8 * length out"
  shows "\<exists>out'. put_bit lsb i b out = Some out' \<and> length out' = length out \<and>
    (\<forall>j < 8 * length out. pbit_at lsb out' j = (if j = i then b \<noteq> 0 else pbit_at lsb out j))"
proof -
  have k: "i div 8 < length out" using assms by auto
  let ?x = "out ! (i div 8)" and ?m = "push_bit (bit_no lsb i) 1 :: u8"
  let ?v = "if b \<noteq> 0 then ?x OR ?m else ?x AND NOT ?m"
  have v: "bit ?v n = (if n = bit_no lsb i then b \<noteq> 0 else bit ?x n)" if "n < 8" for n
    using that by (auto simp: bit_simps bit_1_iff)
  have "pbit_at lsb (out[i div 8 := ?v]) j = (if j = i then b \<noteq> 0 else pbit_at lsb out j)" if "j < 8 * length out" for j
  proof (cases "j div 8 = i div 8")
    case True
    then show ?thesis using k v [of "bit_no lsb j"] bit_no_inj [of j i lsb] by (auto simp: pbit_at_def)
  next
    case False
    then have "j \<noteq> i" by auto
    then show ?thesis using False by (simp add: pbit_at_def)
  qed
  moreover have "put_bit lsb i b out = Some (out[i div 8 := ?v])"
    using k by (simp add: put_bit_def mem_at_def Let_def)
  ultimately show ?thesis by (intro exI [of _ "out[i div 8 := ?v]"]) simp
qed

lemma put_bits_ok:
  "op + length bs \<le> 8 * length out \<Longrightarrow> \<exists>out'. put_bits lsb op bs out = Some out' \<and> length out' = length out \<and>
    (\<forall>j < 8 * length out. pbit_at lsb out' j = (if op \<le> j \<and> j < op + length bs then bs ! (j - op) \<noteq> 0 else pbit_at lsb out j))"
proof (induction bs arbitrary: op out)
  case (Cons b bs)
  obtain o1 where 1: "put_bit lsb op b out = Some o1" "length o1 = length out"
    "\<forall>j < 8 * length out. pbit_at lsb o1 j = (if j = op then b \<noteq> 0 else pbit_at lsb out j)"
    using put_bit_ok [of op out lsb b] Cons.prems by auto
  obtain o2 where 2: "put_bits lsb (op + 1) bs o1 = Some o2" "length o2 = length out"
    "\<forall>j < 8 * length out. pbit_at lsb o2 j = (if op + 1 \<le> j \<and> j < op + 1 + length bs then bs ! (j - (op + 1)) \<noteq> 0 else pbit_at lsb o1 j)"
    using Cons.IH [of "op + 1" o1] Cons.prems 1(2) by auto
  have "pbit_at lsb o2 j = (if op \<le> j \<and> j < op + length (b # bs) then (b # bs) ! (j - op) \<noteq> 0 else pbit_at lsb out j)"
    if "j < 8 * length out" for j
    using 1(3) 2(3) that by (cases "j = op") (auto simp: nth_Cons')
  then show ?case using 1(1) 2(1,2) by simp
qed auto

lemma pbit_at_eqI:
  assumes "length xs = length ys" "\<And>i. i < 8 * length xs \<Longrightarrow> pbit_at lsb xs i = pbit_at lsb ys i"
  shows "xs = ys"
proof (rule nth_equalityI [OF assms(1)])
  fix k assume k: "k < length xs"
  have "bit (xs ! k) n = bit (ys ! k) n" if n: "n < 8" for n
  proof -
    obtain i where i: "i div 8 = k" "bit_no lsb i = n" using bit_no_onto [OF n] by blast
    then have "i < 8 * length xs" using k by auto
    then show ?thesis using assms(2) [of i] i by (simp add: pbit_at_def)
  qed
  then show "xs ! k = ys ! k" by (intro bit_word_eqI) simp
qed

lemma get_bit_ok: "i < 8 * length xs \<Longrightarrow> get_bit lsb xs i = Some (of_bool (pbit_at lsb xs i))"
  by (auto simp: get_bit_def mem_at_def pbit_at_def and_pow_bit Let_def)

definition pbits :: "bool \<Rightarrow> u8 list \<Rightarrow> nat \<Rightarrow> nat \<Rightarrow> ubit list" where
  "pbits lsb xs ofs n = map (\<lambda>i. of_bool (pbit_at lsb xs (ofs + i))) [0..<n]"

lemma length_pbits [simp]: "length (pbits lsb xs ofs n) = n"
  by (simp add: pbits_def)

lemma those_map_Some: "(\<And>x. x \<in> set xs \<Longrightarrow> f x = Some (g x)) \<Longrightarrow> those (map f xs) = Some (map g xs)"
  by (induction xs) auto

lemma pbit2ubit_ext_ok:
  "in_ofs + n \<le> 8 * length xs \<Longrightarrow> osmo_pbit2ubit_ext out ofs xs in_ofs n lsb =
    map_option (Pair (ofs + n)) (mem_write out ofs (pbits lsb xs in_ofs n))"
  unfolding osmo_pbit2ubit_ext_def pbits_def
  by (subst those_map_Some [where g = "\<lambda>i. of_bool (pbit_at lsb xs (in_ofs + i))"])
    (auto simp: get_bit_ok map_option_case split: option.splits)

lemma ubit2pbit_ext_ok:
  assumes "in_ofs + n \<le> length input" "ofs + n \<le> 8 * length out"
  shows "\<exists>r out'. osmo_ubit2pbit_ext out ofs input in_ofs n lsb = Some (r, out') \<and> length out' = length out \<and>
    (\<forall>j < 8 * length out. pbit_at lsb out' j = (if ofs \<le> j \<and> j < ofs + n then input ! (in_ofs + (j - ofs)) \<noteq> 0 else pbit_at lsb out j))"
  using put_bits_ok [of ofs "take n (drop in_ofs input)" out lsb] assms
  by (auto simp: osmo_ubit2pbit_ext_def mem_read_def)

text \<open>All bits of the octets, and back.\<close>

lemma pack_unpack:
  assumes "length out = length xs" "8 * length xs \<le> n"
  shows "\<exists>r. osmo_ubit2pbit_ext out 0 (pbits lsb xs 0 n) 0 (8 * length xs) lsb = Some (r, xs)"
proof -
  obtain r out' where o: "osmo_ubit2pbit_ext out 0 (pbits lsb xs 0 n) 0 (8 * length xs) lsb = Some (r, out')"
    "length out' = length out" "\<forall>j < 8 * length out. pbit_at lsb out' j = (if j < 8 * length xs then pbits lsb xs 0 n ! j \<noteq> 0 else pbit_at lsb out j)"
    using ubit2pbit_ext_ok [of 0 "8 * length xs" "pbits lsb xs 0 n" 0 out lsb] assms by auto
  have "out' = xs"
    by (rule pbit_at_eqI [of _ _ lsb]) (use o assms in \<open>auto simp: pbits_def\<close>)
  then show ?thesis using o(1) by blast
qed

section \<open>The CRC of a block that was given one\<close>

lemma crc_bit_01: "crc_bit code crc i = of_bool (bit crc (crc_bits code - i - 1))"
  by (rule bit_word_eqI) (auto simp: crc_bit_def bit_simps)

lemma compare_ok:
  "(\<And>i. i \<in> set is \<Longrightarrow> i < length bs \<and> bs ! i = ucast (crc_bit code crc i)) \<Longrightarrow> crc_compare code crc bs is = Some 0"
  by (induction "is") (auto simp: mem_at_def crc_bit_01)

lemma check_set_bits:
  assumes "osmo_crcgen_set_bits code input len = Some p"
  shows "osmo_crcgen_check_bits code input len p = Some 0"
proof -
  obtain crc where c: "osmo_crcgen_compute_bits code input len = Some crc"
    "p = map (\<lambda>i. ucast (crc_bit code crc i)) [0..<crc_bits code]"
    using assms by (auto simp: osmo_crcgen_set_bits_def split: Option.bind_splits)
  have "crc_compare code crc p [0..<crc_bits code] = Some 0"
    by (rule compare_ok) (simp add: c(2))
  then show ?thesis using c(1) by (simp add: osmo_crcgen_check_bits_def)
qed

text \<open>The check accepts nothing else.\<close>

lemma word_xor_eq_0: "x XOR y = 0 \<longleftrightarrow> x = (y :: 'a::len word)"
  by (metis xor.assoc xor.left_neutral xor.right_neutral xor_self_eq)

lemma compare_Some0:
  "crc_compare code crc bs is = Some 0 \<longleftrightarrow> (\<forall>i \<in> set is. i < length bs \<and> (ucast (bs ! i) :: 'a::len word) = crc_bit code crc i)"
  by (induction "is") (auto simp: mem_at_def word_xor_eq_0)

section \<open>Reversal of bits\<close>

text \<open>A mode is the number that is added without carry to the number of a bit.\<close>

lemma upt_32: "[0..<32::nat] = [0, 1, 2, 3, 4, 5, 6, 7, 8, 9, 10, 11, 12, 13, 14, 15, 16, 17, 18, 19, 20, 21, 22, 23,
    24, 25, 26, 27, 28, 29, 30, 31]"
  by (simp add: upt_rec)

lemma bit_swap_masked:
  "bit (swap_masked n m x) i \<longleftrightarrow> i < 32 \<and> (if n \<le> i \<and> bit m (i - n) then bit x (i - n) \<or> \<not> bit m (n + i) \<and> bit x (n + i) \<and> n + i < 32
     else \<not> bit m (n + i) \<and> bit x (n + i) \<and> n + i < 32)"
  by (auto simp: swap_masked_def bit_simps)

lemma swap_stage:
  "list_all (\<lambda>i. bit (swap_masked 1 0x55555555 x) i = bit x (i XOR 1)) [0..<32]"
  "list_all (\<lambda>i. bit (swap_masked 2 0x33333333 x) i = bit x (i XOR 2)) [0..<32]"
  "list_all (\<lambda>i. bit (swap_masked 4 0x0f0f0f0f x) i = bit x (i XOR 4)) [0..<32]"
  "list_all (\<lambda>i. bit (swap_masked 8 0x00ff00ff x) i = bit x (i XOR 8)) [0..<32]"
  "list_all (\<lambda>i. bit (swap_masked 16 0x0000ffff x) i = bit x (i XOR 16)) [0..<32]"
  by (simp_all add: bit_swap_masked upt_32) (simp_all add: numeral_2_eq_2 numeral_3_eq_3)

lemma all_upt_32: "list_all P [0..<32] \<Longrightarrow> i < 32 \<Longrightarrow> P i"
  by (simp add: list_all_iff)

lemma take_bit_32: "i < 32 \<longleftrightarrow> take_bit 5 i = (i :: nat)"
  by (simp add: take_bit_nat_eq_self_iff)

lemma xor_less_32: "i < 32 \<Longrightarrow> j < 32 \<Longrightarrow> i XOR j < (32::nat)"
  by (simp add: take_bit_32)

lemma mode_bits:
  assumes "k < (32::nat)"
  shows "(((of_bool (bit k 4) * 16 XOR of_bool (bit k 3) * 8) XOR of_bool (bit k 2) * 4) XOR of_bool (bit k 1) * 2) XOR of_bool (bit k 0) * 1 = k"
proof -
  have "list_all (\<lambda>k. (((of_bool (bit k 4) * 16 XOR of_bool (bit k 3) * 8) XOR of_bool (bit k 2) * 4) XOR of_bool (bit k 1) * 2)
      XOR of_bool (bit k 0) * 1 = k) [0..<32::nat]"
    by (simp add: upt_32 bit_nat_def)
  from all_upt_32 [OF this assms] show ?thesis .
qed

lemma swap_if:
  "i < 32 \<Longrightarrow> bit (if b then swap_masked 1 0x55555555 x else x) i = bit x (i XOR of_bool b * 1)"
  "i < 32 \<Longrightarrow> bit (if b then swap_masked 2 0x33333333 x else x) i = bit x (i XOR of_bool b * 2)"
  "i < 32 \<Longrightarrow> bit (if b then swap_masked 4 0x0f0f0f0f x else x) i = bit x (i XOR of_bool b * 4)"
  "i < 32 \<Longrightarrow> bit (if b then swap_masked 8 0x00ff00ff x else x) i = bit x (i XOR of_bool b * 8)"
  "i < 32 \<Longrightarrow> bit (if b then swap_masked 16 0x0000ffff x else x) i = bit x (i XOR of_bool b * 16)"
  using all_upt_32 [OF swap_stage(1), of i x] all_upt_32 [OF swap_stage(2), of i x] all_upt_32 [OF swap_stage(3), of i x]
    all_upt_32 [OF swap_stage(4), of i x] all_upt_32 [OF swap_stage(5), of i x]
  by (cases b; simp only: if_True if_False of_bool_eq mult_1 mult_zero_left xor.right_neutral)+

lemma bit_reversal:
  assumes "k < 32" "i < 32"
  shows "bit (osmo_bit_reversal x k) i = bit x (i XOR k)"
proof -
  have l: "j XOR of_bool b * n < 32" if "j < 32" "n < 32" for j n :: nat and b
    using that xor_less_32 by (cases b) simp_all
  have c: "16 < (32 :: nat)" "8 < (32 :: nat)" "4 < (32 :: nat)" "2 < (32 :: nat)" "1 < (32 :: nat)" by simp_all
  have "bit (osmo_bit_reversal x k) i = bit x (((((i XOR of_bool (bit k 4) * 16) XOR of_bool (bit k 3) * 8)
      XOR of_bool (bit k 2) * 4) XOR of_bool (bit k 1) * 2) XOR of_bool (bit k 0) * 1)"
    unfolding osmo_bit_reversal_def Let_def 
    by (simp only: l assms(2) swap_if(5) swap_if(4) swap_if(3) swap_if(2) swap_if(1)
      c)
  also have "\<dots> = bit x (i XOR k)"
    using mode_bits [OF assms(1)] by (simp only: xor.assoc)
  finally show ?thesis .
qed

lemma revbytebits_32: "i < 32 \<Longrightarrow> bit (osmo_revbytebits_32 x) i = bit x (i XOR 7)"
  using bit_reversal [of 7 i x] by (simp add: osmo_bit_reversal_def osmo_revbytebits_32_def bit_nat_def)

end
