(* ===== verification/ChanMap.thy ===== *)
theory ChanMap
  imports SchedTypes
begin

text \<open>
  The interleaving of coded blocks (\<open>gsm0503_interleaving.c\<close>) and their mapping on bursts
  (\<open>gsm0503_mapping.c\<close>). The functions are the same for hard and for soft bits, so that they are
  given for elements of any type; a buffer of the caller is an argument, and returned updated. An
  access outside of a buffer is \<open>None\<close>; a pointer that may be absent is an option.
\<close>

section \<open>Permuted copies\<close>

definition gather :: "nat list \<Rightarrow> 'a list \<Rightarrow> 'a list option" where
  "gather js buf = those (map (mem_at buf) js)"

fun scatter :: "(nat \<times> 'a) list \<Rightarrow> 'a list \<Rightarrow> 'a list option" where
  "scatter [] buf = Some buf"
| "scatter ((j, x) # ps) buf = (if j < length buf then scatter ps (buf[j := x]) else None)"

definition put_opt :: "'a list option \<Rightarrow> 'a list \<Rightarrow> 'a list option option" where
  "put_opt p xs = (case p of None \<Rightarrow> Some None | Some buf \<Rightarrow> map_option Some (mem_write buf 0 xs))"

section \<open>Signalling and traffic channels\<close>

definition xcch_index :: "nat \<Rightarrow> nat" where
  "xcch_index k = (let B = k mod 4; j = 2 * (49 * k mod 57) + k mod 8 div 4 in B * 114 + j)"

definition gsm0503_xcch_deinterleave :: "'a list \<Rightarrow> 'a list \<Rightarrow> 'a list option" where
  "gsm0503_xcch_deinterleave cB iB = do { vs \<leftarrow> gather (map xcch_index [0..<456]) iB; mem_write cB 0 vs }"

definition gsm0503_xcch_interleave :: "'a list \<Rightarrow> 'a list \<Rightarrow> 'a list option" where
  "gsm0503_xcch_interleave cB iB = do { cs \<leftarrow> mem_read cB 0 456; scatter (zip (map xcch_index [0..<456]) cs) iB }"

definition tch_fr_index :: "nat \<Rightarrow> nat" where
  "tch_fr_index k = (let B = k mod 8; j = 2 * (49 * k mod 57) + k mod 8 div 4 in B * 114 + j)"

definition gsm0503_tch_fr_deinterleave :: "'a list \<Rightarrow> 'a list \<Rightarrow> 'a list option" where
  "gsm0503_tch_fr_deinterleave cB iB = do { vs \<leftarrow> gather (map tch_fr_index [0..<456]) iB; mem_write cB 0 vs }"

definition gsm0503_tch_fr_interleave :: "'a list \<Rightarrow> 'a list \<Rightarrow> 'a list option" where
  "gsm0503_tch_fr_interleave cB iB = do { cs \<leftarrow> mem_read cB 0 456; scatter (zip (map tch_fr_index [0..<456]) cs) iB }"

definition gsm0503_tch_hr_interleaving :: "(nat \<times> nat) list" where
  "gsm0503_tch_hr_interleaving = [
     (0, 0), (1, 2), (78, 1), (79, 3), (48, 0), (49, 2), (54, 1), (55, 3), (24, 0), (25, 2), (30, 1), (31, 3), (72, 0), (73, 2),
     (6, 1), (7, 3), (96, 0), (97, 2), (12, 0), (13, 2), (102, 1), (103, 3), (60, 0), (61, 2), (66, 1), (67, 3), (90, 1), (91, 3),
     (36, 0), (37, 2), (42, 1), (43, 3), (18, 1), (19, 3), (84, 0), (85, 2), (108, 0), (109, 2), (2, 0), (3, 2), (80, 1), (81, 3),
     (50, 0), (51, 2), (56, 1), (57, 3), (26, 0), (27, 2), (32, 1), (33, 3), (74, 0), (75, 2), (8, 1), (9, 3), (98, 0), (99, 2),
     (14, 0), (15, 2), (104, 1), (105, 3), (62, 0), (63, 2), (68, 1), (69, 3), (92, 1), (93, 3), (38, 0), (39, 2), (44, 1), (45, 3),
     (20, 1), (21, 3), (86, 0), (87, 2), (110, 0), (111, 2), (4, 0), (5, 2), (82, 1), (83, 3), (52, 0), (53, 2), (58, 1), (59, 3),
     (28, 0), (29, 2), (34, 1), (35, 3), (76, 0), (77, 2), (10, 1), (11, 3), (100, 0), (101, 2), (16, 0), (17, 2), (106, 1), (107, 3),
     (64, 0), (65, 2), (70, 1), (71, 3), (94, 1), (95, 3), (40, 0), (41, 2), (46, 1), (47, 3), (22, 1), (23, 3), (88, 0), (89, 2),
     (112, 0), (113, 2), (6, 0), (7, 2), (84, 1), (85, 3), (54, 0), (55, 2), (60, 1), (61, 3), (30, 0), (31, 2), (36, 1), (37, 3),
     (78, 0), (79, 2), (12, 1), (13, 3), (102, 0), (103, 2), (18, 0), (19, 2), (108, 1), (109, 3), (66, 0), (67, 2), (72, 1), (73, 3),
     (96, 1), (97, 3), (42, 0), (43, 2), (48, 1), (49, 3), (24, 1), (25, 3), (90, 0), (91, 2), (0, 1), (1, 3), (8, 0), (9, 2),
     (86, 1), (87, 3), (56, 0), (57, 2), (62, 1), (63, 3), (32, 0), (33, 2), (38, 1), (39, 3), (80, 0), (81, 2), (14, 1), (15, 3),
     (104, 0), (105, 2), (20, 0), (21, 2), (110, 1), (111, 3), (68, 0), (69, 2), (74, 1), (75, 3), (98, 1), (99, 3), (44, 0), (45, 2),
     (50, 1), (51, 3), (26, 1), (27, 3), (92, 0), (93, 2), (2, 1), (3, 3), (10, 0), (11, 2), (88, 1), (89, 3), (58, 0), (59, 2),
     (64, 1), (65, 3), (34, 0), (35, 2), (40, 1), (41, 3), (82, 0), (83, 2), (16, 1), (17, 3), (106, 0), (107, 2), (22, 0), (23, 2),
     (112, 1), (113, 3), (70, 0), (71, 2), (76, 1), (77, 3), (100, 1), (101, 3), (46, 0), (47, 2), (52, 1), (53, 3), (28, 1), (29, 3),
     (94, 0), (95, 2), (4, 1), (5, 3)]"

definition tch_hr_indices :: "nat list" where
  "tch_hr_indices = map (\<lambda>(j, B). B * 114 + j) gsm0503_tch_hr_interleaving"

definition gsm0503_tch_hr_deinterleave :: "'a list \<Rightarrow> 'a list \<Rightarrow> 'a list option" where
  "gsm0503_tch_hr_deinterleave cB iB = do { vs \<leftarrow> gather tch_hr_indices iB; mem_write cB 0 vs }"

definition gsm0503_tch_hr_interleave :: "'a list \<Rightarrow> 'a list \<Rightarrow> 'a list option" where
  "gsm0503_tch_hr_interleave cB iB = do { cs \<leftarrow> mem_read cB 0 228; scatter (zip tch_hr_indices cs) iB }"

section \<open>Packet data: MCS-1 to MCS-4\<close>

text \<open>The 452 bits are spread over the 456, with the four stealing bits between them.\<close>

definition mcs1_pick :: "'a list \<Rightarrow> 'a list" where
  "mcs1_pick cp = take 25 cp @ take 56 (drop 26 cp) @ take 56 (drop 83 cp) @ take 284 (drop 140 cp) @ take 31 (drop 425 cp)"

definition mcs1_spread :: "'a::zero list \<Rightarrow> 'a list" where
  "mcs1_spread c = take 25 c @ [0] @ take 56 (drop 25 c) @ [0] @ take 56 (drop 81 c) @ [0] @ take 284 (drop 137 c) @ [0] @ take 31 (drop 421 c)"

definition gsm0503_mcs1_dl_deinterleave :: "'a list option \<Rightarrow> 'a list option \<Rightarrow> 'a list option \<Rightarrow> 'a list
    \<Rightarrow> ('a list option \<times> 'a list option \<times> 'a list option) option" where
  "gsm0503_mcs1_dl_deinterleave u hc dc iB = do {
     cp \<leftarrow> gather (map xcch_index [0..<456]) iB;
     let c = mcs1_pick cp;
     u \<leftarrow> put_opt u (take 12 c);
     hc \<leftarrow> put_opt hc (take 68 (drop 12 c));
     dc \<leftarrow> put_opt dc (drop 80 c);
     Some (u, hc, dc)
   }"

definition gsm0503_mcs1_dl_interleave :: "'a::zero list \<Rightarrow> 'a list \<Rightarrow> 'a list \<Rightarrow> 'a list \<Rightarrow> 'a list option" where
  "gsm0503_mcs1_dl_interleave up hc dc iB = do {
     u \<leftarrow> mem_read up 0 12;
     h \<leftarrow> mem_read hc 0 68;
     d \<leftarrow> mem_read dc 0 372;
     gsm0503_xcch_interleave (mcs1_spread (u @ h @ d)) iB
   }"

definition gsm0503_mcs1_ul_deinterleave :: "'a list option \<Rightarrow> 'a list option \<Rightarrow> 'a list
    \<Rightarrow> ('a list option \<times> 'a list option) option" where
  "gsm0503_mcs1_ul_deinterleave hc dc iB = do {
     cp \<leftarrow> gather (map xcch_index [0..<456]) iB;
     let c = mcs1_pick cp;
     hc \<leftarrow> put_opt hc (take 80 c);
     dc \<leftarrow> put_opt dc (drop 80 c);
     Some (hc, dc)
   }"

definition gsm0503_mcs1_ul_interleave :: "'a::zero list \<Rightarrow> 'a list \<Rightarrow> 'a list \<Rightarrow> 'a list option" where
  "gsm0503_mcs1_ul_interleave hc dc iB = do {
     h \<leftarrow> mem_read hc 0 80;
     d \<leftarrow> mem_read dc 0 372;
     gsm0503_xcch_interleave (mcs1_spread (h @ d)) iB
   }"

section \<open>Packet data: MCS-5 to MCS-9\<close>

definition gsm0503_interleave_mcs5 :: "nat list" where
  "gsm0503_interleave_mcs5 = [
     0, 463, 890, 1038, 220, 371, 795, 946, 582, 733, 1160, 63, 490, 641, 277, 428, 852, 1003, 185, 333, 1223, 120, 547, 698,
     1122, 28, 915, 1066, 242, 390, 817, 968, 610, 761, 1185, 85, 512, 660, 305, 453, 880, 1031, 204, 355, 782, 1242, 148, 575,
     723, 1150, 50, 474, 625, 1088, 267, 418, 845, 993, 169, 320, 1207, 113, 537, 688, 1115, 12, 902, 1050, 232, 383, 807, 958,
     594, 745, 1172, 75, 502, 653, 289, 440, 864, 1015, 197, 345, 1235, 132, 559, 710, 1134, 40, 927, 1078, 254, 402, 829, 980,
     159, 622, 773, 1197, 97, 524, 672, 1099, 5, 465, 892, 1043, 216, 367, 794, 942, 587, 735, 1162, 62, 486, 637, 279, 430,
     857, 1005, 181, 332, 1219, 125, 549, 700, 1127, 24, 914, 1062, 244, 395, 819, 970, 606, 757, 1184, 87, 514, 665, 301, 452,
     876, 1027, 209, 357, 784, 1247, 144, 571, 722, 1146, 52, 479, 627, 1090, 266, 414, 841, 992, 171, 322, 1209, 109, 536, 684,
     1111, 17, 904, 1055, 228, 379, 806, 954, 599, 747, 1174, 74, 498, 649, 291, 442, 869, 1017, 193, 344, 1231, 137, 561, 712,
     1139, 36, 926, 1074, 256, 407, 831, 982, 158, 618, 769, 1196, 99, 526, 677, 1101, 7, 458, 894, 1033, 227, 363, 802, 941,
     577, 740, 1152, 70, 485, 645, 284, 420, 859, 998, 189, 328, 1215, 127, 542, 702, 1117, 35, 922, 1061, 246, 385, 824, 960,
     605, 765, 1180, 92, 504, 667, 309, 448, 887, 1023, 211, 350, 786, 1237, 155, 567, 730, 1145, 54, 469, 632, 1080, 274, 413,
     849, 988, 176, 312, 1202, 117, 532, 695, 1107, 19, 906, 1045, 239, 375, 814, 953, 589, 752, 1164, 82, 497, 657, 296, 432,
     871, 1010, 201, 340, 1227, 139, 554, 714, 1129, 47, 934, 1073, 258, 397, 836, 972, 166, 617, 777, 1192, 104, 516, 679, 1094,
     9, 460, 899, 1035, 223, 362, 798, 937, 579, 742, 1157, 66, 481, 644, 286, 425, 861, 1000, 188, 324, 1214, 129, 544, 707,
     1119, 31, 918, 1057, 251, 387, 826, 965, 601, 764, 1176, 94, 509, 669, 308, 444, 883, 1022, 213, 352, 791, 1239, 151, 566,
     726, 1141, 59, 471, 634, 1085, 270, 409, 848, 984, 178, 317, 1204, 116, 528, 691, 1106, 21, 911, 1047, 235, 374, 810, 949,
     591, 754, 1169, 78, 493, 656, 298, 437, 873, 1012, 200, 336, 1226, 141, 556, 719, 1131, 43, 930, 1069, 263, 399, 838, 977,
     162, 613, 776, 1188, 106, 521, 681, 1096, 2, 462, 889, 1040, 219, 370, 797, 945, 584, 732, 1159, 65, 489, 640, 276, 427,
     854, 1002, 184, 335, 1222, 122, 546, 697, 1124, 27, 917, 1065, 241, 392, 816, 967, 609, 760, 1187, 84, 511, 662, 304, 455,
     879, 1030, 206, 354, 781, 1244, 147, 574, 725, 1149, 49, 476, 624, 1087, 269, 417, 844, 995, 168, 319, 1206, 112, 539, 687,
     1114, 14, 901, 1052, 231, 382, 809, 957, 596, 744, 1171, 77, 501, 652, 288, 439, 866, 1014, 196, 347, 1234, 134, 558, 709,
     1136, 39, 929, 1077, 253, 404, 828, 979, 161, 621, 772, 1199, 96, 523, 674, 1098, 4, 467, 891, 1042, 218, 366, 793, 944,
     586, 737, 1161, 61, 488, 636, 281, 429, 856, 1007, 180, 331, 1218, 124, 551, 699, 1126, 26, 913, 1064, 243, 394, 821, 969,
     608, 756, 1183, 89, 513, 664, 300, 451, 878, 1026, 208, 359, 783, 1246, 146, 570, 721, 1148, 51, 478, 629, 1089, 265, 416,
     840, 991, 173, 321, 1211, 108, 535, 686, 1110, 16, 903, 1054, 230, 378, 805, 956, 598, 749, 1173, 73, 500, 648, 293, 441,
     868, 1019, 192, 343, 1230, 136, 563, 711, 1138, 38, 925, 1076, 255, 406, 833, 981, 157, 620, 768, 1195, 101, 525, 676, 1103,
     6, 457, 896, 1032, 226, 365, 801, 940, 576, 739, 1154, 69, 484, 647, 283, 422, 858, 997, 191, 327, 1217, 126, 541, 704,
     1116, 34, 921, 1060, 248, 384, 823, 962, 604, 767, 1179, 91, 506, 666, 311, 447, 886, 1025, 210, 349, 788, 1236, 154, 569,
     729, 1144, 56, 468, 631, 1082, 273, 412, 851, 987, 175, 314, 1201, 119, 531, 694, 1109, 18, 908, 1044, 238, 377, 813, 952,
     588, 751, 1166, 81, 496, 659, 295, 434, 870, 1009, 203, 339, 1229, 138, 553, 716, 1128, 46, 933, 1072, 260, 396, 835, 974,
     165, 616, 779, 1191, 103, 518, 678, 1093, 11, 459, 898, 1037, 222, 361, 800, 936, 581, 741, 1156, 68, 480, 643, 285, 424,
     863, 999, 187, 326, 1213, 131, 543, 706, 1121, 30, 920, 1056, 250, 389, 825, 964, 600, 763, 1178, 93, 508, 671, 307, 446,
     882, 1021, 215, 351, 790, 1241, 150, 565, 728, 1140, 58, 473, 633, 1084, 272, 408, 847, 986, 177, 316, 1203, 115, 530, 690,
     1105, 23, 910, 1049, 234, 373, 812, 948, 593, 753, 1168, 80, 492, 655, 297, 436, 875, 1011, 199, 338, 1225, 143, 555, 718,
     1133, 42, 932, 1068, 262, 401, 837, 976, 164, 612, 775, 1190, 105, 520, 683, 1095, 1, 464, 888, 1039, 221, 369, 796, 947,
     583, 734, 1158, 64, 491, 639, 278, 426, 853, 1004, 183, 334, 1221, 121, 548, 696, 1123, 29, 916, 1067, 240, 391, 818, 966,
     611, 759, 1186, 86, 510, 661, 303, 454, 881, 1029, 205, 356, 780, 1243, 149, 573, 724, 1151, 48, 475, 626, 1086, 268, 419,
     843, 994, 170, 318, 1208, 111, 538, 689, 1113, 13, 900, 1051, 233, 381, 808, 959, 595, 746, 1170, 76, 503, 651, 290, 438,
     865, 1016, 195, 346, 1233, 133, 560, 708, 1135, 41, 928, 1079, 252, 403, 830, 978, 160, 623, 771, 1198, 98, 522, 673, 1100,
     3, 466, 893, 1041, 217, 368, 792, 943, 585, 736, 1163, 60, 487, 638, 280, 431, 855, 1006, 182, 330, 1220, 123, 550, 701,
     1125, 25, 912, 1063, 245, 393, 820, 971, 607, 758, 1182, 88, 515, 663, 302, 450, 877, 1028, 207, 358, 785, 1245, 145, 572,
     720, 1147, 53, 477, 628, 1091, 264, 415, 842, 990, 172, 323, 1210, 110, 534, 685, 1112, 15, 905, 1053, 229, 380, 804, 955,
     597, 748, 1175, 72, 499, 650, 292, 443, 867, 1018, 194, 342, 1232, 135, 562, 713, 1137, 37, 924, 1075, 257, 405, 832, 983,
     156, 619, 770, 1194, 100, 527, 675, 1102, 8, 456, 895, 1034, 225, 364, 803, 939, 578, 738, 1153, 71, 483, 646, 282, 421,
     860, 996, 190, 329, 1216, 128, 540, 703, 1118, 33, 923, 1059, 247, 386, 822, 961, 603, 766, 1181, 90, 505, 668, 310, 449,
     885, 1024, 212, 348, 787, 1238, 153, 568, 731, 1143, 55, 470, 630, 1081, 275, 411, 850, 989, 174, 313, 1200, 118, 533, 693,
     1108, 20, 907, 1046, 237, 376, 815, 951, 590, 750, 1165, 83, 495, 658, 294, 433, 872, 1008, 202, 341, 1228, 140, 552, 715,
     1130, 45, 935, 1071, 259, 398, 834, 973, 167, 615, 778, 1193, 102, 517, 680, 1092, 10, 461, 897, 1036, 224, 360, 799, 938,
     580, 743, 1155, 67, 482, 642, 287, 423, 862, 1001, 186, 325, 1212, 130, 545, 705, 1120, 32, 919, 1058, 249, 388, 827, 963,
     602, 762, 1177, 95, 507, 670, 306, 445, 884, 1020, 214, 353, 789, 1240, 152, 564, 727, 1142, 57, 472, 635, 1083, 271, 410,
     846, 985, 179, 315, 1205, 114, 529, 692, 1104, 22, 909, 1048, 236, 372, 811, 950, 592, 755, 1167, 79, 494, 654, 299, 435,
     874, 1013, 198, 337, 1224, 142, 557, 717, 1132, 44, 931, 1070, 261, 400, 839, 975, 163, 614, 774, 1189, 107, 519, 682, 1097]"

definition mcs5_ul_hdr_index :: "nat \<Rightarrow> nat" where
  "mcs5_ul_hdr_index k = 34 * (k mod 4) + 2 * (11 * k mod 17) + k mod 8 div 4"

definition mcs5_dl_hdr_index :: "nat \<Rightarrow> nat" where
  "mcs5_dl_hdr_index k = 25 * (k mod 4) + 17 * k mod 25"

definition mcs7_dl_hdr_index :: "nat \<Rightarrow> nat" where
  "mcs7_dl_hdr_index k = 31 * (k mod 4) + 17 * k mod 31"

definition mcs7_ul_hdr_index :: "nat \<Rightarrow> nat" where
  "mcs7_ul_hdr_index k = 40 * (k mod 4) + 2 * (13 * (k div 8) mod 20) + k mod 8 div 4"

definition mcs7_data_index :: "nat \<Rightarrow> nat" where
  "mcs7_data_index k = 306 * (k mod 4) + 3 * (44 * k mod 102 + k div 4 mod 2) + (k + 2 - k div 408) mod 3"

definition mcs8_data_index :: "nat \<Rightarrow> nat" where
  "mcs8_data_index k = 306 * (2 * (k div 612) + k mod 2) + 3 * (74 * k mod 102 + k div 2 mod 2) + (k + 2 - k div 204) mod 3"

text \<open>A header and a block of data of MCS-5 and 6, or of the two blocks of MCS-7 to 9.\<close>

definition interleave2 :: "nat list \<Rightarrow> nat list \<Rightarrow> 'a list \<Rightarrow> 'a list \<Rightarrow> 'a list \<Rightarrow> 'a list \<Rightarrow> ('a list \<times> 'a list) option" where
  "interleave2 hs ds hc dc hi di = do {
     h \<leftarrow> mem_read hc 0 (length hs);
     hi \<leftarrow> scatter (zip hs h) hi;
     d \<leftarrow> mem_read dc 0 (length ds);
     di \<leftarrow> scatter (zip ds d) di;
     Some (hi, di)
   }"

definition interleave3 :: "nat list \<Rightarrow> nat list \<Rightarrow> 'a list \<Rightarrow> 'a list \<Rightarrow> 'a list \<Rightarrow> 'a list \<Rightarrow> 'a list \<Rightarrow> ('a list \<times> 'a list) option" where
  "interleave3 hs ds hc c1 c2 hi di = do {
     d1 \<leftarrow> mem_read c1 0 612;
     d2 \<leftarrow> mem_read c2 0 612;
     interleave2 hs ds hc (d1 @ d2) hi di
   }"

definition gather_opt :: "nat list \<Rightarrow> 'a list option \<Rightarrow> 'a list \<Rightarrow> 'a list option option" where
  "gather_opt js p buf = (case p of None \<Rightarrow> Some None
     | Some out \<Rightarrow> do { vs \<leftarrow> gather js buf; out \<leftarrow> mem_write out 0 vs; Some (Some out) })"

definition deinterleave2 :: "nat list \<Rightarrow> nat list \<Rightarrow> 'a list option \<Rightarrow> 'a list option \<Rightarrow> 'a list \<Rightarrow> 'a list
    \<Rightarrow> ('a list option \<times> 'a list option) option" where
  "deinterleave2 hs ds hc dc hi di = do {
     hc \<leftarrow> gather_opt hs hc hi;
     dc \<leftarrow> gather_opt ds dc di;
     Some (hc, dc)
   }"

definition deinterleave3 :: "nat list \<Rightarrow> nat list \<Rightarrow> 'a list option \<Rightarrow> 'a list option \<Rightarrow> 'a list option \<Rightarrow> 'a list \<Rightarrow> 'a list
    \<Rightarrow> ('a list option \<times> 'a list option \<times> 'a list option) option" where
  "deinterleave3 hs ds hc c1 c2 hi di = do {
     hc \<leftarrow> gather_opt hs hc hi;
     if c1 \<noteq> None \<and> c2 \<noteq> None then do {
       dc \<leftarrow> gather ds di;
       c1 \<leftarrow> put_opt c1 (take 612 dc);
       c2 \<leftarrow> put_opt c2 (drop 612 dc);
       Some (hc, c1, c2)
     } else Some (hc, c1, c2)
   }"

abbreviation (input) "mcs5_ul_hdr \<equiv> map mcs5_ul_hdr_index [0..<136]"
abbreviation (input) "mcs5_dl_hdr \<equiv> map mcs5_dl_hdr_index [0..<100]"
abbreviation (input) "mcs7_dl_hdr \<equiv> map mcs7_dl_hdr_index [0..<124]"
abbreviation (input) "mcs7_ul_hdr \<equiv> map mcs7_ul_hdr_index [0..<160]"
abbreviation (input) "mcs7_data \<equiv> map mcs7_data_index [0..<1224]"
abbreviation (input) "mcs8_data \<equiv> map mcs8_data_index [0..<1224]"

definition gsm0503_mcs5_ul_interleave :: "'a list \<Rightarrow> 'a list \<Rightarrow> 'a list \<Rightarrow> 'a list \<Rightarrow> ('a list \<times> 'a list) option" where
  "gsm0503_mcs5_ul_interleave hc dc hi di = interleave2 mcs5_ul_hdr gsm0503_interleave_mcs5 hc dc hi di"

definition gsm0503_mcs5_ul_deinterleave :: "'a list option \<Rightarrow> 'a list option \<Rightarrow> 'a list \<Rightarrow> 'a list \<Rightarrow> ('a list option \<times> 'a list option) option" where
  "gsm0503_mcs5_ul_deinterleave hc dc hi di = deinterleave2 mcs5_ul_hdr gsm0503_interleave_mcs5 hc dc hi di"

definition gsm0503_mcs5_dl_interleave :: "'a list \<Rightarrow> 'a list \<Rightarrow> 'a list \<Rightarrow> 'a list \<Rightarrow> ('a list \<times> 'a list) option" where
  "gsm0503_mcs5_dl_interleave hc dc hi di = interleave2 mcs5_dl_hdr gsm0503_interleave_mcs5 hc dc hi di"

definition gsm0503_mcs5_dl_deinterleave :: "'a list option \<Rightarrow> 'a list option \<Rightarrow> 'a list \<Rightarrow> 'a list \<Rightarrow> ('a list option \<times> 'a list option) option" where
  "gsm0503_mcs5_dl_deinterleave hc dc hi di = deinterleave2 mcs5_dl_hdr gsm0503_interleave_mcs5 hc dc hi di"

definition gsm0503_mcs7_dl_interleave :: "'a list \<Rightarrow> 'a list \<Rightarrow> 'a list \<Rightarrow> 'a list \<Rightarrow> 'a list \<Rightarrow> ('a list \<times> 'a list) option" where
  "gsm0503_mcs7_dl_interleave hc c1 c2 hi di = interleave3 mcs7_dl_hdr mcs7_data hc c1 c2 hi di"

definition gsm0503_mcs7_dl_deinterleave :: "'a list option \<Rightarrow> 'a list option \<Rightarrow> 'a list option \<Rightarrow> 'a list \<Rightarrow> 'a list \<Rightarrow> ('a list option \<times> 'a list option \<times> 'a list option) option" where
  "gsm0503_mcs7_dl_deinterleave hc c1 c2 hi di = deinterleave3 mcs7_dl_hdr mcs7_data hc c1 c2 hi di"

definition gsm0503_mcs7_ul_interleave :: "'a list \<Rightarrow> 'a list \<Rightarrow> 'a list \<Rightarrow> 'a list \<Rightarrow> 'a list \<Rightarrow> ('a list \<times> 'a list) option" where
  "gsm0503_mcs7_ul_interleave hc c1 c2 hi di = interleave3 mcs7_ul_hdr mcs7_data hc c1 c2 hi di"

definition gsm0503_mcs7_ul_deinterleave :: "'a list option \<Rightarrow> 'a list option \<Rightarrow> 'a list option \<Rightarrow> 'a list \<Rightarrow> 'a list \<Rightarrow> ('a list option \<times> 'a list option \<times> 'a list option) option" where
  "gsm0503_mcs7_ul_deinterleave hc c1 c2 hi di = deinterleave3 mcs7_ul_hdr mcs7_data hc c1 c2 hi di"

definition gsm0503_mcs8_ul_interleave :: "'a list \<Rightarrow> 'a list \<Rightarrow> 'a list \<Rightarrow> 'a list \<Rightarrow> 'a list \<Rightarrow> ('a list \<times> 'a list) option" where
  "gsm0503_mcs8_ul_interleave hc c1 c2 hi di = interleave3 mcs7_ul_hdr mcs8_data hc c1 c2 hi di"

definition gsm0503_mcs8_ul_deinterleave :: "'a list option \<Rightarrow> 'a list option \<Rightarrow> 'a list option \<Rightarrow> 'a list \<Rightarrow> 'a list \<Rightarrow> ('a list option \<times> 'a list option \<times> 'a list option) option" where
  "gsm0503_mcs8_ul_deinterleave hc c1 c2 hi di = deinterleave3 mcs7_ul_hdr mcs8_data hc c1 c2 hi di"

definition gsm0503_mcs8_dl_interleave :: "'a list \<Rightarrow> 'a list \<Rightarrow> 'a list \<Rightarrow> 'a list \<Rightarrow> 'a list \<Rightarrow> ('a list \<times> 'a list) option" where
  "gsm0503_mcs8_dl_interleave hc c1 c2 hi di = interleave3 mcs7_dl_hdr mcs8_data hc c1 c2 hi di"

definition gsm0503_mcs8_dl_deinterleave :: "'a list option \<Rightarrow> 'a list option \<Rightarrow> 'a list option \<Rightarrow> 'a list \<Rightarrow> 'a list \<Rightarrow> ('a list option \<times> 'a list option \<times> 'a list option) option" where
  "gsm0503_mcs8_dl_deinterleave hc c1 c2 hi di = deinterleave3 mcs7_dl_hdr mcs8_data hc c1 c2 hi di"

section \<open>Mapping on bursts\<close>

text \<open>Half of the bits before and half after the two stealing bits.\<close>

definition gsm0503_xcch_burst_unmap :: "'a list \<Rightarrow> 'a list \<Rightarrow> ('a list \<times> 'a \<times> 'a) option" where
  "gsm0503_xcch_burst_unmap iB eB = do {
     a \<leftarrow> mem_read eB 0 57;
     iB \<leftarrow> mem_write iB 0 a;
     b \<leftarrow> mem_read eB 59 57;
     iB \<leftarrow> mem_write iB 57 b;
     hl \<leftarrow> mem_at eB 57;
     hn \<leftarrow> mem_at eB 58;
     Some (iB, hl, hn)
   }"

definition gsm0503_xcch_burst_map :: "'a list \<Rightarrow> 'a list \<Rightarrow> 'a option \<Rightarrow> 'a option \<Rightarrow> 'a list option" where
  "gsm0503_xcch_burst_map iB eB hl hn = do {
     a \<leftarrow> mem_read iB 0 57;
     eB \<leftarrow> mem_write eB 0 a;
     b \<leftarrow> mem_read iB 57 57;
     eB \<leftarrow> mem_write eB 59 b;
     eB \<leftarrow> (case hl of None \<Rightarrow> Some eB | Some h \<Rightarrow> mem_write eB 57 [h]);
     case hn of None \<Rightarrow> Some eB | Some h \<Rightarrow> mem_write eB 58 [h]
   }"

text \<open>Only the even or only the odd bits.\<close>

definition halves :: "bool \<Rightarrow> nat list \<times> nat list" where
  "halves oddb = (let o1 = (if oddb then 1 else 0) in
     (filter (\<lambda>i. i mod 2 = o1) [0..<57], filter (\<lambda>i. i mod 2 = (58 - o1) mod 2 \<and> 58 - o1 \<le> i) [0..<114]))"

definition gsm0503_tch_burst_unmap :: "'a list option \<Rightarrow> 'a list \<Rightarrow> bool \<Rightarrow> ('a list option \<times> 'a) option" where
  "gsm0503_tch_burst_unmap iB eB oddb = do {
     iB \<leftarrow> (case iB of None \<Rightarrow> Some None | Some iB \<Rightarrow> do {
       a \<leftarrow> gather (fst (halves oddb)) eB;
       iB \<leftarrow> scatter (zip (fst (halves oddb)) a) iB;
       b \<leftarrow> gather (map (\<lambda>i. i + 2) (snd (halves oddb))) eB;
       iB \<leftarrow> scatter (zip (snd (halves oddb)) b) iB;
       Some (Some iB) });
     h \<leftarrow> mem_at eB (if oddb then 57 else 58);
     Some (iB, h)
   }"

definition gsm0503_tch_burst_map :: "'a list \<Rightarrow> 'a list option \<Rightarrow> 'a option \<Rightarrow> bool \<Rightarrow> 'a list option option" where
  "gsm0503_tch_burst_map iB eB h oddb = (case eB of None \<Rightarrow> Some None
     | Some eB \<Rightarrow> do {
         a \<leftarrow> gather (fst (halves oddb)) iB;
         eB \<leftarrow> scatter (zip (fst (halves oddb)) a) eB;
         b \<leftarrow> gather (snd (halves oddb)) iB;
         eB \<leftarrow> scatter (zip (map (\<lambda>i. i + 2) (snd (halves oddb))) b) eB;
         eB \<leftarrow> (case h of None \<Rightarrow> Some eB | Some h \<Rightarrow> mem_write eB (if oddb then 57 else 58) [h]);
         Some (Some eB) })"

definition gsm0503_mcs5_dl_burst_map :: "ubit list \<Rightarrow> ubit list \<Rightarrow> ubit list \<Rightarrow> ubit list \<Rightarrow> nat \<Rightarrow> ubit list option" where
  "gsm0503_mcs5_dl_burst_map di eB hi up B = do {
     d1 \<leftarrow> mem_read di (312 * B) 156;
     h1 \<leftarrow> mem_read hi (25 * B) 12;
     u1 \<leftarrow> mem_read up (9 * B) 6;
     q \<leftarrow> mem_read (replicate 8 0) (2 * B) 2;
     u2 \<leftarrow> mem_read up (9 * B + 6) 3;
     h2 \<leftarrow> mem_read hi (25 * B + 12) 13;
     d2 \<leftarrow> mem_read di (312 * B + 156) 156;
     mem_write eB 0 (d1 @ h1 @ u1 @ q @ u2 @ h2 @ d2)
   }"

definition gsm0503_mcs5_dl_burst_unmap :: "sbit list \<Rightarrow> sbit list \<Rightarrow> sbit list \<Rightarrow> sbit list \<Rightarrow> nat
    \<Rightarrow> (sbit list \<times> sbit list \<times> sbit list) option" where
  "gsm0503_mcs5_dl_burst_unmap di eB hi up B = do {
     e \<leftarrow> mem_read eB 0 348;
     di \<leftarrow> mem_write di (312 * B) (take 156 e);
     hi \<leftarrow> mem_write hi (25 * B) (take 12 (drop 156 e));
     up \<leftarrow> mem_write up (9 * B) (take 6 (drop 168 e));
     up \<leftarrow> mem_write up (9 * B + 6) (take 3 (drop 176 e));
     hi \<leftarrow> mem_write hi (25 * B + 12) (take 13 (drop 179 e));
     di \<leftarrow> mem_write di (312 * B + 156) (drop 192 e);
     Some (di, hi, up)
   }"

definition gsm0503_mcs5_ul_burst_map :: "ubit list \<Rightarrow> ubit list \<Rightarrow> ubit list \<Rightarrow> nat \<Rightarrow> ubit list option" where
  "gsm0503_mcs5_ul_burst_map di eB hi B = do {
     d1 \<leftarrow> mem_read di (312 * B) 156;
     h1 \<leftarrow> mem_read hi (34 * B) 18;
     h2 \<leftarrow> mem_read hi (34 * B + 18) 16;
     d2 \<leftarrow> mem_read di (312 * B + 156) 156;
     mem_write eB 0 (d1 @ h1 @ [0, 0] @ h2 @ d2)
   }"

definition gsm0503_mcs5_ul_burst_unmap :: "sbit list \<Rightarrow> sbit list \<Rightarrow> sbit list \<Rightarrow> nat \<Rightarrow> (sbit list \<times> sbit list) option" where
  "gsm0503_mcs5_ul_burst_unmap di eB hi B = do {
     e \<leftarrow> mem_read eB 0 348;
     di \<leftarrow> mem_write di (312 * B) (take 156 e);
     hi \<leftarrow> mem_write hi (34 * B) (take 18 (drop 156 e));
     hi \<leftarrow> mem_write hi (34 * B + 18) (take 16 (drop 176 e));
     di \<leftarrow> mem_write di (312 * B + 156) (drop 192 e);
     Some (di, hi)
   }"

abbreviation (input) mcs7_q :: "ubit list" where "mcs7_q \<equiv> [1, 1, 1, 0, 0, 1, 1, 1]"

definition gsm0503_mcs7_dl_burst_map :: "ubit list \<Rightarrow> ubit list \<Rightarrow> ubit list \<Rightarrow> ubit list \<Rightarrow> nat \<Rightarrow> ubit list option" where
  "gsm0503_mcs7_dl_burst_map di eB hi up B = do {
     d1 \<leftarrow> mem_read di (306 * B) 153;
     h1 \<leftarrow> mem_read hi (31 * B) 15;
     u1 \<leftarrow> mem_read up (9 * B) 6;
     q \<leftarrow> mem_read mcs7_q (2 * B) 2;
     u2 \<leftarrow> mem_read up (9 * B + 6) 3;
     h2 \<leftarrow> mem_read hi (31 * B + 15) 16;
     d2 \<leftarrow> mem_read di (306 * B + 153) 153;
     mem_write eB 0 (d1 @ h1 @ u1 @ q @ u2 @ h2 @ d2)
   }"

definition gsm0503_mcs7_dl_burst_unmap :: "sbit list \<Rightarrow> sbit list \<Rightarrow> sbit list \<Rightarrow> sbit list \<Rightarrow> nat
    \<Rightarrow> (sbit list \<times> sbit list \<times> sbit list) option" where
  "gsm0503_mcs7_dl_burst_unmap di eB hi up B = do {
     e \<leftarrow> mem_read eB 0 348;
     di \<leftarrow> mem_write di (306 * B) (take 153 e);
     hi \<leftarrow> mem_write hi (31 * B) (take 15 (drop 153 e));
     up \<leftarrow> mem_write up (9 * B) (take 6 (drop 168 e));
     up \<leftarrow> mem_write up (9 * B + 6) (take 3 (drop 176 e));
     hi \<leftarrow> mem_write hi (31 * B + 15) (take 16 (drop 179 e));
     di \<leftarrow> mem_write di (306 * B + 153) (drop 195 e);
     Some (di, hi, up)
   }"

definition gsm0503_mcs7_ul_burst_map :: "ubit list \<Rightarrow> ubit list \<Rightarrow> ubit list \<Rightarrow> nat \<Rightarrow> ubit list option" where
  "gsm0503_mcs7_ul_burst_map di eB hi B = do {
     d1 \<leftarrow> mem_read di (306 * B) 153;
     h1 \<leftarrow> mem_read hi (40 * B) 21;
     q \<leftarrow> mem_read mcs7_q (2 * B) 2;
     h2 \<leftarrow> mem_read hi (40 * B + 21) 19;
     d2 \<leftarrow> mem_read di (306 * B + 153) 153;
     mem_write eB 0 (d1 @ h1 @ q @ h2 @ d2)
   }"

definition gsm0503_mcs7_ul_burst_unmap :: "sbit list \<Rightarrow> sbit list \<Rightarrow> sbit list \<Rightarrow> nat \<Rightarrow> (sbit list \<times> sbit list) option" where
  "gsm0503_mcs7_ul_burst_unmap di eB hi B = do {
     e \<leftarrow> mem_read eB 0 348;
     di \<leftarrow> mem_write di (306 * B) (take 153 e);
     hi \<leftarrow> mem_write hi (40 * B) (take 21 (drop 153 e));
     hi \<leftarrow> mem_write hi (40 * B + 21) (take 19 (drop 176 e));
     di \<leftarrow> mem_write di (306 * B + 153) (drop 195 e);
     Some (di, hi)
   }"

text \<open>Fourteen pairs of bits change places.\<close>

definition swap_a :: "nat list" where
  "swap_a = [155, 158, 161, 164, 167, 170, 173, 195, 196, 198, 199, 201, 202, 204]"

definition swap_b :: "nat list" where
  "swap_b = [142, 144, 145, 147, 148, 150, 151, 176, 179, 182, 185, 188, 191, 194]"

definition gsm0503_mcs5_burst_swap :: "sbit list \<Rightarrow> sbit list option" where
  "gsm0503_mcs5_burst_swap eB = do {
     t \<leftarrow> gather swap_a eB;
     u \<leftarrow> gather swap_b eB;
     eB \<leftarrow> scatter (zip swap_a u) eB;
     scatter (zip swap_b t) eB
   }"

section \<open>Permuted copies and back\<close>

lemma gather_ok: "(\<And>j. j \<in> set js \<Longrightarrow> j < length buf) \<Longrightarrow> gather js buf = Some (map ((!) buf) js)"
  unfolding gather_def by (induction js) (simp_all add: mem_at_def)

lemma scatter_ok:
  "distinct js \<Longrightarrow> (\<And>j. j \<in> set js \<Longrightarrow> j < length buf) \<Longrightarrow> length xs = length js \<Longrightarrow>
    \<exists>buf'. scatter (zip js xs) buf = Some buf' \<and> length buf' = length buf \<and> map ((!) buf') js = xs \<and>
      (\<forall>j. j \<notin> set js \<longrightarrow> buf' ! j = buf ! j)"
proof (induction js arbitrary: xs buf)
  case (Cons j js)
  then obtain x ys where x: "xs = x # ys" by (cases xs) auto
  obtain buf' where b: "scatter (zip js ys) (buf[j := x]) = Some buf'" "length buf' = length (buf[j := x])" "map ((!) buf') js = ys"
    "\<forall>i. i \<notin> set js \<longrightarrow> buf' ! i = buf[j := x] ! i"
    using Cons.IH [of "buf[j := x]" ys] Cons.prems x by auto
  have "buf' ! j = x" using b(4) Cons.prems by simp
  moreover have "\<forall>i. i \<notin> set (j # js) \<longrightarrow> buf' ! i = buf ! i" using b(4) by auto
  ultimately show ?case using b(1-3) x Cons.prems(2) by auto
qed simp

text \<open>An index function of an interleaver, from the \<open>n\<close> coded bits to the \<open>m\<close> of its bursts.\<close>

locale interleaver =
  fixes idx :: "nat \<Rightarrow> nat" and n m :: nat
  assumes bound: "k < n \<Longrightarrow> idx k < m"
    and inj: "i < n \<Longrightarrow> j < n \<Longrightarrow> idx i = idx j \<Longrightarrow> i = j"
begin

lemma distinct_indices: "distinct (map idx [0..<n])"
  using inj by (simp add: distinct_map inj_on_def)

lemma scattered:
  assumes "length cs = n" "length buf = m"
  obtains buf' where "scatter (zip (map idx [0..<n]) cs) buf = Some buf'" "length buf' = m"
    "map ((!) buf') (map idx [0..<n]) = cs"
proof -
  have "j < length buf" if "j \<in> set (map idx [0..<n])" for j using that bound assms(2) by auto
  from scatter_ok [OF distinct_indices this, of cs] show thesis using that assms by auto
qed

lemma gathered: "length buf = m \<Longrightarrow> gather (map idx [0..<n]) buf = Some (map ((!) buf) (map idx [0..<n]))"
  using bound by (intro gather_ok) auto

lemma round_trip:
  assumes "length cs = n" "length buf = m"
  shows "\<exists>buf'. scatter (zip (map idx [0..<n]) cs) buf = Some buf' \<and> length buf' = m \<and> gather (map idx [0..<n]) buf' = Some cs"
proof -
  from scattered [OF assms] obtain buf' where b: "scatter (zip (map idx [0..<n]) cs) buf = Some buf'" "length buf' = m"
    "map ((!) buf') (map idx [0..<n]) = cs" .
  then show ?thesis using gathered [OF b(2)] by auto
qed

text \<open>Onto as well, when there are as many bits as places.\<close>

lemma onto: "n = m \<Longrightarrow> idx ` {..<n} = {..<m}"
proof (rule card_subset_eq)
  assume "n = m"
  show "card (idx ` {..<n}) = card {..<m}"
    using card_image [of idx "{..<n}"] inj \<open>n = m\<close> by (simp add: inj_on_def)
qed (auto intro: bound)

end

section \<open>The index functions are injective\<close>
lemma radix: 
  assumes "a * m + x = a' * m + x'" "x < m" "x' < (m :: nat)" shows "a = a' \<and> x = x'"
proof -
  have "(a * m + x) div m = (a' * m + x') div m" "(a * m + x) mod m = (a' * m + x') mod m" using assms(1) by simp_all
  then show ?thesis using assms(2,3) by simp
qed

lemma crt:
  assumes "i mod p = j mod p" "i mod q = j mod q" "coprime p q" "i < p * q" "j < p * (q :: nat)"
  shows "i = j"
proof -
  have *: "a = b" if "a \<le> b" "b < p * q" "a mod p = b mod p" "a mod q = b mod q" for a b
  proof -
    have "p dvd b - a" "q dvd b - a" using that by (simp_all flip: mod_eq_dvd_iff_nat)
    then have "p * q dvd b - a" using assms(3) by (simp add: divides_mult)
    then show ?thesis using that by (auto dest: dvd_imp_le)
  qed
  show ?thesis using * [of i j] * [of j i] assms by (cases "i \<le> j") simp_all
qed

lemma mult_mod_inj:
  assumes "a * i mod m = a * j mod m" "b * a mod m = (1 :: nat)"
  shows "i mod m = j mod m"
proof -
  have e: "b * (a * k mod m) mod m = k mod m" for k
  proof -
    have "b * (a * k mod m) mod m = (b * a mod m) * k mod m" by (simp add: mod_simps ac_simps)
    then show ?thesis by (simp add: assms(2))
  qed
  show ?thesis using e [of i] e [of j] assms(1) by simp
qed

lemma mod_split: "i mod p = j mod p \<Longrightarrow> i mod (p * q) div p = j mod (p * q) div p \<Longrightarrow> i mod (p * q) = j mod (p * q :: nat)"
  by (metis div_mult_mod_eq mod_mod_cancel dvd_triv_left)

lemma coprime_inverse:
  assumes "b * a mod m = (1 :: nat)" shows "coprime a m"
proof (rule coprimeI)
  fix d assume "d dvd a" "d dvd m"
  then have "d dvd b * a mod m" by (simp add: dvd_mod)
  then show "is_unit d" unfolding assms .
qed

lemma radix_bound: "x \<le> 3 \<Longrightarrow> y < 306 \<Longrightarrow> x * 306 + y < (1224 :: nat)"
  by simp

lemma mod_48: "i mod 4 = j mod 4 \<Longrightarrow> i mod 8 div 4 = j mod 8 div 4 \<Longrightarrow> i mod 8 = j mod (8 :: nat)"
  using mod_split [of i 4 j 2] by simp

lemma two_radix: "2 * a + x = 2 * a' + x' \<Longrightarrow> x < 2 \<Longrightarrow> x' < (2 :: nat) \<Longrightarrow> a = a' \<and> x = x'"
  using radix [of a 2 x a' x'] by (simp add: mult.commute)

interpretation xcch_map: interleaver xcch_index 456 456
proof
  have l: "k mod 8 div 4 < 2" "49 * k mod 57 < 57" for k :: nat by (simp_all add: less_mult_imp_div_less)
  have b: "2 * (49 * k mod 57) + k mod 8 div 4 < 114" for k :: nat using l [of k] by linarith
  fix i j :: nat
  show "k < 456 \<Longrightarrow> xcch_index k < 456" for k
    using b [of k] mod_less_divisor [of 4 k] by (simp add: xcch_index_def Let_def)
  assume a: "i < 456" "j < 456" "xcch_index i = xcch_index j"
  from radix [OF a(3) [unfolded xcch_index_def Let_def] b b]
  have 1: "i mod 4 = j mod 4" "2 * (49 * i mod 57) + i mod 8 div 4 = 2 * (49 * j mod 57) + j mod 8 div 4" by auto
  from two_radix [OF 1(2) l(1) l(1)] have 2: "49 * i mod 57 = 49 * j mod 57" "i mod 8 div 4 = j mod 8 div 4" by auto
  have "i mod 8 = j mod 8" by (rule mod_48 [OF 1(1) 2(2)])
  moreover have "i mod 57 = j mod 57" by (rule mult_mod_inj [OF 2(1), of 7]) simp
  ultimately show "i = j" using a(1,2) by (intro crt [of i 8 j 57] coprime_inverse [of 50]) simp_all
qed

interpretation tch_fr_map: interleaver tch_fr_index 456 912
proof
  have l: "k mod 8 div 4 < 2" "49 * k mod 57 < 57" for k :: nat by (simp_all add: less_mult_imp_div_less)
  have b: "2 * (49 * k mod 57) + k mod 8 div 4 < 114" for k :: nat using l [of k] by linarith
  fix i j :: nat
  show "k < 456 \<Longrightarrow> tch_fr_index k < 912" for k
    using b [of k] mod_less_divisor [of 8 k] by (simp add: tch_fr_index_def Let_def)
  assume a: "i < 456" "j < 456" "tch_fr_index i = tch_fr_index j"
  from radix [OF a(3) [unfolded tch_fr_index_def Let_def] b b]
  have 1: "i mod 8 = j mod 8" "2 * (49 * i mod 57) + i mod 8 div 4 = 2 * (49 * j mod 57) + j mod 8 div 4" by auto
  have "i mod 57 = j mod 57" by (rule mult_mod_inj [of 49 _ _ _ 7]) (use two_radix [OF 1(2) l(1) l(1)] in simp_all)
  then show "i = j" using 1(1) a(1,2) by (intro crt [of i 8 j 57] coprime_inverse [of 50]) simp_all
qed

interpretation mcs5_ul_map: interleaver mcs5_ul_hdr_index 136 136
proof
  have l: "k mod 8 div 4 < 2" "11 * k mod 17 < 17" for k :: nat by (simp_all add: less_mult_imp_div_less)
  have b: "2 * (11 * k mod 17) + k mod 8 div 4 < 34" for k :: nat using l [of k] by linarith
  have d: "mcs5_ul_hdr_index k = k mod 4 * 34 + (2 * (11 * k mod 17) + k mod 8 div 4)" for k by (simp add: mcs5_ul_hdr_index_def)
  fix i j :: nat
  show "k < 136 \<Longrightarrow> mcs5_ul_hdr_index k < 136" for k
    using b [of k] mod_less_divisor [of 4 k] by (simp add: d)
  assume a: "i < 136" "j < 136" "mcs5_ul_hdr_index i = mcs5_ul_hdr_index j"
  from radix [OF a(3) [unfolded d] b b]
  have 1: "i mod 4 = j mod 4" "2 * (11 * i mod 17) + i mod 8 div 4 = 2 * (11 * j mod 17) + j mod 8 div 4" by auto
  from two_radix [OF 1(2) l(1) l(1)] have 2: "11 * i mod 17 = 11 * j mod 17" "i mod 8 div 4 = j mod 8 div 4" by auto
  have "i mod 17 = j mod 17" by (rule mult_mod_inj [OF 2(1), of 14]) simp
  then show "i = j" using mod_48 [OF 1(1) 2(2)] a(1,2) by (intro crt [of i 8 j 17] coprime_inverse [of 15]) simp_all
qed

interpretation mcs5_dl_map: interleaver mcs5_dl_hdr_index 100 100
proof
  have d: "mcs5_dl_hdr_index k = k mod 4 * 25 + 17 * k mod 25" for k by (simp add: mcs5_dl_hdr_index_def)
  have b: "17 * k mod 25 < 25" for k :: nat by simp
  fix i j :: nat
  show "k < 100 \<Longrightarrow> mcs5_dl_hdr_index k < 100" for k
    using b [of k] mod_less_divisor [of 4 k] by (simp add: d)
  assume a: "i < 100" "j < 100" "mcs5_dl_hdr_index i = mcs5_dl_hdr_index j"
  from radix [OF a(3) [unfolded d] b b] have 1: "i mod 4 = j mod 4" "17 * i mod 25 = 17 * j mod 25" by auto
  have "i mod 25 = j mod 25" by (rule mult_mod_inj [OF 1(2), of 3]) simp
  then show "i = j" using 1(1) a(1,2) by (intro crt [of i 4 j 25] coprime_inverse [of 19]) simp_all
qed

interpretation mcs7_dl_map: interleaver mcs7_dl_hdr_index 124 124
proof
  have d: "mcs7_dl_hdr_index k = k mod 4 * 31 + 17 * k mod 31" for k by (simp add: mcs7_dl_hdr_index_def)
  have b: "17 * k mod 31 < 31" for k :: nat by simp
  fix i j :: nat
  show "k < 124 \<Longrightarrow> mcs7_dl_hdr_index k < 124" for k
    using b [of k] mod_less_divisor [of 4 k] by (simp add: d)
  assume a: "i < 124" "j < 124" "mcs7_dl_hdr_index i = mcs7_dl_hdr_index j"
  from radix [OF a(3) [unfolded d] b b] have 1: "i mod 4 = j mod 4" "17 * i mod 31 = 17 * j mod 31" by auto
  have "i mod 31 = j mod 31" by (rule mult_mod_inj [OF 1(2), of 11]) simp
  then show "i = j" using 1(1) a(1,2) by (intro crt [of i 4 j 31] coprime_inverse [of 8]) simp_all
qed

interpretation mcs7_ul_map: interleaver mcs7_ul_hdr_index 160 160
proof
  have l: "k mod 8 div 4 < 2" "13 * (k div 8) mod 20 < 20" for k :: nat by (simp_all add: less_mult_imp_div_less)
  have b: "2 * (13 * (k div 8) mod 20) + k mod 8 div 4 < 40" for k :: nat using l [of k] by linarith
  have d: "mcs7_ul_hdr_index k = k mod 4 * 40 + (2 * (13 * (k div 8) mod 20) + k mod 8 div 4)" for k by (simp add: mcs7_ul_hdr_index_def)
  fix i j :: nat
  show "k < 160 \<Longrightarrow> mcs7_ul_hdr_index k < 160" for k
    using b [of k] mod_less_divisor [of 4 k] by (simp add: d)
  assume a: "i < 160" "j < 160" "mcs7_ul_hdr_index i = mcs7_ul_hdr_index j"
  from radix [OF a(3) [unfolded d] b b]
  have 1: "i mod 4 = j mod 4" "2 * (13 * (i div 8) mod 20) + i mod 8 div 4 = 2 * (13 * (j div 8) mod 20) + j mod 8 div 4" by auto
  from two_radix [OF 1(2) l(1) l(1)] have 2: "13 * (i div 8) mod 20 = 13 * (j div 8) mod 20" "i mod 8 div 4 = j mod 8 div 4" by auto
  have "i div 8 mod 20 = j div 8 mod 20" by (rule mult_mod_inj [OF 2(1), of 17]) simp
  then have "i div 8 = j div 8" using a(1,2) by (simp add: less_mult_imp_div_less)
  then show "i = j" using mod_48 [OF 1(1) 2(2)] by (metis div_mult_mod_eq)
qed

lemma crt_mod:
  assumes "i mod p = j mod p" "i mod q = j mod q" "coprime p q" "0 < p * (q :: nat)"
  shows "i mod (p * q) = j mod (p * q)"
  by (rule crt [of _ p _ q]) (use assms in \<open>simp_all add: mod_mod_cancel\<close>)

lemma even_mod: "2 * a mod 102 = 2 * (a mod 51 :: nat)"
  using mod_mult_mult1 [of 2 a 51] by simp

lemma third: "(t + 407 * a) mod 3 = (t + 407 * b) mod 3 \<Longrightarrow> a mod 3 = b mod (3 :: nat)"
  "(t + 203 * a) mod 3 = (t + 203 * b) mod 3 \<Longrightarrow> a mod 3 = b mod (3 :: nat)"
proof -
  have e: "(t + 407 * a) mod 3 = (t + 2 * a) mod 3" "(t + 203 * a) mod 3 = (t + 2 * a) mod 3" for a :: nat
    using mod_mult_self1 [of "t + 2 * a" "135 * a" 3] mod_mult_self1 [of "t + 2 * a" "67 * a" 3] by (simp_all add: ac_simps)
  have "(t + 2 * a) mod 3 = (t + 2 * b) mod 3 \<Longrightarrow> a mod 3 = b mod 3" by presburger
  then show "(t + 407 * a) mod 3 = (t + 407 * b) mod 3 \<Longrightarrow> a mod 3 = b mod 3"
    "(t + 203 * a) mod 3 = (t + 203 * b) mod 3 \<Longrightarrow> a mod 3 = b mod 3" unfolding e by blast+
qed

lemma by_third: "x < 102 \<Longrightarrow> y < 3 \<Longrightarrow> x * 3 + y < (306 :: nat)"
  by simp

interpretation mcs7_data_map: interleaver mcs7_data_index 1224 1224
proof
  have e: "44 * k mod 102 = 2 * (22 * k mod 51)" for k :: nat using even_mod [of "22 * k"] by simp
  have l: "k div 4 mod 2 < 2" "22 * k mod 51 < 51" "(k + 2 - k div 408) mod 3 < 3" for k :: nat by simp_all
  have b1: "2 * (22 * k mod 51) + k div 4 mod 2 < 102" for k :: nat using l(1,2) [of k] by linarith
  have b: "(2 * (22 * k mod 51) + k div 4 mod 2) * 3 + (k + 2 - k div 408) mod 3 < 306" for k :: nat
    using by_third [OF b1 l(3)] .
  have d: "mcs7_data_index k = k mod 4 * 306 + ((2 * (22 * k mod 51) + k div 4 mod 2) * 3 + (k + 2 - k div 408) mod 3)" for k
    by (simp add: mcs7_data_index_def e)
  fix i j :: nat
  show "k < 1224 \<Longrightarrow> mcs7_data_index k < 1224" for k
    unfolding d using radix_bound [OF _ b, of "k mod 4" k] by simp
  assume a: "i < 1224" "j < 1224" "mcs7_data_index i = mcs7_data_index j"
  from radix [OF a(3) [unfolded d] b b] have 1: "i mod 4 = j mod 4" by blast
  from radix [OF conjunct2 [OF radix [OF a(3) [unfolded d] b b]] l(3) l(3)]
  have 2: "2 * (22 * i mod 51) + i div 4 mod 2 = 2 * (22 * j mod 51) + j div 4 mod 2"
    "(i + 2 - i div 408) mod 3 = (j + 2 - j div 408) mod 3" by blast+
  from two_radix [OF 2(1) l(1) l(1)] have 3: "22 * i mod 51 = 22 * j mod 51" "i div 4 mod 2 = j div 4 mod 2" by auto
  have 4: "i mod 51 = j mod 51" by (rule mult_mod_inj [OF 3(1), of 7]) simp
  have 5: "i mod 8 = j mod 8" using mod_mult2_eq [of i 4 2] mod_mult2_eq [of j 4 2] 1 3(2) by simp
  have c: "coprime 8 (51 :: nat)" by (rule coprime_inverse [of 32]) simp
  have n: "8 * 51 = (408 :: nat)" by simp
  have "0 < 8 * (51 :: nat)" by simp
  from crt_mod [OF 5 4 c this] have 6: "i mod 408 = j mod 408" unfolding n .
  have sp: "k + 2 - k div 408 = k mod 408 + 2 + 407 * (k div 408)" for k :: nat
    using mult_div_mod_eq [of 408 k] by linarith
  have "i div 408 mod 3 = j div 408 mod 3" using 2(2) unfolding sp 6 by (rule third(1))
  moreover have "i div 408 < 3" "j div 408 < 3" using a(1,2) by (simp_all add: less_mult_imp_div_less)
  ultimately show "i = j" using 6 by (metis div_mult_mod_eq mod_less)
qed

interpretation mcs8_data_map: interleaver mcs8_data_index 1224 1224
proof
  have e: "74 * k mod 102 = 2 * (37 * k mod 51)" for k :: nat using even_mod [of "37 * k"] by simp
  have l: "k div 2 mod 2 < 2" "37 * k mod 51 < 51" "(k + 2 - k div 204) mod 3 < 3" "k mod 2 < 2" for k :: nat by simp_all
  have b1: "2 * (37 * k mod 51) + k div 2 mod 2 < 102" for k :: nat using l(1,2) [of k] by linarith
  have b: "(2 * (37 * k mod 51) + k div 2 mod 2) * 3 + (k + 2 - k div 204) mod 3 < 306" for k :: nat
    using by_third [OF b1 l(3)] .
  have d: "mcs8_data_index k = (2 * (k div 612) + k mod 2) * 306 + ((2 * (37 * k mod 51) + k div 2 mod 2) * 3 + (k + 2 - k div 204) mod 3)" for k
    by (simp add: mcs8_data_index_def e)
  fix i j :: nat
  show "mcs8_data_index k < 1224" if "k < 1224" for k
  proof -
    have "k div 612 < 2" using that by (simp add: less_mult_imp_div_less)
    then have "2 * (k div 612) + k mod 2 \<le> 3" using l(4) [of k] by linarith
    then show ?thesis unfolding d by (rule radix_bound) (rule b)
  qed
  assume a: "i < 1224" "j < 1224" "mcs8_data_index i = mcs8_data_index j"
  from radix [OF a(3) [unfolded d] b b] have "2 * (i div 612) + i mod 2 = 2 * (j div 612) + j mod 2" by blast
  from two_radix [OF this l(4) l(4)] have 1: "i div 612 = j div 612" "i mod 2 = j mod 2" by auto
  from radix [OF conjunct2 [OF radix [OF a(3) [unfolded d] b b]] l(3) l(3)]
  have 2: "2 * (37 * i mod 51) + i div 2 mod 2 = 2 * (37 * j mod 51) + j div 2 mod 2"
    "(i + 2 - i div 204) mod 3 = (j + 2 - j div 204) mod 3" by blast+
  from two_radix [OF 2(1) l(1) l(1)] have 3: "37 * i mod 51 = 37 * j mod 51" "i div 2 mod 2 = j div 2 mod 2" by auto
  have 4: "i mod 51 = j mod 51" by (rule mult_mod_inj [OF 3(1), of 40]) simp
  have 5: "i mod 4 = j mod 4" using mod_mult2_eq [of i 2 2] mod_mult2_eq [of j 2 2] 1(2) 3(2) by simp
  have c: "coprime 4 (51 :: nat)" by (rule coprime_inverse [of 13]) simp
  have n: "4 * 51 = (204 :: nat)" by simp
  have "0 < 4 * (51 :: nat)" by simp
  from crt_mod [OF 5 4 c this] have 6: "i mod 204 = j mod 204" unfolding n .
  have sp: "k + 2 - k div 204 = k mod 204 + 2 + 203 * (k div 204)" for k :: nat
    using mult_div_mod_eq [of 204 k] by linarith
  have "i div 204 mod 3 = j div 204 mod 3" using 2(2) unfolding sp 6 by (rule third(2))
  moreover have "i div 204 div 3 = j div 204 div 3" using 1(1) by (simp flip: div_mult2_eq)
  ultimately show "i = j" using 6 by (metis div_mult_mod_eq)
qed

end
