(* ===== verification/Gsm0503.thy ===== *)
theory Gsm0503
  imports ConvGsm BitsCrc ChanMap
begin

text \<open>
  The channel coding of the signalling, the random access and the synchronisation channel
  (\<open>gsm0503_coding.c\<close>, with the parity codes of \<open>gsm0503_parity.c\<close>).

  A buffer of the caller is an argument and returned updated. Local arrays are zero at first, and
  all of an array is written before it is read. What \<open>n_errors\<close> and \<open>n_bits_total\<close> point to is
  returned when they are wanted.
\<close>

section \<open>Parity\<close>

definition gsm0503_fire_crc40 :: "u64 crcgen_code" where
  "gsm0503_fire_crc40 = \<lparr>crc_bits = 40, crc_poly = 0x0004820009, crc_init = 0, crc_remainder = 0xffffffffff\<rparr>"

definition gsm0503_rach_crc6 :: "u8 crcgen_code" where
  "gsm0503_rach_crc6 = \<lparr>crc_bits = 6, crc_poly = 0x2f, crc_init = 0, crc_remainder = 0x3f\<rparr>"

definition gsm0503_sch_crc10 :: "u16 crcgen_code" where
  "gsm0503_sch_crc10 = \<lparr>crc_bits = 10, crc_poly = 0x175, crc_init = 0, crc_remainder = 0x3ff\<rparr>"

section \<open>Decoding and the number of errors\<close>

abbreviation (input) EGPRS_DATA_C_MAX :: nat where "EGPRS_DATA_C_MAX \<equiv> 1836"

text \<open>A bit counts unless it is punctured, or received with the sign of what was sent.\<close>

fun count_errors :: "sbit list \<Rightarrow> ubit list \<Rightarrow> u8 list option \<Rightarrow> nat list \<Rightarrow> int option" where
  "count_errors input recoded data_punc [] = Some 0"
| "count_errors input recoded data_punc (i # is) = do {
     p \<leftarrow> (case data_punc of None \<Rightarrow> Some 0 | Some t \<Rightarrow> mem_at t i);
     e \<leftarrow> (if p \<noteq> 0 then Some False
          else do {
            r \<leftarrow> mem_at recoded i;
            s \<leftarrow> mem_at input i;
            Some (\<not> ((r \<noteq> 0 \<and> s <s 0) \<or> (r = 0 \<and> 0 <s s)))
          });
     n \<leftarrow> count_errors input recoded data_punc is;
     Some (if e then n + 1 else n)
   }"

definition osmo_conv_decode_ber_punctured :: "osmo_conv_code \<Rightarrow> sbit list \<Rightarrow> bool \<Rightarrow> u8 list option
    \<Rightarrow> (int \<times> ubit list \<times> (int \<times> int) option) option" where
  "osmo_conv_decode_ber_punctured code input want data_punc = do {
     (res, output) \<leftarrow> osmo_conv_decode code input;
     if want then do {
       recoded \<leftarrow> osmo_conv_encode code output;
       if EGPRS_DATA_C_MAX < length recoded then None
       else do {
         n_errors \<leftarrow> count_errors input recoded data_punc [0..<length recoded];
         Some (res, output, Some (n_errors, int (length recoded)))
       }
     } else Some (res, output, None)
   }"

definition osmo_conv_decode_ber :: "osmo_conv_code \<Rightarrow> sbit list \<Rightarrow> bool \<Rightarrow> (int \<times> ubit list \<times> (int \<times> int) option) option" where
  "osmo_conv_decode_ber code input want = osmo_conv_decode_ber_punctured code input want None"

section \<open>The signalling channels\<close>

definition xcch_decode_cB :: "u8 list \<Rightarrow> sbit list \<Rightarrow> bool \<Rightarrow> (int \<times> u8 list \<times> (int \<times> int) option) option" where
  "xcch_decode_cB l2_data cB want = do {
     (_, conv, ber) \<leftarrow> osmo_conv_decode_ber gsm0503_xcch cB want;
     rv \<leftarrow> osmo_crcgen_check_bits gsm0503_fire_crc40 conv 184 (drop 184 conv);
     if rv \<noteq> 0 then Some (- 1, l2_data, ber)
     else do {
       (_, l2_data) \<leftarrow> osmo_ubit2pbit_ext l2_data 0 conv 0 184 True;
       Some (0, l2_data, ber)
     }
   }"

definition xcch_encode_cB :: "ubit list \<Rightarrow> u8 list \<Rightarrow> (int \<times> ubit list) option" where
  "xcch_encode_cB cB l2_data = do {
     (_, conv) \<leftarrow> osmo_pbit2ubit_ext (replicate 224 0) 0 l2_data 0 184 True;
     parity \<leftarrow> osmo_crcgen_set_bits gsm0503_fire_crc40 conv 184;
     conv \<leftarrow> mem_write conv 184 parity;
     coded \<leftarrow> osmo_conv_encode gsm0503_xcch conv;
     cB \<leftarrow> mem_write cB 0 coded;
     Some (0, cB)
   }"

fun unmap_bursts :: "nat list \<Rightarrow> sbit list \<Rightarrow> sbit list \<Rightarrow> sbit list option" where
  "unmap_bursts [] iB bursts = Some iB"
| "unmap_bursts (i # is) iB bursts = do {
     (part, _, _) \<leftarrow> gsm0503_xcch_burst_unmap (drop (i * 114) iB) (drop (i * 116) bursts);
     unmap_bursts is (take (i * 114) iB @ part) bursts
   }"

definition gsm0503_xcch_decode :: "u8 list \<Rightarrow> sbit list \<Rightarrow> bool \<Rightarrow> (int \<times> u8 list \<times> (int \<times> int) option) option" where
  "gsm0503_xcch_decode l2_data bursts want = do {
     iB \<leftarrow> unmap_bursts [0, 1, 2, 3] (replicate 456 0) bursts;
     cB \<leftarrow> gsm0503_xcch_deinterleave (replicate 456 0) iB;
     xcch_decode_cB l2_data cB want
   }"

fun map_bursts :: "nat list \<Rightarrow> ubit list \<Rightarrow> ubit list \<Rightarrow> ubit \<Rightarrow> ubit \<Rightarrow> ubit list option" where
  "map_bursts [] iB bursts hl hn = Some bursts"
| "map_bursts (i # is) iB bursts hl hn = do {
     part \<leftarrow> gsm0503_xcch_burst_map (drop (i * 114) iB) (drop (i * 116) bursts) (Some hl) (Some hn);
     map_bursts is iB (take (i * 116) bursts @ part) hl hn
   }"

definition gsm0503_xcch_encode :: "ubit list \<Rightarrow> u8 list \<Rightarrow> (int \<times> ubit list) option" where
  "gsm0503_xcch_encode bursts l2_data = do {
     (_, cB) \<leftarrow> xcch_encode_cB (replicate 456 0) l2_data;
     iB \<leftarrow> gsm0503_xcch_interleave cB (replicate 456 0);
     bursts \<leftarrow> map_bursts [0, 1, 2, 3] iB bursts 1 1;
     Some (0, bursts)
   }"

section \<open>The random access channel\<close>

fun xor_bits_at :: "ubit list \<Rightarrow> u8 \<Rightarrow> nat \<Rightarrow> nat list \<Rightarrow> ubit list option" where
  "xor_bits_at d bsc start [] = Some d"
| "xor_bits_at d bsc start (i # is) = do {
     x \<leftarrow> mem_at d (start + i);
     xor_bits_at (d[start + i := x XOR (drop_bit (5 - i) bsc AND 1)]) bsc start is
   }"

definition rach_apply_bsic :: "ubit list \<Rightarrow> u8 \<Rightarrow> nat \<Rightarrow> ubit list option" where
  "rach_apply_bsic d bsc start = xor_bits_at d bsc start [0, 1, 2, 3, 4, 5]"

definition rach_decode_ber :: "sbit list \<Rightarrow> u8 \<Rightarrow> bool \<Rightarrow> bool \<Rightarrow> (int \<times> (int \<times> int) option) option" where
  "rach_decode_ber burst bsc is_11bit want = do {
     let nbits = (if is_11bit then 11 else 8);
     (_, conv, ber) \<leftarrow> osmo_conv_decode_ber (if is_11bit then gsm0503_rach_ext else gsm0503_rach) burst want;
     conv \<leftarrow> rach_apply_bsic conv bsc nbits;
     rv \<leftarrow> osmo_crcgen_check_bits gsm0503_rach_crc6 conv nbits (drop nbits conv);
     if rv \<noteq> 0 then Some (- 1, ber)
     else do {
       (_, ra) \<leftarrow> osmo_ubit2pbit_ext [0, 0] 0 conv 0 nbits True;
       Some (if is_11bit then uint (push_bit 3 (ucast (ra ! 0) :: u16) OR (ucast (ra ! 1) AND 7)) else uint (ra ! 0), ber)
     }
   }"

definition gsm0503_rach_ext_decode_ber :: "u16 \<Rightarrow> sbit list \<Rightarrow> u8 \<Rightarrow> bool \<Rightarrow> (int \<times> u16 \<times> (int \<times> int) option) option" where
  "gsm0503_rach_ext_decode_ber ra burst bsc want = do {
     (r, ber) \<leftarrow> rach_decode_ber burst bsc True want;
     Some (if r < 0 then (r, ra, ber) else (0, word_of_int r, ber))
   }"

definition gsm0503_rach_decode_ber :: "u8 \<Rightarrow> sbit list \<Rightarrow> u8 \<Rightarrow> bool \<Rightarrow> (int \<times> u8 \<times> (int \<times> int) option) option" where
  "gsm0503_rach_decode_ber ra burst bsc want = do {
     (r, ber) \<leftarrow> rach_decode_ber burst bsc False want;
     Some (if r < 0 then (r, ra, ber) else (0, word_of_int r, ber))
   }"

definition gsm0503_rach_ext_decode :: "u16 \<Rightarrow> sbit list \<Rightarrow> u8 \<Rightarrow> (int \<times> u16) option" where
  "gsm0503_rach_ext_decode ra burst bsc = do {
     (r, _) \<leftarrow> rach_decode_ber burst bsc True False;
     Some (if r < 0 then (r, ra) else (0, word_of_int r))
   }"

definition gsm0503_rach_decode :: "u8 \<Rightarrow> sbit list \<Rightarrow> u8 \<Rightarrow> (int \<times> u8) option" where
  "gsm0503_rach_decode ra burst bsc = do {
     (r, _) \<leftarrow> rach_decode_ber burst bsc False False;
     Some (if r < 0 then (r, ra) else (0, word_of_int r))
   }"

definition gsm0503_rach_ext_encode :: "ubit list \<Rightarrow> u16 \<Rightarrow> u8 \<Rightarrow> bool \<Rightarrow> (int \<times> ubit list) option" where
  "gsm0503_rach_ext_encode burst ra11 bsc is_11bit = do {
     let ra = (if is_11bit then [ucast (drop_bit 3 ra11), ucast (ra11 AND 7)] else [ucast ra11, 0]);
     let nbits = (if is_11bit then 11 else 8);
     (_, conv) \<leftarrow> osmo_pbit2ubit_ext (replicate 17 0) 0 ra 0 nbits True;
     parity \<leftarrow> osmo_crcgen_set_bits gsm0503_rach_crc6 conv nbits;
     conv \<leftarrow> mem_write conv nbits parity;
     conv \<leftarrow> rach_apply_bsic conv bsc nbits;
     coded \<leftarrow> osmo_conv_encode (if is_11bit then gsm0503_rach_ext else gsm0503_rach) conv;
     burst \<leftarrow> mem_write burst 0 coded;
     Some (0, burst)
   }"

definition gsm0503_rach_encode :: "ubit list \<Rightarrow> u8 \<Rightarrow> u8 \<Rightarrow> (int \<times> ubit list) option" where
  "gsm0503_rach_encode burst ra bsc = gsm0503_rach_ext_encode burst (ucast ra) bsc False"

section \<open>The synchronisation channel\<close>

definition gsm0503_sch_decode :: "u8 list \<Rightarrow> sbit list \<Rightarrow> (int \<times> u8 list) option" where
  "gsm0503_sch_decode sb_info burst = do {
     (_, conv) \<leftarrow> osmo_conv_decode gsm0503_sch burst;
     rv \<leftarrow> osmo_crcgen_check_bits gsm0503_sch_crc10 conv 25 (drop 25 conv);
     if rv \<noteq> 0 then Some (- 1, sb_info)
     else do {
       (_, sb_info) \<leftarrow> osmo_ubit2pbit_ext sb_info 0 conv 0 25 True;
       Some (0, sb_info)
     }
   }"

definition gsm0503_sch_encode :: "ubit list \<Rightarrow> u8 list \<Rightarrow> (int \<times> ubit list) option" where
  "gsm0503_sch_encode burst sb_info = do {
     (_, conv) \<leftarrow> osmo_pbit2ubit_ext (replicate 35 0) 0 sb_info 0 25 True;
     parity \<leftarrow> osmo_crcgen_set_bits gsm0503_sch_crc10 conv 25;
     conv \<leftarrow> mem_write conv 25 parity;
     coded \<leftarrow> osmo_conv_encode gsm0503_sch conv;
     burst \<leftarrow> mem_write burst 0 coded;
     Some (0, burst)
   }"

end
