(* ===== verification/Gsm0503Ok.thy ===== *)
theory Gsm0503Ok
  imports Gsm0503
begin

text \<open>
  That what is encoded is decoded, with noise of less than seven bits at full magnitude on the soft
  bits of a block, such as up to three bit errors.
\<close>

section \<open>Bits as numbers\<close>

lemma hard_bits:
  assumes "set xs \<subseteq> {0, 1}"
  shows "bits (map unat xs) \<and> map of_nat (map unat xs) = (xs :: ubit list)"
  using assms by (induction xs) (auto simp: bits_def)

section \<open>The number of errors\<close>

abbreviation bad :: "sbit \<Rightarrow> ubit \<Rightarrow> bool" where
  "bad s u \<equiv> sint s \<noteq> 127 * bsgn u"

lemma disagree_nths: "disagree (map ((!) xs) js) (map ((!) ys) js) = length (filter (\<lambda>j. bad (xs ! j) (ys ! j)) js)"
  by (induction js) (simp_all add: disagree_def)

lemma disagree_upt: "length xs = length ys \<Longrightarrow> disagree xs ys = length (filter (\<lambda>j. bad (xs ! j) (ys ! j)) [0..<length xs])"
  using disagree_nths [of xs "[0..<length xs]" ys] by (metis map_nth)

text \<open>The noise and the number of wrong symbols do not depend on the order.\<close>

lemma noise_nths: "noise (map ((!) xs) js) (map ((!) ys) js) = sum_list (map (\<lambda>j. 127 - sint (xs ! j) * bsgn (ys ! j)) js)"
  by (induction js) (simp_all add: noise_def)

lemma wrong_nths: "wrong (map ((!) xs) js) (map ((!) ys) js) = length (filter (\<lambda>j. sint (xs ! j) * bsgn (ys ! j) \<le> 0) js)"
  by (induction js) (simp_all add: wrong_def)

lemma wrong_upt:
  "length xs = length ys \<Longrightarrow> wrong xs ys = length (filter (\<lambda>j. sint (xs ! j) * bsgn (ys ! j) \<le> 0) [0..<length xs])"
  using wrong_nths [of xs "[0..<length xs]" ys] by (metis map_nth)

lemma noise_wrong_permuted:
  assumes "distinct js" "set js = {..<length xs}" "length xs = length ys"
  shows "noise (map ((!) xs) js) (map ((!) ys) js) = noise xs ys"
    and "wrong (map ((!) xs) js) (map ((!) ys) js) = wrong xs ys"
proof -
  have n: "noise xs ys = sum_list (map (\<lambda>j. 127 - sint (xs ! j) * bsgn (ys ! j)) [0..<length xs])"
    using noise_nths [of xs "[0..<length xs]" ys] assms(3) by (metis map_nth)
  have "sum_list (map f js) = sum_list (map f [0..<length xs])" for f :: "nat \<Rightarrow> int"
    using assms(1,2) by (simp add: sum_list_distinct_conv_sum_set lessThan_atLeast0)
  then show "noise (map ((!) xs) js) (map ((!) ys) js) = noise xs ys" unfolding noise_nths n .
  have "length (filter P js) = length (filter P [0..<length xs])" for P
  proof -
    have "card (set (filter P js)) = card (set (filter P [0..<length xs]))"
      by (rule arg_cong [of _ _ card]) (use assms(2) in auto)
    then show ?thesis using assms(1) by (simp only: distinct_card [OF distinct_filter] distinct_upt)
  qed
  then show "wrong (map ((!) xs) js) (map ((!) ys) js) = wrong xs ys"
    unfolding wrong_nths wrong_upt [OF assms(3)] .
qed

text \<open>An error is counted for every symbol that is wrong.\<close>

lemma error_wrong: "\<not> ((r \<noteq> 0 \<and> s <s 0) \<or> (r = 0 \<and> 0 <s s)) \<longleftrightarrow> sint (s :: sbit) * bsgn r \<le> 0"
  by (auto simp: word_sless_alt bsgn_def)

lemma count_errors_ok:
  "\<forall>i \<in> set is. i < length input \<and> i < length recoded \<Longrightarrow>
    count_errors input recoded None is = Some (int (length (filter (\<lambda>i. sint (input ! i) * bsgn (recoded ! i) \<le> 0) is)))"
proof (induction "is")
  case (Cons i "is")
  then show ?case using error_wrong [of "recoded ! i" "input ! i"] by (auto simp: mem_at_def)
qed simp

text \<open>Up to three bit errors at full magnitude are little noise.\<close>

lemma few_errors: "hard sq \<Longrightarrow> disagree sq w \<le> 3 \<Longrightarrow> soft_range sq \<and> noise sq w < 889 \<and> wrong sq w = disagree sq w"
  using hard_soft_range hard_noise [of sq w] by simp

text \<open>What is true of each of the three codes.\<close>

lemma coded:
  assumes "0 < n" "set xs \<subseteq> {0, 1}" "length xs = n"
  obtains w where "osmo_conv_encode (xcch_like n None) xs = Some w" "length w = 2 * (n + 4)"
    "\<And>sq. length sq = 2 * (n + 4) \<Longrightarrow> soft_range sq \<Longrightarrow> noise sq w < 889 \<Longrightarrow> osmo_conv_decode (xcch_like n None) sq = Some (0, xs)"
proof -
  let ?c = "xcch_like n None" and ?bs = "map unat xs"
  have b: "bits ?bs" "map of_nat ?bs = xs" using hard_bits [OF assms(2)] by auto
  have l: "length ?bs = cc_len ?c" using assms(3) by simp
  have e: "osmo_conv_encode ?c xs = Some (word_of ?c 0 ?bs)"
    using acc_code.encode_ok [OF acc_xcch [OF assms(1)] b(1) l] unfolding b(2) .
  have lw: "length (word_of ?c 0 ?bs) = 2 * (n + 4)"
    using acc_code.length_word [OF acc_xcch [OF assms(1)] l] by simp
  have d: "osmo_conv_decode ?c sq = Some (0, xs)"
    if "length sq = 2 * (n + 4)" "soft_range sq" "noise sq (word_of ?c 0 ?bs) < 889" for sq
    using xcch_like_corrects [OF assms(1) b(1) _ that] assms(3) unfolding b(2) by simp
  show thesis by (rule that [OF e lw d])
qed

lemma decode_ber:
  assumes "osmo_conv_encode c xs = Some w" "osmo_conv_decode c sq = Some (0, xs)"
    and "length sq = length w" "length w \<le> 1836"
  shows "osmo_conv_decode_ber c sq want = Some (0, xs, if want then Some (int (wrong sq w), int (length w)) else None)"
proof -
  have "count_errors sq w None [0..<length w] = Some (int (wrong sq w))"
    using count_errors_ok [of "[0..<length w]" sq w] assms(3) wrong_upt [of sq w] by simp
  then show ?thesis
    using assms by (simp add: osmo_conv_decode_ber_def osmo_conv_decode_ber_punctured_def)
qed

section \<open>Bursts\<close>

lemma unmap_ok:
  "114 \<le> length iB \<Longrightarrow> 116 \<le> length eB \<Longrightarrow> gsm0503_xcch_burst_unmap iB eB =
    Some (take 57 eB @ take 57 (drop 59 eB) @ drop 114 iB, eB ! 57, eB ! 58)"
  by (simp add: gsm0503_xcch_burst_unmap_def mem_read_def mem_write_def mem_at_def blit_def)

lemma map_ok:
  "114 \<le> length iB \<Longrightarrow> 116 \<le> length eB \<Longrightarrow> gsm0503_xcch_burst_map iB eB (Some hl) (Some hn) =
    Some (take 57 iB @ [hl, hn] @ take 57 (drop 57 iB) @ drop 116 eB)"
  by (simp add: gsm0503_xcch_burst_map_def mem_read_def mem_write_def blit_def)

text \<open>The bits of a block on its four bursts, without the stealing bits.\<close>

definition burst_data :: "'a list \<Rightarrow> 'a list" where
  "burst_data bs = concat (map (\<lambda>i. take 57 (drop (116 * i) bs) @ take 57 (drop (116 * i + 59) bs)) [0..<4])"

lemma length_burst_data [simp]: "464 \<le> length bs \<Longrightarrow> length (burst_data bs) = 456"
  by (simp add: burst_data_def upt_rec)

lemma unmap_bursts_ok:
  assumes "464 \<le> length bs" "length iB = 456"
  shows "unmap_bursts [0, 1, 2, 3] iB bs = Some (burst_data bs)"
  using assms by (simp add: unmap_ok burst_data_def upt_rec add.commute)

lemma map_bursts_ok:
  assumes "464 \<le> length bs" "length iB = 456"
  shows "\<exists>bs'. map_bursts [0, 1, 2, 3] iB bs hl hn = Some bs' \<and> length bs' = length bs \<and> burst_data bs' = iB"
proof -
  let ?q = "\<lambda>i. take 57 (drop (114 * i) iB) @ [hl, hn] @ take 57 (drop (114 * i + 57) iB)"
  have "map_bursts [0, 1, 2, 3] iB bs hl hn = Some (?q 0 @ ?q 1 @ ?q 2 @ ?q 3 @ drop 464 bs)"
    using assms by (simp add: map_ok add.commute)
  moreover have "burst_data (?q 0 @ ?q 1 @ ?q 2 @ ?q 3 @ drop 464 bs) = iB"
  proof -
    have c: "take 57 (drop k iB) @ drop (k + 57) iB = drop k iB" for k
      by (metis append_take_drop_id drop_drop add.commute)
    have "burst_data (?q 0 @ ?q 1 @ ?q 2 @ ?q 3 @ drop 464 bs) = take 57 (drop 0 iB) @ take 57 (drop 57 iB) @ take 57 (drop 114 iB) @
        take 57 (drop 171 iB) @ take 57 (drop 228 iB) @ take 57 (drop 285 iB) @ take 57 (drop 342 iB) @ take 57 (drop 399 iB) @ drop 456 iB"
      using assms by (simp add: burst_data_def upt_rec)
    also have "\<dots> = iB"
      using c [of 0] c [of 57] c [of 114] c [of 171] c [of 228] c [of 285] c [of 342] c [of 399] by simp
    finally show ?thesis .
  qed
  ultimately show ?thesis using assms by simp
qed

text \<open>The first bits of a buffer are replaced.\<close>

lemma pack_front:
  assumes "n \<le> 8 * length xs" "n \<le> 8 * length out" "length bs \<ge> n" "take n bs = pbits True xs 0 n"
  shows "\<exists>r out'. osmo_ubit2pbit_ext out 0 bs 0 n True = Some (r, out') \<and> length out' = length out \<and>
    (\<forall>j < 8 * length out. pbit_at True out' j = (if j < n then pbit_at True xs j else pbit_at True out j))"
proof -
  obtain r out' where o: "osmo_ubit2pbit_ext out 0 bs 0 n True = Some (r, out')" "length out' = length out"
    "\<forall>j < 8 * length out. pbit_at True out' j = (if j < n then bs ! j \<noteq> 0 else pbit_at True out j)"
    using ubit2pbit_ext_ok [of 0 n bs 0 out True] assms(2,3) by auto
  have "bs ! j \<noteq> 0 \<longleftrightarrow> pbit_at True xs j" if "j < n" for j
  proof -
    have "bs ! j = take n bs ! j" using that by simp
    then show ?thesis unfolding assms(4) using that by (simp add: pbits_def)
  qed
  then show ?thesis using o by auto
qed

section \<open>Signalling blocks\<close>

lemma pbits_01: "set (pbits lsb xs ofs n) \<subseteq> {0, 1}"
  by (auto simp: pbits_def)

lemma parity_ok:
  assumes "n \<le> length xs" "crc_bits code = p"
  obtains ps where "osmo_crcgen_set_bits code xs n = Some ps" "set ps \<subseteq> {0, 1}" "length ps = p"
    "\<And>ys. take n ys = take n xs \<Longrightarrow> n \<le> length ys \<Longrightarrow> osmo_crcgen_check_bits code ys n ps = Some 0"
proof -
  obtain ps where ps: "osmo_crcgen_set_bits code xs n = Some ps" "\<exists>crc. ps = map (\<lambda>i. ucast (crc_bit code crc i)) [0..<p]"
    using assms by (auto simp: osmo_crcgen_set_bits_def osmo_crcgen_compute_bits_def mem_read_def)
  have uc: "ucast (crc_bit code crc i) \<in> {0 :: ubit, 1}" for crc i
    by (cases "bit crc (crc_bits code - i - 1)") (simp_all add: crc_bit_01)
  obtain crc where crc: "ps = map (\<lambda>i. ucast (crc_bit code crc i)) [0..<p]" using ps(2) by blast
  have "set ps \<subseteq> {0, 1}" unfolding crc set_map by (intro image_subsetI uc)
  moreover have "length ps = p" unfolding crc by simp
  moreover have "osmo_crcgen_check_bits code ys n ps = Some 0" if "take n ys = take n xs" "n \<le> length ys" for ys
    using check_set_bits [OF ps(1)] that assms(1)
    by (simp add: osmo_crcgen_check_bits_def osmo_crcgen_compute_bits_def mem_read_def)
  ultimately show thesis using that ps(1) by blast
qed

text \<open>The bits of a signalling block with their parity.\<close>

lemma xcch_encode_cB_ok:
  assumes "length l2 = 23" "length cB = 456"
  obtains ps w where "xcch_encode_cB cB l2 = Some (0, w)" "length w = 456" "length ps = 40"
    "osmo_conv_encode gsm0503_xcch (pbits True l2 0 184 @ ps) = Some w"
    "set ps \<subseteq> {0, 1}" "osmo_crcgen_check_bits gsm0503_fire_crc40 (pbits True l2 0 184 @ ps) 184 ps = Some 0"
proof -
  let ?d = "pbits True l2 0 184"
  let ?x = "?d @ replicate 40 0"
  have u: "osmo_pbit2ubit_ext (replicate 224 0) 0 l2 0 184 True = Some (184, ?x)"
    using assms(1) by (subst pbit2ubit_ext_ok) (simp_all add: mem_write_def blit_def)
  obtain ps where ps: "osmo_crcgen_set_bits gsm0503_fire_crc40 ?x 184 = Some ps" "set ps \<subseteq> {0, 1}" "length ps = 40"
    "\<And>ys. take 184 ys = take 184 ?x \<Longrightarrow> 184 \<le> length ys \<Longrightarrow> osmo_crcgen_check_bits gsm0503_fire_crc40 ys 184 ps = Some 0"
    by (rule parity_ok [of 184 ?x gsm0503_fire_crc40 40]) (simp_all add: gsm0503_fire_crc40_def)
  have c: "mem_write ?x 184 ps = Some (?d @ ps)" using ps(3) by (simp add: mem_write_def blit_def)
  have b: "set (?d @ ps) \<subseteq> {0, 1}" "length (?d @ ps) = 224" using ps(2,3) pbits_01 [of True l2 0 184] by auto
  obtain w where w: "osmo_conv_encode gsm0503_xcch (?d @ ps) = Some w" "length w = 456"
    by (rule coded [OF _ b]) (auto simp: gsm_codes)
  have "xcch_encode_cB cB l2 = Some (0, w)"
    using u ps(1) c w assms(2) by (simp add: xcch_encode_cB_def mem_write_def blit_def)
  then show thesis using that w ps by simp
qed

lemma xcch_decode_cB_ok:
  assumes "length l2 = 23" "osmo_conv_encode gsm0503_xcch (pbits True l2 0 184 @ ps) = Some w" "set ps \<subseteq> {0, 1}" "length ps = 40"
    and "osmo_crcgen_check_bits gsm0503_fire_crc40 (pbits True l2 0 184 @ ps) 184 ps = Some 0"
    and "length sq = 456" "soft_range sq" "noise sq w < 889" "length out = 23"
  shows "xcch_decode_cB out sq want = Some (0, l2, if want then Some (int (wrong sq w), 456) else None)"
proof -
  let ?x = "pbits True l2 0 184 @ ps"
  have b: "set ?x \<subseteq> {0, 1}" "length ?x = 224" using assms(3,4) pbits_01 [of True l2 0 184] by auto
  obtain w' where w: "osmo_conv_encode gsm0503_xcch ?x = Some w'" "length w' = 456"
    "\<And>sq. length sq = 456 \<Longrightarrow> soft_range sq \<Longrightarrow> noise sq w' < 889 \<Longrightarrow> osmo_conv_decode gsm0503_xcch sq = Some (0, ?x)"
    by (rule coded [OF _ b]) (auto simp: gsm_codes)
  then have "w' = w" using assms(2) by simp
  then have d: "osmo_conv_decode_ber gsm0503_xcch sq want = Some (0, ?x, if want then Some (int (wrong sq w), 456) else None)"
    using decode_ber [OF assms(2), of sq want] w assms(6-8) by simp
  have "mem_read ?x 0 184 = mem_read (pbits True l2 0 184) 0 184" by (simp add: mem_read_def)
  then obtain r where "osmo_ubit2pbit_ext out 0 ?x 0 184 True = Some (r, l2)"
    using pack_unpack [of out l2 184 True] assms(1,9) by (auto simp: osmo_ubit2pbit_ext_def)
  then show ?thesis using d assms(5) by (simp add: xcch_decode_cB_def)
qed

text \<open>Interleaving permutes the received and the sent bits alike.\<close>

lemma xcch_deinterleave_ok: "length iB = 456 \<Longrightarrow> length cB = 456 \<Longrightarrow>
    gsm0503_xcch_deinterleave cB iB = Some (map ((!) iB) (map xcch_index [0..<456]))"
  using xcch_map.gathered [of iB] by (simp add: gsm0503_xcch_deinterleave_def mem_write_def blit_def)

lemma xcch_interleave_ok:
  assumes "length cB = 456" "length iB = 456"
  obtains iB' where "gsm0503_xcch_interleave cB iB = Some iB'" "length iB' = 456" "map ((!) iB') (map xcch_index [0..<456]) = cB"
  using xcch_map.scattered [OF assms] assms(1) by (auto simp: gsm0503_xcch_interleave_def mem_read_def)

lemma xcch_corrects:
  assumes "length l2 = 23" "464 \<le> length bs" "464 \<le> length rs" "length out = 23"
    and "gsm0503_xcch_encode bs l2 = Some (rc, eb)"
    and "soft_range (burst_data rs)" "noise (burst_data rs) (burst_data eb) < 889"
  shows "gsm0503_xcch_decode out rs want =
    Some (0, l2, if want then Some (int (wrong (burst_data rs) (burst_data eb)), 456) else None)"
proof -
  obtain ps w where w: "xcch_encode_cB (replicate 456 0) l2 = Some (0, w)" "length w = 456" "length ps = 40"
    "osmo_conv_encode gsm0503_xcch (pbits True l2 0 184 @ ps) = Some w"
    "set ps \<subseteq> {0, 1}" "osmo_crcgen_check_bits gsm0503_fire_crc40 (pbits True l2 0 184 @ ps) 184 ps = Some 0"
    by (rule xcch_encode_cB_ok [OF assms(1), of "replicate 456 0"]) simp_all
  obtain iB where i: "gsm0503_xcch_interleave w (replicate 456 0) = Some iB" "length iB = 456"
    "map ((!) iB) (map xcch_index [0..<456]) = w"
    by (rule xcch_interleave_ok [OF w(2), of "replicate 456 0"]) simp_all
  have eb: "burst_data eb = iB"
    using map_bursts_ok [OF assms(2) i(2), of 1 1] assms(5) w(1) i(1)
    by (auto simp: gsm0503_xcch_encode_def simp del: map_bursts.simps)
  let ?js = "map xcch_index [0..<456]"
  let ?sq = "map ((!) (burst_data rs)) ?js"
  have js: "distinct ?js" "set ?js = {..<456}"
    using xcch_map.distinct_indices xcch_map.onto by (auto simp: lessThan_atLeast0)
  have l: "length (burst_data rs) = 456" using assms(3) by simp
  have dis: "noise ?sq w = noise (burst_data rs) (burst_data eb)" "wrong ?sq w = wrong (burst_data rs) (burst_data eb)"
    using noise_wrong_permuted [OF js(1), of "burst_data rs" iB] js(2) l i(2,3) eb by simp_all
  have "set ?sq \<subseteq> set (burst_data rs)"
  proof -
    have "burst_data rs ! j \<in> set (burst_data rs)" if "j \<in> set ?js" for j using that js(2) l by (auto intro!: nth_mem)
    then show ?thesis by auto
  qed
  then have h: "soft_range ?sq" using assms(6) unfolding soft_range_def by blast
  have "gsm0503_xcch_decode out rs want = xcch_decode_cB out ?sq want"
    using unmap_bursts_ok [OF assms(3), of "replicate 456 0"] xcch_deinterleave_ok [OF l, of "replicate 456 0"]
    by (simp add: gsm0503_xcch_decode_def)
  also have "\<dots> = Some (0, l2, if want then Some (int (wrong ?sq w), 456) else None)"
    by (rule xcch_decode_cB_ok [OF assms(1) w(4,5,3,6) _ h]) (use assms(4,7) dis in simp_all)
  finally show ?thesis unfolding dis .
qed

text \<open>In particular, up to three bit errors at full magnitude are corrected.\<close>

lemma xcch_corrects_hard:
  assumes "length l2 = 23" "464 \<le> length bs" "464 \<le> length rs" "length out = 23"
    and "gsm0503_xcch_encode bs l2 = Some (rc, eb)"
    and "hard (burst_data rs)" "disagree (burst_data rs) (burst_data eb) \<le> 3"
  shows "gsm0503_xcch_decode out rs want =
    Some (0, l2, if want then Some (int (disagree (burst_data rs) (burst_data eb)), 456) else None)"
  using xcch_corrects [OF assms(1-5), of want] few_errors [OF assms(6,7)] by simp

section \<open>Access bursts\<close>

abbreviation bsic_bits :: "u8 \<Rightarrow> ubit list" where
  "bsic_bits b \<equiv> map (\<lambda>i. of_bool (bit b (5 - i))) [0, 1, 2, 3, 4, 5]"

lemma drop_and_1: "drop_bit k (x :: u8) AND 1 = of_bool (bit x k)"
  by (rule bit_word_eqI) (auto simp: bit_simps)

lemma apply_bsic_ok:
  assumes "length d = n" "length ps = 6"
  shows "rach_apply_bsic (d @ ps @ ts) b n = Some (d @ map2 (XOR) ps (bsic_bits b) @ ts)"
proof -
  obtain p0 p1 p2 p3 p4 p5 where p: "ps = [p0, p1, p2, p3, p4, p5]"
    using assms(2) by (auto simp: numeral_eq_Suc length_Suc_conv)
  have a: "x AND 1 = of_bool (bit x 0)" for x :: u8 using drop_and_1 [of 0 x] by simp
  show ?thesis using assms(1) unfolding p rach_apply_bsic_def
    by (simp add: mem_at_def nth_append list_update_append a bit_drop_bit_eq)
qed

lemma compare_cases:
  "\<forall>i \<in> set is. i < length bs \<Longrightarrow>
    crc_compare code crc bs is = Some (if \<forall>i \<in> set is. ucast (bs ! i) = crc_bit code crc i then 0 else 1)"
  by (induction "is") (auto simp: mem_at_def word_xor_eq_0)

lemma bsic_bits_eq: "bsic_bits b = bsic_bits b' \<longleftrightarrow> b AND 0x3f = b' AND (0x3f :: u8)"
proof -
  have m: "bit (0x3f :: int) n \<longleftrightarrow> n < 6" for n
  proof -
    have "(0x3f :: int) = mask 6" by (simp add: mask_eq_exp_minus_1)
    then show ?thesis by (simp only: bit_mask_iff) auto
  qed
  have "b AND 0x3f = b' AND 0x3f \<longleftrightarrow> (\<forall>n < 6. bit b n = bit b' n)"
  proof -
    have "b AND 0x3f = b' AND 0x3f \<longleftrightarrow> (\<forall>n < 8. (bit b n \<and> n < 6) = (bit b' n \<and> n < 6))"
      by (subst bit_eq_iff) (auto simp: bit_and_iff m)
    also have "\<dots> \<longleftrightarrow> (\<forall>n < 6. bit b n = bit b' n)"
    proof -
      have "n < 6 \<Longrightarrow> n < 8" for n :: nat by simp
      then show ?thesis by blast
    qed
    finally show ?thesis .
  qed
  also have "\<dots> \<longleftrightarrow> (\<forall>n \<in> {0, 1, 2, 3, 4, 5}. bit b n = bit b' n)"
    by (rule iffI) (auto simp: numeral_eq_Suc less_Suc_eq)
  also have "\<dots> \<longleftrightarrow> bsic_bits b = bsic_bits b'" by (auto simp: of_bool_eq_iff)
  finally show ?thesis by simp
qed

lemma xor_lists_cancel:
  "length ps = length xs \<Longrightarrow> length ps = length ys \<Longrightarrow> map2 (XOR) (map2 (XOR) ps xs) ys = ps \<longleftrightarrow> xs = (ys :: ubit list)"
proof (induction ps arbitrary: xs ys)
  case (Cons p ps)
  then obtain x xs' y ys' where e: "xs = x # xs'" "ys = y # ys'" by (metis length_Suc_conv)
  have "(p XOR x) XOR y = p \<longleftrightarrow> x = y"
    by (metis word_xor_eq_0 xor.assoc xor.right_neutral xor_self_eq)
  then show ?case using Cons e by simp
qed auto

lemma xor_01: "set ps \<subseteq> {0, 1} \<Longrightarrow> set qs \<subseteq> {0, 1} \<Longrightarrow> set (map2 (XOR) ps qs) \<subseteq> {0, 1 :: ubit}"
proof (induction ps arbitrary: qs)
  case (Cons p ps)
  then show ?case by (cases qs) auto
qed simp

lemma rach_encode_ok:
  assumes "36 \<le> length burst"
  obtains ps w where "gsm0503_rach_encode burst ra b = Some (0, w @ drop 36 burst)" "length w = 36" "length ps = 6" "set ps \<subseteq> {0, 1}"
    "osmo_crcgen_set_bits gsm0503_rach_crc6 (pbits True [ra] 0 8) 8 = Some ps"
    "osmo_conv_encode gsm0503_rach (pbits True [ra] 0 8 @ map2 (XOR) ps (bsic_bits b)) = Some w"
proof -
  let ?d = "pbits True [ra] 0 8"
  let ?x = "?d @ replicate 9 0"
  have uu: "ucast (ucast ra :: u16) = ra" by (rule bit_word_eqI) (simp add: bit_ucast_iff)
  have d2: "pbits True [ra, 0] 0 8 = ?d" by (simp add: pbits_def pbit_at_def)
  have u: "osmo_pbit2ubit_ext (replicate 17 0) 0 [ra, 0] 0 8 True = Some (8, ?x)"
    by (subst pbit2ubit_ext_ok) (simp_all add: mem_write_def blit_def d2)
  obtain ps where ps: "osmo_crcgen_set_bits gsm0503_rach_crc6 ?d 8 = Some ps" "set ps \<subseteq> {0, 1}" "length ps = 6"
    by (rule parity_ok [of 8 ?d gsm0503_rach_crc6 6]) (simp_all add: gsm0503_rach_crc6_def)
  have p: "osmo_crcgen_set_bits gsm0503_rach_crc6 ?x 8 = Some ps"
    using ps(1) by (simp add: osmo_crcgen_set_bits_def osmo_crcgen_compute_bits_def mem_read_def)
  let ?q = "map2 (XOR) ps (bsic_bits b)"
  have c: "mem_write ?x 8 ps = Some (?d @ ps @ replicate 3 0)" using ps(3) by (simp add: mem_write_def blit_def)
  have a: "rach_apply_bsic (?d @ ps @ replicate 3 0) b 8 = Some (?d @ ?q @ replicate 3 0)"
    by (rule apply_bsic_ok) (simp_all add: ps(3))
  have q: "set ?q \<subseteq> {0, 1}" by (rule xor_01) (use ps(2) in auto)
  then have bb: "set (?d @ ?q) \<subseteq> {0, 1}" "length (?d @ ?q) = 14" using ps(3) pbits_01 [of True "[ra]" 0 8] by auto
  obtain w where w: "osmo_conv_encode gsm0503_rach (?d @ ?q) = Some w" "length w = 36"
    by (rule coded [OF _ bb]) (auto simp: gsm_codes)
  have w': "osmo_conv_encode gsm0503_rach (?d @ ?q @ replicate 3 0) = Some w"
    using w(1) ps(3) by (simp add: osmo_conv_encode_def mem_read_def gsm_codes)
  have "gsm0503_rach_encode burst ra b = Some (0, w @ drop 36 burst)"
    using u p c a w' w(2) assms uu by (simp add: gsm0503_rach_encode_def gsm0503_rach_ext_encode_def mem_write_def blit_def)
  then show thesis using that w ps by simp
qed

lemma xor_bsic_01: "set ps \<subseteq> {0, 1} \<Longrightarrow> set (map2 (XOR) ps (bsic_bits b)) \<subseteq> {0, 1}"
  by (rule xor_01) auto

text \<open>The check after another colour code has been applied.\<close>

lemma rach_check:
  assumes "osmo_crcgen_set_bits gsm0503_rach_crc6 d 8 = Some ps" "length d = 8" "length qs = 6"
  shows "osmo_crcgen_check_bits gsm0503_rach_crc6 (d @ qs) 8 qs = Some (if qs = ps then 0 else 1)"
proof -
  obtain crc where c: "osmo_crcgen_compute_bits gsm0503_rach_crc6 d 8 = Some crc" "ps = map (\<lambda>i. crc_bit gsm0503_rach_crc6 crc i) [0..<6]"
    using assms(1) by (auto simp: osmo_crcgen_set_bits_def gsm0503_rach_crc6_def split: Option.bind_splits)
  have "osmo_crcgen_compute_bits gsm0503_rach_crc6 (d @ qs) 8 = Some crc"
    using c(1) assms(2) by (simp add: osmo_crcgen_compute_bits_def mem_read_def)
  moreover have "qs = ps \<longleftrightarrow> (\<forall>i \<in> set [0..<6]. ucast (qs ! i) = crc_bit gsm0503_rach_crc6 crc i)"
    unfolding c(2) using assms(3) by (auto simp: list_eq_iff_nth_eq)
  moreover have "crc_bits gsm0503_rach_crc6 = 6" by (simp add: gsm0503_rach_crc6_def)
  ultimately show ?thesis
    using compare_cases [of "[0..<6]" qs gsm0503_rach_crc6 crc] assms(3) by (simp add: osmo_crcgen_check_bits_def)
qed

lemma rach_corrects:
  assumes "36 \<le> length burst" "gsm0503_rach_encode burst ra b = Some (rc, eb)"
    and "length rs = 36" "hard rs" "disagree rs (take 36 eb) \<le> 3"
  shows "gsm0503_rach_decode_ber old rs b' want =
    Some (if b AND 0x3f = b' AND 0x3f then 0 else - 1, if b AND 0x3f = b' AND 0x3f then ra else old,
      if want then Some (int (disagree rs (take 36 eb)), 36) else None)"
proof -
  let ?d = "pbits True [ra] 0 8"
  obtain ps w where w: "gsm0503_rach_encode burst ra b = Some (0, w @ drop 36 burst)" "length w = 36" "length ps = 6" "set ps \<subseteq> {0, 1}"
    "osmo_crcgen_set_bits gsm0503_rach_crc6 ?d 8 = Some ps"
    "osmo_conv_encode gsm0503_rach (?d @ map2 (XOR) ps (bsic_bits b)) = Some w"
    by (rule rach_encode_ok [OF assms(1), of ra b])
  have eb: "take 36 eb = w" using assms(2) w(1,2) by auto
  let ?x = "?d @ map2 (XOR) ps (bsic_bits b)" and ?q = "map2 (XOR) (map2 (XOR) ps (bsic_bits b)) (bsic_bits b')"
  have bb: "set ?x \<subseteq> {0, 1}" "length ?x = 14"
    using w(3) xor_bsic_01 [OF w(4), of b] pbits_01 [of True "[ra]" 0 8] by auto
  obtain w' where w': "osmo_conv_encode gsm0503_rach ?x = Some w'" "length w' = 36"
    "\<And>sq. length sq = 36 \<Longrightarrow> soft_range sq \<Longrightarrow> noise sq w' < 889 \<Longrightarrow> osmo_conv_decode gsm0503_rach sq = Some (0, ?x)"
    by (rule coded [OF _ bb]) (auto simp: gsm_codes)
  then have ww: "w' = w" using w(6) by simp
  have dd: "osmo_conv_decode gsm0503_rach rs = Some (0, ?x)"
    by (rule w'(3) [OF assms(3)]) (use few_errors [OF assms(4,5)] eb ww in simp_all)
  have "osmo_conv_decode_ber gsm0503_rach rs want = Some (0, ?x, if want then Some (int (wrong rs w), int (length w)) else None)"
    by (rule decode_ber [OF w(6) dd]) (use w(2) assms(3) in simp_all)
  then have d: "osmo_conv_decode_ber gsm0503_rach rs want = Some (0, ?x, if want then Some (int (disagree rs w), 36) else None)"
    using few_errors [OF assms(4,5)] eb w(2) by simp
  have a: "rach_apply_bsic ?x b' 8 = Some (?d @ ?q)"
    using apply_bsic_ok [of ?d 8 "map2 (XOR) ps (bsic_bits b)" "[]" b'] w(3) by simp
  have lq: "length ?q = 6" using w(3) by simp
  have q: "?q = ps \<longleftrightarrow> b AND 0x3f = b' AND 0x3f"
  proof -
    have l6: "length ps = length (bsic_bits b)" for b :: u8 using w(3) by simp
    show ?thesis unfolding xor_lists_cancel [OF l6 l6] by (rule bsic_bits_eq)
  qed
  have c: "osmo_crcgen_check_bits gsm0503_rach_crc6 (?d @ ?q) 8 ?q = Some (if ?q = ps then 0 else 1)"
    by (rule rach_check [OF w(5) _ lq]) simp
  obtain r out' where u: "osmo_ubit2pbit_ext [0, 0] 0 (?d @ ?q) 0 8 True = Some (r, out')" "length out' = 2"
    "\<forall>j < 16. pbit_at True out' j = (if j < 8 then pbit_at True [ra] j else pbit_at True [0, 0] j)"
    using pack_front [of 8 "[ra]" "[0, 0]" "?d @ ?q"] by auto
  have o: "out' = [ra, 0]"
    by (rule pbit_at_eqI [of _ _ True]) (use u(2,3) in \<open>auto simp: pbit_at_def\<close>)
  show ?thesis
  proof (cases "b AND 0x3f = b' AND 0x3f")
    case True
    then have "?q = ps" using q by blast
    then show ?thesis using True d a c u(1) o eb by (simp add: gsm0503_rach_decode_ber_def rach_decode_ber_def)
  next
    case False
    then have "?q \<noteq> ps" using q by blast
    then show ?thesis using False d a c eb by (simp add: gsm0503_rach_decode_ber_def rach_decode_ber_def)
  qed
qed

section \<open>Synchronisation bursts\<close>

lemma sch_encode_ok:
  assumes "78 \<le> length burst" "4 \<le> length sb"
  obtains ps w where "gsm0503_sch_encode burst sb = Some (0, w @ drop 78 burst)" "length w = 78" "length ps = 10" "set ps \<subseteq> {0, 1}"
    "osmo_crcgen_check_bits gsm0503_sch_crc10 (pbits True sb 0 25 @ ps) 25 ps = Some 0"
    "osmo_conv_encode gsm0503_sch (pbits True sb 0 25 @ ps) = Some w"
proof -
  let ?d = "pbits True sb 0 25"
  let ?x = "?d @ replicate 10 0"
  have u: "osmo_pbit2ubit_ext (replicate 35 0) 0 sb 0 25 True = Some (25, ?x)"
    using assms(2) by (subst pbit2ubit_ext_ok) (simp_all add: mem_write_def blit_def)
  obtain ps where ps: "osmo_crcgen_set_bits gsm0503_sch_crc10 ?x 25 = Some ps" "set ps \<subseteq> {0, 1}" "length ps = 10"
    "\<And>ys. take 25 ys = take 25 ?x \<Longrightarrow> 25 \<le> length ys \<Longrightarrow> osmo_crcgen_check_bits gsm0503_sch_crc10 ys 25 ps = Some 0"
    by (rule parity_ok [of 25 ?x gsm0503_sch_crc10 10]) (simp_all add: gsm0503_sch_crc10_def)
  have c: "mem_write ?x 25 ps = Some (?d @ ps)" using ps(3) by (simp add: mem_write_def blit_def)
  have b: "set (?d @ ps) \<subseteq> {0, 1}" "length (?d @ ps) = 35" using ps(2,3) pbits_01 [of True sb 0 25] by auto
  obtain w where w: "osmo_conv_encode gsm0503_sch (?d @ ps) = Some w" "length w = 78"
    by (rule coded [OF _ b]) (auto simp: gsm_codes)
  have "gsm0503_sch_encode burst sb = Some (0, w @ drop 78 burst)"
    using u ps(1) c w assms(1) by (simp add: gsm0503_sch_encode_def mem_write_def blit_def)
  then show thesis using that w ps by simp
qed

lemma sch_corrects:
  assumes "78 \<le> length burst" "4 \<le> length sb" "gsm0503_sch_encode burst sb = Some (rc, eb)"
    and "length rs = 78" "hard rs" "disagree rs (take 78 eb) \<le> 3" "4 \<le> length out"
  shows "\<exists>out'. gsm0503_sch_decode out rs = Some (0, out') \<and> length out' = length out \<and>
    (\<forall>j < 8 * length out. pbit_at True out' j = (if j < 25 then pbit_at True sb j else pbit_at True out j))"
proof -
  let ?d = "pbits True sb 0 25"
  obtain ps w where w: "gsm0503_sch_encode burst sb = Some (0, w @ drop 78 burst)" "length w = 78" "length ps = 10" "set ps \<subseteq> {0, 1}"
    "osmo_crcgen_check_bits gsm0503_sch_crc10 (?d @ ps) 25 ps = Some 0"
    "osmo_conv_encode gsm0503_sch (?d @ ps) = Some w"
    by (rule sch_encode_ok [OF assms(1,2)])
  have eb: "take 78 eb = w" using assms(3) w(1,2) by auto
  have b: "set (?d @ ps) \<subseteq> {0, 1}" "length (?d @ ps) = 35" using w(3,4) pbits_01 [of True sb 0 25] by auto
  obtain w' where w': "osmo_conv_encode gsm0503_sch (?d @ ps) = Some w'" "length w' = 78"
    "\<And>sq. length sq = 78 \<Longrightarrow> soft_range sq \<Longrightarrow> noise sq w' < 889 \<Longrightarrow> osmo_conv_decode gsm0503_sch sq = Some (0, ?d @ ps)"
    by (rule coded [OF _ b]) (auto simp: gsm_codes)
  then have d: "osmo_conv_decode gsm0503_sch rs = Some (0, ?d @ ps)" using w(6) assms(4) few_errors [OF assms(5,6)] eb by simp
  have "25 \<le> 8 * length sb" "25 \<le> 8 * length out" using assms(2,7) by simp_all
  from pack_front [OF this, of "?d @ ps"] obtain r out' where u: "osmo_ubit2pbit_ext out 0 (?d @ ps) 0 25 True = Some (r, out')"
    "length out' = length out" "\<forall>j < 8 * length out. pbit_at True out' j = (if j < 25 then pbit_at True sb j else pbit_at True out j)"
    by auto
  have "gsm0503_sch_decode out rs = Some (0, out')" using d w(5) u(1) by (simp add: gsm0503_sch_decode_def)
  then show ?thesis using u(2,3) by blast
qed

text \<open>In terms of the octets: three and the lowest bit of the fourth.\<close>

lemma sch_octets:
  assumes "length sb = 4" "length out = 4" "length out' = 4"
    and "\<forall>j < 32. pbit_at True out' j = (if j < 25 then pbit_at True sb j else pbit_at True out j)"
  shows "out' = take 3 sb @ [sb ! 3 AND 1 OR out ! 3 AND NOT 1]"
proof (rule pbit_at_eqI [of _ _ True])
  fix j assume "j < 8 * length out'"
  then have j: "j < 32" using assms(3) by simp
  have l: "j mod 8 < 8" by simp
  show "pbit_at True out' j = pbit_at True (take 3 sb @ [sb ! 3 AND 1 OR out ! 3 AND NOT 1]) j"
  proof (cases "j < 24")
    case True
    then have "j div 8 < 3" by (simp add: less_mult_imp_div_less)
    then show ?thesis using True assms(1,4) j by (simp add: pbit_at_def nth_append)
  next
    case False
    then have 3: "j div 8 = 3" "j mod 8 = j - 24" using j by presburger+
    have f: "pbit_at True out' j = (if j < 25 then pbit_at True sb j else pbit_at True out j)" using assms(4) j by blast
    show ?thesis
    proof (cases "j = 24")
      case True
      then show ?thesis using f assms(1) by (simp add: pbit_at_def nth_append bit_no_def bit_simps)
    next
      case False
      then have "0 < j - 24" "j - 24 < 8" "\<not> j < 25" using \<open>\<not> j < 24\<close> j by auto
      then show ?thesis using f 3 assms(1) by (simp add: pbit_at_def nth_append bit_no_def bit_simps bit_1_iff)
    qed
  qed
qed (use assms in simp)

end
