(* ===== verification/Gsm0503Props.thy ===== *)
theory Gsm0503Props
  imports Gsm0503Ok SchedLchanXcch
begin

text \<open>
  What the channel coding does for its users: the corrections of the three channels, and a
  signalling block of the scheduler that crosses an air interface with bit errors.
\<close>

section \<open>Noise\<close>

lemma sint_127 [simp]: "sint (127 :: sbit) = 127" "sint (- 127 :: sbit) = - 127"
  by simp_all

lemma hard_soft [simp]: "hard (map soft w)"
  by (auto simp: hard_def soft_def)

lemma soft_good [simp]: "sint (soft u) = 127 * bsgn u" "sint (- soft u) = - (127 * bsgn u)"
  by (simp_all add: soft_def bsgn_def)

lemma disagree_soft [simp]: "disagree (map soft w) w = 0"
  by (induction w) (simp_all add: disagree_def)

text \<open>One symbol with the wrong sign.\<close>

definition flip_sign :: "nat \<Rightarrow> sbit list \<Rightarrow> sbit list" where
  "flip_sign i xs = xs[i := - (xs ! i)]"

lemma length_flip_sign [simp]: "length (flip_sign i xs) = length xs"
  by (simp add: flip_sign_def)

lemma soft_loud: "sint (soft u) = 127 \<or> sint (soft u) = - 127" "sint (- soft u) = 127 \<or> sint (- soft u) = - 127"
  by (simp_all add: bsgn_def)

lemma hard_flip_sign:
  assumes "i < length w"
  shows "hard (flip_sign i (map soft w))"
  unfolding hard_def
proof
  fix x assume "x \<in> set (flip_sign i (map soft w))"
  then have "x \<in> insert (- soft (w ! i)) (set (map soft w))"
    using assms set_update_subset_insert [of "map soft w" i "- soft (w ! i)"] by (auto simp: flip_sign_def)
  then consider "x = - soft (w ! i)" | u where "x = soft u" by auto
  then show "sint x = 127 \<or> sint x = - 127" using soft_loud by cases blast+
qed

lemma filter_eq_upt: "i < n \<Longrightarrow> filter (\<lambda>j. j = i) [0..<n] = [i]"
  by (induction n) (auto simp: less_Suc_eq)

lemma disagree_flip_sign: "i < length w \<Longrightarrow> disagree (flip_sign i (map soft w)) w = 1"
proof -
  assume i: "i < length w"
  have "bad (flip_sign i (map soft w) ! j) (w ! j) \<longleftrightarrow> j = i" if "j < length w" for j
    using that i by (cases "j = i") (simp_all add: flip_sign_def bsgn_def)
  then have "filter (\<lambda>j. bad (flip_sign i (map soft w) ! j) (w ! j)) [0..<length w] = filter (\<lambda>j. j = i) [0..<length w]"
    by (intro filter_cong) auto
  also have "\<dots> = [i]" by (rule filter_eq_upt [OF i])
  finally show ?thesis using i by (simp add: disagree_upt)
qed

lemma burst_data_map: "burst_data (map f xs) = map f (burst_data xs)"
  by (simp add: burst_data_def map_concat take_map drop_map comp_def)

lemma burst_data_Cons: "burst_data (x # xs) = x # tl (burst_data (x # xs))"
  by (simp add: burst_data_def upt_rec)

lemma burst_data_upd: "xs \<noteq> [] \<Longrightarrow> burst_data (xs[0 := v]) = (burst_data xs)[0 := v]"
  by (cases xs) (simp_all add: burst_data_def upt_rec)

lemma burst_data_flip: "464 \<le> length xs \<Longrightarrow> burst_data (flip_sign 0 xs) = flip_sign 0 (burst_data xs)"
proof -
  assume "464 \<le> length xs"
  then obtain x xs' where x: "xs = x # xs'" by (cases xs) auto
  have "burst_data xs ! 0 = xs ! 0" unfolding x by (subst burst_data_Cons) simp
  then show ?thesis using burst_data_upd [of xs "- (xs ! 0)"] x by (simp add: flip_sign_def)
qed

lemma xcch_encode_total:
  assumes "length l2 = 23" "464 \<le> length bursts"
  shows "\<exists>sent. gsm0503_xcch_encode bursts l2 = Some (0, sent) \<and> length sent = length bursts"
proof -
  obtain ps w where w: "xcch_encode_cB (replicate 456 0) l2 = Some (0, w)" "length w = 456"
    by (rule xcch_encode_cB_ok [OF assms(1), of "replicate 456 0"]) simp_all
  obtain iB where i: "gsm0503_xcch_interleave w (replicate 456 0) = Some iB" "length iB = 456"
    by (rule xcch_interleave_ok [OF w(2), of "replicate 456 0"]) simp_all
  show ?thesis using w(1) i(1) map_bursts_ok [OF assms(2) i(2), of 1 1]
    by (auto simp: gsm0503_xcch_encode_def simp del: map_bursts.simps)
qed

section \<open>Corrections\<close>

text \<open>
  C36. A signalling block survives noise. Whatever the 23 octets are, and whatever the output
  buffers held, the four encoded bursts are decoded to these octets from soft bits that may be
  weak, erased or wrong: if the 456 data bits received are between -127 and 127, and all they lack of
  the full magnitude of what was sent, added up, is less than 7 * 127, which is half of the
  distance of the code (the stealing bits may hold anything). A weak bit lacks what it is below 127,
  an erased one 127, a bit error at full magnitude 254: three such errors are
  corrected, or six erasures, or any mixture of less noise in all. The number of errors reported
  is that of the bits that are erased or have the wrong sign, of 456.
\<close>

theorem xcch_corrects_errors:
  assumes "length l2 = 23" "464 \<le> length bursts" "length out = 23"
    and "gsm0503_xcch_encode bursts l2 = Some (rc, sent)"
    and "464 \<le> length received" "soft_range (burst_data received)"
    and "noise (burst_data received) (burst_data sent) < 7 * 127"
  shows "rc = 0 \<and> gsm0503_xcch_decode out received True =
    Some (0, l2, Some (int (wrong (burst_data received) (burst_data sent)), 456))"
  using xcch_corrects [OF assms(1,2,5,3,4,6), of True] xcch_encode_total [OF assms(1,2)] assms(4,7) by auto

text \<open>All bits received a little weak, and the first one with the wrong sign.\<close>

definition weak :: "ubit \<Rightarrow> sbit" where
  "weak u = (if u \<noteq> 0 then - 126 else 126)"

lemma sint_weak: "sint (weak u) = 126 * bsgn u" "sint (- weak u) = - (126 * bsgn u)"
  by (simp_all add: weak_def bsgn_def)

lemma weak_words:
  "soft_range (map weak w)" "noise (map weak w) w = int (length w)" "wrong (map weak w) w = 0"
proof -
  have b: "bsgn u * bsgn u = 1" "\<bar>bsgn u\<bar> = 1" for u by (simp_all add: bsgn_def)
  show "soft_range (map weak w)" by (auto simp: soft_range_def sint_weak b abs_mult)
  show "noise (map weak w) w = int (length w)" by (induction w) (simp_all add: noise_def sint_weak b)
  show "wrong (map weak w) w = 0" by (induction w) (simp_all add: wrong_def sint_weak b)
qed

lemma weak_flipped:
  assumes "w \<noteq> []"
  shows "soft_range (flip_sign 0 (map weak w))" "noise (flip_sign 0 (map weak w)) w = int (length w) + 252"
    "wrong (flip_sign 0 (map weak w)) w = 1"
proof -
  obtain u v where w: "w = u # v" using assms by (cases w) auto
  have b: "bsgn u * bsgn u = 1" "\<bar>bsgn u\<bar> = 1" by (simp_all add: bsgn_def)
  have f: "flip_sign 0 (map weak w) = - weak u # map weak v" by (simp add: w flip_sign_def)
  show "soft_range (flip_sign 0 (map weak w))" "noise (flip_sign 0 (map weak w)) w = int (length w) + 252"
    "wrong (flip_sign 0 (map weak w)) w = 1"
    unfolding f using weak_words [of v] by (simp_all add: w soft_range_def noise_def wrong_def sint_weak b abs_mult)
qed

theorem xcch_corrects_errors_witness:
  "\<exists>sent. gsm0503_xcch_encode (replicate 464 0) (replicate 23 0x2b) = Some (0, sent) \<and>
    gsm0503_xcch_decode (replicate 23 0) (flip_sign 0 (map weak sent)) True = Some (0, replicate 23 0x2b, Some (1, 456))"
proof -
  obtain sent where s: "gsm0503_xcch_encode (replicate 464 0) (replicate 23 0x2b) = Some (0, sent)" "length sent = 464"
    using xcch_encode_total [of "replicate 23 0x2b" "replicate 464 0"] by auto
  let ?rs = "flip_sign 0 (map weak sent)"
  have b: "burst_data ?rs = flip_sign 0 (map weak (burst_data sent))"
    using burst_data_flip [of "map weak sent"] s(2) by (simp add: burst_data_map)
  have l: "length (burst_data sent) = 456" using s(2) by simp
  then have "burst_data sent \<noteq> []" by auto
  from weak_flipped [OF this] show ?thesis
    using xcch_corrects_errors [of "replicate 23 0x2b" "replicate 464 0" "replicate 23 0" 0 sent ?rs] s l
    by (intro exI [of _ sent]) (simp add: b)
qed

text \<open>
  C37. The Viterbi decoder is a maximum likelihood decoder. For any 456 soft symbols of at most the
  full magnitude the accelerated decoder returns, in spite of metrics of 16 bits that wrap around,
  the 224 input bits of a path through the code whose correlation with the symbols is the largest
  of all paths, those from the zero state being given the advantage of five full symbols.
\<close>

theorem xcch_decodes_most_likely:
  assumes "length sq = 456" "\<forall>x \<in> set sq. \<bar>sint x\<bar> \<le> 127"
  shows "\<exists>p bs. osmo_conv_decode gsm0503_xcch sq = Some (0, map of_nat bs) \<and> p < 16 \<and> bits bs \<and> length bs = 224 \<and>
    (\<forall>q bs'. q < 16 \<longrightarrow> bits bs' \<longrightarrow> length bs' = 224 \<longrightarrow>
      (if q = 0 then 1270 else 0) + dot (map sint sq) (map bsgn (word_of gsm0503_xcch q bs'))
        \<le> (if p = 0 then 1270 else 0) + dot (map sint sq) (map bsgn (word_of gsm0503_xcch p bs)))"
proof -
  have c: "cc_N gsm0503_xcch = 2" "cc_K gsm0503_xcch = 5" "cc_len gsm0503_xcch = 224" "half gsm0503_xcch = 8"
    by (simp_all add: gsm_codes)
  have u: "xcch.U0 q = (if q = 0 then 1270 else 0)" for q by (simp add: xcch.U0_def c)
  have "length sq = cc_N gsm0503_xcch * (cc_len gsm0503_xcch + cc_K gsm0503_xcch - 1)" by (simp add: c assms(1))
  from xcch.decode_ml [OF this assms(2)] show ?thesis unfolding u c by simp
qed

theorem xcch_decodes_most_likely_witness:
  "\<exists>p bs. osmo_conv_decode gsm0503_xcch (replicate 456 0x85) = Some (0, map of_nat bs) \<and> p < 16 \<and> bits bs \<and> length bs = 224 \<and>
    (\<forall>q bs'. q < 16 \<longrightarrow> bits bs' \<longrightarrow> length bs' = 224 \<longrightarrow>
      (if q = 0 then 1270 else 0) + dot (replicate 456 (- 123)) (map bsgn (word_of gsm0503_xcch q bs'))
        \<le> (if p = 0 then 1270 else 0) + dot (replicate 456 (- 123)) (map bsgn (word_of gsm0503_xcch p bs)))"
  using xcch_decodes_most_likely [of "replicate 456 0x85"] by (simp add: map_replicate)

text \<open>
  C38. Random access and colour codes. An access burst of any reference survives three bit errors
  when it is decoded with the colour code it was encoded with; with one that differs in its six
  bits it is rejected, whatever the reference, with the same errors. The errors are counted
  in both cases.
\<close>

theorem rach_colour_codes:
  assumes "36 \<le> length burst" "gsm0503_rach_encode burst ra bsc = Some (rc, sent)"
    and "length received = 36" "hard received" "disagree received (take 36 sent) \<le> 3"
  shows "gsm0503_rach_decode_ber old received bsc' True =
    Some (if bsc AND 0x3f = bsc' AND 0x3f then 0 else - 1, if bsc AND 0x3f = bsc' AND 0x3f then ra else old,
      Some (int (disagree received (take 36 sent)), 36))"
  using rach_corrects [OF assms, of old bsc' True] by simp

theorem rach_colour_codes_witness:
  "\<exists>sent. gsm0503_rach_encode (replicate 36 0) 0x9a 63 = Some (0, sent) \<and>
    gsm0503_rach_decode_ber 0 (flip_sign 0 (map soft sent)) 63 True = Some (0, 0x9a, Some (1, 36)) \<and>
    gsm0503_rach_decode_ber 0 (flip_sign 0 (map soft sent)) 62 True = Some (- 1, 0, Some (1, 36))"
proof -
  obtain sent where s: "gsm0503_rach_encode (replicate 36 0) 0x9a 63 = Some (0, sent)" "length sent = 36"
    by (rule rach_encode_ok [where burst = "replicate 36 0" and ra = "0x9a" and b = 63]) auto
  have l: "0 < length sent" using s(2) by simp
  have d: "disagree (flip_sign 0 (map soft sent)) sent = 1" by (rule disagree_flip_sign [OF l])
  have h: "hard (flip_sign 0 (map soft sent))" by (rule hard_flip_sign [OF l])
  show ?thesis
    using rach_colour_codes [OF _ s(1) _ h, of 0 63] rach_colour_codes [OF _ s(1) _ h, of 0 62] d s
    by (intro exI [of _ sent]) simp
qed

text \<open>
  C39. A synchronisation burst survives three bit errors: the three octets and the bit of the
  fourth that it carries are decoded, and the other bits of the output buffer are left alone.
\<close>

theorem sch_corrects_errors:
  assumes "78 \<le> length burst" "length sb = 4" "gsm0503_sch_encode burst sb = Some (rc, sent)"
    and "length received = 78" "hard received" "disagree received (take 78 sent) \<le> 3" "length out = 4"
  shows "gsm0503_sch_decode out received = Some (0, take 3 sb @ [sb ! 3 AND 1 OR out ! 3 AND NOT 1])"
proof -
  have "4 \<le> length sb" "4 \<le> length out" using assms(2,7) by simp_all
  from sch_corrects [OF assms(1) this(1) assms(3-6) this(2)]
  obtain out' where o: "gsm0503_sch_decode out received = Some (0, out')" "length out' = 4"
    "\<forall>j < 32. pbit_at True out' j = (if j < 25 then pbit_at True sb j else pbit_at True out j)"
    using assms(7) by auto
  then show ?thesis using sch_octets [OF assms(2,7) o(2,3)] by simp
qed

theorem sch_corrects_errors_witness:
  "\<exists>sent. gsm0503_sch_encode (replicate 78 0) [1, 2, 3, 1] = Some (0, sent) \<and>
    gsm0503_sch_decode [0, 0, 0, 0] (flip_sign 0 (map soft sent)) = Some (0, [1, 2, 3, 1])"
proof -
  obtain sent where s: "gsm0503_sch_encode (replicate 78 0) [1, 2, 3, 1] = Some (0, sent)" "length sent = 78"
    by (rule sch_encode_ok [of "replicate 78 0" "[1, 2, 3, 1]"]) simp_all
  have l: "0 < length sent" using s(2) by simp
  have d: "disagree (flip_sign 0 (map soft sent)) sent = 1" by (rule disagree_flip_sign [OF l])
  have h: "hard (flip_sign 0 (map soft sent))" by (rule hard_flip_sign [OF l])
  show ?thesis
    using sch_corrects_errors [OF _ _ s(1) _ h, of "[0, 0, 0, 0]"] d s by (intro exI [of _ sent]) simp
qed

end
