(* ===== verification/AirLink.thy ===== *)
theory AirLink
  imports Gsm0503Props
begin

text \<open>
  The scheduler of trxcon on top of the channel coding: the codec that its handlers were given as a
  parameter is instantiated with the models of the coding functions of \<open>libosmocore\<close> for the
  signalling blocks, the access bursts and the synchronisation bursts, as trxcon calls them. The
  contract that the handlers rely on holds of it, and a signalling block crosses an air interface
  with bit errors.
\<close>

section \<open>The codec\<close>

definition l2_of :: "(int \<times> u8 list \<times> (int \<times> int) option) option \<Rightarrow> int \<times> u8 list \<times> int" where
  "l2_of r = (case r of Some (rc, l2, Some (n_errors, _)) \<Rightarrow> (rc, l2, n_errors) | _ \<Rightarrow> (- 1, [], 0))"

definition buf_of :: "'a list \<Rightarrow> (int \<times> 'a list) option \<Rightarrow> int \<times> 'a list" where
  "buf_of buf r = (case r of Some (rc, out) \<Rightarrow> (rc, out) | None \<Rightarrow> (- 1, buf))"

text \<open>An access out of bounds, which does not happen on the buffers of trxcon, is an error here.\<close>

definition libosmocoding :: "codec \<Rightarrow> codec" where
  "libosmocoding cd = cd\<lparr>
     xcch_decode := \<lambda>b. l2_of (gsm0503_xcch_decode (replicate 23 0) b True),
     xcch_encode := \<lambda>b l2. buf_of b (gsm0503_xcch_encode b l2),
     rach_ext_encode := \<lambda>ra bsc is_11bit. buf_of [] (gsm0503_rach_ext_encode (replicate 36 0) ra bsc is_11bit),
     sch_decode := \<lambda>b. buf_of [] (gsm0503_sch_decode (replicate 4 0) b)\<rparr>"

lemma put_bits_length: "put_bits lsb op bs out = Some out' \<Longrightarrow> length out' = length out"
proof (induction bs arbitrary: op out)
  case (Cons b bs)
  obtain o1 where 1: "put_bit lsb op b out = Some o1" "put_bits lsb (op + 1) bs o1 = Some out'"
    using Cons.prems by (auto split: Option.bind_splits)
  then have "length o1 = length out" by (auto simp: put_bit_def Let_def split: Option.bind_splits)
  then show ?case using Cons.IH [OF 1(2)] by simp
qed simp

lemma ubit2pbit_ext_length: "osmo_ubit2pbit_ext out ofs bs i n lsb = Some (r, out') \<Longrightarrow> length out' = length out"
  by (auto simp: osmo_ubit2pbit_ext_def dest: put_bits_length split: Option.bind_splits)

lemma xcch_decode_length: "gsm0503_xcch_decode out b w = Some (rc, l2, e) \<Longrightarrow> length l2 = length out"
  by (auto simp: gsm0503_xcch_decode_def xcch_decode_cB_def dest!: ubit2pbit_ext_length
      split: Option.bind_splits if_splits)

lemma sch_decode_length: "gsm0503_sch_decode out b = Some (rc, sb) \<Longrightarrow> length sb = length out"
  by (auto simp: gsm0503_sch_decode_def dest!: ubit2pbit_ext_length split: Option.bind_splits if_splits)

lemma rach_encode_length: "gsm0503_rach_ext_encode b ra bsc x = Some (rc, b') \<Longrightarrow> length b' = length b"
  by (auto simp: gsm0503_rach_ext_encode_def Let_def length_mem_write split: Option.bind_splits if_splits)

text \<open>The contract of the handlers, for the parts of the codec that are modelled.\<close>

lemma wf_libosmocoding: "wf_codec cd \<Longrightarrow> wf_codec (libosmocoding cd)"
proof -
  assume cd: "wf_codec cd"
  have 1: "length (snd (buf_of b (gsm0503_xcch_encode b l2))) = 464" if bl: "length b = 464" "length l2 = 23" for b l2
  proof -
    have "464 \<le> length b" using bl(1) by simp
    from xcch_encode_total [OF bl(2) this] show ?thesis using bl(1) by (auto simp: buf_of_def)
  qed
  have 2: "23 \<le> length l2" if "l2_of (gsm0503_xcch_decode (replicate 23 0) b True) = (0, l2, e)" for b l2 e
    using that by (auto simp: l2_of_def dest!: xcch_decode_length split: option.splits)
  have 3: "36 \<le> length pl" if "buf_of [] (gsm0503_rach_ext_encode (replicate 36 0) ra bsc x) = (0, pl)" for ra bsc x pl
    using that by (auto simp: buf_of_def dest!: rach_encode_length split: option.splits)
  have 4: "4 \<le> length sb" if "buf_of [] (gsm0503_sch_decode (replicate 4 0) b) = (0, sb)" for b sb
    using that by (auto simp: buf_of_def dest!: sch_decode_length split: option.splits)
  show ?thesis using cd unfolding wf_codec_def libosmocoding_def by (auto simp: 1 dest: 2 3 4)
qed

section \<open>A block on the air\<close>

text \<open>The coded bits on four bursts.\<close>

definition on_air :: "'a list list \<Rightarrow> 'a list" where
  "on_air bursts = burst_data (concat (map burst_payload bursts))"

lemma tx_on_air:
  assumes "unat (tsc trx) < 8"
    and "wf_lchan l" "active l" "served_by_tx TX_DATA l" "tx_burst_mask l = 0"
    and "cur_prim l = Some p" "payload_len p = GSM_MACBLOCK_LEN" "block_reqs brs"
  obtains b0 b brs' where "tx_run (tx_data_fn (libosmocoding cd) tn trx) l brs =
      Some (l\<lparr>tx_bursts := Some b, cur_prim := None\<rparr>, brs', [sched_send_dt_conf tn trx l (br_fn (brs ! 3)) False])"
    "length b0 = 464" "gsm0503_xcch_encode b0 (payload p) = Some (0, b)" "length b = 464"
    "concat (map (burst_payload \<circ> br_burst) brs') = b" "length brs' = 4" "\<forall>br \<in> set brs'. 148 \<le> length (br_burst br)"
proof -
  have pl: "length (payload p) = 23" using assms(2,6,7) by (auto simp: wf_lchan_def wf_prim_def)
  obtain b0 where b0: "tx_bursts l = Some b0" "length b0 = 464"
    using wf_lchan_tx_buf [OF assms(2-4)] tx_fn_buf_size(1) [OF assms(4)] by auto
  then have "464 \<le> length b0" by simp
  from xcch_encode_total [OF pl this] obtain b where e: "gsm0503_xcch_encode b0 (payload p) = Some (0, b)" "length b = 464"
    using b0(2) by auto
  have "xcch_encode (libosmocoding cd) (the (tx_bursts l)) (payload p) = (0, b)"
    using b0(1) e(1) by (simp add: libosmocoding_def buf_of_def)
  from tx_data_block [OF assms(1-4,6,7,5) this e(2) assms(8), of tn]
  obtain brs' where t: "tx_run (tx_data_fn (libosmocoding cd) tn trx) l brs =
      Some (l\<lparr>tx_bursts := Some b, cur_prim := None\<rparr>, brs', [sched_send_dt_conf tn trx l (br_fn (brs ! 3)) False])"
    "concat (map (\<lambda>br. burst_payload (br_burst br)) brs') = b" "list_all2 same_req brs brs'" .
  have "148 \<le> length (br_burst r)" if "r \<in> set brs'" for r
  proof -
    obtain i where i: "i < length brs'" "brs' ! i = r" using \<open>r \<in> set brs'\<close> unfolding in_set_conv_nth by blast
    then have "i < length brs" "same_req (brs ! i) r" using t(3) by (auto simp: list_all2_conv_all_nth)
    then obtain q where "q \<in> set brs" "same_req q r" by (meson nth_mem)
    then show ?thesis using assms(8) by (auto simp: block_reqs_def same_req_def wf_req_def)
  qed
  moreover have "length brs' = 4" using t(3) assms(8) by (auto simp: block_reqs_def dest: list_all2_lengthD)
  ultimately show thesis using that [OF t(1) b0(2) e] t(2) by (simp add: comp_def)
qed

text \<open>
  C40. From the layer 2 of one station to that of the other. A channel that is given a 23 octet
  frame sends it on four normal bursts, and a receiver of the same kind of channel, in any state of
  its own, indicates that frame, once, whatever measurements come with the bursts, when up to
  three of the 456 coded bits were received with the wrong sign: the indication says how many. The
  training sequences, the tails and the stealing bits may hold anything.
\<close>

theorem xcch_block_over_air:
  assumes "unat (tsc trx) < 8"
    and "wf_lchan l" "active l" "served_by_tx TX_DATA l" "tx_burst_mask l = 0"
    and "cur_prim l = Some p" "payload_len p = GSM_MACBLOCK_LEN" "block_reqs brs"
    and "tx_run (tx_data_fn (libosmocoding cd) tn trx) l brs = Some (l', brs', evs)"
    and "wf_lchan m" "active m" "served_by_rx RX_DATA m" "length ms = 4" "length fns = 4"
    and "length rxs = 4" "\<forall>x \<in> set rxs. GSM_BURST_LEN \<le> length x"
    and "hard (on_air rxs)" "disagree (on_air rxs) (on_air (map br_burst brs')) \<le> 3"
  shows "\<exists>m'. rx_data_run (libosmocoding cd') tn' trx' m (zip fns (zip [0..<4] (zip rxs ms))) =
    Some (m', [sched_send_dt_ind tn' trx' m' (payload p) (int (disagree (on_air rxs) (on_air (map br_burst brs')))) False False])"
proof -
  have pl: "length (payload p) = 23" using assms(2,6,7) by (auto simp: wf_lchan_def wf_prim_def)
  obtain b0 b brs'' where t: "tx_run (tx_data_fn (libosmocoding cd) tn trx) l brs =
      Some (l\<lparr>tx_bursts := Some b, cur_prim := None\<rparr>, brs'', [sched_send_dt_conf tn trx l (br_fn (brs ! 3)) False])"
    "length b0 = 464" "gsm0503_xcch_encode b0 (payload p) = Some (0, b)" "concat (map (burst_payload \<circ> br_burst) brs'') = b"
    by (rule tx_on_air [OF assms(1-8), of cd tn])
  have air: "on_air (map br_burst brs') = burst_data b"
    using t(1,4) assms(9) by (simp add: on_air_def)
  obtain x0 x1 x2 x3 where x: "rxs = [x0, x1, x2, x3]"
    using assms(15) by (auto simp: length_Suc_conv numeral_eq_Suc)
  obtain f0 f1 f2 f3 m0 m1 m2 m3 where fm: "fns = [f0, f1, f2, f3]" "ms = [m0, m1, m2, m3]"
    using assms(13,14) by (auto simp: length_Suc_conv numeral_eq_Suc)
  let ?its = "zip fns (zip [0..<4] (zip rxs ms))"
  have its: "?its = [(f0, 0, x0, m0), (f1, 1, x1, m1), (f2, 2, x2, m2), (f3, 3, x3, m3)]"
    by (simp add: x fm upt_rec)
  have ok: "block_items ?its" using assms(16) [unfolded x] unfolding its by (simp add: block_items_def)
  have c: "concat (map (\<lambda>(fn, bid, bits, meas). burst_payload bits) ?its) = concat (map burst_payload rxs)"
    unfolding its by (simp add: x)
  have "length (burst_payload y) = 116" if "y \<in> set rxs" for y
    using bspec [OF assms(16) that] by (simp add: burst_payload_def)
  then have l: "length (concat (map burst_payload rxs)) = 464" by (simp add: x)
  have "gsm0503_xcch_decode (replicate 23 0) (concat (map burst_payload rxs)) True =
      Some (0, payload p, Some (int (disagree (on_air rxs) (on_air (map br_burst brs'))), 456))"
    using xcch_corrects_hard [OF pl _ _ _ t(3), of "concat (map burst_payload rxs)" "replicate 23 0" True] assms(17,18) air l t(2)
    by (simp add: on_air_def)
  then have dec: "xcch_decode (libosmocoding cd') (concat (map (\<lambda>(fn, bid, bits, meas). burst_payload bits) ?its)) =
      (0, payload p, int (disagree (on_air rxs) (on_air (map br_burst brs'))))"
    unfolding c by (simp add: libosmocoding_def l2_of_def)
  from rx_data_block [OF assms(10-12) ok dec, of tn' trx'] pl show ?thesis by auto
qed

theorem xcch_block_over_air_witness:
  "\<exists>l' brs' m'. tx_run (tx_data_fn (libosmocoding fixed_codec) 0 phy0) (fresh_lchan TRXC_SDCCH8_0 \<lparr>cur_prim := Some fill_prim\<rparr>)
        (map (\<lambda>i. new_req 7 0 0 i) [0..<4])
      = Some (l', brs', [sched_send_dt_conf 0 phy0 (fresh_lchan TRXC_SDCCH8_0 \<lparr>cur_prim := Some fill_prim\<rparr>) 7 False])
    \<and> rx_data_run (libosmocoding fixed_codec) 0 phy0 (fresh_lchan TRXC_SDCCH8_0)
        (zip [4, 5, 6, 7] (zip [0..<4] (zip (flip_sign 3 (map soft (br_burst (brs' ! 0))) # map (map soft \<circ> br_burst) (tl brs')) (replicate 4 meas0))))
      = Some (m', [sched_send_dt_ind 0 phy0 m' (replicate 23 0x2b) 1 False False])"
proof -
  let ?p = fill_prim and ?f = "fresh_lchan TRXC_SDCCH8_0" and ?brs = "map (\<lambda>i. new_req 7 0 0 i) [0..<4]"
  let ?l = "?f\<lparr>cur_prim := Some ?p\<rparr>"
  have 1: "block_reqs ?brs"
    by (simp add: block_reqs_def upt_rec wf_req_def new_req_def)
  have 2: "wf_lchan ?f" "wf_lchan ?l"
    by (rule wf_fresh_lchan, rule wf_fresh_lchan_prim) (simp_all add: fill_prim_def wf_prim_def chan_is_sacch_def)
  have 3: "unat (tsc phy0) < 8" "active ?l" "served_by_tx TX_DATA ?l" "tx_burst_mask ?l = 0" "cur_prim ?l = Some ?p"
    "payload_len ?p = GSM_MACBLOCK_LEN" "active ?f" "served_by_rx RX_DATA ?f" "payload ?p = replicate 23 0x2b" "br_fn (?brs ! 3) = 7"
    by (simp_all add: fresh_lchan_def fill_prim_def phy0_def new_req_def new_lchan_def)
  obtain b0 b brs' where t: "tx_run (tx_data_fn (libosmocoding fixed_codec) 0 phy0) ?l ?brs =
      Some (?l\<lparr>tx_bursts := Some b, cur_prim := None\<rparr>, brs', [sched_send_dt_conf 0 phy0 ?l (br_fn (?brs ! 3)) False])"
    "length b = 464" "concat (map (burst_payload \<circ> br_burst) brs') = b" "length brs' = 4" "\<forall>br \<in> set brs'. 148 \<le> length (br_burst br)"
    by (rule tx_on_air [OF 3(1) 2(2) 3(2-6) 1])
  obtain s0 s1 s2 s3 where s: "brs' = [s0, s1, s2, s3]" using t(4) by (auto simp: length_Suc_conv numeral_eq_Suc)
  let ?rxs = "flip_sign 3 (map soft (br_burst (brs' ! 0))) # map (map soft \<circ> br_burst) (tl brs')"
  have pm: "burst_payload (map soft x) = map soft (burst_payload x)" for x
    by (simp add: burst_payload_def take_map drop_map)
  have pf: "burst_payload (flip_sign 3 x) = flip_sign 0 (burst_payload x)" if "148 \<le> length x" for x
    using that by (simp add: flip_sign_def burst_payload_def take_update_swap drop_update_swap list_update_append nth_append)
  have "concat (map burst_payload ?rxs) = flip_sign 0 (map soft b)"
  proof -
    have "0 < length (burst_payload (br_burst s0))" using t(5) s by (simp add: burst_payload_def)
    then show ?thesis using t(5) pf [of "map soft (br_burst s0)"]
      by (simp add: s pm flip_sign_def list_update_append nth_append flip: t(3))
  qed
  then have r: "on_air ?rxs = flip_sign 0 (map soft (burst_data b))"
    using burst_data_flip [of "map soft b"] t(2) by (simp add: on_air_def burst_data_map)
  have a: "on_air (map br_burst brs') = burst_data b" using t(3) by (simp add: on_air_def)
  have l: "0 < length (burst_data b)" using t(2) by simp
  have d: "disagree (on_air ?rxs) (on_air (map br_burst brs')) = 1" unfolding r a by (rule disagree_flip_sign [OF l])
  have h: "hard (on_air ?rxs)" unfolding r by (rule hard_flip_sign [OF l])
  have len: "length ?rxs = 4" "\<forall>x \<in> set ?rxs. GSM_BURST_LEN \<le> length x" using t(5) by (simp_all add: s)
  have "disagree (on_air ?rxs) (on_air (map br_burst brs')) \<le> 3" unfolding d by simp
  from xcch_block_over_air [OF 3(1) 2(2) 3(2-6) 1 t(1) 2(1) 3(7,8) _ _ len h this, of "replicate 4 meas0" "[4, 5, 6, 7]" fixed_codec 0 phy0]
  obtain m' where "rx_data_run (libosmocoding fixed_codec) 0 phy0 ?f (zip [4, 5, 6, 7] (zip [0..<4] (zip ?rxs (replicate 4 meas0)))) =
      Some (m', [sched_send_dt_ind 0 phy0 m' (payload ?p) (int 1) False False])" unfolding d by auto
  then show ?thesis using t(1) unfolding 3(9,10) of_nat_1 by blast
qed

end
