(* ===== verification/Spec2Isabelle.thy ===== *)
theory Spec2Isabelle
  imports TdmaTime SchedMframe SchedDesc SchedMeas SchedTchh SchedPrim
    SchedLchanCommon SchedLchanXcch SchedLchanTch SchedLchanRach
    SchedClck SchedTrxProps SchedTrxLoss SchedTrxAdmin
    ArfcnFreq TrxIfQueue TrxIfReply TrxIfData
    L1ctlReq Trxcon Sercomm Tlv
    ConvCode ConvAcc Viterbi ConvGsm BitsCrc ChanMap Gsm0503 Gsm0503Ok Gsm0503Props AirLink
begin

text \<open>
  A verification library for OsmocomBB: the program \<open>trxcon\<close>
  (\<open>src/osmocom-bb/src/host/trxcon\<close>), which runs the GSM layer 1 of a mobile station on top of
  a software transceiver, the parts of \<open>libosmocore\<close> (\<open>src/libosmocore\<close>) it stands on, and the serial link of the
  phone firmware.

  How the parts interact. The layer 2 and 3 application talks to trxcon over the L1CTL socket
  (\<open>l1ctl.c\<close>, \<open>l1ctl_link.c\<close>). Its requests configure timeslots and logical channels of the
  scheduler (\<open>sched_trx.c\<close>), put frames into transmit queues (\<open>sched_prim.c\<close>), and queue
  commands for the transceiver (\<open>trx_if.c\<close>). The transceiver sends received bursts, which the
  scheduler dispatches to the channel handlers (\<open>sched_lchan_*.c\<close>) by the multiframe tables
  (\<open>sched_mframe.c\<close>), and every 51st frame number drives the frame clock
  (\<open>sched_clck.c\<close>), whose ticks make the scheduler compose one burst per timeslot and frame.

  State. A C structure is a record with the names of its members, an enumeration a datatype,
  an N bit integer a word of N bits where it can wrap; lists, queues and arrays are lists. The
  state of the whole program is \<open>l1ctl_link\<close> (\<open>L1ctl\<close>), which contains the transceiver
  interface \<open>trx_if\<close> (\<open>TrxIf\<close>), which contains the scheduler's \<open>trx_instance\<close>
  (\<open>SchedTrx\<close>) with its timeslots, channel states and clock (\<open>SchedTypes\<close>). A function that
  can hit a failed assertion, a null pointer or the end of a buffer returns an option, and
  \<open>None\<close> is that behaviour. Messages and datagrams sent are lists of events in the result.

  The theories:

  \<open>Prelude\<close>: machine types, error codes and the list and word lemmas the others share.
  \<open>TdmaTime\<close>: frame numbers, GSM time, block remapping and frequency hopping
  (\<open>gsm0502.h\<close>, \<open>gsm0502.c\<close>, \<open>gsm_utils.c\<close>, the firmware's \<open>rfch.c\<close>): round trips, the
  remapping finds the first frame of a block, both hopping generators select the frequency of the
  standard within the bounds of their tables, and mobiles with different offsets never collide.
  \<open>TrxTypes\<close>, \<open>SchedMframe\<close>, \<open>SchedDesc\<close>: the logical channels, the multiframe tables and the
  channel descriptors (\<open>sched_lchan_desc.c\<close>): the tables send the bursts of every block in order.
  \<open>SchedMeas\<close>: the measurement history, and where its average is wrong. \<open>SchedTchh\<close>: the
  block maps of TCH/H agree with the tables.
  \<open>SchedPrim\<close>: the transmit queue; a locale for a selection rule, interpreted for every rule.
  \<open>SchedLchanCommon\<close>, \<open>SchedLchanXcch\<close>, \<open>SchedLchanTch\<close>, \<open>SchedLchanRach\<close>: the channel
  handlers; locales for the contracts of a transmit and a receive handler, interpreted for each.
  \<open>SchedClck\<close>: the frame clock: no frame is missed or repeated, and when an indication loops.
  \<open>SchedTrx\<close>: the core of the scheduler. \<open>SchedTrxInv\<close>: its invariant, preserved by every
  operation. \<open>SchedTrxProps\<close>: called within its requirements, it never gets stuck. \<open>SchedTrxLoss\<close>: compensation of lost frames.
  \<open>SchedTrxAdmin\<close>: ciphering, channel activation, refused configurations.
  \<open>ArfcnFreq\<close>: channel numbers and frequencies (\<open>gsm_utils.c\<close>). \<open>CText\<close>: C strings.
  \<open>TrxIf\<close>: the transceiver interface. \<open>TrxIfQueue\<close>: its control queue refines an abstract
  stop-and-wait protocol, a locale, and commands are sent in the order of their requests. \<open>TrxIfReply\<close>: responses drain the queue, failures stall it,
  power scans are complete. \<open>TrxIfData\<close>: burst datagrams and the hopping command.
  \<open>L1ctl\<close>: the L1CTL server. \<open>L1ctlInv\<close>: every request keeps the invariant. \<open>L1ctlReq\<close>: what
  the establishment of a channel and a data request do, exactly. \<open>Trxcon\<close>: the select loop of
  the program as a transition system, and its type soundness.
  \<open>Tlv\<close>: the parser and encoder of information elements (\<open>tlv_parser.c\<close>): the parser stays inside
  its buffer, and parsing inverts encoding.
  \<open>Sercomm\<close>: the multiplexer between the phone and the host (the firmware's \<open>sercomm.c\<close>): a
  transmitter and a receiver deliver every message in order, and resynchronise after noise.

  \<open>ConvCode\<close>, \<open>ConvAcc\<close>: the convolutional encoder and decoders (\<open>conv.c\<close>, \<open>conv_acc.c\<close>,
  \<open>conv_acc_generic.c\<close>). \<open>Viterbi\<close>: a locale for the codes the accelerated decoder is made for;
  inside it, its 16 bit metrics follow the exact recursion, and it is a maximum likelihood decoder.
  \<open>ConvGsm\<close>: the generator of the codes (\<open>conv_gen.py\<close>), the codes of three channels, their free
  distance, and the interpretations of the locale on them.
  \<open>BitsCrc\<close>: bits and CRC (\<open>bits.c\<close>, \<open>crcXXgen.c.tpl\<close>). \<open>ChanMap\<close>: interleaving and mapping on
  bursts (\<open>gsm0503_interleaving.c\<close>, \<open>gsm0503_mapping.c\<close>); a locale for an index function, interpreted
  on those of the code, gives that deinterleaving inverts interleaving.
  \<open>Gsm0503\<close>: the coding of signalling blocks, access bursts and synchronisation bursts
  (\<open>gsm0503_coding.c\<close>). \<open>Gsm0503Ok\<close>, \<open>Gsm0503Props\<close>: what is encoded is decoded, with
  noise of less than seven bits at full magnitude, such as three bit errors. \<open>AirLink\<close>: this coding as the codec of the scheduler; a signalling block of
  trxcon crosses an air interface with bit errors.

  Bounds and fuel. No definition takes fuel: the loops of the code are structural recursions,
  recursions with a measure, or, for the catch-up loop of the clock, a partial function whose
  termination is characterised exactly.

  Parameters. The channel coding functions and the A5 ciphers of \<open>libosmocore\<close> are the fields
  of the record \<open>codec\<close>; \<open>wf_codec\<close> states what the handlers rely on, the sizes of their
  results; \<open>AirLink\<close> instantiates those of the signalling, access and synchronisation bursts. The
  random fill octets and the time of day are arguments.

  Not modelled. The decoders for vector units, and the traffic and packet data
  channels of the channel coding. Logging, GSMTAP copies, sockets beyond what their reads return, allocation
  failure, program options; the rest of \<open>libosmocore\<close>, the firmware and the layer 2 and 3
  applications, which the manifest lists part by part.
\<close>

end
